(* ===== verification/Prelude.thy ===== *)
theory Prelude
  imports Main "HOL-Library.List_Lexorder" "HOL-Library.Char_ord" "HOL-Library.Product_Lexorder"
    "HOL-Library.Multiset"
begin

text \<open>
  Shared vocabulary of the development: Python dictionaries as insertion-ordered
  association lists, Python's stable sorts and first-maximum selection, slicing, and
  the interfaces that several components implement:
  \<^item> \<open>keyed_store\<close>: lookup after update and delete, as Python's \<open>dict\<close> promises;
  \<^item> \<open>invariant_machine\<close>: an operation-driven component whose every operation keeps an
    invariant, so that every run keeps it;
  \<^item> \<open>settled_once\<close>: a component in which an outcome, once recorded for a key, is never
    replaced by a later operation (run stops, latches);
  \<^item> \<open>admitted_invariant\<close> and \<open>settled_while\<close>: the same as long as only admitted operations
    happen (retention and deletion excepted);
  \<^item> \<open>final_until_gone\<close>: a store whose final rows may disappear but never change;
  \<^item> \<open>refines\<close>: one operation-driven component implements another through an abstraction.
\<close>

named_theorems dict_simps "rewriting of lookups in updated dictionaries"
named_theorems inv_intros "each operation keeps its component's invariant"

section \<open>Python dictionaries\<close>

text \<open>
  A \<open>dict\<close> keeps its keys in insertion order; writing an existing key keeps its place
  and writing a new key appends it.
\<close>

type_synonym ('k, 'v) dict = "('k \<times> 'v) list"

definition dget :: "('k, 'v) dict \<Rightarrow> 'k \<Rightarrow> 'v option" where
  "dget d k = map_of d k"

fun dset :: "'k \<Rightarrow> 'v \<Rightarrow> ('k, 'v) dict \<Rightarrow> ('k, 'v) dict" where
  "dset k v [] = [(k, v)]"
| "dset k v ((k', v') # d) = (if k = k' then (k, v) # d else (k', v') # dset k v d)"

definition dpop :: "'k \<Rightarrow> ('k, 'v) dict \<Rightarrow> ('k, 'v) dict" where
  "dpop k d = filter (\<lambda>p. fst p \<noteq> k) d"

definition dhas :: "('k, 'v) dict \<Rightarrow> 'k \<Rightarrow> bool" where
  "dhas d k \<longleftrightarrow> k \<in> set (map fst d)"

definition dvalues :: "('k, 'v) dict \<Rightarrow> 'v list" where
  "dvalues d = map snd d"

definition dict_ok :: "('k, 'v) dict \<Rightarrow> bool" where
  "dict_ok d \<longleftrightarrow> distinct (map fst d)"

definition dpops :: "'k list \<Rightarrow> ('k, 'v) dict \<Rightarrow> ('k, 'v) dict" where
  "dpops ks d = filter (\<lambda>p. fst p \<notin> set ks) d"

definition dsetdefault :: "'k \<Rightarrow> 'v \<Rightarrow> ('k, 'v) dict \<Rightarrow> ('k, 'v) dict" where
  "dsetdefault k v d = (if dhas d k then d else dset k v d)"

lemma dget_Nil [simp]: "dget [] k = None"
  by (simp add: dget_def)

lemma dget_Cons [simp]: "dget ((k', v) # d) k = (if k = k' then Some v else dget d k)"
  by (simp add: dget_def)

lemma dget_dset [dict_simps, simp]: "dget (dset k v d) k' = (if k' = k then Some v else dget d k')"
  by (induction d) auto

lemma dget_dpop [dict_simps, simp]: "dget (dpop k d) k' = (if k' = k then None else dget d k')"
  by (induction d) (auto simp: dpop_def)

lemma dget_dpops [dict_simps, simp]: "dget (dpops ks d) k' = (if k' \<in> set ks then None else dget d k')"
  by (induction d) (auto simp: dpops_def)

lemma dset_list_all: "list_all (\<lambda>e. P (snd e)) d \<Longrightarrow> P v \<Longrightarrow> list_all (\<lambda>e. P (snd e)) (dset k v d)"
  by (induction k v d rule: dset.induct) auto

lemma keys_dset [simp]: "fst ` set (dset k v d) = insert k (fst ` set d)"
proof (induction d)
  case Nil
  then show ?case by simp
next
  case (Cons p d)
  then show ?case by (cases p) (simp add: insert_commute)
qed

lemma dict_ok_Nil [simp, intro]: "dict_ok []"
  by (simp add: dict_ok_def)

lemma dict_ok_dset [simp, intro, inv_intros]: "dict_ok d \<Longrightarrow> dict_ok (dset k v d)"
proof (induction d)
  case Nil
  then show ?case by (simp add: dict_ok_def)
next
  case (Cons p d)
  obtain k' v' where p: "p = (k', v')" by (cases p)
  from Cons.prems p have d: "dict_ok d" and k': "k' \<notin> set (map fst d)"
    by (auto simp: dict_ok_def)
  show ?case
  proof (cases "k = k'")
    case True
    with Cons.prems p show ?thesis by (simp add: dict_ok_def)
  next
    case False
    with k' have "k' \<notin> set (map fst (dset k v d))" by simp
    with Cons.IH [OF d] False p show ?thesis by (simp add: dict_ok_def)
  qed
qed

lemma dict_ok_filter [simp, intro]: "dict_ok d \<Longrightarrow> dict_ok (filter P d)"
  by (simp add: dict_ok_def distinct_map inj_on_def)

lemma dict_ok_dpop [simp, intro, inv_intros]: "dict_ok d \<Longrightarrow> dict_ok (dpop k d)"
  by (simp add: dpop_def)

lemma dict_ok_dpops [simp, intro, inv_intros]: "dict_ok d \<Longrightarrow> dict_ok (dpops ks d)"
  by (simp add: dpops_def)

lemma dhas_dget: "dhas d k \<longleftrightarrow> dget d k \<noteq> None"
  by (simp add: dhas_def dget_def map_of_eq_None_iff)

lemma dhas_dset: "dhas (dset k v d) k' \<longleftrightarrow> k' = k \<or> dhas d k'"
  by (simp add: dhas_dget)

lemma dget_in: "dget d k = Some v \<Longrightarrow> (k, v) \<in> set d"
  by (simp add: dget_def map_of_SomeD)

lemma dict_ok_dget: "dict_ok d \<Longrightarrow> dget d k = Some v \<longleftrightarrow> (k, v) \<in> set d"
  by (simp add: dict_ok_def dget_def map_of_eq_Some_iff)

lemma dvalues_mem: "dict_ok d \<Longrightarrow> v \<in> set (dvalues d) \<longleftrightarrow> (\<exists>k. dget d k = Some v)"
  by (force simp: dvalues_def dict_ok_dget)

lemma length_dset: "length (dset k v d) = (if dhas d k then length d else Suc (length d))"
  by (induction d) (force simp: dhas_def)+

lemma dset_notin: "\<not> dhas d k \<Longrightarrow> dset k v d = d @ [(k, v)]"
  by (induction d) (auto simp: dhas_def)

lemma length_dpop_le [simp]: "length (dpop k d) \<le> length d"
  by (simp add: dpop_def)

lemma set_dset: "dict_ok d \<Longrightarrow> set (dset k v d) = insert (k, v) {p \<in> set d. fst p \<noteq> k}"
proof (induction d)
  case Nil
  then show ?case by simp
next
  case (Cons p d)
  then have "dict_ok d" and "fst p \<notin> fst ` set d" by (auto simp: dict_ok_def)
  with Cons.IH show ?case by (cases p) force
qed

lemma dict_ok_pair_unique:
  assumes "dict_ok d" and "(k, a) \<in> set d" and "(k, b) \<in> set d"
  shows "a = b"
proof -
  from assms have "dget d k = Some a" and "dget d k = Some b" by (simp_all add: dict_ok_dget)
  then show ?thesis by simp
qed

lemma length_dpop_mem:
  assumes "dict_ok d" and "dhas d k"
  shows "Suc (length (dpop k d)) = length d"
  using assms
proof (induction d)
  case Nil
  then show ?case by (simp add: dhas_def)
next
  case (Cons p d)
  then have ok: "dict_ok d" by (simp add: dict_ok_def)
  show ?case
  proof (cases "fst p = k")
    case True
    with Cons.prems have "k \<notin> set (map fst d)" by (auto simp: dict_ok_def)
    then have "filter (\<lambda>p. fst p \<noteq> k) d = d" by (auto intro: filter_True)
    with True show ?thesis by (simp add: dpop_def)
  next
    case False
    with Cons.prems ok have "dhas d k" by (auto simp: dhas_def)
    with Cons.IH ok False show ?thesis by (simp add: dpop_def)
  qed
qed

lemma dget_filter_keep: "dget tbl k = Some r \<Longrightarrow> P (k, r) \<Longrightarrow> dget (filter P tbl) k = Some r"
  by (induction tbl) (auto split: if_splits)

lemma dpops_filter_keys:
  assumes "dict_ok d"
  shows "dpops (map fst (filter P d)) d = filter (\<lambda>p. \<not> P p) d"
proof -
  have "fst p \<in> set (map fst (filter P d)) \<longleftrightarrow> P p" if "p \<in> set d" for p
  proof
    assume "fst p \<in> set (map fst (filter P d))"
    then obtain q where q: "q \<in> set d" "P q" "fst q = fst p" by auto
    with that dict_ok_pair_unique [OF assms, of "fst p" "snd q" "snd p"] have "q = p"
      by (metis prod.collapse)
    with q show "P p" by simp
  qed (use that in auto)
  then show ?thesis unfolding dpops_def by (intro filter_cong) blast+
qed

section \<open>Sorting, selection and slicing\<close>

text \<open>
  Python's \<open>sort\<close> is stable, also with \<open>reverse=True\<close>, where equal elements keep their
  original order. \<open>max\<close> and \<open>min\<close> with a key return the first extreme element.
\<close>

definition py_sort_desc :: "('a \<Rightarrow> 'k::linorder) \<Rightarrow> 'a list \<Rightarrow> 'a list" where
  "py_sort_desc f xs = rev (sort_key f (rev xs))"

fun py_max_by :: "('a \<Rightarrow> 'k::linorder) \<Rightarrow> 'a \<Rightarrow> 'a list \<Rightarrow> 'a" where
  "py_max_by f best [] = best"
| "py_max_by f best (x # xs) = py_max_by f (if f best < f x then x else best) xs"

fun py_min_by :: "('a \<Rightarrow> 'k::linorder) \<Rightarrow> 'a \<Rightarrow> 'a list \<Rightarrow> 'a" where
  "py_min_by f best [] = best"
| "py_min_by f best (x # xs) = py_min_by f (if f x < f best then x else best) xs"

text \<open>\<open>xs[offset : offset + limit]\<close> for non-negative bounds, and \<open>xs[-n:]\<close>.\<close>

definition py_page :: "nat \<Rightarrow> nat \<Rightarrow> 'a list \<Rightarrow> 'a list" where
  "py_page offset limit xs = take limit (drop offset xs)"

definition py_last :: "nat \<Rightarrow> 'a list \<Rightarrow> 'a list" where
  "py_last n xs = (if n = 0 then xs else drop (length xs - n) xs)"

lemma mset_py_sort_desc [simp]: "mset (py_sort_desc f xs) = mset xs"
  by (simp add: py_sort_desc_def)

lemma set_py_sort_desc [simp]: "set (py_sort_desc f xs) = set xs"
  by (simp add: py_sort_desc_def)

lemma length_py_sort_desc [simp]: "length (py_sort_desc f xs) = length xs"
  by (simp add: py_sort_desc_def)

lemma sorted_py_sort_desc: "sorted_wrt (\<lambda>a b. f b \<le> f a) (py_sort_desc f xs)"
proof -
  have "sorted_wrt (\<lambda>a b. f a \<le> f b) (sort_key f (rev xs))"
    using sorted_sort_key [of f "rev xs"] by (simp add: sorted_wrt_map)
  then show ?thesis by (simp add: py_sort_desc_def sorted_wrt_rev)
qed

lemma py_max_by_mem: "py_max_by f b xs \<in> set (b # xs)"
  by (induction xs arbitrary: b) (simp, fastforce)

lemma py_max_by_ge: "x \<in> set (b # xs) \<Longrightarrow> f x \<le> f (py_max_by f b xs)"
proof (induction xs arbitrary: b x)
  case Nil
  then show ?case by simp
next
  case (Cons y ys)
  let ?b = "if f b < f y then y else b"
  have b: "f ?b \<le> f (py_max_by f ?b ys)" using Cons.IH [of ?b ?b] by simp
  from Cons.prems consider "x = b" | "x = y" | "x \<in> set ys" by auto
  then show ?case
  proof cases
    case 3
    then show ?thesis using Cons.IH [of x ?b] by simp
  qed (use b in \<open>auto split: if_splits\<close>)
qed

lemma py_min_by_mem: "py_min_by f b xs \<in> set (b # xs)"
  by (induction xs arbitrary: b) (simp, fastforce)

lemma py_min_by_le: "x \<in> set (b # xs) \<Longrightarrow> f (py_min_by f b xs) \<le> f x"
proof (induction xs arbitrary: b x)
  case Nil
  then show ?case by simp
next
  case (Cons y ys)
  let ?b = "if f y < f b then y else b"
  have b: "f (py_min_by f ?b ys) \<le> f ?b" using Cons.IH [of ?b ?b] by simp
  from Cons.prems consider "x = b" | "x = y" | "x \<in> set ys" by auto
  then show ?case
  proof cases
    case 3
    then show ?thesis using Cons.IH [of x ?b] by simp
  qed (use b in \<open>auto split: if_splits\<close>)
qed

lemma map_insort_key:
  "(\<And>y. y \<in> set ys \<Longrightarrow> f x \<le> f y \<longleftrightarrow> g (h x) \<le> g (h y)) \<Longrightarrow> map h (insort_key f x ys) = insort_key g (h x) (map h ys)"
  by (induction ys) auto

lemma map_sort_key:
  "(\<And>x y. x \<in> set xs \<Longrightarrow> y \<in> set xs \<Longrightarrow> f x \<le> f y \<longleftrightarrow> g (h x) \<le> g (h y)) \<Longrightarrow>
   map h (sort_key f xs) = sort_key g (map h xs)"
proof (induction xs)
  case (Cons a xs)
  have "map h (insort_key f a (sort_key f xs)) = insort_key g (h a) (map h (sort_key f xs))"
    by (rule map_insort_key) (simp add: Cons.prems)
  with Cons show ?case by simp
qed simp

lemma distinct_mset_sub:
  assumes "mset xs \<subseteq># mset ys" and "distinct ys"
  shows "distinct xs"
proof -
  from assms(1) obtain zs where "mset ys = mset (xs @ zs)"
    by (metis ex_mset mset_append mset_subset_eq_exists_conv)
  with assms(2) show ?thesis by (metis distinct_append mset_eq_imp_distinct_iff)
qed

lemma length_py_last: "0 < n \<Longrightarrow> length (py_last n xs) = min n (length xs)"
  by (simp add: py_last_def min_def)

lemma set_py_last_subset: "set (py_last n xs) \<subseteq> set xs"
  by (auto simp: py_last_def dest: in_set_dropD)

section \<open>Interfaces\<close>

locale keyed_store =
  fixes empty :: 's
    and lookup :: "'s \<Rightarrow> 'k \<Rightarrow> 'v option"
    and upd :: "'k \<Rightarrow> 'v \<Rightarrow> 's \<Rightarrow> 's"
    and del :: "'k \<Rightarrow> 's \<Rightarrow> 's"
    and invar :: "'s \<Rightarrow> bool"
  assumes lookup_empty: "lookup empty k = None"
    and lookup_upd: "invar s \<Longrightarrow> lookup (upd k v s) k' = (if k' = k then Some v else lookup s k')"
    and lookup_del: "invar s \<Longrightarrow> lookup (del k s) k' = (if k' = k then None else lookup s k')"
    and invar_empty: "invar empty"
    and invar_upd: "invar s \<Longrightarrow> invar (upd k v s)"
    and invar_del: "invar s \<Longrightarrow> invar (del k s)"
begin

lemma upd_upd_lookup: "invar s \<Longrightarrow> lookup (upd k v (upd k w s)) k' = lookup (upd k v s) k'"
  by (simp add: lookup_upd invar_upd)

lemma del_upd_lookup: "invar s \<Longrightarrow> lookup (del k (upd k v s)) k' = lookup (del k s) k'"
  by (simp add: lookup_upd lookup_del invar_upd)

lemma upd_commute_lookup:
  "invar s \<Longrightarrow> a \<noteq> b \<Longrightarrow> lookup (upd a v (upd b w s)) k = lookup (upd b w (upd a v s)) k"
  by (simp add: lookup_upd invar_upd)

lemma invar_run: "invar s \<Longrightarrow> invar (fold (\<lambda>(k, v). upd k v) kvs s)"
  by (induction kvs arbitrary: s) (auto simp: invar_upd)

lemma lookup_run:
  assumes "invar s"
  shows "lookup (fold (\<lambda>(k, v). upd k v) kvs s) k =
    (case map_of (rev kvs) k of None \<Rightarrow> lookup s k | Some v \<Rightarrow> Some v)"
  using assms
proof (induction kvs arbitrary: s)
  case Nil
  then show ?case by simp
next
  case (Cons p kvs)
  obtain a b where p: "p = (a, b)" by (cases p)
  from Cons.prems p have "invar (upd a b s)" by (simp add: invar_upd)
  from Cons.IH [OF this] Cons.prems p show ?case
    by (simp add: lookup_upd map_add_def split: option.splits)
qed

end

interpretation pd: keyed_store "[] :: ('k, 'v) dict" dget dset dpop dict_ok
  by unfold_locales (auto simp: dict_simps)

text \<open>
  An operation-driven component: \<open>step op s\<close> is the state after one call. The laws say that
  each single operation keeps the invariant; the conclusion is about whole histories.
\<close>

locale invariant_machine =
  fixes step :: "'op \<Rightarrow> 's \<Rightarrow> 's"
    and inv :: "'s \<Rightarrow> bool"
  assumes step_inv: "inv s \<Longrightarrow> inv (step op s)"
begin

lemma run_inv: "inv s \<Longrightarrow> inv (fold step ops s)"
  by (induction ops arbitrary: s) (auto intro: step_inv)

end

text \<open>
  \<open>settled s k\<close> is the outcome recorded for key \<open>k\<close>, if there is one. The law says that no
  single operation replaces or forgets it.
\<close>

locale settled_once = invariant_machine step inv
  for step :: "'op \<Rightarrow> 's \<Rightarrow> 's" and inv :: "'s \<Rightarrow> bool" +
  fixes settled :: "'s \<Rightarrow> 'k \<Rightarrow> 'v option"
  assumes step_settled: "inv s \<Longrightarrow> settled s k = Some v \<Longrightarrow> settled (step op s) k = Some v"
begin

lemma run_settled: "inv s \<Longrightarrow> settled s k = Some v \<Longrightarrow> settled (fold step ops s) k = Some v"
  by (induction ops arbitrary: s) (auto intro: step_inv step_settled)

lemma run_split:
  assumes "inv s" and "settled (fold step ops s) k = Some v"
    and "settled (fold step (ops @ more) s) k = Some w"
  shows "v = w"
  using run_settled [OF run_inv [OF assms(1), of ops] assms(2), of more] assms(3) by simp

lemma first_outcome_wins:
  assumes "inv s" and "settled (fold step ops s) k = Some v"
    and "settled (fold step (ops @ more) s) k = w"
  shows "w = Some v"
  using run_settled [OF run_inv [OF assms(1), of ops] assms(2), of more] assms(3) by simp

end

text \<open>
  The same for components whose invariants and outcomes hold only as long as no operation outside
  \<open>keeps\<close> happens (retention, deletion, a misbehaving environment).
\<close>

locale admitted_invariant =
  fixes step :: "'op \<Rightarrow> 's \<Rightarrow> 's"
    and inv :: "'s \<Rightarrow> bool"
    and keeps :: "'op \<Rightarrow> bool"
  assumes keeps_inv: "inv s \<Longrightarrow> keeps op \<Longrightarrow> inv (step op s)"
begin

lemma run_keeps_inv: "inv s \<Longrightarrow> list_all keeps ops \<Longrightarrow> inv (fold step ops s)"
  by (induction ops arbitrary: s) (auto intro: keeps_inv)

end

locale settled_while = admitted_invariant step inv keeps
  for step :: "'op \<Rightarrow> 's \<Rightarrow> 's" and inv :: "'s \<Rightarrow> bool" and keeps :: "'op \<Rightarrow> bool" +
  fixes settled :: "'s \<Rightarrow> 'k \<Rightarrow> 'v option"
  assumes keeps_settled: "inv s \<Longrightarrow> keeps op \<Longrightarrow> settled s k = Some v \<Longrightarrow> settled (step op s) k = Some v"
begin

lemma run_keeps:
  "inv s \<Longrightarrow> list_all keeps ops \<Longrightarrow> settled s k = Some v \<Longrightarrow> settled (fold step ops s) k = Some v"
  by (induction ops arbitrary: s) (auto intro: keeps_inv keeps_settled)

end

text \<open>
  A store whose rows may disappear but, once final, are never changed: what a lookup returns for a
  key after a step that does not write that key anew.
\<close>

locale final_until_gone = invariant_machine step inv
  for step :: "'op \<Rightarrow> 's \<Rightarrow> 's" and inv :: "'s \<Rightarrow> bool" +
  fixes lookup :: "'s \<Rightarrow> 'k \<Rightarrow> 'v option"
    and final :: "'v \<Rightarrow> bool"
    and writes :: "'k \<Rightarrow> 'op \<Rightarrow> bool"
  assumes gone_stays: "inv s \<Longrightarrow> \<not> writes k op \<Longrightarrow> lookup s k = None \<Longrightarrow> lookup (step op s) k = None"
    and final_stays: "inv s \<Longrightarrow> \<not> writes k op \<Longrightarrow> lookup s k = Some v \<Longrightarrow> final v \<Longrightarrow>
      lookup (step op s) k = None \<or> lookup (step op s) k = Some v"
begin

lemma run_final:
  "inv s \<Longrightarrow> list_all (\<lambda>op. \<not> writes k op) ops \<Longrightarrow> final v \<Longrightarrow> lookup s k = None \<or> lookup s k = Some v \<Longrightarrow>
   lookup (fold step ops s) k = None \<or> lookup (fold step ops s) k = Some v"
proof (induction ops arbitrary: s)
  case Nil
  then show ?case by simp
next
  case (Cons op ops)
  from Cons.prems gone_stays [of s k op] final_stays [of s k op v]
  have "lookup (step op s) k = None \<or> lookup (step op s) k = Some v" by auto
  with Cons.IH [OF step_inv [OF Cons.prems(1)]] Cons.prems show ?case by simp
qed

end

text \<open>
  Functional refinement of one operation-driven component by another: on admitted operations
  the concrete step commutes with the abstraction.
\<close>

locale refines =
  fixes cstep :: "'op \<Rightarrow> 'c \<Rightarrow> 'c"
    and astep :: "'op \<Rightarrow> 'a \<Rightarrow> 'a"
    and abs :: "'c \<Rightarrow> 'a"
    and inv :: "'c \<Rightarrow> bool"
    and admits :: "'op \<Rightarrow> bool"
  assumes sim_inv: "inv c \<Longrightarrow> admits op \<Longrightarrow> inv (cstep op c)"
    and sim_step: "inv c \<Longrightarrow> admits op \<Longrightarrow> abs (cstep op c) = astep op (abs c)"
begin

lemma run_sim_inv: "inv c \<Longrightarrow> list_all admits ops \<Longrightarrow> inv (fold cstep ops c)"
  by (induction ops arbitrary: c) (auto intro: sim_inv)

lemma run_sim: "inv c \<Longrightarrow> list_all admits ops \<Longrightarrow> abs (fold cstep ops c) = fold astep ops (abs c)"
  by (induction ops arbitrary: c) (simp_all add: sim_inv sim_step)

end

end
