(* ===== verification/Py_Values.thy ===== *)
theory Py_Values
  imports Prelude
begin

text \<open>
  The dynamically typed values the services read from YAML and JSON documents, with the
  built-ins the sources apply to them: truthiness, subscription, iteration, \<open>str\<close> and
  \<open>int\<close>, and the string methods \<open>strip\<close> and \<open>lower\<close>. A failing built-in is \<open>None\<close>; every
  caller modelled here catches the exception at the same place, so which exception it was
  does not matter unless a component says so. Floating-point values do not occur in the
  documents the modelled components read.
\<close>

datatype val =
    VNone
  | VBool bool
  | VInt int
  | VStr string
  | VList "val list"
  | VDict "(string \<times> val) list"

text \<open>\<open>bool(v)\<close>\<close>

fun truthy :: "val \<Rightarrow> bool" where
  "truthy VNone = False"
| "truthy (VBool b) = b"
| "truthy (VInt n) = (n \<noteq> 0)"
| "truthy (VStr s) = (s \<noteq> [])"
| "truthy (VList xs) = (xs \<noteq> [])"
| "truthy (VDict d) = (d \<noteq> [])"

text \<open>\<open>isinstance\<close> tests and the partial projections that go with them.\<close>

fun is_str :: "val \<Rightarrow> bool" where
  "is_str (VStr s) = True"
| "is_str _ = False"

fun is_bool :: "val \<Rightarrow> bool" where
  "is_bool (VBool b) = True"
| "is_bool _ = False"

fun as_dict :: "val \<Rightarrow> (string, val) dict option" where
  "as_dict (VDict d) = Some d"
| "as_dict _ = None"

fun as_list :: "val \<Rightarrow> val list option" where
  "as_list (VList xs) = Some xs"
| "as_list _ = None"

fun as_str :: "val \<Rightarrow> string option" where
  "as_str (VStr s) = Some s"
| "as_str _ = None"

text \<open>\<open>hash(v)\<close> succeeds: lists and dictionaries cannot be put into a set.\<close>

fun hashable :: "val \<Rightarrow> bool" where
  "hashable (VList xs) = False"
| "hashable (VDict d) = False"
| "hashable _ = True"

text \<open>\<open>v[key]\<close> with a string key: anything but a dictionary holding the key raises.\<close>

fun getitem :: "val \<Rightarrow> string \<Rightarrow> val option" where
  "getitem (VDict d) k = dget d k"
| "getitem _ k = None"

text \<open>\<open>d.get(key)\<close>\<close>

definition get_none :: "(string, val) dict \<Rightarrow> string \<Rightarrow> val" where
  "get_none d k = (case dget d k of None \<Rightarrow> VNone | Some v \<Rightarrow> v)"

text \<open>\<open>tuple(v)\<close>: a string yields its characters and a dictionary its keys.\<close>

fun iter_val :: "val \<Rightarrow> val list option" where
  "iter_val (VList xs) = Some xs"
| "iter_val (VStr s) = Some (map (\<lambda>c. VStr [c]) s)"
| "iter_val (VDict d) = Some (map (VStr \<circ> fst) d)"
| "iter_val _ = None"

section \<open>Integers and strings\<close>

definition is_digit :: "char \<Rightarrow> bool" where
  "is_digit c \<longleftrightarrow> CHR ''0'' \<le> c \<and> c \<le> CHR ''9''"

definition digit_val :: "char \<Rightarrow> int" where
  "digit_val c = int (of_char c) - 48"

definition digit_char :: "nat \<Rightarrow> char" where
  "digit_char n = char_of (48 + n)"

text \<open>White space as \<open>str.strip\<close> removes it, among the code points below 256.\<close>

definition is_space :: "char \<Rightarrow> bool" where
  "is_space c \<longleftrightarrow> (let n = (of_char c :: nat) in n = 32 \<or> (9 \<le> n \<and> n \<le> 13) \<or> (28 \<le> n \<and> n \<le> 31) \<or> n = 133 \<or> n = 160)"

definition strip :: "string \<Rightarrow> string" where
  "strip s = rev (dropWhile is_space (rev (dropWhile is_space s)))"

definition lower_char :: "char \<Rightarrow> char" where
  "lower_char c = (let n = (of_char c :: nat) in if 65 \<le> n \<and> n \<le> 90 then char_of (n + 32) else c)"

definition lower :: "string \<Rightarrow> string" where
  "lower s = map lower_char s"

function nat_digits :: "nat \<Rightarrow> string" where
  "nat_digits n = (if n < 10 then [digit_char n] else nat_digits (n div 10) @ [digit_char (n mod 10)])"
  by pat_completeness auto
termination
  by (relation "measure id") auto

declare nat_digits.simps [simp del]

definition int_str :: "int \<Rightarrow> string" where
  "int_str n = (if n < 0 then CHR ''-'' # nat_digits (nat (- n)) else nat_digits (nat n))"

text \<open>The digits of a Python integer literal: groups separated by single underscores.\<close>

fun digits_value :: "bool \<Rightarrow> int \<Rightarrow> string \<Rightarrow> int option" where
  "digits_value after_digit acc [] = (if after_digit then Some acc else None)"
| "digits_value after_digit acc (c # cs) =
     (if is_digit c then digits_value True (10 * acc + digit_val c) cs
      else if c = CHR ''_'' \<and> after_digit then digits_value False acc cs
      else None)"

definition int_of_str :: "string \<Rightarrow> int option" where
  "int_of_str s =
     (case strip s of
        [] \<Rightarrow> None
      | c # cs \<Rightarrow>
          if c = CHR ''-'' then map_option uminus (digits_value False 0 cs)
          else if c = CHR ''+'' then digits_value False 0 cs
          else digits_value False 0 (c # cs))"

text \<open>\<open>int(v)\<close>\<close>

fun int_of_val :: "val \<Rightarrow> int option" where
  "int_of_val (VInt n) = Some n"
| "int_of_val (VBool b) = Some (if b then 1 else 0)"
| "int_of_val (VStr s) = int_of_str s"
| "int_of_val _ = None"

text \<open>\<open>repr\<close> of a string: single quotes unless the text holds one and no double quote.\<close>

definition hex_char :: "nat \<Rightarrow> char" where
  "hex_char n = (if n < 10 then char_of (48 + n) else char_of (87 + n))"

definition escape_char :: "char \<Rightarrow> char \<Rightarrow> string" where
  "escape_char q c =
     (let n = (of_char c :: nat) in
      if c = q \<or> n = 92 then [char_of (92::nat), c]
      else if n = 10 then [char_of (92::nat), CHR ''n'']
      else if n = 13 then [char_of (92::nat), CHR ''r'']
      else if n = 9 then [char_of (92::nat), CHR ''t'']
      else if n < 32 \<or> (127 \<le> n \<and> n \<le> 160) \<or> n = 173
        then [char_of (92::nat), CHR ''x'', hex_char (n div 16), hex_char (n mod 16)]
      else [c])"

definition str_repr :: "string \<Rightarrow> string" where
  "str_repr s =
     (let sq = char_of (39::nat); dq = char_of (34::nat);
          q = (if sq \<in> set s \<and> dq \<notin> set s then dq else sq)
      in [q] @ concat (map (escape_char q) s) @ [q])"

fun join_with :: "string \<Rightarrow> string list \<Rightarrow> string" where
  "join_with sep [] = []"
| "join_with sep [x] = x"
| "join_with sep (x # y # zs) = x @ sep @ join_with sep (y # zs)"

fun val_repr :: "val \<Rightarrow> string" where
  "val_repr VNone = ''None''"
| "val_repr (VBool b) = (if b then ''True'' else ''False'')"
| "val_repr (VInt n) = int_str n"
| "val_repr (VStr s) = str_repr s"
| "val_repr (VList xs) = ''['' @ join_with '', '' (map val_repr xs) @ '']''"
| "val_repr (VDict d) =
     ''{'' @ join_with '', '' (map (\<lambda>p. str_repr (fst p) @ '': '' @ val_repr (snd p)) d) @ ''}''"

text \<open>\<open>str(v)\<close>\<close>

fun str_of_val :: "val \<Rightarrow> string" where
  "str_of_val (VStr s) = s"
| "str_of_val v = val_repr v"

lemma lower_lower_char [simp]: "lower_char (lower_char c) = lower_char c"
proof -
  have "of_char c < (256 :: nat)" by simp
  then show ?thesis by (auto simp: lower_char_def Let_def)
qed

lemma lower_idem [simp]: "lower (lower s) = lower s"
  by (simp add: lower_def)

lemma length_lower [simp]: "length (lower s) = length s"
  by (simp add: lower_def)

lemma dropWhile_dropWhile_idem [simp]: "dropWhile P (dropWhile P xs) = dropWhile P xs"
  by (induction xs) auto

lemma length_strip_le: "length (strip s) \<le> length s"
  by (metis length_dropWhile_le length_rev le_trans strip_def)

lemma dropWhile_head: "dropWhile P xs = [] \<or> \<not> P (hd (dropWhile P xs))"
  by (induction xs) auto

lemma strip_strip [simp]: "strip (strip s) = strip s"
proof -
  let ?a = "dropWhile is_space s"
  let ?b = "rev (dropWhile is_space (rev ?a))"
  have "dropWhile is_space ?b = ?b"
  proof (cases ?b)
    case Nil
    show ?thesis by (simp only: Nil dropWhile.simps)
  next
    case (Cons c cs)
    have "rev ?a = takeWhile is_space (rev ?a) @ dropWhile is_space (rev ?a)" by simp
    then have "?a = ?b @ rev (takeWhile is_space (rev ?a))" by (metis rev_append rev_rev_ident)
    then have "hd ?a = c" and "?a \<noteq> []" using Cons by (metis append_Cons list.sel(1), force)
    then have "\<not> is_space c" using dropWhile_head [of is_space s] by auto
    then show ?thesis using Cons by simp
  qed
  then show ?thesis by (simp add: strip_def)
qed

end
