(* ===== verification/Policy_Engine.thy ===== *)
theory Policy_Engine
  imports Py_Values
begin

text \<open>
  The deny-by-default policy engine of the tool gateway
  (\<open>products/tool-gateway/src/tool_gateway/services/policy_engine.py\<close>): the rule and
  decision records, the bundle parser with every error it raises, the cached loader and
  \<open>evaluate\<close>. The YAML reader, the file system and SHA-256 are the parameters collected in
  the record \<open>policy_env\<close>. The lemmas characterise the decision on every branch: an allow
  has a matching allow rule and no matching deny, the best rule has the highest priority,
  require_approval rules never take part on this gateway, and a failed load leaves the
  cached bundle as it was.
\<close>

section \<open>Rules and decisions\<close>

record approval_spec =
  tier :: string
  decided_by_roles :: "string list"
  allow_self_approval :: "bool option"

definition effective_self_approval :: "approval_spec \<Rightarrow> bool" where
  "effective_self_approval a =
     (case allow_self_approval a of Some b \<Rightarrow> b | None \<Rightarrow> tier a = ''tier_1'')"

definition approval_to_dict :: "approval_spec \<Rightarrow> (string, val) dict" where
  "approval_to_dict a =
     [(''tier'', VStr (tier a)), (''decided_by_roles'', VList (map VStr (decided_by_roles a)))]
     @ (case allow_self_approval a of
          None \<Rightarrow> [] | Some b \<Rightarrow> [(''allow_self_approval'', VBool b)])"

record policy_rule =
  rule_id :: string
  rule_priority :: int
  rule_enabled :: bool
  roles_any :: "val list"
  actions_any :: "val list"
  outcome :: string
  rule_approval :: "approval_spec option"
  agent_roles_any :: "string list"

record policy_decision =
  decision :: string
  matched_rule_ids :: "string list"
  reason :: string
  decision_action :: "string option"
  decision_subject :: "string option"
  decision_approval :: "approval_spec option"

definition approval_tier :: "policy_decision \<Rightarrow> string option" where
  "approval_tier d = map_option tier (decision_approval d)"

definition decision_to_dict :: "policy_decision \<Rightarrow> (string, val) dict" where
  "decision_to_dict d =
     [(''decision'', VStr (decision d)),
      (''matched_rule_ids'', VList (map VStr (matched_rule_ids d))),
      (''reason'', VStr (reason d))]
     @ (case decision_action d of None \<Rightarrow> [] | Some a \<Rightarrow> [(''action'', VStr a)])
     @ (case decision_subject d of None \<Rightarrow> [] | Some s \<Rightarrow> [(''subject'', VStr s)])
     @ (case decision_approval d of None \<Rightarrow> []
        | Some a \<Rightarrow> [(''approval_tier'', VStr (tier a)), (''approval'', VDict (approval_to_dict a))])"

section \<open>Vocabulary\<close>

definition ACTION_TOOLS_MUTATE :: string where
  "ACTION_TOOLS_MUTATE = ''tools:mutate''"

definition tg_PROTECTED_ACTIONS :: "string list" where
  "tg_PROTECTED_ACTIONS =
     [''tools:list'', ''tools:invoke'', ACTION_TOOLS_MUTATE, ''secrets:deliver'', ''targets:authorize'']"

definition APPROVAL_TIERS :: "string list" where
  "APPROVAL_TIERS = [''tier_1'', ''tier_2'']"

definition tg_APPROVAL_BRIDGED_ACTIONS :: "string list" where
  "tg_APPROVAL_BRIDGED_ACTIONS = []"

definition VALID_OUTCOMES :: "string list" where
  "VALID_OUTCOMES = [''allow'', ''deny'', ''require_approval'']"

definition AGENT_ROLES :: "string list" where
  "AGENT_ROLES = [''diagnostician'', ''orchestrator'', ''executor'']"

section \<open>Parsing a bundle\<close>

text \<open>
  One constructor per raise site of \<open>PolicyLoadError\<close>; \<open>Malformed\<close> is the handler of
  \<open>KeyError\<close>, \<open>TypeError\<close> and \<open>ValueError\<close>. \<open>AttributeError\<close> is not in that handler's list
  and leaves the parser as it is, as do the errors of \<open>read_text\<close> on a path that is a file.
\<close>

datatype load_error =
    InvalidYaml
  | NotARulesMapping
  | BadVersion
  | BundleNotFound string
  | RuleNotMapping nat
  | UnknownOutcome string string
  | ApprovalBlockMissing string
  | BadTier string
  | BadDeciders string
  | BadSelfApproval string
  | Tier2SelfApproval string
  | UnbridgedActions string
  | ApprovalNotAllowed string
  | BadAgentRoles string
  | UnknownAgentRoles string
  | Malformed nat

datatype policy_error = PolicyLoadError load_error | AttributeError | OSError | UnicodeDecodeError

definition parse_approval :: "nat \<Rightarrow> (string, val) dict \<Rightarrow> string \<Rightarrow> load_error + approval_spec" where
  "parse_approval i raw_decision rid =
     (case dget raw_decision ''approval'' of
        Some (VDict approval) \<Rightarrow>
          (let tier_v = get_none approval ''tier'';
               deciders = get_none approval ''decided_by_roles'';
               allow_self = get_none approval ''allow_self_approval''
           in if \<not> hashable tier_v then Inl (Malformed i)
              else if tier_v \<notin> set (map VStr APPROVAL_TIERS) then Inl (BadTier rid)
              else (case as_list deciders of
                      None \<Rightarrow> Inl (BadDeciders rid)
                    | Some ds \<Rightarrow>
                        if ds = [] \<or> \<not> list_all (\<lambda>r. is_str r \<and> truthy r) ds then Inl (BadDeciders rid)
                        else if allow_self \<noteq> VNone \<and> \<not> is_bool allow_self then Inl (BadSelfApproval rid)
                        else if tier_v = VStr ''tier_2'' \<and> allow_self = VBool True
                          then Inl (Tier2SelfApproval rid)
                        else Inr \<lparr>tier = str_of_val tier_v,
                                  decided_by_roles = map str_of_val ds,
                                  allow_self_approval =
                                    (case allow_self of VBool b \<Rightarrow> Some b | _ \<Rightarrow> None)\<rparr>))
      | _ \<Rightarrow> Inl (ApprovalBlockMissing rid))"

text \<open>\<open>sorted\<close> on a set of values raises unless they are mutually comparable.\<close>

fun is_num :: "val \<Rightarrow> bool" where
  "is_num (VInt n) = True"
| "is_num (VBool b) = True"
| "is_num _ = False"

definition py_sortable :: "val list \<Rightarrow> bool" where
  "py_sortable vs \<longleftrightarrow> list_all is_str vs \<or> list_all is_num vs \<or> length (remdups vs) \<le> 1"

text \<open>\<open>set(match["actions_any"]) - bridged\<close>; \<open>None\<close> when the conversion raises.\<close>

definition unbridged_actions :: "string list \<Rightarrow> val \<Rightarrow> val list option" where
  "unbridged_actions bridged match_v =
     (case getitem match_v ''actions_any'' of
        None \<Rightarrow> None
      | Some av \<Rightarrow>
          (case iter_val av of
             None \<Rightarrow> None
           | Some vs \<Rightarrow>
               if list_all hashable vs then Some (filter (\<lambda>v. v \<notin> set (map VStr bridged)) vs)
               else None))"

text \<open>The optional agent-role axis of a rule; \<open>match.get\<close> needs a dictionary.\<close>

definition parse_agent_roles :: "val \<Rightarrow> string \<Rightarrow> policy_error + string list" where
  "parse_agent_roles match_v rid =
     (case as_dict match_v of
        None \<Rightarrow> Inl AttributeError
      | Some md \<Rightarrow>
          (case as_list (case dget md ''agent_roles_any'' of None \<Rightarrow> VList [] | Some v \<Rightarrow> v) of
             None \<Rightarrow> Inl (PolicyLoadError (BadAgentRoles rid))
           | Some items \<Rightarrow>
               if \<not> list_all (\<lambda>v. is_str v \<and> truthy v) items
               then Inl (PolicyLoadError (BadAgentRoles rid))
               else if list_ex (\<lambda>v. v \<notin> set (map VStr AGENT_ROLES)) items
               then Inl (PolicyLoadError (UnknownAgentRoles rid))
               else Inr (map str_of_val items)))"

definition build_rule ::
  "nat \<Rightarrow> (string, val) dict \<Rightarrow> val \<Rightarrow> string \<Rightarrow> string \<Rightarrow> approval_spec option \<Rightarrow> string list \<Rightarrow>
   policy_error + policy_rule" where
  "build_rule i raw match_v rid oc appr agent_roles =
     (case (Option.bind (dget raw ''priority'') int_of_val, dget raw ''enabled'',
            Option.bind (getitem match_v ''roles_any'') iter_val,
            Option.bind (getitem match_v ''actions_any'') iter_val) of
        (Some p, Some en, Some rs, Some as') \<Rightarrow>
          Inr \<lparr>rule_id = rid, rule_priority = p, rule_enabled = truthy en, roles_any = rs,
               actions_any = as', outcome = oc, rule_approval = appr, agent_roles_any = agent_roles\<rparr>
      | _ \<Rightarrow> Inl (PolicyLoadError (Malformed i)))"

text \<open>
  One iteration of the loop of \<open>_parse_rules\<close> on the tool gateway: \<open>Inr None\<close> is its
  \<open>continue\<close>, which skips a well-formed require_approval rule.
\<close>

definition tg_parse_rule :: "nat \<Rightarrow> val \<Rightarrow> policy_error + policy_rule option" where
  "tg_parse_rule i raw_v =
     (case as_dict raw_v of
        None \<Rightarrow> Inl (PolicyLoadError (RuleNotMapping i))
      | Some raw \<Rightarrow>
          (case (dget raw ''match'', dget raw ''decision'', dget raw ''id'') of
             (Some match_v, Some dec_v, Some id_v) \<Rightarrow>
               (case (as_dict dec_v, getitem dec_v ''outcome'') of
                  (Some dec, Some oc_v) \<Rightarrow>
                    (let rid = str_of_val id_v; oc = str_of_val oc_v in
                     if oc \<notin> set VALID_OUTCOMES then Inl (PolicyLoadError (UnknownOutcome rid oc))
                     else if oc = ''require_approval'' then
                       (case parse_approval i dec rid of
                          Inl e \<Rightarrow> Inl (PolicyLoadError e)
                        | Inr _ \<Rightarrow>
                            (case unbridged_actions tg_APPROVAL_BRIDGED_ACTIONS match_v of
                               None \<Rightarrow> Inl (PolicyLoadError (Malformed i))
                             | Some unbridged \<Rightarrow>
                                 if py_sortable unbridged then Inr None
                                 else Inl (PolicyLoadError (Malformed i))))
                     else if dhas dec ''approval'' then Inl (PolicyLoadError (ApprovalNotAllowed rid))
                     else
                       (case parse_agent_roles match_v rid of
                          Inl e \<Rightarrow> Inl e
                        | Inr ars \<Rightarrow>
                            (case build_rule i raw match_v rid oc None ars of
                               Inl e \<Rightarrow> Inl e
                             | Inr r \<Rightarrow> Inr (Some r))))
                | _ \<Rightarrow> Inl (PolicyLoadError (Malformed i)))
           | _ \<Rightarrow> Inl (PolicyLoadError (Malformed i))))"

fun tg_parse_rules_from :: "nat \<Rightarrow> val list \<Rightarrow> policy_error + policy_rule list" where
  "tg_parse_rules_from i [] = Inr []"
| "tg_parse_rules_from i (raw # raws) =
     (case tg_parse_rule i raw of
        Inl e \<Rightarrow> Inl e
      | Inr r \<Rightarrow>
          (case tg_parse_rules_from (Suc i) raws of
             Inl e \<Rightarrow> Inl e
           | Inr rs \<Rightarrow> Inr (case r of None \<Rightarrow> rs | Some r' \<Rightarrow> r' # rs)))"

text \<open>
  What the loader needs of the outside: \<open>read_file\<close> (\<open>is_file\<close> and \<open>read_text\<close> of a path), the
  packaged default text, the YAML reader (\<open>None\<close> for a \<open>YAMLError\<close>) and SHA-256.
\<close>

datatype file_read = NoFile | Unreadable | Undecodable | FileText string

record policy_env =
  read_file :: "string \<Rightarrow> file_read"
  packaged_bundle_text :: string
  safe_load :: "string \<Rightarrow> val option"
  sha256_hex :: "string \<Rightarrow> string"

definition bundle_rules :: "val \<Rightarrow> val list option" where
  "bundle_rules data = Option.bind (Option.bind (as_dict data) (\<lambda>d. dget d ''rules'')) as_list"

definition tg_parse_rules :: "policy_env \<Rightarrow> string \<Rightarrow> policy_error + policy_rule list" where
  "tg_parse_rules env txt =
     (case safe_load env txt of
        None \<Rightarrow> Inl (PolicyLoadError InvalidYaml)
      | Some data \<Rightarrow>
          (case bundle_rules data of
             None \<Rightarrow> Inl (PolicyLoadError NotARulesMapping)
           | Some raws \<Rightarrow> tg_parse_rules_from 0 raws))"

section \<open>The cached loader\<close>

record policy_state =
  cached_rules :: "policy_rule list option"
  configured_path :: "string option"
  bundle_hash :: string

definition reset_policy_state :: "policy_state \<Rightarrow> policy_state" where
  "reset_policy_state st = \<lparr>cached_rules = None, configured_path = None, bundle_hash = []\<rparr>"

text \<open>The bundle text selected by \<open>settings.policy_path\<close>; an empty path is unset.\<close>

definition bundle_text :: "policy_env \<Rightarrow> string option \<Rightarrow> policy_error + string" where
  "bundle_text env path =
     (case path of
        None \<Rightarrow> Inr (packaged_bundle_text env)
      | Some p \<Rightarrow>
          if p = [] then Inr (packaged_bundle_text env)
          else (case read_file env p of
                  NoFile \<Rightarrow> Inl (PolicyLoadError (BundleNotFound p))
                | Unreadable \<Rightarrow> Inl OSError
                | Undecodable \<Rightarrow> Inl UnicodeDecodeError
                | FileText t \<Rightarrow> Inr t))"

definition tg_load_bundle ::
  "policy_env \<Rightarrow> string option \<Rightarrow> policy_state \<Rightarrow> (policy_error + policy_rule list) \<times> policy_state" where
  "tg_load_bundle env path st =
     (case (cached_rules st, configured_path st = path) of
        (Some rules, True) \<Rightarrow> (Inr rules, st)
      | _ \<Rightarrow>
          (case bundle_text env path of
             Inl e \<Rightarrow> (Inl e, st)
           | Inr txt \<Rightarrow>
               (case tg_parse_rules env txt of
                  Inl e \<Rightarrow> (Inl e, st)
                | Inr rules \<Rightarrow>
                    (Inr rules,
                     \<lparr>cached_rules = Some rules, configured_path = path,
                      bundle_hash = sha256_hex env txt\<rparr>))))"

definition bundle_sha256 :: "policy_state \<Rightarrow> string" where
  "bundle_sha256 st = bundle_hash st"

section \<open>Evaluation\<close>

definition rule_applies :: "string list \<Rightarrow> string \<Rightarrow> string option \<Rightarrow> policy_rule \<Rightarrow> bool" where
  "rule_applies roles action agent_role r \<longleftrightarrow>
     rule_enabled r \<and> VStr action \<in> set (actions_any r)
     \<and> list_ex (\<lambda>role. VStr role \<in> set (roles_any r)) roles
     \<and> (agent_roles_any r = []
        \<or> (case agent_role of None \<Rightarrow> False | Some a \<Rightarrow> a \<in> set (agent_roles_any r)))"

text \<open>\<open>set(rule.roles_any)\<close> raises \<open>TypeError\<close> on an element that cannot be hashed.\<close>

definition rule_raises :: "string \<Rightarrow> policy_rule \<Rightarrow> bool" where
  "rule_raises action r \<longleftrightarrow>
     rule_enabled r \<and> VStr action \<in> set (actions_any r) \<and> \<not> list_all hashable (roles_any r)"

definition match_rules ::
  "string list \<Rightarrow> string \<Rightarrow> string option \<Rightarrow> policy_rule list \<Rightarrow> policy_rule list option" where
  "match_rules roles action agent_role rules =
     (if list_ex (rule_raises action) rules then None
      else Some (filter (rule_applies roles action agent_role) rules))"

definition mk_decision ::
  "string \<Rightarrow> string list \<Rightarrow> string \<Rightarrow> string \<Rightarrow> approval_spec option \<Rightarrow> policy_decision" where
  "mk_decision verb ids why action appr =
     \<lparr>decision = verb, matched_rule_ids = ids, reason = why, decision_action = Some action,
      decision_subject = None, decision_approval = appr\<rparr>"

definition decide :: "string \<Rightarrow> policy_rule list \<Rightarrow> policy_decision" where
  "decide action matched =
     (let denies = filter (\<lambda>r. outcome r = ''deny'') matched;
          approvals = filter (\<lambda>r. outcome r = ''require_approval'') matched;
          allows = filter (\<lambda>r. outcome r = ''allow'') matched
      in if denies \<noteq> [] then
           mk_decision ''deny'' (map rule_id denies) ''explicit deny rule matched'' action None
         else (case approvals of
             a # as' \<Rightarrow>
               (let best = py_max_by rule_priority a as' in
                mk_decision ''require_approval'' [rule_id best] ''approval required by policy rule''
                  action (rule_approval best))
           | [] \<Rightarrow>
               (case allows of
                  a # as' \<Rightarrow>
                    (let best = py_max_by rule_priority a as' in
                     mk_decision ''allow'' [rule_id best] ''allowed by policy rule'' action None)
                | [] \<Rightarrow> mk_decision ''deny'' [] ''no matching policy rule'' action None)))"

datatype eval_error = LoadFailed policy_error | RoleTypeError

definition evaluate_rules ::
  "string list \<Rightarrow> string \<Rightarrow> string option \<Rightarrow> policy_rule list \<Rightarrow> eval_error + policy_decision" where
  "evaluate_rules roles action agent_role rules =
     (case match_rules roles action agent_role rules of
        None \<Rightarrow> Inl RoleTypeError
      | Some matched \<Rightarrow> Inr (decide action matched))"

definition tg_evaluate ::
  "policy_env \<Rightarrow> string option \<Rightarrow> policy_state \<Rightarrow> string list \<Rightarrow> string \<Rightarrow> string option \<Rightarrow>
   (eval_error + policy_decision) \<times> policy_state" where
  "tg_evaluate env path st roles action agent_role =
     (case tg_load_bundle env path st of
        (Inl e, st') \<Rightarrow> (Inl (LoadFailed e), st')
      | (Inr rules, st') \<Rightarrow> (evaluate_rules roles action agent_role rules, st'))"


section \<open>The contract of an action-authorization decision\<close>

text \<open>
  What every caller of \<open>evaluate\<close> relies on, as an interface: deny wins over
  require_approval, which wins over allow, and nothing matching is a deny.
\<close>

locale policy_semantics =
  fixes applies :: "'q \<Rightarrow> 'r \<Rightarrow> bool"
    and oc :: "'r \<Rightarrow> string"
    and verdict :: "'q \<Rightarrow> 'r list \<Rightarrow> string"
  assumes verdict_deny: "r \<in> set rs \<Longrightarrow> applies q r \<Longrightarrow> oc r = ''deny'' \<Longrightarrow> verdict q rs = ''deny''"
    and verdict_approval:
      "\<not> (\<exists>r\<in>set rs. applies q r \<and> oc r = ''deny'') \<Longrightarrow> r \<in> set rs \<Longrightarrow> applies q r \<Longrightarrow>
       oc r = ''require_approval'' \<Longrightarrow> verdict q rs = ''require_approval''"
    and verdict_allow:
      "\<not> (\<exists>r\<in>set rs. applies q r \<and> oc r \<in> {''deny'', ''require_approval''}) \<Longrightarrow> r \<in> set rs \<Longrightarrow>
       applies q r \<Longrightarrow> oc r = ''allow'' \<Longrightarrow> verdict q rs = ''allow''"
    and verdict_default:
      "\<not> (\<exists>r\<in>set rs. applies q r \<and> oc r \<in> {''deny'', ''require_approval'', ''allow''}) \<Longrightarrow>
       verdict q rs = ''deny''"
begin

lemma verdict_allow_iff:
  "verdict q rs = ''allow'' \<longleftrightarrow>
     (\<exists>r\<in>set rs. applies q r \<and> oc r = ''allow'')
     \<and> (\<forall>r\<in>set rs. applies q r \<longrightarrow> oc r \<noteq> ''deny'' \<and> oc r \<noteq> ''require_approval'')"
proof (cases "\<exists>r\<in>set rs. applies q r \<and> oc r = ''deny''")
  case True
  then show ?thesis using verdict_deny by auto
next
  case False
  show ?thesis
  proof (cases "\<exists>r\<in>set rs. applies q r \<and> oc r = ''require_approval''")
    case True
    with False show ?thesis using verdict_approval by auto
  next
    case noappr: False
    show ?thesis
    proof (cases "\<exists>r\<in>set rs. applies q r \<and> oc r = ''allow''")
      case True
      with False noappr show ?thesis using verdict_allow by auto
    next
      case none: False
      with False noappr have "verdict q rs = ''deny''" by (auto intro: verdict_default)
      with none show ?thesis by simp
    qed
  qed
qed

lemma verdict_cong:
  assumes same: "\<And>r. applies q r \<Longrightarrow> r \<in> set rs \<longleftrightarrow> r \<in> set rs'"
  shows "verdict q rs = verdict q rs'"
proof (cases "\<exists>r\<in>set rs. applies q r \<and> oc r = ''deny''")
  case True
  then obtain r where r: "r \<in> set rs" "applies q r" "oc r = ''deny''" by blast
  with same have "r \<in> set rs'" by blast
  with r show ?thesis by (simp add: verdict_deny [of r])
next
  case no_deny: False
  with same have no_deny': "\<not> (\<exists>r\<in>set rs'. applies q r \<and> oc r = ''deny'')" by blast
  show ?thesis
  proof (cases "\<exists>r\<in>set rs. applies q r \<and> oc r = ''require_approval''")
    case True
    then obtain r where r: "r \<in> set rs" "applies q r" "oc r = ''require_approval''" by blast
    with same have "r \<in> set rs'" by blast
    with r verdict_approval [OF no_deny r] verdict_approval [OF no_deny' _ r(2,3)] show ?thesis by simp
  next
    case no_appr: False
    show ?thesis
    proof (cases "\<exists>r\<in>set rs. applies q r \<and> oc r = ''allow''")
      case True
      then obtain r where r: "r \<in> set rs" "applies q r" "oc r = ''allow''" by blast
      with same have r': "r \<in> set rs'" by blast
      from no_deny no_appr
      have n: "\<not> (\<exists>r\<in>set rs. applies q r \<and> oc r \<in> {''deny'', ''require_approval''})" by auto
      with same have "\<not> (\<exists>r\<in>set rs'. applies q r \<and> oc r \<in> {''deny'', ''require_approval''})" by blast
      from verdict_allow [OF this r' r(2,3)] verdict_allow [OF n r] show ?thesis by simp
    next
      case False
      with no_deny no_appr
      have n: "\<not> (\<exists>r\<in>set rs. applies q r \<and> oc r \<in> {''deny'', ''require_approval'', ''allow''})" by auto
      with same
      have "\<not> (\<exists>r\<in>set rs'. applies q r \<and> oc r \<in> {''deny'', ''require_approval'', ''allow''})" by blast
      from verdict_default [OF this] verdict_default [OF n] show ?thesis by simp
    qed
  qed
qed

lemma verdict_add_deny: "applies q r \<Longrightarrow> oc r = ''deny'' \<Longrightarrow> verdict q (xs @ r # ys) = ''deny''"
  by (auto intro: verdict_deny [of r])

lemma verdict_add_inert: "\<not> applies q r \<Longrightarrow> verdict q (xs @ r # ys) = verdict q (xs @ ys)"
  by (rule verdict_cong) auto

end

text \<open>The engine's decision on a request (roles, action, agent role).\<close>

definition engine_verdict ::
  "string list \<times> string \<times> string option \<Rightarrow> policy_rule list \<Rightarrow> string" where
  "engine_verdict q rules =
     (case q of (roles, action, ar) \<Rightarrow> decision (decide action (filter (rule_applies roles action ar) rules)))"

definition engine_applies :: "string list \<times> string \<times> string option \<Rightarrow> policy_rule \<Rightarrow> bool" where
  "engine_applies q r = (case q of (roles, action, ar) \<Rightarrow> rule_applies roles action ar r)"

lemma decide_deny: "r \<in> set ms \<Longrightarrow> outcome r = ''deny'' \<Longrightarrow> decision (decide action ms) = ''deny''"
  by (auto simp: decide_def Let_def mk_decision_def filter_empty_conv)

lemma decide_no_deny:
  "\<not> (\<exists>r\<in>set ms. outcome r = ''deny'') \<Longrightarrow> filter (\<lambda>r. outcome r = ''deny'') ms = []"
  by (auto simp: filter_empty_conv)

lemma decide_approval:
  assumes "\<not> (\<exists>r\<in>set ms. outcome r = ''deny'')"
    and "filter (\<lambda>r. outcome r = ''require_approval'') ms = a # as'"
  shows "decide action ms =
    (let best = py_max_by rule_priority a as' in
     mk_decision ''require_approval'' [rule_id best] ''approval required by policy rule'' action
       (rule_approval best))"
  using assms by (simp add: decide_def decide_no_deny)

lemma decide_allow:
  assumes "\<not> (\<exists>r\<in>set ms. outcome r = ''deny'')"
    and "\<not> (\<exists>r\<in>set ms. outcome r = ''require_approval'')"
    and "filter (\<lambda>r. outcome r = ''allow'') ms = a # as'"
  shows "decide action ms =
    (let best = py_max_by rule_priority a as' in
     mk_decision ''allow'' [rule_id best] ''allowed by policy rule'' action None)"
proof -
  have "filter (\<lambda>r. outcome r = ''require_approval'') ms = []"
    using assms(2) by (auto simp: filter_empty_conv)
  with assms show ?thesis by (simp add: decide_def decide_no_deny)
qed

lemma decide_default:
  assumes "\<not> (\<exists>r\<in>set ms. outcome r \<in> {''deny'', ''require_approval'', ''allow''})"
  shows "decide action ms = mk_decision ''deny'' [] ''no matching policy rule'' action None"
proof -
  have "filter (\<lambda>r. outcome r = v) ms = []" if "v \<in> {''deny'', ''require_approval'', ''allow''}" for v
    using assms that by (auto simp: filter_empty_conv)
  then show ?thesis by (simp add: decide_def)
qed

interpretation eng: policy_semantics engine_applies outcome engine_verdict
proof unfold_locales
  fix r rs q
  assume "r \<in> set rs" "engine_applies q r" "outcome r = ''deny''"
  then show "engine_verdict q rs = ''deny''"
    by (cases q) (auto simp: engine_applies_def engine_verdict_def intro!: decide_deny)
next
  fix rs q r
  assume no: "\<not> (\<exists>r\<in>set rs. engine_applies q r \<and> outcome r = ''deny'')"
    and r: "r \<in> set rs" "engine_applies q r" "outcome r = ''require_approval''"
  obtain roles action ar where q: "q = (roles, action, ar)" by (cases q)
  let ?ms = "filter (rule_applies roles action ar) rs"
  from r q have "filter (\<lambda>r. outcome r = ''require_approval'') ?ms \<noteq> []"
    by (auto simp: filter_empty_conv engine_applies_def)
  then obtain a as' where "filter (\<lambda>r. outcome r = ''require_approval'') ?ms = a # as'"
    by (cases "filter (\<lambda>r. outcome r = ''require_approval'') ?ms") auto
  moreover have "\<not> (\<exists>r\<in>set ?ms. outcome r = ''deny'')"
    using no q by (auto simp: engine_applies_def)
  ultimately show "engine_verdict q rs = ''require_approval''"
    using decide_approval [of ?ms a as' action] q
    by (simp add: engine_verdict_def Let_def mk_decision_def)
next
  fix rs q r
  assume no: "\<not> (\<exists>r\<in>set rs. engine_applies q r \<and> outcome r \<in> {''deny'', ''require_approval''})"
    and r: "r \<in> set rs" "engine_applies q r" "outcome r = ''allow''"
  obtain roles action ar where q: "q = (roles, action, ar)" by (cases q)
  let ?ms = "filter (rule_applies roles action ar) rs"
  from r q have "filter (\<lambda>r. outcome r = ''allow'') ?ms \<noteq> []"
    by (auto simp: filter_empty_conv engine_applies_def)
  then obtain a as' where "filter (\<lambda>r. outcome r = ''allow'') ?ms = a # as'"
    by (cases "filter (\<lambda>r. outcome r = ''allow'') ?ms") auto
  moreover have "\<not> (\<exists>r\<in>set ?ms. outcome r = ''deny'')" "\<not> (\<exists>r\<in>set ?ms. outcome r = ''require_approval'')"
    using no q by (auto simp: engine_applies_def)
  ultimately show "engine_verdict q rs = ''allow''"
    using decide_allow [of ?ms a as' action] q
    by (simp add: engine_verdict_def Let_def mk_decision_def)
next
  fix rs q
  assume no: "\<not> (\<exists>r\<in>set rs. engine_applies q r \<and> outcome r \<in> {''deny'', ''require_approval'', ''allow''})"
  obtain roles action ar where q: "q = (roles, action, ar)" by (cases q)
  have "\<not> (\<exists>r\<in>set (filter (rule_applies roles action ar) rs).
      outcome r \<in> {''deny'', ''require_approval'', ''allow''})"
    using no q by (auto simp: engine_applies_def)
  with q show "engine_verdict q rs = ''deny''"
    by (simp add: engine_verdict_def decide_default mk_decision_def)
qed

lemma evaluate_rules_verdict:
  "evaluate_rules roles action ar rules = Inr d \<Longrightarrow> decision d = engine_verdict (roles, action, ar) rules"
  by (auto simp: evaluate_rules_def match_rules_def engine_verdict_def split: if_splits)

lemmas engine_defs = engine_applies_def engine_verdict_def evaluate_rules_def match_rules_def

section \<open>What the tool gateway enforces\<close>

text \<open>A rule as this gateway's parser produces it.\<close>

definition tg_rule_ok :: "policy_rule \<Rightarrow> bool" where
  "tg_rule_ok r \<longleftrightarrow> outcome r \<in> {''allow'', ''deny''} \<and> rule_approval r = None
     \<and> set (agent_roles_any r) \<subseteq> set AGENT_ROLES"

definition tg_state_ok :: "policy_state \<Rightarrow> bool" where
  "tg_state_ok st \<longleftrightarrow> (case cached_rules st of None \<Rightarrow> True | Some rs \<Rightarrow> list_all tg_rule_ok rs)"

lemma parse_agent_roles_vocab:
  assumes "parse_agent_roles match_v rid = Inr ars"
  shows "set ars \<subseteq> set AGENT_ROLES"
proof -
  from assms obtain items where ars: "ars = map str_of_val items"
    and vocab: "\<not> list_ex (\<lambda>v. v \<notin> set (map VStr AGENT_ROLES)) items"
    by (auto simp: parse_agent_roles_def split: option.splits if_splits)
  then show ?thesis by (fastforce simp: list_ex_iff)
qed

lemma build_rule_fields:
  "build_rule i raw match_v rid oc appr ars = Inr r \<Longrightarrow>
   outcome r = oc \<and> rule_approval r = appr \<and> agent_roles_any r = ars \<and> rule_id r = rid"
  by (auto simp: build_rule_def split: option.splits)

lemma tg_parse_rule_ok:
  assumes "tg_parse_rule i raw = Inr (Some r)"
  shows "tg_rule_ok r"
proof -
  from assms obtain match_v rid oc ars raw' where
    oc: "oc \<in> set VALID_OUTCOMES" "oc \<noteq> ''require_approval''"
    and ars: "parse_agent_roles match_v rid = Inr ars"
    and r: "build_rule i raw' match_v rid oc None ars = Inr r"
    by (auto simp: tg_parse_rule_def Let_def split: option.splits sum.splits if_splits)
  from oc have "oc \<in> {''allow'', ''deny''}" by (auto simp: VALID_OUTCOMES_def)
  with build_rule_fields [OF r] parse_agent_roles_vocab [OF ars] show ?thesis
    by (simp add: tg_rule_ok_def)
qed

lemma tg_parse_rules_from_ok: "tg_parse_rules_from i raws = Inr rs \<Longrightarrow> list_all tg_rule_ok rs"
proof (induction i raws arbitrary: rs rule: tg_parse_rules_from.induct)
  case (1 i)
  then show ?case by simp
next
  case (2 i raw raws)
  from "2.prems" obtain r rs' where r: "tg_parse_rule i raw = Inr r"
    and rs': "tg_parse_rules_from (Suc i) raws = Inr rs'"
    and rs: "rs = (case r of None \<Rightarrow> rs' | Some r' \<Rightarrow> r' # rs')"
    by (auto split: sum.splits)
  from "2.IH" [OF r rs'] rs r show ?case
    by (cases r) (auto intro: tg_parse_rule_ok)
qed

lemma tg_load_cases:
  "tg_load_bundle env path st = (res, st') \<Longrightarrow>
   (\<exists>rules. res = Inr rules \<and> cached_rules st = Some rules \<and> configured_path st = path \<and> st' = st)
   \<or> (\<exists>e. res = Inl e \<and> st' = st)
   \<or> (\<exists>rules txt. res = Inr rules \<and> tg_parse_rules env txt = Inr rules \<and> bundle_text env path = Inr txt
        \<and> st' = \<lparr>cached_rules = Some rules, configured_path = path, bundle_hash = sha256_hex env txt\<rparr>)"
  by (auto simp: tg_load_bundle_def split: option.splits bool.splits sum.splits) metis+

lemma tg_parse_rules_ok: "tg_parse_rules env txt = Inr rs \<Longrightarrow> list_all tg_rule_ok rs"
  by (auto simp: tg_parse_rules_def split: option.splits intro: tg_parse_rules_from_ok)

lemma tg_load_bundle_ok [inv_intros]:
  assumes "tg_state_ok st" and "tg_load_bundle env path st = (res, st')"
  shows "tg_state_ok st' \<and> (\<forall>rules. res = Inr rules \<longrightarrow> list_all tg_rule_ok rules)"
  using tg_load_cases [OF assms(2)] assms(1)
  by (auto simp: tg_state_ok_def intro: tg_parse_rules_ok)

lemma tg_evaluate_cases:
  assumes "tg_evaluate env path st roles action ar = (Inr d, st')"
  obtains rules where "tg_load_bundle env path st = (Inr rules, st')"
    and "evaluate_rules roles action ar rules = Inr d"
  using assms by (auto simp: tg_evaluate_def split: prod.splits sum.splits)

lemma evaluate_rules_decide:
  "evaluate_rules roles action ar rules = Inr d \<Longrightarrow>
   d = decide action (filter (rule_applies roles action ar) rules)"
  by (auto simp: evaluate_rules_def match_rules_def split: if_splits)

lemma decide_allow_best:
  assumes "decision (decide action ms) = ''allow''"
  shows "\<exists>best\<in>set ms. outcome best = ''allow'' \<and> matched_rule_ids (decide action ms) = [rule_id best]
    \<and> (\<forall>r\<in>set ms. outcome r = ''allow'' \<longrightarrow> rule_priority r \<le> rule_priority best)"
proof -
  let ?al = "filter (\<lambda>r. outcome r = ''allow'') ms"
  from assms obtain a as' where al: "?al = a # as'"
    and d: "decide action ms = mk_decision ''allow'' [rule_id (py_max_by rule_priority a as')]
              ''allowed by policy rule'' action None"
    by (auto simp: decide_def Let_def mk_decision_def split: if_splits list.splits)
  let ?b = "py_max_by rule_priority a as'"
  have "?b \<in> set ?al" using py_max_by_mem [of rule_priority a as'] al by simp
  moreover have "rule_priority r \<le> rule_priority ?b" if "r \<in> set ms" "outcome r = ''allow''" for r
  proof -
    from that have "r \<in> set ?al" by simp
    then show ?thesis using al by (auto intro: py_max_by_ge)
  qed
  ultimately show ?thesis using d by (auto simp: mk_decision_def)
qed

text \<open>
  C1. Deny by default with explicit precedence: whenever the tool gateway's \<open>evaluate\<close>
  returns a decision, that decision is \<open>allow\<close> exactly when some enabled rule of the loaded
  bundle matches the caller's roles, the action and the agent-role axis with outcome allow,
  and no matching rule denies or requires approval; the reported rule is then a matching
  allow rule of maximal priority.
\<close>

theorem tg_evaluate_allow_iff:
  assumes "tg_evaluate env path st roles action ar = (Inr d, st')"
  shows "\<exists>rules. tg_load_bundle env path st = (Inr rules, st')
    \<and> (decision d = ''allow'' \<longleftrightarrow>
         (\<exists>r\<in>set rules. rule_applies roles action ar r \<and> outcome r = ''allow'')
         \<and> (\<forall>r\<in>set rules. rule_applies roles action ar r \<longrightarrow>
              outcome r \<noteq> ''deny'' \<and> outcome r \<noteq> ''require_approval''))
    \<and> (decision d = ''allow'' \<longrightarrow>
         (\<exists>best\<in>set rules. rule_applies roles action ar best \<and> outcome best = ''allow''
            \<and> matched_rule_ids d = [rule_id best]
            \<and> (\<forall>r\<in>set rules. rule_applies roles action ar r \<and> outcome r = ''allow'' \<longrightarrow>
                 rule_priority r \<le> rule_priority best)))"
proof -
  from assms obtain rules where load: "tg_load_bundle env path st = (Inr rules, st')"
    and ev: "evaluate_rules roles action ar rules = Inr d" by (rule tg_evaluate_cases)
  let ?ms = "filter (rule_applies roles action ar) rules"
  have "decision d = engine_verdict (roles, action, ar) rules"
    using ev by (rule evaluate_rules_verdict)
  then have "decision d = ''allow'' \<longleftrightarrow>
      (\<exists>r\<in>set rules. rule_applies roles action ar r \<and> outcome r = ''allow'')
      \<and> (\<forall>r\<in>set rules. rule_applies roles action ar r \<longrightarrow>
           outcome r \<noteq> ''deny'' \<and> outcome r \<noteq> ''require_approval'')"
    using eng.verdict_allow_iff [of "(roles, action, ar)" rules] by (simp add: engine_applies_def)
  moreover have "\<exists>best\<in>set rules. rule_applies roles action ar best \<and> outcome best = ''allow''
      \<and> matched_rule_ids d = [rule_id best]
      \<and> (\<forall>r\<in>set rules. rule_applies roles action ar r \<and> outcome r = ''allow'' \<longrightarrow>
           rule_priority r \<le> rule_priority best)" if "decision d = ''allow''"
    using decide_allow_best [of action ?ms] that unfolding evaluate_rules_decide [OF ev] by simp blast
  ultimately show ?thesis using load by blast
qed

text \<open>A small bundle and environment on which the properties are exercised.\<close>

definition demo_rule :: "string \<Rightarrow> int \<Rightarrow> string \<Rightarrow> val" where
  "demo_rule rid p oc = VDict
     [(''id'', VStr rid), (''priority'', VInt p), (''enabled'', VBool True),
      (''match'', VDict [(''roles_any'', VList [VStr ''operator'']), (''actions_any'', VList [VStr ''chat''])]),
      (''decision'', VDict [(''outcome'', VStr oc)])]"

definition demo_env :: policy_env where
  "demo_env =
     \<lparr>read_file = (\<lambda>p. NoFile), packaged_bundle_text = ''default'',
      safe_load = (\<lambda>t. Some (VDict [(''rules'', VList [demo_rule ''r1'' 10 ''allow''])])),
      sha256_hex = (\<lambda>t. t)\<rparr>"

definition demo_state0 :: policy_state where
  "demo_state0 = \<lparr>cached_rules = None, configured_path = None, bundle_hash = []\<rparr>"

definition demo_r1 :: policy_rule where
  "demo_r1 = \<lparr>rule_id = ''r1'', rule_priority = 10, rule_enabled = True,
     roles_any = [VStr ''operator''], actions_any = [VStr ''chat''], outcome = ''allow'',
     rule_approval = None, agent_roles_any = []\<rparr>"

definition demo_state1 :: policy_state where
  "demo_state1 = \<lparr>cached_rules = Some [demo_r1], configured_path = None, bundle_hash = ''default''\<rparr>"

lemmas demo_policy_defs =
  demo_rule_def demo_env_def demo_state0_def demo_r1_def demo_state1_def
  tg_evaluate_def tg_load_bundle_def bundle_text_def tg_parse_rules_def bundle_rules_def
  tg_parse_rule_def build_rule_def parse_agent_roles_def VALID_OUTCOMES_def AGENT_ROLES_def
  evaluate_rules_def match_rules_def rule_raises_def rule_applies_def decide_def mk_decision_def
  dhas_def

lemma demo_load: "tg_load_bundle demo_env None demo_state0 = (Inr [demo_r1], demo_state1)"
  by (simp add: demo_policy_defs)

lemma demo_evaluate:
  "tg_evaluate demo_env None demo_state0 [''operator''] ''chat'' None =
   (Inr (mk_decision ''allow'' [''r1''] ''allowed by policy rule'' ''chat'' None), demo_state1)"
  by (simp add: demo_policy_defs)

theorem tg_evaluate_allow_iff_witness:
  "\<exists>rules. tg_load_bundle demo_env None demo_state0 = (Inr rules, demo_state1)
    \<and> (\<exists>best\<in>set rules. rule_applies [''operator''] ''chat'' None best \<and> [''r1''] = [rule_id best])"
  using tg_evaluate_allow_iff [OF demo_evaluate] by (auto simp: mk_decision_def)

text \<open>
  The tool gateway never answers require_approval: from a state whose cached bundle, if
  any, came from its own parser, every decision \<open>evaluate\<close> returns is allow or deny, and the
  state keeps that property. A bundle with require_approval rules therefore cannot turn into
  an unenforced approval on the invocation path.
\<close>

theorem tg_never_requires_approval:
  assumes "tg_state_ok st" and "tg_evaluate env path st roles action ar = (Inr d, st')"
  shows "tg_state_ok st' \<and> decision d \<in> {''allow'', ''deny''}"
proof -
  from assms(2) obtain rules where load: "tg_load_bundle env path st = (Inr rules, st')"
    and ev: "evaluate_rules roles action ar rules = Inr d" by (rule tg_evaluate_cases)
  from tg_load_bundle_ok [OF assms(1) load] have st': "tg_state_ok st'"
    and ok: "list_all tg_rule_ok rules" by auto
  from ok have no: "filter (\<lambda>r. outcome r = ''require_approval'')
      (filter (rule_applies roles action ar) rules) = []"
    by (auto simp: filter_empty_conv list_all_iff tg_rule_ok_def)
  with st' evaluate_rules_decide [OF ev] show ?thesis
    by (auto simp: decide_def Let_def mk_decision_def split: list.splits)
qed

theorem tg_never_requires_approval_witness:
  "tg_state_ok demo_state1
   \<and> decision (mk_decision ''allow'' [''r1''] ''allowed by policy rule'' ''chat'' None) \<in> {''allow'', ''deny''}"
  using tg_never_requires_approval [OF _ demo_evaluate]
  by (simp add: tg_state_ok_def demo_state0_def)

text \<open>
  C3. Loading fails closed and caches by path: a failed load returns no decision and leaves
  the cached bundle, its path and its fingerprint untouched; and after a successful load, a
  later load with the same path returns exactly those rules, whatever the file system, the
  YAML reader or the packaged text have become.
\<close>

theorem tg_load_fail_closed_and_cached:
  "(\<forall>e st'. tg_load_bundle env path st = (Inl e, st') \<longrightarrow>
      st' = st \<and> tg_evaluate env path st roles action ar = (Inl (LoadFailed e), st))
   \<and> (\<forall>rules st'. tg_load_bundle env path st = (Inr rules, st') \<longrightarrow>
        tg_load_bundle env' path st' = (Inr rules, st'))"
proof (intro conjI allI impI)
  fix e st'
  assume a: "tg_load_bundle env path st = (Inl e, st')"
  then show "st' = st" using tg_load_cases [OF a] by auto
  with a show "tg_evaluate env path st roles action ar = (Inl (LoadFailed e), st)"
    by (simp add: tg_evaluate_def)
next
  fix rules st'
  assume a: "tg_load_bundle env path st = (Inr rules, st')"
  then show "tg_load_bundle env' path st' = (Inr rules, st')"
    using tg_load_cases [OF a] by (auto simp: tg_load_bundle_def)
qed

theorem tg_load_fail_closed_and_cached_witness:
  "tg_load_bundle (demo_env\<lparr>packaged_bundle_text := ''other''\<rparr>) None demo_state1 = (Inr [demo_r1], demo_state1)
   \<and> tg_load_bundle demo_env (Some ''missing'') demo_state0 =
       (Inl (PolicyLoadError (BundleNotFound ''missing'')), demo_state0)
   \<and> tg_evaluate demo_env (Some ''missing'') demo_state0 [] ''chat'' None =
       (Inl (LoadFailed (PolicyLoadError (BundleNotFound ''missing''))), demo_state0)"
proof -
  have missing: "tg_load_bundle demo_env (Some ''missing'') demo_state0 =
      (Inl (PolicyLoadError (BundleNotFound ''missing'')), demo_state0)"
    by (simp add: demo_policy_defs)
  show ?thesis
    using missing demo_load
      tg_load_fail_closed_and_cached [of demo_env None demo_state0 "[]" "''chat''" None
        "demo_env\<lparr>packaged_bundle_text := ''other''\<rparr>"]
      tg_load_fail_closed_and_cached [of demo_env "Some ''missing''" demo_state0 "[]" "''chat''" None demo_env]
    by blast
qed

text \<open>
  The agent-role axis on a deny rule is not fail-closed for unscoped calls: a deny rule
  matching the same role and action stops every call, but once it carries
  \<open>agent_roles_any\<close> an unscoped call (\<open>agent_role=None\<close>) no longer matches it, so the same
  bundle answers allow. The module and \<open>evaluate\<close> docstrings call the axis
  \<open>fail-closed and subtractive-only\<close>; for deny rules narrowing the rule widens what is allowed.
\<close>

theorem agent_role_axis_widens_deny:
  fixes allow_rule deny_rule :: policy_rule
  assumes "rule_applies roles action None allow_rule" and "outcome allow_rule = ''allow''"
    and "rule_applies roles action None deny_rule" and "outcome deny_rule = ''deny''"
    and "list_all hashable (roles_any allow_rule)" and "list_all hashable (roles_any deny_rule)"
    and "ars \<noteq> []"
  shows "(\<exists>d. evaluate_rules roles action None [allow_rule, deny_rule] = Inr d \<and> decision d = ''deny'')
    \<and> (\<exists>d. evaluate_rules roles action None [allow_rule, deny_rule\<lparr>agent_roles_any := ars\<rparr>] = Inr d
          \<and> decision d = ''allow'')"
proof -
  have "\<not> rule_applies roles action None (deny_rule\<lparr>agent_roles_any := ars\<rparr>)"
    using assms(7) by (simp add: rule_applies_def)
  with assms show ?thesis
    by (simp add: evaluate_rules_def match_rules_def rule_raises_def decide_def mk_decision_def)
qed

theorem agent_role_axis_widens_deny_witness:
  "(\<exists>d. evaluate_rules [''operator''] ''chat'' None
        [demo_r1, demo_r1\<lparr>outcome := ''deny''\<rparr>] = Inr d \<and> decision d = ''deny'')
   \<and> (\<exists>d. evaluate_rules [''operator''] ''chat'' None
        [demo_r1, demo_r1\<lparr>outcome := ''deny'', agent_roles_any := [''executor'']\<rparr>] = Inr d
      \<and> decision d = ''allow'')"
  using agent_role_axis_widens_deny
    [of "[''operator'']" "''chat''" demo_r1 "demo_r1\<lparr>outcome := ''deny''\<rparr>" "[''executor'']"]
  by (simp add: demo_r1_def rule_applies_def)

end
