(* ===== verification/Platform_Policy.thy ===== *)
theory Platform_Policy
  imports Policy_Engine
begin

text \<open>
  The platform gateway's copy of the policy engine
  (\<open>products/platform-gateway/src/platform_gateway/services/policy_engine.py\<close>), which keeps
  require_approval rules on bridged actions, and the permission matrix derived from it
  (\<open>policy_matrix.py\<close>). The records, the approval parser and the decision function have the
  same text in both engines and are shared with theory \<open>Policy_Engine\<close>. The lemmas show that
  a require_approval decision always carries an enforceable approval block and that every
  cell of the matrix is the engine's decision for that role and action.
\<close>

section \<open>Vocabulary, parser and loader\<close>

definition pg_PROTECTED_ACTIONS :: "string list" where
  "pg_PROTECTED_ACTIONS =
     [''chat'', ''chat:confirm'', ''session:create'', ''session:read'', ''session:list'',
      ''session:delete'', ''audit:read'', ''incident:read'', ''incident:create'',
      ''incident:triage'', ''policy:read'', ''tools:list'', ''skills:read'',
      ACTION_TOOLS_MUTATE, ''secrets:deliver'', ''models:list'', ''approvals:list'',
      ''documents:create'', ''documents:read'', ''session:update'', ''session:skill_draft'',
      ''incident:skill_draft'', ''session:skill_graduate'', ''runtime:flags'']"

definition pg_APPROVAL_BRIDGED_ACTIONS :: "string list" where
  "pg_APPROVAL_BRIDGED_ACTIONS = [ACTION_TOOLS_MUTATE]"

definition pg_parse_rule :: "nat \<Rightarrow> val \<Rightarrow> policy_error + policy_rule" where
  "pg_parse_rule i raw_v =
     (case as_dict raw_v of
        None \<Rightarrow> Inl (PolicyLoadError (RuleNotMapping i))
      | Some raw \<Rightarrow>
          (case (dget raw ''match'', dget raw ''decision'', dget raw ''id'') of
             (Some match_v, Some dec_v, Some id_v) \<Rightarrow>
               (case (as_dict dec_v, getitem dec_v ''outcome'') of
                  (Some dec, Some oc_v) \<Rightarrow>
                    (let rid = str_of_val id_v; oc = str_of_val oc_v;
                         appr =
                           (if oc \<notin> set VALID_OUTCOMES then Inl (UnknownOutcome rid oc)
                            else if oc = ''require_approval'' then
                              (case parse_approval i dec rid of
                                 Inl e \<Rightarrow> Inl e
                               | Inr a \<Rightarrow>
                                   (case unbridged_actions pg_APPROVAL_BRIDGED_ACTIONS match_v of
                                      None \<Rightarrow> Inl (Malformed i)
                                    | Some unbridged \<Rightarrow>
                                        if unbridged = [] then Inr (Some a)
                                        else if py_sortable unbridged then Inl (UnbridgedActions rid)
                                        else Inl (Malformed i)))
                            else if dhas dec ''approval'' then Inl (ApprovalNotAllowed rid)
                            else Inr None)
                     in (case appr of
                           Inl e \<Rightarrow> Inl (PolicyLoadError e)
                         | Inr appr' \<Rightarrow>
                             (case parse_agent_roles match_v rid of
                                Inl e \<Rightarrow> Inl e
                              | Inr ars \<Rightarrow> build_rule i raw match_v rid oc appr' ars)))
                | _ \<Rightarrow> Inl (PolicyLoadError (Malformed i)))
           | _ \<Rightarrow> Inl (PolicyLoadError (Malformed i))))"

fun pg_parse_rules_from :: "nat \<Rightarrow> val list \<Rightarrow> policy_error + policy_rule list" where
  "pg_parse_rules_from i [] = Inr []"
| "pg_parse_rules_from i (raw # raws) =
     (case pg_parse_rule i raw of
        Inl e \<Rightarrow> Inl e
      | Inr r \<Rightarrow>
          (case pg_parse_rules_from (Suc i) raws of
             Inl e \<Rightarrow> Inl e
           | Inr rs \<Rightarrow> Inr (r # rs)))"

text \<open>\<open>int(data.get("version", 0))\<close>\<close>

definition bundle_version_of :: "val \<Rightarrow> int option" where
  "bundle_version_of data =
     (case as_dict data of
        None \<Rightarrow> None
      | Some d \<Rightarrow> (case dget d ''version'' of None \<Rightarrow> Some 0 | Some v \<Rightarrow> int_of_val v))"

definition pg_parse_rules :: "policy_env \<Rightarrow> string \<Rightarrow> policy_error + int \<times> policy_rule list" where
  "pg_parse_rules env txt =
     (case safe_load env txt of
        None \<Rightarrow> Inl (PolicyLoadError InvalidYaml)
      | Some data \<Rightarrow>
          (case bundle_rules data of
             None \<Rightarrow> Inl (PolicyLoadError NotARulesMapping)
           | Some raws \<Rightarrow>
               (case bundle_version_of data of
                  None \<Rightarrow> Inl (PolicyLoadError BadVersion)
                | Some version \<Rightarrow>
                    (case pg_parse_rules_from 0 raws of
                       Inl e \<Rightarrow> Inl e
                     | Inr rs \<Rightarrow> Inr (version, rs)))))"

record pg_policy_state =
  pg_rules :: "policy_rule list option"
  pg_version :: int
  pg_path :: "string option"
  pg_hash :: string

definition pg_reset_policy_state :: "pg_policy_state \<Rightarrow> pg_policy_state" where
  "pg_reset_policy_state st = \<lparr>pg_rules = None, pg_version = 0, pg_path = None, pg_hash = []\<rparr>"

definition pg_load_bundle ::
  "policy_env \<Rightarrow> string option \<Rightarrow> pg_policy_state \<Rightarrow>
   (policy_error + policy_rule list) \<times> pg_policy_state" where
  "pg_load_bundle env path st =
     (case (pg_rules st, pg_path st = path) of
        (Some rules, True) \<Rightarrow> (Inr rules, st)
      | _ \<Rightarrow>
          (case bundle_text env path of
             Inl e \<Rightarrow> (Inl e, st)
           | Inr txt \<Rightarrow>
               (case pg_parse_rules env txt of
                  Inl e \<Rightarrow> (Inl e, st)
                | Inr (version, rules) \<Rightarrow>
                    (Inr rules,
                     \<lparr>pg_rules = Some rules, pg_version = version, pg_path = path,
                      pg_hash = sha256_hex env txt\<rparr>))))"

record bundle_meta =
  meta_version :: int
  meta_source :: string
  meta_sha256 :: string

definition bundle_metadata ::
  "policy_env \<Rightarrow> string option \<Rightarrow> pg_policy_state \<Rightarrow> (policy_error + bundle_meta) \<times> pg_policy_state" where
  "bundle_metadata env path st =
     (case pg_load_bundle env path st of
        (Inl e, st') \<Rightarrow> (Inl e, st')
      | (Inr _, st') \<Rightarrow>
          (Inr \<lparr>meta_version = pg_version st',
                meta_source =
                  (if path = None \<or> path = Some [] then ''packaged-default'' else ''configured''),
                meta_sha256 = pg_hash st'\<rparr>, st'))"

definition pg_evaluate ::
  "policy_env \<Rightarrow> string option \<Rightarrow> pg_policy_state \<Rightarrow> string list \<Rightarrow> string \<Rightarrow> string option \<Rightarrow>
   (eval_error + policy_decision) \<times> pg_policy_state" where
  "pg_evaluate env path st roles action agent_role =
     (case pg_load_bundle env path st of
        (Inl e, st') \<Rightarrow> (Inl (LoadFailed e), st')
      | (Inr rules, st') \<Rightarrow> (evaluate_rules roles action agent_role rules, st'))"

section \<open>The permission matrix\<close>

definition ADMIN_ROLE :: string where
  "ADMIN_ROLE = ''platform-admin''"

record approval_cell =
  cell_tier :: string
  cell_deciders :: "string list"
  cell_rule_id :: "string option"

record policy_matrix =
  mx_version :: int
  mx_source :: string
  mx_sha256 :: string
  mx_scope :: string
  mx_roles :: "string list"
  mx_actions :: "string list"
  mx_matrix :: "(string, (string, bool) dict) dict"
  mx_approvals :: "(string, (string, approval_cell) dict) dict"

definition approval_cell_of :: "policy_decision \<Rightarrow> approval_cell option" where
  "approval_cell_of d =
     (case (decision d = ''require_approval'', decision_approval d) of
        (True, Some a) \<Rightarrow>
          Some \<lparr>cell_tier = tier a, cell_deciders = decided_by_roles a,
                cell_rule_id = (case matched_rule_ids d of [] \<Rightarrow> None | i # _ \<Rightarrow> Some i)\<rparr>
      | _ \<Rightarrow> None)"

text \<open>
  One row: \<open>evaluate(settings, [role], action)\<close> for every action. The bundle is loaded by the
  caller, so each \<open>evaluate\<close> hits the cache and leaves the state unchanged.
\<close>

fun matrix_row ::
  "policy_env \<Rightarrow> string option \<Rightarrow> pg_policy_state \<Rightarrow> string \<Rightarrow> string list \<Rightarrow>
   eval_error + (string, bool) dict \<times> (string, approval_cell) dict" where
  "matrix_row env path st role [] = Inr ([], [])"
| "matrix_row env path st role (action # actions) =
     (case fst (pg_evaluate env path st [role] action None) of
        Inl e \<Rightarrow> Inl e
      | Inr d \<Rightarrow>
          (case matrix_row env path st role actions of
             Inl e \<Rightarrow> Inl e
           | Inr (row, appr) \<Rightarrow>
               Inr ((action, decision d = ''allow'') # row,
                    (case approval_cell_of d of
                       None \<Rightarrow> appr
                     | Some cell \<Rightarrow> (action, cell) # appr))))"

fun matrix_rows ::
  "policy_env \<Rightarrow> string option \<Rightarrow> pg_policy_state \<Rightarrow> string list \<Rightarrow> string list \<Rightarrow>
   (string, (string, bool) dict) dict \<Rightarrow> (string, (string, approval_cell) dict) dict \<Rightarrow>
   eval_error + (string, (string, bool) dict) dict \<times> (string, (string, approval_cell) dict) dict" where
  "matrix_rows env path st actions [] m ap = Inr (m, ap)"
| "matrix_rows env path st actions (role # roles) m ap =
     (case matrix_row env path st role actions of
        Inl e \<Rightarrow> Inl e
      | Inr (row, appr) \<Rightarrow>
          matrix_rows env path st actions roles (dset role row m)
            (if appr = [] then ap else dset role appr ap))"

text \<open>
  What \<open>sorted\<close> accepts: the actions are sorted together with the protected ones, which are strings. The
  roles are collected in a set, and the bundle's are sorted for an administrator only. (A set
  of nothing but numbers could be sorted too; as a role list it is answered with the error here.)
\<close>

definition names_of :: "val list \<Rightarrow> eval_error + string list" where
  "names_of vs = (if list_all is_str vs then Inr (map str_of_val vs) else Inl RoleTypeError)"

definition visible_roles :: "bool \<Rightarrow> val list \<Rightarrow> string list \<Rightarrow> eval_error + string list" where
  "visible_roles is_admin bundle_roles identity_roles =
     (if \<not> list_all hashable bundle_roles then Inl RoleTypeError
      else if is_admin then (case names_of bundle_roles of Inl e \<Rightarrow> Inl e | Inr ns \<Rightarrow> Inr (sort (remdups ns)))
      else Inr (sort identity_roles))"

definition build_policy_matrix ::
  "policy_env \<Rightarrow> string option \<Rightarrow> pg_policy_state \<Rightarrow> string list \<Rightarrow>
   (eval_error + policy_matrix) \<times> pg_policy_state" where
  "build_policy_matrix env path st identity_roles =
     (case pg_load_bundle env path st of
        (Inl e, st') \<Rightarrow> (Inl (LoadFailed e), st')
      | (Inr rules, st') \<Rightarrow>
          (case bundle_metadata env path st' of
             (Inl e, st'') \<Rightarrow> (Inl (LoadFailed e), st'')
           | (Inr meta, st'') \<Rightarrow>
               (case (visible_roles (ADMIN_ROLE \<in> set identity_roles) (concat (map roles_any rules)) identity_roles,
                      names_of (concat (map actions_any rules))) of
                  (Inr visible, Inr bundle_actions) \<Rightarrow>
                    (let actions = sort (remdups (bundle_actions @ pg_PROTECTED_ACTIONS));
                         is_admin = (ADMIN_ROLE \<in> set identity_roles)
                     in (case matrix_rows env path st'' actions visible [] [] of
                           Inl e \<Rightarrow> (Inl e, st'')
                         | Inr (m, ap) \<Rightarrow>
                             (Inr \<lparr>mx_version = meta_version meta, mx_source = meta_source meta,
                                   mx_sha256 = meta_sha256 meta,
                                   mx_scope = (if is_admin then ''full'' else ''own''),
                                   mx_roles = visible, mx_actions = actions, mx_matrix = m,
                                   mx_approvals = ap\<rparr>, st'')))
                | _ \<Rightarrow> (Inl RoleTypeError, st''))))"

section \<open>Loaded rules are enforceable\<close>

definition pg_rule_ok :: "policy_rule \<Rightarrow> bool" where
  "pg_rule_ok r \<longleftrightarrow>
     outcome r \<in> set VALID_OUTCOMES \<and> set (agent_roles_any r) \<subseteq> set AGENT_ROLES
     \<and> (case rule_approval r of
          None \<Rightarrow> outcome r \<noteq> ''require_approval''
        | Some a \<Rightarrow> outcome r = ''require_approval'' \<and> tier a \<in> set APPROVAL_TIERS
            \<and> decided_by_roles a \<noteq> [] \<and> [] \<notin> set (decided_by_roles a)
            \<and> (tier a = ''tier_2'' \<longrightarrow> \<not> effective_self_approval a)
            \<and> set (actions_any r) \<subseteq> set (map VStr pg_APPROVAL_BRIDGED_ACTIONS))"

definition pg_state_ok :: "pg_policy_state \<Rightarrow> bool" where
  "pg_state_ok st \<longleftrightarrow> (case pg_rules st of None \<Rightarrow> True | Some rs \<Rightarrow> list_all pg_rule_ok rs)"

lemma parse_approval_cases:
  assumes "parse_approval i dec rid = Inr a"
  obtains approval ds where "dget dec ''approval'' = Some (VDict approval)"
    and "get_none approval ''tier'' \<in> set (map VStr APPROVAL_TIERS)"
    and "ds \<noteq> []" and "list_all (\<lambda>r. is_str r \<and> truthy r) ds"
    and "\<not> (get_none approval ''tier'' = VStr ''tier_2''
            \<and> get_none approval ''allow_self_approval'' = VBool True)"
    and "a = \<lparr>tier = str_of_val (get_none approval ''tier''), decided_by_roles = map str_of_val ds,
              allow_self_approval =
                (case get_none approval ''allow_self_approval'' of VBool b \<Rightarrow> Some b | _ \<Rightarrow> None)\<rparr>"
proof -
  from assms obtain approval where ap: "dget dec ''approval'' = Some (VDict approval)"
    by (simp add: parse_approval_def split: option.splits val.splits)
  from assms ap obtain ds where "as_list (get_none approval ''decided_by_roles'') = Some ds"
    by (fastforce simp: parse_approval_def Let_def split: option.splits if_splits)
  with assms ap that show ?thesis
    by (simp add: parse_approval_def Let_def split: if_splits)
qed

lemma parse_approval_ok:
  assumes "parse_approval i dec rid = Inr a"
  shows "tier a \<in> set APPROVAL_TIERS \<and> decided_by_roles a \<noteq> [] \<and> [] \<notin> set (decided_by_roles a)
    \<and> (tier a = ''tier_2'' \<longrightarrow> \<not> effective_self_approval a)"
proof -
  from assms obtain approval ds where
    tv: "get_none approval ''tier'' \<in> set (map VStr APPROVAL_TIERS)"
    and ds: "ds \<noteq> []" "list_all (\<lambda>r. is_str r \<and> truthy r) ds"
    and t2: "\<not> (get_none approval ''tier'' = VStr ''tier_2''
               \<and> get_none approval ''allow_self_approval'' = VBool True)"
    and a: "a = \<lparr>tier = str_of_val (get_none approval ''tier''), decided_by_roles = map str_of_val ds,
                 allow_self_approval =
                   (case get_none approval ''allow_self_approval'' of VBool b \<Rightarrow> Some b | _ \<Rightarrow> None)\<rparr>"
    by (rule parse_approval_cases)
  have "str_of_val v \<noteq> []" if "v \<in> set ds" for v
  proof -
    from that ds(2) have "is_str v \<and> truthy v" by (simp add: list_all_iff)
    then show ?thesis by (cases v) simp_all
  qed
  then have "[] \<notin> set (decided_by_roles a)" using a by fastforce
  moreover from tv obtain t where "get_none approval ''tier'' = VStr t" "t \<in> set APPROVAL_TIERS" by auto
  moreover from this t2 a have "\<not> effective_self_approval a" if "tier a = ''tier_2''"
    using that by (simp add: effective_self_approval_def split: val.splits)
  ultimately show ?thesis using a ds(1) by simp
qed

lemma build_rule_actions:
  "build_rule i raw match_v rid oc appr ars = Inr r \<Longrightarrow>
   Option.bind (getitem match_v ''actions_any'') iter_val = Some (actions_any r)"
  by (auto simp: build_rule_def split: option.splits)

lemma unbridged_none:
  assumes "unbridged_actions bridged match_v = Some []"
    and "Option.bind (getitem match_v ''actions_any'') iter_val = Some acts"
  shows "set acts \<subseteq> set (map VStr bridged)"
  using assms by (auto simp: unbridged_actions_def filter_empty_conv split: option.splits if_splits)

lemma pg_parse_rule_ok:
  assumes "pg_parse_rule i raw = Inr r"
  shows "pg_rule_ok r"
proof -
  from assms obtain match_v rid oc ars raw' appr dec where
    oc: "oc \<in> set VALID_OUTCOMES"
    and appr: "(oc = ''require_approval'' \<and> (\<exists>a. appr = Some a \<and> parse_approval i dec rid = Inr a)
                  \<and> unbridged_actions pg_APPROVAL_BRIDGED_ACTIONS match_v = Some [])
               \<or> (oc \<noteq> ''require_approval'' \<and> appr = None)"
    and ars: "parse_agent_roles match_v rid = Inr ars"
    and r: "build_rule i raw' match_v rid oc appr ars = Inr r"
    by (auto simp: pg_parse_rule_def Let_def split: option.splits sum.splits if_splits) blast+
  from build_rule_fields [OF r] oc parse_agent_roles_vocab [OF ars] appr show ?thesis
    using parse_approval_ok [of i dec rid] unbridged_none [OF _ build_rule_actions [OF r]]
    by (auto simp: pg_rule_ok_def)
qed

lemma pg_parse_rules_from_ok: "pg_parse_rules_from i raws = Inr rs \<Longrightarrow> list_all pg_rule_ok rs"
proof (induction i raws arbitrary: rs rule: pg_parse_rules_from.induct)
  case (1 i)
  then show ?case by simp
next
  case (2 i raw raws)
  then show ?case by (fastforce split: sum.splits intro: pg_parse_rule_ok)
qed

lemma pg_load_cases:
  "pg_load_bundle env path st = (res, st') \<Longrightarrow>
   (\<exists>rules. res = Inr rules \<and> pg_rules st = Some rules \<and> pg_path st = path \<and> st' = st)
   \<or> (\<exists>e. res = Inl e \<and> st' = st)
   \<or> (\<exists>version rules txt. res = Inr rules \<and> pg_parse_rules env txt = Inr (version, rules)
        \<and> st' = \<lparr>pg_rules = Some rules, pg_version = version, pg_path = path, pg_hash = sha256_hex env txt\<rparr>)"
  by (auto simp: pg_load_bundle_def split: option.splits bool.splits sum.splits)

lemma pg_load_cached: "pg_load_bundle env path st = (Inr rules, st') \<Longrightarrow>
    pg_load_bundle env' path st' = (Inr rules, st')"
  using pg_load_cases [of env path st "Inr rules" st'] by (auto simp: pg_load_bundle_def)

lemma pg_parse_rules_ok: "pg_parse_rules env txt = Inr (v, rs) \<Longrightarrow> list_all pg_rule_ok rs"
  by (auto simp: pg_parse_rules_def split: option.splits sum.splits intro: pg_parse_rules_from_ok)

lemma pg_load_bundle_ok [inv_intros]:
  assumes "pg_state_ok st" and "pg_load_bundle env path st = (res, st')"
  shows "pg_state_ok st' \<and> (\<forall>rules. res = Inr rules \<longrightarrow> list_all pg_rule_ok rules)"
  using pg_load_cases [OF assms(2)] assms(1)
  by (auto simp: pg_state_ok_def intro: pg_parse_rules_ok)

lemma pg_evaluate_cases:
  assumes "pg_evaluate env path st roles action ar = (Inr d, st')"
  obtains rules where "pg_load_bundle env path st = (Inr rules, st')"
    and "evaluate_rules roles action ar rules = Inr d"
  using assms by (auto simp: pg_evaluate_def split: prod.splits sum.splits)

section \<open>What the platform gateway enforces\<close>

lemma decide_approval_best:
  assumes "decision (decide action ms) = ''require_approval''"
  shows "\<not> (\<exists>r\<in>set ms. outcome r = ''deny'')
    \<and> (\<exists>best\<in>set ms. outcome best = ''require_approval''
         \<and> matched_rule_ids (decide action ms) = [rule_id best]
         \<and> decision_approval (decide action ms) = rule_approval best
         \<and> (\<forall>r\<in>set ms. outcome r = ''require_approval'' \<longrightarrow> rule_priority r \<le> rule_priority best))"
proof -
  let ?ap = "filter (\<lambda>r. outcome r = ''require_approval'') ms"
  have nd: "\<not> (\<exists>r\<in>set ms. outcome r = ''deny'')"
    using assms decide_deny [of _ ms action] by auto
  have "?ap \<noteq> []"
  proof
    assume "?ap = []"
    with assms show False
      by (simp add: decide_def Let_def mk_decision_def split: list.splits if_splits)
  qed
  then obtain a as' where ap: "?ap = a # as'" by (cases ?ap) auto
  let ?b = "py_max_by rule_priority a as'"
  have "?b \<in> set ?ap" using py_max_by_mem [of rule_priority a as'] ap by simp
  moreover have "rule_priority r \<le> rule_priority ?b"
    if "r \<in> set ms" "outcome r = ''require_approval''" for r
  proof -
    from that have "r \<in> set ?ap" by simp
    then show ?thesis using ap by (auto intro: py_max_by_ge)
  qed
  ultimately show ?thesis
    using nd decide_approval [OF nd ap, of action] by (auto simp: Let_def mk_decision_def)
qed

text \<open>
  Approval decisions are enforceable: from a state whose cached bundle, if any, came from
  the loader, a require_approval decision of the platform gateway is taken only when no
  matching rule denies, it carries the approval block of a matching require_approval rule of
  maximal priority, with a known tier and a non-empty list of non-empty decider roles, tier_2
  never lets the requester approve, and the action is one the approval bridge can enforce.
\<close>

theorem pg_approval_enforceable:
  assumes "pg_state_ok st" and "pg_evaluate env path st roles action ar = (Inr d, st')"
    and "decision d = ''require_approval''"
  shows "pg_state_ok st' \<and>
    (\<exists>rules best a. pg_load_bundle env path st = (Inr rules, st') \<and> best \<in> set rules
       \<and> rule_applies roles action ar best \<and> outcome best = ''require_approval''
       \<and> matched_rule_ids d = [rule_id best] \<and> decision_approval d = Some a \<and> rule_approval best = Some a
       \<and> (\<forall>r\<in>set rules. rule_applies roles action ar r \<longrightarrow> outcome r \<noteq> ''deny''
            \<and> (outcome r = ''require_approval'' \<longrightarrow> rule_priority r \<le> rule_priority best))
       \<and> tier a \<in> set APPROVAL_TIERS \<and> decided_by_roles a \<noteq> [] \<and> [] \<notin> set (decided_by_roles a)
       \<and> (tier a = ''tier_2'' \<longrightarrow> \<not> effective_self_approval a)
       \<and> action \<in> set pg_APPROVAL_BRIDGED_ACTIONS)"
proof -
  from assms(2) obtain rules where load: "pg_load_bundle env path st = (Inr rules, st')"
    and ev: "evaluate_rules roles action ar rules = Inr d" by (rule pg_evaluate_cases)
  from pg_load_bundle_ok [OF assms(1) load] have st': "pg_state_ok st'"
    and ok: "list_all pg_rule_ok rules" by auto
  let ?ms = "filter (rule_applies roles action ar) rules"
  note d = evaluate_rules_decide [OF ev]
  from assms(3) d have nd: "\<not> (\<exists>r\<in>set ?ms. outcome r = ''deny'')"
    using decide_approval_best [of action ?ms] by simp
  from assms(3) d obtain best where best: "best \<in> set ?ms" "outcome best = ''require_approval''"
    "matched_rule_ids d = [rule_id best]" "decision_approval d = rule_approval best"
    and max: "\<forall>r\<in>set ?ms. outcome r = ''require_approval'' \<longrightarrow> rule_priority r \<le> rule_priority best"
    using decide_approval_best [of action ?ms] by auto
  from best(1) ok have rok: "pg_rule_ok best" by (auto simp: list_all_iff)
  then obtain a where a: "rule_approval best = Some a"
    using best(2) by (auto simp: pg_rule_ok_def split: option.splits)
  have act: "action \<in> set pg_APPROVAL_BRIDGED_ACTIONS"
    using rok a best(1) by (auto simp: pg_rule_ok_def rule_applies_def)
  have blk: "tier a \<in> set APPROVAL_TIERS \<and> decided_by_roles a \<noteq> [] \<and> [] \<notin> set (decided_by_roles a)
      \<and> (tier a = ''tier_2'' \<longrightarrow> \<not> effective_self_approval a)"
    using rok a by (simp add: pg_rule_ok_def)
  show ?thesis using load st' best a act blk nd max by auto
qed

text \<open>A bundle with one require_approval rule, for the witnesses.\<close>

definition demo_pg_rule :: val where
  "demo_pg_rule = VDict
     [(''id'', VStr ''m1''), (''priority'', VInt 5), (''enabled'', VBool True),
      (''match'', VDict [(''roles_any'', VList [VStr ''operator'']),
                         (''actions_any'', VList [VStr ''tools:mutate''])]),
      (''decision'', VDict
         [(''outcome'', VStr ''require_approval''),
          (''approval'', VDict [(''tier'', VStr ''tier_2''),
                               (''decided_by_roles'', VList [VStr ''lead''])])])]"

definition demo_pg_env :: policy_env where
  "demo_pg_env =
     \<lparr>read_file = (\<lambda>p. NoFile), packaged_bundle_text = ''pg'',
      safe_load = (\<lambda>t. Some (VDict [(''version'', VInt 3), (''rules'', VList [demo_pg_rule])])),
      sha256_hex = (\<lambda>t. t)\<rparr>"

definition demo_pg_state0 :: pg_policy_state where
  "demo_pg_state0 = pg_reset_policy_state \<lparr>pg_rules = None, pg_version = 0, pg_path = None, pg_hash = []\<rparr>"

definition demo_pg_m1 :: policy_rule where
  "demo_pg_m1 = \<lparr>rule_id = ''m1'', rule_priority = 5, rule_enabled = True,
     roles_any = [VStr ''operator''], actions_any = [VStr ''tools:mutate''],
     outcome = ''require_approval'',
     rule_approval = Some \<lparr>tier = ''tier_2'', decided_by_roles = [''lead''], allow_self_approval = None\<rparr>,
     agent_roles_any = []\<rparr>"

definition demo_pg_state1 :: pg_policy_state where
  "demo_pg_state1 = \<lparr>pg_rules = Some [demo_pg_m1], pg_version = 3, pg_path = None, pg_hash = ''pg''\<rparr>"

lemmas demo_pg_defs =
  demo_pg_rule_def demo_pg_env_def demo_pg_state0_def demo_pg_m1_def demo_pg_state1_def
  pg_reset_policy_state_def pg_load_bundle_def pg_parse_rules_def pg_parse_rule_def
  bundle_version_of_def parse_approval_def unbridged_actions_def pg_APPROVAL_BRIDGED_ACTIONS_def
  ACTION_TOOLS_MUTATE_def APPROVAL_TIERS_def get_none_def

lemma demo_pg_load: "pg_load_bundle demo_pg_env None demo_pg_state0 = (Inr [demo_pg_m1], demo_pg_state1)"
  by (simp add: demo_pg_defs demo_policy_defs)

lemma demo_pg_evaluate:
  "pg_evaluate demo_pg_env None demo_pg_state0 [''operator''] ''tools:mutate'' None =
   (Inr (mk_decision ''require_approval'' [''m1''] ''approval required by policy rule'' ''tools:mutate''
       (Some \<lparr>tier = ''tier_2'', decided_by_roles = [''lead''], allow_self_approval = None\<rparr>)), demo_pg_state1)"
  unfolding pg_evaluate_def demo_pg_load
  by (simp add: demo_pg_m1_def evaluate_rules_def match_rules_def rule_raises_def rule_applies_def decide_def)

theorem pg_approval_enforceable_witness:
  "pg_state_ok demo_pg_state1 \<and>
   (\<exists>rules. pg_load_bundle demo_pg_env None demo_pg_state0 = (Inr rules, demo_pg_state1)
      \<and> (\<exists>best\<in>set rules. rule_id best = ''m1''))
   \<and> ''tools:mutate'' \<in> set pg_APPROVAL_BRIDGED_ACTIONS"
  using pg_approval_enforceable [OF _ demo_pg_evaluate]
  by (auto simp: pg_state_ok_def demo_pg_state0_def pg_reset_policy_state_def mk_decision_def)

section \<open>The matrix is the engine\<close>

lemma pg_evaluate_cached:
  assumes "pg_load_bundle env path st = (Inr rules, st')"
  shows "pg_evaluate env path st' roles action ar = (evaluate_rules roles action ar rules, st')"
  using pg_load_cached [OF assms, of env] by (simp add: pg_evaluate_def)

lemma matrix_row_cells:
  assumes "matrix_row env path st role actions = Inr (row, appr)" and "distinct actions"
  shows "set (map fst appr) \<subseteq> set actions \<and>
    (\<forall>a\<in>set actions. \<exists>d. fst (pg_evaluate env path st [role] a None) = Inr d
       \<and> dget row a = Some (decision d = ''allow'') \<and> dget appr a = approval_cell_of d)"
  using assms
proof (induction env path st role actions arbitrary: row appr rule: matrix_row.induct)
  case (1 env path st role)
  then show ?case by simp
next
  case (2 env path st role action actions)
  from "2.prems"(1) obtain d row' appr' where
    d: "fst (pg_evaluate env path st [role] action None) = Inr d"
    and rest: "matrix_row env path st role actions = Inr (row', appr')"
    and row: "row = (action, decision d = ''allow'') # row'"
    and appr: "appr = (case approval_cell_of d of None \<Rightarrow> appr' | Some c \<Rightarrow> (action, c) # appr')"
    by (auto split: sum.splits)
  from "2.prems"(2) have dist: "distinct actions" "action \<notin> set actions" by auto
  note IH = "2.IH" [OF d rest dist(1)]
  from IH dist(2) have "action \<notin> fst ` set appr'" by auto
  then have "dget appr' action = None" by (simp add: dget_def map_of_eq_None_iff)
  with IH d row appr dist show ?case by (auto split: option.splits)
qed

lemma matrix_rows_cells:
  assumes "matrix_rows env path st actions roles m ap = Inr (m', ap')"
  shows "\<forall>role. (role \<notin> set roles \<longrightarrow> dget m' role = dget m role \<and> dget ap' role = dget ap role)
    \<and> (role \<in> set roles \<longrightarrow>
         (\<exists>row appr. matrix_row env path st role actions = Inr (row, appr) \<and> dget m' role = Some row
            \<and> dget ap' role = (if appr = [] then dget ap role else Some appr)))"
  using assms
proof (induction env path st actions roles m ap arbitrary: m' ap' rule: matrix_rows.induct)
  case (1 env path st actions m ap)
  then show ?case by simp
next
  case (2 env path st actions r roles m ap)
  from "2.prems" obtain row appr where
    r: "matrix_row env path st r actions = Inr (row, appr)"
    and rest: "matrix_rows env path st actions roles (dset r row m)
        (if appr = [] then ap else dset r appr ap) = Inr (m', ap')"
    by (auto split: sum.splits)
  note IH = "2.IH" [OF r refl rest, rule_format]
  show ?case
  proof (intro allI conjI impI)
    fix role
    assume "role \<notin> set (r # roles)"
    then show "dget m' role = dget m role" and "dget ap' role = dget ap role"
      using IH [of role] by simp_all
  next
    fix role
    assume role: "role \<in> set (r # roles)"
    show "\<exists>row appr. matrix_row env path st role actions = Inr (row, appr) \<and> dget m' role = Some row
        \<and> dget ap' role = (if appr = [] then dget ap role else Some appr)"
    proof (cases "role \<in> set roles")
      case True
      with IH [of role] obtain row' appr' where
        "matrix_row env path st role actions = Inr (row', appr')" "dget m' role = Some row'"
        "dget ap' role = (if appr' = [] then dget (if appr = [] then ap else dset r appr ap) role
                          else Some appr')" by auto
      with r show ?thesis by (cases "role = r") auto
    next
      case False
      with role IH [of role] r show ?thesis by simp
    qed
  qed
qed

lemma build_policy_matrix_cases:
  assumes "build_policy_matrix env path st ids = (Inr mx, st')"
  obtains rules where "pg_load_bundle env path st = (Inr rules, st')"
    and "matrix_rows env path st' (mx_actions mx) (mx_roles mx) [] [] = Inr (mx_matrix mx, mx_approvals mx)"
    and "distinct (mx_actions mx)" and "set pg_PROTECTED_ACTIONS \<subseteq> set (mx_actions mx)"
    and "ADMIN_ROLE \<notin> set ids \<longrightarrow> mx_scope mx = ''own'' \<and> mx_roles mx = sort ids"
proof -
  from assms obtain rules st1 where load: "pg_load_bundle env path st = (Inr rules, st1)"
    by (auto simp: build_policy_matrix_def split: prod.splits sum.splits)
  have meta: "\<exists>m. bundle_metadata env path st1 = (Inr m, st1)"
    using pg_load_cached [OF load, of env] by (simp add: bundle_metadata_def)
  have own: "v = sort ids" if "visible_roles (ADMIN_ROLE \<in> set ids) rs ids = Inr v" "ADMIN_ROLE \<notin> set ids" for rs v
    using that by (simp add: visible_roles_def split: if_splits)
  from meta assms load that own show ?thesis
    by (auto simp: build_policy_matrix_def Let_def split: sum.splits prod.splits if_splits)
qed

text \<open>
  C6. The permission matrix is exactly the engine: whenever a matrix is built, every cell for a
  listed role and action is the answer \<open>evaluate\<close> gives for that role alone, an approval cell
  is present exactly when that answer is a require_approval decision, every protected action is
  listed, and a caller without the admin role sees no row but those of its own roles.
\<close>

theorem matrix_cell_is_decision:
  assumes "build_policy_matrix env path st ids = (Inr mx, st')"
  shows "(\<forall>role\<in>set (mx_roles mx). \<forall>action\<in>set (mx_actions mx). \<exists>d row.
            pg_evaluate env path st' [role] action None = (Inr d, st')
            \<and> dget (mx_matrix mx) role = Some row \<and> dget row action = Some (decision d = ''allow'')
            \<and> Option.bind (dget (mx_approvals mx) role) (\<lambda>ap. dget ap action) = approval_cell_of d)
    \<and> set pg_PROTECTED_ACTIONS \<subseteq> set (mx_actions mx)
    \<and> (ADMIN_ROLE \<notin> set ids \<longrightarrow> mx_scope mx = ''own'' \<and> set (mx_roles mx) = set ids
         \<and> (\<forall>role. dhas (mx_matrix mx) role \<longrightarrow> role \<in> set ids))"
proof -
  from assms obtain rules where load: "pg_load_bundle env path st = (Inr rules, st')"
    and rows: "matrix_rows env path st' (mx_actions mx) (mx_roles mx) [] []
                 = Inr (mx_matrix mx, mx_approvals mx)"
    and dist: "distinct (mx_actions mx)" and prot: "set pg_PROTECTED_ACTIONS \<subseteq> set (mx_actions mx)"
    and own: "ADMIN_ROLE \<notin> set ids \<longrightarrow> mx_scope mx = ''own'' \<and> mx_roles mx = sort ids"
    by (rule build_policy_matrix_cases)
  note cells = matrix_rows_cells [OF rows, rule_format]
  have cell: "\<exists>d row. pg_evaluate env path st' [role] action None = (Inr d, st')
      \<and> dget (mx_matrix mx) role = Some row \<and> dget row action = Some (decision d = ''allow'')
      \<and> Option.bind (dget (mx_approvals mx) role) (\<lambda>ap. dget ap action) = approval_cell_of d"
    if role: "role \<in> set (mx_roles mx)" and act: "action \<in> set (mx_actions mx)" for role action
  proof -
    from cells [of role] role obtain row appr where
      row: "matrix_row env path st' role (mx_actions mx) = Inr (row, appr)"
      and m: "dget (mx_matrix mx) role = Some row"
      and ap: "dget (mx_approvals mx) role = (if appr = [] then None else Some appr)" by auto
    from matrix_row_cells [OF row dist] act obtain d where
      d: "fst (pg_evaluate env path st' [role] action None) = Inr d"
      "dget row action = Some (decision d = ''allow'')" "dget appr action = approval_cell_of d" by auto
    have "pg_evaluate env path st' [role] action None = (Inr d, st')"
      using d(1) pg_evaluate_cached [OF load, of "[role]" action None] by simp
    with m d ap show ?thesis by auto
  qed
  have "role \<in> set (mx_roles mx)" if "dhas (mx_matrix mx) role" for role
    using that cells [of role] by (auto simp: dhas_dget)
  with cell prot own show ?thesis by auto
qed

lemma evaluate_rules_total:
  "\<forall>r\<in>set rules. list_all hashable (roles_any r) \<Longrightarrow>
   \<exists>d. evaluate_rules roles action ar rules = Inr d"
  by (auto simp: evaluate_rules_def match_rules_def rule_raises_def list_ex_iff)

lemma matrix_row_total:
  assumes "\<And>a. \<exists>d. fst (pg_evaluate env path st [role] a None) = Inr d"
  shows "\<exists>p. matrix_row env path st role actions = Inr p"
proof (induction actions)
  case Nil
  then show ?case by simp
next
  case (Cons a actions)
  from assms [of a] Cons.IH show ?case by auto
qed

lemma matrix_rows_total:
  assumes "\<And>role a. \<exists>d. fst (pg_evaluate env path st [role] a None) = Inr d"
  shows "\<exists>p. matrix_rows env path st actions roles m ap = Inr p"
proof (induction roles arbitrary: m ap)
  case Nil
  then show ?case by simp
next
  case (Cons r roles)
  obtain row appr where "matrix_row env path st r actions = Inr (row, appr)"
    using matrix_row_total [of env path st r actions, OF assms] by auto
  with Cons.IH show ?case by auto
qed

lemma demo_pg_matrix:
  "\<exists>mx. build_policy_matrix demo_pg_env None demo_pg_state0 [''operator''] = (Inr mx, demo_pg_state1)
      \<and> mx_roles mx = [''operator'']"
proof -
  have "fst (pg_evaluate demo_pg_env None demo_pg_state1 [role] a None)
      = evaluate_rules [role] a None [demo_pg_m1]" for role a
    by (simp add: pg_evaluate_cached [OF demo_pg_load])
  moreover have "\<exists>d. evaluate_rules [role] a None [demo_pg_m1] = Inr d" for role a
    by (rule evaluate_rules_total) (simp add: demo_pg_m1_def)
  ultimately have "\<exists>p. matrix_rows demo_pg_env None demo_pg_state1 actions [''operator''] [] [] = Inr p" for actions
    by (intro matrix_rows_total) simp
  moreover have "visible_roles False (roles_any demo_pg_m1) [''operator''] = Inr [''operator'']"
    "names_of (actions_any demo_pg_m1) = Inr [''tools:mutate'']"
    by (simp_all add: visible_roles_def names_of_def demo_pg_m1_def)
  moreover have "bundle_metadata demo_pg_env None demo_pg_state1
      = (Inr \<lparr>meta_version = 3, meta_source = ''packaged-default'', meta_sha256 = ''pg''\<rparr>, demo_pg_state1)"
    using pg_load_cached [OF demo_pg_load, of demo_pg_env]
    by (simp add: bundle_metadata_def demo_pg_state1_def)
  ultimately show ?thesis
    using demo_pg_load by (force simp: build_policy_matrix_def ADMIN_ROLE_def Let_def split: sum.splits)
qed

theorem matrix_cell_is_decision_witness:
  "\<exists>mx row. build_policy_matrix demo_pg_env None demo_pg_state0 [''operator''] = (Inr mx, demo_pg_state1)
     \<and> dget (mx_matrix mx) ''operator'' = Some row \<and> dget row ''tools:mutate'' = Some False"
proof -
  obtain mx where mx: "build_policy_matrix demo_pg_env None demo_pg_state0 [''operator''] = (Inr mx, demo_pg_state1)"
    and roles: "mx_roles mx = [''operator'']" using demo_pg_matrix by blast
  have "''tools:mutate'' \<in> set pg_PROTECTED_ACTIONS"
    by (simp add: pg_PROTECTED_ACTIONS_def ACTION_TOOLS_MUTATE_def)
  with matrix_cell_is_decision [OF mx] have act: "''tools:mutate'' \<in> set (mx_actions mx)" by blast
  from roles have "''operator'' \<in> set (mx_roles mx)" by simp
  from bspec [OF bspec [OF conjunct1 [OF matrix_cell_is_decision [OF mx]] this] act]
  obtain d row where "pg_evaluate demo_pg_env None demo_pg_state1 [''operator''] ''tools:mutate'' None
        = (Inr d, demo_pg_state1)"
    and row: "dget (mx_matrix mx) ''operator'' = Some row" "dget row ''tools:mutate'' = Some (decision d = ''allow'')"
    by blast
  then have "decision d \<noteq> ''allow''"
    by (auto simp: pg_evaluate_cached [OF demo_pg_load] demo_pg_m1_def evaluate_rules_def match_rules_def
        rule_raises_def rule_applies_def decide_def mk_decision_def)
  with mx row show ?thesis by auto
qed

end
