(* ===== verification/Execution_Signing.thy ===== *)
theory Execution_Signing
  imports Py_Values
begin

text \<open>
  Signed execution envelopes (\<open>execution_runtime/services/execution_signing.py\<close>): the canonical
  JSON text of a document, its digest, the HMAC over everything but \<open>signature\<close>, and the
  receipt built from a tool result. SHA-256 and HMAC-SHA256 are parameters (record \<open>crypto\<close>,
  hexadecimal output); characters are code points below 256 and documents hold no floats. The
  lemmas show that canonical text is an exact code for documents up to key order and that a
  signature covers every field but itself.
\<close>

record crypto =
  sha256 :: "string \<Rightarrow> string"
  hmac256 :: "string \<Rightarrow> string \<Rightarrow> string"

type_synonym json_obj = "(string, val) dict"

section \<open>Canonical JSON\<close>

text \<open>\<open>json.dumps\<close> with \<open>ensure_ascii\<close>: only printable ASCII other than the quote and backslash is literal.\<close>

definition json_escape :: "char \<Rightarrow> string" where
  "json_escape c =
     (let n = (of_char c :: nat); bs = CHR 0x5C in
      if n = 34 \<or> n = 92 then [bs, c]
      else if n = 10 then [bs, CHR ''n'']
      else if n = 13 then [bs, CHR ''r'']
      else if n = 9 then [bs, CHR ''t'']
      else if n = 12 then [bs, CHR ''f'']
      else if n = 8 then [bs, CHR ''b'']
      else if n < 32 \<or> 126 < n
        then [bs, CHR ''u'', CHR ''0'', CHR ''0'', hex_char (n div 16), hex_char (n mod 16)]
      else [c])"

definition json_str :: "string \<Rightarrow> string" where
  "json_str s = CHR 0x22 # concat (map json_escape s) @ [CHR 0x22]"

text \<open>\<open>json.dumps(obj, sort_keys=True, separators=(",", ":"))\<close>\<close>

fun canonical_json :: "val \<Rightarrow> string" where
  "canonical_json VNone = ''null''"
| "canonical_json (VBool b) = (if b then ''true'' else ''false'')"
| "canonical_json (VInt n) = int_str n"
| "canonical_json (VStr s) = json_str s"
| "canonical_json (VList xs) = ''['' @ join_with '','' (map canonical_json xs) @ '']''"
| "canonical_json (VDict d) =
     ''{'' @ join_with '',''
       (map (\<lambda>p. json_str (fst p) @ '':'' @ snd p)
          (sort_key fst (map (\<lambda>p. (fst p, canonical_json (snd p))) d))) @ ''}''"

definition canonical_digest :: "crypto \<Rightarrow> val \<Rightarrow> string" where
  "canonical_digest cr v = sha256 cr (canonical_json v)"

definition sign_envelope :: "crypto \<Rightarrow> json_obj \<Rightarrow> string \<Rightarrow> string" where
  "sign_envelope cr envelope key =
     (let payload = filter (\<lambda>p. fst p \<noteq> ''signature'') envelope
      in hmac256 cr key (canonical_json (VDict payload)))"

definition verify_envelope :: "crypto \<Rightarrow> json_obj \<Rightarrow> string \<Rightarrow> string \<Rightarrow> bool" where
  "verify_envelope cr envelope signature key = (sign_envelope cr envelope key = signature)"

text \<open>\<open>build_receipt\<close>, with \<open>_utc_now_iso()\<close> as the argument \<open>completed_at\<close>; \<open>None\<close> is the \<open>KeyError\<close>.\<close>

definition build_receipt ::
  "crypto \<Rightarrow> json_obj \<Rightarrow> string \<Rightarrow> val \<Rightarrow> val \<Rightarrow> string \<Rightarrow> string \<Rightarrow> json_obj option" where
  "build_receipt cr request status outcome request_id key completed_at =
     (case dget request ''execution_id'' of
        None \<Rightarrow> None
      | Some eid \<Rightarrow>
          (let envelope =
                 [(''execution_id'', eid), (''status'', VStr status),
                  (''outcome_digest'', VStr (canonical_digest cr outcome)),
                  (''request_id'', request_id), (''completed_at'', VStr completed_at)]
           in Some (dset ''signature'' (VStr (sign_envelope cr envelope key)) envelope)))"

section \<open>Documents up to key order\<close>

text \<open>The document with the keys of every object sorted, and its plain serialization.\<close>

fun json_norm :: "val \<Rightarrow> val" where
  "json_norm (VList xs) = VList (map json_norm xs)"
| "json_norm (VDict d) = VDict (sort_key fst (map (\<lambda>p. (fst p, json_norm (snd p))) d))"
| "json_norm v = v"

fun dumps :: "val \<Rightarrow> string" where
  "dumps VNone = ''null''"
| "dumps (VBool b) = (if b then ''true'' else ''false'')"
| "dumps (VInt n) = int_str n"
| "dumps (VStr s) = json_str s"
| "dumps (VList xs) = ''['' @ join_with '','' (map dumps xs) @ '']''"
| "dumps (VDict d) = ''{'' @ join_with '','' (map (\<lambda>p. json_str (fst p) @ '':'' @ dumps (snd p)) d) @ ''}''"

text \<open>No object has the same key twice, as every Python dictionary.\<close>

fun json_wf :: "val \<Rightarrow> bool" where
  "json_wf (VList xs) = list_all json_wf xs"
| "json_wf (VDict d) = (distinct (map fst d) \<and> list_all (\<lambda>p. json_wf (snd p)) d)"
| "json_wf v = True"

lemma insort_key_map_snd:
  "insort_key fst (fst p, f (snd p)) (map (\<lambda>q. (fst q, f (snd q))) ps)
     = map (\<lambda>q. (fst q, f (snd q))) (insort_key fst p ps)"
  by (induction ps) auto

lemma sort_key_map_snd:
  "sort_key fst (map (\<lambda>q. (fst q, f (snd q))) ps) = map (\<lambda>q. (fst q, f (snd q))) (sort_key fst ps)"
  by (induction ps) (auto simp: insort_key_map_snd)

lemma canonical_json_norm: "canonical_json v = dumps (json_norm v)"
proof (induction v rule: canonical_json.induct)
  case (5 xs)
  then show ?case by (simp add: comp_def cong: map_cong)
next
  case (6 d)
  then show ?case
    by (simp add: sort_key_map_snd [of "\<lambda>v. dumps (json_norm v)"] sort_key_map_snd [of json_norm]
        comp_def cong: map_cong)

qed simp_all

section \<open>The text determines the document\<close>

lemma div16_lt: "m < 256 \<Longrightarrow> m div 16 < (16 :: nat)"
  by presburger

text \<open>Reading one escaped character back.\<close>

definition unhex :: "char \<Rightarrow> nat" where
  "unhex c = (if of_char c < (58 :: nat) then of_char c - 48 else of_char c - 87)"

definition json_unescape :: "string \<Rightarrow> char \<times> string" where
  "json_unescape s =
     (let n = (of_char (hd s) :: nat); k = (of_char (s ! 1) :: nat) in
      if n \<noteq> 92 then (hd s, tl s)
      else if k = 117 then (char_of (16 * unhex (s ! 4) + unhex (s ! 5)), drop 6 s)
      else (char_of (if k = 110 then 10 else if k = 114 then 13 else if k = 116 then 9
                     else if k = 102 then 12 else if k = 98 then 8 else k), drop 2 s))"

lemma unhex_hex: "m < 16 \<Longrightarrow> unhex (hex_char m) = m"
  by (simp add: unhex_def hex_char_def)

lemma hex_pair: "n < 256 \<Longrightarrow> 16 * unhex (hex_char (n div 16)) + unhex (hex_char (n mod 16)) = (n :: nat)"
  by (simp add: unhex_hex div16_lt)

lemma escape_letters:
  "CHR ''b'' = char_of (98::nat)" "CHR ''f'' = char_of (102::nat)" "CHR ''t'' = char_of (116::nat)"
  "CHR ''r'' = char_of (114::nat)" "CHR ''n'' = char_of (110::nat)" "CHR ''u'' = char_of (117::nat)"
  "CHR ''0'' = char_of (48::nat)" "CHR 0x22 = char_of (34::nat)" "CHR 0x5C = char_of (92::nat)"
  by code_simp+

lemma json_unescape_escape: "json_unescape (json_escape c @ u) = (c, u)"
proof -
  define n where "n = (of_char c :: nat)"
  have c: "c = char_of n" and n: "n < 256" by (simp_all add: n_def)
  have esc: "json_escape c = (if n = 34 \<or> n = 92 then [char_of (92::nat), char_of n]
      else if n = 10 then [char_of (92::nat), char_of (110::nat)]
      else if n = 13 then [char_of (92::nat), char_of (114::nat)]
      else if n = 9 then [char_of (92::nat), char_of (116::nat)]
      else if n = 12 then [char_of (92::nat), char_of (102::nat)]
      else if n = 8 then [char_of (92::nat), char_of (98::nat)]
      else if n < 32 \<or> 126 < n then [char_of (92::nat), char_of (117::nat), char_of (48::nat),
        char_of (48::nat), hex_char (n div 16), hex_char (n mod 16)]
      else [char_of n])"
    by (simp add: json_escape_def Let_def c n of_char_of escape_letters)
  have hex: "char_of (16 * unhex (hex_char (n div 16)) + unhex (hex_char (n mod 16))) = c"
    using n c by (simp add: hex_pair)
  consider "n = 34 \<or> n = 92" | "n \<in> {10, 13, 9, 12, 8}"
    | "n \<notin> {34, 92, 10, 13, 9, 12, 8}" "n < 32 \<or> 126 < n"
    | "n \<notin> {34, 92, 10, 13, 9, 12, 8}" "\<not> (n < 32 \<or> 126 < n)" by blast
  then show ?thesis
  proof cases
    case 1
    then show ?thesis unfolding esc by (auto simp: json_unescape_def Let_def c)
  next
    case 2
    then have "n = 10 \<or> n = 13 \<or> n = 9 \<or> n = 12 \<or> n = 8" by simp
    then show ?thesis unfolding esc by (elim disjE) (simp_all add: json_unescape_def Let_def c)
  next
    case 3
    then show ?thesis unfolding esc using hex by (simp add: json_unescape_def Let_def)
  next
    case 4
    then have "n \<noteq> 92" by simp
    with 4 n show ?thesis unfolding esc by (simp add: json_unescape_def Let_def c)
  qed
qed

lemma json_escape_cancel: "json_escape c @ u = json_escape d @ v \<Longrightarrow> c = d \<and> u = v"
  by (metis json_unescape_escape prod.inject)

lemma json_escape_head: "\<exists>x xs. json_escape c = x # xs \<and> x \<noteq> CHR 0x22"
proof -
  have "(of_char c :: nat) = 34" if "c = CHR 0x22" using that by simp
  then show ?thesis by (auto simp: json_escape_def Let_def)
qed

lemma json_str_cancel:
  assumes "json_str s @ u = json_str t @ v"
  shows "s = t \<and> u = v"
proof -
  let ?q = "CHR 0x22"
  have "concat (map json_escape s) @ ?q # u = concat (map json_escape t) @ ?q # v
      \<Longrightarrow> s = t \<and> u = v"
  proof (induction s arbitrary: t)
    case Nil
    then show ?case
    proof (cases t)
      case (Cons d t')
      with Nil json_escape_head [of d] show ?thesis by auto
    qed simp
  next
    case (Cons c s)
    show ?case
    proof (cases t)
      case Nil
      with Cons.prems json_escape_head [of c] show ?thesis by auto
    next
      case (Cons d t')
      with Cons.prems have "json_escape c @ (concat (map json_escape s) @ ?q # u)
          = json_escape d @ (concat (map json_escape t') @ ?q # v)" by simp
      from json_escape_cancel [OF this] Cons.IH [of t'] Cons show ?thesis by simp
    qed
  qed
  with assms show ?thesis by (simp add: json_str_def)
qed

lemma digit_char_digit: "n < 10 \<Longrightarrow> is_digit (digit_char n) \<and> digit_val (digit_char n) = int n"
  by (simp add: is_digit_def digit_char_def digit_val_def less_eq_char_def)

lemma nat_digits_digits: "c \<in> set (nat_digits n) \<Longrightarrow> is_digit c"
proof (induction n rule: nat_digits.induct)
  case (1 n)
  then show ?case
    by (subst (asm) nat_digits.simps) (auto simp: digit_char_digit split: if_splits)
qed

lemma nat_digits_not_Nil: "nat_digits n \<noteq> []"
  by (subst nat_digits.simps) simp

lemma digits_value_append:
  assumes "\<forall>c\<in>set cs. is_digit c" and "is_digit c"
  shows "digits_value b acc (cs @ [c]) =
    map_option (\<lambda>n. 10 * n + digit_val c) (if cs = [] then Some acc else digits_value b acc cs)"
  using assms by (induction cs arbitrary: b acc) auto

lemma digits_value_nat_digits: "digits_value b 0 (nat_digits n) = Some (int n)"
proof (induction n rule: nat_digits.induct)
  case (1 n)
  show ?case
  proof (cases "n < 10")
    case True
    then show ?thesis by (subst nat_digits.simps) (simp add: digit_char_digit)
  next
    case False
    have "digits_value b 0 (nat_digits n) = map_option (\<lambda>k. 10 * k + digit_val (digit_char (n mod 10)))
        (digits_value b 0 (nat_digits (n div 10)))"
      using False nat_digits_digits [of _ "n div 10"]
      by (subst nat_digits.simps) (simp add: digits_value_append digit_char_digit nat_digits_not_Nil)
    moreover have "10 * int (n div 10) + int (n mod 10) = int n" by presburger
    ultimately show ?thesis using 1 [OF False] by (simp add: digit_char_digit)
  qed
qed

lemma nat_digits_inj: "nat_digits m = nat_digits n \<Longrightarrow> m = n"
  by (metis digits_value_nat_digits option.inject of_nat_eq_iff)

text \<open>What may follow a number in a document: nothing, or a character that is no digit.\<close>

definition delim :: "string \<Rightarrow> bool" where
  "delim s \<longleftrightarrow> (case s of [] \<Rightarrow> True | c # _ \<Rightarrow> \<not> is_digit c)"

lemma takeWhile_digits: "\<forall>c\<in>set ds. is_digit c \<Longrightarrow> delim s \<Longrightarrow> takeWhile is_digit (ds @ s) = ds"
  by (induction ds) (auto simp: delim_def split: list.splits)

lemma nat_digits_cancel:
  assumes "nat_digits m @ s = nat_digits n @ t" and "delim s" and "delim t"
  shows "m = n \<and> s = t"
proof -
  have "takeWhile is_digit (nat_digits m @ s) = nat_digits m"
    "takeWhile is_digit (nat_digits n @ t) = nat_digits n"
    using assms nat_digits_digits by (blast intro: takeWhile_digits)+
  with assms(1) have "nat_digits m = nat_digits n" by simp
  with assms(1) nat_digits_inj show ?thesis by auto
qed

lemma nat_digits_head: "\<exists>c cs. nat_digits n = c # cs \<and> is_digit c"
  using nat_digits_not_Nil [of n] nat_digits_digits [of _ n] by (cases "nat_digits n") auto

lemma dash_not_digit: "CHR ''-'' # a \<noteq> nat_digits k @ b"
proof -
  have "\<not> is_digit CHR ''-''" by (simp add: is_digit_def less_eq_char_def)
  with nat_digits_head [of k] show ?thesis by auto
qed

lemma int_str_cancel:
  assumes "int_str m @ s = int_str n @ t" and "delim s" and "delim t"
  shows "m = n \<and> s = t"
proof (cases "m < 0"; cases "n < 0")
  assume "m < 0" "n < 0"
  with assms nat_digits_cancel [of "nat (- m)" s "nat (- n)" t] show ?thesis
    by (auto simp: int_str_def nat_eq_iff split: if_splits)
next
  assume "m < 0" "\<not> n < 0"
  with assms(1) dash_not_digit show ?thesis by (simp add: int_str_def)
next
  assume "\<not> m < 0" "n < 0"
  with assms(1) [symmetric] dash_not_digit show ?thesis by (simp add: int_str_def)
next
  assume "\<not> m < 0" "\<not> n < 0"
  with assms nat_digits_cancel [of "nat m" s "nat n" t] show ?thesis
    by (auto simp: int_str_def nat_eq_iff split: if_splits)
qed

lemma join_with_Cons:
  "join_with sep (x # xs) = x @ (if xs = [] then [] else sep @ join_with sep xs)"
  by (cases xs) auto

lemma join_cancel:
  assumes "\<And>x y s t. x \<in> set xs \<Longrightarrow> delim s \<Longrightarrow> delim t \<Longrightarrow> f x @ s = f y @ t \<Longrightarrow> x = y \<and> s = t"
    and head: "\<And>y. \<exists>a as. f y = a # as \<and> a \<noteq> c"
    and c: "\<not> is_digit c" "c \<noteq> CHR '',''"
    and "join_with '','' (map f xs) @ c # s = join_with '','' (map f ys) @ c # t"
  shows "xs = ys \<and> s = t"
  using assms(1,5)
proof (induction xs arbitrary: ys)
  case Nil
  then show ?case
  proof (cases ys)
    case (Cons y ys')
    with Nil.prems(2) head [of y] show ?thesis by (auto simp: join_with_Cons)
  qed simp
next
  case (Cons x xs)
  show ?case
  proof (cases ys)
    case Nil
    with Cons.prems(2) head [of x] show ?thesis by (auto simp: join_with_Cons)
  next
    case (Cons y ys')
    let ?r = "\<lambda>zs w. (if zs = [] then [] else '','' @ join_with '','' (map f zs)) @ c # w"
    have d: "delim (?r zs w)" for zs w using c by (auto simp: delim_def is_digit_def less_eq_char_def)
    have "f x @ ?r xs s = f y @ ?r ys' t"
      using Cons.prems(2) Cons by (simp add: join_with_Cons)
    from Cons.prems(1) [OF _ d d this] have xy: "x = y" and r: "?r xs s = ?r ys' t" by auto
    show ?thesis
    proof (cases "xs = [] \<or> ys' = []")
      case True
      with r c(2) have "xs = [] \<and> ys' = [] \<and> s = t" by (auto split: if_splits)
      with xy Cons show ?thesis by simp
    next
      case False
      with r have "join_with '','' (map f xs) @ c # s = join_with '','' (map f ys') @ c # t" by simp
      moreover have "x = y \<and> s = t" if "x \<in> set xs" "delim s" "delim t" "f x @ s = f y @ t" for x y s t
        using that by (intro Cons.prems(1)) simp_all
      ultimately have "xs = ys' \<and> s = t" by (rule Cons.IH [rotated])
      with xy Cons show ?thesis by simp
    qed
  qed
qed

text \<open>The first character of a serialized value tells its kind.\<close>

definition json_tag :: "char \<Rightarrow> nat" where
  "json_tag c = (if c = CHR ''n'' then 0 else if c = CHR ''t'' then 1 else if c = CHR ''f'' then 2
            else if is_digit c \<or> c = CHR ''-'' then 3 else if c = CHR 0x22 then 4
            else if c = CHR ''['' then 5 else if c = CHR ''{'' then 6 else 7)"

fun json_kind :: "val \<Rightarrow> nat" where
  "json_kind VNone = 0"
| "json_kind (VBool b) = (if b then 1 else 2)"
| "json_kind (VInt n) = 3"
| "json_kind (VStr s) = 4"
| "json_kind (VList xs) = 5"
| "json_kind (VDict d) = 6"

lemma not_digit [simp]: "\<not> is_digit CHR ''n''" "\<not> is_digit CHR ''t''" "\<not> is_digit CHR ''f''"
  "\<not> is_digit CHR 0x22" "\<not> is_digit CHR ''[''" "\<not> is_digit CHR ''{''" "\<not> is_digit CHR '']''"
  "\<not> is_digit CHR ''}''" "\<not> is_digit CHR '',''" "\<not> is_digit CHR '':''" "\<not> is_digit CHR ''-''"
  by (simp_all add: is_digit_def less_eq_char_def)

lemma dumps_tag: "\<exists>a as. dumps v = a # as \<and> json_tag a = json_kind v"
proof (cases v)
  case (VInt n)
  have d: "json_tag c = 3" if "is_digit c" for c
  proof -
    from that have "c \<noteq> CHR ''n''" "c \<noteq> CHR ''t''" "c \<noteq> CHR ''f''" using not_digit by metis+
    with that show ?thesis by (simp add: json_tag_def)
  qed
  from nat_digits_head [of "nat n"] obtain c cs where "nat_digits (nat n) = c # cs" "is_digit c" by blast
  with d VInt show ?thesis by (simp add: int_str_def json_tag_def)
qed (simp_all add: json_str_def json_tag_def)

lemma dumps_not_closing: "\<exists>a as. dumps v = a # as \<and> a \<noteq> CHR '']''"
proof -
  obtain a as where "dumps v = a # as" "json_tag a = json_kind v" using dumps_tag by blast
  moreover have "json_tag CHR '']'' = 7" by (simp add: json_tag_def)
  moreover have "json_kind v \<noteq> 7" by (cases v) auto
  ultimately show ?thesis by auto
qed

lemma dumps_kind: "dumps v @ s = dumps w @ t \<Longrightarrow> json_kind v = json_kind w"
  using dumps_tag [of v] dumps_tag [of w] by auto

lemma dumps_cancel:
  "dumps v @ s = dumps w @ t \<Longrightarrow> delim s \<Longrightarrow> delim t \<Longrightarrow> v = w \<and> s = t"
proof (induction v arbitrary: w s t rule: dumps.induct)
  case 1
  with dumps_kind [OF "1.prems"(1)] show ?case by (cases w) (auto split: if_splits)
next
  case (2 b)
  with dumps_kind [OF "2.prems"(1)] show ?case by (cases w) (auto split: if_splits)
next
  case (3 n)
  with dumps_kind [OF "3.prems"(1)] show ?case
    using int_str_cancel [of n s _ t] by (cases w) (auto split: if_splits)
next
  case (4 z)
  with dumps_kind [OF "4.prems"(1)] show ?case
    using json_str_cancel [of z s _ t] by (cases w) (auto split: if_splits)
next
  case (5 xs)
  with dumps_kind [OF "5.prems"(1)] obtain ys where w: "w = VList ys"
    by (cases w) (auto split: if_splits)
  with "5.prems"(1) have "join_with '','' (map dumps xs) @ CHR '']'' # s
      = join_with '','' (map dumps ys) @ CHR '']'' # t" by simp
  from join_cancel [OF "5.IH" dumps_not_closing _ _ this] w show ?case by simp
next
  case (6 d)
  with dumps_kind [OF "6.prems"(1)] obtain e where w: "w = VDict e"
    by (cases w) (auto split: if_splits)
  let ?f = "\<lambda>p. json_str (fst p) @ '':'' @ dumps (snd p)"
  have step: "x = y \<and> s' = t'" if "x \<in> set d" "delim s'" "delim t'" "?f x @ s' = ?f y @ t'" for x y s' t'
  proof -
    from that(4) have "json_str (fst x) @ ('':'' @ dumps (snd x) @ s')
        = json_str (fst y) @ ('':'' @ dumps (snd y) @ t')" by simp
    from json_str_cancel [OF this] have k: "fst x = fst y" and v: "dumps (snd x) @ s' = dumps (snd y) @ t'"
      by simp_all
    from "6.IH" [OF that(1) v that(2,3)] k show ?thesis by (simp add: prod_eq_iff)
  qed
  have head: "\<exists>a as. ?f y = a # as \<and> a \<noteq> CHR ''}''" for y by (simp add: json_str_def)
  from w "6.prems"(1) have "join_with '','' (map ?f d) @ CHR ''}'' # s
      = join_with '','' (map ?f e) @ CHR ''}'' # t" by simp
  from join_cancel [OF step head _ _ this] w show ?case by simp
qed

lemma canonical_json_iff: "canonical_json v = canonical_json w \<longleftrightarrow> json_norm v = json_norm w"
  using dumps_cancel [of "json_norm v" "[]" "json_norm w" "[]"]
  by (auto simp: canonical_json_norm delim_def)

section \<open>Objects by key\<close>

lemma dget_map_snd: "dget (map (\<lambda>p. (fst p, f (snd p))) d) k = map_option f (dget d k)"
  by (induction d) auto

lemma sort_key_fst_eq_iff:
  assumes "dict_ok a" and "dict_ok b"
  shows "sort_key fst a = sort_key fst b \<longleftrightarrow> (\<forall>k. dget a k = dget b k)"
proof
  assume "sort_key fst a = sort_key fst b"
  then have "set a = set b" by (metis set_sort)
  then show "\<forall>k. dget a k = dget b k"
    using assms by (metis dict_ok_dget not_None_eq)
next
  assume same: "\<forall>k. dget a k = dget b k"
  then have set: "set a = set b" using assms by (metis dict_ok_dget surj_pair subset_antisym subsetI)
  have "inj_on fst (set a)" using assms(1) by (simp add: dict_ok_def distinct_map)
  moreover have "distinct (map fst (sort_key fst d))" if "dict_ok d" for d :: "('a::linorder \<times> 'b) list"
    using that by (simp add: dict_ok_def distinct_map)
  ultimately show "sort_key fst a = sort_key fst b"
    using assms set by (intro map_sorted_distinct_set_unique [of fst]) simp_all
qed

lemma json_norm_dict_iff:
  assumes "dict_ok d" and "dict_ok e"
  shows "json_norm (VDict d) = json_norm (VDict e)
    \<longleftrightarrow> (\<forall>k. map_option json_norm (dget d k) = map_option json_norm (dget e k))"
proof -
  have ok: "dict_ok (map (\<lambda>p. (fst p, json_norm (snd p))) a)" if "dict_ok a" for a
    using that by (simp add: dict_ok_def comp_def)
  show ?thesis
    using sort_key_fst_eq_iff [OF ok [OF assms(1)] ok [OF assms(2)]]
    by (simp add: dget_map_snd [of json_norm])
qed

text \<open>
  C7. The canonical text is an exact code for JSON documents: two documents have the same text
  exactly when they are equal after sorting the keys of their objects, and two objects have
  the same text exactly when they have the same keys with values of the same text. So a digest
  or signature never depends on key order and never confuses two different documents.
\<close>

theorem canonical_json_exact:
  "(canonical_json v = canonical_json w \<longleftrightarrow> json_norm v = json_norm w)
   \<and> (dict_ok d \<and> dict_ok e \<longrightarrow>
        (canonical_json (VDict d) = canonical_json (VDict e) \<longleftrightarrow>
           (\<forall>k. map_option canonical_json (dget d k) = map_option canonical_json (dget e k))))"
proof -
  have "map_option canonical_json x = map_option canonical_json y
      \<longleftrightarrow> map_option json_norm x = map_option json_norm y" for x y
    by (cases x; cases y) (simp_all add: canonical_json_iff)
  then show ?thesis by (auto simp: canonical_json_iff json_norm_dict_iff simp del: json_norm.simps canonical_json.simps)
qed

theorem canonical_json_exact_witness:
  "canonical_json (VDict [(''b'', VInt 2), (''a'', VStr ''x'')])
     = canonical_json (VDict [(''a'', VStr ''x''), (''b'', VInt 2)])
   \<and> canonical_json (VStr ''1'') \<noteq> canonical_json (VInt 1)"
proof -
  have "canonical_json (VStr ''1'') = canonical_json (VInt 1) \<longleftrightarrow> json_norm (VStr ''1'') = json_norm (VInt 1)"
    using canonical_json_exact by blast
  moreover have "canonical_json (VDict [(''b'', VInt 2), (''a'', VStr ''x'')])
     = canonical_json (VDict [(''a'', VStr ''x''), (''b'', VInt 2)])"
    using canonical_json_exact [of VNone VNone "[(''b'', VInt 2), (''a'', VStr ''x'')]"
        "[(''a'', VStr ''x''), (''b'', VInt 2)]"] by (simp add: dict_ok_def)
  ultimately show ?thesis by simp
qed

section \<open>Signatures\<close>

lemma dict_ok_payload: "dict_ok e \<Longrightarrow> dict_ok (filter (\<lambda>p. fst p \<noteq> ''signature'') e)"
  by simp

lemma dget_payload: "dget (filter (\<lambda>p. fst p \<noteq> ''signature'') e) k = (if k = ''signature'' then None else dget e k)"
  using dget_dpop [of "''signature''" e k] by (simp add: dpop_def)

lemma filter_dset: "filter (\<lambda>p. fst p \<noteq> k) (dset k v d) = filter (\<lambda>p. fst p \<noteq> k) d"
  by (induction d) auto

lemma sign_ignores_signature [simp]: "sign_envelope cr (dset ''signature'' v e) key = sign_envelope cr e key"
  by (simp add: sign_envelope_def filter_dset)

lemma verify_signed: "verify_envelope cr (dset ''signature'' v e) (sign_envelope cr e key) key"
  by (simp add: verify_envelope_def)

definition signed_text :: "json_obj \<Rightarrow> string" where
  "signed_text e = canonical_json (VDict (filter (\<lambda>p. fst p \<noteq> ''signature'') e))"

definition same_fields :: "json_obj \<Rightarrow> json_obj \<Rightarrow> bool" where
  "same_fields e f \<longleftrightarrow> (\<forall>k. k \<noteq> ''signature'' \<longrightarrow> map_option json_norm (dget e k) = map_option json_norm (dget f k))"

lemma signed_text_same:
  assumes "dict_ok e" and "dict_ok f"
  shows "signed_text e = signed_text f \<longleftrightarrow> same_fields e f"
proof -
  let ?p = "filter (\<lambda>p. fst p \<noteq> ''signature'') :: json_obj \<Rightarrow> json_obj"
  have "signed_text e = signed_text f \<longleftrightarrow> (\<forall>k. map_option json_norm (dget (?p e) k) = map_option json_norm (dget (?p f) k))"
    using assms unfolding signed_text_def
    by (simp add: canonical_json_iff json_norm_dict_iff dict_ok_payload del: json_norm.simps canonical_json.simps)
  then show ?thesis by (auto simp: same_fields_def dget_payload split: if_splits)
qed

text \<open>
  C8. A signature covers every field but itself, whatever the MAC is: the text that is signed is the same
  for two envelopes exactly when they agree, as JSON values, on every key except \<open>signature\<close>; on
  such an envelope a signature always verifies, and when it verifies on any other one, the two texts,
  which differ, are a collision of the MAC under the key.
\<close>

theorem verify_envelope_covers_fields:
  assumes "dict_ok e" and "dict_ok f"
  shows "(signed_text e = signed_text f \<longleftrightarrow> same_fields e f)
    \<and> (same_fields e f \<longrightarrow> verify_envelope cr f (sign_envelope cr e key) key)
    \<and> (verify_envelope cr f (sign_envelope cr e key) key \<and> \<not> same_fields e f \<longrightarrow>
         signed_text e \<noteq> signed_text f \<and> hmac256 cr key (signed_text e) = hmac256 cr key (signed_text f))"
  using signed_text_same [OF assms]
  by (auto simp: verify_envelope_def sign_envelope_def signed_text_def Let_def simp del: canonical_json.simps)

definition demo_crypto :: crypto where
  "demo_crypto = \<lparr>sha256 = (\<lambda>m. m), hmac256 = (\<lambda>k m. k @ m)\<rparr>"

theorem verify_envelope_covers_fields_witness:
  "\<not> verify_envelope demo_crypto [(''a'', VInt 2)] (sign_envelope demo_crypto [(''a'', VInt 1)] ''k'') ''k''
   \<and> verify_envelope demo_crypto [(''signature'', VNone), (''a'', VInt 1)]
        (sign_envelope demo_crypto [(''a'', VInt 1)] ''k'') ''k''"
proof -
  have other: "\<not> same_fields [(''a'', VInt 1)] [(''a'', VInt 2)]" by (auto simp: same_fields_def)
  have same: "same_fields [(''a'', VInt 1)] [(''signature'', VNone), (''a'', VInt 1)]" by (simp add: same_fields_def)
  show ?thesis
    using other same verify_envelope_covers_fields [of "[(''a'', VInt 1)]" "[(''a'', VInt 2)]" demo_crypto "''k''"]
      verify_envelope_covers_fields [of "[(''a'', VInt 1)]" "[(''signature'', VNone), (''a'', VInt 1)]" demo_crypto "''k''"]
    by (auto simp: dict_ok_def demo_crypto_def)
qed

text \<open>
  A receipt always verifies: whatever the tool result, the receipt built for a request
  names that request's execution, digests the given outcome, carries the mapped status and
  request id, and its own signature verifies under the key it was built with.
\<close>

theorem build_receipt_verifies:
  assumes "build_receipt cr request status outcome request_id key completed_at = Some r"
  shows "dget r ''execution_id'' = dget request ''execution_id''
    \<and> dget r ''status'' = Some (VStr status)
    \<and> dget r ''outcome_digest'' = Some (VStr (canonical_digest cr outcome))
    \<and> dget r ''request_id'' = Some request_id
    \<and> (\<exists>sig. dget r ''signature'' = Some (VStr sig) \<and> verify_envelope cr r sig key)"
proof -
  from assms obtain eid e where req: "dget request ''execution_id'' = Some eid"
    and e: "e = [(''execution_id'', eid), (''status'', VStr status),
        (''outcome_digest'', VStr (canonical_digest cr outcome)),
        (''request_id'', request_id), (''completed_at'', VStr completed_at)]"
    and r: "r = dset ''signature'' (VStr (sign_envelope cr e key)) e"
    by (auto simp: build_receipt_def Let_def split: option.splits)
  have "dget r ''signature'' = Some (VStr (sign_envelope cr e key))" unfolding r dget_dset by simp
  moreover have "verify_envelope cr r (sign_envelope cr e key) key" unfolding r by (rule verify_signed)
  moreover have "dget r k = dget e k" if "k \<noteq> ''signature''" for k using that unfolding r dget_dset by simp
  ultimately show ?thesis using req by (simp add: e)
qed

theorem build_receipt_verifies_witness:
  "\<exists>r sig. build_receipt demo_crypto [(''execution_id'', VStr ''e1'')] ''succeeded'' (VInt 1) (VStr ''r'') ''k'' ''now'' = Some r
     \<and> dget r ''signature'' = Some (VStr sig) \<and> verify_envelope demo_crypto r sig ''k''"
proof -
  obtain r where r: "build_receipt demo_crypto [(''execution_id'', VStr ''e1'')] ''succeeded'' (VInt 1)
      (VStr ''r'') ''k'' ''now'' = Some r"
    by (simp add: build_receipt_def Let_def)
  from build_receipt_verifies [OF r] r show ?thesis by blast
qed

end
