(* ===== verification/Execution_Protocol.thy ===== *)
theory Execution_Protocol
  imports Execution_Signing
begin

text \<open>
  Validation of signed execution requests and observations
  (\<open>execution_runtime/services/execution_protocol.py\<close>). Parameters (record \<open>proto_env\<close>): the
  hash functions, the JSON-Schema validator of the six packaged schemas, and the conversion
  between ISO timestamps and microseconds since the epoch. Errors are values: a
  \<open>ProtocolError\<close> with its reason code, a database error, or another Python exception (a
  missing key or a value of the wrong type), which the callers do not catch.
\<close>

datatype exc = ProtocolError string | DbError | PyError

record proto_env =
  cr :: crypto
  schema_ok :: "string \<Rightarrow> val \<Rightarrow> bool"
  fromisoformat :: "string \<Rightarrow> int option"
  isoformat :: "int \<Rightarrow> string"

definition METADATA_LIMIT :: nat where
  "METADATA_LIMIT = 8192"

definition MAX_LIFETIME_SECONDS :: int where
  "MAX_LIFETIME_SECONDS = 900"

definition OBSERVE_SECONDS :: int where
  "OBSERVE_SECONDS = 120"

definition seconds :: "int \<Rightarrow> int" where
  "seconds n = 1000000 * n"

text \<open>Sequencing of fallible steps, and \<open>d[key]\<close>.\<close>

definition rbind :: "'e + 'a \<Rightarrow> ('a \<Rightarrow> 'e + 'b) \<Rightarrow> 'e + 'b" where
  "rbind m f = (case m of Inl e \<Rightarrow> Inl e | Inr a \<Rightarrow> f a)"

definition require :: "bool \<Rightarrow> 'e \<Rightarrow> 'e + unit" where
  "require b e = (if b then Inr () else Inl e)"

definition fld :: "json_obj \<Rightarrow> string \<Rightarrow> exc + val" where
  "fld d k = (case dget d k of None \<Rightarrow> Inl PyError | Some v \<Rightarrow> Inr v)"

definition str_fld :: "json_obj \<Rightarrow> string \<Rightarrow> exc + string" where
  "str_fld d k = (case dget d k of Some (VStr s) \<Rightarrow> Inr s | _ \<Rightarrow> Inl PyError)"

lemma rbind_Inr_iff [simp]: "rbind m f = Inr b \<longleftrightarrow> (\<exists>a. m = Inr a \<and> f a = Inr b)"
  by (cases m) (auto simp: rbind_def)

lemma rbindE:
  assumes "rbind m f = Inr b"
  obtains a where "m = Inr a" and "f a = Inr b"
  using assms by auto

lemma rbind_simps [simp]: "rbind (Inl e) f = Inl e" "rbind (Inr a) f = f a"
  by (simp_all add: rbind_def)

lemma require_Inr_iff [simp]: "require b e = Inr u \<longleftrightarrow> b"
  by (simp add: require_def)

lemma fld_Inr_iff [simp]: "fld d k = Inr v \<longleftrightarrow> dget d k = Some v"
  by (simp add: fld_def split: option.splits)

lemma str_fld_Inr_iff [simp]: "str_fld d k = Inr s \<longleftrightarrow> dget d k = Some (VStr s)"
  by (auto simp: str_fld_def split: option.splits val.splits)

section \<open>The operations\<close>

definition validate :: "proto_env \<Rightarrow> string \<Rightarrow> val \<Rightarrow> exc + unit" where
  "validate env name value = require (schema_ok env name value) (ProtocolError ''bad_request'')"

definition validate_metadata :: "proto_env \<Rightarrow> string \<Rightarrow> val \<Rightarrow> exc + unit" where
  "validate_metadata env name value =
     rbind (validate env name value) (\<lambda>_.
     require (length (canonical_json value) \<le> METADATA_LIMIT) (ProtocolError ''bad_request''))"

text \<open>\<open>SAFE_REQUEST_ID.fullmatch\<close>; the fresh identifier \<open>req-\<dots>\<close> is an argument.\<close>

definition safe_id_char :: "char \<Rightarrow> bool" where
  "safe_id_char c \<longleftrightarrow> is_digit c \<or> (CHR ''A'' \<le> c \<and> c \<le> CHR ''Z'') \<or> (CHR ''a'' \<le> c \<and> c \<le> CHR ''z'')
     \<or> c \<in> set ''_.:-''"

definition safe_request_id :: "string \<Rightarrow> bool" where
  "safe_request_id s \<longleftrightarrow> list_all safe_id_char s \<and> 1 \<le> length s \<and> length s \<le> 256"

definition request_id :: "val \<Rightarrow> string \<Rightarrow> string" where
  "request_id value fresh =
     (case value of VStr s \<Rightarrow> if safe_request_id s then s else fresh | _ \<Rightarrow> fresh)"

text \<open>\<open>value.replace("Z", "+00:00")\<close> and the aware timestamp in UTC.\<close>

definition replace_Z :: "string \<Rightarrow> string" where
  "replace_Z s = concat (map (\<lambda>c. if c = CHR ''Z'' then ''+00:00'' else [c]) s)"

definition timestamp :: "proto_env \<Rightarrow> val \<Rightarrow> exc + int" where
  "timestamp env value =
     (case as_str value of
        None \<Rightarrow> Inl (ProtocolError ''bad_request'')
      | Some s \<Rightarrow>
          (case fromisoformat env (replace_Z s) of
             None \<Rightarrow> Inl (ProtocolError ''bad_request'')
           | Some t \<Rightarrow> Inr t))"

definition validate_request :: "proto_env \<Rightarrow> val \<Rightarrow> string \<Rightarrow> exc + json_obj" where
  "validate_request env envelope_v key =
     (case as_dict envelope_v of
        None \<Rightarrow> Inl (ProtocolError ''protocol_unsupported'')
      | Some envelope \<Rightarrow>
          rbind (require (get_none envelope ''protocol_version'' = VInt 3) (ProtocolError ''protocol_unsupported'')) (\<lambda>_.
          rbind (validate_metadata env ''execution-request'' envelope_v) (\<lambda>_.
          rbind (require (key \<noteq> []) (ProtocolError ''signing_unavailable'')) (\<lambda>_.
          rbind (str_fld envelope ''signature'') (\<lambda>sig.
          rbind (require (verify_envelope (cr env) envelope sig key) (ProtocolError ''signature_invalid'')) (\<lambda>_.
          rbind (fld envelope ''expires_at'') (\<lambda>exp_v.
          rbind (timestamp env exp_v) (\<lambda>expires.
          rbind (fld envelope ''requested_at'') (\<lambda>req_v.
          rbind (timestamp env req_v) (\<lambda>requested.
          rbind (require (0 < expires - requested \<and> expires - requested \<le> seconds MAX_LIFETIME_SECONDS)
                  (ProtocolError ''lifetime_invalid'')) (\<lambda>_.
          Inr envelope)))))))))))"

text \<open>The worker result's receipt must belong to this request and this attempt.\<close>

definition receipt_matches :: "proto_env \<Rightarrow> json_obj \<Rightarrow> json_obj \<Rightarrow> string \<Rightarrow> exc + unit" where
  "receipt_matches env value envelope key =
     rbind (fld value ''receipt'') (\<lambda>receipt_v.
     (case as_dict receipt_v of
        None \<Rightarrow> Inl PyError
      | Some receipt \<Rightarrow>
          rbind (str_fld receipt ''signature'') (\<lambda>sig.
          rbind (require (verify_envelope (cr env) receipt sig key) (ProtocolError ''signature_invalid'')) (\<lambda>_.
          rbind (fld receipt ''execution_id'') (\<lambda>r_eid.
          rbind (fld envelope ''execution_id'') (\<lambda>e_eid.
          rbind (fld receipt ''request_id'') (\<lambda>r_rid.
          rbind (fld value ''attempt_request_id'') (\<lambda>attempt.
          rbind (fld value ''receipt_digest'') (\<lambda>dig.
          rbind (fld value ''tool_status'') (\<lambda>ts.
          rbind (fld receipt ''status'') (\<lambda>st.
          require (r_eid = e_eid \<and> r_rid = attempt
                   \<and> dig = VStr (canonical_digest (cr env) (VDict receipt))
                   \<and> (ts = VStr ''success'' \<longleftrightarrow> st = VStr ''succeeded''))
            (ProtocolError ''identity_conflict''))))))))))))"

definition validate_observation :: "proto_env \<Rightarrow> json_obj \<Rightarrow> json_obj \<Rightarrow> string \<Rightarrow> exc + unit" where
  "validate_observation env value envelope key =
     rbind (validate_metadata env ''execution-observation'' (VDict value)) (\<lambda>_.
     rbind (require (key \<noteq> []) (ProtocolError ''signature_invalid'')) (\<lambda>_.
     rbind (str_fld value ''signature'') (\<lambda>sig.
     rbind (require (verify_envelope (cr env) value sig key) (ProtocolError ''signature_invalid'')) (\<lambda>_.
     rbind (fld value ''execution_id'') (\<lambda>v_eid.
     rbind (fld envelope ''execution_id'') (\<lambda>e_eid.
     rbind (fld value ''run_id'') (\<lambda>v_run.
     rbind (fld envelope ''run_id'') (\<lambda>e_run.
     rbind (fld value ''request_digest'') (\<lambda>v_dig.
     rbind (require (v_eid = e_eid \<and> v_run = e_run
                     \<and> v_dig = VStr (canonical_digest (cr env) (VDict envelope)))
             (ProtocolError ''identity_conflict'')) (\<lambda>_.
     rbind (fld value ''kind'') (\<lambda>kind_v.
     if kind_v = VStr ''worker_result'' then receipt_matches env value envelope key
     else Inr ())))))))))))"

text \<open>
  \<open>observation(...)\<close>: build, sign and validate one fact. The fresh \<open>observation_id\<close> and the
  observation time are arguments; \<open>facts\<close> are the extra keyword arguments.
\<close>

definition observation ::
  "proto_env \<Rightarrow> json_obj \<Rightarrow> string \<Rightarrow> string \<Rightarrow> string \<Rightarrow> string \<Rightarrow> string \<Rightarrow> string \<Rightarrow> int \<Rightarrow> string \<Rightarrow>
   json_obj \<Rightarrow> exc + json_obj" where
  "observation env envelope source kind attempt current_request_id key reason observed_at obs_id facts =
     rbind (fld envelope ''execution_id'') (\<lambda>eid.
     rbind (fld envelope ''run_id'') (\<lambda>run.
     (let base =
            [(''observation_version'', VInt 1), (''observation_id'', VStr obs_id),
             (''execution_id'', eid), (''run_id'', run),
             (''request_digest'', VStr (canonical_digest (cr env) (VDict envelope))),
             (''source'', VStr source), (''kind'', VStr kind),
             (''observed_at'', VStr (isoformat env observed_at)),
             (''attempt_request_id'', VStr attempt), (''request_id'', VStr current_request_id),
             (''reason_code'', VStr reason)];
          value = fold (\<lambda>(k, v). dset k v) facts base;
          signed = dset ''signature'' (VStr (sign_envelope (cr env) value key)) value
      in rbind (validate_observation env signed envelope key) (\<lambda>_. Inr signed))))"

section \<open>What validation establishes\<close>

lemma require_simps [simp]: "require True e = Inr ()" "require False e = Inl e"
  by (simp_all add: require_def)

lemma validate_request_cases:
  assumes "validate_request env v key = Inr envelope"
  obtains sig requested expires where "v = VDict envelope" and "schema_ok env ''execution-request'' v"
    and "length (canonical_json v) \<le> METADATA_LIMIT" and "key \<noteq> []"
    and "dget envelope ''protocol_version'' = Some (VInt 3)"
    and "dget envelope ''signature'' = Some (VStr sig)" and "verify_envelope (cr env) envelope sig key"
    and "Option.bind (dget envelope ''requested_at'') (\<lambda>x. case timestamp env x of Inl _ \<Rightarrow> None | Inr t \<Rightarrow> Some t)
           = Some requested"
    and "Option.bind (dget envelope ''expires_at'') (\<lambda>x. case timestamp env x of Inl _ \<Rightarrow> None | Inr t \<Rightarrow> Some t)
           = Some expires"
    and "requested < expires" and "expires \<le> requested + seconds MAX_LIFETIME_SECONDS"
proof -
  from assms obtain d where v: "v = VDict d"
    by (cases v) (simp_all add: validate_request_def)
  have pv: "get_none d ''protocol_version'' = VInt 3 \<Longrightarrow> dget d ''protocol_version'' = Some (VInt 3)"
    by (auto simp: get_none_def split: option.splits)
  from assms v that pv show ?thesis
    by (auto simp: validate_request_def validate_metadata_def validate_def)
qed

definition time_of :: "proto_env \<Rightarrow> json_obj \<Rightarrow> string \<Rightarrow> int option" where
  "time_of env d k =
     Option.bind (dget d k) (\<lambda>x. case timestamp env x of Inl _ \<Rightarrow> None | Inr t \<Rightarrow> Some t)"

lemma time_of_timestamp: "dget d k = Some x \<Longrightarrow> timestamp env x = Inr t \<Longrightarrow> time_of env d k = Some t"
  by (simp add: time_of_def)

lemma time_of_Some: "time_of env d k = Some t \<longleftrightarrow> (\<exists>x. dget d k = Some x \<and> timestamp env x = Inr t)"
  by (auto simp: time_of_def split: Option.bind_splits sum.splits)

text \<open>
  Exactly the genuine, current-version, bounded requests pass: \<open>validate_request\<close> returns
  an envelope precisely when the document is an object of protocol version 3 that satisfies the
  request schema within the 8192-character limit, the key is set, the envelope's signature
  verifies under it, and the signed lifetime is positive and at most 900 seconds.
\<close>

theorem validate_request_accepts_iff:
  "validate_request env v key = Inr envelope \<longleftrightarrow>
     v = VDict envelope \<and> dget envelope ''protocol_version'' = Some (VInt 3)
     \<and> schema_ok env ''execution-request'' v \<and> length (canonical_json v) \<le> 8192 \<and> key \<noteq> []
     \<and> (\<exists>sig. dget envelope ''signature'' = Some (VStr sig) \<and> sign_envelope (cr env) envelope key = sig)
     \<and> (\<exists>requested expires. time_of env envelope ''requested_at'' = Some requested
          \<and> time_of env envelope ''expires_at'' = Some expires
          \<and> requested < expires \<and> expires - requested \<le> 900000000)"
    (is "?L \<longleftrightarrow> ?R")
proof -
  have pv: "get_none envelope ''protocol_version'' = VInt 3 \<longleftrightarrow>
      dget envelope ''protocol_version'' = Some (VInt 3)"
    by (auto simp: get_none_def split: option.splits)
  show ?thesis
  proof (cases v)
    case (VDict d)
    show ?thesis
    proof (cases "d = envelope")
      case True
      with VDict pv show ?thesis
        by (auto simp: validate_request_def validate_metadata_def validate_def METADATA_LIMIT_def
            MAX_LIFETIME_SECONDS_def seconds_def verify_envelope_def time_of_Some
            simp del: canonical_json.simps)
    next
      case False
      with VDict show ?thesis by (auto simp: validate_request_def)
    qed
  qed (simp_all add: validate_request_def)
qed

text \<open>The keys \<open>observation\<close> always writes; the extra facts of its callers never touch them.\<close>

definition base_keys :: "string list" where
  "base_keys = [''observation_version'', ''observation_id'', ''execution_id'', ''run_id'', ''request_digest'',
     ''source'', ''kind'', ''observed_at'', ''attempt_request_id'', ''request_id'', ''reason_code'', ''signature'']"

lemma dget_fold_dset:
  "k \<notin> fst ` set facts \<Longrightarrow> dget (fold (\<lambda>(k, v). dset k v) facts base) k = dget base k"
  by (induction facts arbitrary: base) (auto simp: split_beta)

lemma observation_fields:
  assumes "observation env envelope source kind attempt cur key reason at obs_id facts = Inr ob"
    and "fst ` set facts \<inter> set base_keys = {}"
  shows "dget ob ''source'' = Some (VStr source)" "dget ob ''kind'' = Some (VStr kind)"
    "dget ob ''attempt_request_id'' = Some (VStr attempt)" "dget ob ''observation_id'' = Some (VStr obs_id)"
    "dget ob ''execution_id'' = dget envelope ''execution_id''"
    "dget ob ''reason_code'' = Some (VStr reason)"
    "validate_observation env ob envelope key = Inr ()"
proof -
  from assms(1) obtain eid run body where eid: "dget envelope ''execution_id'' = Some eid"
    and run: "dget envelope ''run_id'' = Some run"
    and ob: "ob = dset ''signature'' (VStr (sign_envelope (cr env) body key)) body"
    and body: "body = fold (\<lambda>(k, v). dset k v) facts
       [(''observation_version'', VInt 1), (''observation_id'', VStr obs_id),
        (''execution_id'', eid), (''run_id'', run),
        (''request_digest'', VStr (canonical_digest (cr env) (VDict envelope))),
        (''source'', VStr source), (''kind'', VStr kind),
        (''observed_at'', VStr (isoformat env at)),
        (''attempt_request_id'', VStr attempt), (''request_id'', VStr cur), (''reason_code'', VStr reason)]"
    and ok: "validate_observation env ob envelope key = Inr ()"
    by (auto simp: observation_def Let_def)
  have other: "dget ob k = dget [(''observation_version'', VInt 1), (''observation_id'', VStr obs_id),
        (''execution_id'', eid), (''run_id'', run),
        (''request_digest'', VStr (canonical_digest (cr env) (VDict envelope))),
        (''source'', VStr source), (''kind'', VStr kind),
        (''observed_at'', VStr (isoformat env at)),
        (''attempt_request_id'', VStr attempt), (''request_id'', VStr cur), (''reason_code'', VStr reason)] k"
    if "k \<in> set base_keys" "k \<noteq> ''signature''" for k
  proof -
    have "k \<notin> fst ` set facts" using assms(2) that(1) by blast
    from dget_fold_dset [OF this] that(2) show ?thesis unfolding ob body dget_dset by simp
  qed
  show "dget ob ''source'' = Some (VStr source)" "dget ob ''kind'' = Some (VStr kind)"
    "dget ob ''attempt_request_id'' = Some (VStr attempt)" "dget ob ''observation_id'' = Some (VStr obs_id)"
    "dget ob ''execution_id'' = dget envelope ''execution_id''"
    "dget ob ''reason_code'' = Some (VStr reason)"
    using eid by (simp_all add: other base_keys_def)
  show "validate_observation env ob envelope key = Inr ()" by (rule ok)
qed

end
