(* ===== verification/Ledger_Tables.thy ===== *)
theory Ledger_Tables
  imports Execution_Protocol
begin

text \<open>
  The durable execution ledger that the worker (\<open>execution_runtime\<close>) and the agent platform
  share: its five tables and protocol-state row as one record, and the queries and row updates
  both sides issue. A transaction is one atomic step on this record, because every writer
  locks the run's row (\<open>SELECT ... FOR UPDATE\<close>) or the run's advisory lock first and a raised
  error rolls the transaction back. Identifiers are strings in canonical form, times are
  microseconds, and the insertion sequence of observations is their list position. The JSON
  checks the tables repeat are those of the schema validator and are not stated again.
\<close>

section \<open>Tables\<close>

record run_row =
  run_session :: string
  run_owner :: string
  run_stopped_at :: "int option"
  run_stop_reason :: "string option"

record intent_row =
  in_confirm :: string
  in_call :: string
  in_run :: string
  in_digest :: string
  in_envelope :: json_obj
  in_attempt :: string
  in_expires :: int
  in_registered :: int
  in_seq :: nat

record claim_row =
  cl_confirm :: string
  cl_call :: string
  cl_digest :: string
  cl_owner :: string
  cl_claimed_at :: int
  cl_observe_by :: int
  cl_retain_until :: int

record obs_state =
  ordinary_count :: nat
  duplicate_count :: nat
  overflow_count :: nat
  integrity_conflict :: bool
  overflow_flag :: bool
  first_conflict :: "string option"

record obs_row =
  ob_id :: string
  ob_exec :: string
  ob_source :: string
  ob_kind :: string
  ob_slot :: "string option"
  ob_payload :: json_obj
  ob_digest :: string

text \<open>
  \<open>schema_intact\<close>: the catalog fingerprint equals the stored one; \<open>settings_durable\<close>: fsync,
  full_page_writes and synchronous_commit are on.
\<close>

record ledger =
  schema_version :: int
  admission_epoch :: string
  admission_enabled :: bool
  schema_intact :: bool
  settings_durable :: bool
  runs :: "(string, run_row) dict"
  intents :: "(string, intent_row) dict"
  claims :: "(string, claim_row) dict"
  obs_states :: "(string, obs_state) dict"
  observations :: "obs_row list"
  next_seq :: nat

definition initial_obs_state :: obs_state where
  "initial_obs_state = \<lparr>ordinary_count = 0, duplicate_count = 0, overflow_count = 0,
     integrity_conflict = False, overflow_flag = False, first_conflict = None\<rparr>"

definition COUNTER_MAX :: nat where
  "COUNTER_MAX = 2147483647"

text \<open>The stop reasons the run table accepts.\<close>

definition STOP_REASONS :: "string list" where
  "STOP_REASONS =
     [''wait_expired'', ''transport_error'', ''response_invalid'', ''receipt_unconfirmed'', ''run_stopped'',
      ''predecessor_unresolved'', ''send_lock_unavailable'', ''shutdown'', ''integrity_conflict'',
      ''metadata_replay'', ''store_unavailable'', ''claim_commit_unconfirmed'', ''request_expired'',
      ''request_not_yet_valid'', ''admission_disabled'', ''epoch_mismatch'', ''gateway_not_configured'',
      ''credential_missing'', ''request_missing'', ''schema_invalid'']"

section \<open>Queries\<close>

definition verify_schema :: "ledger \<Rightarrow> exc + unit" where
  "verify_schema l =
     rbind (require (schema_version l = 2 \<and> schema_intact l) (ProtocolError ''schema_invalid'')) (\<lambda>_.
     require (settings_durable l) (ProtocolError ''store_unavailable''))"

definition obs_of :: "ledger \<Rightarrow> string \<Rightarrow> obs_row list" where
  "obs_of l eid = filter (\<lambda>r. ob_exec r = eid) (observations l)"

definition find_obs :: "ledger \<Rightarrow> string \<Rightarrow> obs_row option" where
  "find_obs l oid = find (\<lambda>r. ob_id r = oid) (observations l)"

definition slot_taken :: "ledger \<Rightarrow> string \<Rightarrow> string \<Rightarrow> bool" where
  "slot_taken l eid slot \<longleftrightarrow> list_ex (\<lambda>r. ob_exec r = eid \<and> ob_slot r = Some slot) (observations l)"

text \<open>\<open>payload->>'receipt_digest'\<close>\<close>

definition payload_digest :: "obs_row \<Rightarrow> string option" where
  "payload_digest r = Option.bind (dget (ob_payload r) ''receipt_digest'') as_str"

text \<open>An accepted response whose receipt is a recorded worker result of the same execution.\<close>

definition accepted :: "ledger \<Rightarrow> string \<Rightarrow> bool" where
  "accepted l eid \<longleftrightarrow>
     list_ex (\<lambda>a. ob_exec a = eid \<and> ob_kind a = ''response_accepted'' \<and> payload_digest a \<noteq> None
       \<and> list_ex (\<lambda>r. ob_exec r = eid \<and> ob_kind r = ''worker_result'' \<and> payload_digest r = payload_digest a)
           (observations l)) (observations l)"

definition has_conflict :: "ledger \<Rightarrow> string \<Rightarrow> bool" where
  "has_conflict l eid = (case dget (obs_states l) eid of None \<Rightarrow> False | Some s \<Rightarrow> integrity_conflict s)"

definition unresolved :: "ledger \<Rightarrow> string \<Rightarrow> bool" where
  "unresolved l eid \<longleftrightarrow> has_conflict l eid \<or> \<not> accepted l eid"

text \<open>\<open>_predecessor\<close>: an earlier registration of the run is unresolved.\<close>

definition predecessor :: "ledger \<Rightarrow> intent_row \<Rightarrow> bool" where
  "predecessor l row \<longleftrightarrow>
     list_ex (\<lambda>(eid, i). in_run i = in_run row \<and> in_seq i < in_seq row \<and> unresolved l eid) (intents l)"

section \<open>Row updates\<close>

definition upd_obs_state :: "string \<Rightarrow> (obs_state \<Rightarrow> obs_state) \<Rightarrow> ledger \<Rightarrow> ledger" where
  "upd_obs_state eid f l =
     (case dget (obs_states l) eid of
        None \<Rightarrow> l
      | Some s \<Rightarrow> l\<lparr>obs_states := dset eid (f s) (obs_states l)\<rparr>)"

definition mark_conflict :: "string \<Rightarrow> string \<Rightarrow> ledger \<Rightarrow> ledger" where
  "mark_conflict eid digest =
     upd_obs_state eid (\<lambda>s. s\<lparr>integrity_conflict := True,
       first_conflict := (case first_conflict s of None \<Rightarrow> Some digest | Some d \<Rightarrow> Some d)\<rparr>)"

definition count_duplicate :: "string \<Rightarrow> ledger \<Rightarrow> ledger" where
  "count_duplicate eid = upd_obs_state eid (\<lambda>s. s\<lparr>duplicate_count := min COUNTER_MAX (duplicate_count s + 1)\<rparr>)"

definition count_overflow :: "string \<Rightarrow> ledger \<Rightarrow> ledger" where
  "count_overflow eid =
     upd_obs_state eid (\<lambda>s. s\<lparr>overflow_flag := True, overflow_count := min COUNTER_MAX (overflow_count s + 1)\<rparr>)"

definition count_ordinary :: "string \<Rightarrow> ledger \<Rightarrow> ledger" where
  "count_ordinary eid = upd_obs_state eid (\<lambda>s. s\<lparr>ordinary_count := ordinary_count s + 1\<rparr>)"

definition insert_obs :: "obs_row \<Rightarrow> ledger \<Rightarrow> ledger" where
  "insert_obs r l = l\<lparr>observations := observations l @ [r]\<rparr>"

text \<open>
  \<open>UPDATE execution_runs SET stopped_at=..., stop_reason=... WHERE run_id=... AND stopped_at IS
  NULL\<close>; a reason outside the table's list violates its check.
\<close>

definition stop_row :: "string \<Rightarrow> string \<Rightarrow> int \<Rightarrow> ledger \<Rightarrow> exc + ledger" where
  "stop_row run_id why now l =
     (case dget (runs l) run_id of
        None \<Rightarrow> Inr l
      | Some r \<Rightarrow>
          (case run_stopped_at r of
             Some t \<Rightarrow> Inr l
           | None \<Rightarrow>
               if why \<in> set STOP_REASONS
               then Inr (l\<lparr>runs := dset run_id (r\<lparr>run_stopped_at := Some now, run_stop_reason := Some why\<rparr>) (runs l)\<rparr>)
               else Inl DbError))"

text \<open>The tail both \<open>_append\<close> methods share: free slot, or the bounded ordinary budget.\<close>

datatype append_res = Inserted | Identical | Conflict | Overflow

definition place ::
  "string \<Rightarrow> nat \<Rightarrow> string option \<Rightarrow> string \<Rightarrow> string \<Rightarrow> string \<Rightarrow> json_obj \<Rightarrow> string \<Rightarrow> ledger \<Rightarrow>
   append_res \<times> ledger" where
  "place eid ordinary slot oid source kind ob digest l =
     (let slot' = (case slot of None \<Rightarrow> None | Some s \<Rightarrow> if slot_taken l eid s then None else Some s)
      in if slot' = None \<and> 64 \<le> ordinary then (Overflow, count_overflow eid l)
         else (let l' = insert_obs \<lparr>ob_id = oid, ob_exec = eid, ob_source = source, ob_kind = kind,
                                    ob_slot = slot', ob_payload = ob, ob_digest = digest\<rparr> l
               in (Inserted, if slot' = None then count_ordinary eid l' else l')))"

text \<open>An observation id seen before: identical content counts, different content is a conflict.\<close>

definition replay_obs :: "string \<Rightarrow> string \<Rightarrow> obs_row \<Rightarrow> ledger \<Rightarrow> append_res \<times> ledger" where
  "replay_obs eid digest old l =
     (if ob_digest old = digest then (Identical, count_duplicate eid l)
      else (Conflict, mark_conflict eid digest l))"

end
