(* ===== verification/Execution_Ledger.thy ===== *)
theory Execution_Ledger
  imports Ledger_Tables
begin

text \<open>
  The worker's side of the execution ledger (\<open>execution_runtime/services/execution_ledger.py\<close>):
  claiming the single dispatch right, opening the send gate with the permit, recording facts,
  stopping a run, retention and the recovery lookup. Each operation is a function from the
  ledger to a result and the ledger after its transaction; fresh identifiers, the database
  clock, the host clock and the failure of a statement or a commit are arguments.
\<close>

section \<open>Configuration, permits and decisions\<close>

record ledger_cfg =
  cfg_key :: string
  cfg_epoch :: string
  cfg_enabled :: bool

record dispatch_permit =
  pm_execution :: string
  pm_run :: string
  pm_digest :: string
  pm_owner :: string
  pm_pid :: int
  pm_used :: bool

record claim_decision =
  cd_permit :: "dispatch_permit option"
  cd_reason :: string
  cd_observation :: "json_obj option"

text \<open>
  Where a database failure hits: nowhere, at a statement before the commit (any of them: the
  transaction rolls back), or at the commit itself, which may or may not have become durable.
\<close>

datatype db_fault = NoFault | StatementFault | CommitFault bool

record claim_input =
  ci_now :: int
  ci_wall :: int
  ci_owner :: string
  ci_obs_id :: string
  ci_pid :: int
  ci_fault :: db_fault

definition reserved_slot :: "string \<Rightarrow> string option" where
  "reserved_slot kind =
     map_of [(''claim_committed'', ''claim''), (''worker_result'', ''result''), (''wait_expired'', ''timeout''),
             (''run_stopped'', ''stop''), (''response_accepted'', ''acceptance'')] kind"

definition UNCERTAIN :: "string list" where
  "UNCERTAIN = [''wait_expired'', ''transport_uncertain'', ''result_persistence_unconfirmed'']"

definition refuse :: "string \<Rightarrow> claim_decision" where
  "refuse why = \<lparr>cd_permit = None, cd_reason = why, cd_observation = None\<rparr>"

section \<open>Appending a fact\<close>

text \<open>The claim owner of a worker result or claim fact must be the committed one.\<close>

definition owner_matches :: "ledger \<Rightarrow> string \<Rightarrow> string \<Rightarrow> json_obj \<Rightarrow> exc + unit" where
  "owner_matches l eid kind ob =
     (if kind \<in> {''worker_result'', ''claim_committed''} then
        (case dget (claims l) eid of
           None \<Rightarrow> Inl (ProtocolError ''identity_conflict'')
         | Some c \<Rightarrow> rbind (fld ob ''claim_owner_id'') (\<lambda>own.
             require (VStr (cl_owner c) = own) (ProtocolError ''identity_conflict'')))
      else Inr ())"

text \<open>The slot of a fact; a result that differs from the first recorded one is a conflict.\<close>

definition result_slot ::
  "ledger \<Rightarrow> string \<Rightarrow> string \<Rightarrow> json_obj \<Rightarrow> string \<Rightarrow> exc + ledger \<times> string option" where
  "result_slot l eid kind ob digest =
     (if kind = ''worker_result'' then
        (case filter (\<lambda>r. ob_exec r = eid \<and> ob_kind r = ''worker_result'') (observations l) of
           [] \<Rightarrow> Inr (l, reserved_slot kind)
         | first # _ \<Rightarrow>
             rbind (fld (ob_payload first) ''receipt_digest'') (\<lambda>a.
             rbind (fld ob ''receipt_digest'') (\<lambda>b.
             if a \<noteq> b then Inr (mark_conflict eid digest l, Some ''conflict'')
             else Inr (l, reserved_slot kind))))
      else Inr (l, reserved_slot kind))"

text \<open>Acceptance needs the accepted result, a live run and no integrity conflict.\<close>

definition acceptance_ok :: "ledger \<Rightarrow> string \<Rightarrow> string \<Rightarrow> json_obj \<Rightarrow> json_obj \<Rightarrow> obs_state \<Rightarrow> exc + unit" where
  "acceptance_ok l eid kind ob envelope state =
     (if kind = ''response_accepted'' then
        rbind (str_fld envelope ''run_id'') (\<lambda>run_id.
        rbind (str_fld ob ''receipt_digest'') (\<lambda>dig.
        if \<not> list_ex (\<lambda>r. ob_exec r = eid \<and> ob_kind r = ''worker_result'' \<and> payload_digest r = Some dig)
             (observations l)
        then Inl (ProtocolError ''run_stopped'')
        else (case dget (runs l) run_id of
                None \<Rightarrow> Inl PyError
              | Some run \<Rightarrow>
                  require (run_stopped_at run = None \<and> \<not> integrity_conflict state)
                    (ProtocolError ''run_stopped''))))
      else Inr ())"

definition ledger_append ::
  "proto_env \<Rightarrow> ledger_cfg \<Rightarrow> ledger \<Rightarrow> intent_row \<Rightarrow> json_obj \<Rightarrow> exc + append_res \<times> ledger" where
  "ledger_append env cfg l intent ob =
     (let envelope = in_envelope intent; digest = canonical_digest (cr env) (VDict ob) in
      rbind (validate_observation env ob envelope (cfg_key cfg)) (\<lambda>_.
      rbind (fld ob ''attempt_request_id'') (\<lambda>att.
      rbind (require (att = VStr (in_attempt intent)) (ProtocolError ''identity_conflict'')) (\<lambda>_.
      rbind (str_fld envelope ''execution_id'') (\<lambda>eid.
      case dget (obs_states l) eid of
        None \<Rightarrow> Inl (ProtocolError ''schema_invalid'')
      | Some state \<Rightarrow>
          rbind (str_fld ob ''observation_id'') (\<lambda>oid.
          case find_obs l oid of
            Some old \<Rightarrow> Inr (replay_obs eid digest old l)
          | None \<Rightarrow>
              rbind (str_fld ob ''kind'') (\<lambda>kind.
              rbind (owner_matches l eid kind ob) (\<lambda>_.
              rbind (result_slot l eid kind ob digest) (\<lambda>(l1, slot).
              rbind (acceptance_ok l eid kind ob envelope state) (\<lambda>_.
              rbind (str_fld ob ''source'') (\<lambda>source.
              Inr (place eid (ordinary_count state) slot oid source kind ob digest l1))))))))))))"

section \<open>Claim\<close>

datatype commit_kind = NoCommit | ReplayCommit | ClaimCommit

text \<open>The insert of a claim: unique keys skip it, the foreign key to the intent must hold.\<close>

definition insert_claim :: "string \<Rightarrow> intent_row \<Rightarrow> claim_row \<Rightarrow> ledger \<Rightarrow> exc + ledger option" where
  "insert_claim eid intent c l =
     (if dhas (claims l) eid
         \<or> list_ex (\<lambda>(_, c'). cl_confirm c' = cl_confirm c \<and> cl_call c' = cl_call c) (claims l)
      then Inr None
      else if in_confirm intent = cl_confirm c \<and> in_call intent = cl_call c \<and> in_digest intent = cl_digest c
      then Inr (Some (l\<lparr>claims := dset eid c (claims l)\<rparr>))
      else Inl DbError)"

text \<open>The admission checks after the identity of the request is established.\<close>

definition admit ::
  "proto_env \<Rightarrow> ledger_cfg \<Rightarrow> ledger \<Rightarrow> run_row \<Rightarrow> intent_row \<Rightarrow> json_obj \<Rightarrow> int \<Rightarrow> exc + string option" where
  "admit env cfg l run intent envelope now =
     (if \<not> cfg_enabled cfg \<or> \<not> admission_enabled l then Inr (Some ''admission_disabled'')
      else rbind (str_fld envelope ''admission_epoch'') (\<lambda>epoch.
      if cfg_epoch cfg \<noteq> epoch \<or> admission_epoch l \<noteq> cfg_epoch cfg then Inr (Some ''epoch_mismatch'')
      else if run_stopped_at run \<noteq> None then Inr (Some ''run_stopped'')
      else if predecessor l intent then Inr (Some ''predecessor_unresolved'')
      else rbind (fld envelope ''requested_at'') (\<lambda>rv. rbind (timestamp env rv) (\<lambda>requested.
      if requested > now then Inr (Some ''request_not_yet_valid'')
      else rbind (fld envelope ''expires_at'') (\<lambda>ev. rbind (timestamp env ev) (\<lambda>expires.
      if expires \<le> now then Inr (Some ''request_expired'') else Inr None))))))"

definition mint_claim ::
  "proto_env \<Rightarrow> ledger_cfg \<Rightarrow> ledger \<Rightarrow> claim_input \<Rightarrow> string \<Rightarrow> string \<Rightarrow> intent_row \<Rightarrow> json_obj \<Rightarrow> string \<Rightarrow>
   exc + claim_decision \<times> ledger \<times> commit_kind" where
  "mint_claim env cfg l inp eid run_id intent envelope current_request_id =
     rbind (str_fld envelope ''confirm_id'') (\<lambda>confirm.
     rbind (str_fld envelope ''call_id'') (\<lambda>call.
     rbind (fld envelope ''expires_at'') (\<lambda>ev. rbind (timestamp env ev) (\<lambda>expires.
     (let now = ci_now inp;
          c = \<lparr>cl_confirm = confirm, cl_call = call, cl_digest = in_digest intent, cl_owner = ci_owner inp,
               cl_claimed_at = now, cl_observe_by = now + seconds OBSERVE_SECONDS,
               cl_retain_until = expires + seconds (30 * 86400)\<rparr> in
      rbind (insert_claim eid intent c l) (\<lambda>inserted.
      case inserted of
        None \<Rightarrow> Inr (refuse ''identity_conflict'', l, NoCommit)
      | Some l1 \<Rightarrow>
          rbind (observation env envelope ''worker'' ''claim_committed'' (in_attempt intent) current_request_id
                   (cfg_key cfg) ''none'' now (ci_obs_id inp) [(''claim_owner_id'', VStr (ci_owner inp))]) (\<lambda>ob.
          rbind (ledger_append env cfg l1 intent ob) (\<lambda>(res, l2).
          if res \<noteq> Inserted then Inl (ProtocolError ''integrity_conflict'')
          else Inr (\<lparr>cd_permit = Some \<lparr>pm_execution = eid, pm_run = run_id,
                       pm_digest = canonical_digest (cr env) (VDict envelope), pm_owner = ci_owner inp,
                       pm_pid = ci_pid inp, pm_used = False\<rparr>,
                     cd_reason = ''none'', cd_observation = Some ob\<rparr>, l2, ClaimCommit)))))))))"

definition replay_claim ::
  "proto_env \<Rightarrow> ledger_cfg \<Rightarrow> ledger \<Rightarrow> claim_input \<Rightarrow> intent_row \<Rightarrow> json_obj \<Rightarrow> string \<Rightarrow>
   exc + claim_decision \<times> ledger \<times> commit_kind" where
  "replay_claim env cfg l inp intent envelope current_request_id =
     rbind (observation env envelope ''worker'' ''duplicate_seen'' (in_attempt intent) current_request_id
              (cfg_key cfg) ''metadata_replay'' (ci_wall inp) (ci_obs_id inp) []) (\<lambda>ob.
     rbind (ledger_append env cfg l intent ob) (\<lambda>(res, l1).
     Inr (\<lparr>cd_permit = None, cd_reason = ''metadata_replay'',
           cd_observation = (if res = Inserted then Some ob else None)\<rparr>, l1, ReplayCommit)))"

definition claim_body ::
  "proto_env \<Rightarrow> ledger_cfg \<Rightarrow> ledger \<Rightarrow> claim_input \<Rightarrow> json_obj \<Rightarrow> string \<Rightarrow>
   exc + claim_decision \<times> ledger \<times> commit_kind" where
  "claim_body env cfg l inp envelope current_request_id =
     rbind (verify_schema l) (\<lambda>_.
     rbind (str_fld envelope ''run_id'') (\<lambda>run_id.
     rbind (str_fld envelope ''execution_id'') (\<lambda>eid.
     case dget (intents l) eid of
       None \<Rightarrow>
         rbind (str_fld envelope ''confirm_id'') (\<lambda>confirm.
         rbind (str_fld envelope ''call_id'') (\<lambda>call.
         Inr (refuse (if list_ex (\<lambda>(_, i). in_confirm i = confirm \<and> in_call i = call) (intents l)
                      then ''identity_conflict'' else ''request_missing''), l, NoCommit)))
     | Some intent \<Rightarrow>
         (case dget (runs l) run_id of
            None \<Rightarrow> Inr (refuse ''identity_conflict'', l, NoCommit)
          | Some run \<Rightarrow>
              if in_digest intent \<noteq> canonical_digest (cr env) (VDict envelope)
              then Inr (refuse ''identity_conflict'', l, NoCommit)
              else
                rbind (fld envelope ''owner_user_id'') (\<lambda>owner.
                rbind (fld envelope ''session_id'') (\<lambda>session.
                if VStr (run_owner run) \<noteq> owner \<or> VStr (run_session run) \<noteq> session
                then Inr (refuse ''identity_conflict'', l, NoCommit)
                else if dhas (claims l) eid
                then replay_claim env cfg l inp intent envelope current_request_id
                else rbind (admit env cfg l run intent envelope (ci_now inp)) (\<lambda>refusal.
                case refusal of
                  Some why \<Rightarrow> Inr (refuse why, l, NoCommit)
                | None \<Rightarrow> mint_claim env cfg l inp eid run_id intent envelope current_request_id)))))))"

definition ledger_claim ::
  "proto_env \<Rightarrow> ledger_cfg \<Rightarrow> claim_input \<Rightarrow> val \<Rightarrow> string \<Rightarrow> ledger \<Rightarrow> (exc + claim_decision) \<times> ledger" where
  "ledger_claim env cfg inp envelope_v current_request_id l =
     (case validate_request env envelope_v (cfg_key cfg) of
        Inl e \<Rightarrow> (Inl e, l)
      | Inr envelope \<Rightarrow>
          if ci_fault inp = StatementFault then (Inr (refuse ''store_unavailable''), l)
          else (case claim_body env cfg l inp envelope current_request_id of
                  Inl (ProtocolError why) \<Rightarrow> (Inr (refuse why), l)
                | Inl DbError \<Rightarrow> (Inr (refuse ''store_unavailable''), l)
                | Inl PyError \<Rightarrow> (Inl PyError, l)
                | Inr (d, l', kind) \<Rightarrow>
                    (case (kind, ci_fault inp) of
                       (NoCommit, _) \<Rightarrow> (Inr d, l)
                     | (ReplayCommit, CommitFault applied) \<Rightarrow>
                         (Inr (refuse ''store_unavailable''), if applied then l' else l)
                     | (ClaimCommit, CommitFault applied) \<Rightarrow>
                         (Inr (refuse ''claim_commit_unconfirmed''), if applied then l' else l)
                     | _ \<Rightarrow> (Inr d, l'))))"

section \<open>The send gate, results and stops\<close>

text \<open>\<open>DispatchPermit.consume\<close>; \<open>pid\<close> is the calling process.\<close>

definition consume :: "proto_env \<Rightarrow> int \<Rightarrow> dispatch_permit \<Rightarrow> json_obj \<Rightarrow> (exc + unit) \<times> dispatch_permit" where
  "consume env pid permit envelope =
     (if pm_used permit \<or> pm_pid permit \<noteq> pid
         \<or> pm_digest permit \<noteq> canonical_digest (cr env) (VDict envelope)
      then (Inl (ProtocolError ''identity_conflict''), permit)
      else (Inr (), permit\<lparr>pm_used := True\<rparr>))"

text \<open>The re-check under the run's advisory lock, before anything is sent.\<close>

definition send_checks ::
  "ledger_cfg \<Rightarrow> dispatch_permit \<Rightarrow> json_obj \<Rightarrow> ledger \<Rightarrow> exc + unit" where
  "send_checks cfg permit envelope l =
     rbind (verify_schema l) (\<lambda>_.
     rbind (str_fld envelope ''run_id'') (\<lambda>run_id.
     rbind (str_fld envelope ''execution_id'') (\<lambda>eid.
     case (dget (intents l) eid, dget (claims l) eid) of
       (Some intent, Some c) \<Rightarrow>
         rbind (require (in_digest intent = pm_digest permit \<and> cl_owner c = pm_owner permit)
                 (ProtocolError ''identity_conflict'')) (\<lambda>_.
         rbind (require (cfg_enabled cfg \<and> admission_enabled l) (ProtocolError ''admission_disabled'')) (\<lambda>_.
         rbind (str_fld envelope ''admission_epoch'') (\<lambda>epoch.
         rbind (require (admission_epoch l = cfg_epoch cfg \<and> epoch = cfg_epoch cfg)
                 (ProtocolError ''epoch_mismatch'')) (\<lambda>_.
         rbind (require (case dget (runs l) run_id of None \<Rightarrow> False | Some run \<Rightarrow> run_stopped_at run = None)
                 (ProtocolError ''run_stopped'')) (\<lambda>_.
         rbind (require (case dget (obs_states l) eid of None \<Rightarrow> False | Some s \<Rightarrow> \<not> integrity_conflict s)
                 (ProtocolError ''integrity_conflict'')) (\<lambda>_.
         require (\<not> predecessor l intent) (ProtocolError ''predecessor_unresolved'')))))))
     | _ \<Rightarrow> Inl (ProtocolError ''identity_conflict''))))"

definition open_send ::
  "proto_env \<Rightarrow> ledger_cfg \<Rightarrow> int \<Rightarrow> bool \<Rightarrow> db_fault \<Rightarrow> dispatch_permit \<Rightarrow> json_obj \<Rightarrow> ledger \<Rightarrow>
   (exc + unit) \<times> dispatch_permit" where
  "open_send env cfg pid lock_free fault permit envelope l =
     (case consume env pid permit envelope of
        (Inl e, permit') \<Rightarrow> (Inl e, permit')
      | (Inr _, permit') \<Rightarrow>
          ((if fault \<noteq> NoFault then Inl DbError
            else rbind (require lock_free (ProtocolError ''send_lock_unavailable'')) (\<lambda>_.
                 send_checks cfg permit' envelope l)), permit'))"

definition finish_tx ::
  "proto_env \<Rightarrow> ledger_cfg \<Rightarrow> json_obj \<Rightarrow> json_obj \<Rightarrow> string option \<Rightarrow> int \<Rightarrow> ledger \<Rightarrow>
   exc + append_res \<times> ledger" where
  "finish_tx env cfg envelope ob stop_reason now l =
     rbind (verify_schema l) (\<lambda>_.
     rbind (str_fld envelope ''run_id'') (\<lambda>run_id.
     rbind (str_fld envelope ''execution_id'') (\<lambda>eid.
     case (dget (runs l) run_id, dget (intents l) eid) of
       (Some run, Some intent) \<Rightarrow>
         rbind (require (in_digest intent = canonical_digest (cr env) (VDict envelope))
                 (ProtocolError ''identity_conflict'')) (\<lambda>_.
         rbind (ledger_append env cfg l intent ob) (\<lambda>(res, l1).
         case stop_reason of
           None \<Rightarrow> Inr (res, l1)
         | Some why \<Rightarrow> if why = [] then Inr (res, l1)
                       else rbind (stop_row run_id why now l1) (\<lambda>l2. Inr (res, l2))))
     | _ \<Rightarrow> Inl (ProtocolError ''identity_conflict''))))"

text \<open>Running a transaction: an error leaves the ledger, a commit failure may or may not apply.\<close>

definition run_tx :: "db_fault \<Rightarrow> ('s \<Rightarrow> exc + 'a \<times> 's) \<Rightarrow> 's \<Rightarrow> (exc + 'a) \<times> 's" where
  "run_tx fault tx l =
     (if fault = StatementFault then (Inl DbError, l)
      else (case tx l of
              Inl e \<Rightarrow> (Inl e, l)
            | Inr (a, l') \<Rightarrow>
                (case fault of
                   CommitFault applied \<Rightarrow> (Inl DbError, if applied then l' else l)
                 | _ \<Rightarrow> (Inr a, l'))))"

definition ledger_finish ::
  "proto_env \<Rightarrow> ledger_cfg \<Rightarrow> db_fault \<Rightarrow> json_obj \<Rightarrow> json_obj \<Rightarrow> string option \<Rightarrow> int \<Rightarrow> ledger \<Rightarrow>
   (exc + append_res) \<times> ledger" where
  "ledger_finish env cfg fault envelope ob stop_reason now =
     run_tx fault (finish_tx env cfg envelope ob stop_reason now)"

definition stop_tx ::
  "proto_env \<Rightarrow> ledger_cfg \<Rightarrow> bool \<Rightarrow> json_obj \<Rightarrow> json_obj \<Rightarrow> string \<Rightarrow> int \<Rightarrow> ledger \<Rightarrow>
   exc + append_res \<times> ledger" where
  "stop_tx env cfg lock_free envelope ob why now l =
     rbind (require lock_free (ProtocolError ''send_lock_unavailable'')) (\<lambda>_.
     rbind (fld ob ''kind'') (\<lambda>kind.
     rbind (str_fld envelope ''execution_id'') (\<lambda>eid.
     if kind = VStr ''pre_dispatch_refused'' \<and> dhas (claims l) eid
     then Inl (ProtocolError ''claim_commit_unconfirmed'')
     else finish_tx env cfg envelope ob (Some why) now l)))"

definition ledger_stop ::
  "proto_env \<Rightarrow> ledger_cfg \<Rightarrow> db_fault \<Rightarrow> bool \<Rightarrow> json_obj \<Rightarrow> json_obj \<Rightarrow> string \<Rightarrow> int \<Rightarrow> ledger \<Rightarrow>
   (exc + append_res) \<times> ledger" where
  "ledger_stop env cfg fault lock_free envelope ob why now =
     run_tx fault (stop_tx env cfg lock_free envelope ob why now)"

definition append_tx ::
  "proto_env \<Rightarrow> ledger_cfg \<Rightarrow> string \<Rightarrow> json_obj \<Rightarrow> ledger \<Rightarrow> exc + append_res \<times> ledger" where
  "append_tx env cfg eid ob l =
     rbind (verify_schema l) (\<lambda>_.
     case dget (intents l) eid of
       None \<Rightarrow> Inl (ProtocolError ''request_missing'')
     | Some intent \<Rightarrow> ledger_append env cfg l intent ob)"

definition ledger_append_op ::
  "proto_env \<Rightarrow> ledger_cfg \<Rightarrow> db_fault \<Rightarrow> string \<Rightarrow> json_obj \<Rightarrow> string \<Rightarrow> ledger \<Rightarrow>
   (exc + append_res) \<times> ledger" where
  "ledger_append_op env cfg fault eid ob source l =
     (if get_none ob ''source'' \<noteq> VStr source then (Inl (ProtocolError ''bad_request''), l)
      else run_tx fault (append_tx env cfg eid ob) l)"

section \<open>Retention\<close>

record sweep_counts =
  sw_eligible :: nat
  sw_observations :: nat
  sw_claims :: nat
  sw_intents :: nat

definition RETENTION :: int where
  "RETENTION = seconds (30 * 86400)"

definition sweep_eligible :: "int \<Rightarrow> nat \<Rightarrow> ledger \<Rightarrow> string list" where
  "sweep_eligible now batch l =
     take batch (map fst (sort_key (\<lambda>p. in_seq (snd p))
       (filter (\<lambda>p. in_expires (snd p) + RETENTION \<le> now) (intents l))))"

definition sweep_tx :: "int \<Rightarrow> int \<Rightarrow> ledger \<Rightarrow> exc + sweep_counts \<times> ledger" where
  "sweep_tx now batch l =
     rbind (verify_schema l) (\<lambda>_.
     (let eligible = sweep_eligible now (nat batch) l in
      if eligible = [] then Inr (\<lparr>sw_eligible = 0, sw_observations = 0, sw_claims = 0, sw_intents = 0\<rparr>, l)
      else
        (let obs' = filter (\<lambda>r. ob_exec r \<notin> set eligible) (observations l);
             claims' = dpops eligible (claims l); intents' = dpops eligible (intents l)
         in Inr (\<lparr>sw_eligible = length eligible,
                  sw_observations = length (observations l) - length obs',
                  sw_claims = length (claims l) - length claims',
                  sw_intents = length (intents l) - length intents'\<rparr>,
                 l\<lparr>observations := obs', obs_states := dpops eligible (obs_states l),
                   claims := claims', intents := intents'\<rparr>))))"

definition retention_sweep ::
  "db_fault \<Rightarrow> int \<Rightarrow> int \<Rightarrow> ledger \<Rightarrow> (exc + sweep_counts) \<times> ledger" where
  "retention_sweep fault now batch l =
     (if \<not> (1 \<le> batch \<and> batch \<le> 5000) then (Inl (ProtocolError ''bad_request''), l)
      else run_tx fault (sweep_tx now batch) l)"

section \<open>Health, metrics and the recovery lookup\<close>

record ledger_health =
  h_backend :: string
  h_schema_ready :: bool
  h_admission :: bool
  h_reason :: string

definition health :: "ledger_cfg \<Rightarrow> db_fault \<Rightarrow> ledger \<Rightarrow> ledger_health" where
  "health cfg fault l =
     (let down = (\<lambda>why. \<lparr>h_backend = ''unavailable'', h_schema_ready = False, h_admission = False, h_reason = why\<rparr>)
      in if fault \<noteq> NoFault then down ''store_unavailable''
         else (case verify_schema l of
                 Inl (ProtocolError why) \<Rightarrow> down why
               | Inl _ \<Rightarrow> down ''store_unavailable''
               | Inr _ \<Rightarrow>
                   (let why = (if \<not> cfg_enabled cfg \<or> \<not> admission_enabled l then ''admission_disabled''
                               else if admission_epoch l \<noteq> cfg_epoch cfg then ''epoch_mismatch'' else ''none'')
                    in \<lparr>h_backend = ''postgres'', h_schema_ready = True, h_admission = (why = ''none''),
                        h_reason = why\<rparr>)))"

text \<open>Minted claims on live runs with no recorded worker result.\<close>

definition unresolved_claims :: "ledger \<Rightarrow> claim_row list" where
  "unresolved_claims l =
     map snd (filter (\<lambda>(eid, _).
       (case dget (intents l) eid of
          None \<Rightarrow> False
        | Some i \<Rightarrow> (case dget (runs l) (in_run i) of None \<Rightarrow> False | Some run \<Rightarrow> run_stopped_at run = None))
       \<and> \<not> list_ex (\<lambda>r. ob_exec r = eid \<and> ob_kind r = ''worker_result'') (observations l)) (claims l))"

record ledger_metrics =
  m_available :: bool
  m_reason :: string
  m_unresolved :: nat
  m_oldest_age :: int

definition metrics_snapshot :: "ledger_cfg \<Rightarrow> db_fault \<Rightarrow> int \<Rightarrow> ledger \<Rightarrow> ledger_metrics" where
  "metrics_snapshot cfg fault now l =
     (let down = \<lparr>m_available = False, m_reason = ''store_unavailable'', m_unresolved = 0, m_oldest_age = 0\<rparr>
      in if fault \<noteq> NoFault then down
         else (case verify_schema l of
                 Inl _ \<Rightarrow> down
               | Inr _ \<Rightarrow>
                   (let ok = (cfg_enabled cfg \<and> admission_enabled l \<and> admission_epoch l = cfg_epoch cfg);
                        open_claims = unresolved_claims l
                    in \<lparr>m_available = ok,
                        m_reason = (if ok then ''none''
                                    else if admission_epoch l \<noteq> cfg_epoch cfg then ''epoch_mismatch''
                                    else ''admission_disabled''),
                        m_unresolved = length open_claims,
                        m_oldest_age =
                          (case map cl_claimed_at open_claims of
                             [] \<Rightarrow> 0 | t # ts \<Rightarrow> now - py_min_by id t ts)\<rparr>)))"

record projection =
  pr_availability :: string
  pr_state :: "string option"
  pr_preparation :: "string option"
  pr_request_digest :: "string option"
  pr_attempt :: "string option"
  pr_claimed_at :: "int option"
  pr_observe_by :: "int option"
  pr_as_of :: "int option"
  pr_run_stopped :: bool
  pr_conflict :: bool
  pr_verify_target :: bool
  pr_receipt :: "val option"
  pr_observations :: "json_obj list"
  pr_truncated :: bool
  pr_envelope :: "json_obj"

definition empty_projection :: "string \<Rightarrow> int option \<Rightarrow> projection" where
  "empty_projection availability as_of =
     \<lparr>pr_availability = availability, pr_state = None, pr_preparation = None, pr_request_digest = None,
      pr_attempt = None, pr_claimed_at = None, pr_observe_by = None, pr_as_of = as_of,
      pr_run_stopped = False, pr_conflict = False, pr_verify_target = True, pr_receipt = None,
      pr_observations = [], pr_truncated = False, pr_envelope = []\<rparr>"

text \<open>The envelope fields a projection copies.\<close>

definition projected_fields :: "string list" where
  "projected_fields = [''confirm_id'', ''call_id'', ''session_id'', ''run_id'', ''admission_epoch'', ''tool_name'',
     ''requested_at'', ''expires_at'']"

text \<open>A stored fact the lookup trusts; \<open>None\<close> when a missing key escapes the handler.\<close>

definition fact_valid ::
  "proto_env \<Rightarrow> ledger_cfg \<Rightarrow> json_obj \<Rightarrow> intent_row \<Rightarrow> claim_row option \<Rightarrow> obs_row \<Rightarrow> exc + unit" where
  "fact_valid env cfg envelope intent c row =
     (let ob = ob_payload row in
      rbind (validate_observation env ob envelope (cfg_key cfg)) (\<lambda>_.
      rbind (require (canonical_digest (cr env) (VDict ob) = ob_digest row) (ProtocolError ''integrity_conflict'')) (\<lambda>_.
      rbind (fld ob ''attempt_request_id'') (\<lambda>att.
      rbind (require (att = VStr (in_attempt intent)) (ProtocolError ''integrity_conflict'')) (\<lambda>_.
      rbind (fld ob ''kind'') (\<lambda>kind.
      if kind = VStr ''worker_result'' \<or> kind = VStr ''claim_committed'' then
        (case c of
           None \<Rightarrow> Inl (ProtocolError ''integrity_conflict'')
         | Some c' \<Rightarrow> rbind (fld ob ''claim_owner_id'') (\<lambda>own.
             require (own = VStr (cl_owner c')) (ProtocolError ''integrity_conflict'')))
      else Inr ()))))))"

fun read_facts ::
  "proto_env \<Rightarrow> ledger_cfg \<Rightarrow> json_obj \<Rightarrow> intent_row \<Rightarrow> claim_row option \<Rightarrow> obs_row list \<Rightarrow>
   exc + json_obj list \<times> bool" where
  "read_facts env cfg envelope intent c [] = Inr ([], False)"
| "read_facts env cfg envelope intent c (row # rows) =
     (case fact_valid env cfg envelope intent c row of
        Inl (ProtocolError _) \<Rightarrow> rbind (read_facts env cfg envelope intent c rows) (\<lambda>(fs, _). Inr (fs, True))
      | Inl e \<Rightarrow> Inl e
      | Inr _ \<Rightarrow> rbind (read_facts env cfg envelope intent c rows) (\<lambda>(fs, bad). Inr (ob_payload row # fs, bad)))"

definition has_kind :: "json_obj list \<Rightarrow> string \<Rightarrow> bool" where
  "has_kind facts k \<longleftrightarrow> list_ex (\<lambda>ob. dget ob ''kind'' = Some (VStr k)) facts"

text \<open>\<open>receipts\<close>: the dictionary from receipt digest to receipt over the worker results.\<close>

definition receipts_of :: "json_obj list \<Rightarrow> (val, val) dict" where
  "receipts_of facts =
     fold (\<lambda>ob d. if dget ob ''kind'' = Some (VStr ''worker_result'')
                   then dset (get_none ob ''receipt_digest'') (get_none ob ''receipt'') d else d) facts []"

definition dispatch_state ::
  "bool \<Rightarrow> val option \<Rightarrow> json_obj list \<Rightarrow> bool \<Rightarrow> bool \<Rightarrow> bool \<Rightarrow> string option" where
  "dispatch_state conflict receipt facts overdue claimed stopped =
     (if conflict then Some ''outcome_unknown''
      else if receipt \<noteq> None then Some ''result_recorded''
      else if list_ex (has_kind facts) UNCERTAIN \<or> overdue then Some ''outcome_unknown''
      else if claimed then Some ''dispatch_claimed''
      else if has_kind facts ''pre_dispatch_refused'' \<and> stopped then Some ''not_dispatched''
      else None)"

definition sole_receipt :: "bool \<Rightarrow> json_obj list \<Rightarrow> val option" where
  "sole_receipt conflict facts =
     (case receipts_of facts of [(_, v)] \<Rightarrow> if conflict then None else Some v | _ \<Rightarrow> None)"

definition build_projection ::
  "int \<Rightarrow> intent_row \<Rightarrow> run_row \<Rightarrow> obs_state \<Rightarrow> claim_row option \<Rightarrow> json_obj list \<Rightarrow> bool \<Rightarrow> projection" where
  "build_projection now intent run state c facts bad =
     (let conflict = (integrity_conflict state \<or> bad \<or> 1 < length (receipts_of facts));
          deadline = (case c of Some c' \<Rightarrow> cl_observe_by c'
                              | None \<Rightarrow> in_registered intent + seconds OBSERVE_SECONDS);
          receipt = sole_receipt conflict facts;
          st = dispatch_state conflict receipt facts (deadline \<le> now) (c \<noteq> None) (run_stopped_at run \<noteq> None)
      in \<lparr>pr_availability = ''available'', pr_state = st,
          pr_preparation = (if st = None then Some ''registered'' else None),
          pr_request_digest = Some (in_digest intent), pr_attempt = Some (in_attempt intent),
          pr_claimed_at = map_option cl_claimed_at c, pr_observe_by = Some deadline,
          pr_as_of = Some now, pr_run_stopped = (run_stopped_at run \<noteq> None),
          pr_conflict = conflict,
          pr_verify_target = (c \<noteq> None \<or> st = Some ''outcome_unknown''),
          pr_receipt = receipt, pr_observations = take 20 facts,
          pr_truncated = (overflow_flag state \<or> 20 < length facts),
          pr_envelope = filter (\<lambda>p. fst p \<in> set projected_fields) (in_envelope intent)\<rparr>)"

definition project_execution ::
  "proto_env \<Rightarrow> ledger_cfg \<Rightarrow> int \<Rightarrow> string \<Rightarrow> intent_row \<Rightarrow> ledger \<Rightarrow> exc + projection" where
  "project_execution env cfg now eid intent l =
     (let envelope = in_envelope intent in
      rbind (validate_request env (VDict envelope) (cfg_key cfg)) (\<lambda>_.
      rbind (require (canonical_digest (cr env) (VDict envelope) = in_digest intent)
              (ProtocolError ''integrity_conflict'')) (\<lambda>_.
      case (dget (runs l) (in_run intent), dget (obs_states l) eid) of
        (Some run, Some state) \<Rightarrow>
          rbind (read_facts env cfg envelope intent (dget (claims l) eid) (take 71 (obs_of l eid))) (\<lambda>(facts, bad).
          Inr (build_projection now intent run state (dget (claims l) eid) facts bad))
      | _ \<Rightarrow> Inl (ProtocolError ''schema_invalid''))))"

definition ledger_lookup ::
  "proto_env \<Rightarrow> ledger_cfg \<Rightarrow> db_fault \<Rightarrow> int \<Rightarrow> string \<Rightarrow> ledger \<Rightarrow> exc + projection" where
  "ledger_lookup env cfg fault now eid l =
     (if fault \<noteq> NoFault then Inr (empty_projection ''unavailable'' None)
      else (case rbind (verify_schema l) (\<lambda>_.
                   case dget (intents l) eid of
                     None \<Rightarrow> Inr (empty_projection ''not_found'' (Some now))
                   | Some intent \<Rightarrow> project_execution env cfg now eid intent l) of
              Inl PyError \<Rightarrow> Inl PyError
            | Inl _ \<Rightarrow> Inr (empty_projection ''unavailable'' None)
            | Inr p \<Rightarrow> Inr p))"

section \<open>Transactions\<close>

lemma run_tx_cases:
  "snd (run_tx fault body s) = s \<or> (\<exists>a. body s = Inr (a, snd (run_tx fault body s)))"
  by (cases "body s"; cases fault) (auto simp: run_tx_def)

lemma run_tx_Inr: "run_tx fault body s = (Inr a, s') \<longleftrightarrow> fault = NoFault \<and> body s = Inr (a, s')"
  by (cases "body s"; cases fault) (auto simp: run_tx_def)

lemma run_tx_keeps:
  assumes "P s" and "\<And>a s'. body s = Inr (a, s') \<Longrightarrow> P s'"
  shows "P (snd (run_tx fault body s))"
  using run_tx_cases [of fault body s] assms by auto

end
