(* ===== verification/Execution_Recovery.thy ===== *)
theory Execution_Recovery
  imports Execution_Ledger
begin

text \<open>
  The agent platform's side of the execution ledger
  (\<open>agent_service/services/execution_recovery.py\<close>, and the validation of an original response
  in \<open>execution_protocol.py\<close>): creating runs, registering signed requests, stopping a run,
  accepting an original response, checking a run, and the closed summary of a projection. The
  signing, protocol and catalog modules of the two products have the same text, so their
  models are shared with the worker.
\<close>

section \<open>Guards\<close>

definition enabled_state :: "ledger_cfg \<Rightarrow> ledger \<Rightarrow> exc + unit" where
  "enabled_state cfg l =
     rbind (require (cfg_enabled cfg \<and> admission_enabled l) (ProtocolError ''admission_disabled'')) (\<lambda>_.
     require (cfg_epoch cfg \<noteq> [] \<and> cfg_epoch cfg = admission_epoch l) (ProtocolError ''epoch_mismatch''))"

definition agent_run :: "string \<Rightarrow> val \<Rightarrow> val \<Rightarrow> ledger \<Rightarrow> exc + run_row" where
  "agent_run run_id session owner l =
     (case dget (runs l) run_id of
        None \<Rightarrow> Inl (ProtocolError ''request_missing'')
      | Some row \<Rightarrow>
          if VStr (run_session row) \<noteq> session \<or> VStr (run_owner row) \<noteq> owner
          then Inl (ProtocolError ''identity_conflict'') else Inr row)"

text \<open>\<open>row["request_envelope"] != envelope\<close> compares dictionaries, whatever their key order.\<close>

definition same_envelope :: "json_obj \<Rightarrow> json_obj \<Rightarrow> bool" where
  "same_envelope a b \<longleftrightarrow> json_norm (VDict a) = json_norm (VDict b)"

definition agent_intent :: "proto_env \<Rightarrow> json_obj \<Rightarrow> ledger \<Rightarrow> exc + string \<times> intent_row" where
  "agent_intent env envelope l =
     rbind (str_fld envelope ''execution_id'') (\<lambda>eid.
     case dget (intents l) eid of
       None \<Rightarrow> Inl (ProtocolError ''request_missing'')
     | Some row \<Rightarrow>
         if in_digest row \<noteq> canonical_digest (cr env) (VDict envelope) \<or> \<not> same_envelope (in_envelope row) envelope
         then Inl (ProtocolError ''identity_conflict'') else Inr (eid, row))"

text \<open>\<open>_unresolved(run_id, execution_id)\<close>\<close>

definition run_unresolved :: "string \<Rightarrow> string option \<Rightarrow> ledger \<Rightarrow> bool" where
  "run_unresolved run_id but l \<longleftrightarrow>
     list_ex (\<lambda>(eid, i). in_run i = run_id \<and> Some eid \<noteq> but \<and> unresolved l eid) (intents l)"

definition bounded_name :: "val \<Rightarrow> bool" where
  "bounded_name v = (case v of VStr s \<Rightarrow> 0 < length s \<and> length s \<le> 256 | _ \<Rightarrow> False)"

text \<open>\<open>connection()\<close> turns every database error into the reason \<open>store_unavailable\<close>.\<close>

definition agent_tx :: "db_fault \<Rightarrow> (ledger \<Rightarrow> exc + 'a \<times> ledger) \<Rightarrow> ledger \<Rightarrow> (exc + 'a) \<times> ledger" where
  "agent_tx fault tx l =
     (case run_tx fault tx l of
        (Inl DbError, l') \<Rightarrow> (Inl (ProtocolError ''store_unavailable''), l')
      | r \<Rightarrow> r)"

section \<open>Runs and registration\<close>

text \<open>\<open>create_run\<close>, with the fresh run id as an argument; a repeated id violates the primary key.\<close>

definition create_tx :: "string \<Rightarrow> val \<Rightarrow> val \<Rightarrow> ledger \<Rightarrow> exc + string \<times> ledger" where
  "create_tx run_id session owner l =
     rbind (verify_schema l) (\<lambda>_.
     if dhas (runs l) run_id then Inl DbError
     else Inr (run_id, l\<lparr>runs := dset run_id
            \<lparr>run_session = str_of_val session, run_owner = str_of_val owner,
             run_stopped_at = None, run_stop_reason = None\<rparr> (runs l)\<rparr>))"

definition create_run :: "db_fault \<Rightarrow> string \<Rightarrow> val \<Rightarrow> val \<Rightarrow> ledger \<Rightarrow> (exc + string) \<times> ledger" where
  "create_run fault run_id session owner l =
     (if \<not> (bounded_name session \<and> bounded_name owner) then (Inl (ProtocolError ''bad_request''), l)
      else agent_tx fault (create_tx run_id session owner) l)"

definition check_run ::
  "proto_env \<Rightarrow> ledger_cfg \<Rightarrow> db_fault \<Rightarrow> string \<Rightarrow> val \<Rightarrow> val \<Rightarrow> val option \<Rightarrow> ledger \<Rightarrow> exc + unit" where
  "check_run env cfg fault run_id session owner envelope_o l =
     (if fault \<noteq> NoFault then Inl (ProtocolError ''store_unavailable'')
      else
        rbind (verify_schema l) (\<lambda>_.
        rbind (enabled_state cfg l) (\<lambda>_.
        rbind (agent_run run_id session owner l) (\<lambda>run.
        rbind (require (run_stopped_at run = None) (ProtocolError ''run_stopped'')) (\<lambda>_.
        rbind (case envelope_o of
                 None \<Rightarrow> Inr None
               | Some envelope_v \<Rightarrow>
                   rbind (validate_request env envelope_v (cfg_key cfg)) (\<lambda>envelope.
                   rbind (fld envelope ''run_id'') (\<lambda>rid.
                   rbind (require (rid = VStr run_id) (ProtocolError ''identity_conflict'')) (\<lambda>_.
                   rbind (agent_intent env envelope l) (\<lambda>(eid, _).
                   rbind (require (case dget (obs_states l) eid of None \<Rightarrow> False | Some s \<Rightarrow> \<not> integrity_conflict s)
                           (ProtocolError ''integrity_conflict'')) (\<lambda>_. Inr (Some eid)))))))
          (\<lambda>but. require (\<not> run_unresolved run_id but l) (ProtocolError ''predecessor_unresolved'')))))))"

record registration =
  rg_execution :: string
  rg_digest :: string
  rg_attempt :: string

definition register_tx ::
  "proto_env \<Rightarrow> ledger_cfg \<Rightarrow> int \<Rightarrow> json_obj \<Rightarrow> string \<Rightarrow> ledger \<Rightarrow> exc + registration \<times> ledger" where
  "register_tx env cfg now envelope attempt l =
     (let digest = canonical_digest (cr env) (VDict envelope) in
      rbind (verify_schema l) (\<lambda>_.
      rbind (str_fld envelope ''run_id'') (\<lambda>run_id.
      rbind (fld envelope ''session_id'') (\<lambda>session.
      rbind (fld envelope ''owner_user_id'') (\<lambda>owner.
      rbind (agent_run run_id session owner l) (\<lambda>run.
      rbind (str_fld envelope ''execution_id'') (\<lambda>eid.
      rbind (str_fld envelope ''confirm_id'') (\<lambda>confirm.
      rbind (str_fld envelope ''call_id'') (\<lambda>call.
      case find (\<lambda>(e, i). e = eid \<or> (in_confirm i = confirm \<and> in_call i = call)) (intents l) of
        Some (e, existing) \<Rightarrow>
          if e \<noteq> eid \<or> in_digest existing \<noteq> digest \<or> \<not> same_envelope (in_envelope existing) envelope
          then Inl (ProtocolError ''identity_conflict'')
          else Inr (\<lparr>rg_execution = eid, rg_digest = digest, rg_attempt = in_attempt existing\<rparr>, l)
      | None \<Rightarrow>
          rbind (enabled_state cfg l) (\<lambda>_.
          rbind (fld envelope ''admission_epoch'') (\<lambda>epoch.
          rbind (require (epoch = VStr (cfg_epoch cfg)) (ProtocolError ''epoch_mismatch'')) (\<lambda>_.
          rbind (require (run_stopped_at run = None) (ProtocolError ''run_stopped'')) (\<lambda>_.
          rbind (require (\<not> run_unresolved run_id None l) (ProtocolError ''predecessor_unresolved'')) (\<lambda>_.
          rbind (fld envelope ''requested_at'') (\<lambda>rv. rbind (timestamp env rv) (\<lambda>requested.
          rbind (require (requested \<le> now) (ProtocolError ''request_not_yet_valid'')) (\<lambda>_.
          rbind (fld envelope ''expires_at'') (\<lambda>ev. rbind (timestamp env ev) (\<lambda>expires.
          rbind (require (now < expires) (ProtocolError ''request_expired'')) (\<lambda>_.
          Inr (\<lparr>rg_execution = eid, rg_digest = digest, rg_attempt = attempt\<rparr>,
               l\<lparr>intents := dset eid \<lparr>in_confirm = confirm, in_call = call, in_run = run_id,
                    in_digest = digest, in_envelope = envelope, in_attempt = attempt,
                    in_expires = expires, in_registered = now, in_seq = next_seq l\<rparr> (intents l),
                 obs_states := dset eid initial_obs_state (obs_states l),
                 next_seq := Suc (next_seq l)\<rparr>)))))))))))))))))))))"

definition register ::
  "proto_env \<Rightarrow> ledger_cfg \<Rightarrow> db_fault \<Rightarrow> int \<Rightarrow> val \<Rightarrow> val \<Rightarrow> ledger \<Rightarrow> (exc + registration) \<times> ledger" where
  "register env cfg fault now envelope_v attempt_v l =
     (case validate_request env envelope_v (cfg_key cfg) of
        Inl e \<Rightarrow> (Inl e, l)
      | Inr envelope \<Rightarrow>
          (case as_str attempt_v of
             None \<Rightarrow> (Inl (ProtocolError ''bad_request''), l)
           | Some attempt \<Rightarrow>
               if \<not> safe_request_id attempt then (Inl (ProtocolError ''bad_request''), l)
               else agent_tx fault (register_tx env cfg now envelope attempt) l))"

section \<open>Facts, stops and acceptance\<close>

definition agent_slot :: "string \<Rightarrow> string option" where
  "agent_slot kind =
     map_of [(''wait_expired'', ''timeout''), (''run_stopped'', ''stop''), (''response_accepted'', ''acceptance'')] kind"

definition agent_append ::
  "proto_env \<Rightarrow> ledger_cfg \<Rightarrow> ledger \<Rightarrow> string \<Rightarrow> intent_row \<Rightarrow> json_obj \<Rightarrow> exc + append_res \<times> ledger" where
  "agent_append env cfg l eid intent ob =
     (let digest = canonical_digest (cr env) (VDict ob) in
      rbind (validate_observation env ob (in_envelope intent) (cfg_key cfg)) (\<lambda>_.
      rbind (fld ob ''source'') (\<lambda>source.
      rbind (fld ob ''attempt_request_id'') (\<lambda>att.
      rbind (require (source = VStr ''agent'' \<and> att = VStr (in_attempt intent)) (ProtocolError ''identity_conflict'')) (\<lambda>_.
      case dget (obs_states l) eid of
        None \<Rightarrow> Inl (ProtocolError ''schema_invalid'')
      | Some state \<Rightarrow>
          rbind (str_fld ob ''observation_id'') (\<lambda>oid.
          case find_obs l oid of
            Some old \<Rightarrow> Inr (replay_obs eid digest old l)
          | None \<Rightarrow>
              rbind (str_fld ob ''kind'') (\<lambda>kind.
              Inr (place eid (ordinary_count state) (agent_slot kind) oid ''agent'' kind ob digest l))))))))"

definition stop_kinds :: "string list" where
  "stop_kinds = [''wait_expired'', ''transport_uncertain'', ''pre_dispatch_refused'', ''run_stopped'']"

datatype stop_outcome = Stopped | StopFact append_res

definition agent_stop_tx ::
  "proto_env \<Rightarrow> ledger_cfg \<Rightarrow> bool \<Rightarrow> string \<Rightarrow> val \<Rightarrow> val \<Rightarrow> string \<Rightarrow> (json_obj \<times> json_obj) option \<Rightarrow> int \<Rightarrow>
   ledger \<Rightarrow> exc + stop_outcome \<times> ledger" where
  "agent_stop_tx env cfg lock_free run_id session owner why fact_o now l =
     rbind (require lock_free (ProtocolError ''send_lock_unavailable'')) (\<lambda>_.
     rbind (verify_schema l) (\<lambda>_.
     rbind (agent_run run_id session owner l) (\<lambda>_.
     rbind (case fact_o of
              None \<Rightarrow> Inr (Stopped, l)
            | Some (envelope, ob) \<Rightarrow>
                rbind (agent_intent env envelope l) (\<lambda>(eid, intent).
                if dget ob ''kind'' = Some (VStr ''pre_dispatch_refused'') \<and> dhas (claims l) eid
                then Inl (ProtocolError ''claim_commit_unconfirmed'')
                else rbind (agent_append env cfg l eid intent ob) (\<lambda>(res, l1). Inr (StopFact res, l1))))
       (\<lambda>(res, l1).
        rbind (stop_row run_id (if why \<in> set STOP_REASONS then why else ''response_invalid'') now l1)
          (\<lambda>l2. Inr (res, l2))))))"

definition stop_run ::
  "proto_env \<Rightarrow> ledger_cfg \<Rightarrow> db_fault \<Rightarrow> bool \<Rightarrow> string \<Rightarrow> val \<Rightarrow> val \<Rightarrow> string \<Rightarrow> (val \<times> json_obj) option \<Rightarrow>
   int \<Rightarrow> ledger \<Rightarrow> (exc + stop_outcome) \<times> ledger" where
  "stop_run env cfg fault lock_free run_id session owner why fact_o now l =
     (case fact_o of
        None \<Rightarrow> agent_tx fault (agent_stop_tx env cfg lock_free run_id session owner why None now) l
      | Some (envelope_v, ob) \<Rightarrow>
          (case validate_request env envelope_v (cfg_key cfg) of
             Inl e \<Rightarrow> (Inl e, l)
           | Inr envelope \<Rightarrow>
               if dget envelope ''run_id'' \<noteq> Some (VStr run_id) \<or> get_none ob ''kind'' \<notin> set (map VStr stop_kinds)
               then (Inl (ProtocolError ''bad_request''), l)
               else agent_tx fault (agent_stop_tx env cfg lock_free run_id session owner why (Some (envelope, ob)) now) l))"

text \<open>
  \<open>accept\<close>. \<open>worker_ob\<close> is the observation of the original response the caller re-validated
  (\<open>original.revalidate\<close> succeeded); \<open>now\<close> and \<open>oid\<close> are the time and id of the new fact.
\<close>

definition accept_tx ::
  "proto_env \<Rightarrow> ledger_cfg \<Rightarrow> json_obj \<Rightarrow> json_obj \<Rightarrow> json_obj \<Rightarrow> ledger \<Rightarrow> exc + append_res \<times> ledger" where
  "accept_tx env cfg envelope worker_ob ob l =
     rbind (verify_schema l) (\<lambda>_.
     rbind (str_fld envelope ''run_id'') (\<lambda>run_id.
     rbind (fld envelope ''session_id'') (\<lambda>session.
     rbind (fld envelope ''owner_user_id'') (\<lambda>owner.
     rbind (agent_run run_id session owner l) (\<lambda>run.
     rbind (agent_intent env envelope l) (\<lambda>(eid, intent).
     rbind (str_fld worker_ob ''observation_id'') (\<lambda>w_oid.
     rbind (require (run_stopped_at run = None
                     \<and> (case dget (obs_states l) eid of None \<Rightarrow> False | Some s \<Rightarrow> \<not> integrity_conflict s))
             (ProtocolError ''run_stopped'')) (\<lambda>_.
     (case (find (\<lambda>r. ob_exec r = eid \<and> ob_id r = w_oid \<and> ob_kind r = ''worker_result'') (observations l),
            dget (claims l) eid) of
        (Some row, Some c) \<Rightarrow>
          rbind (fld worker_ob ''claim_owner_id'') (\<lambda>own.
          rbind (require (same_envelope (ob_payload row) worker_ob
                          \<and> ob_digest row = canonical_digest (cr env) (VDict worker_ob)
                          \<and> VStr (cl_owner c) = own) (ProtocolError ''response_invalid'')) (\<lambda>_.
          agent_append env cfg l eid intent ob))
      | _ \<Rightarrow> Inl (ProtocolError ''response_invalid''))))))))))"

definition accept_fact ::
  "proto_env \<Rightarrow> ledger_cfg \<Rightarrow> json_obj \<Rightarrow> json_obj \<Rightarrow> string \<Rightarrow> int \<Rightarrow> string \<Rightarrow> exc + json_obj" where
  "accept_fact env cfg envelope worker_ob current_request_id now oid =
     rbind (str_fld worker_ob ''attempt_request_id'') (\<lambda>att.
     rbind (fld worker_ob ''receipt_digest'') (\<lambda>dig.
     observation env envelope ''agent'' ''response_accepted'' att current_request_id (cfg_key cfg)
       ''none'' now oid [(''receipt_digest'', dig)]))"

definition accept ::
  "proto_env \<Rightarrow> ledger_cfg \<Rightarrow> db_fault \<Rightarrow> json_obj \<Rightarrow> json_obj \<Rightarrow> string \<Rightarrow> int \<Rightarrow> string \<Rightarrow> ledger \<Rightarrow>
   (exc + json_obj) \<times> ledger" where
  "accept env cfg fault envelope worker_ob current_request_id now oid l =
     (case accept_fact env cfg envelope worker_ob current_request_id now oid of
        Inl e \<Rightarrow> (Inl e, l)
      | Inr ob \<Rightarrow>
          (case agent_tx fault (accept_tx env cfg envelope worker_ob ob) l of
             (Inl e, l') \<Rightarrow> (Inl e, l')
           | (Inr res, l') \<Rightarrow>
               (if res \<in> {Inserted, Identical} then Inr ob else Inl (ProtocolError ''integrity_conflict''), l')))"

end
