(* ===== verification/Ledger_Machine.thy ===== *)
theory Ledger_Machine
  imports Execution_Recovery
begin

text \<open>
  The ledger as a whole: every operation of the worker and of the agent platform is a sequence
  of primitive row changes (\<open>row_change\<close>, with the flag telling whether retention may run), each of which keeps the ledger's invariant. From
  that follow the properties of whole histories, with any interleaving of the two products and
  any database failure.
\<close>

section \<open>Primitive row changes\<close>

definition SLOTS :: "string list" where
  "SLOTS = [''claim'', ''result'', ''timeout'', ''stop'', ''acceptance'', ''conflict'']"

inductive row_change :: "bool \<Rightarrow> ledger \<Rightarrow> ledger \<Rightarrow> bool" for sw where
  rc_conflict: "row_change sw l (mark_conflict eid digest l)"
| rc_duplicate: "row_change sw l (count_duplicate eid l)"
| rc_fact: "dget (obs_states l) eid = Some s \<Longrightarrow> find_obs l oid = None \<Longrightarrow> set_option slot \<subseteq> set SLOTS \<Longrightarrow>
    (kind = ''claim_committed'' \<or> kind = ''worker_result'' \<Longrightarrow> dhas (claims l) eid) \<Longrightarrow>
    row_change sw l (snd (place eid (ordinary_count s) slot oid source kind ob digest l))"
| rc_stop: "stop_row run_id why now l = Inr l' \<Longrightarrow> row_change sw l l'"
| rc_run: "\<not> dhas (runs l) run_id \<Longrightarrow> run_stopped_at r = None \<Longrightarrow> run_stop_reason r = None \<Longrightarrow>
    row_change sw l (l\<lparr>runs := dset run_id r (runs l)\<rparr>)"
| rc_intent: "\<not> dhas (intents l) eid \<Longrightarrow>
    \<not> list_ex (\<lambda>(_, j). in_confirm j = in_confirm i \<and> in_call j = in_call i) (intents l) \<Longrightarrow>
    dhas (runs l) (in_run i) \<Longrightarrow> in_seq i = next_seq l \<Longrightarrow>
    row_change sw l (l\<lparr>intents := dset eid i (intents l), obs_states := dset eid initial_obs_state (obs_states l),
                    next_seq := Suc (next_seq l)\<rparr>)"
| rc_claim: "dget (intents l) eid = Some i \<Longrightarrow> insert_claim eid i c l = Inr (Some l') \<Longrightarrow> row_change sw l l'"
| rc_sweep: "sw \<Longrightarrow> sweep_tx now batch l = Inr (counts, l') \<Longrightarrow> row_change sw l l'"

abbreviation changes :: "bool \<Rightarrow> ledger \<Rightarrow> ledger \<Rightarrow> bool" where
  "changes sw \<equiv> (row_change sw)\<^sup>*\<^sup>*"

section \<open>Every operation is a sequence of row changes\<close>

lemma reserved_slot_SLOTS: "set_option (reserved_slot kind) \<subseteq> set SLOTS"
  by (auto simp: reserved_slot_def SLOTS_def split: if_splits)

lemma agent_slot_SLOTS: "set_option (agent_slot kind) \<subseteq> set SLOTS"
  by (auto simp: agent_slot_def SLOTS_def split: if_splits)

lemma mark_conflict_frame [simp]:
  "claims (mark_conflict eid d l) = claims l" "intents (mark_conflict eid d l) = intents l"
  "runs (mark_conflict eid d l) = runs l" "observations (mark_conflict eid d l) = observations l"
  "find_obs (mark_conflict eid d l) oid = find_obs l oid"
  by (simp_all add: mark_conflict_def upd_obs_state_def find_obs_def split: option.splits)

lemma mark_conflict_state:
  "dget (obs_states l) eid = Some s \<Longrightarrow>
   \<exists>s'. dget (obs_states (mark_conflict eid d l)) eid = Some s' \<and> ordinary_count s' = ordinary_count s"
  by (auto simp: mark_conflict_def upd_obs_state_def split: option.splits)

lemma replay_obs_changes: "replay_obs eid digest old l = (res, l') \<Longrightarrow> row_change sw l l'"
  by (auto simp: replay_obs_def intro: rc_conflict rc_duplicate split: if_splits)

text \<open>What an append of the worker did, when it returned.\<close>

lemma ledger_append_cases:
  assumes "ledger_append env cfg l intent ob = Inr (res, l')"
  obtains (replay) eid old where "dget (in_envelope intent) ''execution_id'' = Some (VStr eid)"
      and "replay_obs eid (canonical_digest (cr env) (VDict ob)) old l = (res, l')"
  | (fresh) eid oid kind source s l1 slot where
      "dget (in_envelope intent) ''execution_id'' = Some (VStr eid)"
      and "dget (obs_states l) eid = Some s" and "dget ob ''observation_id'' = Some (VStr oid)"
      and "find_obs l oid = None" and "dget ob ''kind'' = Some (VStr kind)"
      and "owner_matches l eid kind ob = Inr ()"
      and "result_slot l eid kind ob (canonical_digest (cr env) (VDict ob)) = Inr (l1, slot)"
      and "acceptance_ok l eid kind ob (in_envelope intent) s = Inr ()"
      and "place eid (ordinary_count s) slot oid source kind ob (canonical_digest (cr env) (VDict ob)) l1
             = (res, l')"
proof -
  from assms obtain eid where eid: "dget (in_envelope intent) ''execution_id'' = Some (VStr eid)"
    by (auto simp: ledger_append_def Let_def)
  show ?thesis
  proof (cases "dget (obs_states l) eid")
    case None
    with assms eid show ?thesis by (auto simp: ledger_append_def Let_def)
  next
    case s: (Some s)
    with assms eid obtain oid where oid: "dget ob ''observation_id'' = Some (VStr oid)"
      by (auto simp: ledger_append_def Let_def)
    show ?thesis
    proof (cases "find_obs l oid")
      case None
      with assms eid s oid show ?thesis by (auto simp: ledger_append_def Let_def intro: fresh)
    next
      case (Some old)
      with assms eid s oid show ?thesis by (auto simp: ledger_append_def Let_def intro: replay)
    qed
  qed
qed

lemma result_slot_cases:
  assumes "result_slot l eid kind ob digest = Inr (l1, slot)"
  shows "(l1 = l \<and> slot = reserved_slot kind) \<or> (l1 = mark_conflict eid digest l \<and> slot = Some ''conflict'')"
  using assms by (auto simp: result_slot_def split: if_splits list.splits)

lemma owner_matches_claimed:
  "owner_matches l eid kind ob = Inr u \<Longrightarrow> kind = ''claim_committed'' \<or> kind = ''worker_result'' \<Longrightarrow>
   dhas (claims l) eid"
  by (auto simp: owner_matches_def dhas_dget split: if_splits option.splits)

lemma ledger_append_changes:
  assumes "ledger_append env cfg l intent ob = Inr (res, l')"
  shows "changes sw l l'"
  using assms
proof (cases rule: ledger_append_cases)
  case (replay eid old)
  then show ?thesis by (blast intro: replay_obs_changes)
next
  case (fresh eid oid kind source s l1 slot)
  let ?d = "canonical_digest (cr env) (VDict ob)"
  have own: "kind = ''claim_committed'' \<or> kind = ''worker_result'' \<Longrightarrow> dhas (claims l) eid"
    by (rule owner_matches_claimed [OF fresh(6)])
  from result_slot_cases [OF fresh(7)] show ?thesis
  proof
    assume "l1 = l \<and> slot = reserved_slot kind"
    then have "row_change sw l (snd (place eid (ordinary_count s) slot oid source kind ob ?d l))"
      using fresh(2,4) own reserved_slot_SLOTS [of kind] by (intro rc_fact) simp_all
    with fresh(9) \<open>l1 = l \<and> slot = reserved_slot kind\<close> show ?thesis by auto
  next
    assume l1: "l1 = mark_conflict eid ?d l \<and> slot = Some ''conflict''"
    obtain s' where s': "dget (obs_states l1) eid = Some s'" "ordinary_count s' = ordinary_count s"
      using mark_conflict_state [OF fresh(2)] l1 by blast
    have "row_change sw l1 (snd (place eid (ordinary_count s') slot oid source kind ob ?d l1))"
      using s' l1 fresh(4) own by (intro rc_fact) (auto simp: SLOTS_def)
    with s'(2) fresh(9) have "row_change sw l1 l'" by simp
    moreover have "row_change sw l l1" using l1 rc_conflict by blast
    ultimately show ?thesis by (meson r_into_rtranclp rtranclp.rtrancl_into_rtrancl)
  qed
qed

lemma insert_claim_change:
  "dget (intents l) eid = Some i \<Longrightarrow> insert_claim eid i c l = Inr (Some l1) \<Longrightarrow> row_change sw l l1"
  by (rule rc_claim)

lemma mint_claim_changes:
  assumes "mint_claim env cfg l inp eid run_id intent envelope cur = Inr (d, l', k)"
    and "dget (intents l) eid = Some intent"
  shows "changes sw l l'"
proof -
  from assms(1) consider "l' = l"
    | c l1 ob where "insert_claim eid intent c l = Inr (Some l1)"
      "ledger_append env cfg l1 intent ob = Inr (Inserted, l')"
    by (auto simp: mint_claim_def Let_def simp del: rbind_Inr_iff elim!: rbindE
        split: option.split_asm if_split_asm)
  then show ?thesis
  proof cases
    case 1
    then show ?thesis by simp
  next
    case 2
    then show ?thesis
      by (meson assms(2) insert_claim_change ledger_append_changes converse_rtranclp_into_rtranclp)
  qed
qed

lemma claim_body_changes:
  assumes "claim_body env cfg l inp envelope cur = Inr (d, l', k)"
  shows "changes sw l l'"
proof -
  from assms consider "l' = l"
    | eid run_id intent where "dget (intents l) eid = Some intent"
        "mint_claim env cfg l inp eid run_id intent envelope cur = Inr (d, l', k)"
    | intent ob res where "ledger_append env cfg l intent ob = Inr (res, l')"
    by (auto simp: claim_body_def replay_claim_def simp del: rbind_Inr_iff elim!: rbindE
        split: option.split_asm if_split_asm)
  then show ?thesis by cases (auto intro: mint_claim_changes ledger_append_changes)
qed

lemma ledger_claim_changes: "ledger_claim env cfg inp v cur l = (res, l') \<Longrightarrow> changes sw l l'"
  by (auto simp: ledger_claim_def dest!: claim_body_changes
      split: sum.splits exc.splits if_splits commit_kind.splits db_fault.splits)

lemma stop_row_changes: "stop_row run_id why now l = Inr l' \<Longrightarrow> changes sw l l'"
  by (blast intro: rc_stop)

lemma finish_tx_changes:
  assumes "finish_tx env cfg envelope ob why now l = Inr (res, l')"
  shows "changes sw l l'"
proof -
  from assms obtain intent l1 where a: "ledger_append env cfg l intent ob = Inr (res, l1)"
    and "l' = l1 \<or> (\<exists>run_id w. stop_row run_id w now l1 = Inr l')"
    by (auto simp: finish_tx_def simp del: rbind_Inr_iff elim!: rbindE
        split: option.split_asm if_split_asm) blast
  then show ?thesis using ledger_append_changes [OF a] stop_row_changes by (metis rtranclp_trans)
qed

lemma run_tx_changes:
  assumes "run_tx fault tx l = (res, l')" and "\<And>a l1. tx l = Inr (a, l1) \<Longrightarrow> changes sw l l1"
  shows "changes sw l l'"
  using assms by (auto simp: run_tx_def split: if_splits sum.splits db_fault.splits)

lemma agent_tx_changes:
  assumes "agent_tx fault tx l = (res, l')" and "\<And>a l1. tx l = Inr (a, l1) \<Longrightarrow> changes sw l l1"
  shows "changes sw l l'"
proof -
  obtain r l1 where r: "run_tx fault tx l = (r, l1)" by fastforce
  with assms(1) have "l' = l1" by (auto simp: agent_tx_def split: sum.splits exc.splits)
  moreover have "changes sw l l1" by (rule run_tx_changes [OF r]) (rule assms(2))
  ultimately show ?thesis by simp
qed

lemma stop_tx_changes: "stop_tx env cfg free envelope ob why now l = Inr (res, l') \<Longrightarrow> changes sw l l'"
  by (auto simp: stop_tx_def simp del: rbind_Inr_iff elim!: rbindE split: if_split_asm
      intro: finish_tx_changes)

lemma append_tx_changes: "append_tx env cfg eid ob l = Inr (res, l') \<Longrightarrow> changes sw l l'"
  by (auto simp: append_tx_def simp del: rbind_Inr_iff elim!: rbindE split: option.split_asm
      intro: ledger_append_changes)

lemma sweep_tx_changes: "sweep_tx now batch l = Inr (counts, l') \<Longrightarrow> changes True l l'"
  by (blast intro: rc_sweep)

lemma create_tx_changes: "create_tx run_id session owner l = Inr (res, l') \<Longrightarrow> changes sw l l'"
  by (auto simp: create_tx_def simp del: rbind_Inr_iff elim!: rbindE split: if_split_asm
      intro!: r_into_rtranclp rc_run)

lemma agent_run_exists: "agent_run run_id session owner l = Inr run \<Longrightarrow> dget (runs l) run_id = Some run"
  by (auto simp: agent_run_def split: option.splits if_splits)

lemma find_dget: "find (\<lambda>(e, i). e = k \<or> P i) d = Some (k, v) \<Longrightarrow> dget d k = Some v"
  by (induction d) (auto split: if_splits)

lemma register_tx_cases:
  assumes "register_tx env cfg now envelope attempt l = Inr (reg, l')"
  obtains (again) existing where "l' = l" and "dget (intents l) (rg_execution reg) = Some existing"
      and "in_digest existing = canonical_digest (cr env) (VDict envelope)"
      and "same_envelope (in_envelope existing) envelope" and "rg_attempt reg = in_attempt existing"
      and "rg_digest reg = in_digest existing"
  | (fresh) eid i where "rg_execution reg = eid" and "dget envelope ''execution_id'' = Some (VStr eid)"
      and "\<not> dhas (intents l) eid"
      and "\<not> list_ex (\<lambda>(_, j). in_confirm j = in_confirm i \<and> in_call j = in_call i) (intents l)"
      and "dhas (runs l) (in_run i)" and "in_seq i = next_seq l" and "in_envelope i = envelope"
      and "in_digest i = canonical_digest (cr env) (VDict envelope)" and "in_attempt i = attempt"
      and "rg_attempt reg = attempt" and "rg_digest reg = in_digest i"
      and "time_of env envelope ''expires_at'' = Some (in_expires i)" and "now < in_expires i"
      and "cfg_enabled cfg" and "admission_enabled l" and "admission_epoch l = cfg_epoch cfg"
      and "dget envelope ''admission_epoch'' = Some (VStr (cfg_epoch cfg))"
      and "dget envelope ''run_id'' = Some (VStr (in_run i))"
      and "(case dget (runs l) (in_run i) of None \<Rightarrow> False | Some r \<Rightarrow> run_stopped_at r = None)"
      and "\<not> run_unresolved (in_run i) None l"
      and "l' = l\<lparr>intents := dset eid i (intents l), obs_states := dset eid initial_obs_state (obs_states l),
                  next_seq := Suc (next_seq l)\<rparr>"
proof -
  from assms obtain run_id session owner run eid confirm call where
    v: "verify_schema l = Inr ()" and run: "dget envelope ''run_id'' = Some (VStr run_id)"
    "dget envelope ''session_id'' = Some session" "dget envelope ''owner_user_id'' = Some owner"
    "agent_run run_id session owner l = Inr run" and eid: "dget envelope ''execution_id'' = Some (VStr eid)"
    and cc: "dget envelope ''confirm_id'' = Some (VStr confirm)" "dget envelope ''call_id'' = Some (VStr call)"
    by (auto simp: register_tx_def Let_def simp del: rbind_Inr_iff elim!: rbindE)
  let ?f = "find (\<lambda>(e, i). e = eid \<or> (in_confirm i = confirm \<and> in_call i = call)) (intents l)"
  note r = agent_run_exists [OF run(4)]
  show ?thesis
  proof (cases ?f)
    case (Some p)
    then obtain e existing where p: "?f = Some (e, existing)" by (cases p) auto
    from assms v run eid cc p have e: "e = eid" and rest: "l' = l" "rg_execution reg = eid"
      "in_digest existing = canonical_digest (cr env) (VDict envelope)"
      "same_envelope (in_envelope existing) envelope" "rg_attempt reg = in_attempt existing"
      "rg_digest reg = in_digest existing"
      by (auto simp: register_tx_def Let_def split: if_split_asm)
    from p e have "dget (intents l) eid = Some existing" by (intro find_dget) simp
    with rest show ?thesis by (auto intro: again)
  next
    case None
    then have no: "\<not> dhas (intents l) eid"
      "\<not> list_ex (\<lambda>(_, j). in_confirm j = confirm \<and> in_call j = call) (intents l)"
      by (force simp: find_None_iff dhas_def list_ex_iff)+
    from assms v run eid cc None r no show ?thesis
      by (auto simp: register_tx_def Let_def enabled_state_def time_of_Some dhas_dget intro!: fresh [of eid])
  qed
qed

lemma register_tx_changes: "register_tx env cfg now envelope attempt l = Inr (reg, l') \<Longrightarrow> changes sw l l'"
proof (elim register_tx_cases)
  fix existing
  assume "l' = l"
  then show "changes sw l l'" by simp
qed (auto intro!: r_into_rtranclp rc_intent)

lemma agent_append_cases:
  assumes "agent_append env cfg l eid intent ob = Inr (res, l')"
  obtains (replay) old where "replay_obs eid (canonical_digest (cr env) (VDict ob)) old l = (res, l')"
  | (fresh) s oid kind where "dget (obs_states l) eid = Some s"
      and "dget ob ''observation_id'' = Some (VStr oid)" and "find_obs l oid = None"
      and "dget ob ''kind'' = Some (VStr kind)" and "dget ob ''source'' = Some (VStr ''agent'')"
      and "place eid (ordinary_count s) (agent_slot kind) oid ''agent'' kind ob
             (canonical_digest (cr env) (VDict ob)) l = (res, l')"
  using assms
  by (auto simp: agent_append_def Let_def simp del: rbind_Inr_iff elim!: rbindE split: option.split_asm)

text \<open>
  The agent's append does not look at claims; the schema gives it only agent kinds, so here
  the kinds that need a claim are excluded by hypothesis.
\<close>

lemma agent_append_changes:
  assumes "agent_append env cfg l eid intent ob = Inr (res, l')"
    and "dget ob ''kind'' \<notin> {Some (VStr ''claim_committed''), Some (VStr ''worker_result'')}"
  shows "changes sw l l'"
  using assms(1)
proof (cases rule: agent_append_cases)
  case (replay old)
  then show ?thesis by (blast intro: replay_obs_changes)
next
  case (fresh s oid kind)
  have "row_change sw l (snd (place eid (ordinary_count s) (agent_slot kind) oid ''agent'' kind ob
             (canonical_digest (cr env) (VDict ob)) l))"
    using fresh(1,3,4) assms(2) agent_slot_SLOTS [of kind] by (intro rc_fact) auto
  with fresh(6) show ?thesis by auto
qed

lemma agent_stop_tx_changes:
  assumes "agent_stop_tx env cfg free run_id session owner why fact_o now l = Inr (res, l')"
    and "\<And>envelope ob. fact_o = Some (envelope, ob) \<Longrightarrow> get_none ob ''kind'' \<in> set (map VStr stop_kinds)"
  shows "changes sw l l'"
proof -
  from assms(1) obtain l1 w where st: "stop_row run_id w now l1 = Inr l'"
    and l1: "l1 = l \<or> (\<exists>envelope ob eid intent r. fact_o = Some (envelope, ob)
                        \<and> agent_append env cfg l eid intent ob = Inr (r, l1))"
    by (auto simp: agent_stop_tx_def simp del: rbind_Inr_iff elim!: rbindE
        split: option.split_asm if_split_asm) blast+
  from l1 have "changes sw l l1"
  proof
    assume "\<exists>envelope ob eid intent r. fact_o = Some (envelope, ob)
        \<and> agent_append env cfg l eid intent ob = Inr (r, l1)"
    then obtain envelope ob eid intent r where f: "fact_o = Some (envelope, ob)"
      and a: "agent_append env cfg l eid intent ob = Inr (r, l1)" by blast
    from assms(2) [OF f] have "dget ob ''kind'' \<notin> {Some (VStr ''claim_committed''), Some (VStr ''worker_result'')}"
      by (auto simp: get_none_def stop_kinds_def)
    with a show ?thesis by (rule agent_append_changes)
  qed simp
  with stop_row_changes [OF st] show ?thesis by (metis rtranclp_trans)
qed

lemma accept_tx_append:
  assumes "accept_tx env cfg envelope worker_ob ob l = Inr (res, l')"
  obtains eid intent where "agent_intent env envelope l = Inr (eid, intent)"
    and "agent_append env cfg l eid intent ob = Inr (res, l')"
  using assms
  by (auto simp: accept_tx_def simp del: rbind_Inr_iff elim!: rbindE split: option.split_asm)

lemma accept_tx_changes:
  assumes "accept_tx env cfg envelope worker_ob ob l = Inr (res, l')"
    and "dget ob ''kind'' = Some (VStr ''response_accepted'')"
  shows "changes sw l l'"
  using assms(1)
proof (rule accept_tx_append)
  fix eid intent
  assume "agent_append env cfg l eid intent ob = Inr (res, l')"
  then show ?thesis by (rule agent_append_changes) (simp add: assms(2))
qed

section \<open>Histories\<close>

text \<open>
  One call of either product. Time arguments are the database clock; \<open>OpSetAdmission\<close> is the
  operator's direct change of the protocol-state row (the only writer of \<open>admission_enabled\<close>
  outside the modules modelled here), \<open>OpDamage\<close> any loss of the schema or durability checks.
\<close>

datatype ledger_op =
    OpClaim claim_input val string
  | OpFinish db_fault json_obj json_obj "string option" int
  | OpStop db_fault bool json_obj json_obj string int
  | OpAppend db_fault string json_obj string
  | OpSweep db_fault int int
  | OpCreateRun db_fault string val val
  | OpRegister db_fault int val val
  | OpStopRun db_fault bool string val val string "(val \<times> json_obj) option" int
  | OpAccept db_fault json_obj json_obj string int string
  | OpSetAdmission bool string
  | OpDamage bool bool

definition ledger_step :: "proto_env \<Rightarrow> ledger_cfg \<Rightarrow> ledger_op \<Rightarrow> ledger \<Rightarrow> ledger" where
  "ledger_step env cfg op l =
     (case op of
        OpClaim inp v cur \<Rightarrow> snd (ledger_claim env cfg inp v cur l)
      | OpFinish fault envelope ob why now \<Rightarrow> snd (ledger_finish env cfg fault envelope ob why now l)
      | OpStop fault free envelope ob why now \<Rightarrow> snd (ledger_stop env cfg fault free envelope ob why now l)
      | OpAppend fault eid ob source \<Rightarrow> snd (ledger_append_op env cfg fault eid ob source l)
      | OpSweep fault now batch \<Rightarrow> snd (retention_sweep fault now batch l)
      | OpCreateRun fault run_id session owner \<Rightarrow> snd (create_run fault run_id session owner l)
      | OpRegister fault now v attempt \<Rightarrow> snd (register env cfg fault now v attempt l)
      | OpStopRun fault free run_id session owner why fact_o now \<Rightarrow>
          snd (stop_run env cfg fault free run_id session owner why fact_o now l)
      | OpAccept fault envelope worker_ob cur now oid \<Rightarrow>
          snd (accept env cfg fault envelope worker_ob cur now oid l)
      | OpSetAdmission on epoch \<Rightarrow> l\<lparr>admission_enabled := on, admission_epoch := epoch\<rparr>
      | OpDamage intact durable \<Rightarrow> l\<lparr>schema_intact := intact, settings_durable := durable\<rparr>)"

text \<open>The permit a step mints, if it is a claim that returns one.\<close>

definition minted :: "proto_env \<Rightarrow> ledger_cfg \<Rightarrow> ledger_op \<Rightarrow> ledger \<Rightarrow> dispatch_permit option" where
  "minted env cfg op l =
     (case op of
        OpClaim inp v cur \<Rightarrow>
          (case fst (ledger_claim env cfg inp v cur l) of Inl _ \<Rightarrow> None | Inr d \<Rightarrow> cd_permit d)
      | _ \<Rightarrow> None)"

fun permits :: "proto_env \<Rightarrow> ledger_cfg \<Rightarrow> ledger_op list \<Rightarrow> ledger \<Rightarrow> dispatch_permit list" where
  "permits env cfg [] l = []"
| "permits env cfg (op # ops) l =
     (case minted env cfg op l of None \<Rightarrow> [] | Some p \<Rightarrow> [p]) @ permits env cfg ops (ledger_step env cfg op l)"

definition is_sweep :: "ledger_op \<Rightarrow> bool" where
  "is_sweep op = (case op of OpSweep _ _ _ \<Rightarrow> True | _ \<Rightarrow> False)"

definition is_operator :: "ledger_op \<Rightarrow> bool" where
  "is_operator op = (case op of OpSetAdmission _ _ \<Rightarrow> True | OpDamage _ _ \<Rightarrow> True | _ \<Rightarrow> False)"

lemma accept_fact_kind:
  assumes "accept_fact env cfg envelope w cur now oid = Inr ob"
  shows "dget ob ''kind'' = Some (VStr ''response_accepted'')"
proof -
  from assms obtain att dig where
    "observation env envelope ''agent'' ''response_accepted'' att cur (cfg_key cfg) ''none'' now oid
       [(''receipt_digest'', dig)] = Inr ob"
    by (auto simp: accept_fact_def simp del: rbind_Inr_iff elim!: rbindE)
  from observation_fields(2) [OF this] show ?thesis by (simp add: base_keys_def)
qed

lemma ledger_step_changes:
  assumes "\<not> is_operator op"
  shows "changes (is_sweep op) l (ledger_step env cfg op l)"
proof (cases op)
  case (OpClaim inp v cur)
  then show ?thesis by (auto simp: ledger_step_def intro: ledger_claim_changes [of env cfg inp v cur] prod.collapse [symmetric])
next
  case (OpFinish fault envelope ob why now)
  have "changes (is_sweep op) l (snd (run_tx fault (finish_tx env cfg envelope ob why now) l))"
    by (rule run_tx_changes [OF prod.collapse [symmetric]]) (rule finish_tx_changes)
  with OpFinish show ?thesis by (simp add: ledger_step_def ledger_finish_def)
next
  case (OpStop fault free envelope ob why now)
  have "changes (is_sweep op) l (snd (run_tx fault (stop_tx env cfg free envelope ob why now) l))"
    by (rule run_tx_changes [OF prod.collapse [symmetric]]) (rule stop_tx_changes)
  with OpStop show ?thesis by (simp add: ledger_step_def ledger_stop_def)
next
  case (OpAppend fault eid ob source)
  have "changes (is_sweep op) l (snd (run_tx fault (append_tx env cfg eid ob) l))"
    by (rule run_tx_changes [OF prod.collapse [symmetric]]) (rule append_tx_changes)
  with OpAppend show ?thesis by (simp add: ledger_step_def ledger_append_op_def)
next
  case (OpSweep fault now batch)
  have "changes True l (snd (run_tx fault (sweep_tx now batch) l))"
    by (rule run_tx_changes [OF prod.collapse [symmetric]]) (rule sweep_tx_changes)
  with OpSweep show ?thesis by (simp add: ledger_step_def retention_sweep_def is_sweep_def)
next
  case (OpCreateRun fault run_id session owner)
  have "changes (is_sweep op) l (snd (agent_tx fault (create_tx run_id session owner) l))"
    by (rule agent_tx_changes [OF prod.collapse [symmetric]]) (rule create_tx_changes)
  with OpCreateRun show ?thesis by (simp add: ledger_step_def create_run_def)
next
  case (OpRegister fault now v attempt)
  have "changes (is_sweep op) l (snd (agent_tx fault (register_tx env cfg now envelope a) l))" for envelope a
    by (rule agent_tx_changes [OF prod.collapse [symmetric]]) (rule register_tx_changes)
  with OpRegister show ?thesis by (simp add: ledger_step_def register_def split: sum.split option.split)
next
  case (OpStopRun fault free run_id session owner why fact_o now)
  have st: "changes sw l (snd (agent_tx fault (agent_stop_tx env cfg free run_id session owner why f now) l))"
    if "\<And>envelope ob. f = Some (envelope, ob) \<Longrightarrow> get_none ob ''kind'' \<in> set (map VStr stop_kinds)" for f sw
    by (rule agent_tx_changes [OF prod.collapse [symmetric]])
      (rule agent_stop_tx_changes, assumption, rule that, assumption)
  show ?thesis using OpStopRun st [of None]
    by (auto simp: ledger_step_def stop_run_def intro!: st split: option.split sum.split)
next
  case (OpAccept fault envelope w cur now oid)
  have "changes (is_sweep op) l (snd (agent_tx fault (accept_tx env cfg envelope w ob) l))"
    if "accept_fact env cfg envelope w cur now oid = Inr ob" for ob
    by (rule agent_tx_changes [OF prod.collapse [symmetric]])
      (rule accept_tx_changes, assumption, rule accept_fact_kind [OF that])
  with OpAccept show ?thesis
    by (auto simp: ledger_step_def accept_def split: sum.split prod.split)
qed (use assms in \<open>simp_all add: is_operator_def\<close>)

end
