(* ===== verification/Ledger_Safety.thy ===== *)
theory Ledger_Safety
  imports Ledger_Machine
begin

text \<open>
  The ledger's invariant and what it gives for every history of the two products: one dispatch
  right per execution, permanent stops, bounded evidence, no permit on a stopped run.
\<close>

section \<open>The invariant\<close>

definition slots_of :: "ledger \<Rightarrow> string \<Rightarrow> string list" where
  "slots_of l eid = List.map_filter ob_slot (obs_of l eid)"

definition obs_budget :: "ledger \<Rightarrow> string \<Rightarrow> obs_state \<Rightarrow> bool" where
  "obs_budget l eid s \<longleftrightarrow>
     ordinary_count s = length (filter (\<lambda>r. ob_slot r = None) (obs_of l eid)) \<and> ordinary_count s \<le> 64
     \<and> distinct (slots_of l eid) \<and> set (slots_of l eid) \<subseteq> set SLOTS
     \<and> duplicate_count s \<le> COUNTER_MAX \<and> overflow_count s \<le> COUNTER_MAX"

definition inv_obs :: "ledger \<Rightarrow> bool" where
  "inv_obs l \<longleftrightarrow>
     dict_ok (obs_states l) \<and> distinct (map ob_id (observations l))
     \<and> (\<forall>r\<in>set (observations l). dhas (obs_states l) (ob_exec r))
     \<and> (\<forall>eid s. dget (obs_states l) eid = Some s \<longrightarrow> obs_budget l eid s)"

text \<open>One registration per confirmation and call.\<close>

definition calls_unique :: "(string, intent_row) dict \<Rightarrow> bool" where
  "calls_unique d \<longleftrightarrow>
     (\<forall>e i e' i'. dget d e = Some i \<and> dget d e' = Some i' \<and> in_confirm i = in_confirm i' \<and> in_call i = in_call i'
        \<longrightarrow> e = e')"

definition inv_keys :: "ledger \<Rightarrow> bool" where
  "inv_keys l \<longleftrightarrow>
     dict_ok (intents l) \<and> dict_ok (claims l)
     \<and> (\<forall>eid. dhas (obs_states l) eid = dhas (intents l) eid)
     \<and> (\<forall>eid c. dget (claims l) eid = Some c \<longrightarrow>
          (\<exists>i. dget (intents l) eid = Some i \<and> in_confirm i = cl_confirm c \<and> in_call i = cl_call c
               \<and> in_digest i = cl_digest c))
     \<and> calls_unique (intents l)"

definition stop_consistent :: "run_row \<Rightarrow> bool" where
  "stop_consistent r \<longleftrightarrow> (run_stopped_at r = None \<longleftrightarrow> run_stop_reason r = None)"

definition inv_runs :: "ledger \<Rightarrow> bool" where
  "inv_runs l \<longleftrightarrow>
     dict_ok (runs l)
     \<and> (\<forall>r row. dget (runs l) r = Some row \<longrightarrow> stop_consistent row)
     \<and> (\<forall>e i. dget (intents l) e = Some i \<longrightarrow> dhas (runs l) (in_run i) \<and> in_seq i < next_seq l)"

definition ledger_inv :: "ledger \<Rightarrow> bool" where
  "ledger_inv l \<longleftrightarrow> inv_obs l \<and> inv_keys l \<and> inv_runs l"

definition empty_ledger :: "string \<Rightarrow> ledger" where
  "empty_ledger epoch =
     \<lparr>schema_version = 2, admission_epoch = epoch, admission_enabled = False, schema_intact = True,
      settings_durable = True, runs = [], intents = [], claims = [], obs_states = [], observations = [],
      next_seq = 0\<rparr>"

lemma empty_ledger_inv: "ledger_inv (empty_ledger epoch)"
  by (simp add: ledger_inv_def inv_obs_def inv_keys_def inv_runs_def empty_ledger_def dhas_def calls_unique_def)

section \<open>Frames\<close>

lemma upd_obs_state_frame [simp]:
  "claims (upd_obs_state eid f l) = claims l" "intents (upd_obs_state eid f l) = intents l"
  "runs (upd_obs_state eid f l) = runs l" "observations (upd_obs_state eid f l) = observations l"
  "next_seq (upd_obs_state eid f l) = next_seq l" "obs_of (upd_obs_state eid f l) e = obs_of l e"
  "slots_of (upd_obs_state eid f l) e = slots_of l e"
  "dhas (obs_states (upd_obs_state eid f l)) e = dhas (obs_states l) e"
  by (auto simp: upd_obs_state_def obs_of_def slots_of_def dhas_dget split: option.splits)

lemma upd_obs_state_get:
  "dget (obs_states (upd_obs_state eid f l)) e = (if e = eid then map_option f (dget (obs_states l) e) else dget (obs_states l) e)"
  by (auto simp: upd_obs_state_def split: option.splits)

lemma upd_obs_state_dict_ok: "dict_ok (obs_states l) \<Longrightarrow> dict_ok (obs_states (upd_obs_state eid f l))"
  by (auto simp: upd_obs_state_def split: option.splits)

lemma insert_obs_frame [simp]:
  "claims (insert_obs r l) = claims l" "intents (insert_obs r l) = intents l" "runs (insert_obs r l) = runs l"
  "next_seq (insert_obs r l) = next_seq l" "obs_states (insert_obs r l) = obs_states l"
  "observations (insert_obs r l) = observations l @ [r]"
  by (simp_all add: insert_obs_def)

lemma place_frame:
  assumes "l' = snd (place eid n slot oid source kind ob digest l)"
  shows "claims l' = claims l" "intents l' = intents l" "runs l' = runs l" "next_seq l' = next_seq l"
    "dhas (obs_states l') e = dhas (obs_states l) e"
  by (simp_all add: assms place_def Let_def count_overflow_def count_ordinary_def)

lemma stop_row_frame:
  assumes "stop_row run_id why now l = Inr l'"
  shows "claims l' = claims l" "intents l' = intents l" "obs_states l' = obs_states l"
    "observations l' = observations l" "next_seq l' = next_seq l"
  using assms by (auto simp: stop_row_def split: option.splits if_splits)

lemma insert_claim_frame:
  assumes "insert_claim eid i c l = Inr (Some l')"
  shows "intents l' = intents l" "runs l' = runs l" "obs_states l' = obs_states l"
    "observations l' = observations l" "next_seq l' = next_seq l" "claims l' = dset eid c (claims l)"
    "\<not> dhas (claims l) eid"
    "in_confirm i = cl_confirm c" "in_call i = cl_call c" "in_digest i = cl_digest c"
  using assms by (auto simp: insert_claim_def split: if_splits)

lemma sweep_tx_cases:
  assumes "sweep_tx now batch l = Inr (counts, l')"
  obtains "l' = l"
  | el where "el = sweep_eligible now (nat batch) l"
      and "l' = l\<lparr>observations := filter (\<lambda>r. ob_exec r \<notin> set el) (observations l),
                  obs_states := dpops el (obs_states l), claims := dpops el (claims l),
                  intents := dpops el (intents l)\<rparr>"
  using assms by (auto simp: sweep_tx_def Let_def split: if_split_asm)

section \<open>Every row change keeps the invariant\<close>

lemma obs_budget_upd:
  assumes "\<And>s. ordinary_count (f s) = ordinary_count s" and "\<And>s. duplicate_count s \<le> COUNTER_MAX \<Longrightarrow> duplicate_count (f s) \<le> COUNTER_MAX"
    and "\<And>s. overflow_count s \<le> COUNTER_MAX \<Longrightarrow> overflow_count (f s) \<le> COUNTER_MAX"
    and "inv_obs l"
  shows "inv_obs (upd_obs_state eid f l)"
proof -
  have "obs_budget (upd_obs_state eid f l) e (f s)" "obs_budget (upd_obs_state eid f l) e s"
    if "obs_budget l e s" for e s
    using that assms(1-3) by (simp_all add: obs_budget_def)
  with assms(4) show ?thesis
    by (auto simp: inv_obs_def upd_obs_state_get upd_obs_state_dict_ok split: if_splits)
qed

lemma obs_of_insert: "obs_of (insert_obs r l) e = obs_of l e @ (if ob_exec r = e then [r] else [])"
  by (simp add: obs_of_def)

lemma slots_of_insert:
  "slots_of (insert_obs r l) e = slots_of l e @ (if ob_exec r = e then (case ob_slot r of None \<Rightarrow> [] | Some s \<Rightarrow> [s]) else [])"
  by (auto simp: slots_of_def obs_of_insert List.map_filter_def split: option.splits)

lemma slot_taken_iff: "slot_taken l eid s \<longleftrightarrow> s \<in> set (slots_of l eid)"
  by (force simp: slot_taken_def slots_of_def obs_of_def List.map_filter_def list_ex_iff)

lemma obs_budget_cong:
  "obs_of l' e = obs_of l e \<Longrightarrow> obs_budget l' e s = obs_budget l e s"
  by (simp add: obs_budget_def slots_of_def)

lemma inv_obs_insert:
  assumes inv: "inv_obs l" and s: "dget (obs_states l) eid = Some s" and oid: "find_obs l oid = None"
    and slot: "slot = None \<longrightarrow> ordinary_count s < 64"
      "\<And>x. slot = Some x \<Longrightarrow> x \<notin> set (slots_of l eid) \<and> x \<in> set SLOTS"
    and r: "ob_id r = oid" "ob_exec r = eid" "ob_slot r = slot"
  shows "inv_obs (if slot = None then count_ordinary eid (insert_obs r l) else insert_obs r l)"
proof -
  let ?l = "insert_obs r l"
  have ids: "distinct (map ob_id (observations ?l))"
    using inv oid r by (auto simp: inv_obs_def find_obs_def find_None_iff)
  have ex: "\<forall>x\<in>set (observations ?l). dhas (obs_states l) (ob_exec x)"
    using inv s r by (auto simp: inv_obs_def dhas_dget)
  have old: "obs_budget l eid s" using inv s by (simp add: inv_obs_def)
  have other: "obs_budget ?l e s'" if "dget (obs_states l) e = Some s'" "e \<noteq> eid" for e s'
  proof -
    have "obs_budget l e s'" using inv that(1) by (simp add: inv_obs_def)
    then show ?thesis using obs_budget_cong [of ?l e l] that(2) r by (simp add: obs_of_insert)
  qed
  show ?thesis
  proof (cases slot)
    case None
    have "obs_budget (count_ordinary eid ?l) eid (s\<lparr>ordinary_count := ordinary_count s + 1\<rparr>)"
      using old slot(1) None r
      by (simp add: obs_budget_def obs_of_insert slots_of_insert count_ordinary_def)
    moreover have "obs_budget (count_ordinary eid ?l) e s'" if "dget (obs_states l) e = Some s'" "e \<noteq> eid" for e s'
      using obs_budget_cong [of "count_ordinary eid ?l" e ?l] other [OF that] by (simp add: count_ordinary_def)
    ultimately show ?thesis
      using None inv s ids ex
      by (auto simp: inv_obs_def count_ordinary_def upd_obs_state_get upd_obs_state_dict_ok split: if_splits)
  next
    case (Some x)
    have "obs_budget ?l eid s"
      using old slot(2) [OF Some] Some r by (simp add: obs_budget_def obs_of_insert slots_of_insert)
    then show ?thesis
      using Some inv s ids ex other by (auto simp: inv_obs_def) (metis option.inject)
  qed
qed

lemma inv_obs_place:
  assumes inv: "inv_obs l" and s: "dget (obs_states l) eid = Some s" and oid: "find_obs l oid = None"
    and slot: "set_option slot \<subseteq> set SLOTS"
  shows "inv_obs (snd (place eid (ordinary_count s) slot oid source kind ob digest l))"
proof -
  define slot' where "slot' = (case slot of None \<Rightarrow> None | Some x \<Rightarrow> if slot_taken l eid x then None else Some x)"
  show ?thesis
  proof (cases "slot' = None \<and> 64 \<le> ordinary_count s")
    case True
    then have "snd (place eid (ordinary_count s) slot oid source kind ob digest l) = count_overflow eid l"
      by (simp add: place_def Let_def slot'_def)
    moreover have "inv_obs (count_overflow eid l)"
      unfolding count_overflow_def by (rule obs_budget_upd [OF _ _ _ inv]) simp_all
    ultimately show ?thesis by simp
  next
    case False
    let ?r = "\<lparr>ob_id = oid, ob_exec = eid, ob_source = source, ob_kind = kind, ob_slot = slot',
      ob_payload = ob, ob_digest = digest\<rparr>"
    have "x \<notin> set (slots_of l eid) \<and> x \<in> set SLOTS" if "slot' = Some x" for x
      using that slot by (auto simp: slot'_def slot_taken_iff split: option.splits if_splits)
    moreover have "slot' = None \<longrightarrow> ordinary_count s < 64" using False by auto
    ultimately have "inv_obs (if slot' = None then count_ordinary eid (insert_obs ?r l) else insert_obs ?r l)"
      by (intro inv_obs_insert [OF inv s oid]) simp_all
    moreover from False have "snd (place eid (ordinary_count s) slot oid source kind ob digest l)
        = (if slot' = None then count_ordinary eid (insert_obs ?r l) else insert_obs ?r l)"
      unfolding place_def slot'_def [symmetric] by (auto simp: Let_def)
    ultimately show ?thesis by simp
  qed
qed

lemma inv_obs_cong:
  assumes "obs_states l' = obs_states l" and "observations l' = observations l" and "inv_obs l"
  shows "inv_obs l'"
proof -
  have "obs_of l' e = obs_of l e" for e using assms(2) by (simp add: obs_of_def)
  then have "obs_budget l' e s = obs_budget l e s" for e s by (rule obs_budget_cong)
  with assms show ?thesis by (simp add: inv_obs_def)
qed

lemma inv_obs_intent:
  assumes "inv_obs l" and "\<not> dhas (obs_states l) eid"
  shows "inv_obs (l\<lparr>intents := ins, obs_states := dset eid initial_obs_state (obs_states l), next_seq := n\<rparr>)"
    (is "inv_obs ?l")
proof -
  have none: "obs_of l eid = []"
    using assms by (auto simp: inv_obs_def obs_of_def filter_empty_conv)
  have of: "obs_of ?l e = obs_of l e" for e by (simp add: obs_of_def)
  have "obs_budget ?l eid initial_obs_state"
    unfolding obs_budget_def slots_of_def of none by (simp add: initial_obs_state_def List.map_filter_def)
  moreover have "obs_budget ?l e s" if "dget (obs_states l) e = Some s" for e s
    using assms(1) that by (simp add: inv_obs_def obs_budget_cong [OF of])
  ultimately show ?thesis using assms(1) by (auto simp: inv_obs_def dhas_dget)
qed

lemma inv_obs_sweep:
  assumes "inv_obs l"
  shows "inv_obs (l\<lparr>observations := filter (\<lambda>r. ob_exec r \<notin> set el) (observations l),
           obs_states := dpops el (obs_states l), claims := cs, intents := ins\<rparr>)" (is "inv_obs ?l")
proof -
  have of: "obs_of ?l e = obs_of l e" if "e \<notin> set el" for e
    using that by (auto simp: obs_of_def intro!: filter_cong)
  have "obs_budget ?l e s" if "dget (obs_states l) e = Some s" "e \<notin> set el" for e s
    using assms that by (simp add: inv_obs_def obs_budget_cong [OF of])
  then show ?thesis
    using assms by (auto simp: inv_obs_def dhas_dget intro!: distinct_map_filter split: if_splits)
qed

lemma inv_obs_change:
  assumes "row_change sw l l'" and "inv_obs l" and "inv_keys l"
  shows "inv_obs l'"
  using assms
proof (induction rule: row_change.induct)
  case (rc_conflict l eid digest)
  then show ?case unfolding mark_conflict_def by (intro obs_budget_upd) simp_all
next
  case (rc_duplicate l eid)
  then show ?case unfolding count_duplicate_def by (intro obs_budget_upd) simp_all
next
  case (rc_fact l eid s oid slot kind source ob digest)
  then show ?case by (intro inv_obs_place)
next
  case (rc_stop run_id why now l l')
  show ?case
    by (rule inv_obs_cong [OF _ _ rc_stop.prems(1)]) (simp_all add: stop_row_frame [OF rc_stop(1)])
next
  case (rc_run l run_id r)
  show ?case by (rule inv_obs_cong [OF _ _ rc_run.prems(1)]) simp_all
next
  case (rc_intent l eid i)
  then have "\<not> dhas (obs_states l) eid" by (simp add: inv_keys_def)
  with rc_intent show ?case by (intro inv_obs_intent)
next
  case (rc_claim l eid i c l')
  show ?case
    by (rule inv_obs_cong [OF _ _ rc_claim.prems(1)]) (simp_all add: insert_claim_frame [OF rc_claim(2)])
next
  case (rc_sweep now batch l counts l')
  from rc_sweep(2) show ?case
  proof (cases rule: sweep_tx_cases)
    case 1
    with rc_sweep show ?thesis by simp
  next
    case (2 el)
    with rc_sweep show ?thesis using inv_obs_sweep by simp
  qed
qed

lemma inv_keys_cong:
  "intents l' = intents l \<Longrightarrow> claims l' = claims l \<Longrightarrow> (\<And>e. dhas (obs_states l') e = dhas (obs_states l) e) \<Longrightarrow>
   inv_keys l \<Longrightarrow> inv_keys l'"
  by (simp add: inv_keys_def)

lemma calls_uniqueI:
  "(\<And>e i e' i'. dget d e = Some i \<Longrightarrow> dget d e' = Some i' \<Longrightarrow> in_confirm i = in_confirm i' \<Longrightarrow>
      in_call i = in_call i' \<Longrightarrow> e = e') \<Longrightarrow> calls_unique d"
  unfolding calls_unique_def by blast

lemma calls_uniqueD:
  "calls_unique d \<Longrightarrow> dget d e = Some i \<Longrightarrow> dget d e' = Some i' \<Longrightarrow> in_confirm i = in_confirm i' \<Longrightarrow>
   in_call i = in_call i' \<Longrightarrow> e = e'"
  unfolding calls_unique_def by blast

lemma calls_unique_pops:
  assumes "calls_unique d"
  shows "calls_unique (dpops el d)"
proof (rule calls_uniqueI)
  fix e i e' i'
  assume "dget (dpops el d) e = Some i" "dget (dpops el d) e' = Some i'"
  then have "dget d e = Some i" "dget d e' = Some i'" by (simp_all split: if_splits)
  moreover assume "in_confirm i = in_confirm i'" "in_call i = in_call i'"
  ultimately show "e = e'" by (rule calls_uniqueD [OF assms])
qed

lemma calls_unique_set:
  assumes "calls_unique d" and new: "\<And>e j. dget d e = Some j \<Longrightarrow> in_confirm j = in_confirm i \<Longrightarrow> in_call j \<noteq> in_call i"
  shows "calls_unique (dset eid i d)"
proof (rule calls_uniqueI)
  fix e j e' j'
  assume a: "dget (dset eid i d) e = Some j" "dget (dset eid i d) e' = Some j'"
    and b: "in_confirm j = in_confirm j'" "in_call j = in_call j'"
  show "e = e'"
  proof (cases "e = eid \<or> e' = eid")
    case True
    with a b new [of e j] new [of e' j'] show ?thesis by (auto split: if_splits)
  next
    case False
    with a have "dget d e = Some j" "dget d e' = Some j'" by simp_all
    then show ?thesis using b by (rule calls_uniqueD [OF assms(1)])
  qed
qed

lemma inv_keys_intent:
  assumes "inv_keys l" and "\<not> dhas (intents l) eid"
    and "\<not> list_ex (\<lambda>(_, j). in_confirm j = in_confirm i \<and> in_call j = in_call i) (intents l)"
  shows "inv_keys (l\<lparr>intents := dset eid i (intents l), obs_states := dset eid initial_obs_state (obs_states l),
           next_seq := n\<rparr>)"
proof -
  have "\<not> (in_confirm j = in_confirm i \<and> in_call j = in_call i)" if "dget (intents l) e = Some j" for e j
    using assms(3) dget_in [OF that] by (auto simp: list_ex_iff)
  then have u: "in_call j \<noteq> in_call i" if "dget (intents l) e = Some j" "in_confirm j = in_confirm i" for e j
    using that by blast
  have cl: "\<exists>j. dget (dset eid i (intents l)) e = Some j \<and> in_confirm j = cl_confirm c \<and> in_call j = cl_call c
      \<and> in_digest j = cl_digest c" if c: "dget (claims l) e = Some c" for e c
  proof -
    from assms(1) c obtain j where "dget (intents l) e = Some j" "in_confirm j = cl_confirm c"
      "in_call j = cl_call c" "in_digest j = cl_digest c" unfolding inv_keys_def by blast
    with assms(2) show ?thesis by (auto simp: dhas_dget)
  qed
  have k: "dhas (dset eid initial_obs_state (obs_states l)) e = dhas (dset eid i (intents l)) e" for e
    using assms(1) by (auto simp: inv_keys_def dhas_def)
  have "calls_unique (dset eid i (intents l))"
    using assms(1) u by (intro calls_unique_set) (auto simp: inv_keys_def)
  moreover have "dict_ok (intents l)" "dict_ok (claims l)" using assms(1) by (simp_all add: inv_keys_def)
  ultimately show ?thesis using cl k by (simp add: inv_keys_def)
qed

lemma inv_keys_change:
  assumes "row_change sw l l'" and "inv_keys l"
  shows "inv_keys l'"
  using assms
proof (induction rule: row_change.induct)
  case (rc_fact l eid s oid slot kind source ob digest)
  show ?case by (rule inv_keys_cong [OF _ _ _ rc_fact.prems]) (simp_all add: place_frame [OF refl])
next
  case (rc_stop run_id why now l l')
  show ?case by (rule inv_keys_cong [OF _ _ _ rc_stop.prems]) (simp_all add: stop_row_frame [OF rc_stop(1)])
next
  case (rc_intent l eid i)
  then show ?case by (intro inv_keys_intent)
next
  case (rc_claim l eid i c l')
  note f = insert_claim_frame [OF rc_claim(2)]
  show ?case using rc_claim(1,3) f by (auto simp: inv_keys_def)
next
  case (rc_sweep now batch l counts l')
  from rc_sweep(2) show ?case
  proof (cases rule: sweep_tx_cases)
    case 1
    with rc_sweep show ?thesis by simp
  next
    case (2 el)
    have "inv_keys (l\<lparr>observations := os, obs_states := dpops el (obs_states l), claims := dpops el (claims l),
        intents := dpops el (intents l)\<rparr>)" for os
      using rc_sweep.prems calls_unique_pops by (auto simp: inv_keys_def dhas_dget split: if_splits)
    with 2 show ?thesis by simp
  qed
qed (auto simp: inv_keys_def mark_conflict_def count_duplicate_def)

lemma inv_runs_stop:
  assumes "inv_runs l" and "stop_row run_id why now l = Inr l'"
  shows "inv_runs l'"
proof -
  from assms(2) consider "l' = l"
    | r where "dget (runs l) run_id = Some r"
      "l' = l\<lparr>runs := dset run_id (r\<lparr>run_stopped_at := Some now, run_stop_reason := Some why\<rparr>) (runs l)\<rparr>"
    by (auto simp: stop_row_def split: option.split_asm if_split_asm)
  then show ?thesis
  proof cases
    case 2
    with assms(1) show ?thesis by (simp add: inv_runs_def dhas_dset stop_consistent_def)
  qed (use assms in simp)
qed

lemma inv_runs_change:
  assumes "row_change sw l l'" and "inv_runs l"
  shows "inv_runs l'"
  using assms
proof (induction rule: row_change.induct)
  case (rc_fact l eid s oid slot kind source ob digest)
  then show ?case by (simp add: inv_runs_def place_frame [OF refl])
next
  case (rc_stop run_id why now l l')
  then show ?case using inv_runs_stop by blast
next
  case (rc_run l run_id r)
  have "stop_consistent r" using rc_run(2,3) by (simp add: stop_consistent_def)
  with rc_run.prems show ?case unfolding inv_runs_def by (auto simp: dhas_dset split: if_splits)
next
  case (rc_intent l eid i)
  have "in_seq j < Suc (next_seq l) \<and> dhas (runs l) (in_run j)" if "dget (intents l) e = Some j" for e j
  proof -
    from rc_intent.prems that have "dhas (runs l) (in_run j) \<and> in_seq j < next_seq l" by (simp add: inv_runs_def)
    then show ?thesis by simp
  qed
  with rc_intent show ?case by (auto simp: inv_runs_def)
next
  case (rc_claim l eid i c l')
  then show ?case by (simp add: inv_runs_def insert_claim_frame [OF rc_claim(2)])
next
  case (rc_sweep now batch l counts l')
  from rc_sweep(2) show ?case
  proof (cases rule: sweep_tx_cases)
    case 1
    with rc_sweep show ?thesis by simp
  next
    case (2 el)
    have "inv_runs (l\<lparr>observations := os, obs_states := ss, claims := cs, intents := dpops el (intents l)\<rparr>)" for os ss cs
      using rc_sweep.prems by (auto simp: inv_runs_def dhas_dget split: if_splits)
    with 2 show ?thesis by simp
  qed
qed (simp_all add: inv_runs_def mark_conflict_def count_duplicate_def)

lemma ledger_inv_change [inv_intros]: "row_change sw l l' \<Longrightarrow> ledger_inv l \<Longrightarrow> ledger_inv l'"
  by (simp add: ledger_inv_def inv_obs_change inv_keys_change inv_runs_change)

lemma ledger_inv_changes [inv_intros]: "changes sw l l' \<Longrightarrow> ledger_inv l \<Longrightarrow> ledger_inv l'"
  by (induction rule: rtranclp_induct) (auto intro: ledger_inv_change)

lemma operator_step:
  assumes "is_operator op"
  shows "ledger_inv (ledger_step env cfg op l) = ledger_inv l"
    "runs (ledger_step env cfg op l) = runs l" "claims (ledger_step env cfg op l) = claims l"
    "intents (ledger_step env cfg op l) = intents l" "obs_states (ledger_step env cfg op l) = obs_states l"
    "observations (ledger_step env cfg op l) = observations l"
  using assms
  by (auto simp: is_operator_def ledger_step_def ledger_inv_def inv_obs_def inv_keys_def inv_runs_def
      obs_budget_def slots_of_def obs_of_def split: ledger_op.splits)

lemma ledger_step_inv [inv_intros]: "ledger_inv l \<Longrightarrow> ledger_inv (ledger_step env cfg op l)"
  using operator_step(1) [of op] ledger_step_changes [of op l env cfg] ledger_inv_changes by blast

section \<open>Stops are permanent\<close>

text \<open>The recorded stop of a run.\<close>

definition run_stop :: "ledger \<Rightarrow> string \<Rightarrow> (int \<times> string) option" where
  "run_stop l run_id =
     (case dget (runs l) run_id of
        None \<Rightarrow> None
      | Some r \<Rightarrow> (case (run_stopped_at r, run_stop_reason r) of (Some t, Some why) \<Rightarrow> Some (t, why) | _ \<Rightarrow> None))"

lemma run_stop_change:
  assumes "row_change sw l l'" and "run_stop l run_id = Some v"
  shows "run_stop l' run_id = Some v"
  using assms
proof (induction rule: row_change.induct)
  case (rc_fact l eid s oid slot kind source ob digest)
  then show ?case by (simp add: run_stop_def place_frame [OF refl])
next
  case (rc_stop rid why now l l')
  then show ?case by (auto simp: stop_row_def run_stop_def split: option.splits if_splits)
next
  case (rc_run l rid r)
  then show ?case by (auto simp: run_stop_def dhas_dget split: option.splits)
next
  case (rc_claim l eid i c l')
  then show ?case by (simp add: run_stop_def insert_claim_frame [OF rc_claim(2)])
next
  case (rc_sweep now batch l counts l')
  from rc_sweep(2) show ?case
    by (cases rule: sweep_tx_cases) (use rc_sweep.prems in \<open>simp_all add: run_stop_def\<close>)
qed (simp_all add: run_stop_def mark_conflict_def count_duplicate_def)

lemma run_stop_changes: "changes sw l l' \<Longrightarrow> run_stop l r = Some v \<Longrightarrow> run_stop l' r = Some v"
  by (induction rule: rtranclp_induct) (auto intro: run_stop_change)

lemma run_stop_step: "run_stop l r = Some v \<Longrightarrow> run_stop (ledger_step env cfg op l) r = Some v"
proof (cases "is_operator op")
  case True
  then show "run_stop l r = Some v \<Longrightarrow> ?thesis" by (simp add: run_stop_def operator_step)
next
  case False
  from ledger_step_changes [OF this] show "run_stop l r = Some v \<Longrightarrow> ?thesis" by (rule run_stop_changes)
qed

interpretation lg: settled_once "ledger_step env cfg" ledger_inv run_stop for env cfg
  by unfold_locales (auto intro: ledger_step_inv run_stop_step)

section \<open>Minting the dispatch right\<close>

lemma ledger_append_frame:
  assumes "ledger_append env cfg l intent ob = Inr (res, l')"
  shows "claims l' = claims l" "intents l' = intents l" "runs l' = runs l"
proof -
  have "claims l' = claims l \<and> intents l' = intents l \<and> runs l' = runs l"
    using assms
  proof (cases rule: ledger_append_cases)
    case (replay eid old)
    then show ?thesis
      by (auto simp: replay_obs_def count_duplicate_def mark_conflict_def split: if_splits)
  next
    case (fresh eid oid kind source s l1 slot)
    have l1: "claims l1 = claims l \<and> intents l1 = intents l \<and> runs l1 = runs l"
      using result_slot_cases [OF fresh(7)] by auto
    have "l' = snd (place eid (ordinary_count s) slot oid source kind ob (canonical_digest (cr env) (VDict ob)) l1)"
      using fresh(9) by simp
    from place_frame [OF this] l1 show ?thesis by simp
  qed
  then show "claims l' = claims l" "intents l' = intents l" "runs l' = runs l" by simp_all
qed

lemma mint_claim_permit:
  assumes "mint_claim env cfg l inp eid run_id intent envelope cur = Inr (d, l', k)" and "cd_permit d = Some p"
  shows "k = ClaimCommit \<and> pm_execution p = eid \<and> pm_run p = run_id \<and> pm_owner p = ci_owner inp
    \<and> pm_digest p = canonical_digest (cr env) (VDict envelope) \<and> \<not> pm_used p \<and> \<not> dhas (claims l) eid
    \<and> (\<exists>c. dget (claims l') eid = Some c \<and> cl_owner c = ci_owner inp \<and> cl_digest c = in_digest intent
           \<and> cl_claimed_at c = ci_now inp \<and> cl_observe_by c = ci_now inp + 120000000)"
proof -
  from assms obtain c l1 ob where ins: "insert_claim eid intent c l = Inr (Some l1)"
    and c: "cl_owner c = ci_owner inp" "cl_digest c = in_digest intent" "cl_claimed_at c = ci_now inp"
      "cl_observe_by c = ci_now inp + seconds OBSERVE_SECONDS"
    and app: "ledger_append env cfg l1 intent ob = Inr (Inserted, l')"
    and k: "k = ClaimCommit" "pm_execution p = eid \<and> pm_run p = run_id \<and> pm_owner p = ci_owner inp
      \<and> pm_digest p = canonical_digest (cr env) (VDict envelope) \<and> \<not> pm_used p"
    by (auto simp: mint_claim_def Let_def refuse_def simp del: rbind_Inr_iff elim!: rbindE
        split: option.split_asm if_split_asm)
  from insert_claim_frame(6,7) [OF ins] ledger_append_frame(1) [OF app] c k show ?thesis
    by (auto simp: seconds_def OBSERVE_SECONDS_def)
qed

lemma admit_None:
  assumes "admit env cfg l run intent envelope now = Inr None"
  shows "cfg_enabled cfg \<and> admission_enabled l \<and> dget envelope ''admission_epoch'' = Some (VStr (cfg_epoch cfg))
    \<and> admission_epoch l = cfg_epoch cfg \<and> run_stopped_at run = None \<and> \<not> predecessor l intent
    \<and> (\<exists>requested expires. time_of env envelope ''requested_at'' = Some requested
         \<and> time_of env envelope ''expires_at'' = Some expires \<and> requested \<le> now \<and> now < expires)"
  using assms
  by (auto simp: admit_def time_of_Some simp del: rbind_Inr_iff elim!: rbindE split: if_split_asm)

lemma claim_body_permit:
  assumes "claim_body env cfg l inp envelope cur = Inr (d, l', k)" and "cd_permit d = Some p"
  obtains intent run where "verify_schema l = Inr ()"
    and "dget envelope ''execution_id'' = Some (VStr (pm_execution p))"
    and "dget envelope ''run_id'' = Some (VStr (pm_run p))"
    and "dget (intents l) (pm_execution p) = Some intent" and "dget (runs l) (pm_run p) = Some run"
    and "in_digest intent = canonical_digest (cr env) (VDict envelope)"
    and "dget envelope ''owner_user_id'' = Some (VStr (run_owner run))"
    and "dget envelope ''session_id'' = Some (VStr (run_session run))"
    and "admit env cfg l run intent envelope (ci_now inp) = Inr None"
    and "mint_claim env cfg l inp (pm_execution p) (pm_run p) intent envelope cur = Inr (d, l', k)"
proof -
  have np: "cd_permit (refuse w) \<noteq> Some p" for w by (simp add: refuse_def)
  from assms obtain run_id eid intent run where "verify_schema l = Inr ()"
    and e: "dget envelope ''execution_id'' = Some (VStr eid)" "dget envelope ''run_id'' = Some (VStr run_id)"
    "dget (intents l) eid = Some intent" "dget (runs l) run_id = Some run"
    "in_digest intent = canonical_digest (cr env) (VDict envelope)"
    "dget envelope ''owner_user_id'' = Some (VStr (run_owner run))"
    "dget envelope ''session_id'' = Some (VStr (run_session run))"
    "admit env cfg l run intent envelope (ci_now inp) = Inr None"
    and m: "mint_claim env cfg l inp eid run_id intent envelope cur = Inr (d, l', k)"
    by (auto simp: claim_body_def replay_claim_def np simp del: rbind_Inr_iff elim!: rbindE
        split: option.split_asm if_split_asm)
  moreover from mint_claim_permit [OF m assms(2)] have "pm_execution p = eid" "pm_run p = run_id" by simp_all
  ultimately show ?thesis using that by blast
qed

lemma ledger_claim_permit:
  assumes "ledger_claim env cfg inp v cur l = (Inr d, l')" and "cd_permit d = Some p"
  obtains envelope where "validate_request env v (cfg_key cfg) = Inr envelope"
    and "claim_body env cfg l inp envelope cur = Inr (d, l', ClaimCommit)" and "ci_fault inp = NoFault"
proof -
  have np: "cd_permit (refuse w) \<noteq> Some p" for w by (simp add: refuse_def)
  from assms np obtain envelope d' l1 k where v: "validate_request env v (cfg_key cfg) = Inr envelope"
    and b: "claim_body env cfg l inp envelope cur = Inr (d', l1, k)" and f: "ci_fault inp \<noteq> StatementFault"
    and r: "(case (k, ci_fault inp) of
                       (NoCommit, _) \<Rightarrow> (Inr d', l)
                     | (ReplayCommit, CommitFault applied) \<Rightarrow>
                         (Inr (refuse ''store_unavailable''), if applied then l1 else l)
                     | (ClaimCommit, CommitFault applied) \<Rightarrow>
                         (Inr (refuse ''claim_commit_unconfirmed''), if applied then l1 else l)
                     | _ \<Rightarrow> (Inr d', l1)) = (Inr d :: exc + claim_decision, l')"
    by (auto simp: ledger_claim_def split: sum.split_asm exc.split_asm if_split_asm)
  from r np assms(2) have d: "d' = d" by (auto split: commit_kind.split_asm db_fault.split_asm)
  obtain intent where "mint_claim env cfg l inp (pm_execution p) (pm_run p) intent envelope cur = Inr (d, l1, k)"
    using claim_body_permit [of env cfg l inp envelope cur d l1 k p] b d assms(2) by blast
  then have "k = ClaimCommit" using mint_claim_permit assms(2) by blast
  with r np assms(2) f have "ci_fault inp = NoFault \<and> l1 = l'" by (auto split: db_fault.split_asm)
  with v b d \<open>k = ClaimCommit\<close> show ?thesis using that by blast
qed

text \<open>
  C11. A dispatch right is minted only on complete authority: a claim returns a permit only for
  a validated request whose exact digest is registered, on a live run of the same owner and
  session, with admission enabled in configuration and catalog under the same epoch, with every
  earlier registration of the run resolved, within the signed lifetime by the database clock,
  and for an execution that had no claim; the claim row is then in the committed ledger.
\<close>

theorem claim_mints_only_when_admissible:
  assumes "ledger_claim env cfg inp v cur l = (Inr d, l')" and "cd_permit d = Some p"
  shows "\<exists>envelope intent run requested expires c.
    validate_request env v (cfg_key cfg) = Inr envelope
    \<and> dget (intents l) (pm_execution p) = Some intent
    \<and> in_digest intent = canonical_digest (cr env) (VDict envelope) \<and> pm_digest p = in_digest intent
    \<and> dget (runs l) (pm_run p) = Some run \<and> run_stopped_at run = None
    \<and> dget envelope ''owner_user_id'' = Some (VStr (run_owner run))
    \<and> dget envelope ''session_id'' = Some (VStr (run_session run))
    \<and> cfg_enabled cfg \<and> admission_enabled l \<and> admission_epoch l = cfg_epoch cfg
    \<and> dget envelope ''admission_epoch'' = Some (VStr (cfg_epoch cfg))
    \<and> \<not> predecessor l intent
    \<and> time_of env envelope ''requested_at'' = Some requested \<and> requested \<le> ci_now inp
    \<and> time_of env envelope ''expires_at'' = Some expires \<and> ci_now inp < expires
    \<and> \<not> dhas (claims l) (pm_execution p)
    \<and> dget (claims l') (pm_execution p) = Some c \<and> cl_owner c = pm_owner p
    \<and> cl_observe_by c = ci_now inp + 120000000"
proof -
  from assms obtain envelope where v: "validate_request env v (cfg_key cfg) = Inr envelope"
    and b: "claim_body env cfg l inp envelope cur = Inr (d, l', ClaimCommit)" by (rule ledger_claim_permit)
  from b assms(2) obtain intent run where i: "dget (intents l) (pm_execution p) = Some intent"
    "dget (runs l) (pm_run p) = Some run" "in_digest intent = canonical_digest (cr env) (VDict envelope)"
    "dget envelope ''owner_user_id'' = Some (VStr (run_owner run))"
    "dget envelope ''session_id'' = Some (VStr (run_session run))"
    and a: "admit env cfg l run intent envelope (ci_now inp) = Inr None"
    and m: "mint_claim env cfg l inp (pm_execution p) (pm_run p) intent envelope cur = Inr (d, l', ClaimCommit)"
    by (rule claim_body_permit)
  from v i mint_claim_permit [OF m assms(2)] admit_None [OF a] show ?thesis by auto
qed

section \<open>One dispatch right per execution\<close>

lemma claim_kept_change:
  assumes "row_change False l l'" and "dget (claims l) eid = Some c"
  shows "dget (claims l') eid = Some c"
  using assms
proof (induction rule: row_change.induct)
  case (rc_fact l e s oid slot kind source ob digest)
  then show ?case by (simp add: place_frame [OF refl])
next
  case (rc_stop run_id why now l l')
  then show ?case by (simp add: stop_row_frame [OF rc_stop(1)])
next
  case (rc_claim l e i c' l')
  then show ?case using insert_claim_frame(6,7) [OF rc_claim(2)] by (auto simp: dhas_dget)
qed (simp_all add: mark_conflict_def count_duplicate_def)

lemma claim_kept_changes: "changes False l l' \<Longrightarrow> dget (claims l) eid = Some c \<Longrightarrow> dget (claims l') eid = Some c"
  by (induction rule: rtranclp_induct) (auto intro: claim_kept_change)

lemma claim_kept_step:
  assumes "\<not> is_sweep op" and "dget (claims l) eid = Some c"
  shows "dget (claims (ledger_step env cfg op l)) eid = Some c"
proof (cases "is_operator op")
  case True
  with assms(2) show ?thesis by (simp add: operator_step)
next
  case False
  from ledger_step_changes [OF this, of l env cfg] assms show ?thesis by (simp add: claim_kept_changes)
qed

lemma obs_kept_change: "row_change False l l' \<Longrightarrow> set (observations l) \<subseteq> set (observations l')"
proof (induction rule: row_change.induct)
  case (rc_fact l e s oid slot kind source ob digest)
  then show ?case by (auto simp: place_def Let_def count_overflow_def count_ordinary_def)
next
  case (rc_stop run_id why now l l')
  then show ?case by (simp add: stop_row_frame [OF rc_stop(1)])
next
  case (rc_claim l e i c' l')
  then show ?case by (simp add: insert_claim_frame [OF rc_claim(2)])
qed (simp_all add: count_duplicate_def)

lemma obs_kept_step:
  assumes "\<not> is_sweep op"
  shows "set (observations l) \<subseteq> set (observations (ledger_step env cfg op l))"
proof (cases "is_operator op")
  case True
  then show ?thesis by (simp add: operator_step)
next
  case False
  from ledger_step_changes [OF this, of l env cfg] assms have "changes False l (ledger_step env cfg op l)" by simp
  then show ?thesis by (induction rule: rtranclp_induct) (auto dest: obs_kept_change)
qed

lemma obs_kept:
  "list_all (\<lambda>op. \<not> is_sweep op) ops \<Longrightarrow> set (observations l) \<subseteq> set (observations (fold (ledger_step env cfg) ops l))"
proof (induction ops arbitrary: l)
  case (Cons op ops)
  then show ?case using obs_kept_step [of op l env cfg] by fastforce
qed simp

lemma minted_cases:
  assumes "minted env cfg op l = Some p"
  obtains inp v cur d where "op = OpClaim inp v cur"
    and "ledger_claim env cfg inp v cur l = (Inr d, ledger_step env cfg op l)" and "cd_permit d = Some p"
proof -
  from assms obtain inp v cur where op: "op = OpClaim inp v cur"
    by (auto simp: minted_def split: ledger_op.split_asm)
  obtain r l' where r: "ledger_claim env cfg inp v cur l = (r, l')" by fastforce
  from assms op r obtain d where "r = Inr d" "cd_permit d = Some p"
    by (auto simp: minted_def split: sum.split_asm)
  with op r that show ?thesis by (auto simp: ledger_step_def)
qed

lemma minted_claim:
  assumes "minted env cfg op l = Some p"
  shows "\<not> dhas (claims l) (pm_execution p)" "dhas (claims (ledger_step env cfg op l)) (pm_execution p)"
    "run_stop l (pm_run p) = None"
proof -
  from assms obtain inp v cur d where c: "ledger_claim env cfg inp v cur l = (Inr d, ledger_step env cfg op l)"
    and p: "cd_permit d = Some p" by (rule minted_cases)
  from c p obtain envelope where
    b: "claim_body env cfg l inp envelope cur = Inr (d, ledger_step env cfg op l, ClaimCommit)"
    by (rule ledger_claim_permit)
  from b p obtain intent run where run: "dget (runs l) (pm_run p) = Some run"
    and a: "admit env cfg l run intent envelope (ci_now inp) = Inr None"
    and m: "mint_claim env cfg l inp (pm_execution p) (pm_run p) intent envelope cur
              = Inr (d, ledger_step env cfg op l, ClaimCommit)" by (rule claim_body_permit)
  from mint_claim_permit [OF m p] show "\<not> dhas (claims l) (pm_execution p)"
    "dhas (claims (ledger_step env cfg op l)) (pm_execution p)" by (auto simp: dhas_dget)
  from admit_None [OF a] run show "run_stop l (pm_run p) = None" by (simp add: run_stop_def)
qed

lemma claimed_never_minted:
  "list_all (\<lambda>op. \<not> is_sweep op) ops \<Longrightarrow> dhas (claims l) eid \<Longrightarrow>
   eid \<notin> set (map pm_execution (permits env cfg ops l))"
proof (induction ops arbitrary: l)
  case Nil
  then show ?case by simp
next
  case (Cons op ops)
  from Cons.prems obtain c where c: "dget (claims l) eid = Some c" by (auto simp: dhas_dget)
  have "dhas (claims (ledger_step env cfg op l)) eid"
    using claim_kept_step [OF _ c, of op env cfg] Cons.prems(1) by (simp add: dhas_dget)
  with Cons.IH Cons.prems(1) have "eid \<notin> set (map pm_execution (permits env cfg ops (ledger_step env cfg op l)))"
    by simp
  moreover have "pm_execution p \<noteq> eid" if "minted env cfg op l = Some p" for p
    using minted_claim(1) [OF that] Cons.prems(2) by auto
  ultimately show ?case by (cases "minted env cfg op l") auto
qed

lemma permits_distinct:
  assumes "list_all (\<lambda>op. \<not> is_sweep op) ops"
  shows "distinct (map pm_execution (permits env cfg ops l))"
  using assms
proof (induction ops arbitrary: l)
  case Nil
  then show ?case by simp
next
  case (Cons op ops)
  show ?case
  proof (cases "minted env cfg op l")
    case None
    with Cons show ?thesis by simp
  next
    case (Some p)
    from minted_claim(2) [OF Some] Cons.prems
    have "pm_execution p \<notin> set (map pm_execution (permits env cfg ops (ledger_step env cfg op l)))"
      by (intro claimed_never_minted) simp_all
    with Cons Some show ?thesis by simp
  qed
qed

subsection \<open>Permits and retention\<close>

lemma agent_append_intents: "agent_append env cfg l eid intent ob = Inr (res, l') \<Longrightarrow> intents l' = intents l"
  by (erule agent_append_cases)
    (auto simp: replay_obs_def count_duplicate_def mark_conflict_def place_frame [OF refl] split: if_splits
      dest!: arg_cong [where f = snd])

lemma claim_body_intents:
  assumes "claim_body env cfg l inp envelope cur = Inr (d, l', k)"
  shows "intents l' = intents l"
proof -
  from assms consider "l' = l"
    | intent ob res where "ledger_append env cfg l intent ob = Inr (res, l')"
    | eid intent c l1 ob res where "insert_claim eid intent c l = Inr (Some l1)" "ledger_append env cfg l1 intent ob = Inr (res, l')"
    by (auto simp: claim_body_def replay_claim_def mint_claim_def Let_def simp del: rbind_Inr_iff elim!: rbindE
        split: option.split_asm if_split_asm)
  then show ?thesis by cases (auto simp: ledger_append_frame(2) insert_claim_frame(1))
qed

lemma finish_tx_intents: "finish_tx env cfg envelope ob why now l = Inr (res, l') \<Longrightarrow> intents l' = intents l"
  by (auto simp: finish_tx_def simp del: rbind_Inr_iff elim!: rbindE split: option.split_asm if_split_asm
      dest!: ledger_append_frame(2) stop_row_frame(2))

lemma agent_tx_keeps:
  assumes "P s" and "\<And>a s'. body s = Inr (a, s') \<Longrightarrow> P s'"
  shows "P (snd (agent_tx fault body s))"
proof -
  have "P (snd (run_tx fault body s))" by (rule run_tx_keeps) (fact assms)+
  then show ?thesis by (auto simp: agent_tx_def split: prod.split sum.split exc.split)
qed

text \<open>Registrations enter intents and retention removes some; nothing else touches them.\<close>

definition is_register :: "ledger_op \<Rightarrow> bool" where
  "is_register op = (case op of OpRegister _ _ _ _ \<Rightarrow> True | _ \<Rightarrow> False)"

lemma intents_step:
  assumes "\<not> is_register op" and "\<not> is_sweep op"
  shows "intents (ledger_step env cfg op l) = intents l"
proof (cases op)
  case (OpClaim inp v cur)
  then show ?thesis
    by (auto simp: ledger_step_def ledger_claim_def dest!: claim_body_intents
        split: sum.split exc.split if_split commit_kind.split db_fault.split prod.split)
next
  case (OpFinish fault envelope ob why now)
  have "intents (snd (run_tx fault (finish_tx env cfg envelope ob why now) l)) = intents l"
    by (rule run_tx_keeps [where P = "\<lambda>l'. intents l' = intents l"]) (auto dest: finish_tx_intents)
  with OpFinish show ?thesis by (simp add: ledger_step_def ledger_finish_def)
next
  case (OpStop fault free envelope ob why now)
  have "intents (snd (run_tx fault (stop_tx env cfg free envelope ob why now) l)) = intents l"
    by (rule run_tx_keeps [where P = "\<lambda>l'. intents l' = intents l"])
      (auto simp: stop_tx_def simp del: rbind_Inr_iff elim!: rbindE split: if_split_asm dest: finish_tx_intents)
  with OpStop show ?thesis by (simp add: ledger_step_def ledger_stop_def)
next
  case (OpAppend fault eid ob source)
  have "intents (snd (run_tx fault (append_tx env cfg eid ob) l)) = intents l"
    by (rule run_tx_keeps [where P = "\<lambda>l'. intents l' = intents l"])
      (auto simp: append_tx_def ledger_append_frame(2) simp del: rbind_Inr_iff elim!: rbindE split: option.split_asm)
  with OpAppend show ?thesis by (simp add: ledger_step_def ledger_append_op_def)
next
  case (OpCreateRun fault run_id session owner)
  have "intents (snd (agent_tx fault (create_tx run_id session owner) l)) = intents l"
    by (rule agent_tx_keeps [where P = "\<lambda>l'. intents l' = intents l"])
      (auto simp: create_tx_def simp del: rbind_Inr_iff elim!: rbindE split: if_split_asm)
  with OpCreateRun show ?thesis by (simp add: ledger_step_def create_run_def)
next
  case (OpStopRun fault free run_id session owner why fact_o now)
  have "intents (snd (agent_tx fault (agent_stop_tx env cfg free run_id session owner why f now) l)) = intents l" for f
    by (rule agent_tx_keeps [where P = "\<lambda>l'. intents l' = intents l"])
      (auto simp: agent_stop_tx_def simp del: rbind_Inr_iff elim!: rbindE split: option.split_asm if_split_asm
        dest!: stop_row_frame(2) agent_append_intents)
  with OpStopRun show ?thesis by (auto simp: ledger_step_def stop_run_def split: option.split sum.split)
next
  case (OpAccept fault envelope worker_ob cur now oid)
  have "intents (snd (agent_tx fault (accept_tx env cfg envelope worker_ob f) l)) = intents l" for f
    by (rule agent_tx_keeps [where P = "\<lambda>l'. intents l' = intents l"]) (auto elim!: accept_tx_append dest: agent_append_intents)
  then have "intents l' = intents l" if "agent_tx fault (accept_tx env cfg envelope worker_ob f) l = (r, l')" for f r l'
    using that by (metis snd_conv)
  with OpAccept show ?thesis by (auto simp: ledger_step_def accept_def split: sum.split prod.split)
qed (use assms in \<open>simp_all add: is_register_def is_sweep_def ledger_step_def\<close>)

text \<open>
  What the sweep relies on: one expiry per execution identifier, because the agent signs one request
  under a fresh identifier (\<open>one_expiry\<close>, of the requests that validate), and a database clock that does
  not go back between claims and sweeps.
\<close>

definition op_request :: "ledger_op \<Rightarrow> val option" where
  "op_request op = (case op of OpClaim _ v _ \<Rightarrow> Some v | OpRegister _ _ v _ \<Rightarrow> Some v | _ \<Rightarrow> None)"

definition one_expiry :: "proto_env \<Rightarrow> ledger_cfg \<Rightarrow> (string \<Rightarrow> int) \<Rightarrow> ledger_op \<Rightarrow> bool" where
  "one_expiry env cfg expiry op \<longleftrightarrow>
     (case op_request op of
        None \<Rightarrow> True
      | Some v \<Rightarrow>
          (case validate_request env v (cfg_key cfg) of
             Inl _ \<Rightarrow> True
           | Inr e \<Rightarrow> (case dget e ''execution_id'' of
                         Some (VStr eid) \<Rightarrow> time_of env e ''expires_at'' = Some (expiry eid) | _ \<Rightarrow> True)))"

definition intents_expire :: "(string \<Rightarrow> int) \<Rightarrow> ledger \<Rightarrow> bool" where
  "intents_expire expiry l \<longleftrightarrow> list_all (\<lambda>(eid, i). in_expires i = expiry eid) (intents l)"

definition db_times :: "ledger_op list \<Rightarrow> int list" where
  "db_times ops = List.map_filter (\<lambda>op. case op of OpClaim inp _ _ \<Rightarrow> Some (ci_now inp) | OpSweep _ now _ \<Rightarrow> Some now | _ \<Rightarrow> None) ops"

lemma db_times_Cons:
  "db_times (op # ops) =
     (case op of OpClaim inp _ _ \<Rightarrow> [ci_now inp] | OpSweep _ now _ \<Rightarrow> [now] | _ \<Rightarrow> []) @ db_times ops"
  by (simp add: db_times_def List.map_filter_simps split: ledger_op.split)

lemma db_times_append: "db_times (a @ b) = db_times a @ db_times b"
  by (simp add: db_times_def List.map_filter_def)

lemma dset_entries: "list_all P d \<Longrightarrow> P (k, v) \<Longrightarrow> list_all P (dset k v d)"
  by (induction k v d rule: dset.induct) auto

lemma intents_expire_register:
  assumes "intents_expire expiry l" and "one_expiry env cfg expiry (OpRegister fault now v attempt)"
  shows "intents_expire expiry (snd (register env cfg fault now v attempt l))"
proof (cases "validate_request env v (cfg_key cfg)")
  case (Inl e)
  then show ?thesis using assms(1) by (auto simp: register_def split: option.split)
next
  case (Inr e)
  have "intents_expire expiry l'" if "register_tx env cfg now e a l = Inr (reg, l')" for a reg l'
    using that
  proof (cases rule: register_tx_cases)
    case (again existing)
    then show ?thesis using assms(1) by simp
  next
    case (fresh eid i)
    then have "in_expires i = expiry eid" using assms(2) Inr by (simp add: one_expiry_def op_request_def)
    then show ?thesis using assms(1) fresh by (simp add: intents_expire_def dset_entries)
  qed
  then show ?thesis using Inr assms(1)
    by (auto simp: register_def split: option.split sum.split intro: agent_tx_keeps [where P = "intents_expire expiry"])
qed

lemma dpops_list_all: "list_all P d \<Longrightarrow> list_all P (dpops ks d)"
  by (simp add: dpops_def list_all_iff)

lemma intents_expire_step:
  assumes "intents_expire expiry l" and "one_expiry env cfg expiry op"
  shows "intents_expire expiry (ledger_step env cfg op l)"
proof (cases op)
  case (OpRegister fault now v attempt)
  then show ?thesis using intents_expire_register assms by (simp add: ledger_step_def)
next
  case (OpSweep fault now batch)
  have "intents_expire expiry l'" if "sweep_tx now batch l = Inr (c, l')" for c l'
    using that by (cases rule: sweep_tx_cases) (use assms(1) in \<open>simp_all add: intents_expire_def dpops_list_all\<close>)
  then show ?thesis using OpSweep assms(1)
    by (auto simp: ledger_step_def retention_sweep_def intro: run_tx_keeps [where P = "intents_expire expiry"])
qed (use assms(1) intents_step [of op env cfg l] in \<open>simp_all add: intents_expire_def is_register_def is_sweep_def\<close>)

text \<open>
  Retention takes a claim away only after the request has expired, and an expired request is not
  admitted: an execution that is claimed or expired is never minted again.
\<close>

definition spent :: "(string \<Rightarrow> int) \<Rightarrow> int \<Rightarrow> ledger \<Rightarrow> string \<Rightarrow> bool" where
  "spent expiry t l eid \<longleftrightarrow> dhas (claims l) eid \<or> expiry eid \<le> t"

lemma sweep_spends:
  assumes "intents_expire expiry l" and "dhas (claims l) eid"
  shows "spent expiry now (snd (retention_sweep fault now batch l)) eid"
proof -
  have "spent expiry now l' eid" if "sweep_tx now batch l = Inr (c, l')" for c l'
    using that
  proof (cases rule: sweep_tx_cases)
    case (2 el)
    have "expiry eid \<le> now" if "eid \<in> set el"
    proof -
      from that 2(1) obtain i where "(eid, i) \<in> set (intents l)" "in_expires i + RETENTION \<le> now"
        by (auto simp: sweep_eligible_def dest!: in_set_takeD)
      then show ?thesis using assms(1) by (auto simp: intents_expire_def list_all_iff RETENTION_def seconds_def)
    qed
    then show ?thesis using assms(2) 2(2) by (auto simp: spent_def dhas_dget)
  qed (use assms(2) in \<open>simp add: spent_def\<close>)
  moreover have "spent expiry now l eid" using assms(2) by (simp add: spent_def)
  ultimately have "spent expiry now (snd (run_tx fault (sweep_tx now batch) l)) eid"
    by (intro run_tx_keeps [where P = "\<lambda>l'. spent expiry now l' eid"])
  with \<open>spent expiry now l eid\<close> show ?thesis by (simp add: retention_sweep_def)
qed

lemma spent_not_minted:
  assumes "minted env cfg (OpClaim inp v cur) l = Some p" and "one_expiry env cfg expiry (OpClaim inp v cur)" and "t \<le> ci_now inp"
  shows "\<not> spent expiry t l (pm_execution p)"
proof -
  from assms(1) obtain d where c: "ledger_claim env cfg inp v cur l = (Inr d, ledger_step env cfg (OpClaim inp v cur) l)"
    and p: "cd_permit d = Some p" by (auto elim: minted_cases)
  from c p obtain e where v: "validate_request env v (cfg_key cfg) = Inr e"
    and b: "claim_body env cfg l inp e cur = Inr (d, ledger_step env cfg (OpClaim inp v cur) l, ClaimCommit)" by (rule ledger_claim_permit)
  from b p obtain intent run where eid: "dget e ''execution_id'' = Some (VStr (pm_execution p))"
    and a: "admit env cfg l run intent e (ci_now inp) = Inr None" by (rule claim_body_permit)
  from admit_None [OF a] have "ci_now inp < expiry (pm_execution p)"
    using assms(2) v eid by (auto simp: one_expiry_def op_request_def)
  then show ?thesis using minted_claim(1) [OF assms(1)] assms(3) by (simp add: spent_def)
qed

lemma spent_step:
  assumes "spent expiry t l eid" and "intents_expire expiry l" and "\<forall>u\<in>set (db_times [op]). t \<le> u"
  shows "\<exists>u. u \<in> insert t (set (db_times [op])) \<and> spent expiry u (ledger_step env cfg op l) eid"
proof (cases "dhas (claims l) eid")
  case True
  show ?thesis
  proof (cases "is_sweep op")
    case True
    with \<open>dhas (claims l) eid\<close> show ?thesis
      using sweep_spends [OF assms(2)] by (auto simp: is_sweep_def ledger_step_def db_times_Cons split: ledger_op.split_asm)
  next
    case False
    from True obtain c where "dget (claims l) eid = Some c" by (auto simp: dhas_dget)
    from claim_kept_step [OF False this, of env cfg] show ?thesis by (auto simp: spent_def dhas_dget)
  qed
qed (use assms(1) in \<open>auto simp: spent_def\<close>)

lemma spent_never_minted:
  assumes "spent expiry t l eid" and "intents_expire expiry l" and "list_all (one_expiry env cfg expiry) ops"
    and "sorted (t # db_times ops)"
  shows "eid \<notin> set (map pm_execution (permits env cfg ops l))"
  using assms
proof (induction ops arbitrary: l t)
  case (Cons op ops)
  have times: "db_times (op # ops) = db_times [op] @ db_times ops" using db_times_append [of "[op]" ops] by simp
  from Cons.prems(4) have "\<forall>u\<in>set (db_times [op]). t \<le> u" by (simp add: times)
  from spent_step [OF Cons.prems(1,2) this, of env cfg] obtain u where u: "u \<in> insert t (set (db_times [op]))"
    and sp: "spent expiry u (ledger_step env cfg op l) eid" by blast
  have "sorted (u # db_times ops)" using Cons.prems(4) u by (auto simp: times sorted_append)
  with sp Cons have "eid \<notin> set (map pm_execution (permits env cfg ops (ledger_step env cfg op l)))"
    using intents_expire_step by (intro Cons.IH) auto
  moreover have "pm_execution p \<noteq> eid" if m: "minted env cfg op l = Some p" for p
  proof -
    from m obtain inp v cur where op: "op = OpClaim inp v cur" by (rule minted_cases)
    have "t \<le> ci_now inp" using Cons.prems(4) by (simp add: op db_times_Cons)
    with spent_not_minted [OF m [unfolded op], of expiry t] Cons.prems show ?thesis by (auto simp: op)
  qed
  ultimately show ?case by (cases "minted env cfg op l") auto
qed simp

lemma permits_distinct_swept:
  assumes "intents_expire expiry l" and "list_all (one_expiry env cfg expiry) ops" and "sorted (db_times ops)"
  shows "distinct (map pm_execution (permits env cfg ops l))"
  using assms
proof (induction ops arbitrary: l)
  case (Cons op ops)
  have times: "db_times (op # ops) = db_times [op] @ db_times ops" using db_times_append [of "[op]" ops] by simp
  from Cons.prems have rest: "intents_expire expiry (ledger_step env cfg op l)" "list_all (one_expiry env cfg expiry) ops"
    "sorted (db_times ops)" using intents_expire_step by (auto simp: times sorted_append)
  show ?case
  proof (cases "minted env cfg op l")
    case None
    with Cons.IH [OF rest] show ?thesis by simp
  next
    case (Some p)
    obtain inp v cur where op: "op = OpClaim inp v cur" using Some by (rule minted_cases)
    have "sorted (ci_now inp # db_times ops)" using Cons.prems(3) by (simp add: op db_times_Cons)
    with minted_claim(2) [OF Some] rest
    have "pm_execution p \<notin> set (map pm_execution (permits env cfg ops (ledger_step env cfg op l)))"
      by (intro spent_never_minted) (auto simp: spent_def)
    with Cons.IH [OF rest] Some show ?thesis by simp
  qed
qed simp

text \<open>
  Single-use dispatch: in any history of calls of the worker and the agent platform, with
  arbitrary requests, interleavings, statement failures and ambiguous commits, at most one
  permit is ever minted for an execution, as long as retention has not run.
\<close>

theorem one_permit_per_execution:
  assumes "list_all (\<lambda>op. \<not> is_sweep op) ops"
  shows "distinct (map pm_execution (permits env cfg ops l))"
  by (rule permits_distinct [OF assms])

lemma stopped_mints_nothing: "run_stop l r = Some v \<Longrightarrow> r \<notin> set (map pm_run (permits env cfg ops l))"
proof (induction ops arbitrary: l)
  case Nil
  then show ?case by simp
next
  case (Cons op ops)
  have "pm_run p \<noteq> r" if "minted env cfg op l = Some p" for p
    using minted_claim(3) [OF that] Cons.prems by auto
  with Cons.IH [OF run_stop_step [OF Cons.prems]] show ?case by (cases "minted env cfg op l") auto
qed

text \<open>
  C13. A stop is final: once a run has a recorded stop, every later history keeps exactly that
  stop time and reason, mints no permit for the run, and the send gate refuses every permit for
  a request of that run.
\<close>

theorem stopped_run_never_dispatches:
  assumes "ledger_inv l" and "run_stop l r = Some stop"
  shows "run_stop (fold (ledger_step env cfg) ops l) r = Some stop
    \<and> r \<notin> set (map pm_run (permits env cfg ops l))
    \<and> (dget envelope ''run_id'' = Some (VStr r) \<longrightarrow>
         fst (open_send env cfg pid free fault p envelope (fold (ledger_step env cfg) ops l)) \<noteq> Inr ())"
proof (intro conjI impI)
  let ?l = "fold (ledger_step env cfg) ops l"
  show st: "run_stop ?l r = Some stop" using assms by (rule lg.run_settled)
  from assms(2) show "r \<notin> set (map pm_run (permits env cfg ops l))" by (rule stopped_mints_nothing)
  assume "dget envelope ''run_id'' = Some (VStr r)"
  moreover from st have "\<not> (case dget (runs ?l) r of None \<Rightarrow> False | Some run \<Rightarrow> run_stopped_at run = None)"
    by (auto simp: run_stop_def split: option.splits)
  ultimately have "send_checks cfg permit envelope ?l \<noteq> Inr ()" for permit
    by (auto simp: send_checks_def simp del: rbind_Inr_iff elim!: rbindE split: option.split_asm)
  then show "fst (open_send env cfg pid free fault p envelope ?l) \<noteq> Inr ()"
    by (auto simp: open_send_def simp del: rbind_Inr_iff elim!: rbindE split: prod.splits sum.splits if_splits)
qed

section \<open>A concrete history\<close>

definition demo_schema_ok :: "string \<Rightarrow> val \<Rightarrow> bool" where
  "demo_schema_ok name v \<longleftrightarrow>
     (name = ''execution-handoff-response'' \<longrightarrow>
      (case as_dict v of
         None \<Rightarrow> False
       | Some d \<Rightarrow> (case Option.bind (dget d ''observation'') as_dict of
                    None \<Rightarrow> False | Some ob \<Rightarrow> dget ob ''kind'' = Some (VStr ''worker_result''))))"

definition demo_proto :: proto_env where
  "demo_proto = \<lparr>cr = \<lparr>sha256 = (\<lambda>_. ''d''), hmac256 = (\<lambda>_ _. ''s'')\<rparr>, schema_ok = demo_schema_ok,
     fromisoformat = (\<lambda>s. if s = ''0'' then Some 0 else if s = ''9'' then Some 900000000 else None),
     isoformat = (\<lambda>_. ''t'')\<rparr>"

definition demo_cfg :: ledger_cfg where
  "demo_cfg = \<lparr>cfg_key = ''k'', cfg_epoch = ''ep'', cfg_enabled = True\<rparr>"

definition demo_envelope :: json_obj where
  "demo_envelope =
     [(''protocol_version'', VInt 3), (''execution_id'', VStr ''e1''), (''run_id'', VStr ''r1''),
      (''confirm_id'', VStr ''c1''), (''call_id'', VStr ''k1''), (''session_id'', VStr ''s1''),
      (''owner_user_id'', VStr ''u1''), (''admission_epoch'', VStr ''ep''), (''requested_at'', VStr ''0''),
      (''expires_at'', VStr ''9''), (''signature'', VStr ''s''), (''args_digest'', VStr ''d''),
      (''tool_name'', VStr ''restart''), (''approval_kind'', VStr ''action'')]"

definition demo_ledger0 :: ledger where
  "demo_ledger0 = (empty_ledger ''ep'')\<lparr>admission_enabled := True\<rparr>"

definition demo_run :: run_row where
  "demo_run = \<lparr>run_session = ''s1'', run_owner = ''u1'', run_stopped_at = None, run_stop_reason = None\<rparr>"

definition demo_intent :: intent_row where
  "demo_intent = \<lparr>in_confirm = ''c1'', in_call = ''k1'', in_run = ''r1'', in_digest = ''d'',
     in_envelope = demo_envelope, in_attempt = ''a1'', in_expires = 900000000, in_registered = 1, in_seq = 0\<rparr>"

definition demo_ledger1 :: ledger where
  "demo_ledger1 = demo_ledger0\<lparr>runs := [(''r1'', demo_run)]\<rparr>"

definition demo_ledger2 :: ledger where
  "demo_ledger2 = demo_ledger1\<lparr>intents := [(''e1'', demo_intent)], obs_states := [(''e1'', initial_obs_state)],
     next_seq := 1\<rparr>"

definition demo_input :: claim_input where
  "demo_input = \<lparr>ci_now = 2, ci_wall = 2, ci_owner = ''w1'', ci_obs_id = ''o1'', ci_pid = 7, ci_fault = NoFault\<rparr>"

lemma demo_size: "length (canonical_json (VDict demo_envelope)) \<le> 8192"
  by code_simp

lemma demo_digest [simp]: "canonical_digest (cr demo_proto) v = ''d''" "sign_envelope (cr demo_proto) e k = ''s''"
  "fromisoformat demo_proto ''0'' = Some 0" "fromisoformat demo_proto ''9'' = Some 900000000"
  "isoformat demo_proto t = ''t''" "n \<noteq> ''execution-handoff-response'' \<Longrightarrow> schema_ok demo_proto n v"
  by (simp_all add: demo_proto_def canonical_digest_def sign_envelope_def demo_schema_ok_def)

lemma demo_get:
  "dget demo_envelope ''protocol_version'' = Some (VInt 3)" "dget demo_envelope ''execution_id'' = Some (VStr ''e1'')"
  "dget demo_envelope ''run_id'' = Some (VStr ''r1'')" "dget demo_envelope ''confirm_id'' = Some (VStr ''c1'')"
  "dget demo_envelope ''call_id'' = Some (VStr ''k1'')" "dget demo_envelope ''session_id'' = Some (VStr ''s1'')"
  "dget demo_envelope ''owner_user_id'' = Some (VStr ''u1'')" "dget demo_envelope ''admission_epoch'' = Some (VStr ''ep'')"
  "dget demo_envelope ''requested_at'' = Some (VStr ''0'')" "dget demo_envelope ''expires_at'' = Some (VStr ''9'')"
  "dget demo_envelope ''signature'' = Some (VStr ''s'')" "dget demo_envelope ''args_digest'' = Some (VStr ''d'')"
  "dget demo_envelope ''tool_name'' = Some (VStr ''restart'')"
  "dget demo_envelope ''approval_kind'' = Some (VStr ''action'')"
  by (simp_all add: demo_envelope_def)

lemma demo_times: "timestamp demo_proto (VStr ''0'') = Inr 0" "timestamp demo_proto (VStr ''9'') = Inr 900000000"
  by (simp_all add: timestamp_def replace_Z_def)

lemma demo_request: "validate_request demo_proto (VDict demo_envelope) ''k'' = Inr demo_envelope"
  using demo_size
  by (simp add: validate_request_def validate_metadata_def validate_def METADATA_LIMIT_def get_none_def demo_get
      verify_envelope_def demo_times seconds_def MAX_LIFETIME_SECONDS_def fld_def str_fld_def
      del: canonical_json.simps)

lemma demo_schema: "verify_schema demo_ledger0 = Inr ()" "verify_schema demo_ledger1 = Inr ()"
  "verify_schema demo_ledger2 = Inr ()"
  by (simp_all add: verify_schema_def demo_ledger0_def demo_ledger1_def demo_ledger2_def empty_ledger_def)

lemma demo_fields [simp]:
  "cfg_key demo_cfg = ''k''" "cfg_epoch demo_cfg = ''ep''" "cfg_enabled demo_cfg"
  "runs demo_ledger1 = [(''r1'', demo_run)]" "intents demo_ledger1 = []" "obs_states demo_ledger1 = []"
  "next_seq demo_ledger1 = 0" "runs demo_ledger2 = [(''r1'', demo_run)]"
  "intents demo_ledger2 = [(''e1'', demo_intent)]" "claims demo_ledger2 = []"
  "obs_states demo_ledger2 = [(''e1'', initial_obs_state)]" "observations demo_ledger2 = []"
  "admission_enabled demo_ledger2" "admission_epoch demo_ledger2 = ''ep''"
  by (simp_all add: demo_cfg_def demo_ledger2_def demo_ledger1_def demo_ledger0_def empty_ledger_def)

lemma demo_register:
  "register demo_proto demo_cfg NoFault 1 (VDict demo_envelope) (VStr ''a1'') demo_ledger1
     = (Inr \<lparr>rg_execution = ''e1'', rg_digest = ''d'', rg_attempt = ''a1''\<rparr>, demo_ledger2)"
proof -
  have id: "safe_request_id ''a1''"
    by (simp add: safe_request_id_def safe_id_char_def is_digit_def less_eq_char_def)
  have "agent_run ''r1'' (VStr ''s1'') (VStr ''u1'') demo_ledger1 = Inr demo_run"
    by (simp add: agent_run_def demo_run_def)
  moreover have "enabled_state demo_cfg demo_ledger1 = Inr ()"
    by (simp add: enabled_state_def demo_cfg_def demo_ledger1_def demo_ledger0_def empty_ledger_def)
  moreover have "run_stopped_at demo_run = None" by (simp add: demo_run_def)
  ultimately have "register_tx demo_proto demo_cfg 1 demo_envelope ''a1'' demo_ledger1
      = Inr (\<lparr>rg_execution = ''e1'', rg_digest = ''d'', rg_attempt = ''a1''\<rparr>, demo_ledger2)"
    by (simp add: register_tx_def Let_def demo_schema demo_get fld_def str_fld_def demo_times run_unresolved_def
        demo_ledger2_def demo_intent_def)
  with id show ?thesis by (simp add: register_def demo_request agent_tx_def run_tx_def)
qed

definition demo_fact :: json_obj where
  "demo_fact =
     [(''observation_version'', VInt 1), (''observation_id'', VStr ''o1''), (''execution_id'', VStr ''e1''),
      (''run_id'', VStr ''r1''), (''request_digest'', VStr ''d''), (''source'', VStr ''worker''),
      (''kind'', VStr ''claim_committed''), (''observed_at'', VStr ''t''), (''attempt_request_id'', VStr ''a1''),
      (''request_id'', VStr ''q1''), (''reason_code'', VStr ''none''), (''claim_owner_id'', VStr ''w1''),
      (''signature'', VStr ''s'')]"

definition demo_permit :: dispatch_permit where
  "demo_permit = \<lparr>pm_execution = ''e1'', pm_run = ''r1'', pm_digest = ''d'', pm_owner = ''w1'', pm_pid = 7,
     pm_used = False\<rparr>"

definition demo_claim :: claim_row where
  "demo_claim = \<lparr>cl_confirm = ''c1'', cl_call = ''k1'', cl_digest = ''d'', cl_owner = ''w1'', cl_claimed_at = 2,
     cl_observe_by = 120000002, cl_retain_until = 2592900000000\<rparr>"

definition demo_ledger3 :: ledger where
  "demo_ledger3 = demo_ledger2\<lparr>claims := [(''e1'', demo_claim)],
     observations := [\<lparr>ob_id = ''o1'', ob_exec = ''e1'', ob_source = ''worker'', ob_kind = ''claim_committed'',
       ob_slot = Some ''claim'', ob_payload = demo_fact, ob_digest = ''d''\<rparr>]\<rparr>"

lemma demo_fact_size: "length (canonical_json (VDict demo_fact)) \<le> 8192"
  by code_simp

lemma demo_fact_get:
  "dget demo_fact ''observation_id'' = Some (VStr ''o1'')" "dget demo_fact ''execution_id'' = Some (VStr ''e1'')"
  "dget demo_fact ''run_id'' = Some (VStr ''r1'')" "dget demo_fact ''request_digest'' = Some (VStr ''d'')"
  "dget demo_fact ''source'' = Some (VStr ''worker'')" "dget demo_fact ''kind'' = Some (VStr ''claim_committed'')"
  "dget demo_fact ''attempt_request_id'' = Some (VStr ''a1'')" "dget demo_fact ''signature'' = Some (VStr ''s'')"
  "dget demo_fact ''claim_owner_id'' = Some (VStr ''w1'')"
  by (simp_all add: demo_fact_def)

lemma demo_fact_valid: "validate_observation demo_proto demo_fact demo_envelope ''k'' = Inr ()"
  using demo_fact_size
  by (simp add: validate_observation_def validate_metadata_def validate_def METADATA_LIMIT_def demo_fact_get
      demo_get verify_envelope_def fld_def str_fld_def del: canonical_json.simps)

lemma demo_observation:
  "observation demo_proto demo_envelope ''worker'' ''claim_committed'' ''a1'' ''q1'' ''k'' ''none'' 2 ''o1''
     [(''claim_owner_id'', VStr ''w1'')] = Inr demo_fact"
proof -
  have "dset ''signature'' (VStr ''s'') (dset ''claim_owner_id'' (VStr ''w1'')
     [(''observation_version'', VInt 1), (''observation_id'', VStr ''o1''), (''execution_id'', VStr ''e1''),
      (''run_id'', VStr ''r1''), (''request_digest'', VStr ''d''), (''source'', VStr ''worker''),
      (''kind'', VStr ''claim_committed''), (''observed_at'', VStr ''t''), (''attempt_request_id'', VStr ''a1''),
      (''request_id'', VStr ''q1''), (''reason_code'', VStr ''none'')]) = demo_fact"
    by (simp add: demo_fact_def)
  with demo_fact_valid show ?thesis
    by (simp add: observation_def Let_def demo_get fld_def del: dset.simps)
qed

lemma demo_claim_run:
  "ledger_claim demo_proto demo_cfg demo_input (VDict demo_envelope) ''q1'' demo_ledger2
     = (Inr \<lparr>cd_permit = Some demo_permit, cd_reason = ''none'', cd_observation = Some demo_fact\<rparr>, demo_ledger3)"
proof -
  let ?l = "demo_ledger2\<lparr>claims := [(''e1'', demo_claim)]\<rparr>"
  have adm: "admit demo_proto demo_cfg demo_ledger2 demo_run demo_intent demo_envelope 2 = Inr None"
    by (simp add: admit_def demo_get fld_def str_fld_def demo_times demo_run_def predecessor_def)
  have ins: "insert_claim ''e1'' demo_intent demo_claim demo_ledger2 = Inr (Some ?l)"
    by (simp add: insert_claim_def demo_intent_def demo_claim_def dhas_def)
  have app: "ledger_append demo_proto demo_cfg ?l demo_intent demo_fact = Inr (Inserted, demo_ledger3)"
    by (simp add: ledger_append_def Let_def demo_intent_def demo_fact_valid demo_get demo_fact_get fld_def str_fld_def
        find_obs_def owner_matches_def demo_claim_def result_slot_def acceptance_ok_def place_def reserved_slot_def
        slot_taken_def insert_obs_def demo_ledger3_def)
  have att: "in_attempt demo_intent = ''a1''" "in_digest demo_intent = ''d''" by (simp_all add: demo_intent_def)
  have mint: "mint_claim demo_proto demo_cfg demo_ledger2 demo_input ''e1'' ''r1'' demo_intent demo_envelope ''q1''
      = Inr (\<lparr>cd_permit = Some demo_permit, cd_reason = ''none'', cd_observation = Some demo_fact\<rparr>,
             demo_ledger3, ClaimCommit)"
    using ins app demo_observation att
    by (simp add: mint_claim_def Let_def demo_get fld_def str_fld_def demo_times demo_input_def demo_permit_def
        seconds_def OBSERVE_SECONDS_def demo_claim_def)
  have "claim_body demo_proto demo_cfg demo_ledger2 demo_input demo_envelope ''q1''
      = Inr (\<lparr>cd_permit = Some demo_permit, cd_reason = ''none'', cd_observation = Some demo_fact\<rparr>,
             demo_ledger3, ClaimCommit)"
    using mint adm att
    by (simp add: claim_body_def demo_schema demo_get fld_def str_fld_def dhas_def demo_run_def demo_input_def)
  then show ?thesis by (simp add: ledger_claim_def demo_request demo_input_def)
qed

theorem claim_mints_only_when_admissible_witness:
  "\<exists>intent run. dget (intents demo_ledger2) ''e1'' = Some intent \<and> in_digest intent = ''d''
     \<and> dget (runs demo_ledger2) ''r1'' = Some run \<and> run_stopped_at run = None \<and> \<not> predecessor demo_ledger2 intent"
  using claim_mints_only_when_admissible [OF demo_claim_run] by (auto simp: demo_permit_def)

theorem one_permit_per_execution_witness:
  "distinct (map pm_execution (permits demo_proto demo_cfg
     [OpRegister NoFault 1 (VDict demo_envelope) (VStr ''a1''), OpClaim demo_input (VDict demo_envelope) ''q1'',
      OpClaim demo_input (VDict demo_envelope) ''q2''] demo_ledger1))
   \<and> minted demo_proto demo_cfg (OpClaim demo_input (VDict demo_envelope) ''q1'')
       (ledger_step demo_proto demo_cfg (OpRegister NoFault 1 (VDict demo_envelope) (VStr ''a1'')) demo_ledger1)
     = Some demo_permit"
  using one_permit_per_execution [of "[OpRegister NoFault 1 (VDict demo_envelope) (VStr ''a1''),
      OpClaim demo_input (VDict demo_envelope) ''q1'', OpClaim demo_input (VDict demo_envelope) ''q2'']"
      demo_proto demo_cfg demo_ledger1]
  by (simp add: is_sweep_def ledger_step_def minted_def demo_register demo_claim_run del: permits.simps)

definition demo_stopped :: ledger where
  "demo_stopped = (empty_ledger ''ep'')\<lparr>runs :=
     [(''r1'', \<lparr>run_session = ''s1'', run_owner = ''u1'', run_stopped_at = Some 5, run_stop_reason = Some ''shutdown''\<rparr>)]\<rparr>"

theorem stopped_run_never_dispatches_witness:
  "run_stop (ledger_step demo_proto demo_cfg (OpClaim demo_input (VDict demo_envelope) ''q1'') demo_stopped) ''r1''
     = Some (5, ''shutdown'')
   \<and> fst (open_send demo_proto demo_cfg 7 True NoFault demo_permit demo_envelope demo_stopped) \<noteq> Inr ()"
proof -
  have inv: "ledger_inv demo_stopped"
    by (simp add: ledger_inv_def inv_obs_def inv_keys_def inv_runs_def demo_stopped_def empty_ledger_def
        dhas_def calls_unique_def stop_consistent_def dict_ok_def)
  have st: "run_stop demo_stopped ''r1'' = Some (5, ''shutdown'')" by (simp add: run_stop_def demo_stopped_def)
  from stopped_run_never_dispatches [OF inv st, of demo_proto demo_cfg "[OpClaim demo_input (VDict demo_envelope) ''q1'']"]
    stopped_run_never_dispatches [OF inv st, of demo_proto demo_cfg "[]" demo_envelope 7 True NoFault demo_permit]
  show ?thesis by (simp add: demo_get)
qed

end
