(* ===== verification/Execution_Cutover.thy ===== *)
theory Execution_Cutover
  imports Ledger_Safety
begin

text \<open>
  Version cutover, restore and epoch rotation (\<open>execution_cutover.py\<close>) and the explicit ledger
  migration (\<open>execution_migration.py\<close>), on the ledger of theory \<open>Ledger_Tables\<close>. The
  normalization of a UUID is a parameter; a catalog without the protocol-state table is
  \<open>None\<close>. No step of this component enables admission.
\<close>

section \<open>Version changes\<close>

definition RECOVERY_MODES :: "string list" where
  "RECOVERY_MODES = [''normal'', ''disabled-recovery'']"

definition CLOCK_DISAGREEMENT_MARGIN_SECONDS :: int where
  "CLOCK_DISAGREEMENT_MARGIN_SECONDS = 60"

record cutover_decision =
  co_allowed :: bool
  co_reason :: string
  co_mode :: string
  co_change :: string
  co_admission_after :: bool
  co_must_disable_mutations :: bool
  co_must_stop_worker :: bool
  co_requires_epoch_rotation :: bool

text \<open>\<open>s.split(".")\<close>\<close>

fun split_dots :: "string \<Rightarrow> string list" where
  "split_dots [] = [[]]"
| "split_dots (c # cs) =
     (if c = CHR ''.'' then [] # split_dots cs
      else (case split_dots cs of [] \<Rightarrow> [[c]] | p # ps \<Rightarrow> (c # p) # ps))"

fun all_some :: "'a option list \<Rightarrow> 'a list option" where
  "all_some [] = Some []"
| "all_some (x # xs) =
     (case (x, all_some xs) of (Some a, Some as') \<Rightarrow> Some (a # as') | _ \<Rightarrow> None)"

definition version_tuple :: "val \<Rightarrow> int list option" where
  "version_tuple v =
     (case v of
        VList items \<Rightarrow> all_some (map int_of_val items)
      | VStr s \<Rightarrow> all_some (map int_of_str (filter (\<lambda>p. p \<noteq> []) (split_dots (strip s))))
      | _ \<Rightarrow> None)"

definition version_change :: "val \<Rightarrow> val \<Rightarrow> string" where
  "version_change current_version target_version =
     (case (version_tuple current_version, version_tuple target_version) of
        (Some current, Some target) \<Rightarrow>
          if target < current then ''downgrade'' else if target > current then ''upgrade'' else ''same''
      | _ \<Rightarrow> ''unknown'')"

definition plan_cutover :: "val \<Rightarrow> val \<Rightarrow> bool \<Rightarrow> string \<Rightarrow> cutover_decision" where
  "plan_cutover current_version target_version admission mode =
     (let base = \<lparr>co_allowed = False, co_reason = [], co_mode = mode, co_change = ''unknown'',
                  co_admission_after = False, co_must_disable_mutations = False,
                  co_must_stop_worker = False, co_requires_epoch_rotation = False\<rparr>;
          change = version_change current_version target_version
      in if mode \<notin> set RECOVERY_MODES then base\<lparr>co_reason := ''bad_recovery_mode''\<rparr>
         else if change \<in> {''downgrade'', ''unknown''} then
           (if mode \<noteq> ''disabled-recovery''
            then base\<lparr>co_reason := ''downgrade_requires_disabled_recovery'', co_change := change\<rparr>
            else base\<lparr>co_allowed := True, co_reason := ''disabled_recovery_required'', co_change := change,
                      co_must_disable_mutations := True, co_must_stop_worker := True,
                      co_requires_epoch_rotation := (change = ''unknown'')\<rparr>)
         else base\<lparr>co_allowed := True, co_reason := ''none'', co_change := change, co_admission_after := admission\<rparr>)"

section \<open>Restore and rotation\<close>

definition old_validity_wait_seconds :: "int \<Rightarrow> int \<Rightarrow> int" where
  "old_validity_wait_seconds clock_disagreement issuer_skew =
     MAX_LIFETIME_SECONDS + CLOCK_DISAGREEMENT_MARGIN_SECONDS + (max 0 clock_disagreement + max 0 issuer_skew)"

record restore_decision =
  rs_allowed :: bool
  rs_blockers :: "string list"
  rs_epochs_reconciled :: bool
  rs_admission_after :: bool
  rs_required_wait :: int

definition restore_interlock ::
  "string \<Rightarrow> string \<Rightarrow> bool \<Rightarrow> bool \<Rightarrow> bool \<Rightarrow> int \<Rightarrow> int \<Rightarrow> restore_decision" where
  "restore_interlock stored_epoch external_epoch evidence_retained old_senders_stopped wait_complete clock skew =
     (let reconciled = (stored_epoch \<noteq> [] \<and> stored_epoch = external_epoch);
          blockers = (if evidence_retained then [] else [''evidence_not_retained_outside_snapshot''])
                     @ (if old_senders_stopped then [] else [''old_senders_not_stopped''])
                     @ (if reconciled then [] else [''external_epoch_not_rotated''])
                     @ (if wait_complete then [] else [''old_validity_window_open''])
      in \<lparr>rs_allowed = (blockers = []), rs_blockers = blockers, rs_epochs_reconciled = reconciled,
          rs_admission_after = False, rs_required_wait = old_validity_wait_seconds clock skew\<rparr>)"

datatype cutover_error = BadUuid | Refused exc

definition rotate_tx :: "string \<Rightarrow> ledger \<Rightarrow> exc + bool \<times> ledger" where
  "rotate_tx epoch l =
     rbind (verify_schema l) (\<lambda>_.
     rbind (require (\<not> admission_enabled l) (ProtocolError ''epoch_rotation_refused_enabled'')) (\<lambda>_.
     if admission_epoch l = epoch then Inr (False, l)
     else Inr (True, l\<lparr>admission_epoch := epoch\<rparr>)))"

text \<open>\<open>rotate_epoch\<close>: whether the epoch was rotated; the row cannot change between the lock and the update.\<close>

definition rotate_epoch ::
  "(string \<Rightarrow> string option) \<Rightarrow> db_fault \<Rightarrow> string \<Rightarrow> ledger \<Rightarrow> (cutover_error + bool) \<times> ledger" where
  "rotate_epoch uuid_of fault new_epoch l =
     (case uuid_of new_epoch of
        None \<Rightarrow> (Inl BadUuid, l)
      | Some epoch \<Rightarrow>
          (case run_tx fault (rotate_tx epoch) l of
             (Inl e, l') \<Rightarrow> (Inl (Refused e), l')
           | (Inr b, l') \<Rightarrow> (Inr b, l')))"

section \<open>Migration\<close>

definition verify_version :: "int \<Rightarrow> ledger \<Rightarrow> exc + unit" where
  "verify_version version l =
     rbind (require (schema_version l = version \<and> schema_intact l) (ProtocolError ''schema_invalid'')) (\<lambda>_.
     require (settings_durable l) (ProtocolError ''store_unavailable''))"

text \<open>The version 1 catalog the migration script creates; \<open>durable\<close> is the server's setting.\<close>

definition fresh_catalog :: "string \<Rightarrow> bool \<Rightarrow> ledger" where
  "fresh_catalog epoch durable =
     \<lparr>schema_version = 1, admission_epoch = epoch, admission_enabled = False, schema_intact = True,
      settings_durable = durable, runs = [], intents = [], claims = [], obs_states = [], observations = [],
      next_seq = 0\<rparr>"

definition migrate_tx :: "string \<Rightarrow> bool \<Rightarrow> ledger option \<Rightarrow> exc + ledger" where
  "migrate_tx epoch durable catalog =
     rbind (case catalog of
              Some l \<Rightarrow>
                rbind (require (schema_version l \<in> {1, 2}) (ProtocolError ''schema_invalid'')) (\<lambda>_.
                rbind (verify_version (schema_version l) l) (\<lambda>_.
                (let upgrade = (schema_version l = 1) in
                 rbind (require (\<not> (admission_enabled l \<or> (upgrade \<and> admission_epoch l = epoch)
                                    \<or> (\<not> upgrade \<and> admission_epoch l \<noteq> epoch)))
                         (ProtocolError ''admission_disabled'')) (\<lambda>_.
                 Inr (l, upgrade)))))
            | None \<Rightarrow> Inr (fresh_catalog epoch durable, True))
       (\<lambda>(l, upgrade).
        let l' = (if upgrade then l\<lparr>schema_version := 2, admission_epoch := epoch, schema_intact := True\<rparr> else l)
        in rbind (verify_schema l') (\<lambda>_. Inr l'))"

definition migrate ::
  "(string \<Rightarrow> string option) \<Rightarrow> db_fault \<Rightarrow> string \<Rightarrow> bool \<Rightarrow> ledger option \<Rightarrow>
   (cutover_error + unit) \<times> ledger option" where
  "migrate uuid_of fault epoch durable catalog =
     (case uuid_of epoch of
        None \<Rightarrow> (Inl BadUuid, catalog)
      | Some e \<Rightarrow>
          if fault = StatementFault then (Inl (Refused DbError), catalog)
          else (case migrate_tx e durable catalog of
                  Inl x \<Rightarrow> (Inl (Refused x), catalog)
                | Inr l \<Rightarrow>
                    (case fault of
                       CommitFault applied \<Rightarrow> (Inl (Refused DbError), if applied then Some l else catalog)
                     | _ \<Rightarrow> (Inr (), Some l))))"

section \<open>What holds\<close>

text \<open>
  A version change is interlocked: the plan reports admission on only when it already was
  on and the change is an upgrade or none; a downgrade, and any change whose versions do not
  parse, is allowed only in disabled-recovery mode and then demands that mutations are disabled
  and the worker stopped, with an epoch rotation when a version is unknown.
\<close>

theorem plan_cutover_interlocked:
  "let d = plan_cutover cur tgt admission mode; change = version_change cur tgt in
   (co_admission_after d \<longrightarrow> admission \<and> co_allowed d \<and> change \<in> {''upgrade'', ''same''})
   \<and> (co_allowed d \<and> change \<in> {''downgrade'', ''unknown''} \<longrightarrow>
        mode = ''disabled-recovery'' \<and> co_must_disable_mutations d \<and> co_must_stop_worker d
        \<and> \<not> co_admission_after d \<and> (co_requires_epoch_rotation d \<longleftrightarrow> change = ''unknown''))
   \<and> (mode \<notin> {''normal'', ''disabled-recovery''} \<longrightarrow> \<not> co_allowed d)"
proof -
  have "version_change cur tgt \<in> {''downgrade'', ''upgrade'', ''same'', ''unknown''}"
    by (auto simp: version_change_def split: option.splits)
  then show ?thesis by (auto simp: plan_cutover_def Let_def RECOVERY_MODES_def)
qed

theorem plan_cutover_interlocked_witness:
  "co_allowed (plan_cutover (VStr ''1.10'') (VStr ''1.9'') True ''disabled-recovery'')
   \<and> co_must_stop_worker (plan_cutover (VStr ''1.10'') (VStr ''1.9'') True ''disabled-recovery'')
   \<and> \<not> co_admission_after (plan_cutover (VStr ''1.10'') (VStr ''1.9'') True ''disabled-recovery'')
   \<and> \<not> co_allowed (plan_cutover (VStr ''1.10'') (VStr ''1.9'') True ''other'')"
proof -
  have ch: "version_change (VStr ''1.10'') (VStr ''1.9'') = ''downgrade''" by code_simp
  then have al: "co_allowed (plan_cutover (VStr ''1.10'') (VStr ''1.9'') True ''disabled-recovery'')"
    by (simp add: plan_cutover_def RECOVERY_MODES_def)
  from al ch plan_cutover_interlocked [of "VStr ''1.10''" "VStr ''1.9''" True "''disabled-recovery''"]
    plan_cutover_interlocked [of "VStr ''1.10''" "VStr ''1.9''" True "''other''"]
  show ?thesis by (simp add: Let_def)
qed

text \<open>
  An empty version is not treated as unknown: \<open>_version_tuple\<close> maps a blank string to the
  empty tuple, which is smaller than every version, so in normal mode a change from a blank
  current version is an unrestricted upgrade that keeps admission on, although the docstring of
  \<open>plan_cutover\<close> refuses any change whose version cannot be determined.
\<close>

theorem blank_version_is_upgrade:
  assumes "version_tuple target = Some (x # xs)" and "list_all is_space blank"
  shows "version_tuple (VStr blank) = Some []
    \<and> co_allowed (plan_cutover (VStr blank) target True ''normal'')
    \<and> co_admission_after (plan_cutover (VStr blank) target True ''normal'')
    \<and> \<not> co_must_stop_worker (plan_cutover (VStr blank) target True ''normal'')"
proof -
  have d: "dropWhile is_space blank = []" using assms(2) by (simp add: list_all_iff)
  have "strip blank = []" unfolding strip_def d by simp
  then have b: "version_tuple (VStr blank) = Some []" by (simp add: version_tuple_def)
  then have "version_change (VStr blank) target = ''upgrade''"
    using assms(1) by (simp add: version_change_def)
  with b show ?thesis by (simp add: plan_cutover_def Let_def RECOVERY_MODES_def)
qed

theorem blank_version_is_upgrade_witness:
  "co_admission_after (plan_cutover (VStr '' '') (VStr ''2.0'') True ''normal'')"
proof -
  have "version_tuple (VStr ''2.0'') = Some (2 # [0])" by code_simp
  moreover have "list_all is_space '' ''" by code_simp
  ultimately show ?thesis using blank_version_is_upgrade [of "VStr ''2.0''" 2 "[0]" "'' ''"] by blast
qed

text \<open>A restore proceeds only when nothing blocks it, and the wait covers a full lifetime and the margin.\<close>

lemma restore_interlock_sound:
  "(rs_allowed (restore_interlock stored external kept stopped waited clock skew) \<longleftrightarrow>
      kept \<and> stopped \<and> waited \<and> stored \<noteq> [] \<and> stored = external)
   \<and> 960 \<le> rs_required_wait (restore_interlock stored external kept stopped waited clock skew)
   \<and> \<not> rs_admission_after (restore_interlock stored external kept stopped waited clock skew)"
  by (auto simp: restore_interlock_def Let_def old_validity_wait_seconds_def MAX_LIFETIME_SECONDS_def
      CLOCK_DISAGREEMENT_MARGIN_SECONDS_def)

lemma rotate_epoch_cases:
  assumes "rotate_epoch uuid_of fault e l = (res, l')"
  shows "(l' = l \<and> (\<forall>b. res = Inr b \<longrightarrow> \<not> admission_enabled l \<and> uuid_of e = Some (admission_epoch l)))
    \<or> (\<exists>n. uuid_of e = Some n \<and> \<not> admission_enabled l \<and> l' = l\<lparr>admission_epoch := n\<rparr>)"
  using assms
  by (auto simp: rotate_epoch_def run_tx_def rotate_tx_def simp del: rbind_Inr_iff elim!: rbindE
      split: option.split_asm if_split_asm sum.split_asm db_fault.split_asm prod.split_asm)

lemma migrate_tx_cases:
  assumes "migrate_tx epoch durable catalog = Inr l'"
  shows "schema_version l' = 2 \<and> \<not> admission_enabled l' \<and> admission_epoch l' = epoch \<and> verify_schema l' = Inr ()
    \<and> (\<forall>l. catalog = Some l \<longrightarrow> \<not> admission_enabled l \<and> runs l' = runs l \<and> intents l' = intents l
         \<and> claims l' = claims l \<and> obs_states l' = obs_states l \<and> observations l' = observations l)
    \<and> (catalog = None \<longrightarrow> runs l' = [] \<and> intents l' = [] \<and> claims l' = [])"
  using assms
  by (auto simp: migrate_tx_def Let_def fresh_catalog_def simp del: rbind_Inr_iff elim!: rbindE
      split: option.split_asm if_split_asm)

text \<open>
  Rotation and migration never enable admission and never touch evidence: a rotation is
  refused on an enabled catalog, leaves it disabled under exactly the requested epoch when it
  succeeds, and changes nothing but the epoch; a migration ends in a verified version 2 catalog
  with admission disabled under the requested epoch and every run, registration, claim and
  fact of an existing catalog intact; and whatever fails, an enabled catalog is left as it was.
\<close>

theorem cutover_never_enables_admission:
  "(\<forall>res l'. rotate_epoch uuid_of fault e l = (res, l') \<longrightarrow>
      (\<exists>n. l' = l\<lparr>admission_epoch := n\<rparr>) \<and> (admission_enabled l \<longrightarrow> l' = l \<and> (\<exists>x. res = Inl x))
      \<and> (\<forall>b. res = Inr b \<longrightarrow> \<not> admission_enabled l' \<and> uuid_of e = Some (admission_epoch l')))
   \<and> (\<forall>res c'. migrate uuid_of fault e durable c = (res, c') \<longrightarrow>
        (\<forall>l'. c' = Some l' \<and> c' \<noteq> c \<longrightarrow> \<not> admission_enabled l')
        \<and> (\<forall>l. c = Some l \<longrightarrow> (\<exists>l'. c' = Some l' \<and> runs l' = runs l \<and> intents l' = intents l \<and> claims l' = claims l
             \<and> obs_states l' = obs_states l \<and> observations l' = observations l
             \<and> (admission_enabled l \<longrightarrow> l' = l)))
        \<and> (res = Inr () \<longrightarrow> (\<exists>l'. c' = Some l' \<and> verify_schema l' = Inr () \<and> \<not> admission_enabled l'
             \<and> uuid_of e = Some (admission_epoch l'))))"
proof (intro conjI allI impI)
  fix res l'
  assume r: "rotate_epoch uuid_of fault e l = (res, l')"
  note c = rotate_epoch_cases [OF r]
  show "\<exists>n. l' = l\<lparr>admission_epoch := n\<rparr>"
  proof -
    from c consider "l' = l" | n where "l' = l\<lparr>admission_epoch := n\<rparr>" by blast
    then show ?thesis
    proof cases
      case 1
      then have "l' = l\<lparr>admission_epoch := admission_epoch l\<rparr>" by simp
      then show ?thesis by blast
    qed blast
  qed
  show "\<not> admission_enabled l'" and "uuid_of e = Some (admission_epoch l')" if "res = Inr b" for b
    using c that by auto
  assume "admission_enabled l"
  with c show "l' = l" and "\<exists>x. res = Inl x" by (auto, cases res) auto
next
  fix res c'
  assume m: "migrate uuid_of fault e durable c = (res, c')"
  then have cases: "(c' = c \<and> res \<noteq> Inr ()) \<or> (\<exists>n l'. uuid_of e = Some n \<and> migrate_tx n durable c = Inr l' \<and> c' = Some l')"
    by (auto simp: migrate_def split: option.split_asm if_split_asm sum.split_asm db_fault.split_asm)
  show "\<not> admission_enabled l'" if "c' = Some l' \<and> c' \<noteq> c" for l'
    using cases that migrate_tx_cases by fastforce
  show "\<exists>l'. c' = Some l' \<and> runs l' = runs l \<and> intents l' = intents l \<and> claims l' = claims l
      \<and> obs_states l' = obs_states l \<and> observations l' = observations l \<and> (admission_enabled l \<longrightarrow> l' = l)"
    if "c = Some l" for l
    using cases that migrate_tx_cases [of _ durable c] by fastforce
  show "\<exists>l'. c' = Some l' \<and> verify_schema l' = Inr () \<and> \<not> admission_enabled l' \<and> uuid_of e = Some (admission_epoch l')"
    if "res = Inr ()"
    using cases that migrate_tx_cases [of _ durable c] by fastforce
qed

theorem cutover_never_enables_admission_witness:
  "migrate Some NoFault ''ep'' True None = (Inr (), Some ((fresh_catalog ''ep'' True)\<lparr>schema_version := 2\<rparr>))
   \<and> \<not> admission_enabled ((fresh_catalog ''ep'' True)\<lparr>schema_version := 2\<rparr>)
   \<and> snd (rotate_epoch Some NoFault ''e2'' demo_ledger1) = demo_ledger1"
proof -
  have m: "migrate Some NoFault ''ep'' True None = (Inr (), Some ((fresh_catalog ''ep'' True)\<lparr>schema_version := 2\<rparr>))"
    by (simp add: migrate_def migrate_tx_def fresh_catalog_def verify_schema_def)
  obtain r l' where r: "rotate_epoch Some NoFault ''e2'' demo_ledger1 = (r, l')" by fastforce
  have "admission_enabled demo_ledger1" by (simp add: demo_ledger1_def demo_ledger0_def)
  with cutover_never_enables_admission [of Some NoFault "''e2''" demo_ledger1 True None] r have "l' = demo_ledger1" by blast
  moreover from cutover_never_enables_admission [of Some NoFault "''ep''" demo_ledger1 True None] m
  have "\<not> admission_enabled ((fresh_catalog ''ep'' True)\<lparr>schema_version := 2\<rparr>)" by blast
  ultimately show ?thesis using m r by simp
qed

end
