(* ===== verification/Execution_Records.thy ===== *)
theory Execution_Records
  imports Execution_Ledger
begin

text \<open>
  The execution records beside the ledger: one row per parked call, opened by the agent
  platform when a signed request is persisted and closed by whichever comes first, the worker's
  receipt, the agent's receipt or a rejection (\<open>execution_records.py\<close> of both products). Both
  backends are modelled: the in-memory dictionary, whose stamps are the texts of the envelopes,
  and the Postgres table the two products share, whose stamps are times in microseconds. The
  conversions between the two and the physical order in which a bounded delete meets the rows
  are arguments; text is compared by code point. An envelope's fields are strings, as its
  schema demands; a missing field raises \<open>KeyError\<close> (\<open>PyError\<close>).
\<close>

section \<open>Rows\<close>

record 't exec_record =
  er_confirm :: string
  er_call :: string
  er_session :: string
  er_execution :: string
  er_tool :: string
  er_requested :: 't
  er_status :: string
  er_digest_match :: "bool option"
  er_reject_reason :: "string option"
  er_receipt :: "json_obj option"
  er_completed :: "'t option"

type_synonym rec_key = "string \<times> string"
type_synonym mem_records = "(rec_key, string exec_record) dict"
type_synonym pg_records = "(rec_key, int exec_record) dict"

record stamp_env =
  ts_of :: "string \<Rightarrow> int option"
  iso_of :: "int \<Rightarrow> string"

text \<open>What a database call meets: a failure, the clock, and the table's physical order.\<close>

record pg_ctx =
  pg_fault :: db_fault
  pg_now :: int
  pg_scan :: "rec_key list \<Rightarrow> rec_key list"

definition RETENTION_WINDOW_DAYS :: int where
  "RETENTION_WINDOW_DAYS = 30"

definition SWEEP_LIMIT :: nat where
  "SWEEP_LIMIT = 100"

definition make_execution_record :: "json_obj \<Rightarrow> exc + string exec_record" where
  "make_execution_record req =
     rbind (str_fld req ''confirm_id'') (\<lambda>confirm.
     rbind (str_fld req ''call_id'') (\<lambda>call.
     rbind (str_fld req ''session_id'') (\<lambda>session.
     rbind (str_fld req ''execution_id'') (\<lambda>execution.
     rbind (str_fld req ''tool_name'') (\<lambda>tool.
     rbind (str_fld req ''requested_at'') (\<lambda>requested.
     Inr \<lparr>er_confirm = confirm, er_call = call, er_session = session, er_execution = execution,
          er_tool = tool, er_requested = requested, er_status = ''requested'', er_digest_match = None,
          er_reject_reason = None, er_receipt = None, er_completed = None\<rparr>))))))"

definition rec_key_of :: "'t exec_record \<Rightarrow> rec_key" where
  "rec_key_of r = (er_confirm r, er_call r)"

definition is_open :: "'t exec_record \<Rightarrow> bool" where
  "is_open r \<longleftrightarrow> er_status r = ''requested''"

section \<open>In-memory backend\<close>

text \<open>
  The four assignments of a close, in order: a receipt without \<open>completed_at\<close> raises after the
  first three took effect.
\<close>

definition close_row ::
  "json_obj \<Rightarrow> bool \<Rightarrow> string exec_record \<Rightarrow> (exc + unit) \<times> string exec_record" where
  "close_row receipt dm r =
     (case str_fld receipt ''status'' of
        Inl e \<Rightarrow> (Inl e, r)
      | Inr st \<Rightarrow>
          (let r1 = r\<lparr>er_status := st, er_digest_match := Some dm, er_receipt := Some receipt\<rparr> in
           case str_fld receipt ''completed_at'' of
             Inl e \<Rightarrow> (Inl e, r1)
           | Inr t \<Rightarrow> (Inr (), r1\<lparr>er_completed := Some t\<rparr>)))"

definition mem_save_request :: "string exec_record \<Rightarrow> mem_records \<Rightarrow> mem_records" where
  "mem_save_request r m = (if dhas m (rec_key_of r) then m else dset (rec_key_of r) r m)"

definition mem_save_receipt ::
  "string \<Rightarrow> string \<Rightarrow> json_obj \<Rightarrow> bool \<Rightarrow> mem_records \<Rightarrow> (exc + unit) \<times> mem_records" where
  "mem_save_receipt confirm call receipt dm m =
     (case dget m (confirm, call) of
        None \<Rightarrow> (Inr (), m)
      | Some r \<Rightarrow>
          if \<not> is_open r then (Inr (), m)
          else (case close_row receipt dm r of (res, r') \<Rightarrow> (res, dset (confirm, call) r' m)))"

definition mem_mark_rejected ::
  "string \<Rightarrow> string \<Rightarrow> string \<Rightarrow> bool option \<Rightarrow> mem_records \<Rightarrow> mem_records" where
  "mem_mark_rejected confirm call why dm m =
     (case dget m (confirm, call) of
        None \<Rightarrow> m
      | Some r \<Rightarrow>
          if \<not> is_open r then m
          else dset (confirm, call)
                 (r\<lparr>er_status := ''rejected'', er_reject_reason := Some why, er_digest_match := dm\<rparr>) m)"

definition mem_load_for_session :: "string \<Rightarrow> mem_records \<Rightarrow> string exec_record list" where
  "mem_load_for_session session m =
     sort_key (\<lambda>r. (er_requested r, er_call r)) (filter (\<lambda>r. er_session r = session) (dvalues m))"

definition mem_delete_session :: "string \<Rightarrow> mem_records \<Rightarrow> bool \<times> mem_records" where
  "mem_delete_session session m =
     (let doomed = map fst (filter (\<lambda>(k, r). er_session r = session) m) in (doomed \<noteq> [], dpops doomed m))"

text \<open>The worker's close: it opens a missing row, and hands back the receipt of a closed one.\<close>

definition mem_close_execution ::
  "string exec_record \<Rightarrow> json_obj \<Rightarrow> bool \<Rightarrow> mem_records \<Rightarrow> (exc + json_obj option) \<times> mem_records" where
  "mem_close_execution r receipt dm m =
     (case dget m (rec_key_of r) of
        None \<Rightarrow>
          (case close_row receipt dm r of
             (Inl e, _) \<Rightarrow> (Inl e, m)
           | (Inr _, r') \<Rightarrow> (Inr None, dset (rec_key_of r) r' m))
      | Some old \<Rightarrow>
          if \<not> is_open old then (Inr (er_receipt old), m)
          else (case close_row receipt dm old of
                  (res, old') \<Rightarrow> (rbind res (\<lambda>_. Inr None), dset (rec_key_of r) old' m)))"

section \<open>Postgres backend\<close>

definition pg_stamp :: "stamp_env \<Rightarrow> string \<Rightarrow> exc + int" where
  "pg_stamp env s = (case ts_of env s of None \<Rightarrow> Inl DbError | Some t \<Rightarrow> Inr t)"

definition sql_insert_request :: "stamp_env \<Rightarrow> string exec_record \<Rightarrow> pg_records \<Rightarrow> exc + pg_records" where
  "sql_insert_request env r tbl =
     rbind (pg_stamp env (er_requested r)) (\<lambda>requested.
     Inr (if dhas tbl (rec_key_of r) then tbl
          else dset (rec_key_of r)
                 \<lparr>er_confirm = er_confirm r, er_call = er_call r, er_session = er_session r,
                  er_execution = er_execution r, er_tool = er_tool r, er_requested = requested,
                  er_status = ''requested'', er_digest_match = None, er_reject_reason = None,
                  er_receipt = None, er_completed = None\<rparr> tbl))"

text \<open>\<open>UPDATE ... WHERE confirm_id AND call_id AND status = 'requested'\<close>, with the row count.\<close>

definition sql_update_open ::
  "rec_key \<Rightarrow> (int exec_record \<Rightarrow> int exec_record) \<Rightarrow> pg_records \<Rightarrow> nat \<times> pg_records" where
  "sql_update_open k f tbl =
     (case dget tbl k of
        None \<Rightarrow> (0, tbl)
      | Some r \<Rightarrow> if is_open r then (1, dset k (f r) tbl) else (0, tbl))"

definition sql_save_receipt ::
  "stamp_env \<Rightarrow> rec_key \<Rightarrow> json_obj \<Rightarrow> bool \<Rightarrow> pg_records \<Rightarrow> exc + nat \<times> pg_records" where
  "sql_save_receipt env k receipt dm tbl =
     rbind (str_fld receipt ''status'') (\<lambda>st.
     rbind (str_fld receipt ''completed_at'') (\<lambda>c.
     rbind (pg_stamp env c) (\<lambda>t.
     Inr (sql_update_open k (\<lambda>r. r\<lparr>er_status := st, er_digest_match := Some dm,
                                    er_receipt := Some receipt, er_completed := Some t\<rparr>) tbl))))"

definition sql_expired :: "int \<Rightarrow> int exec_record \<Rightarrow> bool" where
  "sql_expired now r \<longleftrightarrow> er_requested r \<le> now - seconds (RETENTION_WINDOW_DAYS * 86400)"

definition sql_sweep :: "pg_ctx \<Rightarrow> pg_records \<Rightarrow> pg_records" where
  "sql_sweep ctx tbl =
     dpops (take SWEEP_LIMIT
       (filter (\<lambda>k. case dget tbl k of None \<Rightarrow> False | Some r \<Rightarrow> sql_expired (pg_now ctx) r)
         (pg_scan ctx (map fst tbl)))) tbl"

definition pg_initialize :: "pg_ctx \<Rightarrow> pg_records \<Rightarrow> (exc + unit) \<times> pg_records" where
  "pg_initialize ctx = run_tx (pg_fault ctx) (\<lambda>tbl. Inr ((), sql_sweep ctx tbl))"

definition pg_save_request :: "stamp_env \<Rightarrow> pg_ctx \<Rightarrow> string exec_record \<Rightarrow> pg_records \<Rightarrow> (exc + unit) \<times> pg_records" where
  "pg_save_request env ctx r =
     run_tx (pg_fault ctx) (\<lambda>tbl.
       rbind (sql_insert_request env r tbl) (\<lambda>tbl1. Inr ((), sql_sweep ctx tbl1)))"

definition pg_save_receipt ::
  "stamp_env \<Rightarrow> pg_ctx \<Rightarrow> string \<Rightarrow> string \<Rightarrow> json_obj \<Rightarrow> bool \<Rightarrow> pg_records \<Rightarrow> (exc + unit) \<times> pg_records" where
  "pg_save_receipt env ctx confirm call receipt dm =
     run_tx (pg_fault ctx) (\<lambda>tbl.
       rbind (sql_save_receipt env (confirm, call) receipt dm tbl) (\<lambda>(n, tbl1). Inr ((), tbl1)))"

definition pg_mark_rejected ::
  "pg_ctx \<Rightarrow> string \<Rightarrow> string \<Rightarrow> string \<Rightarrow> bool option \<Rightarrow> pg_records \<Rightarrow> (exc + unit) \<times> pg_records" where
  "pg_mark_rejected ctx confirm call why dm =
     run_tx (pg_fault ctx) (\<lambda>tbl.
       Inr ((), snd (sql_update_open (confirm, call)
         (\<lambda>r. r\<lparr>er_status := ''rejected'', er_reject_reason := Some why, er_digest_match := dm\<rparr>) tbl)))"

definition row_to_record :: "stamp_env \<Rightarrow> int exec_record \<Rightarrow> string exec_record" where
  "row_to_record env r =
     \<lparr>er_confirm = er_confirm r, er_call = er_call r, er_session = er_session r,
      er_execution = er_execution r, er_tool = er_tool r, er_requested = iso_of env (er_requested r),
      er_status = er_status r, er_digest_match = er_digest_match r,
      er_reject_reason = er_reject_reason r, er_receipt = er_receipt r,
      er_completed = map_option (iso_of env) (er_completed r)\<rparr>"

definition pg_load_for_session ::
  "stamp_env \<Rightarrow> pg_ctx \<Rightarrow> string \<Rightarrow> pg_records \<Rightarrow> exc + string exec_record list" where
  "pg_load_for_session env ctx session tbl =
     (if pg_fault ctx = NoFault
      then Inr (map (row_to_record env)
             (sort_key (\<lambda>r. (er_requested r, er_call r)) (filter (\<lambda>r. er_session r = session) (dvalues tbl))))
      else Inl DbError)"

definition pg_delete_session :: "pg_ctx \<Rightarrow> string \<Rightarrow> pg_records \<Rightarrow> (exc + bool) \<times> pg_records" where
  "pg_delete_session ctx session =
     run_tx (pg_fault ctx) (\<lambda>tbl.
       Inr (list_ex (\<lambda>(k, r). er_session r = session) tbl,
            filter (\<lambda>(k, r). er_session r \<noteq> session) tbl))"

definition pg_close_execution ::
  "stamp_env \<Rightarrow> pg_ctx \<Rightarrow> string exec_record \<Rightarrow> json_obj \<Rightarrow> bool \<Rightarrow> pg_records \<Rightarrow>
   (exc + json_obj option) \<times> pg_records" where
  "pg_close_execution env ctx r receipt dm =
     run_tx (pg_fault ctx) (\<lambda>tbl.
       rbind (sql_insert_request env r tbl) (\<lambda>tbl1.
       rbind (sql_save_receipt env (rec_key_of r) receipt dm tbl1) (\<lambda>(n, tbl2).
       if n = 0
       then Inr (case dget tbl2 (rec_key_of r) of None \<Rightarrow> None | Some row \<Rightarrow> er_receipt row, tbl2)
       else Inr (None, sql_sweep ctx tbl2))))"

section \<open>Histories\<close>

datatype rec_op =
    SaveRequest "string exec_record"
  | SaveReceipt string string json_obj bool
  | MarkRejected string string string "bool option"
  | CloseExecution "string exec_record" json_obj bool
  | DeleteSession string
  | Initialize

definition mem_step :: "rec_op \<Rightarrow> mem_records \<Rightarrow> mem_records" where
  "mem_step op m =
     (case op of
        SaveRequest r \<Rightarrow> mem_save_request r m
      | SaveReceipt confirm call receipt dm \<Rightarrow> snd (mem_save_receipt confirm call receipt dm m)
      | MarkRejected confirm call why dm \<Rightarrow> mem_mark_rejected confirm call why dm m
      | CloseExecution r receipt dm \<Rightarrow> snd (mem_close_execution r receipt dm m)
      | DeleteSession session \<Rightarrow> snd (mem_delete_session session m)
      | Initialize \<Rightarrow> m)"

definition pg_step :: "stamp_env \<Rightarrow> pg_ctx \<times> rec_op \<Rightarrow> pg_records \<Rightarrow> pg_records" where
  "pg_step env cop tbl =
     (case cop of (ctx, op) \<Rightarrow>
      (case op of
         SaveRequest r \<Rightarrow> snd (pg_save_request env ctx r tbl)
       | SaveReceipt confirm call receipt dm \<Rightarrow> snd (pg_save_receipt env ctx confirm call receipt dm tbl)
       | MarkRejected confirm call why dm \<Rightarrow> snd (pg_mark_rejected ctx confirm call why dm tbl)
       | CloseExecution r receipt dm \<Rightarrow> snd (pg_close_execution env ctx r receipt dm tbl)
       | DeleteSession session \<Rightarrow> snd (pg_delete_session ctx session tbl)
       | Initialize \<Rightarrow> snd (pg_initialize ctx tbl)))"

section \<open>A closed row stays closed\<close>

lemma dict_ok_sql_sweep [simp, intro]: "dict_ok tbl \<Longrightarrow> dict_ok (sql_sweep ctx tbl)"
  by (simp add: sql_sweep_def)

lemma dget_sql_sweep:
  "dget tbl k = Some r \<Longrightarrow> \<not> sql_expired (pg_now ctx) r \<Longrightarrow> dget (sql_sweep ctx tbl) k = Some r"
  by (auto simp: sql_sweep_def dest!: in_set_takeD)

lemma sql_update_open_closed:
  "dget tbl k = Some r \<Longrightarrow> \<not> is_open r \<Longrightarrow> dget (snd (sql_update_open k' f tbl)) k = Some r"
  by (auto simp: sql_update_open_def split: option.splits)

lemma sql_update_open_dict_ok [simp]: "dict_ok tbl \<Longrightarrow> dict_ok (snd (sql_update_open k f tbl))"
  by (auto simp: sql_update_open_def split: option.splits)

lemma sql_insert_request_keeps:
  assumes "sql_insert_request env q tbl = Inr tbl'"
  shows "dget tbl k = Some r \<Longrightarrow> dget tbl' k = Some r" and "dict_ok tbl \<Longrightarrow> dict_ok tbl'"
  using assms by (auto simp: sql_insert_request_def dhas_dget split: if_split_asm elim!: rbindE)

lemma sql_save_receipt_eq:
  "sql_save_receipt env k receipt dm tbl = Inr (n, tbl') \<Longrightarrow> \<exists>f. sql_update_open k f tbl = (n, tbl')"
  by (auto simp: sql_save_receipt_def simp del: rbind_Inr_iff elim!: rbindE)

lemma sql_save_receipt_keeps:
  assumes "sql_save_receipt env k' receipt dm tbl = Inr (n, tbl')"
  shows "dget tbl k = Some r \<Longrightarrow> \<not> is_open r \<Longrightarrow> dget tbl' k = Some r" and "dict_ok tbl \<Longrightarrow> dict_ok tbl'"
  using sql_save_receipt_eq [OF assms] sql_update_open_closed sql_update_open_dict_ok by (metis snd_conv)+

section \<open>Retention and deletion aside, a closed row is final\<close>

text \<open>The calls that leave the rows of one session up to a horizon alone.\<close>

definition rec_keeps :: "int \<Rightarrow> string \<Rightarrow> pg_ctx \<times> rec_op \<Rightarrow> bool" where
  "rec_keeps h session cop \<longleftrightarrow> pg_now (fst cop) \<le> h \<and> snd cop \<noteq> DeleteSession session"

definition rec_settled :: "int \<Rightarrow> string \<Rightarrow> pg_records \<Rightarrow> rec_key \<Rightarrow> int exec_record option" where
  "rec_settled h session tbl k =
     (case dget tbl k of
        None \<Rightarrow> None
      | Some r \<Rightarrow> if \<not> is_open r \<and> er_session r = session \<and> \<not> sql_expired h r then Some r else None)"

lemma rec_settled_iff:
  "rec_settled h session tbl k = Some r \<longleftrightarrow>
     dget tbl k = Some r \<and> \<not> is_open r \<and> er_session r = session \<and> \<not> sql_expired h r"
  by (auto simp: rec_settled_def split: option.splits)

lemma not_expired_before: "\<not> sql_expired h r \<Longrightarrow> now \<le> h \<Longrightarrow> \<not> sql_expired now r"
  by (simp add: sql_expired_def)

lemma pg_step_dict_ok: "dict_ok tbl \<Longrightarrow> dict_ok (pg_step env cop tbl)"
  by (cases cop; cases "snd cop")
    (auto simp: pg_step_def pg_save_request_def pg_save_receipt_def pg_mark_rejected_def pg_close_execution_def
      pg_delete_session_def pg_initialize_def simp del: rbind_Inr_iff elim!: rbindE split: if_split_asm
      intro!: run_tx_keeps [where P = dict_ok] dest: sql_insert_request_keeps sql_save_receipt_keeps)

lemma pg_step_settled:
  assumes "rec_keeps h session cop" and "rec_settled h session tbl k = Some r"
  shows "rec_settled h session (pg_step env cop tbl) k = Some r"
proof -
  let ?P = "\<lambda>t. dget t k = Some r"
  from assms have r: "?P tbl" "\<not> is_open r" "er_session r = session" and now: "\<not> sql_expired (pg_now (fst cop)) r"
    by (auto simp: rec_settled_iff rec_keeps_def dest: not_expired_before)
  have "?P (pg_step env cop tbl)"
    using r now assms(1)
    by (cases cop; cases "snd cop")
      (auto simp: pg_step_def pg_save_request_def pg_save_receipt_def pg_mark_rejected_def pg_close_execution_def
        pg_delete_session_def pg_initialize_def rec_keeps_def simp del: rbind_Inr_iff elim!: rbindE split: if_split_asm
        intro!: run_tx_keeps [where P = ?P] dget_sql_sweep dget_filter_keep sql_update_open_closed
        dest: sql_insert_request_keeps sql_save_receipt_keeps)
  with assms(2) show ?thesis by (simp add: rec_settled_iff)
qed

interpretation pgr: settled_while "pg_step env" dict_ok "rec_keeps h session" "rec_settled h session"
  by unfold_locales (auto intro: pg_step_dict_ok pg_step_settled)

section \<open>The two backends agree\<close>

text \<open>
  A stamp the table stores without loss: it parses and prints back to itself. Orderings agree
  when the texts of such stamps are ordered as their times, as ISO stamps in one format are.
\<close>

definition stamp_ok :: "stamp_env \<Rightarrow> string \<Rightarrow> bool" where
  "stamp_ok env s \<longleftrightarrow> (case ts_of env s of None \<Rightarrow> False | Some t \<Rightarrow> iso_of env t = s)"

definition stamps_ordered :: "stamp_env \<Rightarrow> bool" where
  "stamps_ordered env \<longleftrightarrow>
     (\<forall>s t. stamp_ok env s \<and> stamp_ok env t \<longrightarrow> (s \<le> t \<longleftrightarrow> the (ts_of env s) \<le> the (ts_of env t)))"

text \<open>A request as \<open>make_execution_record\<close> shapes it, inside the retention window of \<open>h\<close>.\<close>

definition request_ok :: "stamp_env \<Rightarrow> int \<Rightarrow> string exec_record \<Rightarrow> bool" where
  "request_ok env h r \<longleftrightarrow>
     is_open r \<and> er_digest_match r = None \<and> er_reject_reason r = None \<and> er_receipt r = None
     \<and> er_completed r = None \<and> stamp_ok env (er_requested r)
     \<and> h - seconds (RETENTION_WINDOW_DAYS * 86400) < the (ts_of env (er_requested r))"

definition receipt_ok :: "stamp_env \<Rightarrow> json_obj \<Rightarrow> bool" where
  "receipt_ok env receipt \<longleftrightarrow>
     (\<exists>st c. str_fld receipt ''status'' = Inr st \<and> str_fld receipt ''completed_at'' = Inr c \<and> stamp_ok env c)"

definition rec_admits :: "stamp_env \<Rightarrow> int \<Rightarrow> pg_ctx \<times> rec_op \<Rightarrow> bool" where
  "rec_admits env h cop \<longleftrightarrow>
     pg_fault (fst cop) = NoFault \<and> pg_now (fst cop) \<le> h \<and>
     (case snd cop of
        SaveRequest r \<Rightarrow> request_ok env h r
      | SaveReceipt confirm call receipt dm \<Rightarrow> receipt_ok env receipt
      | CloseExecution r receipt dm \<Rightarrow> request_ok env h r \<and> receipt_ok env receipt
      | _ \<Rightarrow> True)"

definition rec_inv :: "stamp_env \<Rightarrow> int \<Rightarrow> pg_records \<Rightarrow> bool" where
  "rec_inv env h tbl \<longleftrightarrow> dict_ok tbl \<and>
     list_all (\<lambda>(k, r). \<not> sql_expired h r \<and> ts_of env (iso_of env (er_requested r)) = Some (er_requested r)) tbl"

definition rec_abs :: "stamp_env \<Rightarrow> pg_records \<Rightarrow> mem_records" where
  "rec_abs env tbl = map (\<lambda>(k, r). (k, row_to_record env r)) tbl"

lemma rec_abs_dget [simp]: "dget (rec_abs env tbl) k = map_option (row_to_record env) (dget tbl k)"
  by (induction tbl) (auto simp: rec_abs_def)

lemma rec_abs_dset [simp]: "rec_abs env (dset k r tbl) = dset k (row_to_record env r) (rec_abs env tbl)"
  by (induction tbl) (auto simp: rec_abs_def)

lemma rec_abs_dhas [simp]: "dhas (rec_abs env tbl) k = dhas tbl k"
  by (simp add: dhas_dget)

lemma rec_abs_dpops [simp]: "rec_abs env (dpops ks tbl) = dpops ks (rec_abs env tbl)"
  by (induction tbl) (auto simp: rec_abs_def dpops_def)

lemma is_open_row_to_record [simp]: "is_open (row_to_record env r) = is_open r"
  by (simp add: is_open_def row_to_record_def)

lemma sweep_nothing: "list_all (\<lambda>(k, r). \<not> sql_expired h r) tbl \<Longrightarrow> pg_now ctx \<le> h \<Longrightarrow> sql_sweep ctx tbl = tbl"
proof -
  assume all: "list_all (\<lambda>(k, r). \<not> sql_expired h r) tbl" and now: "pg_now ctx \<le> h"
  then have "\<not> sql_expired (pg_now ctx) r" if "dget tbl k = Some r" for k r
    using dget_in [OF that] not_expired_before by (fastforce simp: list_all_iff)
  then have "filter (\<lambda>k. case dget tbl k of None \<Rightarrow> False | Some r \<Rightarrow> sql_expired (pg_now ctx) r) ks = []" for ks
    by (auto simp: filter_empty_conv split: option.splits)
  then show ?thesis by (simp add: sql_sweep_def dpops_def)
qed

lemma rec_inv_dset:
  "rec_inv env h tbl \<Longrightarrow> \<not> sql_expired h r \<Longrightarrow> ts_of env (iso_of env (er_requested r)) = Some (er_requested r) \<Longrightarrow>
   rec_inv env h (dset k r tbl)"
  by (auto simp: rec_inv_def list_all_iff set_dset)

lemma rec_inv_sweep: "rec_inv env h tbl \<Longrightarrow> pg_now ctx \<le> h \<Longrightarrow> sql_sweep ctx tbl = tbl"
  by (rule sweep_nothing [of h]) (auto simp: rec_inv_def list_all_iff)

lemma rec_inv_dget:
  "rec_inv env h tbl \<Longrightarrow> dget tbl k = Some r \<Longrightarrow>
   \<not> sql_expired h r \<and> ts_of env (iso_of env (er_requested r)) = Some (er_requested r)"
  by (fastforce simp: rec_inv_def list_all_iff dest: dget_in)

lemma sql_insert_request_sim:
  assumes "rec_inv env h tbl" and "request_ok env h r"
  shows "\<exists>tbl'. sql_insert_request env r tbl = Inr tbl' \<and> rec_inv env h tbl'
    \<and> rec_abs env tbl' = mem_save_request r (rec_abs env tbl)"
  using assms
  by (cases r) (auto simp: sql_insert_request_def request_ok_def stamp_ok_def pg_stamp_def mem_save_request_def
      row_to_record_def is_open_def sql_expired_def rec_key_of_def split: option.splits intro!: rec_inv_dset)

lemma sql_update_open_sim:
  assumes "rec_inv env h tbl" and "\<And>r. er_requested (f r) = er_requested r"
    and "\<And>r. row_to_record env (f r) = g (row_to_record env r)"
  shows "rec_inv env h (snd (sql_update_open k f tbl))"
    and "rec_abs env (snd (sql_update_open k f tbl)) =
      (case dget (rec_abs env tbl) k of
         None \<Rightarrow> rec_abs env tbl
       | Some r \<Rightarrow> if \<not> is_open r then rec_abs env tbl else dset k (g r) (rec_abs env tbl))"
  using assms
  by (auto simp: sql_update_open_def sql_expired_def split: option.split intro!: rec_inv_dset
      dest: rec_inv_dget)

text \<open>Closing a row on a complete receipt is one update on both sides.\<close>

definition closed_row :: "string \<Rightarrow> string \<Rightarrow> json_obj \<Rightarrow> bool \<Rightarrow> string exec_record \<Rightarrow> string exec_record" where
  "closed_row st c receipt dm r =
     r\<lparr>er_status := st, er_digest_match := Some dm, er_receipt := Some receipt, er_completed := Some c\<rparr>"

lemma close_row_ok:
  assumes "str_fld receipt ''status'' = Inr st" and "str_fld receipt ''completed_at'' = Inr c"
  shows "close_row receipt dm r = (Inr (), closed_row st c receipt dm r)"
  unfolding close_row_def closed_row_def assms by simp

lemma sql_save_receipt_sim:
  assumes "rec_inv env h tbl" and "receipt_ok env receipt"
  shows "\<exists>n tbl'. sql_save_receipt env (confirm, call) receipt dm tbl = Inr (n, tbl') \<and> rec_inv env h tbl'
    \<and> rec_abs env tbl' = snd (mem_save_receipt confirm call receipt dm (rec_abs env tbl))
    \<and> (n = 0 \<longrightarrow> tbl' = tbl)"
proof -
  from assms(2) obtain st c t where f: "str_fld receipt ''status'' = Inr st" "str_fld receipt ''completed_at'' = Inr c"
      "ts_of env c = Some t" "iso_of env t = c"
    by (auto simp: receipt_ok_def stamp_ok_def split: option.splits)
  let ?f = "\<lambda>r. r\<lparr>er_status := st, er_digest_match := Some dm, er_receipt := Some receipt, er_completed := Some t\<rparr>"
  have g: "row_to_record env (?f r) = closed_row st c receipt dm (row_to_record env r)" for r
    by (simp add: row_to_record_def closed_row_def f)
  have "sql_save_receipt env (confirm, call) receipt dm tbl = Inr (sql_update_open (confirm, call) ?f tbl)"
    unfolding sql_save_receipt_def f(1,2) pg_stamp_def by (simp add: f(3))
  moreover have "rec_abs env (snd (sql_update_open (confirm, call) ?f tbl))
      = snd (mem_save_receipt confirm call receipt dm (rec_abs env tbl))"
    by (subst sql_update_open_sim(2) [where f = ?f and g = "closed_row st c receipt dm", OF assms(1) _ g])
      (simp_all add: mem_save_receipt_def close_row_ok [OF f(1,2)] split: option.split)
  moreover have "rec_inv env h (snd (sql_update_open (confirm, call) ?f tbl))"
    by (rule sql_update_open_sim(1) [where f = ?f and g = "closed_row st c receipt dm", OF assms(1) _ g]) simp
  moreover have "fst (sql_update_open (confirm, call) ?f tbl) = 0 \<longrightarrow> snd (sql_update_open (confirm, call) ?f tbl) = tbl"
    by (simp add: sql_update_open_def split: option.split)
  ultimately show ?thesis by (metis prod.collapse)
qed

lemma mem_close_is_save:
  assumes "receipt_ok env receipt" and "request_ok env h r"
  shows "snd (mem_close_execution r receipt dm m) =
    snd (mem_save_receipt (er_confirm r) (er_call r) receipt dm (mem_save_request r m))"
proof -
  from assms(1) obtain st c where "str_fld receipt ''status'' = Inr st" "str_fld receipt ''completed_at'' = Inr c"
    by (auto simp: receipt_ok_def)
  note cl = close_row_ok [OF this]
  have again: "dset k a (dset k b d) = dset k a d" for k a b and d :: mem_records
    by (induction d) auto
  show ?thesis
    using assms(2) by (cases "dget m (er_confirm r, er_call r)")
      (simp_all add: mem_close_execution_def mem_save_receipt_def mem_save_request_def cl rec_key_of_def
        again dhas_dget request_ok_def)
qed

lemma delete_session_sim:
  assumes "dict_ok tbl"
  shows "rec_abs env (filter (\<lambda>(k, r). er_session r \<noteq> session) tbl) = snd (mem_delete_session session (rec_abs env tbl))"
proof -
  have "map fst (filter (\<lambda>(k, r). er_session r = session) (rec_abs env tbl))
      = map fst (filter (\<lambda>(k, r). er_session r = session) tbl)"
    by (simp add: rec_abs_def filter_map case_prod_unfold row_to_record_def comp_def)
  then have "snd (mem_delete_session session (rec_abs env tbl))
      = rec_abs env (dpops (map fst (filter (\<lambda>(k, r). er_session r = session) tbl)) tbl)"
    by (simp add: mem_delete_session_def Let_def)
  then show ?thesis by (simp add: dpops_filter_keys [OF assms] case_prod_unfold)
qed

lemma pg_step_sim:
  assumes inv: "rec_inv env h tbl" and ok: "rec_admits env h cop"
  shows "rec_inv env h (pg_step env cop tbl) \<and> rec_abs env (pg_step env cop tbl) = mem_step (snd cop) (rec_abs env tbl)"
proof -
  obtain ctx op where cop: "cop = (ctx, op)" by (cases cop)
  from ok have nf: "pg_fault ctx = NoFault" and now: "pg_now ctx \<le> h" by (simp_all add: rec_admits_def cop)
  note sweep = rec_inv_sweep [OF _ now]
  show ?thesis
  proof (cases op)
    case (SaveRequest r)
    with ok obtain t where "sql_insert_request env r tbl = Inr t" "rec_inv env h t"
        "rec_abs env t = mem_save_request r (rec_abs env tbl)"
      using sql_insert_request_sim [OF inv] by (auto simp: rec_admits_def cop)
    with SaveRequest show ?thesis
      by (simp add: pg_step_def mem_step_def pg_save_request_def run_tx_def nf cop sweep)
  next
    case (SaveReceipt confirm call receipt dm)
    with ok obtain n t where "sql_save_receipt env (confirm, call) receipt dm tbl = Inr (n, t)" "rec_inv env h t"
        "rec_abs env t = snd (mem_save_receipt confirm call receipt dm (rec_abs env tbl))"
      using sql_save_receipt_sim [OF inv, of receipt confirm call dm] by (auto simp: rec_admits_def cop)
    with SaveReceipt show ?thesis
      by (simp add: pg_step_def mem_step_def pg_save_receipt_def run_tx_def nf cop)
  next
    case (MarkRejected confirm call why dm)
    let ?f = "\<lambda>r. r\<lparr>er_status := ''rejected'', er_reject_reason := Some why, er_digest_match := dm\<rparr>"
    have g: "row_to_record env (?f r) = (row_to_record env r)\<lparr>er_status := ''rejected'',
        er_reject_reason := Some why, er_digest_match := dm\<rparr>" for r
      by (simp add: row_to_record_def)
    let ?g = "\<lambda>r :: string exec_record. r\<lparr>er_status := ''rejected'', er_reject_reason := Some why, er_digest_match := dm\<rparr>"
    show ?thesis
      using sql_update_open_sim [where f = ?f and g = ?g and k = "(confirm, call)", OF inv _ g]
      by (simp add: pg_step_def mem_step_def pg_mark_rejected_def mem_mark_rejected_def run_tx_def nf cop MarkRejected)
  next
    case (CloseExecution r receipt dm)
    with ok have r: "request_ok env h r" "receipt_ok env receipt" by (simp_all add: rec_admits_def cop)
    from sql_insert_request_sim [OF inv r(1)] obtain t where t: "sql_insert_request env r tbl = Inr t"
        "rec_inv env h t" "rec_abs env t = mem_save_request r (rec_abs env tbl)" by blast
    from sql_save_receipt_sim [OF t(2) r(2), of "er_confirm r" "er_call r" dm] obtain n u where
        "sql_save_receipt env (rec_key_of r) receipt dm t = Inr (n, u)" "rec_inv env h u"
        "rec_abs env u = snd (mem_close_execution r receipt dm (rec_abs env tbl))"
      by (auto simp: rec_key_of_def mem_close_is_save [OF r(2,1)] t)
    with t(1) CloseExecution show ?thesis
      by (simp add: pg_step_def mem_step_def pg_close_execution_def run_tx_def nf cop sweep)
  next
    case (DeleteSession session)
    with inv show ?thesis
      by (auto simp: pg_step_def mem_step_def pg_delete_session_def run_tx_def nf cop rec_inv_def list_all_iff
          delete_session_sim)
  next
    case Initialize
    with inv show ?thesis by (simp add: pg_step_def mem_step_def pg_initialize_def run_tx_def nf cop sweep)
  qed
qed

interpretation pgm: refines "pg_step env" "\<lambda>cop. mem_step (snd cop)" "rec_abs env" "rec_inv env h" "rec_admits env h"
  by unfold_locales (simp_all add: pg_step_sim)

lemma load_sim:
  assumes inv: "rec_inv env h tbl" and ord: "stamps_ordered env"
  shows "map (row_to_record env)
      (sort_key (\<lambda>r. (er_requested r, er_call r)) (filter (\<lambda>r. er_session r = session) (dvalues tbl)))
    = mem_load_for_session session (rec_abs env tbl)"
proof -
  have vals: "dvalues (rec_abs env tbl) = map (row_to_record env) (dvalues tbl)"
    by (simp add: rec_abs_def dvalues_def case_prod_unfold)
  have again: "ts_of env (iso_of env (er_requested r)) = Some (er_requested r)" if "r \<in> set (dvalues tbl)" for r
    using inv that by (auto simp: rec_inv_def list_all_iff dvalues_def)
  have le: "iso_of env (er_requested a) \<le> iso_of env (er_requested b) \<longleftrightarrow> er_requested a \<le> er_requested b"
    if "a \<in> set (dvalues tbl)" and "b \<in> set (dvalues tbl)" for a b
    using ord [unfolded stamps_ordered_def, rule_format, of "iso_of env (er_requested a)" "iso_of env (er_requested b)"]
    by (simp add: stamp_ok_def again that)
  have less: "iso_of env (er_requested a) < iso_of env (er_requested b) \<longleftrightarrow> er_requested a < er_requested b"
    if "a \<in> set (dvalues tbl)" and "b \<in> set (dvalues tbl)" for a b
    using le [OF that] le [OF that(2,1)] by (simp add: less_le_not_le)
  show ?thesis
    unfolding mem_load_for_session_def vals
    by (subst map_sort_key [where g = "\<lambda>r. (er_requested r, er_call r)"])
      (auto simp: row_to_record_def filter_map comp_def le less)
qed

section \<open>Properties\<close>

lemma closed_row_kept:
  assumes "dict_ok tbl" and "dget tbl k = Some r" and "\<not> is_open r"
    and "list_all (\<lambda>(ctx, op). pg_now ctx \<le> h \<and> op \<noteq> DeleteSession (er_session r)) hist"
    and "h - seconds (RETENTION_WINDOW_DAYS * 86400) < er_requested r"
  shows "dget (fold (pg_step env) hist tbl) k = Some r"
proof -
  have "rec_settled h (er_session r) tbl k = Some r"
    using assms by (simp add: rec_settled_iff sql_expired_def)
  with assms(1,4) have "rec_settled h (er_session r) (fold (pg_step env) hist tbl) k = Some r"
    by (intro pgr.run_keeps) (auto simp: list_all_iff rec_keeps_def)
  then show ?thesis by (simp add: rec_settled_iff)
qed

lemma late_close_answer:
  assumes "dget tbl k = Some r" and "\<not> is_open r" and "rec_key_of q = k"
    and "pg_close_execution env ctx q receipt dm tbl = (Inr res, tbl')"
  shows "res = er_receipt r \<and> tbl' = tbl"
  using assms
  by (auto simp: pg_close_execution_def run_tx_Inr sql_insert_request_def sql_save_receipt_def
      sql_update_open_def dhas_dget simp del: rbind_Inr_iff elim!: rbindE split: if_split_asm)

text \<open>
  C22. The first close wins in the table both products share: once a row is closed, by a
  receipt of either product or by a rejection, no history of requests, receipts, rejections,
  worker closes, restarts, deletions of other sessions and failing transactions changes it while it is
  inside the retention window, and a worker that closes it again gets the surviving receipt back and
  writes nothing. The one operation that can end this is the deletion of the row's own session, and the
  row is unchanged until the first of them.
\<close>

theorem execution_closed_once:
  assumes "dict_ok tbl" and "dget tbl k = Some r" and "\<not> is_open r"
    and "list_all (\<lambda>(ctx, op). pg_now ctx \<le> h) hist"
    and "h - seconds (RETENTION_WINDOW_DAYS * 86400) < er_requested r"
  shows "dget (fold (pg_step env) hist tbl) k = Some r
      \<and> (\<forall>ctx q receipt dm res tbl'. rec_key_of q = k
           \<and> pg_close_execution env ctx q receipt dm (fold (pg_step env) hist tbl) = (Inr res, tbl') \<longrightarrow>
           res = er_receipt r \<and> tbl' = fold (pg_step env) hist tbl)
    \<or> (\<exists>before ctx later. hist = before @ (ctx, DeleteSession (er_session r)) # later
         \<and> DeleteSession (er_session r) \<notin> snd ` set before
         \<and> dget (fold (pg_step env) before tbl) k = Some r)"
proof (cases "DeleteSession (er_session r) \<in> snd ` set hist")
  case False
  then have "list_all (\<lambda>(ctx, op). pg_now ctx \<le> h \<and> op \<noteq> DeleteSession (er_session r)) hist"
    using assms(4) by (force simp: list_all_iff)
  from closed_row_kept [OF assms(1-3) this assms(5)] show ?thesis using late_close_answer [OF _ assms(3)] by blast
next
  case True
  then have "\<exists>x\<in>set hist. snd x = DeleteSession (er_session r)" by force
  from split_list_first_prop [OF this] obtain before x later where hist: "hist = before @ x # later"
    and x: "snd x = DeleteSession (er_session r)" and none: "\<forall>y\<in>set before. snd y \<noteq> DeleteSession (er_session r)" by auto
  have "list_all (\<lambda>(ctx, op). pg_now ctx \<le> h \<and> op \<noteq> DeleteSession (er_session r)) before"
    using assms(4) none by (force simp: hist list_all_iff)
  from closed_row_kept [OF assms(1-3) this assms(5)] show ?thesis
    using none x by (intro disjI2) (rule exI [of _ before], rule exI [of _ "fst x"], rule exI [of _ later], cases x, auto simp: hist)
qed

text \<open>
  C23. The Postgres backend implements the in-memory one: on any history of well-formed calls
  that does not reach the retention window, without database failures, the table read back
  through \<open>_row_to_record\<close> is the dictionary the in-memory store would hold, and both answer
  \<open>load_for_session\<close> with the same list, given that stamps print as they parse and are ordered
  as their texts.
\<close>

theorem record_backends_agree:
  assumes "stamps_ordered env" and "list_all (rec_admits env h) hist"
  shows "rec_abs env (fold (pg_step env) hist []) = fold (\<lambda>cop. mem_step (snd cop)) hist []
    \<and> (pg_fault ctx = NoFault \<longrightarrow>
         pg_load_for_session env ctx session (fold (pg_step env) hist [])
           = Inr (mem_load_for_session session (fold (\<lambda>cop. mem_step (snd cop)) hist [])))"
proof -
  have start: "rec_inv env h []" by (simp add: rec_inv_def)
  have sim: "rec_abs env (fold (pg_step env) hist []) = fold (\<lambda>cop. mem_step (snd cop)) hist []"
    using pgm.run_sim [OF start assms(2)] by (simp add: rec_abs_def)
  from load_sim [OF pgm.run_sim_inv [OF start assms(2)] assms(1)] sim show ?thesis
    by (simp add: pg_load_for_session_def)
qed

definition demo_stamps :: stamp_env where
  "demo_stamps =
     \<lparr>ts_of = (\<lambda>s. if s = ''2026-01-01T00:00:00Z'' then Some 1767225600000000
                   else if s = ''2026-01-01T00:00:09Z'' then Some 1767225609000000 else None),
      iso_of = (\<lambda>t. if t = 1767225600000000 then ''2026-01-01T00:00:00Z'' else ''2026-01-01T00:00:09Z'')\<rparr>"

definition demo_request :: "string exec_record" where
  "demo_request =
     \<lparr>er_confirm = ''c1'', er_call = ''k1'', er_session = ''s1'', er_execution = ''x1'', er_tool = ''restart'',
      er_requested = ''2026-01-01T00:00:00Z'', er_status = ''requested'', er_digest_match = None,
      er_reject_reason = None, er_receipt = None, er_completed = None\<rparr>"

definition demo_receipt :: json_obj where
  "demo_receipt = [(''status'', VStr ''succeeded''), (''completed_at'', VStr ''2026-01-01T00:00:09Z'')]"

definition demo_pg :: pg_ctx where
  "demo_pg = \<lparr>pg_fault = NoFault, pg_now = 1767225700000000, pg_scan = (\<lambda>ks. ks)\<rparr>"

definition demo_history :: "(pg_ctx \<times> rec_op) list" where
  "demo_history = [(demo_pg, SaveRequest demo_request), (demo_pg, CloseExecution demo_request demo_receipt True),
     (demo_pg, MarkRejected ''c1'' ''k1'' ''late'' None)]"

lemmas demo_record_defs = demo_stamps_def demo_request_def demo_receipt_def demo_pg_def demo_history_def

lemma demo_stamps_ordered: "stamps_ordered demo_stamps"
  by (auto simp: stamps_ordered_def stamp_ok_def demo_stamps_def split: if_splits)

lemma demo_history_admitted: "list_all (rec_admits demo_stamps 1767225700000000) demo_history"
  by (simp add: rec_admits_def request_ok_def receipt_ok_def stamp_ok_def is_open_def demo_record_defs
      RETENTION_WINDOW_DAYS_def seconds_def)

theorem record_backends_agree_witness:
  "pg_load_for_session demo_stamps demo_pg ''s1'' (fold (pg_step demo_stamps) demo_history [])
     = Inr (mem_load_for_session ''s1'' (fold (\<lambda>cop. mem_step (snd cop)) demo_history []))
   \<and> map er_status (mem_load_for_session ''s1'' (fold (\<lambda>cop. mem_step (snd cop)) demo_history [])) = [''succeeded'']"
  using record_backends_agree [OF demo_stamps_ordered demo_history_admitted, of demo_pg "''s1''"]
  by (simp add: demo_record_defs mem_step_def mem_save_request_def mem_close_execution_def mem_mark_rejected_def
      rec_key_of_def dhas_dget close_row_def str_fld_def fld_def is_open_def mem_load_for_session_def dvalues_def)

definition demo_row :: "int exec_record" where
  "demo_row =
     \<lparr>er_confirm = ''c1'', er_call = ''k1'', er_session = ''s1'', er_execution = ''x1'', er_tool = ''restart'',
      er_requested = 1767225600000000, er_status = ''timeout'', er_digest_match = Some True,
      er_reject_reason = None, er_receipt = Some [(''status'', VStr ''timeout'')],
      er_completed = Some 1767225609000000\<rparr>"

theorem execution_closed_once_witness:
  "dget (fold (pg_step demo_stamps) demo_history [((''c1'', ''k1''), demo_row)]) (''c1'', ''k1'') = Some demo_row"
proof -
  have "list_all (\<lambda>(ctx, op). pg_now ctx \<le> 1767225700000000) demo_history" by (simp add: demo_record_defs seconds_def)
  moreover have "DeleteSession (er_session demo_row) \<notin> snd ` set demo_history" by (simp add: demo_row_def demo_record_defs)
  then have "demo_history \<noteq> before @ (ctx, DeleteSession (er_session demo_row)) # later" for before ctx later
    by (metis image_eqI in_set_conv_decomp snd_conv)
  moreover have "\<not> is_open demo_row" "1767225700000000 - seconds (RETENTION_WINDOW_DAYS * 86400) < er_requested demo_row"
    by (simp_all add: is_open_def demo_row_def RETENTION_WINDOW_DAYS_def seconds_def)
  ultimately show ?thesis
    using execution_closed_once [of "[((''c1'', ''k1''), demo_row)]" "(''c1'', ''k1'')" demo_row 1767225700000000
        demo_history demo_stamps]
    by (auto simp: dict_ok_def)
qed

end
