(* ===== verification/Executor.thy ===== *)
theory Executor
  imports Execution_Ledger
begin

text \<open>
  The worker's gateway exchange (\<open>services/executor.py\<close>) and the human verification of a
  delegated execution (\<open>services/delegated_execution.py\<close>): which request is put on the wire,
  how a response becomes a tool report or stays uncertain, and what binds a delegated send to
  its two humans. JWT verification (signature, issuer, audience, required claims), the identity
  trust settings check and the workload token file are arguments; times are microseconds.
\<close>

section \<open>Settings and messages\<close>

record worker_settings =
  ws_handoff_token :: string
  ws_gateway_url :: string
  ws_target_authorization :: bool
  ws_trust_valid :: bool
  ws_issuer :: string
  ws_actors :: "string list"
  ws_jwt :: "string \<Rightarrow> json_obj option"
  ws_token_file :: "string option"

record gw_request =
  gr_url :: string
  gr_payload :: json_obj
  gr_headers :: "(string, string) dict"

text \<open>A timeout or transport error, or a response: status, \<open>x-request-id\<close> header, JSON body.\<close>

datatype gw_out = GwTransport | GwResponse int "string option" "val option"

definition IDENTITY_FIELDS :: "string list" where
  "IDENTITY_FIELDS = [''requester_namespace'', ''requester_sub'', ''decider_namespace'', ''decider_sub'']"

definition MAX_TOKEN_BYTES :: nat where
  "MAX_TOKEN_BYTES = 16384"

section \<open>Delegated executions\<close>

definition bounded :: "val \<Rightarrow> bool" where
  "bounded v =
     (case v of
        VStr s \<Rightarrow> 0 < length s \<and> length s \<le> 256 \<and> s = strip s
                  \<and> \<not> list_ex (\<lambda>c. (of_char c :: nat) < 32 \<or> (of_char c :: nat) = 127) s
      | _ \<Rightarrow> False)"

text \<open>\<open>_human\<close>: every failure, whatever its kind, is \<open>unauthorized\<close>.\<close>

definition human_claims_ok :: "worker_settings \<Rightarrow> json_obj \<Rightarrow> val \<Rightarrow> val \<Rightarrow> val \<Rightarrow> int option" where
  "human_claims_ok st jc namespace subject username =
     (case (dget jc ''exp'', dget jc ''iat'', dget jc ''act'') of
        (Some (VInt ex), Some (VInt iat), Some (VDict [(k, VStr actor)])) \<Rightarrow>
          if namespace = VStr (ws_issuer st) \<and> dget jc ''sub'' = Some subject
             \<and> get_none jc ''username'' = username \<and> bounded subject \<and> bounded username
             \<and> dget jc ''authentication_source'' = Some (VStr ''oidc'') \<and> iat < ex
             \<and> k = ''sub'' \<and> actor \<in> set (ws_actors st)
          then Some ex else None
      | _ \<Rightarrow> None)"

definition human :: "worker_settings \<Rightarrow> val \<Rightarrow> val \<Rightarrow> val \<Rightarrow> val \<Rightarrow> exc + int" where
  "human st token namespace subject username =
     (case Option.bind (as_str token) (\<lambda>s.
             if 0 < length s \<and> length s \<le> MAX_TOKEN_BYTES
             then Option.bind (ws_jwt st s) (\<lambda>jc. human_claims_ok st jc namespace subject username)
             else None) of
        None \<Rightarrow> Inl (ProtocolError ''unauthorized'')
      | Some ex \<Rightarrow> Inr ex)"

record verified_delegated =
  vd_projection :: json_obj
  vd_requester :: val
  vd_decider :: val
  vd_expires :: int

definition require_live :: "int \<Rightarrow> verified_delegated \<Rightarrow> exc + unit" where
  "require_live now vd = require (now < seconds (vd_expires vd)) (ProtocolError ''unauthorized'')"

definition verify_handoff ::
  "proto_env \<Rightarrow> worker_settings \<Rightarrow> string \<Rightarrow> int \<Rightarrow> json_obj \<Rightarrow> val \<Rightarrow> val \<Rightarrow> val \<Rightarrow> exc + verified_delegated" where
  "verify_handoff env st key now envelope arguments decider_token requester_token =
     rbind (validate_request env (VDict envelope) key) (\<lambda>_.
     rbind (require (list_all (dhas envelope) IDENTITY_FIELDS) (ProtocolError ''bad_request'')) (\<lambda>_.
     rbind (require (ws_target_authorization st) (ProtocolError ''gateway_not_configured'')) (\<lambda>_.
     rbind (require (ws_trust_valid st) (ProtocolError ''gateway_not_configured'')) (\<lambda>_.
     rbind (fld envelope ''args_digest'') (\<lambda>ad.
     rbind (require (as_dict arguments \<noteq> None \<and> VStr (canonical_digest (cr env) arguments) = ad)
             (ProtocolError ''args_digest_mismatch'')) (\<lambda>_.
     rbind (fld envelope ''owner_user_id'') (\<lambda>owner.
     rbind (human st requester_token (get_none envelope ''requester_namespace'')
              (get_none envelope ''requester_sub'') owner) (\<lambda>owner_exp.
     rbind (fld envelope ''decider_user_id'') (\<lambda>decider.
     rbind (human st decider_token (get_none envelope ''decider_namespace'')
              (get_none envelope ''decider_sub'') decider) (\<lambda>decider_exp.
     (let projection = dset ''request_digest'' (VStr (canonical_digest (cr env) (VDict envelope)))
                         (filter (\<lambda>p. fst p \<noteq> ''signature'') envelope);
          vd = \<lparr>vd_projection = projection, vd_requester = requester_token, vd_decider = decider_token,
                vd_expires = min owner_exp decider_exp\<rparr>
      in rbind (require_live now vd) (\<lambda>_. Inr vd))))))))))))"

definition check_send ::
  "proto_env \<Rightarrow> int \<Rightarrow> verified_delegated \<Rightarrow> val \<Rightarrow> json_obj \<Rightarrow> val \<Rightarrow> val \<Rightarrow> val \<Rightarrow> val \<Rightarrow> exc + unit" where
  "check_send env now vd tool_name arguments decider_token session_id approval_kind execution_id =
     rbind (require_live now vd) (\<lambda>_.
     require (is_str decider_token \<and> decider_token = vd_decider vd
       \<and> list_all (\<lambda>(k, v). dget (vd_projection vd) k = Some v)
           [(''tool_name'', tool_name), (''session_id'', session_id), (''approval_kind'', approval_kind),
            (''execution_id'', execution_id), (''args_digest'', VStr (canonical_digest (cr env) (VDict arguments)))])
       (ProtocolError ''identity_conflict''))"

text \<open>\<open>[A-Za-z0-9_-]+\.[A-Za-z0-9_-]+\.[A-Za-z0-9_-]+\<close> on the stripped file content.\<close>

definition jwt_char :: "char \<Rightarrow> bool" where
  "jwt_char c \<longleftrightarrow> is_digit c \<or> (CHR ''A'' \<le> c \<and> c \<le> CHR ''Z'') \<or> (CHR ''a'' \<le> c \<and> c \<le> CHR ''z'')
     \<or> c = CHR ''_'' \<or> c = CHR ''-''"

definition jwt_shaped :: "string \<Rightarrow> bool" where
  "jwt_shaped s =
     (let a = takeWhile jwt_char s; r = dropWhile jwt_char s; b = takeWhile jwt_char (tl r);
          q = dropWhile jwt_char (tl r)
      in a \<noteq> [] \<and> r \<noteq> [] \<and> hd r = CHR ''.'' \<and> b \<noteq> [] \<and> q \<noteq> [] \<and> hd q = CHR ''.''
         \<and> tl q \<noteq> [] \<and> list_all jwt_char (tl q))"

definition read_workload_token :: "worker_settings \<Rightarrow> exc + string" where
  "read_workload_token st =
     (case ws_token_file st of
        None \<Rightarrow> Inl (ProtocolError ''credential_missing'')
      | Some content \<Rightarrow>
          if MAX_TOKEN_BYTES < length content \<or> list_ex (\<lambda>c. 128 \<le> (of_char c :: nat)) content
             \<or> \<not> jwt_shaped (strip content)
          then Inl (ProtocolError ''credential_missing'')
          else Inr (strip content))"

section \<open>The exchange\<close>

definition rstrip_slash :: "string \<Rightarrow> string" where
  "rstrip_slash s = rev (dropWhile (\<lambda>c. c = CHR ''/'') (rev s))"

definition opt_field :: "string \<Rightarrow> val \<Rightarrow> json_obj" where
  "opt_field k v = (if truthy v then [(k, v)] else [])"

text \<open>The request \<open>execute_tool\<close> puts on the wire, or the refusal before anything is sent.\<close>

definition prepare_delegated ::
  "proto_env \<Rightarrow> worker_settings \<Rightarrow> int \<Rightarrow> val \<Rightarrow> json_obj \<Rightarrow> val \<Rightarrow> string \<Rightarrow> val \<Rightarrow> val \<Rightarrow> val \<Rightarrow>
   verified_delegated \<Rightarrow> exc + gw_request" where
  "prepare_delegated env st now tool_name arguments token rid session_id approval_kind execution_id vd =
     rbind (check_send env now vd tool_name arguments token session_id approval_kind execution_id) (\<lambda>_.
     rbind (read_workload_token st) (\<lambda>workload.
     Inr \<lparr>gr_url = rstrip_slash (ws_gateway_url st) @ ''/api/v2/tools/invoke-delegated'',
          gr_payload = [(''projection'', VDict (vd_projection vd)), (''parameters'', VDict arguments),
            (''requester_token'', vd_requester vd), (''decider_token'', token), (''request_id'', VStr rid)],
          gr_headers = [(''Authorization'', ''Bearer '' @ workload), (''x-request-id'', rid)]\<rparr>))"

definition execute_tool ::
  "proto_env \<Rightarrow> worker_settings \<Rightarrow> int \<Rightarrow> val \<Rightarrow> json_obj \<Rightarrow> val \<Rightarrow> string \<Rightarrow> val \<Rightarrow> val \<Rightarrow> val \<Rightarrow>
   verified_delegated option \<Rightarrow> exc + gw_request" where
  "execute_tool env st now tool_name arguments token rid session_id approval_kind execution_id delegated =
     (if ws_gateway_url st = [] then Inl (ProtocolError ''gateway_not_configured'')
      else (case delegated of
              Some vd \<Rightarrow> prepare_delegated env st now tool_name arguments token rid session_id approval_kind
                           execution_id vd
            | None \<Rightarrow>
                if \<not> truthy token then Inl (ProtocolError ''credential_missing'')
                else Inr \<lparr>gr_url = rstrip_slash (ws_gateway_url st) @ ''/api/v2/tools/invoke'',
                          gr_payload = [(''tool_name'', tool_name), (''parameters'', VDict arguments),
                            (''request_id'', VStr rid)] @ opt_field ''session_id'' session_id
                            @ opt_field ''approval_kind'' approval_kind,
                          gr_headers = [(''Authorization'', ''Bearer '' @ str_of_val token), (''x-request-id'', rid)]
                            @ (if truthy execution_id then [(''x-execution-id'', str_of_val execution_id)] else [])\<rparr>))"

definition report_consistent :: "json_obj \<Rightarrow> val \<Rightarrow> exc + bool" where
  "report_consistent result tool_name =
     rbind (fld result ''tool_name'') (\<lambda>t.
     rbind (fld result ''status'') (\<lambda>s.
     Inr (t = tool_name
       \<and> (s = VStr ''success'' \<longrightarrow> dhas result ''data'' \<and> \<not> truthy (get_none result ''error''))
       \<and> (s \<noteq> VStr ''success'' \<longrightarrow> truthy (get_none result ''error'')))))"

text \<open>\<open>_post_invoke\<close> on the outcome of the one exchange.\<close>

definition post_invoke :: "proto_env \<Rightarrow> gw_out \<Rightarrow> string \<Rightarrow> val \<Rightarrow> exc + json_obj" where
  "post_invoke env out rid tool_name =
     (case out of
        GwTransport \<Rightarrow> Inl (ProtocolError ''transport_error'')
      | GwResponse code hdr body \<Rightarrow>
          if (300 \<le> code \<and> code < 400) \<or> hdr \<noteq> Some rid then Inl (ProtocolError ''response_invalid'')
          else (case body of
                  None \<Rightarrow> Inl (ProtocolError ''response_invalid'')
                | Some v \<Rightarrow>
                    if \<not> schema_ok env ''tool-result'' v then Inl (ProtocolError ''response_invalid'')
                    else (case as_dict v of
                            None \<Rightarrow> Inl (ProtocolError ''response_invalid'')
                          | Some result \<Rightarrow>
                              rbind (report_consistent result tool_name) (\<lambda>ok.
                              if ok then Inr result else Inl (ProtocolError ''response_invalid'')))))"

definition map_result_status :: "json_obj \<Rightarrow> exc + string" where
  "map_result_status result =
     rbind (fld result ''status'') (\<lambda>s.
     if s = VStr ''success'' then Inr ''succeeded''
     else if \<not> truthy (get_none result ''error'') then Inr ''failed''
     else (case as_dict (get_none result ''error'') of
             None \<Rightarrow> Inl PyError
           | Some e \<Rightarrow> Inr (if get_none e ''code'' = VStr ''TIMEOUT'' then ''timeout'' else ''failed'')))"

section \<open>Properties\<close>

lemma human_Inr:
  assumes "human st token namespace subject username = Inr ex"
  obtains tok jc iat actor where "token = VStr tok" and "tok \<noteq> []" and "ws_jwt st tok = Some jc"
    and "namespace = VStr (ws_issuer st)" and "dget jc ''sub'' = Some subject" and "dget jc ''username'' = Some username"
    and "dget jc ''exp'' = Some (VInt ex)" and "dget jc ''iat'' = Some (VInt iat)" and "iat < ex"
    and "dget jc ''authentication_source'' = Some (VStr ''oidc'')"
    and "dget jc ''act'' = Some (VDict [(''sub'', VStr actor)])" and "actor \<in> set (ws_actors st)"
proof -
  from assms obtain tok jc where t: "token = VStr tok" "tok \<noteq> []" "ws_jwt st tok = Some jc"
    and c: "human_claims_ok st jc namespace subject username = Some ex"
    by (cases token) (auto simp: human_def split: if_split_asm option.split_asm bind_split_asm)
  from c obtain iat k actor where f: "dget jc ''exp'' = Some (VInt ex)" "dget jc ''iat'' = Some (VInt iat)"
      "dget jc ''act'' = Some (VDict [(k, VStr actor)])"
    and g: "namespace = VStr (ws_issuer st)" "dget jc ''sub'' = Some subject" "get_none jc ''username'' = username"
      "bounded username" "dget jc ''authentication_source'' = Some (VStr ''oidc'')" "iat < ex" "k = ''sub''"
      "actor \<in> set (ws_actors st)"
    by (auto simp: human_claims_ok_def split: option.split_asm val.split_asm list.split_asm prod.split_asm if_split_asm)
  from g(3,4) have "dget jc ''username'' = Some username"
    by (cases "dget jc ''username''") (auto simp: get_none_def bounded_def)
  with t f g show ?thesis using that by blast
qed

lemma verify_handoff_Inr:
  assumes "verify_handoff env st key now envelope arguments decider_token requester_token = Inr vd"
  obtains owner decider owner_exp decider_exp where "dget envelope ''owner_user_id'' = Some owner"
    and "dget envelope ''decider_user_id'' = Some decider" and "list_all (dhas envelope) IDENTITY_FIELDS"
    and "dget envelope ''args_digest'' = Some (VStr (canonical_digest (cr env) arguments))"
    and "human st requester_token (get_none envelope ''requester_namespace'') (get_none envelope ''requester_sub'') owner
        = Inr owner_exp"
    and "human st decider_token (get_none envelope ''decider_namespace'') (get_none envelope ''decider_sub'') decider
        = Inr decider_exp"
    and "vd = \<lparr>vd_projection = dset ''request_digest'' (VStr (canonical_digest (cr env) (VDict envelope)))
                         (dpop ''signature'' envelope), vd_requester = requester_token, vd_decider = decider_token,
                vd_expires = min owner_exp decider_exp\<rparr>"
  using assms by (auto simp: verify_handoff_def Let_def dpop_def simp del: rbind_Inr_iff elim!: rbindE)

lemma prepare_delegated_Inr:
  assumes "prepare_delegated env st now tool args token rid session approval eid vd = Inr req"
  obtains workload where "check_send env now vd tool args token session approval eid = Inr ()"
    and "read_workload_token st = Inr workload" and "dget (gr_headers req) ''Authorization'' = Some (''Bearer '' @ workload)"
    and "gr_payload req = [(''projection'', VDict (vd_projection vd)), (''parameters'', VDict args),
            (''requester_token'', vd_requester vd), (''decider_token'', token), (''request_id'', VStr rid)]"
  using assms by (auto simp: prepare_delegated_def simp del: rbind_Inr_iff elim!: rbindE)

text \<open>
  A delegated send is bound to its two humans: when the request of a verified delegated
  execution goes on the wire, it carries exactly the decider token that was verified, both
  tokens were OIDC tokens of the trusted issuer and actor for the requester and the decider the
  signed envelope names and neither has expired at the send, the tool, session, approval kind,
  execution and arguments are those of the signed envelope, and the channel is authenticated by
  the workload token and by neither human token.
\<close>

theorem delegated_send_bound:
  assumes "verify_handoff env st key now envelope arguments decider_token requester_token = Inr vd"
    and "prepare_delegated env st now' tool args token rid session approval eid vd = Inr req"
  shows "token = decider_token
    \<and> (\<exists>dt rt dc rc dexp rexp workload. decider_token = VStr dt \<and> requester_token = VStr rt
        \<and> ws_jwt st dt = Some dc \<and> ws_jwt st rt = Some rc
        \<and> dget dc ''sub'' = Some (get_none envelope ''decider_sub'') \<and> dget dc ''username'' = dget envelope ''decider_user_id''
        \<and> dget rc ''sub'' = Some (get_none envelope ''requester_sub'') \<and> dget rc ''username'' = dget envelope ''owner_user_id''
        \<and> dget dc ''exp'' = Some (VInt dexp) \<and> dget rc ''exp'' = Some (VInt rexp)
        \<and> now' < seconds dexp \<and> now' < seconds rexp
        \<and> read_workload_token st = Inr workload \<and> dget (gr_headers req) ''Authorization'' = Some (''Bearer '' @ workload))
    \<and> dget envelope ''tool_name'' = Some tool \<and> dget envelope ''session_id'' = Some session
    \<and> dget envelope ''approval_kind'' = Some approval \<and> dget envelope ''execution_id'' = Some eid
    \<and> dget envelope ''args_digest'' = Some (VStr (canonical_digest (cr env) (VDict args)))
    \<and> canonical_digest (cr env) (VDict args) = canonical_digest (cr env) arguments"
proof -
  from assms(1) obtain owner decider owner_exp decider_exp where
      o: "dget envelope ''owner_user_id'' = Some owner" "dget envelope ''decider_user_id'' = Some decider"
    and a: "dget envelope ''args_digest'' = Some (VStr (canonical_digest (cr env) arguments))"
    and ho: "human st requester_token (get_none envelope ''requester_namespace'') (get_none envelope ''requester_sub'') owner
        = Inr owner_exp"
    and hd: "human st decider_token (get_none envelope ''decider_namespace'') (get_none envelope ''decider_sub'') decider
        = Inr decider_exp"
    and vd: "vd = \<lparr>vd_projection = dset ''request_digest'' (VStr (canonical_digest (cr env) (VDict envelope)))
                         (dpop ''signature'' envelope), vd_requester = requester_token, vd_decider = decider_token,
                vd_expires = min owner_exp decider_exp\<rparr>"
    by (rule verify_handoff_Inr)
  from assms(2) obtain workload where c: "check_send env now' vd tool args token session approval eid = Inr ()"
    and w: "read_workload_token st = Inr workload" "dget (gr_headers req) ''Authorization'' = Some (''Bearer '' @ workload)"
    by (rule prepare_delegated_Inr)
  from c have live: "now' < seconds (min owner_exp decider_exp)" and tok: "token = decider_token"
    and f: "dget envelope ''tool_name'' = Some tool" "dget envelope ''session_id'' = Some session"
      "dget envelope ''approval_kind'' = Some approval" "dget envelope ''execution_id'' = Some eid"
      "dget envelope ''args_digest'' = Some (VStr (canonical_digest (cr env) (VDict args)))"
    by (auto simp: check_send_def require_live_def vd)
  from live have "now' < seconds owner_exp" "now' < seconds decider_exp" by (simp_all add: seconds_def min_def split: if_splits)
  with ho hd tok f a o w show ?thesis by (elim human_Inr) auto
qed

definition demo_claims :: "string \<Rightarrow> string \<Rightarrow> json_obj" where
  "demo_claims sub name = [(''sub'', VStr sub), (''username'', VStr name), (''exp'', VInt 9), (''iat'', VInt 1),
     (''act'', VDict [(''sub'', VStr ''agent'')]), (''authentication_source'', VStr ''oidc'')]"

definition demo_delegated :: worker_settings where
  "demo_delegated = \<lparr>ws_handoff_token = ''tok'', ws_gateway_url = ''http://gw'', ws_target_authorization = True,
     ws_trust_valid = True, ws_issuer = ''iss'', ws_actors = [''agent''],
     ws_jwt = (\<lambda>t. if t = ''R'' then Some (demo_claims ''r1'' ''u1'') else if t = ''D'' then Some (demo_claims ''d1'' ''u2'') else None),
     ws_token_file = Some ''a.b.c''\<rparr>"

definition demo_delegated_envelope :: json_obj where
  "demo_delegated_envelope =
     [(''protocol_version'', VInt 3), (''execution_id'', VStr ''e1''), (''session_id'', VStr ''s1''),
      (''owner_user_id'', VStr ''u1''), (''decider_user_id'', VStr ''u2''), (''requested_at'', VStr ''0''),
      (''expires_at'', VStr ''9''), (''args_digest'', VStr ''d''), (''tool_name'', VStr ''restart''),
      (''approval_kind'', VStr ''action''), (''requester_namespace'', VStr ''iss''), (''requester_sub'', VStr ''r1''),
      (''decider_namespace'', VStr ''iss''), (''decider_sub'', VStr ''d1''), (''signature'', VStr ''s'')]"

definition demo_delegated_proto :: proto_env where
  "demo_delegated_proto = \<lparr>cr = \<lparr>sha256 = (\<lambda>_. ''d''), hmac256 = (\<lambda>_ _. ''s'')\<rparr>, schema_ok = (\<lambda>_ _. True),
     fromisoformat = (\<lambda>s. if s = ''0'' then Some 0 else if s = ''9'' then Some 900000000 else None),
     isoformat = (\<lambda>_. ''t'')\<rparr>"

lemma demo_delegated_size: "length (canonical_json (VDict demo_delegated_envelope)) \<le> 8192"
  by code_simp

lemma demo_delegated_get:
  "dget demo_delegated_envelope ''protocol_version'' = Some (VInt 3)" "dget demo_delegated_envelope ''signature'' = Some (VStr ''s'')"
  "dget demo_delegated_envelope ''requested_at'' = Some (VStr ''0'')" "dget demo_delegated_envelope ''expires_at'' = Some (VStr ''9'')"
  "dget demo_delegated_envelope ''args_digest'' = Some (VStr ''d'')"
  "dget demo_delegated_envelope ''owner_user_id'' = Some (VStr ''u1'')" "dget demo_delegated_envelope ''decider_user_id'' = Some (VStr ''u2'')"
  "list_all (dhas demo_delegated_envelope) IDENTITY_FIELDS"
  by (simp_all add: demo_delegated_envelope_def IDENTITY_FIELDS_def dhas_def)

lemma demo_delegated_digest: "canonical_digest (cr demo_delegated_proto) v = ''d''" "sign_envelope (cr demo_delegated_proto) e k = ''s''"
  by (simp_all add: demo_delegated_proto_def canonical_digest_def sign_envelope_def)

lemma demo_delegated_request: "validate_request demo_delegated_proto (VDict demo_delegated_envelope) ''k'' = Inr demo_delegated_envelope"
proof -
  have "timestamp demo_delegated_proto (VStr ''0'') = Inr 0" "timestamp demo_delegated_proto (VStr ''9'') = Inr 900000000"
    by (simp_all add: timestamp_def replace_Z_def demo_delegated_proto_def)
  moreover have "schema_ok demo_delegated_proto n v" for n v by (simp add: demo_delegated_proto_def)
  ultimately show ?thesis
    using demo_delegated_size
    by (simp add: validate_request_def validate_metadata_def validate_def METADATA_LIMIT_def get_none_def demo_delegated_get
        verify_envelope_def demo_delegated_digest seconds_def MAX_LIFETIME_SECONDS_def fld_def str_fld_def
        del: canonical_json.simps)
qed

lemma demo_humans:
  "human demo_delegated (VStr ''R'') (VStr ''iss'') (VStr ''r1'') (VStr ''u1'') = Inr 9"
  "human demo_delegated (VStr ''D'') (VStr ''iss'') (VStr ''d1'') (VStr ''u2'') = Inr 9"
  "read_workload_token demo_delegated = Inr ''a.b.c''"
  by code_simp+

lemma demo_verified:
  "\<exists>vd req. verify_handoff demo_delegated_proto demo_delegated ''k'' 2 demo_delegated_envelope (VDict []) (VStr ''D'') (VStr ''R'')
       = Inr vd
     \<and> prepare_delegated demo_delegated_proto demo_delegated 2 (VStr ''restart'') [] (VStr ''D'') ''q1'' (VStr ''s1'')
       (VStr ''action'') (VStr ''e1'') vd = Inr req"
proof -
  have ids: "get_none demo_delegated_envelope ''requester_namespace'' = VStr ''iss''" "get_none demo_delegated_envelope ''requester_sub'' = VStr ''r1''"
    "get_none demo_delegated_envelope ''decider_namespace'' = VStr ''iss''" "get_none demo_delegated_envelope ''decider_sub'' = VStr ''d1''"
    by (simp_all add: get_none_def demo_delegated_envelope_def)
  have on: "ws_target_authorization demo_delegated" "ws_trust_valid demo_delegated" by (simp_all add: demo_delegated_def)
  have "verify_handoff demo_delegated_proto demo_delegated ''k'' 2 demo_delegated_envelope (VDict []) (VStr ''D'') (VStr ''R'')
      = Inr \<lparr>vd_projection = dset ''request_digest'' (VStr ''d'') (filter (\<lambda>p. fst p \<noteq> ''signature'') demo_delegated_envelope),
             vd_requester = VStr ''R'', vd_decider = VStr ''D'', vd_expires = 9\<rparr>"
    by (simp add: verify_handoff_def demo_delegated_request demo_delegated_get on fld_def demo_delegated_digest ids demo_humans
        require_live_def seconds_def Let_def)
  then show ?thesis
    by (simp add: prepare_delegated_def check_send_def require_live_def seconds_def demo_delegated_digest demo_humans
        demo_delegated_envelope_def)
qed

theorem delegated_send_bound_witness:
  "\<exists>vd req. verify_handoff demo_delegated_proto demo_delegated ''k'' 2 demo_delegated_envelope (VDict []) (VStr ''D'') (VStr ''R'')
       = Inr vd
     \<and> prepare_delegated demo_delegated_proto demo_delegated 2 (VStr ''restart'') [] (VStr ''D'') ''q1'' (VStr ''s1'')
       (VStr ''action'') (VStr ''e1'') vd = Inr req
     \<and> (\<exists>workload. read_workload_token demo_delegated = Inr workload
          \<and> dget (gr_headers req) ''Authorization'' = Some (''Bearer '' @ workload))"
proof -
  from demo_verified obtain vd req where
      v: "verify_handoff demo_delegated_proto demo_delegated ''k'' 2 demo_delegated_envelope (VDict []) (VStr ''D'') (VStr ''R'') = Inr vd"
    and p: "prepare_delegated demo_delegated_proto demo_delegated 2 (VStr ''restart'') [] (VStr ''D'') ''q1'' (VStr ''s1'')
      (VStr ''action'') (VStr ''e1'') vd = Inr req" by blast
  from delegated_send_bound [OF v p] v p show ?thesis by blast
qed

end
