(* ===== verification/Ledger_Evidence.thy ===== *)
theory Ledger_Evidence
  imports Ledger_Safety
begin

text \<open>
  What the ledger's evidence means: its size is bounded in every history, the send gate uses a
  permit once, the recovery lookup reports only states the rows support, and retention removes
  nothing inside its protection window.
\<close>

section \<open>Bounded evidence\<close>

lemma length_split_slots:
  "length rs = length (filter (\<lambda>r. ob_slot r = None) rs) + length (List.map_filter ob_slot rs)"
  by (induction rs) (auto simp: List.map_filter_simps split: option.splits)

lemma obs_budget_length:
  assumes "obs_budget l eid s"
  shows "length (obs_of l eid) \<le> 70"
proof -
  have "length (slots_of l eid) = card (set (slots_of l eid))"
    using assms by (simp add: obs_budget_def distinct_card)
  also have "\<dots> \<le> card (set SLOTS)" using assms by (intro card_mono) (simp_all add: obs_budget_def)
  also have "card (set SLOTS) \<le> 6" by (simp add: SLOTS_def card_insert_if)
  finally show ?thesis
    using length_split_slots [of "obs_of l eid"] assms by (simp add: obs_budget_def slots_of_def)
qed

lemma inv_obs_length:
  assumes "inv_obs l"
  shows "length (obs_of l eid) \<le> 70"
proof (cases "dget (obs_states l) eid")
  case None
  then have "obs_of l eid = []" using assms by (auto simp: inv_obs_def obs_of_def filter_empty_conv dhas_dget)
  then show ?thesis by simp
next
  case (Some s)
  with assms have "obs_budget l eid s" by (simp add: inv_obs_def)
  then show ?thesis by (rule obs_budget_length)
qed

text \<open>
  C14. Evidence is bounded: after any history of either product on a fresh ledger, an execution
  has at most 70 recorded facts, so the lookup's window of 71 rows always sees all of them; at
  most 64 of them are ordinary, each reserved slot is used at most once, and the duplicate and
  overflow counters stay within a 32-bit signed integer.
\<close>

theorem evidence_bounded:
  "let l = fold (ledger_step env cfg) ops (empty_ledger epoch) in
   length (obs_of l eid) \<le> 70 \<and> take 71 (obs_of l eid) = obs_of l eid \<and> distinct (slots_of l eid)
    \<and> (case dget (obs_states l) eid of
         None \<Rightarrow> obs_of l eid = []
       | Some s \<Rightarrow> ordinary_count s = length (filter (\<lambda>r. ob_slot r = None) (obs_of l eid))
           \<and> ordinary_count s \<le> 64 \<and> duplicate_count s \<le> 2147483647 \<and> overflow_count s \<le> 2147483647)"
proof -
  define l where "l = fold (ledger_step env cfg) ops (empty_ledger epoch)"
  have "ledger_inv l" unfolding l_def by (rule lg.run_inv [OF empty_ledger_inv])
  then have inv: "inv_obs l" by (simp add: ledger_inv_def)
  from inv_obs_length [OF inv, of eid] have len: "length (obs_of l eid) \<le> 70" .
  show ?thesis
  proof (cases "dget (obs_states l) eid")
    case None
    then have "obs_of l eid = []" using inv by (auto simp: inv_obs_def obs_of_def filter_empty_conv dhas_dget)
    with None show ?thesis unfolding l_def [symmetric] Let_def by (simp add: slots_of_def List.map_filter_def)
  next
    case (Some s)
    with inv have "obs_budget l eid s" by (simp add: inv_obs_def)
    with Some len show ?thesis unfolding l_def [symmetric] Let_def by (simp add: obs_budget_def COUNTER_MAX_def)
  qed
qed

section \<open>The send gate\<close>

lemma send_checks_cases:
  assumes "send_checks cfg permit envelope l = Inr ()"
  obtains run_id eid intent c run where "dget envelope ''run_id'' = Some (VStr run_id)"
    and "dget envelope ''execution_id'' = Some (VStr eid)" and "dget (intents l) eid = Some intent"
    and "dget (claims l) eid = Some c" and "in_digest intent = pm_digest permit" and "cl_owner c = pm_owner permit"
    and "cfg_enabled cfg" and "admission_enabled l" and "admission_epoch l = cfg_epoch cfg"
    and "dget envelope ''admission_epoch'' = Some (VStr (cfg_epoch cfg))"
    and "dget (runs l) run_id = Some run" and "run_stopped_at run = None"
    and "\<not> has_conflict l eid" and "\<not> predecessor l intent"
  using assms
  by (auto simp: send_checks_def has_conflict_def simp del: rbind_Inr_iff elim!: rbindE split: option.split_asm)

lemma open_send_Inr:
  assumes "open_send env cfg pid free fault p envelope l = (Inr (), p')"
  shows "consume env pid p envelope = (Inr (), p')" and "send_checks cfg p' envelope l = Inr ()"
  using assms by (auto simp: open_send_def simp del: rbind_Inr_iff elim!: rbindE
      split: prod.split_asm sum.split_asm if_split_asm)

text \<open>
  C15. A permit sends at most once and only while its authority still holds: when the send gate
  opens, the permit was unused, belongs to this process and this request's digest, the claim
  row carries its owner, admission and epoch still hold, the run is live, the execution has no
  integrity conflict and no earlier registration is unresolved; and whatever happens next, the
  same permit is refused everywhere.
\<close>

theorem open_send_single_use:
  assumes "open_send env cfg pid free fault p envelope l = (Inr (), p')"
  shows "\<not> pm_used p \<and> pm_pid p = pid \<and> pm_digest p = canonical_digest (cr env) (VDict envelope)
    \<and> (\<exists>run_id eid intent c run.
         dget envelope ''run_id'' = Some (VStr run_id) \<and> dget envelope ''execution_id'' = Some (VStr eid)
         \<and> dget (intents l) eid = Some intent \<and> in_digest intent = pm_digest p \<and> \<not> predecessor l intent
         \<and> dget (claims l) eid = Some c \<and> cl_owner c = pm_owner p
         \<and> cfg_enabled cfg \<and> admission_enabled l \<and> admission_epoch l = cfg_epoch cfg
         \<and> dget (runs l) run_id = Some run \<and> run_stopped_at run = None \<and> \<not> has_conflict l eid)
    \<and> open_send env' cfg' pid' free' fault' p' envelope' l' = (Inl (ProtocolError ''identity_conflict''), p')"
proof -
  note c = open_send_Inr(1) [OF assms] and chk = open_send_Inr(2) [OF assms]
  from c have p: "\<not> pm_used p" "pm_pid p = pid" "pm_digest p = canonical_digest (cr env) (VDict envelope)"
    and p': "p' = p\<lparr>pm_used := True\<rparr>" by (auto simp: consume_def split: if_splits)
  from chk obtain run_id eid intent c run where
    "dget envelope ''run_id'' = Some (VStr run_id)" "dget envelope ''execution_id'' = Some (VStr eid)"
    "dget (intents l) eid = Some intent" "in_digest intent = pm_digest p" "\<not> predecessor l intent"
    "dget (claims l) eid = Some c" "cl_owner c = pm_owner p" "cfg_enabled cfg" "admission_enabled l"
    "admission_epoch l = cfg_epoch cfg" "dget (runs l) run_id = Some run" "run_stopped_at run = None"
    "\<not> has_conflict l eid" using p' by (elim send_checks_cases) simp
  moreover have "open_send env' cfg' pid' free' fault' p' envelope' l'
      = (Inl (ProtocolError ''identity_conflict''), p')"
    by (simp add: open_send_def consume_def p')
  ultimately show ?thesis using p by blast
qed

lemma demo_open_send:
  "open_send demo_proto demo_cfg 7 True NoFault demo_permit demo_envelope demo_ledger3
     = (Inr (), demo_permit\<lparr>pm_used := True\<rparr>)"
  by (simp add: open_send_def consume_def demo_permit_def send_checks_def demo_ledger3_def verify_schema_def
      demo_ledger2_def demo_ledger1_def demo_ledger0_def empty_ledger_def demo_get str_fld_def demo_intent_def
      demo_claim_def demo_run_def initial_obs_state_def predecessor_def)

theorem open_send_single_use_witness:
  "\<not> pm_used demo_permit
   \<and> open_send demo_proto demo_cfg 7 True NoFault (demo_permit\<lparr>pm_used := True\<rparr>) demo_envelope demo_ledger3
       = (Inl (ProtocolError ''identity_conflict''), demo_permit\<lparr>pm_used := True\<rparr>)"
  using open_send_single_use [OF demo_open_send] by blast

section \<open>The recovery lookup\<close>

lemma receipts_of_mem:
  assumes "(k, v) \<in> set (receipts_of facts)"
  shows "\<exists>ob\<in>set facts. dget ob ''kind'' = Some (VStr ''worker_result'') \<and> get_none ob ''receipt_digest'' = k
    \<and> get_none ob ''receipt'' = v"
proof -
  let ?f = "\<lambda>ob d. if dget ob ''kind'' = Some (VStr ''worker_result'')
                   then dset (get_none ob ''receipt_digest'') (get_none ob ''receipt'') d else d"
  have dset_sub: "set (dset a b d) \<subseteq> insert (a, b) (set d)" for a :: val and b :: val and d
    by (induction d) (auto split: if_splits)
  have "set (fold ?f facts d) \<subseteq> set d \<union> {(get_none ob ''receipt_digest'', get_none ob ''receipt'') | ob.
      ob \<in> set facts \<and> dget ob ''kind'' = Some (VStr ''worker_result'')}" for d
  proof (induction facts arbitrary: d)
    case Nil
    then show ?case by simp
  next
    case (Cons ob facts)
    have "set (?f ob d) \<subseteq> set d \<union> (if dget ob ''kind'' = Some (VStr ''worker_result'')
        then {(get_none ob ''receipt_digest'', get_none ob ''receipt'')} else {})"
      using dset_sub by auto
    with Cons.IH [of "?f ob d"] show ?case by (auto split: if_splits)
  qed
  from subsetD [OF this [of "[]"]] assms show ?thesis unfolding receipts_of_def by fastforce
qed

lemma read_facts_mem:
  "read_facts env cfg envelope intent c rows = Inr (facts, bad) \<Longrightarrow> ob \<in> set facts \<Longrightarrow>
   \<exists>row\<in>set rows. ob_payload row = ob \<and> fact_valid env cfg envelope intent c row = Inr ()"
proof (induction env cfg envelope intent c rows arbitrary: facts bad rule: read_facts.induct)
  case (1 env cfg envelope intent c)
  then show ?case by simp
next
  case (2 env cfg envelope intent c row rows)
  show ?case
  proof (cases "fact_valid env cfg envelope intent c row")
    case (Inl e)
    with 2 show ?thesis by (cases e) fastforce+
  next
    case (Inr u)
    with 2 show ?thesis by fastforce
  qed
qed

lemma fact_valid_result:
  assumes "fact_valid env cfg envelope intent c row = Inr ()"
    and "dget (ob_payload row) ''kind'' = Some (VStr ''worker_result'')"
  obtains c' where "c = Some c'" and "dget (ob_payload row) ''claim_owner_id'' = Some (VStr (cl_owner c'))"
    and "validate_observation env (ob_payload row) envelope (cfg_key cfg) = Inr ()"
  using assms
  by (auto simp: fact_valid_def Let_def simp del: rbind_Inr_iff elim!: rbindE split: option.split_asm)

lemma project_execution_cases:
  assumes "project_execution env cfg now eid intent l = Inr pr"
  obtains run s facts bad where "dget (obs_states l) eid = Some s"
    and "read_facts env cfg (in_envelope intent) intent (dget (claims l) eid) (take 71 (obs_of l eid)) = Inr (facts, bad)"
    and "pr = build_projection now intent run s (dget (claims l) eid) facts bad"
  using assms
  by (auto simp: project_execution_def Let_def simp del: rbind_Inr_iff elim!: rbindE split: option.split_asm)

lemma build_projection_fields:
  fixes now intent run s c facts bad
  defines "pr \<equiv> build_projection now intent run s c facts bad"
  shows "pr_conflict pr \<longleftrightarrow> integrity_conflict s \<or> bad \<or> 1 < length (receipts_of facts)"
    and "pr_receipt pr = sole_receipt (pr_conflict pr) facts"
    and "pr_state pr = dispatch_state (pr_conflict pr) (pr_receipt pr) facts
           ((case c of Some c \<Rightarrow> cl_observe_by c | None \<Rightarrow> in_registered intent + seconds OBSERVE_SECONDS) \<le> now)
           (c \<noteq> None) (run_stopped_at run \<noteq> None)"
    and "pr_run_stopped pr \<longleftrightarrow> run_stopped_at run \<noteq> None"
    and "pr_verify_target pr \<longleftrightarrow> c \<noteq> None \<or> pr_state pr = Some ''outcome_unknown''"
  unfolding pr_def build_projection_def Let_def by simp_all

lemma ledger_lookup_available:
  assumes "ledger_lookup env cfg fault now eid l = Inr pr" and "pr_availability pr = ''available''"
  obtains intent where "dget (intents l) eid = Some intent"
    and "project_execution env cfg now eid intent l = Inr pr"
  using assms
  by (auto simp: ledger_lookup_def empty_projection_def simp del: rbind_Inr_iff elim!: rbindE
      split: if_split_asm sum.split_asm exc.split_asm option.split_asm)

text \<open>
  The recovery lookup reports only what the rows support. When a projection is available:
  \<open>result_recorded\<close> goes with a receipt, and that receipt is the one in a recorded worker
  result that still validates and names the committed claim's owner; \<open>not_dispatched\<close> is said
  only of a stopped run without a claim; a recorded or detected integrity conflict always reads
  \<open>outcome_unknown\<close> with no receipt; a claimed execution is never reported as merely registered;
  and whenever a claim exists the target has to be verified.
\<close>

theorem lookup_states_sound:
  assumes "ledger_lookup env cfg fault now eid l = Inr pr" and "pr_availability pr = ''available''"
  shows "(pr_state pr = Some ''result_recorded'' \<longleftrightarrow> pr_receipt pr \<noteq> None)
    \<and> (\<forall>v. pr_receipt pr = Some v \<longrightarrow> \<not> pr_conflict pr
         \<and> (\<exists>row\<in>set (obs_of l eid). \<exists>c intent. dget (claims l) eid = Some c \<and> dget (intents l) eid = Some intent
              \<and> dget (ob_payload row) ''kind'' = Some (VStr ''worker_result'')
              \<and> dget (ob_payload row) ''claim_owner_id'' = Some (VStr (cl_owner c))
              \<and> get_none (ob_payload row) ''receipt'' = v
              \<and> validate_observation env (ob_payload row) (in_envelope intent) (cfg_key cfg) = Inr ()))
    \<and> (pr_state pr = Some ''not_dispatched'' \<longrightarrow> \<not> dhas (claims l) eid \<and> pr_run_stopped pr)
    \<and> (has_conflict l eid \<longrightarrow> pr_conflict pr)
    \<and> (pr_conflict pr \<longrightarrow> pr_state pr = Some ''outcome_unknown'' \<and> pr_receipt pr = None)
    \<and> (pr_state pr = None \<longrightarrow> \<not> dhas (claims l) eid)
    \<and> (dhas (claims l) eid \<longrightarrow> pr_verify_target pr)"
proof -
  from assms obtain intent where i: "dget (intents l) eid = Some intent"
    and p: "project_execution env cfg now eid intent l = Inr pr" by (rule ledger_lookup_available)
  from p obtain run s facts bad where run: "dget (obs_states l) eid = Some s"
    and facts: "read_facts env cfg (in_envelope intent) intent (dget (claims l) eid) (take 71 (obs_of l eid))
                  = Inr (facts, bad)"
    and pr: "pr = build_projection now intent run s (dget (claims l) eid) facts bad"
    by (rule project_execution_cases)
  note conflict = build_projection_fields(1) [of now intent run s "dget (claims l) eid" facts bad, folded pr]
    and receipt = build_projection_fields(2) [of now intent run s "dget (claims l) eid" facts bad, folded pr]
    and state = build_projection_fields(3) [of now intent run s "dget (claims l) eid" facts bad, folded pr]
    and stopped = build_projection_fields(4) [of now intent run s "dget (claims l) eid" facts bad, folded pr]
    and target = build_projection_fields(5) [of now intent run s "dget (claims l) eid" facts bad, folded pr]
  have none: "pr_receipt pr = None" if "pr_conflict pr"
    using receipt that by (simp add: sole_receipt_def split: list.splits)
  have rec: "\<not> pr_conflict pr \<and> (\<exists>row\<in>set (obs_of l eid). \<exists>c intent. dget (claims l) eid = Some c
        \<and> dget (intents l) eid = Some intent
        \<and> dget (ob_payload row) ''kind'' = Some (VStr ''worker_result'')
        \<and> dget (ob_payload row) ''claim_owner_id'' = Some (VStr (cl_owner c))
        \<and> get_none (ob_payload row) ''receipt'' = v
        \<and> validate_observation env (ob_payload row) (in_envelope intent) (cfg_key cfg) = Inr ())"
    if v: "pr_receipt pr = Some v" for v
  proof
    show "\<not> pr_conflict pr" using none v by auto
    from receipt v obtain k where "receipts_of facts = [(k, v)]"
      by (auto simp: sole_receipt_def split: list.split_asm if_split_asm prod.split_asm)
    then have "(k, v) \<in> set (receipts_of facts)" by simp
    from receipts_of_mem [OF this] obtain ob where ob: "ob \<in> set facts"
      and k: "dget ob ''kind'' = Some (VStr ''worker_result'')" "get_none ob ''receipt'' = v" by blast
    from read_facts_mem [OF facts ob] obtain row where row: "row \<in> set (take 71 (obs_of l eid))" "ob_payload row = ob"
      and val: "fact_valid env cfg (in_envelope intent) intent (dget (claims l) eid) row = Inr ()" by blast
    from k(1) row(2) have "dget (ob_payload row) ''kind'' = Some (VStr ''worker_result'')" by simp
    with val obtain c where "dget (claims l) eid = Some c"
      "dget (ob_payload row) ''claim_owner_id'' = Some (VStr (cl_owner c))"
      "validate_observation env (ob_payload row) (in_envelope intent) (cfg_key cfg) = Inr ()"
      by (rule fact_valid_result)
    moreover have "row \<in> set (obs_of l eid)" using row(1) by (rule in_set_takeD)
    ultimately show "\<exists>row\<in>set (obs_of l eid). \<exists>c intent. dget (claims l) eid = Some c
        \<and> dget (intents l) eid = Some intent
        \<and> dget (ob_payload row) ''kind'' = Some (VStr ''worker_result'')
        \<and> dget (ob_payload row) ''claim_owner_id'' = Some (VStr (cl_owner c))
        \<and> get_none (ob_payload row) ''receipt'' = v
        \<and> validate_observation env (ob_payload row) (in_envelope intent) (cfg_key cfg) = Inr ()"
      using i row(2) k by blast
  qed
  have "has_conflict l eid \<longrightarrow> pr_conflict pr" using conflict run by (simp add: has_conflict_def)
  moreover have "pr_state pr = Some ''result_recorded'' \<longleftrightarrow> pr_receipt pr \<noteq> None"
    using state none by (auto simp: dispatch_state_def)
  moreover have "pr_state pr = Some ''not_dispatched'' \<longrightarrow> \<not> dhas (claims l) eid \<and> pr_run_stopped pr"
    using state stopped by (auto simp: dispatch_state_def dhas_dget split: if_splits)
  moreover have "pr_conflict pr \<longrightarrow> pr_state pr = Some ''outcome_unknown'' \<and> pr_receipt pr = None"
    using state none by (simp add: dispatch_state_def)
  moreover have "pr_state pr = None \<longrightarrow> \<not> dhas (claims l) eid"
    using state by (auto simp: dispatch_state_def dhas_dget split: if_splits)
  moreover have "dhas (claims l) eid \<longrightarrow> pr_verify_target pr" using target by (simp add: dhas_dget)
  ultimately show ?thesis using rec by blast
qed

lemma demo_lookup:
  "\<exists>pr. ledger_lookup demo_proto demo_cfg NoFault 3 ''e1'' demo_ledger3 = Inr pr
     \<and> pr_availability pr = ''available'' \<and> pr_state pr = Some ''dispatch_claimed'' \<and> pr_attempt pr = Some ''a1''"
proof -
  have obs: "obs_of demo_ledger3 ''e1'' = [\<lparr>ob_id = ''o1'', ob_exec = ''e1'', ob_source = ''worker'',
      ob_kind = ''claim_committed'', ob_slot = Some ''claim'', ob_payload = demo_fact, ob_digest = ''d''\<rparr>]"
    by (simp add: obs_of_def demo_ledger3_def)
  have cl: "dget (claims demo_ledger3) ''e1'' = Some demo_claim" by (simp add: demo_ledger3_def)
  have facts: "read_facts demo_proto demo_cfg demo_envelope demo_intent (Some demo_claim) (take 71 (obs_of demo_ledger3 ''e1''))
      = Inr ([demo_fact], False)"
    by (simp add: obs fact_valid_def Let_def demo_fact_valid demo_fact_get fld_def demo_intent_def demo_claim_def)
  have kinds: "has_kind [demo_fact] k \<longleftrightarrow> k = ''claim_committed''" for k
    by (auto simp: has_kind_def demo_fact_get)
  have rec: "receipts_of [demo_fact] = []" by (simp add: receipts_of_def demo_fact_get)
  have "\<exists>pr. project_execution demo_proto demo_cfg 3 ''e1'' demo_intent demo_ledger3 = Inr pr
      \<and> pr_availability pr = ''available'' \<and> pr_state pr = Some ''dispatch_claimed'' \<and> pr_attempt pr = Some ''a1''"
    using facts
    by (simp add: project_execution_def build_projection_def Let_def demo_intent_def demo_request cl
        demo_ledger3_def kinds rec sole_receipt_def initial_obs_state_def dispatch_state_def UNCERTAIN_def demo_claim_def demo_run_def)
  moreover have "dget (intents demo_ledger3) ''e1'' = Some demo_intent" by (simp add: demo_ledger3_def)
  moreover have "verify_schema demo_ledger3 = Inr ()"
    using demo_schema(3) by (simp add: verify_schema_def demo_ledger3_def)
  ultimately show ?thesis by (auto simp: ledger_lookup_def)
qed

theorem lookup_states_sound_witness:
  "\<exists>pr. ledger_lookup demo_proto demo_cfg NoFault 3 ''e1'' demo_ledger3 = Inr pr
     \<and> pr_state pr = Some ''dispatch_claimed'' \<and> pr_receipt pr = None \<and> pr_verify_target pr"
proof -
  obtain pr where pr: "ledger_lookup demo_proto demo_cfg NoFault 3 ''e1'' demo_ledger3 = Inr pr"
    "pr_availability pr = ''available''" "pr_state pr = Some ''dispatch_claimed''" using demo_lookup by blast
  have "dhas (claims demo_ledger3) ''e1''" by (simp add: demo_ledger3_def dhas_def)
  with lookup_states_sound [OF pr(1,2)] pr(3) have "pr_receipt pr = None" "pr_verify_target pr" by auto
  with pr show ?thesis by blast
qed

section \<open>Retention\<close>

lemma sweep_eligible_expired:
  assumes "dict_ok (intents l)" and "eid \<in> set (sweep_eligible now n l)" and "dget (intents l) eid = Some i"
  shows "in_expires i + RETENTION \<le> now"
proof -
  from assms(2) obtain j where "(eid, j) \<in> set (intents l)" "in_expires j + RETENTION \<le> now"
    by (auto simp: sweep_eligible_def dest!: in_set_takeD)
  moreover from this(1) assms have "j = i" by (simp add: dict_ok_dget [symmetric])
  ultimately show ?thesis by simp
qed

lemma length_dpops_ge:
  assumes "dict_ok d"
  shows "length d \<le> length (dpops ks d) + length ks"
proof -
  have "length (filter (\<lambda>p. fst p \<in> set ks) d) = card (set (filter (\<lambda>p. fst p \<in> set ks) d))"
    using assms by (intro distinct_card [symmetric] distinct_filter) (simp add: dict_ok_def distinct_map)
  also have "\<dots> = card (fst ` set (filter (\<lambda>p. fst p \<in> set ks) d))"
    using assms by (intro card_image [symmetric]) (auto simp: dict_ok_def distinct_map inj_on_def)
  also have "\<dots> \<le> card (set ks)" by (intro card_mono) auto
  also have "\<dots> \<le> length ks" by (rule card_length)
  finally show ?thesis using sum_length_filter_compl [of "\<lambda>p. fst p \<in> set ks" d] by (simp add: dpops_def)
qed

text \<open>
  Retention never reaches protected evidence: whatever the clock, batch size and failures,
  a sweep leaves every run (and so every stop) as it was, keeps the registration, the claim,
  the observation state and all facts of every execution whose signed request expired less
  than thirty days ago, keeps the invariant, and removes at most 5000 registrations.
\<close>

theorem retention_protects_evidence:
  assumes "ledger_inv l" and "retention_sweep fault now batch l = (res, l')"
  shows "runs l' = runs l \<and> ledger_inv l' \<and> length (intents l) \<le> length (intents l') + 5000
    \<and> (\<forall>eid i. dget (intents l) eid = Some i \<and> now < in_expires i + 2592000000000 \<longrightarrow>
         dget (intents l') eid = Some i \<and> dget (claims l') eid = dget (claims l) eid
         \<and> dget (obs_states l') eid = dget (obs_states l) eid \<and> obs_of l' eid = obs_of l eid)"
proof -
  have ok: "dict_ok (intents l)" using assms(1) by (simp add: ledger_inv_def inv_keys_def)
  have inv: "ledger_inv l'"
    using ledger_step_inv [OF assms(1), of undefined undefined "OpSweep fault now batch"] assms(2)
    by (simp add: ledger_step_def)
  from assms(2) consider "l' = l"
    | counts where "1 \<le> batch" "batch \<le> 5000" "sweep_tx now batch l = Inr (counts, l')"
    by (auto simp: retention_sweep_def run_tx_def split: if_split_asm sum.split_asm db_fault.split_asm)
  then show ?thesis
  proof cases
    case 1
    with inv show ?thesis by simp
  next
    case 2
    from 2(3) show ?thesis
    proof (cases rule: sweep_tx_cases)
      case 1
      with inv show ?thesis by simp
    next
      case (2 el)
      have kept: "eid \<notin> set el" if "dget (intents l) eid = Some i" "now < in_expires i + 2592000000000" for eid i
        using sweep_eligible_expired [OF ok, of eid now "nat batch" i] that 2(1)
        by (auto simp: RETENTION_def seconds_def)
      have "length el \<le> 5000"
        using 2(1) \<open>batch \<le> 5000\<close> by (simp add: sweep_eligible_def)
      with length_dpops_ge [OF ok, of el] have "length (intents l) \<le> length (dpops el (intents l)) + 5000" by simp
      moreover have "obs_of l' eid = obs_of l eid" if "eid \<notin> set el" for eid
        using that 2(2) by (auto simp: obs_of_def intro!: filter_cong)
      ultimately show ?thesis using 2(2) inv kept by auto
    qed
  qed
qed

theorem retention_protects_evidence_witness:
  "ledger_inv demo_ledger0 \<and> runs (snd (retention_sweep NoFault 0 10 demo_ledger0)) = runs demo_ledger0"
proof -
  have inv: "ledger_inv demo_ledger0"
    using empty_ledger_inv [of "''ep''"]
    by (simp add: ledger_inv_def inv_obs_def inv_keys_def inv_runs_def demo_ledger0_def empty_ledger_def)
  from retention_protects_evidence [OF inv prod.collapse [symmetric], of NoFault 0 10] inv show ?thesis by blast
qed

section \<open>Acceptance\<close>

lemma agent_intent_row:
  assumes "agent_intent env envelope l = Inr (eid, intent)"
  shows "dget envelope ''execution_id'' = Some (VStr eid)" "dget (intents l) eid = Some intent"
    "in_digest intent = canonical_digest (cr env) (VDict envelope)"
  using assms
  by (auto simp: agent_intent_def simp del: rbind_Inr_iff elim!: rbindE split: option.split_asm if_split_asm)

lemma accept_recorded:
  assumes "accept env cfg fault envelope w cur now oid l = (Inr ob, l')"
  shows "\<exists>run_id run eid intent c row.
    dget envelope ''run_id'' = Some (VStr run_id) \<and> dget (runs l) run_id = Some run \<and> run_stopped_at run = None
    \<and> dget envelope ''owner_user_id'' = Some (VStr (run_owner run))
    \<and> dget envelope ''execution_id'' = Some (VStr eid) \<and> dget (intents l) eid = Some intent
    \<and> in_digest intent = canonical_digest (cr env) (VDict envelope) \<and> \<not> has_conflict l eid
    \<and> dget (claims l) eid = Some c \<and> dget w ''claim_owner_id'' = Some (VStr (cl_owner c))
    \<and> row \<in> set (obs_of l eid) \<and> ob_kind row = ''worker_result''
    \<and> dget w ''observation_id'' = Some (VStr (ob_id row))
    \<and> ob_digest row = canonical_digest (cr env) (VDict w)"
proof -
  from assms obtain res where "accept_fact env cfg envelope w cur now oid = Inr ob"
    and tx: "agent_tx fault (accept_tx env cfg envelope w ob) l = (Inr res, l')"
    by (auto simp: accept_def split: sum.split_asm prod.split_asm if_split_asm)
  from tx have "\<exists>l1. accept_tx env cfg envelope w ob l = Inr (res, l1)"
    by (auto simp: agent_tx_def run_tx_def split: if_split_asm sum.split_asm exc.split_asm db_fault.split_asm prod.split_asm)
  then obtain l1 where a: "accept_tx env cfg envelope w ob l = Inr (res, l1)" by blast
  from a obtain run_id session owner run eid intent w_oid row c where
    r: "dget envelope ''run_id'' = Some (VStr run_id)" "dget envelope ''session_id'' = Some session"
      "dget envelope ''owner_user_id'' = Some owner" "agent_run run_id session owner l = Inr run"
    and i: "agent_intent env envelope l = Inr (eid, intent)" and o: "dget w ''observation_id'' = Some (VStr w_oid)"
    and live: "run_stopped_at run = None"
      "case dget (obs_states l) eid of None \<Rightarrow> False | Some s \<Rightarrow> \<not> integrity_conflict s"
    and row: "find (\<lambda>r. ob_exec r = eid \<and> ob_id r = w_oid \<and> ob_kind r = ''worker_result'') (observations l) = Some row"
    and c: "dget (claims l) eid = Some c" "dget w ''claim_owner_id'' = Some (VStr (cl_owner c))"
      "ob_digest row = canonical_digest (cr env) (VDict w)"
    by (auto simp: accept_tx_def simp del: rbind_Inr_iff elim!: rbindE split: option.split_asm)
  from row have "row \<in> set (obs_of l eid) \<and> ob_kind row = ''worker_result'' \<and> ob_id row = w_oid"
    by (auto simp: find_Some_iff obs_of_def)
  moreover have "owner = VStr (run_owner run)" using r(4) by (auto simp: agent_run_def split: option.splits if_splits)
  moreover have "\<not> has_conflict l eid" using live(2) by (auto simp: has_conflict_def split: option.splits)
  ultimately show ?thesis using agent_run_exists [OF r(4)] agent_intent_row [OF i] r live o c by auto
qed

text \<open>
  Only a recorded result is accepted: when the agent's \<open>accept\<close> returns, the run was live
  and of the request's owner, the execution had no integrity conflict, its request was
  registered with exactly this digest, and the ledger already held the worker result being
  accepted, with the same content digest and the committed claim's owner.
\<close>

theorem accept_needs_recorded_result:
  assumes "accept env cfg fault envelope w cur now oid l = (Inr ob, l')"
  shows "\<exists>run_id run eid intent c row.
    dget envelope ''run_id'' = Some (VStr run_id) \<and> dget (runs l) run_id = Some run \<and> run_stopped_at run = None
    \<and> dget envelope ''owner_user_id'' = Some (VStr (run_owner run))
    \<and> dget envelope ''execution_id'' = Some (VStr eid) \<and> dget (intents l) eid = Some intent
    \<and> in_digest intent = canonical_digest (cr env) (VDict envelope) \<and> \<not> has_conflict l eid
    \<and> dget (claims l) eid = Some c \<and> dget w ''claim_owner_id'' = Some (VStr (cl_owner c))
    \<and> row \<in> set (obs_of l eid) \<and> ob_kind row = ''worker_result''
    \<and> dget w ''observation_id'' = Some (VStr (ob_id row))
    \<and> ob_digest row = canonical_digest (cr env) (VDict w)"
  using assms by (rule accept_recorded)

definition demo_result :: json_obj where
  "demo_result = [(''observation_id'', VStr ''o2''), (''kind'', VStr ''worker_result''),
     (''attempt_request_id'', VStr ''a1''), (''receipt_digest'', VStr ''d''), (''claim_owner_id'', VStr ''w1'')]"

definition demo_ledger4 :: "json_obj \<Rightarrow> ledger" where
  "demo_ledger4 w = demo_ledger3\<lparr>observations := observations demo_ledger3 @
     [\<lparr>ob_id = ''o2'', ob_exec = ''e1'', ob_source = ''worker'', ob_kind = ''worker_result'',
       ob_slot = Some ''result'', ob_payload = w, ob_digest = ''d''\<rparr>]\<rparr>"

definition demo_accepted :: json_obj where
  "demo_accepted =
     [(''observation_version'', VInt 1), (''observation_id'', VStr ''o3''), (''execution_id'', VStr ''e1''),
      (''run_id'', VStr ''r1''), (''request_digest'', VStr ''d''), (''source'', VStr ''agent''),
      (''kind'', VStr ''response_accepted''), (''observed_at'', VStr ''t''), (''attempt_request_id'', VStr ''a1''),
      (''request_id'', VStr ''q1''), (''reason_code'', VStr ''none''), (''receipt_digest'', VStr ''d''),
      (''signature'', VStr ''s'')]"

lemma demo_accepted_size: "length (canonical_json (VDict demo_accepted)) \<le> 8192"
  by code_simp

lemma demo_accepted_valid: "validate_observation demo_proto demo_accepted demo_envelope ''k'' = Inr ()"
proof -
  have "dget demo_accepted ''execution_id'' = Some (VStr ''e1'')" "dget demo_accepted ''run_id'' = Some (VStr ''r1'')"
    "dget demo_accepted ''request_digest'' = Some (VStr ''d'')" "dget demo_accepted ''signature'' = Some (VStr ''s'')"
    "dget demo_accepted ''kind'' = Some (VStr ''response_accepted'')" by (simp_all add: demo_accepted_def)
  with demo_accepted_size show ?thesis
    by (simp add: validate_observation_def validate_metadata_def validate_def METADATA_LIMIT_def
        demo_get verify_envelope_def fld_def str_fld_def del: canonical_json.simps)
qed

lemma demo_accept_fact:
  assumes "dget w ''attempt_request_id'' = Some (VStr ''a1'')" and "dget w ''receipt_digest'' = Some (VStr ''d'')"
  shows "accept_fact demo_proto demo_cfg demo_envelope w ''q1'' 4 ''o3'' = Inr demo_accepted"
proof -
  have "dset ''signature'' (VStr ''s'') (dset ''receipt_digest'' (VStr ''d'')
     [(''observation_version'', VInt 1), (''observation_id'', VStr ''o3''), (''execution_id'', VStr ''e1''),
      (''run_id'', VStr ''r1''), (''request_digest'', VStr ''d''), (''source'', VStr ''agent''),
      (''kind'', VStr ''response_accepted''), (''observed_at'', VStr ''t''), (''attempt_request_id'', VStr ''a1''),
      (''request_id'', VStr ''q1''), (''reason_code'', VStr ''none'')]) = demo_accepted"
    by (simp add: demo_accepted_def)
  with assms demo_accepted_valid show ?thesis
    by (simp add: accept_fact_def observation_def Let_def demo_get fld_def str_fld_def del: dset.simps)
qed

lemma demo_accept:
  assumes w: "dget w ''observation_id'' = Some (VStr ''o2'')" "dget w ''attempt_request_id'' = Some (VStr ''a1'')"
    "dget w ''receipt_digest'' = Some (VStr ''d'')" "dget w ''claim_owner_id'' = Some (VStr ''w1'')"
  shows "\<exists>l'. accept demo_proto demo_cfg NoFault demo_envelope w ''q1'' 4 ''o3'' (demo_ledger4 w) = (Inr demo_accepted, l')"
proof -
  have sch: "verify_schema (demo_ledger4 w) = Inr ()"
    using demo_schema(3) by (simp add: verify_schema_def demo_ledger4_def demo_ledger3_def)
  have run: "agent_run ''r1'' (VStr ''s1'') (VStr ''u1'') (demo_ledger4 w) = Inr demo_run"
    by (simp add: agent_run_def demo_ledger4_def demo_ledger3_def demo_run_def)
  have int: "agent_intent demo_proto demo_envelope (demo_ledger4 w) = Inr (''e1'', demo_intent)"
    by (simp add: agent_intent_def str_fld_def demo_get demo_ledger4_def demo_ledger3_def demo_intent_def same_envelope_def)
  have find: "find (\<lambda>r. ob_exec r = ''e1'' \<and> ob_id r = ''o2'' \<and> ob_kind r = ''worker_result'') (observations (demo_ledger4 w))
      = Some \<lparr>ob_id = ''o2'', ob_exec = ''e1'', ob_source = ''worker'', ob_kind = ''worker_result'',
       ob_slot = Some ''result'', ob_payload = w, ob_digest = ''d''\<rparr>"
    by (simp add: demo_ledger4_def demo_ledger3_def)
  have st: "dget (obs_states (demo_ledger4 w)) ''e1'' = Some initial_obs_state" "dget (claims (demo_ledger4 w)) ''e1'' = Some demo_claim"
    by (simp_all add: demo_ledger4_def demo_ledger3_def)
  have new: "find_obs (demo_ledger4 w) ''o3'' = None" by (simp add: find_obs_def demo_ledger4_def demo_ledger3_def)
  have get: "dget demo_accepted ''source'' = Some (VStr ''agent'')" "dget demo_accepted ''attempt_request_id'' = Some (VStr ''a1'')"
    "dget demo_accepted ''observation_id'' = Some (VStr ''o3'')" "dget demo_accepted ''kind'' = Some (VStr ''response_accepted'')"
    by (simp_all add: demo_accepted_def)
  have "fst (place ''e1'' 0 (agent_slot ''response_accepted'') ''o3'' ''agent'' ''response_accepted'' demo_accepted ''d'' (demo_ledger4 w)) = Inserted"
    by (simp add: place_def Let_def)
  then obtain l' where pl: "place ''e1'' 0 (agent_slot ''response_accepted'') ''o3'' ''agent'' ''response_accepted''
      demo_accepted ''d'' (demo_ledger4 w) = (Inserted, l')" by (metis prod.collapse)
  have "agent_append demo_proto demo_cfg (demo_ledger4 w) ''e1'' demo_intent demo_accepted = Inr (Inserted, l')"
    using pl by (simp add: agent_append_def Let_def demo_accepted_valid demo_intent_def fld_def str_fld_def get st new
        initial_obs_state_def)
  then have "accept_tx demo_proto demo_cfg demo_envelope w demo_accepted (demo_ledger4 w) = Inr (Inserted, l')"
    using run int find st
    by (simp add: accept_tx_def sch demo_get fld_def str_fld_def w get demo_run_def initial_obs_state_def
        same_envelope_def demo_claim_def)
  then show ?thesis by (simp add: accept_def demo_accept_fact [OF w(2,3)] agent_tx_def run_tx_def)
qed

theorem accept_needs_recorded_result_witness:
  "\<exists>row\<in>set (obs_of (demo_ledger4 demo_result) ''e1''). ob_kind row = ''worker_result'' \<and> ob_id row = ''o2''"
proof -
  obtain l' where "accept demo_proto demo_cfg NoFault demo_envelope demo_result ''q1'' 4 ''o3'' (demo_ledger4 demo_result)
      = (Inr demo_accepted, l')" using demo_accept [of demo_result] by (auto simp: demo_result_def)
  from accept_needs_recorded_result [OF this] show ?thesis by (auto simp: demo_get demo_result_def)
qed

end
