(* ===== verification/Execution_Handoff.thy ===== *)
theory Execution_Handoff
  imports Executor Ledger_Evidence
begin

text \<open>
  The worker's handoff route (\<open>api/routes/handoff.py\<close>): authentication and validation of the
  submission, the durable claim, the send gate, the one gateway exchange, persistence of the
  result and the stops on every failure path, composed from the ledger operations and the
  executor. Between any two ledger accesses of a handoff other parties may perform arbitrary
  ledger operations: a schedule supplies, for the n-th access, what happened before it and what
  the database does (failure, clock, free lock, closed connection, remaining budget, fresh
  identifier). Audit mirroring, metrics and the test barriers have no effect on the ledger or
  the wire and are left out, as is the cancellation of the request task.
\<close>

section \<open>World and schedule\<close>

record turn_in =
  ti_others :: "ledger_op list"
  ti_fault :: db_fault
  ti_now :: int
  ti_free :: bool
  ti_closed :: bool
  ti_connects :: bool
  ti_budget :: bool
  ti_obs :: string

type_synonym schedule = "nat \<Rightarrow> turn_in"

text \<open>\<open>w_sends\<close>: the gateway exchanges, with the execution they were made for.\<close>

record world =
  w_ledger :: ledger
  w_trace :: "ledger_op list"
  w_sends :: "(val \<times> gw_request) list"
  w_count :: nat

definition take_turn :: "proto_env \<Rightarrow> ledger_cfg \<Rightarrow> schedule \<Rightarrow> world \<Rightarrow> turn_in \<times> world" where
  "take_turn env cfg sch w =
     (let t = sch (w_count w) in
      (t, w\<lparr>w_ledger := fold (ledger_step env cfg) (ti_others t) (w_ledger w),
            w_trace := w_trace w @ ti_others t, w_count := Suc (w_count w)\<rparr>))"

definition do_op :: "proto_env \<Rightarrow> ledger_cfg \<Rightarrow> ledger_op \<Rightarrow> world \<Rightarrow> world" where
  "do_op env cfg op w = w\<lparr>w_ledger := ledger_step env cfg op (w_ledger w), w_trace := w_trace w @ [op]\<rparr>"

definition w_lookup :: "proto_env \<Rightarrow> ledger_cfg \<Rightarrow> schedule \<Rightarrow> string \<Rightarrow> world \<Rightarrow> (exc + projection) \<times> world" where
  "w_lookup env cfg sch eid w =
     (case take_turn env cfg sch w of
        (t, w1) \<Rightarrow> (ledger_lookup env cfg (ti_fault t) (ti_now t) eid (w_ledger w1), w1))"

definition w_finish ::
  "proto_env \<Rightarrow> ledger_cfg \<Rightarrow> turn_in \<Rightarrow> json_obj \<Rightarrow> json_obj \<Rightarrow> string option \<Rightarrow> world \<Rightarrow> (exc + append_res) \<times> world" where
  "w_finish env cfg t envelope ob why w =
     (fst (ledger_finish env cfg (ti_fault t) envelope ob why (ti_now t) (w_ledger w)),
      do_op env cfg (OpFinish (ti_fault t) envelope ob why (ti_now t)) w)"

definition w_stop ::
  "proto_env \<Rightarrow> ledger_cfg \<Rightarrow> turn_in \<Rightarrow> json_obj \<Rightarrow> json_obj \<Rightarrow> string \<Rightarrow> world \<Rightarrow> (exc + append_res) \<times> world" where
  "w_stop env cfg t envelope ob why w =
     (fst (ledger_stop env cfg (ti_fault t) (ti_free t) envelope ob why (ti_now t) (w_ledger w)),
      do_op env cfg (OpStop (ti_fault t) (ti_free t) envelope ob why (ti_now t)) w)"

section \<open>Responses\<close>

record h_response =
  rs_kind :: string
  rs_status :: int
  rs_request :: string
  rs_recovery :: "projection option"
  rs_durability :: string
  rs_reason :: "string option"
  rs_result :: "json_obj option"
  rs_observation :: "json_obj option"

text \<open>\<open>response\<close>; \<open>reply_ok\<close> is the validator of the handoff-response schema.\<close>

definition respond :: "(h_response \<Rightarrow> bool) \<Rightarrow> h_response \<Rightarrow> exc + h_response" where
  "respond reply_ok r = (if reply_ok r then Inr r else Inl (ProtocolError ''bad_request''))"

definition plain :: "string \<Rightarrow> int \<Rightarrow> string \<Rightarrow> projection option \<Rightarrow> string \<Rightarrow> h_response" where
  "plain kind status rid recovery durability =
     \<lparr>rs_kind = kind, rs_status = status, rs_request = rid, rs_recovery = recovery, rs_durability = durability,
      rs_reason = None, rs_result = None, rs_observation = None\<rparr>"

definition refusal_status :: "string \<Rightarrow> int" where
  "refusal_status why =
     (if why = ''unauthorized'' then 401 else if why = ''request_expired'' then 410
      else if why \<in> {''identity_conflict'', ''run_stopped'', ''predecessor_unresolved''} then 409 else 400)"

definition refused :: "(h_response \<Rightarrow> bool) \<Rightarrow> string \<Rightarrow> string \<Rightarrow> projection option \<Rightarrow> exc + h_response" where
  "refused reply_ok rid why recovery =
     respond reply_ok ((plain ''refused'' (refusal_status why) rid recovery ''not_applicable'')\<lparr>rs_reason := Some why\<rparr>)"

definition unavailable :: "(h_response \<Rightarrow> bool) \<Rightarrow> string \<Rightarrow> projection option \<Rightarrow> exc + h_response" where
  "unavailable reply_ok rid recovery = respond reply_ok (plain ''unavailable'' 503 rid recovery ''unconfirmed'')"

definition status_of :: "(h_response \<Rightarrow> bool) \<Rightarrow> string \<Rightarrow> string \<Rightarrow> projection \<Rightarrow> exc + h_response" where
  "status_of reply_ok rid durability recovery =
     (if pr_availability recovery = ''unavailable'' then unavailable reply_ok rid (Some recovery)
      else respond reply_ok (plain ''status_only'' (if pr_state recovery = Some ''result_recorded'' then 200 else 202)
             rid (Some recovery) durability))"

definition current_status ::
  "proto_env \<Rightarrow> ledger_cfg \<Rightarrow> (h_response \<Rightarrow> bool) \<Rightarrow> schedule \<Rightarrow> string \<Rightarrow> string \<Rightarrow> string \<Rightarrow> world \<Rightarrow>
   (exc + h_response) \<times> world" where
  "current_status env cfg reply_ok sch eid rid durability w =
     (case w_lookup env cfg sch eid w of
        (Inl e, w1) \<Rightarrow> (Inl e, w1)
      | (Inr recovery, w1) \<Rightarrow> (status_of reply_ok rid durability recovery, w1))"

section \<open>Stops and persistence\<close>

definition is_store_error :: "exc \<Rightarrow> bool" where
  "is_store_error e \<longleftrightarrow> e \<noteq> PyError"

text \<open>\<open>ledger.stop\<close> on a fresh connection: \<open>True\<close> when it committed, store errors are absorbed.\<close>

definition fresh_stop ::
  "proto_env \<Rightarrow> ledger_cfg \<Rightarrow> schedule \<Rightarrow> json_obj \<Rightarrow> json_obj \<Rightarrow> string \<Rightarrow> world \<Rightarrow> (exc + bool) \<times> world" where
  "fresh_stop env cfg sch envelope ob why w =
     (case take_turn env cfg sch w of
        (t, w1) \<Rightarrow>
          (case w_stop env cfg t envelope ob why w1 of
             (Inr _, w2) \<Rightarrow> (Inr True, w2)
           | (Inl e, w2) \<Rightarrow> (if is_store_error e then Inr False else Inl e, w2)))"

definition h_stop ::
  "proto_env \<Rightarrow> ledger_cfg \<Rightarrow> schedule \<Rightarrow> json_obj \<Rightarrow> string \<Rightarrow> string \<Rightarrow> string \<Rightarrow> string \<Rightarrow> bool \<Rightarrow> world \<Rightarrow>
   (exc + bool) \<times> world" where
  "h_stop env cfg sch envelope rid attempt kind why has_conn w =
     (case take_turn env cfg sch w of
        (t, w1) \<Rightarrow>
          (case observation env envelope ''worker'' kind attempt rid (cfg_key cfg) why (ti_now t) (ti_obs t) [] of
             Inl e \<Rightarrow> (Inl e, w1)
           | Inr ob \<Rightarrow>
               if has_conn \<and> \<not> ti_closed t then
                 (case w_finish env cfg t envelope ob (Some why) w1 of
                    (Inr _, w2) \<Rightarrow> (Inr True, w2)
                  | (Inl e, w2) \<Rightarrow>
                      if is_store_error e then fresh_stop env cfg sch envelope ob why w2 else (Inl e, w2))
               else fresh_stop env cfg sch envelope ob why w1))"

text \<open>\<open>refuse_registered\<close>: only an exact registered submission can establish no-dispatch.\<close>

definition refuse_registered ::
  "proto_env \<Rightarrow> ledger_cfg \<Rightarrow> (h_response \<Rightarrow> bool) \<Rightarrow> schedule \<Rightarrow> json_obj \<Rightarrow> string \<Rightarrow> string \<Rightarrow> string \<Rightarrow> world \<Rightarrow>
   (exc + h_response) \<times> world" where
  "refuse_registered env cfg reply_ok sch envelope eid rid why w =
     (case w_lookup env cfg sch eid w of
        (Inl e, w1) \<Rightarrow> (Inl e, w1)
      | (Inr recovery, w1) \<Rightarrow>
          if pr_availability recovery = ''unavailable'' then (unavailable reply_ok rid (Some recovery), w1)
          else if pr_request_digest recovery \<noteq> Some (canonical_digest (cr env) (VDict envelope))
               \<or> pr_attempt recovery = None \<or> pr_attempt recovery = Some []
          then (refused reply_ok rid why None, w1)
          else (case h_stop env cfg sch envelope rid (the (pr_attempt recovery)) ''pre_dispatch_refused'' why False w1 of
                  (Inl e, w2) \<Rightarrow> (Inl e, w2)
                | (Inr False, w2) \<Rightarrow> current_status env cfg reply_ok sch eid rid ''unconfirmed'' w2
                | (Inr True, w2) \<Rightarrow>
                    (case w_lookup env cfg sch eid w2 of
                       (Inl e, w3) \<Rightarrow> (Inl e, w3)
                     | (Inr recovery, w3) \<Rightarrow>
                         (if pr_availability recovery = ''unavailable'' then unavailable reply_ok rid (Some recovery)
                          else refused reply_ok rid why (Some recovery), w3))))"

text \<open>One attempt to persist: a closed connection is replaced and takes the run's lock again.\<close>

definition persist_attempt ::
  "proto_env \<Rightarrow> ledger_cfg \<Rightarrow> turn_in \<Rightarrow> json_obj \<Rightarrow> json_obj \<Rightarrow> world \<Rightarrow> (exc + append_res) \<times> world" where
  "persist_attempt env cfg t envelope ob w =
     (if ti_closed t \<and> \<not> ti_connects t then (Inl (ProtocolError ''store_unavailable''), w)
      else if ti_closed t \<and> \<not> ti_free t then (Inl (ProtocolError ''send_lock_unavailable''), w)
      else w_finish env cfg t envelope ob None w)"

text \<open>\<open>for attempt in range(3)\<close>; the first argument counts the attempts left.\<close>

fun persist ::
  "nat \<Rightarrow> proto_env \<Rightarrow> ledger_cfg \<Rightarrow> schedule \<Rightarrow> json_obj \<Rightarrow> string \<Rightarrow> json_obj \<Rightarrow> world \<Rightarrow> (exc + bool) \<times> world" where
  "persist 0 env cfg sch envelope eid ob w = (Inr False, w)"
| "persist (Suc n) env cfg sch envelope eid ob w =
     (case take_turn env cfg sch w of
        (t, w1) \<Rightarrow>
          if \<not> ti_budget t then (Inr False, w1)
          else (case persist_attempt env cfg t envelope ob w1 of
                  (Inr res, w2) \<Rightarrow> (Inr (res \<in> {Inserted, Identical}), w2)
                | (Inl e, w2) \<Rightarrow>
                    if \<not> is_store_error e then (Inl e, w2)
                    else (case w_lookup env cfg sch eid w2 of
                            (Inl e', w3) \<Rightarrow> (Inl e', w3)
                          | (Inr recovery, w3) \<Rightarrow>
                              if pr_state recovery = Some ''result_recorded'' \<and> pr_receipt recovery = dget ob ''receipt''
                              then (Inr True, w3)
                              else persist n env cfg sch envelope eid ob w3)))"

section \<open>The submission\<close>

record handoff_in =
  hi_rid :: string
  hi_auth :: string
  hi_body :: "val option"
  hi_draining :: bool
  hi_wall :: int
  hi_claim :: claim_input
  hi_gateway :: gw_out
  hi_completed :: string

definition bearer_ok :: "worker_settings \<Rightarrow> string \<Rightarrow> bool" where
  "bearer_ok st auth =
     (let scheme = takeWhile (\<lambda>c. c \<noteq> CHR '' '') auth;
          token = strip (drop 1 (dropWhile (\<lambda>c. c \<noteq> CHR '' '') auth))
      in lower scheme = ''bearer'' \<and> ws_handoff_token st \<noteq> [] \<and> token \<noteq> [] \<and> token = ws_handoff_token st)"

definition REQUIRED_KEYS :: "string list" where
  "REQUIRED_KEYS = [''request'', ''arguments'', ''delegated_token'']"

definition delegated_of ::
  "proto_env \<Rightarrow> worker_settings \<Rightarrow> ledger_cfg \<Rightarrow> int \<Rightarrow> json_obj \<Rightarrow> json_obj \<Rightarrow> exc + verified_delegated option" where
  "delegated_of env st cfg now body envelope =
     (let has_identity = list_ex (dhas envelope) IDENTITY_FIELDS in
      rbind (require (has_identity = dhas body ''requester_token'') (ProtocolError ''bad_request'')) (\<lambda>_.
      if has_identity
      then rbind (verify_handoff env st (cfg_key cfg) now envelope (get_none body ''arguments'')
                    (get_none body ''delegated_token'') (get_none body ''requester_token'')) (\<lambda>vd. Inr (Some vd))
      else Inr None))"

definition parse_body ::
  "proto_env \<Rightarrow> worker_settings \<Rightarrow> ledger_cfg \<Rightarrow> int \<Rightarrow> json_obj \<Rightarrow>
   exc + json_obj \<times> json_obj \<times> val \<times> verified_delegated option" where
  "parse_body env st cfg now body =
     (case as_dict (get_none body ''arguments'') of
        None \<Rightarrow> Inl (ProtocolError ''bad_request'')
      | Some arguments \<Rightarrow>
          rbind (require (list_all (dhas body) REQUIRED_KEYS
                   \<and> list_all (\<lambda>k. k \<in> set REQUIRED_KEYS \<or> k = ''requester_token'') (map fst body))
                  (ProtocolError ''bad_request'')) (\<lambda>_.
          rbind (validate_request env (get_none body ''request'') (cfg_key cfg)) (\<lambda>envelope.
          rbind (delegated_of env st cfg now body envelope) (\<lambda>vd.
          rbind (fld envelope ''args_digest'') (\<lambda>ad.
          rbind (require (VStr (canonical_digest (cr env) (VDict arguments)) = ad)
                  (ProtocolError ''args_digest_mismatch'')) (\<lambda>_.
          (let delegated = get_none body ''delegated_token'' in
           rbind (require (case delegated of VStr s \<Rightarrow> strip s \<noteq> [] | _ \<Rightarrow> False)
                   (ProtocolError ''credential_missing'')) (\<lambda>_.
           rbind (require (ws_gateway_url st \<noteq> []) (ProtocolError ''gateway_not_configured'')) (\<lambda>_.
           Inr (envelope, arguments, delegated, vd))))))))))"

definition parse_submission ::
  "proto_env \<Rightarrow> worker_settings \<Rightarrow> ledger_cfg \<Rightarrow> handoff_in \<Rightarrow>
   exc + json_obj \<times> json_obj \<times> val \<times> verified_delegated option" where
  "parse_submission env st cfg inp =
     (case Option.bind (hi_body inp) as_dict of
        None \<Rightarrow> Inl (ProtocolError ''bad_request'')
      | Some body \<Rightarrow> parse_body env st cfg (hi_wall inp) body)"

section \<open>Sending and concluding\<close>

text \<open>The exchange: nothing is logged unless a request was actually put on the wire.\<close>

definition exchange ::
  "proto_env \<Rightarrow> worker_settings \<Rightarrow> handoff_in \<Rightarrow> json_obj \<Rightarrow> json_obj \<Rightarrow> val \<Rightarrow> verified_delegated option \<Rightarrow> string \<Rightarrow>
   world \<Rightarrow> (exc + json_obj) \<times> world" where
  "exchange env st inp envelope arguments delegated vd attempt w =
     (case execute_tool env st (hi_wall inp) (get_none envelope ''tool_name'') arguments delegated attempt
             (get_none envelope ''session_id'') (get_none envelope ''approval_kind'')
             (get_none envelope ''execution_id'') vd of
        Inl e \<Rightarrow> (Inl e, w)
      | Inr req \<Rightarrow>
          (post_invoke env (hi_gateway inp) attempt (get_none envelope ''tool_name''),
           w\<lparr>w_sends := w_sends w @ [(get_none envelope ''execution_id'', req)]\<rparr>))"

definition result_fact ::
  "proto_env \<Rightarrow> ledger_cfg \<Rightarrow> handoff_in \<Rightarrow> json_obj \<Rightarrow> string \<Rightarrow> string \<Rightarrow> turn_in \<Rightarrow> json_obj \<Rightarrow> exc + json_obj" where
  "result_fact env cfg inp envelope attempt owner t result =
     rbind (map_result_status result) (\<lambda>status.
     case build_receipt (cr env) envelope status (VDict result) (VStr attempt) (cfg_key cfg) (hi_completed inp) of
       None \<Rightarrow> Inl PyError
     | Some receipt \<Rightarrow>
         rbind (fld result ''status'') (\<lambda>tool_status.
         observation env envelope ''worker'' ''worker_result'' attempt (hi_rid inp) (cfg_key cfg) ''none''
           (ti_now t) (ti_obs t)
           [(''claim_owner_id'', VStr owner), (''receipt'', VDict receipt),
            (''receipt_digest'', VStr (canonical_digest (cr env) (VDict receipt))), (''tool_status'', tool_status)]))"

definition original_result :: "string \<Rightarrow> projection \<Rightarrow> json_obj \<Rightarrow> json_obj \<Rightarrow> h_response" where
  "original_result rid recovery result ob =
     (plain ''original_result'' 200 rid (Some recovery) ''confirmed'')\<lparr>rs_result := Some result, rs_observation := Some ob\<rparr>"

text \<open>After the report: persist it, confirm it by a fresh lookup, and only then return it.\<close>

definition conclude ::
  "proto_env \<Rightarrow> ledger_cfg \<Rightarrow> (h_response \<Rightarrow> bool) \<Rightarrow> schedule \<Rightarrow> handoff_in \<Rightarrow> json_obj \<Rightarrow> string \<Rightarrow> string \<Rightarrow> string \<Rightarrow>
   json_obj \<Rightarrow> world \<Rightarrow> (exc + h_response) \<times> world" where
  "conclude env cfg reply_ok sch inp envelope eid attempt owner result w =
     (case take_turn env cfg sch w of (t, w0) \<Rightarrow>
      (case result_fact env cfg inp envelope attempt owner t result of
         Inl e \<Rightarrow> (Inl e, w0)
       | Inr ob \<Rightarrow>
           (case persist 3 env cfg sch envelope eid ob w0 of
              (Inl e, w1) \<Rightarrow> (Inl e, w1)
            | (Inr False, w1) \<Rightarrow>
                (case h_stop env cfg sch envelope (hi_rid inp) attempt ''result_persistence_unconfirmed''
                        ''receipt_unconfirmed'' True w1 of
                   (Inl e, w2) \<Rightarrow> (Inl e, w2)
                 | (Inr _, w2) \<Rightarrow> current_status env cfg reply_ok sch eid (hi_rid inp) ''unconfirmed'' w2)
            | (Inr True, w1) \<Rightarrow>
                (case w_lookup env cfg sch eid w1 of
                   (Inl e, w2) \<Rightarrow> (Inl e, w2)
                 | (Inr recovery, w2) \<Rightarrow>
                     if pr_state recovery \<noteq> Some ''result_recorded'' \<or> pr_conflict recovery \<or> pr_run_stopped recovery
                     then current_status env cfg reply_ok sch eid (hi_rid inp) ''unconfirmed'' w2
                     else (respond reply_ok (original_result (hi_rid inp) recovery result ob), w2)))))"

text \<open>The handler of the send block: record the uncertainty, stop the run, report the status.\<close>

definition on_failure ::
  "proto_env \<Rightarrow> ledger_cfg \<Rightarrow> (h_response \<Rightarrow> bool) \<Rightarrow> schedule \<Rightarrow> json_obj \<Rightarrow> string \<Rightarrow> string \<Rightarrow> string \<Rightarrow> bool \<Rightarrow>
   exc \<Rightarrow> world \<Rightarrow> (exc + h_response) \<times> world" where
  "on_failure env cfg reply_ok sch envelope eid rid attempt has_conn e w =
     (if e = PyError then (Inl PyError, w)
      else (case h_stop env cfg sch envelope rid attempt ''transport_uncertain''
                   (case e of ProtocolError why \<Rightarrow> why | _ \<Rightarrow> ''store_unavailable'') has_conn w of
              (Inl e', w1) \<Rightarrow> (Inl e', w1)
            | (Inr _, w1) \<Rightarrow> current_status env cfg reply_ok sch eid rid ''unconfirmed'' w1))"

definition after_gate ::
  "proto_env \<Rightarrow> worker_settings \<Rightarrow> ledger_cfg \<Rightarrow> (h_response \<Rightarrow> bool) \<Rightarrow> schedule \<Rightarrow> handoff_in \<Rightarrow> json_obj \<Rightarrow> string \<Rightarrow>
   json_obj \<Rightarrow> val \<Rightarrow> verified_delegated option \<Rightarrow> string \<Rightarrow> string \<Rightarrow> world \<Rightarrow> (exc + h_response) \<times> world" where
  "after_gate env st cfg reply_ok sch inp envelope eid arguments delegated vd attempt owner w =
     (case exchange env st inp envelope arguments delegated vd attempt w of
        (Inl e, w1) \<Rightarrow> (Inl e, w1)
      | (Inr result, w1) \<Rightarrow> conclude env cfg reply_ok sch inp envelope eid attempt owner result w1)"

definition send_phase ::
  "proto_env \<Rightarrow> worker_settings \<Rightarrow> ledger_cfg \<Rightarrow> (h_response \<Rightarrow> bool) \<Rightarrow> schedule \<Rightarrow> handoff_in \<Rightarrow> json_obj \<Rightarrow> string \<Rightarrow>
   json_obj \<Rightarrow> val \<Rightarrow> verified_delegated option \<Rightarrow> dispatch_permit \<Rightarrow> string \<Rightarrow> world \<Rightarrow> (exc + h_response) \<times> world" where
  "send_phase env st cfg reply_ok sch inp envelope eid arguments delegated vd permit attempt w =
     (case take_turn env cfg sch w of
        (t, w1) \<Rightarrow>
          (case open_send env cfg (ci_pid (hi_claim inp)) (ti_free t) (ti_fault t) permit envelope (w_ledger w1) of
             (Inl e, _) \<Rightarrow> on_failure env cfg reply_ok sch envelope eid (hi_rid inp) attempt False e w1
           | (Inr _, _) \<Rightarrow>
               (case after_gate env st cfg reply_ok sch inp envelope eid arguments delegated vd attempt
                       (pm_owner permit) w1 of
                  (Inl e, w2) \<Rightarrow> on_failure env cfg reply_ok sch envelope eid (hi_rid inp) attempt True e w2
                | (Inr r, w2) \<Rightarrow> (Inr r, w2))))"

section \<open>The route\<close>

definition REFUSE_REGISTERED :: "string list" where
  "REFUSE_REGISTERED = [''request_expired'', ''request_not_yet_valid'', ''admission_disabled'', ''epoch_mismatch'',
     ''run_stopped'', ''predecessor_unresolved'']"

definition after_claim ::
  "proto_env \<Rightarrow> worker_settings \<Rightarrow> ledger_cfg \<Rightarrow> (h_response \<Rightarrow> bool) \<Rightarrow> schedule \<Rightarrow> handoff_in \<Rightarrow> json_obj \<Rightarrow> string \<Rightarrow>
   json_obj \<Rightarrow> val \<Rightarrow> verified_delegated option \<Rightarrow> claim_decision \<Rightarrow> world \<Rightarrow> (exc + h_response) \<times> world" where
  "after_claim env st cfg reply_ok sch inp envelope eid arguments delegated vd d w =
     (let rid = hi_rid inp in
      if cd_reason d = ''metadata_replay'' then current_status env cfg reply_ok sch eid rid ''confirmed'' w
      else (case cd_permit d of
              None \<Rightarrow>
                if cd_reason d \<in> {''store_unavailable'', ''schema_invalid'', ''claim_commit_unconfirmed''}
                then (unavailable reply_ok rid None, w)
                else if cd_reason d \<in> set REFUSE_REGISTERED
                then refuse_registered env cfg reply_ok sch envelope eid rid (cd_reason d) w
                else (refused reply_ok rid (cd_reason d) None, w)
            | Some permit \<Rightarrow>
                (case w_lookup env cfg sch eid w of
                   (Inl e, w1) \<Rightarrow> (Inl e, w1)
                 | (Inr recovery, w1) \<Rightarrow>
                     (case pr_attempt recovery of
                        None \<Rightarrow> (unavailable reply_ok rid None, w1)
                      | Some attempt \<Rightarrow>
                          if attempt = [] then (unavailable reply_ok rid None, w1)
                          else send_phase env st cfg reply_ok sch inp envelope eid arguments delegated vd permit
                                 attempt w1))))"

definition admit_submission ::
  "proto_env \<Rightarrow> worker_settings \<Rightarrow> ledger_cfg \<Rightarrow> (h_response \<Rightarrow> bool) \<Rightarrow> schedule \<Rightarrow> handoff_in \<Rightarrow> json_obj \<Rightarrow> string \<Rightarrow>
   json_obj \<Rightarrow> val \<Rightarrow> verified_delegated option \<Rightarrow> world \<Rightarrow> (exc + h_response) \<times> world" where
  "admit_submission env st cfg reply_ok sch inp envelope eid arguments delegated vd w =
     (if hi_draining inp then refuse_registered env cfg reply_ok sch envelope eid (hi_rid inp) ''shutdown'' w
      else (case take_turn env cfg sch w of
              (t, w1) \<Rightarrow>
                (case fst (ledger_claim env cfg (hi_claim inp) (VDict envelope) (hi_rid inp) (w_ledger w1)) of
                   Inl e \<Rightarrow> (Inl e, w1)
                 | Inr d \<Rightarrow>
                     after_claim env st cfg reply_ok sch inp envelope eid arguments delegated vd d
                       (do_op env cfg (OpClaim (hi_claim inp) (VDict envelope) (hi_rid inp)) w1))))"

definition handoff ::
  "proto_env \<Rightarrow> worker_settings \<Rightarrow> ledger_cfg \<Rightarrow> (h_response \<Rightarrow> bool) \<Rightarrow> schedule \<Rightarrow> handoff_in \<Rightarrow> world \<Rightarrow>
   (exc + h_response) \<times> world" where
  "handoff env st cfg reply_ok sch inp w =
     (if \<not> bearer_ok st (hi_auth inp) then (refused reply_ok (hi_rid inp) ''unauthorized'' None, w)
      else (case parse_submission env st cfg inp of
              Inl (ProtocolError why) \<Rightarrow> (refused reply_ok (hi_rid inp) why None, w)
            | Inl e \<Rightarrow> (Inl e, w)
            | Inr (envelope, arguments, delegated, vd) \<Rightarrow>
                (case str_fld envelope ''execution_id'' of
                   Inl e \<Rightarrow> (Inl e, w)
                 | Inr eid \<Rightarrow>
                     admit_submission env st cfg reply_ok sch inp envelope eid arguments delegated vd w)))"

text \<open>A history of submissions, each with its own schedule.\<close>

definition handoff_step ::
  "proto_env \<Rightarrow> worker_settings \<Rightarrow> ledger_cfg \<Rightarrow> (h_response \<Rightarrow> bool) \<Rightarrow> schedule \<times> handoff_in \<Rightarrow> world \<Rightarrow> world" where
  "handoff_step env st cfg reply_ok op w =
     snd (handoff env st cfg reply_ok (fst op) (snd op) (w\<lparr>w_count := 0\<rparr>))"

definition run_handoffs ::
  "proto_env \<Rightarrow> worker_settings \<Rightarrow> ledger_cfg \<Rightarrow> (h_response \<Rightarrow> bool) \<Rightarrow> (schedule \<times> handoff_in) list \<Rightarrow> world \<Rightarrow> world" where
  "run_handoffs env st cfg reply_ok = fold (handoff_step env st cfg reply_ok)"

definition start_world :: "ledger \<Rightarrow> world" where
  "start_world l = \<lparr>w_ledger = l, w_trace = [], w_sends = [], w_count = 0\<rparr>"

section \<open>Steps that send nothing\<close>

definition quiet :: "proto_env \<Rightarrow> ledger_cfg \<Rightarrow> world \<Rightarrow> world \<Rightarrow> bool" where
  "quiet env cfg w w' \<longleftrightarrow>
     (\<exists>ops. w_trace w' = w_trace w @ ops \<and> w_ledger w' = fold (ledger_step env cfg) ops (w_ledger w))
     \<and> w_sends w' = w_sends w"

named_theorems quiet_steps "calls of the route that put nothing on the wire"

lemma quiet_refl [simp, intro]: "quiet env cfg w w"
  by (simp add: quiet_def exI [of _ "[]"])

lemma quiet_trans [trans]: "quiet env cfg w w' \<Longrightarrow> quiet env cfg w' w'' \<Longrightarrow> quiet env cfg w w''"
  by (auto simp: quiet_def)

lemma quiet_take_turn [quiet_steps]: "take_turn env cfg sch w = (t, w') \<Longrightarrow> quiet env cfg w w'"
  by (auto simp: take_turn_def Let_def quiet_def)

lemma quiet_do_op [quiet_steps]: "quiet env cfg w (do_op env cfg op w)"
  by (auto simp: do_op_def quiet_def intro!: exI [of _ "[op]"])

lemma quiet_w_lookup [quiet_steps]: "w_lookup env cfg sch eid w = (r, w') \<Longrightarrow> quiet env cfg w w'"
  by (auto simp: w_lookup_def split: prod.split_asm intro: quiet_take_turn)

lemma quiet_w_finish [quiet_steps]: "w_finish env cfg t envelope ob why w = (r, w') \<Longrightarrow> quiet env cfg w w'"
  by (auto simp: w_finish_def intro: quiet_do_op)

lemma quiet_w_stop [quiet_steps]: "w_stop env cfg t envelope ob why w = (r, w') \<Longrightarrow> quiet env cfg w w'"
  by (auto simp: w_stop_def intro: quiet_do_op)

lemma quiet_fresh_stop [quiet_steps]: "fresh_stop env cfg sch envelope ob why w = (r, w') \<Longrightarrow> quiet env cfg w w'"
  by (auto simp: fresh_stop_def split: prod.split_asm sum.split_asm
      intro: quiet_trans [OF quiet_take_turn quiet_w_stop])

lemma quiet_h_stop [quiet_steps]:
  "h_stop env cfg sch envelope rid attempt kind why has_conn w = (r, w') \<Longrightarrow> quiet env cfg w w'"
  by (auto simp: h_stop_def split: prod.split_asm sum.split_asm if_split_asm
      intro: quiet_take_turn quiet_trans [OF quiet_take_turn quiet_w_finish]
        quiet_trans [OF quiet_take_turn quiet_fresh_stop]
        quiet_trans [OF quiet_trans [OF quiet_take_turn quiet_w_finish] quiet_fresh_stop])

lemma quiet_current_status [quiet_steps]:
  "current_status env cfg reply_ok sch eid rid durability w = (r, w') \<Longrightarrow> quiet env cfg w w'"
  by (auto simp: current_status_def split: prod.split_asm sum.split_asm intro: quiet_w_lookup)

lemma quiet_refuse_registered [quiet_steps]:
  "refuse_registered env cfg reply_ok sch envelope eid rid why w = (r, w') \<Longrightarrow> quiet env cfg w w'"
  by (auto simp: refuse_registered_def split: prod.split_asm sum.split_asm if_split_asm bool.split_asm
      intro: quiet_w_lookup quiet_trans [OF quiet_w_lookup quiet_h_stop]
        quiet_trans [OF quiet_trans [OF quiet_w_lookup quiet_h_stop] quiet_current_status]
        quiet_trans [OF quiet_trans [OF quiet_w_lookup quiet_h_stop] quiet_w_lookup])

lemma quiet_persist_attempt [quiet_steps]: "persist_attempt env cfg t envelope ob w = (r, w') \<Longrightarrow> quiet env cfg w w'"
  by (auto simp: persist_attempt_def split: if_split_asm intro: quiet_w_finish)

lemma quiet_persist [quiet_steps]: "persist n env cfg sch envelope eid ob w = (r, w') \<Longrightarrow> quiet env cfg w w'"
proof (induction n arbitrary: w)
  case (Suc n)
  obtain t w1 where t: "take_turn env cfg sch w = (t, w1)" by force
  obtain a w2 where a: "persist_attempt env cfg t envelope ob w1 = (a, w2)" by force
  obtain l w3 where l: "w_lookup env cfg sch eid w2 = (l, w3)" by force
  note q1 = quiet_take_turn [OF t] and q2 = quiet_trans [OF quiet_take_turn [OF t] quiet_persist_attempt [OF a]]
  note q3 = quiet_trans [OF q2 quiet_w_lookup [OF l]]
  from Suc.prems consider "w' = w1" | "w' = w2" | "w' = w3" | "persist n env cfg sch envelope eid ob w3 = (r, w')"
    by (auto simp: t a l split: if_split_asm sum.split_asm)
  then show ?case
    using q1 q2 q3 by cases (auto intro: quiet_trans [OF q3 Suc.IH])
qed simp

lemma quiet_conclude [quiet_steps]:
  assumes "conclude env cfg reply_ok sch inp envelope eid attempt owner result w = (r, w')"
  shows "quiet env cfg w w'"
proof -
  obtain t w0 where t: "take_turn env cfg sch w = (t, w0)" by force
  note q0 = quiet_take_turn [OF t]
  show ?thesis
  proof (cases "result_fact env cfg inp envelope attempt owner t result")
    case (Inl e)
    with assms q0 show ?thesis by (simp add: conclude_def t)
  next
    case (Inr ob)
    obtain d w1 where p: "persist 3 env cfg sch envelope eid ob w0 = (d, w1)" by force
    note q1 = quiet_trans [OF q0 quiet_persist [OF p]]
    from assms q1 show ?thesis
      by (auto simp: conclude_def t Inr p simp del: persist.simps split: prod.split_asm sum.split_asm if_split_asm bool.split_asm
          intro: quiet_trans [OF q1 quiet_w_lookup] quiet_trans [OF q1 quiet_h_stop]
            quiet_trans [OF quiet_trans [OF q1 quiet_h_stop] quiet_current_status]
            quiet_trans [OF quiet_trans [OF q1 quiet_w_lookup] quiet_current_status])
  qed
qed

lemma quiet_on_failure [quiet_steps]:
  "on_failure env cfg reply_ok sch envelope eid rid attempt has_conn e w = (r, w') \<Longrightarrow> quiet env cfg w w'"
  by (auto simp: on_failure_def split: prod.split_asm sum.split_asm if_split_asm
      intro: quiet_h_stop quiet_trans [OF quiet_h_stop quiet_current_status])

section \<open>The one send of a handoff\<close>

definition dispatched :: "proto_env \<Rightarrow> ledger_cfg \<Rightarrow> val \<times> gw_request \<Rightarrow> world \<Rightarrow> world \<Rightarrow> bool" where
  "dispatched env cfg x w w' \<longleftrightarrow>
     (\<exists>ops. w_trace w' = w_trace w @ ops \<and> w_ledger w' = fold (ledger_step env cfg) ops (w_ledger w))
     \<and> w_sends w' = w_sends w @ [x]"

lemma quiet_dispatched [trans]: "quiet env cfg w w1 \<Longrightarrow> dispatched env cfg x w1 w2 \<Longrightarrow> dispatched env cfg x w w2"
  by (auto simp: quiet_def dispatched_def)

lemma dispatched_quiet [trans]: "dispatched env cfg x w w1 \<Longrightarrow> quiet env cfg w1 w2 \<Longrightarrow> dispatched env cfg x w w2"
  by (auto simp: quiet_def dispatched_def)

definition tool_request ::
  "proto_env \<Rightarrow> worker_settings \<Rightarrow> handoff_in \<Rightarrow> json_obj \<Rightarrow> json_obj \<Rightarrow> val \<Rightarrow> verified_delegated option \<Rightarrow> string \<Rightarrow>
   exc + gw_request" where
  "tool_request env st inp envelope arguments delegated vd attempt =
     execute_tool env st (hi_wall inp) (get_none envelope ''tool_name'') arguments delegated attempt
       (get_none envelope ''session_id'') (get_none envelope ''approval_kind'')
       (get_none envelope ''execution_id'') vd"

lemma exchange_cases:
  assumes "exchange env st inp envelope arguments delegated vd attempt w = (r, w')"
  obtains (nothing) e where "r = Inl e" and "w' = w"
    | (sent) req where "tool_request env st inp envelope arguments delegated vd attempt = Inr req"
        and "dispatched env cfg (get_none envelope ''execution_id'', req) w w'"
  using assms by (auto simp: exchange_def tool_request_def dispatched_def split: sum.split_asm intro: exI [of _ "[]"])

lemma after_gate_cases:
  assumes "after_gate env st cfg reply_ok sch inp envelope eid arguments delegated vd attempt owner w = (r, w')"
  obtains (nothing) e where "r = Inl e" and "w' = w"
    | (sent) req where "tool_request env st inp envelope arguments delegated vd attempt = Inr req"
        and "dispatched env cfg (get_none envelope ''execution_id'', req) w w'"
proof -
  obtain a w1 where a: "exchange env st inp envelope arguments delegated vd attempt w = (a, w1)" by force
  from a show ?thesis
  proof (cases rule: exchange_cases [where cfg = cfg])
    case (nothing e)
    with assms a have "r = Inl e" "w' = w" by (simp_all add: after_gate_def)
    then show ?thesis by (rule that(1))
  next
    case (sent req)
    have "quiet env cfg w1 w'" using assms a by (cases a) (auto simp: after_gate_def intro: quiet_conclude)
    with sent show ?thesis by (blast intro: that(2) dispatched_quiet)
  qed
qed

lemma send_phase_cases:
  assumes "send_phase env st cfg reply_ok sch inp envelope eid arguments delegated vd permit attempt w = (r, w')"
  obtains (nothing) "quiet env cfg w w'"
    | (sent) t w1 p' req where "take_turn env cfg sch w = (t, w1)"
        and "open_send env cfg (ci_pid (hi_claim inp)) (ti_free t) (ti_fault t) permit envelope (w_ledger w1) = (Inr (), p')"
        and "tool_request env st inp envelope arguments delegated vd attempt = Inr req"
        and "dispatched env cfg (get_none envelope ''execution_id'', req) w1 w'"
proof -
  obtain t w1 where t: "take_turn env cfg sch w = (t, w1)" by force
  note q1 = quiet_take_turn [OF t]
  obtain g p' where g: "open_send env cfg (ci_pid (hi_claim inp)) (ti_free t) (ti_fault t) permit envelope (w_ledger w1)
      = (g, p')" by force
  show ?thesis
  proof (cases g)
    case (Inl e)
    with assms t g have "quiet env cfg w1 w'" by (auto simp: send_phase_def intro: quiet_on_failure)
    with q1 show ?thesis by (blast intro: that(1) quiet_trans)
  next
    case (Inr u)
    obtain a w2 where a: "after_gate env st cfg reply_ok sch inp envelope eid arguments delegated vd attempt
        (pm_owner permit) w1 = (a, w2)" by force
    have q2: "quiet env cfg w2 w'"
      using assms t g a Inr by (cases a) (auto simp: send_phase_def intro: quiet_on_failure)
    from a show ?thesis
    proof (cases rule: after_gate_cases)
      case (nothing e)
      with q2 have "quiet env cfg w1 w'" by simp
      with q1 show ?thesis by (rule that(1) [OF quiet_trans])
    next
      case (sent req)
      from dispatched_quiet [OF sent(2) q2] sent(1) t g Inr show ?thesis
        by (intro that(2) [of t w1 p' req]) simp_all
    qed
  qed
qed

lemma after_claim_cases:
  assumes "after_claim env st cfg reply_ok sch inp envelope eid arguments delegated vd d w = (r, w')"
  obtains (nothing) "quiet env cfg w w'"
    | (sent) permit attempt t w1 w2 p' req where "cd_permit d = Some permit"
        and "quiet env cfg w w1" and "take_turn env cfg sch w1 = (t, w2)"
        and "open_send env cfg (ci_pid (hi_claim inp)) (ti_free t) (ti_fault t) permit envelope (w_ledger w2) = (Inr (), p')"
        and "tool_request env st inp envelope arguments delegated vd attempt = Inr req"
        and "dispatched env cfg (get_none envelope ''execution_id'', req) w2 w'"
proof (cases "cd_reason d = ''metadata_replay'' \<or> cd_permit d = None")
  case True
  with assms have "quiet env cfg w w'"
    by (auto simp: after_claim_def Let_def split: if_split_asm
        intro: quiet_current_status quiet_refuse_registered)
  then show ?thesis by (rule that(1))
next
  case False
  then obtain permit where p: "cd_permit d = Some permit" "cd_reason d \<noteq> ''metadata_replay''" by auto
  obtain k w1 where k: "w_lookup env cfg sch eid w = (k, w1)" by force
  note q = quiet_w_lookup [OF k]
  from assms p k consider "w' = w1"
    | attempt where "send_phase env st cfg reply_ok sch inp envelope eid arguments delegated vd permit attempt w1 = (r, w')"
    by (auto simp: after_claim_def Let_def split: sum.split_asm option.split_asm if_split_asm)
  then show ?thesis
  proof cases
    case 1
    with q show ?thesis by (simp add: that(1))
  next
    case 2
    then show ?thesis
    proof (cases rule: send_phase_cases)
      case nothing
      with q show ?thesis by (rule that(1) [OF quiet_trans])
    next
      case (sent t w2 p' req)
      from sent p(1) q show ?thesis
        by (intro that(2) [of permit w1 t w2 p' attempt req]) simp_all
    qed
  qed
qed

lemma permits_append: "permits env cfg (a @ b) l = permits env cfg a l @ permits env cfg b (fold (ledger_step env cfg) a l)"
  by (induction a arbitrary: l) simp_all

lemma minted_execution:
  assumes "minted env cfg (OpClaim inp (VDict envelope) cur) l = Some p"
  shows "dget envelope ''execution_id'' = Some (VStr (pm_execution p))"
    and "dget envelope ''run_id'' = Some (VStr (pm_run p))"
proof -
  from assms obtain inp' v cur' d where op: "OpClaim inp (VDict envelope) cur = OpClaim inp' v cur'"
    and c: "ledger_claim env cfg inp' v cur' l = (Inr d, ledger_step env cfg (OpClaim inp (VDict envelope) cur) l)"
    and p: "cd_permit d = Some p" by (rule minted_cases)
  from c p obtain e where v: "validate_request env v (cfg_key cfg) = Inr e"
    and b: "claim_body env cfg l inp' e cur' = Inr (d, ledger_step env cfg (OpClaim inp (VDict envelope) cur) l, ClaimCommit)"
    by (rule ledger_claim_permit)
  from v have "v = VDict e" by (rule validate_request_cases)
  with op have "e = envelope" by simp
  with claim_body_permit [OF b p] show "dget envelope ''execution_id'' = Some (VStr (pm_execution p))"
    and "dget envelope ''run_id'' = Some (VStr (pm_run p))" by blast+
qed

text \<open>Everything that stands behind a send: the checks, the minted permit and the open gate.\<close>

definition send_authority ::
  "proto_env \<Rightarrow> worker_settings \<Rightarrow> ledger_cfg \<Rightarrow> handoff_in \<Rightarrow> json_obj \<Rightarrow> dispatch_permit \<Rightarrow> ledger \<Rightarrow> ledger \<Rightarrow> gw_request \<Rightarrow> bool" where
  "send_authority env st cfg inp envelope p l0 l1 req \<longleftrightarrow>
     bearer_ok st (hi_auth inp)
     \<and> (\<exists>arguments delegated vd attempt.
          parse_submission env st cfg inp = Inr (envelope, arguments, delegated, vd)
          \<and> tool_request env st inp envelope arguments delegated vd attempt = Inr req)
     \<and> minted env cfg (OpClaim (hi_claim inp) (VDict envelope) (hi_rid inp)) l0 = Some p
     \<and> (\<exists>free fault p'. open_send env cfg (ci_pid (hi_claim inp)) free fault p envelope l1 = (Inr (), p'))"

lemma admit_cases:
  assumes "admit_submission env st cfg reply_ok sch inp envelope eid arguments delegated vd w = (r, w')"
  obtains (nothing) "quiet env cfg w w'"
    | (sent) ops1 ops2 ops3 p and t :: turn_in and p' attempt req where
        "w_trace w' = w_trace w @ ops1 @ OpClaim (hi_claim inp) (VDict envelope) (hi_rid inp) # ops2 @ ops3"
        and "w_ledger w' = fold (ledger_step env cfg)
               (ops1 @ OpClaim (hi_claim inp) (VDict envelope) (hi_rid inp) # ops2 @ ops3) (w_ledger w)"
        and "minted env cfg (OpClaim (hi_claim inp) (VDict envelope) (hi_rid inp))
               (fold (ledger_step env cfg) ops1 (w_ledger w)) = Some p"
        and "open_send env cfg (ci_pid (hi_claim inp)) (ti_free t) (ti_fault t) p envelope
               (fold (ledger_step env cfg)
                 (ops1 @ OpClaim (hi_claim inp) (VDict envelope) (hi_rid inp) # ops2) (w_ledger w)) = (Inr (), p')"
        and "tool_request env st inp envelope arguments delegated vd attempt = Inr req"
        and "w_sends w' = w_sends w @ [(VStr (pm_execution p), req)]"
proof (cases "hi_draining inp")
  case True
  with assms show ?thesis by (auto simp: admit_submission_def intro: that(1) quiet_refuse_registered)
next
  case False
  let ?c = "OpClaim (hi_claim inp) (VDict envelope) (hi_rid inp)"
  obtain t0 w1 where t0: "take_turn env cfg sch w = (t0, w1)" by force
  note q1 = quiet_take_turn [OF t0]
  show ?thesis
  proof (cases "fst (ledger_claim env cfg (hi_claim inp) (VDict envelope) (hi_rid inp) (w_ledger w1))")
    case (Inl e)
    with assms False t0 q1 show ?thesis by (intro that(1)) (simp add: admit_submission_def)
  next
    case (Inr d)
    with assms False t0 have a: "after_claim env st cfg reply_ok sch inp envelope eid arguments delegated vd d
        (do_op env cfg ?c w1) = (r, w')" by (simp add: admit_submission_def)
    note q2 = quiet_trans [OF q1 quiet_do_op]
    from a show ?thesis
    proof (cases rule: after_claim_cases)
      case nothing
      with q2 show ?thesis by (rule that(1) [OF quiet_trans])
    next
      case (sent p attempt t w2 w3 p' req)
      from Inr sent(1) have m: "minted env cfg ?c (w_ledger w1) = Some p" by (simp add: minted_def)
      have e: "get_none envelope ''execution_id'' = VStr (pm_execution p)"
        using minted_execution(1) [OF m] by (simp add: get_none_def)
      from quiet_trans [OF sent(2) quiet_take_turn [OF sent(3)]] obtain ops2 where
        o2: "w_trace w3 = w_trace w1 @ ?c # ops2" "w_ledger w3 = fold (ledger_step env cfg) (?c # ops2) (w_ledger w1)"
        by (auto simp: quiet_def do_op_def)
      from q1 obtain ops1 where o1: "w_trace w1 = w_trace w @ ops1" "w_ledger w1 = fold (ledger_step env cfg) ops1 (w_ledger w)"
        by (auto simp: quiet_def)
      from sent(6) obtain ops3 where o3: "w_trace w' = w_trace w3 @ ops3"
          "w_ledger w' = fold (ledger_step env cfg) ops3 (w_ledger w3)"
          "w_sends w' = w_sends w3 @ [(VStr (pm_execution p), req)]"
        by (auto simp: dispatched_def e)
      have "w_sends w3 = w_sends w"
        using quiet_trans [OF q2 quiet_trans [OF sent(2) quiet_take_turn [OF sent(3)]]] by (simp add: quiet_def)
      with o1 o2 o3 sent(4,5) m show ?thesis
        by (intro that(2) [of ops1 ops2 ops3 p t p' attempt req]) simp_all
    qed
  qed
qed

lemma handoff_cases:
  assumes "handoff env st cfg reply_ok sch inp w = (r, w')"
  obtains (nothing) "quiet env cfg w w'"
    | (sent) envelope p ops1 ops2 ops3 req where
        "w_trace w' = w_trace w @ ops1 @ OpClaim (hi_claim inp) (VDict envelope) (hi_rid inp) # ops2 @ ops3"
        and "w_ledger w' = fold (ledger_step env cfg)
               (ops1 @ OpClaim (hi_claim inp) (VDict envelope) (hi_rid inp) # ops2 @ ops3) (w_ledger w)"
        and "send_authority env st cfg inp envelope p (fold (ledger_step env cfg) ops1 (w_ledger w))
               (fold (ledger_step env cfg)
                 (ops1 @ OpClaim (hi_claim inp) (VDict envelope) (hi_rid inp) # ops2) (w_ledger w)) req"
        and "w_sends w' = w_sends w @ [(VStr (pm_execution p), req)]"
proof (cases "bearer_ok st (hi_auth inp)")
  case False
  with assms show ?thesis by (intro that(1)) (simp add: handoff_def)
next
  case True
  show ?thesis
  proof (cases "parse_submission env st cfg inp")
    case (Inl e)
    with assms True show ?thesis by (intro that(1)) (cases e; simp add: handoff_def)
  next
    case (Inr y)
    obtain envelope arguments delegated vd where y: "y = (envelope, arguments, delegated, vd)" by (cases y)
    show ?thesis
    proof (cases "str_fld envelope ''execution_id''")
      case (Inl e)
      with assms True Inr y show ?thesis by (intro that(1)) (simp add: handoff_def)
    next
      case (Inr eid)
      with assms True \<open>parse_submission env st cfg inp = Inr y\<close> y
      have "admit_submission env st cfg reply_ok sch inp envelope eid arguments delegated vd w = (r, w')"
        unfolding handoff_def by simp
      then show ?thesis
      proof (cases rule: admit_cases)
        case nothing
        then show ?thesis by (rule that(1))
      next
        case (sent ops1 ops2 ops3 p t p' attempt req)
        have "send_authority env st cfg inp envelope p (fold (ledger_step env cfg) ops1 (w_ledger w))
            (fold (ledger_step env cfg)
              (ops1 @ OpClaim (hi_claim inp) (VDict envelope) (hi_rid inp) # ops2) (w_ledger w)) req"
          unfolding send_authority_def using True sent(3-5) \<open>parse_submission env st cfg inp = Inr y\<close> y by blast
        from that(2) [OF sent(1,2) this sent(6)] show ?thesis .
      qed
    qed
  qed
qed

section \<open>Histories of handoffs\<close>

definition backed :: "proto_env \<Rightarrow> ledger_cfg \<Rightarrow> ledger \<Rightarrow> world \<Rightarrow> bool" where
  "backed env cfg l w \<longleftrightarrow>
     w_ledger w = fold (ledger_step env cfg) (w_trace w) l
     \<and> mset (map fst (w_sends w)) \<subseteq># mset (map (VStr \<circ> pm_execution) (permits env cfg (w_trace w) l))"

lemma backed_handoff:
  assumes "backed env cfg l w" and "handoff env st cfg reply_ok sch inp w = (r, w')"
  shows "backed env cfg l w'"
  using assms(2)
proof (cases rule: handoff_cases)
  case nothing
  with assms(1) show ?thesis
    by (auto simp: backed_def quiet_def permits_append intro: subset_mset.order_trans)
next
  case (sent envelope p ops1 ops2 ops3 req)
  let ?c = "OpClaim (hi_claim inp) (VDict envelope) (hi_rid inp)"
  let ?l = "fold (ledger_step env cfg) ops1 (w_ledger w)"
  from sent(3) have m: "minted env cfg ?c ?l = Some p" by (simp add: send_authority_def)
  have l: "fold (ledger_step env cfg) (w_trace w) l = w_ledger w" using assms(1) by (simp add: backed_def)
  have "mset (map (VStr \<circ> pm_execution) (permits env cfg (w_trace w') l))
      = mset (map (VStr \<circ> pm_execution) (permits env cfg (w_trace w) l)) + {#VStr (pm_execution p)#}
        + mset (map (VStr \<circ> pm_execution) (permits env cfg ops1 (w_ledger w)))
        + mset (map (VStr \<circ> pm_execution) (permits env cfg (ops2 @ ops3) (ledger_step env cfg ?c ?l)))"
    unfolding sent(1) permits_append l by (simp add: m permits_append)
  moreover have "mset (map fst (w_sends w)) \<subseteq># mset (map (VStr \<circ> pm_execution) (permits env cfg (w_trace w) l))"
    using assms(1) by (simp add: backed_def)
  ultimately have "mset (map fst (w_sends w')) \<subseteq># mset (map (VStr \<circ> pm_execution) (permits env cfg (w_trace w') l))"
    unfolding sent(4) by (simp add: subset_mset.add_increasing2)
  moreover have "w_ledger w' = fold (ledger_step env cfg) (w_trace w') l"
    unfolding sent(1,2) by (simp add: l)
  ultimately show ?thesis by (simp add: backed_def)
qed

lemma backed_step: "backed env cfg l w \<Longrightarrow> backed env cfg l (handoff_step env st cfg reply_ok op w)"
  unfolding handoff_step_def by (rule backed_handoff [OF _ prod.collapse [symmetric]]) (simp add: backed_def)

interpretation hs: invariant_machine "handoff_step env st cfg reply_ok" "backed env cfg l"
  by unfold_locales (rule backed_step)

section \<open>What the responses mean\<close>

lemma respond_Inr: "respond reply_ok x = Inr y \<longleftrightarrow> reply_ok x \<and> y = x"
  by (auto simp: respond_def)

lemmas response_defs = status_of_def unavailable_def refused_def plain_def

lemma current_status_kind:
  "current_status env cfg reply_ok sch eid rid durability w = (Inr y, w') \<Longrightarrow> rs_kind y \<noteq> ''original_result''"
  by (auto simp: current_status_def response_defs respond_Inr split: prod.split_asm sum.split_asm if_split_asm)

lemma refuse_registered_kind:
  "refuse_registered env cfg reply_ok sch envelope eid rid why w = (Inr y, w') \<Longrightarrow> rs_kind y \<noteq> ''original_result''"
  by (auto simp: refuse_registered_def response_defs respond_Inr
      split: prod.split_asm sum.split_asm if_split_asm bool.split_asm dest: current_status_kind)

lemma on_failure_kind:
  "on_failure env cfg reply_ok sch envelope eid rid attempt has_conn e w = (Inr y, w') \<Longrightarrow> rs_kind y \<noteq> ''original_result''"
  by (auto simp: on_failure_def split: prod.split_asm sum.split_asm if_split_asm dest: current_status_kind)

text \<open>A confirmed original result: what the client can rely on.\<close>

definition confirmed :: "proto_env \<Rightarrow> ledger_cfg \<Rightarrow> string \<Rightarrow> h_response \<Rightarrow> ledger \<Rightarrow> bool" where
  "confirmed env cfg eid y l \<longleftrightarrow>
     rs_status y = 200 \<and> rs_durability y = ''confirmed'' \<and>
     (\<exists>recovery now. rs_recovery y = Some recovery \<and> ledger_lookup env cfg NoFault now eid l = Inr recovery
        \<and> pr_state recovery = Some ''result_recorded'' \<and> \<not> pr_conflict recovery \<and> \<not> pr_run_stopped recovery)"

lemma ledger_lookup_state:
  "ledger_lookup env cfg fault now eid l = Inr p \<Longrightarrow> pr_state p = Some s \<Longrightarrow> fault = NoFault"
  by (auto simp: ledger_lookup_def empty_projection_def split: if_split_asm)

text \<open>
  The ledger holds the observation \<open>ob\<close>: a row with its identifier and digest, or a worker result of the
  execution with the very same receipt (which a lost commit left behind).
\<close>

definition obs_recorded :: "proto_env \<Rightarrow> string \<Rightarrow> json_obj \<Rightarrow> ledger \<Rightarrow> bool" where
  "obs_recorded env eid ob l \<longleftrightarrow>
     list_ex (\<lambda>row. dget ob ''observation_id'' = Some (VStr (ob_id row)) \<and> ob_digest row = canonical_digest (cr env) (VDict ob)
       \<or> ob_exec row = eid \<and> dget (ob_payload row) ''kind'' = Some (VStr ''worker_result'')
         \<and> get_none (ob_payload row) ''receipt'' = get_none ob ''receipt'') (observations l)"

lemma recorded_append:
  assumes "ledger_append env cfg l intent ob = Inr (res, l')" and "res \<in> {Inserted, Identical}"
  shows "obs_recorded env eid ob l'"
proof -
  let ?d = "canonical_digest (cr env) (VDict ob)"
  from assms obtain oid where oid: "dget ob ''observation_id'' = Some (VStr oid)"
    by (auto simp: ledger_append_def Let_def split: option.split_asm)
  have "\<exists>row\<in>set (observations l'). ob_id row = oid \<and> ob_digest row = ?d"
  proof (cases "find_obs l oid")
    case (Some old)
    then have old: "old \<in> set (observations l)" "ob_id old = oid" by (auto simp: find_obs_def find_Some_iff)
    from assms oid Some obtain eid' where "replay_obs eid' ?d old l = (res, l')"
      by (auto simp: ledger_append_def Let_def split: option.split_asm)
    with assms(2) have "ob_digest old = ?d" "observations l' = observations l"
      by (auto simp: replay_obs_def count_duplicate_def split: if_split_asm)
    with old show ?thesis by auto
  next
    case None
    from assms oid None obtain eid' n slot source kind l1 where "place eid' n slot oid source kind ob ?d l1 = (res, l')"
      by (auto simp: ledger_append_def Let_def simp del: rbind_Inr_iff elim!: rbindE split: option.split_asm)
    with assms(2) show ?thesis by (auto simp: place_def Let_def count_ordinary_def split: if_split_asm)
  qed
  then show ?thesis using oid by (auto simp: obs_recorded_def list_ex_iff)
qed

lemma recorded_lookup:
  assumes "ledger_lookup env cfg fault now eid l = Inr pr" and "pr_state pr = Some ''result_recorded''"
    and "pr_receipt pr = dget ob ''receipt''"
  shows "obs_recorded env eid ob l"
proof -
  have "pr_availability pr = ''available''" using assms(1,2)
    by (auto simp: ledger_lookup_def empty_projection_def project_execution_def build_projection_def Let_def
        simp del: rbind_Inr_iff elim!: rbindE split: if_split_asm sum.split_asm exc.split_asm option.split_asm)
  from ledger_lookup_available [OF assms(1) this] obtain intent where "project_execution env cfg now eid intent l = Inr pr" .
  then obtain run s facts bad where
      f: "read_facts env cfg (in_envelope intent) intent (dget (claims l) eid) (take 71 (obs_of l eid)) = Inr (facts, bad)"
    and pr: "pr = build_projection now intent run s (dget (claims l) eid) facts bad" by (rule project_execution_cases)
  have "pr_receipt pr \<noteq> None" using assms(2)
    by (auto simp: pr build_projection_def Let_def dispatch_state_def split: if_split_asm)
  then obtain v where v: "pr_receipt pr = Some v" by blast
  then obtain k where "(k, v) \<in> set (receipts_of facts)"
    by (auto simp: pr build_projection_def Let_def sole_receipt_def split: list.split_asm prod.split_asm if_split_asm)
  from receipts_of_mem [OF this] obtain x where x: "x \<in> set facts" "dget x ''kind'' = Some (VStr ''worker_result'')"
    "get_none x ''receipt'' = v" by blast
  from read_facts_mem [OF f x(1)] obtain row where "row \<in> set (obs_of l eid)" "ob_payload row = x"
    by (auto dest: in_set_takeD)
  moreover have "get_none ob ''receipt'' = v" using v unfolding assms(3) by (simp add: get_none_def)
  ultimately show ?thesis using x by (auto simp: obs_recorded_def list_ex_iff obs_of_def)
qed

lemma persist_recorded: "persist n env cfg sch envelope eid ob w = (Inr True, w') \<Longrightarrow> obs_recorded env eid ob (w_ledger w')"
proof (induction n arbitrary: w)
  case (Suc n)
  obtain t w1 where t: "take_turn env cfg sch w = (t, w1)" by force
  obtain r w2 where r: "persist_attempt env cfg t envelope ob w1 = (r, w2)" by force
  show ?case
  proof (cases r)
    case (Inr res)
    with Suc.prems t r have res: "res \<in> {Inserted, Identical}" "w' = w2" by (auto split: if_split_asm)
    from r Inr have "w_finish env cfg t envelope ob None w1 = (Inr res, w2)"
      by (auto simp: persist_attempt_def split: if_split_asm)
    then have "ledger_finish env cfg (ti_fault t) envelope ob None (ti_now t) (w_ledger w1) = (Inr res, w_ledger w2)"
      by (auto simp: w_finish_def do_op_def ledger_step_def intro: prod_eqI)
    then obtain intent where "ledger_append env cfg (w_ledger w1) intent ob = Inr (res, w_ledger w2)"
      by (auto simp: ledger_finish_def run_tx_Inr finish_tx_def simp del: rbind_Inr_iff elim!: rbindE split: option.split_asm)
    with res recorded_append show ?thesis by blast
  next
    case (Inl e)
    obtain k w3 where k: "w_lookup env cfg sch eid w2 = (k, w3)" by force
    from Suc.prems t r Inl k obtain recovery where k2: "k = Inr recovery"
      and c: "(if pr_state recovery = Some ''result_recorded'' \<and> pr_receipt recovery = dget ob ''receipt'' then (Inr True, w3)
              else persist n env cfg sch envelope eid ob w3) = (Inr True, w')"
      by (auto split: if_split_asm sum.split_asm)
    from k k2 obtain u :: turn_in where l: "ledger_lookup env cfg (ti_fault u) (ti_now u) eid (w_ledger w3) = Inr recovery"
      by (auto simp: w_lookup_def split: prod.split_asm)
    show ?thesis
    proof (cases "pr_state recovery = Some ''result_recorded'' \<and> pr_receipt recovery = dget ob ''receipt''")
      case True
      with c have "w' = w3" by simp
      with recorded_lookup [OF l] True show ?thesis by blast
    next
      case False
      with c have "persist n env cfg sch envelope eid ob w3 = (Inr True, w')" by (simp only: if_False)
      then show ?thesis by (rule Suc.IH)
    qed
  qed
qed simp

text \<open>The observation a result becomes carries a signed receipt over that very result.\<close>

definition receipt_over :: "proto_env \<Rightarrow> ledger_cfg \<Rightarrow> handoff_in \<Rightarrow> json_obj \<Rightarrow> string \<Rightarrow> json_obj \<Rightarrow> json_obj \<Rightarrow> bool" where
  "receipt_over env cfg inp envelope attempt result ob \<longleftrightarrow>
     (\<exists>status receipt. map_result_status result = Inr status
        \<and> build_receipt (cr env) envelope status (VDict result) (VStr attempt) (cfg_key cfg) (hi_completed inp) = Some receipt
        \<and> dget ob ''receipt'' = Some (VDict receipt) \<and> dget ob ''kind'' = Some (VStr ''worker_result'')
        \<and> dget ob ''execution_id'' = dget envelope ''execution_id'')"

lemma result_fact_receipt:
  assumes "result_fact env cfg inp envelope attempt owner t result = Inr ob"
  shows "receipt_over env cfg inp envelope attempt result ob"
proof -
  from assms obtain status receipt tool_status where st: "map_result_status result = Inr status"
    and r: "build_receipt (cr env) envelope status (VDict result) (VStr attempt) (cfg_key cfg) (hi_completed inp) = Some receipt"
    and ob: "observation env envelope ''worker'' ''worker_result'' attempt (hi_rid inp) (cfg_key cfg) ''none'' (ti_now t) (ti_obs t)
           [(''claim_owner_id'', VStr owner), (''receipt'', VDict receipt),
            (''receipt_digest'', VStr (canonical_digest (cr env) (VDict receipt))), (''tool_status'', tool_status)] = Inr ob"
    by (auto simp: result_fact_def simp del: rbind_Inr_iff elim!: rbindE split: option.split_asm)
  from ob have "dget ob ''receipt'' = Some (VDict receipt)"
    by (auto simp: observation_def Let_def simp del: rbind_Inr_iff elim!: rbindE)
  with st r observation_fields(2,5) [OF ob] show ?thesis by (auto simp: receipt_over_def base_keys_def)
qed

definition durably_recorded :: "proto_env \<Rightarrow> ledger_cfg \<Rightarrow> string \<Rightarrow> json_obj \<Rightarrow> world \<Rightarrow> world \<Rightarrow> bool" where
  "durably_recorded env cfg eid ob w w' \<longleftrightarrow>
     (\<exists>ops1 ops2. w_trace w' = w_trace w @ ops1 @ ops2
        \<and> w_ledger w' = fold (ledger_step env cfg) (ops1 @ ops2) (w_ledger w)
        \<and> obs_recorded env eid ob (fold (ledger_step env cfg) ops1 (w_ledger w)))"

lemma durable_after: "quiet env cfg w w1 \<Longrightarrow> durably_recorded env cfg eid ob w1 w2 \<Longrightarrow> durably_recorded env cfg eid ob w w2"
  unfolding quiet_def durably_recorded_def by (metis append.assoc fold_append o_apply)

lemma durably_recorded_kept:
  assumes "durably_recorded env cfg eid ob w w'"
  shows "\<exists>ops1 ops2. w_trace w' = w_trace w @ ops1 @ ops2
    \<and> obs_recorded env eid ob (fold (ledger_step env cfg) ops1 (w_ledger w))
    \<and> (list_all (\<lambda>op. \<not> is_sweep op) ops2 \<longrightarrow> obs_recorded env eid ob (w_ledger w'))"
proof -
  from assms obtain ops1 ops2 where "w_trace w' = w_trace w @ ops1 @ ops2"
    and l: "w_ledger w' = fold (ledger_step env cfg) ops2 (fold (ledger_step env cfg) ops1 (w_ledger w))"
    and "obs_recorded env eid ob (fold (ledger_step env cfg) ops1 (w_ledger w))" by (auto simp: durably_recorded_def)
  moreover from this have "list_all (\<lambda>op. \<not> is_sweep op) ops2 \<longrightarrow> obs_recorded env eid ob (w_ledger w')"
    using obs_kept [of ops2 "fold (ledger_step env cfg) ops1 (w_ledger w)" env cfg]
    by (auto simp: obs_recorded_def list_ex_iff)
  ultimately show ?thesis by blast
qed

lemma conclude_original:
  assumes "conclude env cfg reply_ok sch inp envelope eid attempt owner result w = (Inr y, w')"
    and "rs_kind y = ''original_result''"
  shows "confirmed env cfg eid y (w_ledger w') \<and> rs_result y = Some result
    \<and> (\<exists>ob. rs_observation y = Some ob \<and> receipt_over env cfg inp envelope attempt result ob \<and> durably_recorded env cfg eid ob w w')"
proof -
  obtain t w0 where t: "take_turn env cfg sch w = (t, w0)" by force
  from assms t obtain ob w1 recovery where
      f: "result_fact env cfg inp envelope attempt owner t result = Inr ob"
    and p: "persist 3 env cfg sch envelope eid ob w0 = (Inr True, w1)"
    and k: "w_lookup env cfg sch eid w1 = (Inr recovery, w')"
    and y: "y = original_result (hi_rid inp) recovery result ob"
    and ok: "pr_state recovery = Some ''result_recorded''" "\<not> pr_conflict recovery" "\<not> pr_run_stopped recovery"
    by (auto simp: conclude_def respond_Inr simp del: persist.simps
        split: prod.split_asm sum.split_asm if_split_asm bool.split_asm dest: current_status_kind)
  from k obtain u :: turn_in where l: "ledger_lookup env cfg (ti_fault u) (ti_now u) eid (w_ledger w') = Inr recovery"
    by (auto simp: w_lookup_def split: prod.split_asm)
  with ledger_lookup_state [OF l ok(1)] have "ledger_lookup env cfg NoFault (ti_now u) eid (w_ledger w') = Inr recovery"
    by simp
  moreover have "durably_recorded env cfg eid ob w w'"
  proof -
    from quiet_trans [OF quiet_take_turn [OF t] quiet_persist [OF p]] obtain ops1
      where o1: "w_trace w1 = w_trace w @ ops1" "w_ledger w1 = fold (ledger_step env cfg) ops1 (w_ledger w)" by (auto simp: quiet_def)
    from quiet_w_lookup [OF k] obtain ops2
      where o2: "w_trace w' = w_trace w1 @ ops2" "w_ledger w' = fold (ledger_step env cfg) ops2 (w_ledger w1)" by (auto simp: quiet_def)
    from persist_recorded [OF p] o1 o2 show ?thesis unfolding durably_recorded_def by (intro exI [of _ ops1] exI [of _ ops2]) simp
  qed
  ultimately show ?thesis using ok result_fact_receipt [OF f] by (auto simp: confirmed_def y original_result_def plain_def)
qed

lemma send_phase_original:
  assumes "send_phase env st cfg reply_ok sch inp envelope eid arguments delegated vd permit attempt w = (Inr y, w')"
    and "rs_kind y = ''original_result''"
  shows "\<exists>result ob. confirmed env cfg eid y (w_ledger w') \<and> rs_result y = Some result
    \<and> rs_observation y = Some ob \<and> receipt_over env cfg inp envelope attempt result ob \<and> durably_recorded env cfg eid ob w w'
    \<and> post_invoke env (hi_gateway inp) attempt (get_none envelope ''tool_name'') = Inr result
    \<and> w_sends w' \<noteq> w_sends w"
proof -
  obtain t w1 where t: "take_turn env cfg sch w = (t, w1)" by force
  from assms t on_failure_kind have g: "after_gate env st cfg reply_ok sch inp envelope eid arguments delegated vd attempt
      (pm_owner permit) w1 = (Inr y, w')"
    by (force simp: send_phase_def split: prod.split_asm sum.split_asm)
  from g have "w_sends w' \<noteq> w_sends w1"
    by (cases rule: after_gate_cases) (auto simp: dispatched_def)
  moreover have "w_sends w1 = w_sends w" using quiet_take_turn [OF t] by (simp add: quiet_def)
  moreover from g obtain result w2 where x: "exchange env st inp envelope arguments delegated vd attempt w1 = (Inr result, w2)"
    and c: "conclude env cfg reply_ok sch inp envelope eid attempt (pm_owner permit) result w2 = (Inr y, w')"
    by (auto simp: after_gate_def split: prod.split_asm sum.split_asm)
  moreover from x have "post_invoke env (hi_gateway inp) attempt (get_none envelope ''tool_name'') = Inr result"
    "w_trace w2 = w_trace w1" "w_ledger w2 = w_ledger w1"
    by (auto simp: exchange_def split: sum.split_asm)
  moreover have "durably_recorded env cfg eid ob w w'" if "durably_recorded env cfg eid ob w2 w'" for ob
    using durable_after [OF quiet_take_turn [OF t], of eid ob w'] that calculation by (simp add: durably_recorded_def)
  ultimately show ?thesis using conclude_original [OF c assms(2)] by auto
qed

lemma after_claim_original:
  assumes "after_claim env st cfg reply_ok sch inp envelope eid arguments delegated vd d w = (Inr y, w')"
    and "rs_kind y = ''original_result''"
  shows "\<exists>result attempt ob. confirmed env cfg eid y (w_ledger w') \<and> rs_result y = Some result
    \<and> rs_observation y = Some ob \<and> receipt_over env cfg inp envelope attempt result ob \<and> durably_recorded env cfg eid ob w w'
    \<and> post_invoke env (hi_gateway inp) attempt (get_none envelope ''tool_name'') = Inr result
    \<and> w_sends w' \<noteq> w_sends w"
proof -
  from assms obtain k w1 permit attempt where k: "w_lookup env cfg sch eid w = (k, w1)"
    and s: "send_phase env st cfg reply_ok sch inp envelope eid arguments delegated vd permit attempt w1 = (Inr y, w')"
    by (auto simp: after_claim_def Let_def response_defs respond_Inr
        split: prod.split_asm sum.split_asm if_split_asm option.split_asm
        dest: current_status_kind refuse_registered_kind)
  moreover have "w_sends w1 = w_sends w" using quiet_w_lookup [OF k] by (simp add: quiet_def)
  ultimately show ?thesis using send_phase_original [OF s assms(2)] durable_after [OF quiet_w_lookup [OF k]] by metis
qed

lemma admit_original:
  assumes "admit_submission env st cfg reply_ok sch inp envelope eid arguments delegated vd w = (Inr y, w')"
    and "rs_kind y = ''original_result''"
  shows "\<exists>result attempt ob. confirmed env cfg eid y (w_ledger w') \<and> rs_result y = Some result
    \<and> rs_observation y = Some ob \<and> receipt_over env cfg inp envelope attempt result ob \<and> durably_recorded env cfg eid ob w w'
    \<and> post_invoke env (hi_gateway inp) attempt (get_none envelope ''tool_name'') = Inr result
    \<and> w_sends w' \<noteq> w_sends w"
proof -
  obtain t w1 where t: "take_turn env cfg sch w = (t, w1)" by force
  from assms t obtain d where a: "after_claim env st cfg reply_ok sch inp envelope eid arguments delegated vd d
      (do_op env cfg (OpClaim (hi_claim inp) (VDict envelope) (hi_rid inp)) w1) = (Inr y, w')"
    by (auto simp: admit_submission_def split: sum.split_asm if_split_asm dest: refuse_registered_kind)
  note q = quiet_trans [OF quiet_take_turn [OF t] quiet_do_op]
  have "w_sends (do_op env cfg (OpClaim (hi_claim inp) (VDict envelope) (hi_rid inp)) w1) = w_sends w"
    using q by (simp add: quiet_def)
  with after_claim_original [OF a assms(2)] durable_after [OF q] show ?thesis by metis
qed

lemma handoff_original:
  assumes "handoff env st cfg reply_ok sch inp w = (Inr y, w')" and "rs_kind y = ''original_result''"
  shows "\<exists>envelope arguments delegated vd eid result attempt ob.
    parse_submission env st cfg inp = Inr (envelope, arguments, delegated, vd)
    \<and> dget envelope ''execution_id'' = Some (VStr eid)
    \<and> confirmed env cfg eid y (w_ledger w') \<and> rs_result y = Some result
    \<and> rs_observation y = Some ob \<and> receipt_over env cfg inp envelope attempt result ob \<and> durably_recorded env cfg eid ob w w'
    \<and> post_invoke env (hi_gateway inp) attempt (get_none envelope ''tool_name'') = Inr result
    \<and> w_sends w' \<noteq> w_sends w"
proof -
  have neq: "refused reply_ok rid why rec = Inr y \<Longrightarrow> False" for rid why rec
    using assms(2) by (auto simp: refused_def plain_def respond_Inr)
  from assms(1) neq obtain envelope arguments delegated vd eid where
      p: "parse_submission env st cfg inp = Inr (envelope, arguments, delegated, vd)"
        "dget envelope ''execution_id'' = Some (VStr eid)"
    and a: "admit_submission env st cfg reply_ok sch inp envelope eid arguments delegated vd w = (Inr y, w')"
    by (auto simp: handoff_def split: if_split_asm sum.split_asm exc.split_asm prod.split_asm)
  from admit_original [OF a assms(2)] p show ?thesis by blast
qed

lemma post_invoke_Inr:
  assumes "post_invoke env gw rid tool = Inr result"
  shows "schema_ok env ''tool-result'' (VDict result) \<and> dget result ''tool_name'' = Some tool
    \<and> (\<exists>code. gw = GwResponse code (Some rid) (Some (VDict result)) \<and> \<not> (300 \<le> code \<and> code < 400))"
proof -
  have "as_dict v = Some d \<Longrightarrow> v = VDict d" for v d by (cases v) auto
  with assms show ?thesis
    by (auto simp: post_invoke_def report_consistent_def simp del: rbind_Inr_iff elim!: rbindE
        split: gw_out.split_asm if_split_asm option.split_asm)
qed

section \<open>Properties\<close>

text \<open>
  C24. At most one gateway exchange per execution: over any history of handoff submissions,
  where other parties perform arbitrary ledger operations between any two ledger accesses of a
  handoff and statements and commits fail at will, every exchange is backed by its own dispatch
  permit, and no execution is ever sent twice. Retention sweeps, which delete claims, may run anywhere
  in the history, provided that the database clock does not go back between claims and sweeps and
  that the valid requests claimed or registered for one execution identifier have one expiry (the
  agent signs one request per fresh identifier); a history without sweeps needs neither.
\<close>

theorem gateway_sends_at_most_once:
  assumes "w = run_handoffs env st cfg reply_ok hist (start_world l)"
    and "list_all (\<lambda>op. \<not> is_sweep op) (w_trace w)
      \<or> intents_expire expiry l \<and> list_all (one_expiry env cfg expiry) (w_trace w) \<and> sorted (db_times (w_trace w))"
  shows "distinct (map fst (w_sends w))"
proof -
  have "backed env cfg l (start_world l)" by (simp add: backed_def start_world_def)
  then have b: "backed env cfg l w" unfolding assms(1) run_handoffs_def by (rule hs.run_inv)
  have "distinct (map pm_execution (permits env cfg (w_trace w) l))"
    using assms(2) permits_distinct permits_distinct_swept by blast
  then have "distinct (map (VStr \<circ> pm_execution) (permits env cfg (w_trace w) l))"
    by (simp add: distinct_map comp_inj_on_iff [symmetric] inj_on_def)
  with b show ?thesis unfolding backed_def by (blast intro: distinct_mset_sub)
qed

text \<open>
  C25. A handoff puts a request on the wire only with complete authority: the caller presented
  the handoff token; the submission is a signed, unexpired request whose arguments have the
  signed digest; its own claim minted the permit on a ledger without a claim for the execution;
  and when the gate opened, admission and epoch held, the run was live, the claim was this
  permit's, no conflict was recorded and no earlier registration was unresolved. It then sends
  exactly once.
\<close>

theorem handoff_send_authority:
  assumes "handoff env st cfg reply_ok sch inp w = (r, w')" and "w_sends w' \<noteq> w_sends w"
  shows "\<exists>envelope arguments delegated vd attempt p req ops1 ops2 intent c run.
    w_sends w' = w_sends w @ [(VStr (pm_execution p), req)]
    \<and> bearer_ok st (hi_auth inp) \<and> parse_submission env st cfg inp = Inr (envelope, arguments, delegated, vd)
    \<and> tool_request env st inp envelope arguments delegated vd attempt = Inr req
    \<and> dget envelope ''args_digest'' = Some (VStr (canonical_digest (cr env) (VDict arguments)))
    \<and> (let l0 = fold (ledger_step env cfg) ops1 (w_ledger w);
           l1 = fold (ledger_step env cfg) ops2 (ledger_step env cfg
                  (OpClaim (hi_claim inp) (VDict envelope) (hi_rid inp)) l0) in
       minted env cfg (OpClaim (hi_claim inp) (VDict envelope) (hi_rid inp)) l0 = Some p
       \<and> \<not> dhas (claims l0) (pm_execution p)
       \<and> dget (intents l1) (pm_execution p) = Some intent \<and> in_digest intent = canonical_digest (cr env) (VDict envelope)
       \<and> \<not> predecessor l1 intent \<and> dget (claims l1) (pm_execution p) = Some c \<and> cl_owner c = pm_owner p
       \<and> cfg_enabled cfg \<and> admission_enabled l1 \<and> admission_epoch l1 = cfg_epoch cfg
       \<and> dget (runs l1) (pm_run p) = Some run \<and> run_stopped_at run = None \<and> \<not> has_conflict l1 (pm_execution p))"
  using assms(1)
proof (cases rule: handoff_cases)
  case nothing
  with assms(2) show ?thesis by (simp add: quiet_def)
next
  case (sent envelope p ops1 ops2 ops3 req)
  let ?c = "OpClaim (hi_claim inp) (VDict envelope) (hi_rid inp)"
  let ?l0 = "fold (ledger_step env cfg) ops1 (w_ledger w)"
  let ?l1 = "fold (ledger_step env cfg) ops2 (ledger_step env cfg ?c ?l0)"
  from sent(3) obtain arguments delegated vd attempt free fault p' where
      a: "bearer_ok st (hi_auth inp)" "parse_submission env st cfg inp = Inr (envelope, arguments, delegated, vd)"
        "tool_request env st inp envelope arguments delegated vd attempt = Inr req"
    and m: "minted env cfg ?c ?l0 = Some p"
    and g: "open_send env cfg (ci_pid (hi_claim inp)) free fault p envelope ?l1 = (Inr (), p')"
    by (auto simp: send_authority_def)
  from a(2) have d: "dget envelope ''args_digest'' = Some (VStr (canonical_digest (cr env) (VDict arguments)))"
    by (auto simp: parse_submission_def parse_body_def Let_def simp del: rbind_Inr_iff elim!: rbindE
        split: option.split_asm)
  from open_send_Inr(1) [OF g] have p: "p' = p\<lparr>pm_used := True\<rparr>" "pm_digest p = canonical_digest (cr env) (VDict envelope)"
    by (auto simp: consume_def split: if_splits)
  from open_send_Inr(2) [OF g] obtain intent c run where
    "dget (intents ?l1) (pm_execution p) = Some intent" "in_digest intent = canonical_digest (cr env) (VDict envelope)"
    "\<not> predecessor ?l1 intent" "dget (claims ?l1) (pm_execution p) = Some c" "cl_owner c = pm_owner p"
    "cfg_enabled cfg" "admission_enabled ?l1" "admission_epoch ?l1 = cfg_epoch cfg"
    "dget (runs ?l1) (pm_run p) = Some run" "run_stopped_at run = None" "\<not> has_conflict ?l1 (pm_execution p)"
    using p minted_execution [OF m] by (elim send_checks_cases) simp
  with a d m minted_claim(1) [OF m] sent(4) show ?thesis unfolding Let_def by blast
qed

text \<open>
  C26. An original result is only returned when it is durable and trustworthy: the report is a
  schema-valid answer for the requested tool from the one exchange of this handoff, correlated by
  the attempt id and not a redirect; the observation in the response carries a signed receipt over
  exactly this report (its outcome digest is the digest of the returned result), and at some point of
  the handoff the ledger held a row with the identifier and digest of that observation, or a worker
  result of the execution with that very receipt; the final ledger holds it still unless retention
  ran after that point. The projection in the response is read back from the final ledger and has
  the state \<open>result_recorded\<close>, no conflict and a run that is not stopped.
\<close>

theorem original_result_is_durable:
  assumes "handoff env st cfg reply_ok sch inp w = (Inr y, w')" and "rs_kind y = ''original_result''"
  shows "\<exists>envelope arguments delegated vd eid recovery now result attempt code req ob receipt status ops1 ops2.
    parse_submission env st cfg inp = Inr (envelope, arguments, delegated, vd)
    \<and> dget envelope ''execution_id'' = Some (VStr eid)
    \<and> rs_status y = 200 \<and> rs_durability y = ''confirmed'' \<and> rs_recovery y = Some recovery
    \<and> ledger_lookup env cfg NoFault now eid (w_ledger w') = Inr recovery
    \<and> pr_state recovery = Some ''result_recorded'' \<and> \<not> pr_conflict recovery \<and> \<not> pr_run_stopped recovery
    \<and> rs_result y = Some result \<and> schema_ok env ''tool-result'' (VDict result)
    \<and> dget result ''tool_name'' = Some (get_none envelope ''tool_name'')
    \<and> hi_gateway inp = GwResponse code (Some attempt) (Some (VDict result)) \<and> \<not> (300 \<le> code \<and> code < 400)
    \<and> w_sends w' = w_sends w @ [(VStr eid, req)]
    \<and> rs_observation y = Some ob \<and> dget ob ''kind'' = Some (VStr ''worker_result'') \<and> dget ob ''execution_id'' = Some (VStr eid)
    \<and> map_result_status result = Inr status
    \<and> build_receipt (cr env) envelope status (VDict result) (VStr attempt) (cfg_key cfg) (hi_completed inp) = Some receipt
    \<and> dget receipt ''outcome_digest'' = Some (VStr (canonical_digest (cr env) (VDict result)))
    \<and> dget ob ''receipt'' = Some (VDict receipt)
    \<and> w_trace w' = w_trace w @ ops1 @ ops2 \<and> obs_recorded env eid ob (fold (ledger_step env cfg) ops1 (w_ledger w))
    \<and> (list_all (\<lambda>op. \<not> is_sweep op) ops2 \<longrightarrow> obs_recorded env eid ob (w_ledger w'))"
proof -
  from handoff_original [OF assms] obtain envelope arguments delegated vd eid result attempt ob where
      p: "parse_submission env st cfg inp = Inr (envelope, arguments, delegated, vd)"
        "dget envelope ''execution_id'' = Some (VStr eid)"
    and c: "confirmed env cfg eid y (w_ledger w')" "rs_result y = Some result" "rs_observation y = Some ob"
    and r: "receipt_over env cfg inp envelope attempt result ob" and d: "durably_recorded env cfg eid ob w w'"
    and i: "post_invoke env (hi_gateway inp) attempt (get_none envelope ''tool_name'') = Inr result"
    and n: "w_sends w' \<noteq> w_sends w" by blast
  from assms(1) have "\<exists>req. w_sends w' = w_sends w @ [(VStr eid, req)]"
  proof (cases rule: handoff_cases)
    case nothing
    with n show ?thesis by (simp add: quiet_def)
  next
    case (sent e p' ops1 ops2 ops3 req)
    from sent(3) p(1) have "e = envelope" by (auto simp: send_authority_def)
    moreover from sent(3) have "dget e ''execution_id'' = Some (VStr (pm_execution p'))"
      by (auto simp: send_authority_def dest: minted_execution(1))
    ultimately show ?thesis using sent(4) p(2) by simp
  qed
  moreover from r p(2) obtain status receipt where rc: "map_result_status result = Inr status"
      "build_receipt (cr env) envelope status (VDict result) (VStr attempt) (cfg_key cfg) (hi_completed inp) = Some receipt"
      "dget ob ''receipt'' = Some (VDict receipt)" "dget ob ''kind'' = Some (VStr ''worker_result'')"
      "dget ob ''execution_id'' = Some (VStr eid)" by (auto simp: receipt_over_def)
  moreover have "dget receipt ''outcome_digest'' = Some (VStr (canonical_digest (cr env) (VDict result)))"
    using build_receipt_verifies [OF rc(2)] by blast
  moreover from durably_recorded_kept [OF d] obtain ops1 ops2 where "w_trace w' = w_trace w @ ops1 @ ops2"
      "obs_recorded env eid ob (fold (ledger_step env cfg) ops1 (w_ledger w))"
      "list_all (\<lambda>op. \<not> is_sweep op) ops2 \<longrightarrow> obs_recorded env eid ob (w_ledger w')" by blast
  ultimately show ?thesis using p c post_invoke_Inr [OF i] unfolding confirmed_def by blast
qed

section \<open>A concrete submission\<close>

definition demo_worker :: worker_settings where
  "demo_worker = \<lparr>ws_handoff_token = ''tok'', ws_gateway_url = ''http://gw/'', ws_target_authorization = False,
     ws_trust_valid = False, ws_issuer = '''', ws_actors = [], ws_jwt = (\<lambda>_. None), ws_token_file = None\<rparr>"

definition demo_report :: json_obj where
  "demo_report = [(''tool_name'', VStr ''restart''), (''status'', VStr ''success''), (''data'', VStr ''done'')]"

definition demo_submission :: handoff_in where
  "demo_submission =
     \<lparr>hi_rid = ''q1'', hi_auth = ''Bearer tok'',
      hi_body = Some (VDict [(''request'', VDict demo_envelope), (''arguments'', VDict []),
        (''delegated_token'', VStr ''jwt'')]),
      hi_draining = False, hi_wall = 2, hi_claim = demo_input,
      hi_gateway = GwResponse 200 (Some ''a1'') (Some (VDict demo_report)), hi_completed = ''t''\<rparr>"

definition demo_turns :: schedule where
  "demo_turns n = \<lparr>ti_others = [], ti_fault = NoFault, ti_now = 3, ti_free = True, ti_closed = False,
     ti_connects = True, ti_budget = True, ti_obs = ''o2''\<rparr>"

definition demo_wire :: gw_request where
  "demo_wire = \<lparr>gr_url = ''http://gw/api/v2/tools/invoke'',
     gr_payload = [(''tool_name'', VStr ''restart''), (''parameters'', VDict []), (''request_id'', VStr ''a1''),
       (''session_id'', VStr ''s1''), (''approval_kind'', VStr ''action'')],
     gr_headers = [(''Authorization'', ''Bearer jwt''), (''x-request-id'', ''a1''), (''x-execution-id'', ''e1'')]\<rparr>"

definition demo_signed_receipt :: json_obj where
  "demo_signed_receipt = [(''execution_id'', VStr ''e1''), (''status'', VStr ''succeeded''),
     (''outcome_digest'', VStr ''d''), (''request_id'', VStr ''a1''), (''completed_at'', VStr ''t''),
     (''signature'', VStr ''s'')]"

definition demo_result_fact :: json_obj where
  "demo_result_fact =
     [(''observation_version'', VInt 1), (''observation_id'', VStr ''o2''), (''execution_id'', VStr ''e1''),
      (''run_id'', VStr ''r1''), (''request_digest'', VStr ''d''), (''source'', VStr ''worker''),
      (''kind'', VStr ''worker_result''), (''observed_at'', VStr ''t''), (''attempt_request_id'', VStr ''a1''),
      (''request_id'', VStr ''q1''), (''reason_code'', VStr ''none''), (''claim_owner_id'', VStr ''w1''),
      (''receipt'', VDict demo_signed_receipt), (''receipt_digest'', VStr ''d''), (''tool_status'', VStr ''success''),
      (''signature'', VStr ''s'')]"

definition demo_recorded :: ledger where
  "demo_recorded = demo_ledger3\<lparr>observations := observations demo_ledger3 @
     [\<lparr>ob_id = ''o2'', ob_exec = ''e1'', ob_source = ''worker'', ob_kind = ''worker_result'', ob_slot = Some ''result'',
       ob_payload = demo_result_fact, ob_digest = ''d''\<rparr>]\<rparr>"

lemma demo_turn: "take_turn env cfg demo_turns w = (demo_turns 0, w\<lparr>w_count := Suc (w_count w)\<rparr>)"
  by (simp add: take_turn_def demo_turns_def)

lemma demo_turn_fields [simp]:
  "ti_fault (demo_turns n) = NoFault" "ti_now (demo_turns n) = 3" "ti_free (demo_turns n)" "\<not> ti_closed (demo_turns n)"
  "ti_budget (demo_turns n)" "ti_obs (demo_turns n) = ''o2''"
  by (simp_all add: demo_turns_def)

lemma demo_parse:
  "parse_submission demo_proto demo_worker demo_cfg demo_submission = Inr (demo_envelope, [], VStr ''jwt'', None)"
proof -
  have "\<not> list_ex (dhas demo_envelope) IDENTITY_FIELDS"
    by (simp add: IDENTITY_FIELDS_def dhas_def demo_envelope_def)
  then have "delegated_of demo_proto demo_worker demo_cfg 2 [(''request'', VDict demo_envelope), (''arguments'', VDict []),
        (''delegated_token'', VStr ''jwt'')] demo_envelope = Inr None"
    by (simp add: delegated_of_def dhas_def)
  moreover have "strip ''jwt'' = ''jwt''" by code_simp
  ultimately show ?thesis
    by (simp add: parse_submission_def demo_submission_def parse_body_def get_none_def REQUIRED_KEYS_def dhas_def
        demo_request fld_def demo_get demo_worker_def)
qed

lemma demo_bearer: "bearer_ok demo_worker (hi_auth demo_submission)"
  by code_simp

lemma demo_wired: "tool_request demo_proto demo_worker demo_submission demo_envelope [] (VStr ''jwt'') None ''a1'' = Inr demo_wire"
  by (simp add: tool_request_def execute_tool_def demo_worker_def rstrip_slash_def opt_field_def get_none_def demo_get demo_wire_def)

lemma demo_exchange:
  "exchange demo_proto demo_worker demo_submission demo_envelope [] (VStr ''jwt'') None ''a1'' w
     = (Inr demo_report, w\<lparr>w_sends := w_sends w @ [(VStr ''e1'', demo_wire)]\<rparr>)"
  using demo_wired
  by (simp add: exchange_def tool_request_def demo_submission_def post_invoke_def report_consistent_def fld_def
      demo_report_def get_none_def demo_get dhas_def)

lemma demo_result_size: "length (canonical_json (VDict demo_result_fact)) \<le> 8192"
  by code_simp

lemma demo_result_get:
  "dget demo_result_fact ''observation_id'' = Some (VStr ''o2'')" "dget demo_result_fact ''execution_id'' = Some (VStr ''e1'')"
  "dget demo_result_fact ''run_id'' = Some (VStr ''r1'')" "dget demo_result_fact ''request_digest'' = Some (VStr ''d'')"
  "dget demo_result_fact ''source'' = Some (VStr ''worker'')" "dget demo_result_fact ''kind'' = Some (VStr ''worker_result'')"
  "dget demo_result_fact ''attempt_request_id'' = Some (VStr ''a1'')" "dget demo_result_fact ''signature'' = Some (VStr ''s'')"
  "dget demo_result_fact ''claim_owner_id'' = Some (VStr ''w1'')" "dget demo_result_fact ''receipt_digest'' = Some (VStr ''d'')"
  "dget demo_result_fact ''receipt'' = Some (VDict demo_signed_receipt)"
  "dget demo_result_fact ''tool_status'' = Some (VStr ''success'')"
  by (simp_all add: demo_result_fact_def)

lemma demo_result_valid: "validate_observation demo_proto demo_result_fact demo_envelope ''k'' = Inr ()"
  using demo_result_size
  by (simp add: validate_observation_def validate_metadata_def validate_def METADATA_LIMIT_def demo_result_get
      demo_get verify_envelope_def fld_def str_fld_def receipt_matches_def demo_signed_receipt_def
      del: canonical_json.simps)

lemma demo_result_built:
  "result_fact demo_proto demo_cfg demo_submission demo_envelope ''a1'' ''w1'' (demo_turns 0) demo_report = Inr demo_result_fact"
proof -
  have r: "build_receipt (cr demo_proto) demo_envelope ''succeeded'' (VDict demo_report) (VStr ''a1'') ''k'' ''t''
      = Some demo_signed_receipt"
    by (simp add: build_receipt_def demo_get demo_signed_receipt_def)
  have "dset ''signature'' (VStr ''s'') (dset ''tool_status'' (VStr ''success'') (dset ''receipt_digest'' (VStr ''d'')
     (dset ''receipt'' (VDict demo_signed_receipt) (dset ''claim_owner_id'' (VStr ''w1'')
     [(''observation_version'', VInt 1), (''observation_id'', VStr ''o2''), (''execution_id'', VStr ''e1''),
      (''run_id'', VStr ''r1''), (''request_digest'', VStr ''d''), (''source'', VStr ''worker''),
      (''kind'', VStr ''worker_result''), (''observed_at'', VStr ''t''), (''attempt_request_id'', VStr ''a1''),
      (''request_id'', VStr ''q1''), (''reason_code'', VStr ''none'')])))) = demo_result_fact"
    by (simp add: demo_result_fact_def)
  with demo_result_valid r show ?thesis
    by (simp add: result_fact_def map_result_status_def demo_report_def fld_def demo_submission_def observation_def
        Let_def demo_get del: dset.simps)
qed

lemma demo_finish:
  "ledger_finish demo_proto demo_cfg NoFault demo_envelope demo_result_fact None 3 demo_ledger3 = (Inr Inserted, demo_recorded)"
proof -
  have "verify_schema demo_ledger3 = Inr ()" using demo_schema(3) by (simp add: verify_schema_def demo_ledger3_def)
  moreover have "ledger_append demo_proto demo_cfg demo_ledger3 demo_intent demo_result_fact = Inr (Inserted, demo_recorded)"
    by (simp add: ledger_append_def Let_def demo_intent_def demo_result_valid demo_get demo_result_get fld_def str_fld_def
        find_obs_def owner_matches_def demo_claim_def result_slot_def acceptance_ok_def place_def reserved_slot_def
        slot_taken_def insert_obs_def demo_recorded_def demo_ledger3_def initial_obs_state_def)
  ultimately show ?thesis
    by (simp add: ledger_finish_def run_tx_def finish_tx_def demo_get str_fld_def demo_ledger3_def demo_intent_def)
qed

lemma demo_recorded_lookup:
  "\<exists>pr. ledger_lookup demo_proto demo_cfg NoFault 3 ''e1'' demo_recorded = Inr pr
     \<and> pr_state pr = Some ''result_recorded'' \<and> \<not> pr_conflict pr \<and> \<not> pr_run_stopped pr"
proof -
  have obs: "obs_of demo_recorded ''e1'' = observations demo_recorded"
    by (simp add: obs_of_def demo_recorded_def demo_ledger3_def)
  have cl: "dget (claims demo_recorded) ''e1'' = Some demo_claim" by (simp add: demo_recorded_def demo_ledger3_def)
  have facts: "read_facts demo_proto demo_cfg demo_envelope demo_intent (Some demo_claim) (take 71 (observations demo_recorded))
      = Inr ([demo_fact, demo_result_fact], False)"
    by (simp add: demo_recorded_def demo_ledger3_def fact_valid_def Let_def demo_fact_valid demo_fact_get demo_result_valid
        demo_result_get fld_def demo_intent_def demo_claim_def)
  have i: "in_envelope demo_intent = demo_envelope" "in_digest demo_intent = ''d''" "in_run demo_intent = ''r1''"
    "runs demo_recorded = [(''r1'', demo_run)]" "obs_states demo_recorded = [(''e1'', initial_obs_state)]"
    by (simp_all add: demo_intent_def demo_recorded_def demo_ledger3_def)
  have kinds: "receipts_of [demo_fact, demo_result_fact] = [(VStr ''d'', VDict demo_signed_receipt)]"
    by (simp add: receipts_of_def demo_fact_get demo_result_get get_none_def)
  have "\<exists>pr. project_execution demo_proto demo_cfg 3 ''e1'' demo_intent demo_recorded = Inr pr
      \<and> pr_state pr = Some ''result_recorded'' \<and> \<not> pr_conflict pr \<and> \<not> pr_run_stopped pr"
    unfolding project_execution_def i(1) Let_def obs using facts
    by (simp add: build_projection_def Let_def demo_request cl i kinds sole_receipt_def initial_obs_state_def
        dispatch_state_def demo_run_def)
  moreover have "dget (intents demo_recorded) ''e1'' = Some demo_intent"
    by (simp add: demo_recorded_def demo_ledger3_def)
  moreover have "verify_schema demo_recorded = Inr ()"
    using demo_schema(3) by (simp add: verify_schema_def demo_recorded_def demo_ledger3_def)
  ultimately show ?thesis by (auto simp: ledger_lookup_def)
qed

definition demo_trace :: "ledger_op list" where
  "demo_trace = [OpClaim demo_input (VDict demo_envelope) ''q1'', OpFinish NoFault demo_envelope demo_result_fact None 3]"

lemma demo_trace_clock:
  "intents_expire (\<lambda>_. in_expires demo_intent) demo_ledger2"
  "list_all (one_expiry demo_proto demo_cfg (\<lambda>_. in_expires demo_intent)) demo_trace" "sorted (db_times demo_trace)"
proof -
  have "fromisoformat demo_proto (replace_Z ''9'') = Some 900000000" by code_simp
  then have "time_of demo_proto demo_envelope ''expires_at'' = Some 900000000" by (simp add: time_of_def timestamp_def demo_get)
  then show "list_all (one_expiry demo_proto demo_cfg (\<lambda>_. in_expires demo_intent)) demo_trace"
    by (simp add: one_expiry_def op_request_def demo_trace_def demo_request demo_get demo_intent_def)
qed (simp_all add: intents_expire_def db_times_Cons db_times_def List.map_filter_simps demo_trace_def)

lemma demo_handoff:
  "\<exists>y w'. handoff demo_proto demo_worker demo_cfg (\<lambda>_. True) demo_turns demo_submission (start_world demo_ledger2) = (Inr y, w')
     \<and> rs_kind y = ''original_result'' \<and> w_ledger w' = demo_recorded \<and> w_sends w' = [(VStr ''e1'', demo_wire)]
     \<and> w_trace w' = demo_trace"
proof -
  obtain pr1 where l1: "ledger_lookup demo_proto demo_cfg NoFault 3 ''e1'' demo_ledger3 = Inr pr1" "pr_attempt pr1 = Some ''a1''"
    using demo_lookup by blast
  obtain pr2 where l2: "ledger_lookup demo_proto demo_cfg NoFault 3 ''e1'' demo_recorded = Inr pr2"
      "pr_state pr2 = Some ''result_recorded''" "\<not> pr_conflict pr2" "\<not> pr_run_stopped pr2"
    using demo_recorded_lookup by blast
  have rid: "hi_rid demo_submission = ''q1''" "hi_claim demo_submission = demo_input" "\<not> hi_draining demo_submission"
    by (simp_all add: demo_submission_def)
  have pid: "ci_pid demo_input = 7" "pm_owner demo_permit = ''w1''" by (simp_all add: demo_input_def demo_permit_def)
  have persist: "persist 3 demo_proto demo_cfg demo_turns demo_envelope ''e1'' demo_result_fact w
      = (Inr True, (do_op demo_proto demo_cfg (OpFinish NoFault demo_envelope demo_result_fact None 3)
           (w\<lparr>w_count := Suc (w_count w)\<rparr>)))"
    if "w_ledger w = demo_ledger3" for w
    by (simp add: numeral_3_eq_3 demo_turn persist_attempt_def w_finish_def demo_finish that)
  have after: "do_op demo_proto demo_cfg (OpFinish NoFault demo_envelope demo_result_fact None 3) w
      = w\<lparr>w_ledger := demo_recorded, w_trace := w_trace w @ [OpFinish NoFault demo_envelope demo_result_fact None 3]\<rparr>"
    if "w_ledger w = demo_ledger3" for w
    by (simp add: do_op_def ledger_step_def demo_finish that)
  have claimed: "do_op demo_proto demo_cfg (OpClaim demo_input (VDict demo_envelope) ''q1'') w
      = w\<lparr>w_ledger := demo_ledger3, w_trace := w_trace w @ [OpClaim demo_input (VDict demo_envelope) ''q1'']\<rparr>"
    if "w_ledger w = demo_ledger2" for w
    by (simp add: do_op_def ledger_step_def demo_claim_run that)
  show ?thesis
    by (simp add: handoff_def demo_bearer demo_parse demo_get admit_submission_def rid demo_turn start_world_def
        demo_claim_run claimed after_claim_def w_lookup_def l1 send_phase_def pid demo_open_send after_gate_def
        demo_exchange conclude_def demo_result_built persist after l2 respond_def original_result_def plain_def
        str_fld_def demo_trace_def del: persist.simps)
qed

theorem original_result_is_durable_witness:
  "\<exists>y w' recovery now. handoff demo_proto demo_worker demo_cfg (\<lambda>_. True) demo_turns demo_submission (start_world demo_ledger2)
       = (Inr y, w')
     \<and> rs_recovery y = Some recovery \<and> ledger_lookup demo_proto demo_cfg NoFault now ''e1'' (w_ledger w') = Inr recovery
     \<and> pr_state recovery = Some ''result_recorded''"
proof -
  obtain y w' where h: "handoff demo_proto demo_worker demo_cfg (\<lambda>_. True) demo_turns demo_submission
      (start_world demo_ledger2) = (Inr y, w')" "rs_kind y = ''original_result''" using demo_handoff by blast
  from original_result_is_durable [OF h] show ?thesis using h(1) by (auto simp: demo_parse demo_get)
qed

theorem handoff_send_authority_witness:
  "\<exists>r w' (p :: dispatch_permit). handoff demo_proto demo_worker demo_cfg (\<lambda>_. True) demo_turns demo_submission (start_world demo_ledger2) = (r, w')
     \<and> map fst (w_sends w') = [VStr (pm_execution p)] \<and> pm_execution p = ''e1''"
proof -
  obtain y w' where h: "handoff demo_proto demo_worker demo_cfg (\<lambda>_. True) demo_turns demo_submission
      (start_world demo_ledger2) = (Inr y, w')" "w_sends w' = [(VStr ''e1'', demo_wire)]" using demo_handoff by blast
  then have "w_sends w' \<noteq> w_sends (start_world demo_ledger2)" by (simp add: start_world_def)
  from handoff_send_authority [OF h(1) this] obtain p :: dispatch_permit and req :: gw_request where
    "w_sends w' = w_sends (start_world demo_ledger2) @ [(VStr (pm_execution p), req)]" by blast
  with h(2) have "map fst (w_sends w') = [VStr (pm_execution p)]" "pm_execution p = ''e1''"
    by (simp_all add: start_world_def)
  with h(1) show ?thesis by (intro exI [of _ "Inr y"] exI [of _ w'] exI [of _ p] conjI)
qed

theorem gateway_sends_at_most_once_witness:
  "let w = run_handoffs demo_proto demo_worker demo_cfg (\<lambda>_. True) [(demo_turns, demo_submission)] (start_world demo_ledger2)
   in map fst (w_sends w) = [VStr ''e1''] \<and> distinct (map fst (w_sends w))"
proof -
  obtain y w' where h: "handoff demo_proto demo_worker demo_cfg (\<lambda>_. True) demo_turns demo_submission
      (start_world demo_ledger2) = (Inr y, w')" "w_sends w' = [(VStr ''e1'', demo_wire)]"
      "w_trace w' = demo_trace" using demo_handoff by blast
  have w: "w' = run_handoffs demo_proto demo_worker demo_cfg (\<lambda>_. True) [(demo_turns, demo_submission)] (start_world demo_ledger2)"
    using h(1) by (simp add: run_handoffs_def handoff_step_def start_world_def)
  have "distinct (map fst (w_sends w'))" using h(3) demo_trace_clock
    by (intro gateway_sends_at_most_once [OF w, where expiry = "\<lambda>_. in_expires demo_intent"] disjI2) simp_all
  with h(2) show ?thesis by (simp add: w)
qed

section \<open>Stops with a reason the table does not list\<close>

lemma finish_tx_unlisted:
  assumes "finish_tx env cfg envelope ob (Some why) now l = Inr (res, l')" and "why \<notin> set STOP_REASONS" and "why \<noteq> []"
  shows "runs l' = runs l"
proof -
  from assms(1,3) obtain intent l1 run_id where a: "ledger_append env cfg l intent ob = Inr (res, l1)"
    and st: "stop_row run_id why now l1 = Inr l'"
    by (auto simp: finish_tx_def simp del: rbind_Inr_iff elim!: rbindE split: option.split_asm if_split_asm)
  from st assms(2) have "l' = l1" by (auto simp: stop_row_def split: option.split_asm if_split_asm)
  with ledger_append_frame(3) [OF a] show ?thesis by simp
qed

lemma w_finish_unlisted:
  assumes "why \<notin> set STOP_REASONS" and "why \<noteq> []"
  shows "runs (w_ledger (snd (w_finish env cfg t envelope ob (Some why) w))) = runs (w_ledger w)"
  unfolding w_finish_def do_op_def ledger_step_def ledger_finish_def
  using finish_tx_unlisted [OF _ assms] by (auto intro: run_tx_keeps [where P = "\<lambda>l'. runs l' = runs (w_ledger w)"])

lemma w_stop_unlisted:
  assumes "why \<notin> set STOP_REASONS" and "why \<noteq> []"
  shows "runs (w_ledger (snd (w_stop env cfg t envelope ob why w))) = runs (w_ledger w)"
proof -
  have "runs l' = runs l" if "stop_tx env cfg free envelope ob why now l = Inr (a, l')" for free now l a l'
    using that by (auto simp: stop_tx_def simp del: rbind_Inr_iff elim!: rbindE split: if_split_asm
        intro: finish_tx_unlisted [OF _ assms(1,2)])
  then show ?thesis unfolding w_stop_def do_op_def ledger_step_def ledger_stop_def
    by (auto intro: run_tx_keeps [where P = "\<lambda>l'. runs l' = runs (w_ledger w)"])
qed

text \<open>
  A stop under a reason the run table does not list is never recorded: when the send block
  fails with such a reason (for example \<open>unauthorized\<close>, raised when a human token expired after
  the claim, or \<open>identity_conflict\<close>), the failure handler's stop violates the table's check on
  both connections, so that, other parties aside, every run is left as it was.
\<close>

theorem unlisted_reason_never_stops:
  assumes "why \<notin> set STOP_REASONS" and "why \<noteq> []" and "\<forall>n. ti_others (sch n) = []"
    and "on_failure env cfg reply_ok sch envelope eid rid attempt has_conn (ProtocolError why) w = (r, w')"
  shows "runs (w_ledger w') = runs (w_ledger w)"
proof -
  have turn: "w_ledger (snd (take_turn env cfg sch v)) = w_ledger v" for v
    using assms(3) by (simp add: take_turn_def Let_def)
  have look: "w_ledger (snd (w_lookup env cfg sch eid v)) = w_ledger v" for v
    by (simp add: w_lookup_def case_prod_unfold turn)
  have fresh: "runs (w_ledger (snd (fresh_stop env cfg sch envelope ob why v))) = runs (w_ledger v)" for ob v
    by (simp add: fresh_stop_def case_prod_unfold turn w_stop_unlisted assms split: sum.split)
  have stop: "runs (w_ledger (snd (h_stop env cfg sch envelope rid attempt kind why has_conn v))) = runs (w_ledger v)" for kind v
    by (simp add: h_stop_def case_prod_unfold turn w_finish_unlisted fresh assms split: sum.split)
  have "runs (w_ledger (snd (on_failure env cfg reply_ok sch envelope eid rid attempt has_conn (ProtocolError why) w)))
      = runs (w_ledger w)"
    by (simp add: on_failure_def current_status_def case_prod_unfold stop look split: sum.split)
  with assms(4) show ?thesis by simp
qed

theorem unlisted_reason_never_stops_witness:
  "runs (w_ledger (snd (on_failure demo_proto demo_cfg (\<lambda>_. True) demo_turns demo_envelope ''e1'' ''q1'' ''a1'' True
      (ProtocolError ''unauthorized'') (start_world demo_ledger3)))) = runs demo_ledger3"
proof -
  obtain r w' where f: "on_failure demo_proto demo_cfg (\<lambda>_. True) demo_turns demo_envelope ''e1'' ''q1'' ''a1'' True
      (ProtocolError ''unauthorized'') (start_world demo_ledger3) = (r, w')" by force
  have "runs (w_ledger w') = runs (w_ledger (start_world demo_ledger3))"
    by (rule unlisted_reason_never_stops [OF _ _ _ f]) (simp_all add: STOP_REASONS_def demo_turns_def)
  with f show ?thesis by (simp add: start_world_def)
qed

end
