(* ===== verification/Authorization_Store.thy ===== *)
theory Authorization_Store
  imports Py_Values
begin

text \<open>
  The tool gateway's in-memory store of target-authorization transactions
  (\<open>services/authorization_transaction_store.py\<close>): a challenge is created by its owner, started
  once from the browser that holds its cookie, claimed once by the provider callback and then
  finished, canceled or expired. The capability hash (SHA-256) is an argument, as are the fresh
  tokens, the wall clock (\<open>now\<close>) and the monotonic clock (\<open>mclk\<close>), both in microseconds. The
  store runs without suspension inside an operation, so an operation is one step.
\<close>

section \<open>State\<close>

record auth_txn =
  tx_challenge :: string
  tx_namespace :: string
  tx_sub :: string
  tx_target :: string
  tx_set :: string
  tx_generation :: string
  tx_session :: string
  tx_call :: string
  tx_return :: string
  tx_status :: string
  tx_created :: int
  tx_updated :: int
  tx_expires :: int
  tx_consumed :: bool

record auth_secret =
  se_start_hash :: "string option"
  se_start_consumed :: bool
  se_browser_hash :: string
  se_browser_expires :: int
  se_expires :: int
  se_deadline :: int
  se_state_hash :: "string option"
  se_verifier :: "string option"

record auth_store =
  as_records :: "(string, auth_txn) dict"
  as_deadlines :: "(string, int) dict"
  as_secrets :: "(string, auth_secret) dict"

text \<open>\<open>AuthorizationLifetimes\<close>, in seconds.\<close>

record lifetimes =
  start_ttl :: int
  transaction_ttl :: int

datatype custody_exc = CustodyError string | KeyError

type_synonym jar = "(string, val) dict option"

definition micros :: "int \<Rightarrow> int" where
  "micros s = 1000000 * s"

section \<open>The browser's cookie jar\<close>

definition MAX_BROWSER_BINDINGS :: nat where
  "MAX_BROWSER_BINDINGS = 8"

definition hex_lower :: "char \<Rightarrow> bool" where
  "hex_lower c \<longleftrightarrow> is_digit c \<or> (CHR ''a'' \<le> c \<and> c \<le> CHR ''f'')"

text \<open>The version-4 uuid pattern; its \<open>$\<close> also matches before one final newline.\<close>

definition uuid4_char :: "nat \<Rightarrow> char \<Rightarrow> bool" where
  "uuid4_char i c =
     (if i \<in> {8, 13, 18, 23} then c = CHR ''-'' else if i = 14 then c = CHR ''4''
      else if i = 19 then c \<in> set ''89ab'' else hex_lower c)"

definition uuid4_text :: "string \<Rightarrow> bool" where
  "uuid4_text s \<longleftrightarrow> length s = 36 \<and> list_all (\<lambda>(i, c). uuid4_char i c) (zip [0..<36] s)"

definition browser_cookie_name :: "string \<Rightarrow> bool" where
  "browser_cookie_name s \<longleftrightarrow> uuid4_text s \<or> (s \<noteq> [] \<and> last s = CHR 0x0A \<and> uuid4_text (butlast s))"

definition well_formed_jar :: "jar \<Rightarrow> bool" where
  "well_formed_jar j =
     (case j of
        None \<Rightarrow> False
      | Some d \<Rightarrow> 0 < length d \<and> length d \<le> MAX_BROWSER_BINDINGS \<and> list_all (\<lambda>(n, _). browser_cookie_name n) d)"

definition select_browser_secret :: "string \<Rightarrow> jar \<Rightarrow> string option" where
  "select_browser_secret challenge j =
     (if \<not> well_formed_jar j then None
      else (case Option.bind j (\<lambda>d. dget d challenge) of
              Some (VStr s) \<Rightarrow> if s = [] then None else Some s
            | _ \<Rightarrow> None))"

definition browser_proof_matches ::
  "(string \<Rightarrow> string) \<Rightarrow> string \<Rightarrow> auth_secret \<Rightarrow> jar \<Rightarrow> int \<Rightarrow> bool" where
  "browser_proof_matches cap challenge d j now =
     (if se_browser_hash d = [] \<or> se_browser_expires d \<le> now then False
      else (case select_browser_secret challenge j of
              None \<Rightarrow> False
            | Some s \<Rightarrow> cap s = se_browser_hash d))"

section \<open>Operations\<close>

definition auth_create :: "lifetimes \<Rightarrow> int \<Rightarrow> int \<Rightarrow> auth_txn \<Rightarrow> auth_store \<Rightarrow> (custody_exc + unit) \<times> auth_store" where
  "auth_create lt now mclk t s =
     (if dhas (as_records s) (tx_challenge t) \<or> 10000 \<le> length (as_records s)
         \<or> tx_status t \<noteq> ''pending'' \<or> tx_consumed t
      then (Inl (CustodyError ''transaction_conflict''), s)
      else (let left = min (tx_expires t - now) (micros (transaction_ttl lt)) in
            if left \<le> 0 then (Inl (CustodyError ''transaction_expired''), s)
            else (Inr (), s\<lparr>as_records := dset (tx_challenge t) t (as_records s),
                            as_deadlines := dset (tx_challenge t) (mclk + left) (as_deadlines s)\<rparr>)))"

definition set_record :: "string \<Rightarrow> auth_txn \<Rightarrow> auth_store \<Rightarrow> auth_store" where
  "set_record c t s = s\<lparr>as_records := dset c t (as_records s)\<rparr>"

definition pop_secret :: "string \<Rightarrow> auth_store \<Rightarrow> auth_store" where
  "pop_secret c s = s\<lparr>as_secrets := dpop c (as_secrets s)\<rparr>"

text \<open>\<open>_owned\<close>: the owner's row, expired on the way when its time is over; a missing deadline raises.\<close>

definition auth_owned ::
  "string \<Rightarrow> string \<Rightarrow> string \<Rightarrow> int \<Rightarrow> int \<Rightarrow> auth_store \<Rightarrow> (custody_exc + auth_txn option) \<times> auth_store" where
  "auth_owned c ns sub now mclk s =
     (case dget (as_records s) c of
        None \<Rightarrow> (Inr None, s)
      | Some t \<Rightarrow>
          if tx_namespace t \<noteq> ns \<or> tx_sub t \<noteq> sub then (Inr None, s)
          else if tx_status t \<noteq> ''pending'' then (Inr (Some t), s)
          else (case dget (as_deadlines s) c of
                  None \<Rightarrow> (Inl KeyError, s)
                | Some deadline \<Rightarrow>
                    if deadline \<le> mclk \<or> tx_expires t \<le> now
                    then (let t' = t\<lparr>tx_status := ''expired'', tx_updated := now\<rparr>
                          in (Inr (Some t'), pop_secret c (set_record c t' s)))
                    else (Inr (Some t), s)))"

definition claim_callback ::
  "string \<Rightarrow> string \<Rightarrow> string \<Rightarrow> string \<Rightarrow> int \<Rightarrow> int \<Rightarrow> auth_store \<Rightarrow> (custody_exc + auth_txn option) \<times> auth_store" where
  "claim_callback c ns sub gen now mclk s =
     (case auth_owned c ns sub now mclk s of
        (Inr (Some t), s1) \<Rightarrow>
          if tx_status t \<noteq> ''pending'' \<or> tx_consumed t \<or> tx_generation t \<noteq> gen then (Inr None, s1)
          else (let t' = t\<lparr>tx_consumed := True, tx_updated := now\<rparr> in (Inr (Some t'), set_record c t' s1))
      | (r, s1) \<Rightarrow> (r, s1))"

definition auth_finish ::
  "string \<Rightarrow> string \<Rightarrow> string \<Rightarrow> string \<Rightarrow> string \<Rightarrow> int \<Rightarrow> int \<Rightarrow> auth_store \<Rightarrow> (custody_exc + bool) \<times> auth_store" where
  "auth_finish c ns sub gen status now mclk s =
     (case auth_owned c ns sub now mclk s of
        (Inl e, s1) \<Rightarrow> (Inl e, s1)
      | (Inr None, s1) \<Rightarrow> (Inr False, s1)
      | (Inr (Some t), s1) \<Rightarrow>
          if status \<notin> {''failed'', ''canceled'', ''expired''} \<or> \<not> tx_consumed t \<or> tx_status t \<noteq> ''pending''
             \<or> tx_generation t \<noteq> gen
          then (Inr False, s1)
          else (Inr True, pop_secret c (set_record c (t\<lparr>tx_status := status, tx_updated := now\<rparr>) s1)))"

definition auth_cancel ::
  "string \<Rightarrow> string \<Rightarrow> string \<Rightarrow> int \<Rightarrow> int \<Rightarrow> auth_store \<Rightarrow> (custody_exc + auth_txn option) \<times> auth_store" where
  "auth_cancel c ns sub now mclk s =
     (case auth_owned c ns sub now mclk s of
        (Inr (Some t), s1) \<Rightarrow>
          if tx_status t = ''pending''
          then (let t' = t\<lparr>tx_status := ''canceled'', tx_updated := now\<rparr>
                in (Inr (Some t'), pop_secret c (set_record c t' s1)))
          else (Inr None, s1)
      | (r, s1) \<Rightarrow> (r, s1))"

text \<open>\<open>issue_start\<close>, with the fresh token as an argument.\<close>

definition issue_start ::
  "(string \<Rightarrow> string) \<Rightarrow> lifetimes \<Rightarrow> string \<Rightarrow> string \<Rightarrow> string \<Rightarrow> string \<Rightarrow> string \<Rightarrow> int \<Rightarrow> int \<Rightarrow> auth_store \<Rightarrow>
   (custody_exc + string option) \<times> auth_store" where
  "issue_start cap lt c ns sub browser_secret token now mclk s =
     (case auth_owned c ns sub now mclk s of
        (Inl e, s1) \<Rightarrow> (Inl e, s1)
      | (Inr None, s1) \<Rightarrow> (Inr None, s1)
      | (Inr (Some t), s1) \<Rightarrow>
          if tx_status t \<noteq> ''pending'' \<or> tx_consumed t then (Inr None, s1)
          else if (case dget (as_secrets s1) c of None \<Rightarrow> False | Some d \<Rightarrow> se_start_consumed d) then (Inr None, s1)
          else (case dget (as_deadlines s1) c of
                  None \<Rightarrow> (Inl KeyError, s1)
                | Some deadline \<Rightarrow>
                    (Inr (Some token),
                     s1\<lparr>as_secrets := dset c
                       \<lparr>se_start_hash = Some (cap token), se_start_consumed = False, se_browser_hash = cap browser_secret,
                        se_browser_expires = tx_expires t, se_expires = min (tx_expires t) (now + micros (start_ttl lt)),
                        se_deadline = min deadline (mclk + micros (start_ttl lt)), se_state_hash = None,
                        se_verifier = None\<rparr> (as_secrets s1)\<rparr>)))"

text \<open>The prepared start of one challenge whose start hash matches.\<close>

definition prepare_start ::
  "(string \<Rightarrow> string) \<Rightarrow> string \<Rightarrow> auth_secret \<Rightarrow> string \<Rightarrow> string \<Rightarrow> jar \<Rightarrow> int \<Rightarrow> int \<Rightarrow> auth_store \<Rightarrow>
   (custody_exc + auth_txn option) \<times> auth_store" where
  "prepare_start cap c d state verifier j now mclk s =
     (case dget (as_records s) c of
        None \<Rightarrow> (Inl KeyError, s)
      | Some t0 \<Rightarrow>
          (case auth_owned c (tx_namespace t0) (tx_sub t0) now mclk s of
             (Inl e, s1) \<Rightarrow> (Inl e, s1)
           | (Inr None, s1) \<Rightarrow> (Inl KeyError, s1)
           | (Inr (Some t), s1) \<Rightarrow>
               if tx_status t \<noteq> ''pending'' \<or> tx_consumed t \<or> se_start_consumed d \<or> se_deadline d \<le> mclk
                  \<or> se_expires d \<le> now \<or> \<not> browser_proof_matches cap c d j now
               then (Inr None, s1)
               else (Inr (Some t),
                     s1\<lparr>as_secrets := dset c (d\<lparr>se_start_hash := None, se_start_consumed := True,
                          se_state_hash := Some (cap state), se_verifier := Some verifier\<rparr>) (as_secrets s1)\<rparr>)))"

definition consume_start ::
  "(string \<Rightarrow> string) \<Rightarrow> string \<Rightarrow> string \<Rightarrow> string \<Rightarrow> jar \<Rightarrow> int \<Rightarrow> int \<Rightarrow> auth_store \<Rightarrow>
   (custody_exc + auth_txn option) \<times> auth_store" where
  "consume_start cap token state verifier j now mclk s =
     (case find (\<lambda>(c, d). se_start_hash d = Some (cap token)) (as_secrets s) of
        None \<Rightarrow> (Inr None, s)
      | Some (c, d) \<Rightarrow> prepare_start cap c d state verifier j now mclk s)"

text \<open>\<open>claim_state\<close>: the transaction and its verifier, which leaves the store.\<close>

definition claim_state ::
  "(string \<Rightarrow> string) \<Rightarrow> string \<Rightarrow> jar \<Rightarrow> int \<Rightarrow> int \<Rightarrow> auth_store \<Rightarrow>
   (custody_exc + (auth_txn \<times> string) option) \<times> auth_store" where
  "claim_state cap state j now mclk s =
     (case find (\<lambda>(c, d). se_state_hash d = Some (cap state)) (as_secrets s) of
        None \<Rightarrow> (Inr None, s)
      | Some (c, d) \<Rightarrow>
          if \<not> browser_proof_matches cap c d j now then (Inr None, s)
          else (case dget (as_records s) c of
                  None \<Rightarrow> (Inl KeyError, s)
                | Some t \<Rightarrow>
                    (case claim_callback c (tx_namespace t) (tx_sub t) (tx_generation t) now mclk s of
                       (Inl e, s1) \<Rightarrow> (Inl e, s1)
                     | (Inr None, s1) \<Rightarrow> (Inr None, s1)
                     | (Inr (Some t'), s1) \<Rightarrow>
                         (case se_verifier d of
                            None \<Rightarrow> (Inl KeyError, s1)
                          | Some v \<Rightarrow>
                              (Inr (Some (t', v)),
                               s1\<lparr>as_secrets := dset c (d\<lparr>se_state_hash := None, se_verifier := None\<rparr>)
                                    (as_secrets s1)\<rparr>)))))"

definition reset_one ::
  "(string \<Rightarrow> string) \<Rightarrow> string \<Rightarrow> string \<Rightarrow> jar \<Rightarrow> int \<Rightarrow> int \<Rightarrow> string \<Rightarrow> auth_store \<Rightarrow> (custody_exc + nat) \<times> auth_store" where
  "reset_one cap ns sub j now mclk c s =
     (case auth_owned c ns sub now mclk s of
        (Inl e, s1) \<Rightarrow> (Inl e, s1)
      | (Inr None, s1) \<Rightarrow> (Inr 0, s1)
      | (Inr (Some t), s1) \<Rightarrow>
          if tx_status t \<noteq> ''pending'' then (Inr 0, s1)
          else (case dget (as_secrets s1) c of
                  None \<Rightarrow> (Inr 0, s1)
                | Some d \<Rightarrow>
                    if \<not> browser_proof_matches cap c d j now then (Inr 0, s1)
                    else (Inr 1, pop_secret c (set_record c (t\<lparr>tx_status := ''canceled'', tx_updated := now\<rparr>) s1))))"

fun reset_loop ::
  "(string \<Rightarrow> string) \<Rightarrow> string \<Rightarrow> string \<Rightarrow> jar \<Rightarrow> int \<Rightarrow> int \<Rightarrow> string list \<Rightarrow> auth_store \<Rightarrow> (custody_exc + nat) \<times> auth_store" where
  "reset_loop cap ns sub j now mclk [] s = (Inr 0, s)"
| "reset_loop cap ns sub j now mclk (c # cs) s =
     (case reset_one cap ns sub j now mclk c s of
        (Inl e, s1) \<Rightarrow> (Inl e, s1)
      | (Inr n, s1) \<Rightarrow>
          (case reset_loop cap ns sub j now mclk cs s1 of
             (Inl e, s2) \<Rightarrow> (Inl e, s2)
           | (Inr m, s2) \<Rightarrow> (Inr (n + m), s2)))"

definition browser_reset ::
  "(string \<Rightarrow> string) \<Rightarrow> string \<Rightarrow> string \<Rightarrow> jar \<Rightarrow> int \<Rightarrow> int \<Rightarrow> auth_store \<Rightarrow> (custody_exc + nat) \<times> auth_store" where
  "browser_reset cap ns sub j now mclk s =
     (if \<not> well_formed_jar j then (Inr 0, s)
      else reset_loop cap ns sub j now mclk (case j of None \<Rightarrow> [] | Some d \<Rightarrow> map fst d) s)"

text \<open>\<open>expire\<close>: the loop over a snapshot of the rows, until the limit is reached.\<close>

fun expire_loop :: "nat \<Rightarrow> int \<Rightarrow> int \<Rightarrow> (string \<times> auth_txn) list \<Rightarrow> nat \<Rightarrow> auth_store \<Rightarrow> (custody_exc + nat) \<times> auth_store" where
  "expire_loop limit now mclk [] n s = (Inr n, s)"
| "expire_loop limit now mclk ((c, t) # rows) n s =
     (if limit \<le> n then (Inr n, s)
      else (case auth_owned c (tx_namespace t) (tx_sub t) now mclk s of
              (Inl e, s1) \<Rightarrow> (Inl e, s1)
            | (Inr None, s1) \<Rightarrow> (Inl KeyError, s1)
            | (Inr (Some t'), s1) \<Rightarrow>
                if tx_status t' = ''pending'' then expire_loop limit now mclk rows n s1
                else (case dget (as_deadlines s1) c of
                        None \<Rightarrow> (Inl KeyError, s1)
                      | Some deadline \<Rightarrow>
                          if deadline + micros 300 \<le> mclk
                          then expire_loop limit now mclk rows (Suc n)
                                 (s1\<lparr>as_records := dpop c (as_records s1), as_deadlines := dpop c (as_deadlines s1),
                                     as_secrets := dpop c (as_secrets s1)\<rparr>)
                          else expire_loop limit now mclk rows n s1)))"

definition auth_expire :: "int \<Rightarrow> int \<Rightarrow> int \<Rightarrow> auth_store \<Rightarrow> (custody_exc + nat) \<times> auth_store" where
  "auth_expire now mclk limit s =
     (if limit < 1 \<or> 1000 < limit then (Inl (CustodyError ''invalid_batch''), s)
      else expire_loop (nat limit) now mclk (as_records s) 0 s)"

definition auth_close :: "auth_store \<Rightarrow> auth_store" where
  "auth_close s = \<lparr>as_records = [], as_deadlines = [], as_secrets = []\<rparr>"

section \<open>Histories\<close>

datatype auth_op =
    ACreate int int auth_txn
  | AGet string string string int int
  | AClaim string string string string int int
  | AFinish string string string string string int int
  | ACancel string string string int int
  | AIssue string string string string string int int
  | AConsume string string string jar int int
  | AState string jar int int
  | AReset string string jar int int
  | AExpire int int int
  | AClose

definition auth_step :: "(string \<Rightarrow> string) \<Rightarrow> lifetimes \<Rightarrow> auth_op \<Rightarrow> auth_store \<Rightarrow> auth_store" where
  "auth_step cap lt op s =
     (case op of
        ACreate now m t \<Rightarrow> snd (auth_create lt now m t s)
      | AGet c ns sub now m \<Rightarrow> snd (auth_owned c ns sub now m s)
      | AClaim c ns sub gen now m \<Rightarrow> snd (claim_callback c ns sub gen now m s)
      | AFinish c ns sub gen status now m \<Rightarrow> snd (auth_finish c ns sub gen status now m s)
      | ACancel c ns sub now m \<Rightarrow> snd (auth_cancel c ns sub now m s)
      | AIssue c ns sub secret token now m \<Rightarrow> snd (issue_start cap lt c ns sub secret token now m s)
      | AConsume token state verifier j now m \<Rightarrow> snd (consume_start cap token state verifier j now m s)
      | AState state j now m \<Rightarrow> snd (claim_state cap state j now m s)
      | AReset ns sub j now m \<Rightarrow> snd (browser_reset cap ns sub j now m s)
      | AExpire now m limit \<Rightarrow> snd (auth_expire now m limit s)
      | AClose \<Rightarrow> auth_close s)"

text \<open>The operations that never evict a transaction.\<close>

definition auth_keeps :: "auth_op \<Rightarrow> bool" where
  "auth_keeps op = (case op of AExpire _ _ _ \<Rightarrow> False | AClose \<Rightarrow> False | _ \<Rightarrow> True)"

text \<open>The challenge an operation starts, and the challenge whose callback it claims.\<close>

definition started :: "(string \<Rightarrow> string) \<Rightarrow> auth_op \<Rightarrow> auth_store \<Rightarrow> string option" where
  "started cap op s =
     (case op of
        AConsume token state verifier j now m \<Rightarrow>
          (case fst (consume_start cap token state verifier j now m s) of
             Inr (Some t) \<Rightarrow> Some (tx_challenge t) | _ \<Rightarrow> None)
      | _ \<Rightarrow> None)"

definition claimed :: "(string \<Rightarrow> string) \<Rightarrow> auth_op \<Rightarrow> auth_store \<Rightarrow> string option" where
  "claimed cap op s =
     (case op of
        AClaim c ns sub gen now m \<Rightarrow>
          (case fst (claim_callback c ns sub gen now m s) of Inr (Some t) \<Rightarrow> Some (tx_challenge t) | _ \<Rightarrow> None)
      | AState state j now m \<Rightarrow>
          (case fst (claim_state cap state j now m s) of Inr (Some (t, v)) \<Rightarrow> Some (tx_challenge t) | _ \<Rightarrow> None)
      | _ \<Rightarrow> None)"

fun outputs :: "(auth_op \<Rightarrow> auth_store \<Rightarrow> string option) \<Rightarrow> (auth_op \<Rightarrow> auth_store \<Rightarrow> auth_store) \<Rightarrow> auth_op list \<Rightarrow> auth_store \<Rightarrow> string list" where
  "outputs out step [] s = []"
| "outputs out step (op # ops) s = (case out op s of None \<Rightarrow> [] | Some c \<Rightarrow> [c]) @ outputs out step ops (step op s)"

section \<open>The row changes an operation is made of\<close>

inductive auth_change :: "auth_store \<Rightarrow> auth_store \<Rightarrow> bool" where
  ac_create: "\<not> dhas (as_records s) (tx_challenge t) \<Longrightarrow> tx_status t = ''pending'' \<Longrightarrow>
     auth_change s (s\<lparr>as_records := dset (tx_challenge t) t (as_records s),
                      as_deadlines := dset (tx_challenge t) m (as_deadlines s)\<rparr>)"
| ac_settle: "dget (as_records s) c = Some t \<Longrightarrow> tx_status t = ''pending'' \<Longrightarrow> st \<noteq> ''pending'' \<Longrightarrow>
     auth_change s (pop_secret c (set_record c (t\<lparr>tx_status := st, tx_updated := now\<rparr>) s))"
| ac_consume: "dget (as_records s) c = Some t \<Longrightarrow> tx_status t = ''pending'' \<Longrightarrow> \<not> tx_consumed t \<Longrightarrow>
     auth_change s (set_record c (t\<lparr>tx_consumed := True, tx_updated := now\<rparr>) s)"
| ac_secret: "dget (as_records s) c = Some t \<Longrightarrow>
     (\<And>d. dget (as_secrets s) c = Some d \<Longrightarrow> se_start_consumed d \<Longrightarrow> se_start_consumed d') \<Longrightarrow>
     auth_change s (s\<lparr>as_secrets := dset c d' (as_secrets s)\<rparr>)"

abbreviation auth_changes :: "auth_store \<Rightarrow> auth_store \<Rightarrow> bool" where
  "auth_changes \<equiv> auth_change\<^sup>*\<^sup>*"

lemma auth_owned_cases:
  assumes "auth_owned c ns sub now m s = (r, s')"
  obtains (none) "s' = s" and "r = Inr None \<or> (\<exists>e. r = Inl e)"
    | (same) t where "s' = s" and "r = Inr (Some t)" and "dget (as_records s) c = Some t"
        and "tx_namespace t = ns" and "tx_sub t = sub"
    | (expired) t where "s' = pop_secret c (set_record c (t\<lparr>tx_status := ''expired'', tx_updated := now\<rparr>) s)"
        and "r = Inr (Some (t\<lparr>tx_status := ''expired'', tx_updated := now\<rparr>))" and "dget (as_records s) c = Some t"
        and "tx_namespace t = ns" and "tx_sub t = sub" and "tx_status t = ''pending''"
  using assms
  by (auto simp: auth_owned_def Let_def split: option.split_asm if_split_asm)

lemma auth_owned_changes: "auth_owned c ns sub now m s = (r, s') \<Longrightarrow> auth_changes s s'"
  by (erule auth_owned_cases) (auto intro!: r_into_rtranclp ac_settle)

lemma auth_owned_pending:
  "auth_owned c ns sub now m s = (Inr (Some t), s') \<Longrightarrow> tx_status t = ''pending'' \<Longrightarrow>
   s' = s \<and> dget (as_records s) c = Some t \<and> tx_namespace t = ns \<and> tx_sub t = sub"
  by (erule auth_owned_cases) auto

lemma claim_callback_cases:
  assumes "claim_callback c ns sub gen now m s = (r, s')"
  obtains (none) "auth_changes s s'" and "\<And>t. r \<noteq> Inr (Some t)"
    | (claim) t where "r = Inr (Some (t\<lparr>tx_consumed := True, tx_updated := now\<rparr>))"
        and "s' = set_record c (t\<lparr>tx_consumed := True, tx_updated := now\<rparr>) s"
        and "dget (as_records s) c = Some t" and "tx_status t = ''pending''" and "\<not> tx_consumed t"
        and "tx_namespace t = ns" and "tx_sub t = sub" and "tx_generation t = gen"
proof -
  obtain a s1 where a: "auth_owned c ns sub now m s = (a, s1)" by force
  note ch = auth_owned_changes [OF a]
  show ?thesis
  proof (cases "\<exists>t. a = Inr (Some t) \<and> tx_status t = ''pending'' \<and> \<not> tx_consumed t \<and> tx_generation t = gen")
    case True
    then obtain t where t: "a = Inr (Some t)" "tx_status t = ''pending''" "\<not> tx_consumed t" "tx_generation t = gen" by blast
    from auth_owned_pending [OF a [unfolded t(1)] t(2)] assms a t show ?thesis
      by (intro that(2)) (auto simp: claim_callback_def Let_def)
  next
    case False
    with assms a ch show ?thesis
      by (intro that(1)) (auto simp: claim_callback_def Let_def split: sum.split_asm option.split_asm if_split_asm)
  qed
qed

lemma claim_callback_changes: "claim_callback c ns sub gen now m s = (r, s') \<Longrightarrow> auth_changes s s'"
  by (erule claim_callback_cases) (auto intro!: r_into_rtranclp ac_consume)

lemma settle_after_owned:
  assumes "auth_owned c ns sub now m s = (Inr (Some t), s1)" and "tx_status t = ''pending''" and "st \<noteq> ''pending''"
  shows "auth_changes s (pop_secret c (set_record c (t\<lparr>tx_status := st, tx_updated := now'\<rparr>) s1))"
  using auth_owned_pending [OF assms(1,2)] assms(2,3) by (auto intro!: r_into_rtranclp ac_settle)

lemma auth_finish_changes: "auth_finish c ns sub gen st now m s = (r, s') \<Longrightarrow> auth_changes s s'"
  by (auto simp: auth_finish_def split: prod.split_asm sum.split_asm option.split_asm if_split_asm
      intro: auth_owned_changes settle_after_owned)

lemma auth_cancel_changes: "auth_cancel c ns sub now m s = (r, s') \<Longrightarrow> auth_changes s s'"
  by (auto simp: auth_cancel_def Let_def split: prod.split_asm sum.split_asm option.split_asm if_split_asm
      intro: auth_owned_changes settle_after_owned)

lemma issue_start_changes:
  assumes "issue_start cap lt c ns sub secret token now m s = (r, s')"
  shows "auth_changes s s'"
proof -
  obtain a s1 where a: "auth_owned c ns sub now m s = (a, s1)" by force
  note ch = auth_owned_changes [OF a]
  show ?thesis
  proof (cases "s' = s1")
    case True
    with ch show ?thesis by simp
  next
    case False
    with assms a obtain t d where t: "a = Inr (Some t)" "tx_status t = ''pending''"
      and s': "s' = s1\<lparr>as_secrets := dset c d (as_secrets s1)\<rparr>"
      and n: "\<And>x. dget (as_secrets s1) c = Some x \<Longrightarrow> \<not> se_start_consumed x"
      by (auto simp: issue_start_def split: sum.split_asm option.split_asm if_split_asm)
    from auth_owned_pending [OF a [unfolded t(1)] t(2)] have "s1 = s" "dget (as_records s) c = Some t" by simp_all
    with s' n show ?thesis by (auto intro!: r_into_rtranclp ac_secret)
  qed
qed

definition auth_wf :: "auth_store \<Rightarrow> bool" where
  "auth_wf s \<longleftrightarrow> dict_ok (as_secrets s) \<and> (\<forall>c d. dget (as_secrets s) c = Some d \<longrightarrow> dhas (as_records s) c)
     \<and> (\<forall>c t. dget (as_records s) c = Some t \<longrightarrow> tx_challenge t = c)"

lemma auth_wf_change: "auth_change s s' \<Longrightarrow> auth_wf s \<Longrightarrow> auth_wf s'"
  by (induction rule: auth_change.induct)
    (auto simp: auth_wf_def pop_secret_def set_record_def dhas_dset dhas_dget split: if_split_asm)

lemma auth_wf_changes: "auth_changes s s' \<Longrightarrow> auth_wf s \<Longrightarrow> auth_wf s'"
  by (induction rule: rtranclp_induct) (auto intro: auth_wf_change)

lemma find_secret:
  assumes "auth_wf s" and "find P (as_secrets s) = Some (c, d)"
  shows "dget (as_secrets s) c = Some d" and "P (c, d)"
  using assms find_Some_iff [of P "as_secrets s" "(c, d)"] by (auto simp: auth_wf_def dict_ok_dget)

lemma consume_start_cases:
  assumes "auth_wf s" and "consume_start cap token state verifier j now m s = (r, s')"
  obtains (none) "auth_changes s s'" and "\<And>t. r \<noteq> Inr (Some t)"
    | (start) c d t where "r = Inr (Some t)" and "dget (as_records s) c = Some t" and "tx_status t = ''pending''"
        and "\<not> tx_consumed t" and "dget (as_secrets s) c = Some d" and "se_start_hash d = Some (cap token)"
        and "\<not> se_start_consumed d" and "m < se_deadline d" and "now < se_expires d"
        and "browser_proof_matches cap c d j now"
        and "s' = s\<lparr>as_secrets := dset c (d\<lparr>se_start_hash := None, se_start_consumed := True,
                          se_state_hash := Some (cap state), se_verifier := Some verifier\<rparr>) (as_secrets s)\<rparr>"
proof (cases "find (\<lambda>(c, d). se_start_hash d = Some (cap token)) (as_secrets s)")
  case None
  with assms(2) show ?thesis by (intro that(1)) (auto simp: consume_start_def)
next
  case (Some cd)
  obtain c d where cd: "cd = (c, d)" by (cases cd)
  note f = find_secret [OF assms(1) Some [unfolded cd]]
  from assms(2) Some cd have p: "prepare_start cap c d state verifier j now m s = (r, s')" by (simp add: consume_start_def)
  show ?thesis
  proof (cases "dget (as_records s) c")
    case None
    with p show ?thesis by (intro that(1)) (auto simp: prepare_start_def)
  next
    case (Some t0)
    obtain a s1 where a: "auth_owned c (tx_namespace t0) (tx_sub t0) now m s = (a, s1)" by force
    note ch = auth_owned_changes [OF a]
    show ?thesis
    proof (cases "\<exists>t. r = Inr (Some t)")
      case True
      with p Some a obtain t where t: "r = Inr (Some t)" "a = Inr (Some t)" "tx_status t = ''pending''" "\<not> tx_consumed t"
          "\<not> se_start_consumed d" "m < se_deadline d" "now < se_expires d" "browser_proof_matches cap c d j now"
        and s': "s' = s1\<lparr>as_secrets := dset c (d\<lparr>se_start_hash := None, se_start_consumed := True,
                          se_state_hash := Some (cap state), se_verifier := Some verifier\<rparr>) (as_secrets s1)\<rparr>"
        by (auto simp: prepare_start_def split: sum.split_asm option.split_asm if_split_asm)
      from auth_owned_pending [OF a [unfolded t(2)] t(3)] have "s1 = s" "dget (as_records s) c = Some t" by simp_all
      with t s' f show ?thesis by (intro that(2) [of t c d]) simp_all
    next
      case False
      with p Some a ch show ?thesis
        by (intro that(1)) (auto simp: prepare_start_def split: sum.split_asm option.split_asm if_split_asm)
    qed
  qed
qed

lemma claim_state_cases:
  assumes "auth_wf s" and "claim_state cap state j now m s = (r, s')"
  obtains (none) "auth_changes s s'" and "\<And>t. r \<noteq> Inr (Some t)"
    | (claim) c d t t' v where "r = Inr (Some (t', v))" and "dget (as_records s) c = Some t"
        and "t' = t\<lparr>tx_consumed := True, tx_updated := now\<rparr>" and "tx_status t = ''pending''" and "\<not> tx_consumed t"
        and "dget (as_secrets s) c = Some d" and "se_state_hash d = Some (cap state)" and "se_verifier d = Some v"
        and "browser_proof_matches cap c d j now"
        and "s' = (set_record c t' s)\<lparr>as_secrets := dset c (d\<lparr>se_state_hash := None, se_verifier := None\<rparr>) (as_secrets s)\<rparr>"
proof (cases "find (\<lambda>(c, d). se_state_hash d = Some (cap state)) (as_secrets s)")
  case None
  with assms(2) show ?thesis by (intro that(1)) (auto simp: claim_state_def)
next
  case (Some cd)
  obtain c d where cd: "cd = (c, d)" by (cases cd)
  note f = find_secret [OF assms(1) Some [unfolded cd]]
  show ?thesis
  proof (cases "browser_proof_matches cap c d j now \<and> dhas (as_records s) c")
    case False
    with assms(2) Some cd show ?thesis
      by (intro that(1)) (auto simp: claim_state_def dhas_dget split: option.split_asm if_split_asm)
  next
    case True
    then obtain t where t: "dget (as_records s) c = Some t" by (auto simp: dhas_dget)
    obtain a s1 where a: "claim_callback c (tx_namespace t) (tx_sub t) (tx_generation t) now m s = (a, s1)" by force
    from a show ?thesis
    proof (cases rule: claim_callback_cases)
      case none
      with assms(2) Some cd True t a show ?thesis
        by (intro that(1)) (auto simp: claim_state_def split: sum.split_asm option.split_asm)
    next
      case (claim t1)
      have c: "auth_changes s s1" using a by (rule claim_callback_changes)
      from claim t have t1: "t1 = t" by simp
      show ?thesis
      proof (cases "se_verifier d")
        case None
        with assms(2) Some cd True t a claim c show ?thesis by (intro that(1)) (auto simp: claim_state_def)
      next
        case (Some v)
        with assms(2) \<open>find _ _ = Some cd\<close> cd True t a claim f t1 show ?thesis
          by (intro that(2) [of "t\<lparr>tx_consumed := True, tx_updated := now\<rparr>" v c t d])
            (auto simp: claim_state_def set_record_def)
      qed
    qed
  qed
qed

lemma reset_one_changes: "reset_one cap ns sub j now m c s = (r, s') \<Longrightarrow> auth_changes s s'"
  by (auto simp: reset_one_def split: prod.split_asm sum.split_asm option.split_asm if_split_asm
      intro: auth_owned_changes settle_after_owned)

lemma reset_loop_changes: "reset_loop cap ns sub j now m cs s = (r, s') \<Longrightarrow> auth_changes s s'"
proof (induction cs arbitrary: s r s')
  case (Cons c cs)
  obtain a s1 where a: "reset_one cap ns sub j now m c s = (a, s1)" by force
  obtain b s2 where b: "reset_loop cap ns sub j now m cs s1 = (b, s2)" by force
  from Cons.prems a b have "s' = s1 \<or> s' = s2" by (auto split: sum.split_asm)
  with reset_one_changes [OF a] Cons.IH [OF b] show ?case by (auto intro: rtranclp_trans)
qed simp

lemma auth_step_changes:
  assumes "auth_wf s" and "auth_keeps op"
  shows "auth_changes s (auth_step cap lt op s)"
proof (cases op)
  case (ACreate now m t)
  then show ?thesis
    by (auto simp: auth_step_def auth_create_def Let_def intro!: r_into_rtranclp ac_create)
next
  case (AConsume token state verifier j now m)
  obtain r s' where c: "consume_start cap token state verifier j now m s = (r, s')" by force
  with assms(1) have "auth_changes s s'"
    by (cases rule: consume_start_cases) (auto intro!: r_into_rtranclp ac_secret)
  with AConsume c show ?thesis by (simp add: auth_step_def)
next
  case (AState state j now m)
  obtain r s' where c: "claim_state cap state j now m s = (r, s')" by force
  from assms(1) c have "auth_changes s s'"
  proof (cases rule: claim_state_cases)
    case (claim c d t t' v)
    then have "auth_change s (set_record c t' s)" by (auto intro: ac_consume)
    moreover have "auth_change (set_record c t' s) s'"
      unfolding claim(10) using ac_secret [of "set_record c t' s" c t' "d\<lparr>se_state_hash := None, se_verifier := None\<rparr>"] claim(6)
      by (simp add: set_record_def)
    ultimately show ?thesis by (rule converse_rtranclp_into_rtranclp [OF _ r_into_rtranclp])
  qed
  with AState c show ?thesis by (simp add: auth_step_def)
next
  case (AReset ns sub j now m)
  then show ?thesis
    using reset_loop_changes [OF prod.collapse [symmetric]] by (auto simp: auth_step_def browser_reset_def)
qed (use assms(2) in \<open>auto simp: auth_step_def auth_keeps_def
      intro: auth_owned_changes [OF prod.collapse [symmetric]] claim_callback_changes [OF prod.collapse [symmetric]]
        auth_finish_changes [OF prod.collapse [symmetric]] auth_cancel_changes [OF prod.collapse [symmetric]]
        issue_start_changes [OF prod.collapse [symmetric]]\<close>)

section \<open>Spent challenges stay spent\<close>

definition start_spent :: "auth_store \<Rightarrow> string \<Rightarrow> bool" where
  "start_spent s c \<longleftrightarrow>
     (case dget (as_records s) c of
        None \<Rightarrow> False
      | Some t \<Rightarrow> tx_status t \<noteq> ''pending''
          \<or> (case dget (as_secrets s) c of None \<Rightarrow> False | Some d \<Rightarrow> se_start_consumed d))"

definition claim_spent :: "auth_store \<Rightarrow> string \<Rightarrow> bool" where
  "claim_spent s c \<longleftrightarrow>
     (case dget (as_records s) c of None \<Rightarrow> False | Some t \<Rightarrow> tx_status t \<noteq> ''pending'' \<or> tx_consumed t)"

text \<open>The final status of a transaction.\<close>

definition final_status :: "auth_store \<Rightarrow> string \<Rightarrow> string option" where
  "final_status s c =
     (case dget (as_records s) c of
        None \<Rightarrow> None | Some t \<Rightarrow> if tx_status t = ''pending'' then None else Some (tx_status t))"

lemma start_spent_change: "auth_change s s' \<Longrightarrow> start_spent s c \<Longrightarrow> start_spent s' c"
  by (induction rule: auth_change.induct)
    (auto simp: start_spent_def pop_secret_def set_record_def dhas_dget split: option.splits if_split_asm)

lemma claim_spent_change: "auth_change s s' \<Longrightarrow> claim_spent s c \<Longrightarrow> claim_spent s' c"
  by (induction rule: auth_change.induct)
    (auto simp: claim_spent_def pop_secret_def set_record_def dhas_dget split: option.splits if_split_asm)

lemma final_status_change: "auth_change s s' \<Longrightarrow> final_status s c = Some st \<Longrightarrow> final_status s' c = Some st"
  by (induction rule: auth_change.induct)
    (auto simp: final_status_def pop_secret_def set_record_def dhas_dget split: option.splits if_split_asm)

lemma spent_changes:
  assumes "auth_changes s s'"
  shows "start_spent s c \<Longrightarrow> start_spent s' c" and "claim_spent s c \<Longrightarrow> claim_spent s' c"
    and "final_status s c = Some st \<Longrightarrow> final_status s' c = Some st"
  using assms
  by (induction rule: rtranclp_induct) (auto intro: start_spent_change claim_spent_change final_status_change)

interpretation au: settled_while "auth_step cap lt" auth_wf auth_keeps final_status
  by unfold_locales (auto intro: auth_wf_changes auth_step_changes spent_changes(3) [OF auth_step_changes])

lemma started_spent:
  assumes "auth_wf s" and "started cap op s = Some c"
  shows "\<not> start_spent s c \<and> start_spent (auth_step cap lt op s) c \<and> auth_keeps op"
proof -
  from assms(2) obtain token state verifier j now m t where op: "op = AConsume token state verifier j now m"
    and f: "fst (consume_start cap token state verifier j now m s) = Inr (Some t)" and c: "tx_challenge t = c"
    by (auto simp: started_def split: auth_op.split_asm sum.split_asm option.split_asm)
  obtain s' where s': "consume_start cap token state verifier j now m s = (Inr (Some t), s')" using f by (metis prod.collapse)
  from assms(1) s' show ?thesis
  proof (cases rule: consume_start_cases)
    case (start c' d t')
    with assms(1) have "tx_challenge t' = c'" by (simp add: auth_wf_def)
    with start c op s' show ?thesis by (auto simp: start_spent_def auth_step_def auth_keeps_def)
  qed blast
qed

lemma claimed_spent:
  assumes "auth_wf s" and "claimed cap op s = Some c"
  shows "\<not> claim_spent s c \<and> claim_spent (auth_step cap lt op s) c \<and> auth_keeps op"
proof -
  from assms(2) consider
      c' ns sub gen now m t where "op = AClaim c' ns sub gen now m"
        and "fst (claim_callback c' ns sub gen now m s) = Inr (Some t)" and "tx_challenge t = c"
    | state j now m t v where "op = AState state j now m" and "fst (claim_state cap state j now m s) = Inr (Some (t, v))"
        and "tx_challenge t = c"
    by (auto simp: claimed_def split: auth_op.split_asm sum.split_asm option.split_asm)
  then show ?thesis
  proof cases
    case 1
    then obtain s' where s': "claim_callback c' ns sub gen now m s = (Inr (Some t), s')" by (metis prod.collapse)
    then show ?thesis
    proof (cases rule: claim_callback_cases)
      case (claim t')
      with assms(1) have "tx_challenge t' = c'" by (simp add: auth_wf_def)
      with claim 1 s' show ?thesis by (auto simp: claim_spent_def auth_step_def auth_keeps_def set_record_def)
    qed blast
  next
    case 2
    then obtain s' where s': "claim_state cap state j now m s = (Inr (Some (t, v)), s')" by (metis prod.collapse)
    from assms(1) s' show ?thesis
    proof (cases rule: claim_state_cases)
      case (claim c' d t1 t' v')
      with assms(1) have "tx_challenge t1 = c'" by (simp add: auth_wf_def)
      with claim 2 s' show ?thesis by (auto simp: claim_spent_def auth_step_def auth_keeps_def set_record_def)
    qed blast
  qed
qed

lemma outputs_fresh:
  assumes "list_all auth_keeps ops" and "auth_wf s" and "spent s c"
    and "\<And>s op. auth_wf s \<Longrightarrow> auth_keeps op \<Longrightarrow> spent s c \<Longrightarrow> spent (auth_step cap lt op s) c"
    and "\<And>s op. auth_wf s \<Longrightarrow> out op s = Some c \<Longrightarrow> \<not> spent s c"
  shows "c \<notin> set (outputs out (auth_step cap lt) ops s)"
  using assms(1-3)
proof (induction ops arbitrary: s)
  case (Cons op ops)
  from Cons.prems have "auth_wf (auth_step cap lt op s)" "spent (auth_step cap lt op s) c"
    by (auto intro: au.keeps_inv assms(4))
  with Cons.IH Cons.prems assms(5) show ?case by (auto split: option.splits)
qed simp

lemma outputs_distinct:
  assumes "list_all auth_keeps ops" and "auth_wf s"
    and "\<And>s c op. auth_wf s \<Longrightarrow> auth_keeps op \<Longrightarrow> spent s c \<Longrightarrow> spent (auth_step cap lt op s) c"
    and "\<And>s op c. auth_wf s \<Longrightarrow> out op s = Some c \<Longrightarrow> \<not> spent s c \<and> spent (auth_step cap lt op s) c"
  shows "distinct (outputs out (auth_step cap lt) ops s)"
  using assms(1,2)
proof (induction ops arbitrary: s)
  case (Cons op ops)
  from Cons.prems have wf: "auth_wf (auth_step cap lt op s)" by (auto intro: au.keeps_inv)
  have "c \<notin> set (outputs out (auth_step cap lt) ops (auth_step cap lt op s))" if "out op s = Some c" for c
    using outputs_fresh [of ops "auth_step cap lt op s" spent c cap lt out] assms(3,4) that wf Cons.prems by auto
  with Cons.IH [OF _ wf] Cons.prems show ?case by (auto split: option.split)
qed simp

section \<open>Properties\<close>

text \<open>
  C29. Starts and callbacks are single use: over any history of operations by any owners and
  browsers that evicts nothing, a challenge is started at most once and its callback is claimed
  at most once, however many start handles were issued and whichever route claims it, and a
  transaction that was finished, canceled or expired keeps that status.
\<close>

theorem authorization_single_use:
  assumes "auth_wf s" and "list_all auth_keeps ops"
  shows "distinct (outputs (started cap) (auth_step cap lt) ops s)
    \<and> distinct (outputs (claimed cap) (auth_step cap lt) ops s)
    \<and> (\<forall>c st. final_status s c = Some st \<longrightarrow> final_status (fold (auth_step cap lt) ops s) c = Some st)"
proof (intro conjI allI impI)
  show "distinct (outputs (started cap) (auth_step cap lt) ops s)"
    by (rule outputs_distinct [OF assms(2,1), where spent = start_spent])
      (auto intro: spent_changes(1) [OF auth_step_changes] dest: started_spent [where lt = lt])
  show "distinct (outputs (claimed cap) (auth_step cap lt) ops s)"
    by (rule outputs_distinct [OF assms(2,1), where spent = claim_spent])
      (auto intro: spent_changes(2) [OF auth_step_changes] dest: claimed_spent [where lt = lt])
  fix c st
  assume "final_status s c = Some st"
  with assms show "final_status (fold (auth_step cap lt) ops s) c = Some st" by (intro au.run_keeps)
qed

text \<open>
  The provider callback is bound to the initiating browser: a state claim succeeds only for
  a pending, unclaimed challenge whose start was prepared with exactly this state, from a jar of
  at most eight well-formed cookies that holds the secret whose hash the owner's start stored,
  before that binding expires; it then releases the stored verifier and removes it, so that the
  same state claims nothing any more.
\<close>

theorem claim_state_bound_to_browser:
  assumes "auth_wf s" and "claim_state cap state j now m s = (Inr (Some (t, v)), s')"
  shows "\<exists>c d secret jar_d. j = Some jar_d \<and> length jar_d \<le> 8 \<and> dget jar_d c = Some (VStr secret) \<and> browser_cookie_name c
    \<and> dget (as_secrets s) c = Some d \<and> se_state_hash d = Some (cap state) \<and> se_verifier d = Some v
    \<and> cap secret = se_browser_hash d \<and> now < se_browser_expires d
    \<and> (\<exists>t0. dget (as_records s) c = Some t0 \<and> tx_status t0 = ''pending'' \<and> \<not> tx_consumed t0
         \<and> t = t0\<lparr>tx_consumed := True, tx_updated := now\<rparr>)
    \<and> (\<exists>d'. dget (as_secrets s') c = Some d' \<and> se_verifier d' = None \<and> se_state_hash d' = None)"
  using assms
proof (cases rule: claim_state_cases)
  case (claim c d t0 t' v')
  from claim(9) obtain jd secret where "j = Some jd" "well_formed_jar j" "dget jd c = Some (VStr secret)"
      "cap secret = se_browser_hash d" "now < se_browser_expires d"
    by (auto simp: browser_proof_matches_def select_browser_secret_def
        split: if_split_asm option.split_asm val.split_asm bind_split_asm)
  moreover from this have "browser_cookie_name c" "length jd \<le> 8"
    by (auto simp: well_formed_jar_def list_all_iff MAX_BROWSER_BINDINGS_def dest!: dget_in)
  ultimately show ?thesis using claim by auto
qed blast

section \<open>A concrete challenge\<close>

definition demo_challenge :: string where
  "demo_challenge = ''00000000-0000-4000-8000-000000000000''"

definition demo_txn :: auth_txn where
  "demo_txn = \<lparr>tx_challenge = demo_challenge, tx_namespace = ''iss'', tx_sub = ''u1'', tx_target = ''jira'', tx_set = ''set'',
     tx_generation = ''g1'', tx_session = ''s1'', tx_call = ''k1'', tx_return = ''/'', tx_status = ''pending'',
     tx_created = 0, tx_updated = 0, tx_expires = 600000000, tx_consumed = False\<rparr>"

definition demo_lifetimes :: lifetimes where
  "demo_lifetimes = \<lparr>start_ttl = 60, transaction_ttl = 600\<rparr>"

definition demo_jar :: jar where
  "demo_jar = Some [(demo_challenge, VStr ''cookie'')]"

definition demo_auth_ops :: "auth_op list" where
  "demo_auth_ops = [ACreate 1 1 demo_txn, AIssue demo_challenge ''iss'' ''u1'' ''cookie'' ''tok'' 2 2,
     AConsume ''tok'' ''state'' ''verifier'' demo_jar 3 3, AConsume ''tok'' ''state'' ''verifier'' demo_jar 4 4,
     AState ''state'' demo_jar 5 5, AState ''state'' demo_jar 6 6]"

definition no_auth :: auth_store where
  "no_auth = \<lparr>as_records = [], as_deadlines = [], as_secrets = []\<rparr>"

lemma no_auth_wf: "auth_wf no_auth"
  by (simp add: auth_wf_def no_auth_def)

theorem authorization_single_use_witness:
  "outputs (started (\<lambda>s. s)) (auth_step (\<lambda>s. s) demo_lifetimes) demo_auth_ops no_auth = [demo_challenge]
   \<and> distinct (outputs (claimed (\<lambda>s. s)) (auth_step (\<lambda>s. s) demo_lifetimes) demo_auth_ops no_auth)"
proof -
  have "list_all auth_keeps demo_auth_ops" by (simp add: demo_auth_ops_def auth_keeps_def)
  from authorization_single_use [OF no_auth_wf this]
  have "distinct (outputs (claimed (\<lambda>s. s)) (auth_step (\<lambda>s. s) demo_lifetimes) demo_auth_ops no_auth)" by blast
  moreover have "outputs (started (\<lambda>s. s)) (auth_step (\<lambda>s. s) demo_lifetimes) demo_auth_ops no_auth = [demo_challenge]"
    by code_simp
  ultimately show ?thesis by blast
qed

definition demo_prepared :: auth_store where
  "demo_prepared = fold (auth_step (\<lambda>s. s) demo_lifetimes) (take 3 demo_auth_ops) no_auth"

lemma demo_prepared_wf: "auth_wf demo_prepared"
  unfolding demo_prepared_def by (rule au.run_keeps_inv [OF no_auth_wf]) (simp add: demo_auth_ops_def auth_keeps_def)

lemma demo_claimed: "(case fst (claim_state (\<lambda>s. s) ''state'' demo_jar 5 5 demo_prepared) of
    Inr (Some (t, v)) \<Rightarrow> tx_consumed t \<and> v = ''verifier'' | _ \<Rightarrow> False)"
  by code_simp

theorem claim_state_bound_to_browser_witness:
  "\<exists>t s' c d. claim_state (\<lambda>s. s) ''state'' demo_jar 5 5 demo_prepared = (Inr (Some (t, ''verifier'')), s')
     \<and> dget (as_secrets demo_prepared) c = Some d \<and> se_browser_hash d = ''cookie''"
proof -
  obtain t s' where c: "claim_state (\<lambda>s. s) ''state'' demo_jar 5 5 demo_prepared = (Inr (Some (t, ''verifier'')), s')"
    using demo_claimed by (cases "claim_state (\<lambda>s. s) ''state'' demo_jar 5 5 demo_prepared")
      (auto split: sum.split_asm option.split_asm)
  from claim_state_bound_to_browser [OF demo_prepared_wf c] obtain c' d secret jd where
    "demo_jar = Some jd" "dget jd c' = Some (VStr secret)" "dget (as_secrets demo_prepared) c' = Some d"
    "secret = se_browser_hash d" by blast
  then have "dget (as_secrets demo_prepared) c' = Some d \<and> se_browser_hash d = ''cookie''"
    by (auto simp: demo_jar_def split: if_split_asm)
  with c show ?thesis by blast
qed

end
