(* ===== verification/Confirmation_Records.thy ===== *)
theory Confirmation_Records
  imports Execution_Ledger
begin

text \<open>
  The durable lifecycle of a parked confirmation
  (\<open>agent_service/services/confirmation_records.py\<close>): written when a batch parks, resolved once,
  bounded per session, shown to the approvers as a pending queue and a paged history. The
  in-memory backend keeps ISO texts, the Postgres table times in microseconds. Arguments: the
  ISO printer and parser, the clock, database failures, and the order in which a query without a
  total \<open>ORDER BY\<close> meets the rows (\<open>cx_scan\<close>, a permutation of the keys).
\<close>

section \<open>Records\<close>

record 't conf_record =
  cf_id :: string
  cf_session :: string
  cf_owner :: string
  cf_calls :: "val list"
  cf_action :: "string option"
  cf_turn :: "int option"
  cf_flow :: "json_obj option"
  cf_kind :: "string option"
  cf_message :: "string option"
  cf_status :: string
  cf_parked :: 't
  cf_decider :: "string option"
  cf_decision :: "string option"
  cf_decided :: "'t option"

type_synonym mem_confs = "(string, string conf_record) dict"
type_synonym pg_confs = "(string, int conf_record) dict"

definition PER_SESSION_CAP :: nat where
  "PER_SESSION_CAP = 50"

definition HISTORY_WINDOW_DAYS :: int where
  "HISTORY_WINDOW_DAYS = 30"

definition INBOX_LIMIT :: nat where
  "INBOX_LIMIT = 100"

definition CONF_SWEEP_LIMIT :: nat where
  "CONF_SWEEP_LIMIT = 100"

definition history_cutoff :: "int \<Rightarrow> int" where
  "history_cutoff now = now - seconds (HISTORY_WINDOW_DAYS * 86400)"

definition make_record ::
  "string \<Rightarrow> string \<Rightarrow> string \<Rightarrow> val list \<Rightarrow> string option \<Rightarrow> int option \<Rightarrow> json_obj option \<Rightarrow> string option \<Rightarrow>
   string option \<Rightarrow> string \<Rightarrow> string conf_record" where
  "make_record confirm_id session owner calls action turn flow kind message stamp =
     \<lparr>cf_id = confirm_id, cf_session = session, cf_owner = owner, cf_calls = calls, cf_action = action,
      cf_turn = turn, cf_flow = flow, cf_kind = kind, cf_message = message, cf_status = ''pending'',
      cf_parked = stamp, cf_decider = None, cf_decision = None, cf_decided = None\<rparr>"

definition is_pending :: "'t conf_record \<Rightarrow> bool" where
  "is_pending r \<longleftrightarrow> cf_status r = ''pending''"

definition resolve_row :: "string \<Rightarrow> string option \<Rightarrow> string option \<Rightarrow> 't \<Rightarrow> 't conf_record \<Rightarrow> 't conf_record" where
  "resolve_row status decider decision stamp r =
     r\<lparr>cf_status := status, cf_decider := decider, cf_decision := decision, cf_decided := Some stamp\<rparr>"

text \<open>\<open>xs[lo:hi]\<close> for any integers.\<close>

definition py_slice :: "int \<Rightarrow> int \<Rightarrow> 'a list \<Rightarrow> 'a list" where
  "py_slice lo hi xs =
     (let n = int (length xs);
          clip = (\<lambda>i. if i < 0 then max 0 (i + n) else min i n)
      in take (nat (clip hi - clip lo)) (drop (nat (clip lo)) xs))"

section \<open>In-memory backend\<close>

definition cmem_load_for_session :: "string \<Rightarrow> mem_confs \<Rightarrow> string conf_record list" where
  "cmem_load_for_session session m = sort_key cf_parked (filter (\<lambda>r. cf_session r = session) (dvalues m))"

definition cmem_evict :: "string \<Rightarrow> mem_confs \<Rightarrow> mem_confs" where
  "cmem_evict session m =
     (let rows = cmem_load_for_session session m in
      if length rows \<le> PER_SESSION_CAP then m
      else dpops (map cf_id (take (length rows - PER_SESSION_CAP) rows)) m)"

definition cmem_save_parked :: "string conf_record \<Rightarrow> mem_confs \<Rightarrow> mem_confs" where
  "cmem_save_parked r m = cmem_evict (cf_session r) (dset (cf_id r) r m)"

definition cmem_mark_resolved ::
  "string \<Rightarrow> string \<Rightarrow> string \<Rightarrow> string option \<Rightarrow> string option \<Rightarrow> string \<Rightarrow> mem_confs \<Rightarrow> mem_confs" where
  "cmem_mark_resolved session cid status decider decision stamp m =
     (case dget m cid of
        None \<Rightarrow> m
      | Some r \<Rightarrow>
          if cf_session r \<noteq> session then m
          else if \<not> is_pending r then m
          else dset cid (resolve_row status decider decision stamp r) m)"

definition cmem_load_record :: "string \<Rightarrow> string \<Rightarrow> mem_confs \<Rightarrow> string conf_record option" where
  "cmem_load_record session cid m =
     (case dget m cid of
        None \<Rightarrow> None
      | Some r \<Rightarrow> if cf_session r \<noteq> session then None else Some r)"

definition cmem_load_pending_for_session :: "string \<Rightarrow> mem_confs \<Rightarrow> string conf_record option" where
  "cmem_load_pending_for_session session m = find is_pending (rev (cmem_load_for_session session m))"

definition cmem_load_pending_inbox :: "mem_confs \<Rightarrow> string conf_record list" where
  "cmem_load_pending_inbox m = take INBOX_LIMIT (py_sort_desc cf_parked (filter is_pending (dvalues m)))"

text \<open>A resolved record whose stamp parses and lies inside the window.\<close>

definition cmem_in_window :: "(string \<Rightarrow> int option) \<Rightarrow> int \<Rightarrow> string conf_record \<Rightarrow> bool" where
  "cmem_in_window parse now r \<longleftrightarrow>
     \<not> is_pending r
     \<and> (case parse (case cf_decided r of None \<Rightarrow> [] | Some s \<Rightarrow> s) of
          None \<Rightarrow> False
        | Some t \<Rightarrow> \<not> t < history_cutoff now)"

definition cmem_history :: "(string \<Rightarrow> int option) \<Rightarrow> int \<Rightarrow> mem_confs \<Rightarrow> string conf_record list" where
  "cmem_history parse now m =
     py_sort_desc (\<lambda>r. (cf_parked r, cf_id r)) (filter (cmem_in_window parse now) (dvalues m))"

definition cmem_load_inbox_history ::
  "(string \<Rightarrow> int option) \<Rightarrow> int \<Rightarrow> int \<Rightarrow> int \<Rightarrow> mem_confs \<Rightarrow> string conf_record list \<times> nat" where
  "cmem_load_inbox_history parse now limit offset m =
     (let rows = cmem_history parse now m in (py_slice offset (offset + limit) rows, length rows))"

definition cmem_delete_session :: "string \<Rightarrow> mem_confs \<Rightarrow> bool \<times> mem_confs" where
  "cmem_delete_session session m =
     (let doomed = map fst (filter (\<lambda>(k, r). cf_session r = session) m) in (doomed \<noteq> [], dpops doomed m))"

section \<open>Postgres backend\<close>

record conf_ctx =
  cx_fault :: db_fault
  cx_now :: int
  cx_scan :: "string list \<Rightarrow> string list"

definition scan_keys :: "conf_ctx \<Rightarrow> pg_confs \<Rightarrow> string list" where
  "scan_keys ctx tbl = filter (dhas tbl) (cx_scan ctx (map fst tbl))"

definition conf_row :: "pg_confs \<Rightarrow> string \<Rightarrow> int conf_record" where
  "conf_row tbl k = the (dget tbl k)"

definition sql_insert_parked :: "int \<Rightarrow> string conf_record \<Rightarrow> pg_confs \<Rightarrow> pg_confs" where
  "sql_insert_parked now r tbl =
     (if dhas tbl (cf_id r) then tbl
      else dset (cf_id r)
             \<lparr>cf_id = cf_id r, cf_session = cf_session r, cf_owner = cf_owner r, cf_calls = cf_calls r,
              cf_action = cf_action r, cf_turn = cf_turn r, cf_flow = cf_flow r, cf_kind = cf_kind r,
              cf_message = cf_message r, cf_status = ''pending'', cf_parked = now, cf_decider = None,
              cf_decision = None, cf_decided = None\<rparr> tbl)"

definition sql_evict_over_cap :: "conf_ctx \<Rightarrow> string \<Rightarrow> pg_confs \<Rightarrow> pg_confs" where
  "sql_evict_over_cap ctx session tbl =
     dpops (drop PER_SESSION_CAP
       (py_sort_desc (\<lambda>k. cf_parked (conf_row tbl k))
         (filter (\<lambda>k. cf_session (conf_row tbl k) = session) (scan_keys ctx tbl)))) tbl"

definition sql_old_resolved :: "int \<Rightarrow> int conf_record \<Rightarrow> bool" where
  "sql_old_resolved now r \<longleftrightarrow>
     \<not> is_pending r \<and> (case cf_decided r of None \<Rightarrow> False | Some t \<Rightarrow> t \<le> history_cutoff now)"

definition sql_sweep_resolved :: "conf_ctx \<Rightarrow> pg_confs \<Rightarrow> pg_confs" where
  "sql_sweep_resolved ctx tbl =
     dpops (take CONF_SWEEP_LIMIT (filter (\<lambda>k. sql_old_resolved (cx_now ctx) (conf_row tbl k)) (scan_keys ctx tbl))) tbl"

definition sql_mark_resolved ::
  "string \<Rightarrow> string \<Rightarrow> string \<Rightarrow> string option \<Rightarrow> string option \<Rightarrow> int \<Rightarrow> pg_confs \<Rightarrow> pg_confs" where
  "sql_mark_resolved session cid status decider decision now tbl =
     (case dget tbl cid of
        None \<Rightarrow> tbl
      | Some r \<Rightarrow> if cf_session r = session \<and> is_pending r
                  then dset cid (resolve_row status decider decision now r) tbl else tbl)"

definition sql_close_stale :: "int \<Rightarrow> int \<Rightarrow> pg_confs \<Rightarrow> pg_confs" where
  "sql_close_stale now stale tbl =
     map (\<lambda>(k, r). (k, if is_pending r \<and> cf_parked r \<le> now - stale
                        then r\<lparr>cf_status := ''expired'', cf_decided := Some now\<rparr> else r)) tbl"

definition cpg_initialize :: "conf_ctx \<Rightarrow> int \<Rightarrow> pg_confs \<Rightarrow> (exc + unit) \<times> pg_confs" where
  "cpg_initialize ctx stale_after =
     run_tx (cx_fault ctx) (\<lambda>tbl. Inr ((), sql_close_stale (cx_now ctx) (max stale_after 0) tbl))"

definition cpg_save_parked :: "conf_ctx \<Rightarrow> string conf_record \<Rightarrow> pg_confs \<Rightarrow> (exc + unit) \<times> pg_confs" where
  "cpg_save_parked ctx r =
     run_tx (cx_fault ctx) (\<lambda>tbl.
       Inr ((), sql_sweep_resolved ctx (sql_evict_over_cap ctx (cf_session r) (sql_insert_parked (cx_now ctx) r tbl))))"

definition cpg_mark_resolved ::
  "conf_ctx \<Rightarrow> string \<Rightarrow> string \<Rightarrow> string \<Rightarrow> string option \<Rightarrow> string option \<Rightarrow> pg_confs \<Rightarrow> (exc + unit) \<times> pg_confs" where
  "cpg_mark_resolved ctx session cid status decider decision =
     run_tx (cx_fault ctx) (\<lambda>tbl. Inr ((), sql_mark_resolved session cid status decider decision (cx_now ctx) tbl))"

definition conf_to_record :: "(int \<Rightarrow> string) \<Rightarrow> int conf_record \<Rightarrow> string conf_record" where
  "conf_to_record isof r =
     \<lparr>cf_id = cf_id r, cf_session = cf_session r, cf_owner = cf_owner r, cf_calls = cf_calls r,
      cf_action = cf_action r, cf_turn = cf_turn r, cf_flow = cf_flow r, cf_kind = cf_kind r,
      cf_message = cf_message r, cf_status = cf_status r, cf_parked = isof (cf_parked r), cf_decider = cf_decider r,
      cf_decision = cf_decision r, cf_decided = map_option isof (cf_decided r)\<rparr>"

text \<open>A read of the table: the rows in the order the scan meets them, or the driver's error.\<close>

definition conf_query :: "conf_ctx \<Rightarrow> (int conf_record list \<Rightarrow> 'a) \<Rightarrow> pg_confs \<Rightarrow> exc + 'a" where
  "conf_query ctx f tbl =
     (if cx_fault ctx = NoFault then Inr (f (map (conf_row tbl) (scan_keys ctx tbl))) else Inl DbError)"

definition cpg_load_for_session :: "(int \<Rightarrow> string) \<Rightarrow> conf_ctx \<Rightarrow> string \<Rightarrow> pg_confs \<Rightarrow> exc + string conf_record list" where
  "cpg_load_for_session isof ctx session =
     conf_query ctx (\<lambda>rows. map (conf_to_record isof) (sort_key cf_parked (filter (\<lambda>r. cf_session r = session) rows)))"

definition cpg_load_record ::
  "(int \<Rightarrow> string) \<Rightarrow> conf_ctx \<Rightarrow> string \<Rightarrow> string \<Rightarrow> pg_confs \<Rightarrow> exc + string conf_record option" where
  "cpg_load_record isof ctx session cid =
     conf_query ctx (\<lambda>rows. map_option (conf_to_record isof) (find (\<lambda>r. cf_session r = session \<and> cf_id r = cid) rows))"

definition first_row :: "'a list \<Rightarrow> 'a option" where
  "first_row rows = (case rows of [] \<Rightarrow> None | r # _ \<Rightarrow> Some r)"

definition cpg_load_pending_for_session ::
  "(int \<Rightarrow> string) \<Rightarrow> conf_ctx \<Rightarrow> string \<Rightarrow> pg_confs \<Rightarrow> exc + string conf_record option" where
  "cpg_load_pending_for_session isof ctx session =
     conf_query ctx (\<lambda>rows. map_option (conf_to_record isof) (first_row
       (py_sort_desc cf_parked (filter (\<lambda>r. cf_session r = session \<and> is_pending r) rows))))"

definition cpg_load_pending_inbox :: "(int \<Rightarrow> string) \<Rightarrow> conf_ctx \<Rightarrow> pg_confs \<Rightarrow> exc + string conf_record list" where
  "cpg_load_pending_inbox isof ctx =
     conf_query ctx (\<lambda>rows. map (conf_to_record isof) (take INBOX_LIMIT (py_sort_desc cf_parked (filter is_pending rows))))"

definition cpg_in_window :: "int \<Rightarrow> int conf_record \<Rightarrow> bool" where
  "cpg_in_window now r \<longleftrightarrow>
     \<not> is_pending r \<and> (case cf_decided r of None \<Rightarrow> False | Some t \<Rightarrow> history_cutoff now \<le> t)"

definition cpg_history :: "int \<Rightarrow> int conf_record list \<Rightarrow> int conf_record list" where
  "cpg_history now rows = py_sort_desc (\<lambda>r. (cf_parked r, cf_id r)) (filter (cpg_in_window now) rows)"

text \<open>A negative \<open>LIMIT\<close> or \<open>OFFSET\<close> is rejected by the server.\<close>

definition cpg_load_inbox_history ::
  "(int \<Rightarrow> string) \<Rightarrow> conf_ctx \<Rightarrow> int \<Rightarrow> int \<Rightarrow> pg_confs \<Rightarrow> exc + string conf_record list \<times> nat" where
  "cpg_load_inbox_history isof ctx limit offset tbl =
     (if limit < 0 \<or> offset < 0 then Inl DbError
      else conf_query ctx (\<lambda>rows.
             (map (conf_to_record isof) (py_page (nat offset) (nat limit) (cpg_history (cx_now ctx) rows)),
              length (filter (cpg_in_window (cx_now ctx)) rows))) tbl)"

definition cpg_delete_session :: "conf_ctx \<Rightarrow> string \<Rightarrow> pg_confs \<Rightarrow> (exc + bool) \<times> pg_confs" where
  "cpg_delete_session ctx session =
     run_tx (cx_fault ctx) (\<lambda>tbl.
       Inr (list_ex (\<lambda>(k, r). cf_session r = session) tbl, filter (\<lambda>(k, r). cf_session r \<noteq> session) tbl))"

section \<open>Histories\<close>

datatype conf_op =
    CPark "string conf_record"
  | CResolve string string string "string option" "string option"
  | CDelete string
  | CInitialize int

definition cmem_step :: "(int \<Rightarrow> string) \<Rightarrow> conf_ctx \<times> conf_op \<Rightarrow> mem_confs \<Rightarrow> mem_confs" where
  "cmem_step isof cop m =
     (case cop of (ctx, op) \<Rightarrow>
      (case op of
         CPark r \<Rightarrow> cmem_save_parked r m
       | CResolve session cid status decider decision \<Rightarrow>
           cmem_mark_resolved session cid status decider decision (isof (cx_now ctx)) m
       | CDelete session \<Rightarrow> snd (cmem_delete_session session m)
       | CInitialize stale \<Rightarrow> m))"

definition cpg_step :: "conf_ctx \<times> conf_op \<Rightarrow> pg_confs \<Rightarrow> pg_confs" where
  "cpg_step cop tbl =
     (case cop of (ctx, op) \<Rightarrow>
      (case op of
         CPark r \<Rightarrow> snd (cpg_save_parked ctx r tbl)
       | CResolve session cid status decider decision \<Rightarrow>
           snd (cpg_mark_resolved ctx session cid status decider decision tbl)
       | CDelete session \<Rightarrow> snd (cpg_delete_session ctx session tbl)
       | CInitialize stale \<Rightarrow> snd (cpg_initialize ctx stale tbl)))"

section \<open>An outcome is final until its row is gone\<close>

definition parks :: "string \<Rightarrow> conf_ctx \<times> conf_op \<Rightarrow> bool" where
  "parks cid cop = (case snd cop of CPark r \<Rightarrow> cf_id r = cid | _ \<Rightarrow> False)"

lemma dget_sql_close_stale:
  "dget (sql_close_stale now stale tbl) k =
     map_option (\<lambda>r. if is_pending r \<and> cf_parked r \<le> now - stale
                     then r\<lparr>cf_status := ''expired'', cf_decided := Some now\<rparr> else r) (dget tbl k)"
  by (induction tbl) (auto simp: sql_close_stale_def)

lemma dget_sql_evict: "dget (sql_evict_over_cap ctx session tbl) k \<in> {None, dget tbl k}"
  by (simp add: sql_evict_over_cap_def)

lemma dget_sql_sweep_resolved: "dget (sql_sweep_resolved ctx tbl) k \<in> {None, dget tbl k}"
  by (simp add: sql_sweep_resolved_def)

lemma dget_filter_sub: "dict_ok d \<Longrightarrow> dget (filter P d) k \<in> {None, dget d k}"
proof (cases "dget (filter P d) k")
  case (Some v)
  assume "dict_ok d"
  with Some have "(k, v) \<in> set d" by (simp add: dict_ok_dget)
  with \<open>dict_ok d\<close> Some show ?thesis by (simp add: dict_ok_dget [symmetric])
qed simp

lemma dget_filter_first:
  "dget d k = Some v \<Longrightarrow> dict_ok d \<Longrightarrow> dget (filter P d) k \<in> {None, Some v}"
  using dget_filter_sub [of d P k] by auto

definition conf_keyed :: "(string, 't conf_record) dict \<Rightarrow> bool" where
  "conf_keyed d \<longleftrightarrow> dict_ok d \<and> list_all (\<lambda>(k, r). k = cf_id r) d"

lemma conf_keyedD: "conf_keyed d \<Longrightarrow> dget d k = Some r \<Longrightarrow> cf_id r = k"
  by (auto simp: conf_keyed_def list_all_iff dest!: dget_in)

lemma conf_keyed_dset [intro]: "conf_keyed d \<Longrightarrow> cf_id r = k \<Longrightarrow> conf_keyed (dset k r d)"
  by (auto simp: conf_keyed_def list_all_iff set_dset)

lemma conf_keyed_filter [intro]: "conf_keyed d \<Longrightarrow> conf_keyed (filter P d)"
  by (auto simp: conf_keyed_def list_all_iff)

lemma conf_keyed_dpops [intro]: "conf_keyed d \<Longrightarrow> conf_keyed (dpops ks d)"
  by (auto simp: dpops_def)

lemma conf_keyed_close_stale: "conf_keyed d \<Longrightarrow> conf_keyed (sql_close_stale now stale d)"
proof -
  have "map fst (sql_close_stale now stale d) = map fst d" by (induction d) (auto simp: sql_close_stale_def)
  moreover have "list_all (\<lambda>(k, r). k = cf_id r) d \<Longrightarrow> list_all (\<lambda>(k, r). k = cf_id r) (sql_close_stale now stale d)"
    by (auto simp: list_all_iff sql_close_stale_def)
  ultimately show "conf_keyed d \<Longrightarrow> ?thesis" by (simp add: conf_keyed_def dict_ok_def)
qed

lemma conf_keyed_resolve:
  "conf_keyed d \<Longrightarrow> dget d k = Some r \<Longrightarrow> conf_keyed (dset k (resolve_row status decider decision stamp r) d)"
  by (rule conf_keyed_dset) (auto simp: resolve_row_def dest: conf_keyedD)

lemma conf_keyed_mark: "conf_keyed d \<Longrightarrow> conf_keyed (sql_mark_resolved session cid status decider decision now d)"
  by (auto simp: sql_mark_resolved_def intro: conf_keyed_resolve split: option.split)

lemma dget_filter_None: "dget d k = None \<Longrightarrow> dget (filter P d) k = None"
  by (auto simp: dget_def map_of_eq_None_iff)

lemma conf_keyed_insert: "conf_keyed d \<Longrightarrow> conf_keyed (sql_insert_parked now r d)"
  by (auto simp: sql_insert_parked_def)

lemmas cpg_op_defs = cpg_save_parked_def cpg_mark_resolved_def cpg_delete_session_def cpg_initialize_def

lemma cpg_step_keyed [inv_intros]: "conf_keyed d \<Longrightarrow> conf_keyed (cpg_step cop d)"
  by (cases cop; cases "snd cop")
    (auto simp: cpg_step_def cpg_op_defs sql_evict_over_cap_def sql_sweep_resolved_def intro!: run_tx_keeps [where P = conf_keyed]
      conf_keyed_insert conf_keyed_mark conf_keyed_close_stale)

lemma cmem_evict_keyed: "conf_keyed m \<Longrightarrow> conf_keyed (cmem_evict session m)"
  by (auto simp: cmem_evict_def Let_def)

lemma cmem_step_keyed [inv_intros]: "conf_keyed m \<Longrightarrow> conf_keyed (cmem_step isof cop m)"
  by (cases cop; cases "snd cop")
    (auto simp: cmem_step_def cmem_save_parked_def cmem_mark_resolved_def cmem_delete_session_def Let_def
      intro!: cmem_evict_keyed conf_keyed_resolve split: option.split)

lemma cpg_step_gone: "\<not> parks k cop \<Longrightarrow> dget tbl k = None \<Longrightarrow> dget (cpg_step cop tbl) k = None"
  by (cases cop; cases "snd cop")
    (auto simp: parks_def cpg_step_def cpg_op_defs sql_evict_over_cap_def sql_sweep_resolved_def sql_insert_parked_def
      sql_mark_resolved_def dget_sql_close_stale split: option.splits
      intro!: run_tx_keeps [where P = "\<lambda>t. dget t k = None"] dget_filter_None)

definition until_gone :: "string \<Rightarrow> int conf_record \<Rightarrow> pg_confs \<Rightarrow> bool" where
  "until_gone k r tbl \<longleftrightarrow> dget tbl k = None \<or> dget tbl k = Some r"

lemma until_gone_intros:
  assumes "dget tbl k = Some r" and "\<not> is_pending r" and "conf_keyed tbl"
  shows "until_gone k r tbl" and "until_gone k r (filter P tbl)" and "until_gone k r (sql_close_stale now stale tbl)"
    and "until_gone k r (sql_mark_resolved session cid status decider decision now tbl)"
    and "k \<noteq> cf_id q \<Longrightarrow> until_gone k r (sql_sweep_resolved ctx (sql_evict_over_cap ctx session (sql_insert_parked now q tbl)))"
  using assms dget_filter_first [of tbl k r P]
  by (auto simp: until_gone_def conf_keyed_def dget_sql_close_stale sql_mark_resolved_def sql_sweep_resolved_def
      sql_evict_over_cap_def sql_insert_parked_def split: option.splits)

lemma cpg_step_final:
  assumes "conf_keyed tbl" and "\<not> parks k cop" and "dget tbl k = Some r" and "\<not> is_pending r"
  shows "dget (cpg_step cop tbl) k = None \<or> dget (cpg_step cop tbl) k = Some r"
proof -
  have "until_gone k r (cpg_step cop tbl)"
    using assms(2) until_gone_intros [OF assms(3,4,1)]
    by (cases cop; cases "snd cop")
      (auto simp: parks_def cpg_step_def cpg_op_defs intro!: run_tx_keeps [where P = "until_gone k r"])
  then show ?thesis by (simp add: until_gone_def)
qed

lemma cmem_step_gone: "\<not> parks k cop \<Longrightarrow> dget m k = None \<Longrightarrow> dget (cmem_step isof cop m) k = None"
  by (cases cop; cases "snd cop")
    (auto simp: parks_def cmem_step_def cmem_save_parked_def cmem_evict_def cmem_mark_resolved_def cmem_delete_session_def Let_def
      split: option.splits)

lemma cmem_step_final:
  "\<not> parks k cop \<Longrightarrow> dget m k = Some r \<Longrightarrow> \<not> is_pending r \<Longrightarrow>
   dget (cmem_step isof cop m) k = None \<or> dget (cmem_step isof cop m) k = Some r"
  by (cases cop; cases "snd cop")
    (auto simp: parks_def cmem_step_def cmem_save_parked_def cmem_evict_def cmem_mark_resolved_def cmem_delete_session_def Let_def
      split: option.splits)

interpretation cp: final_until_gone cpg_step conf_keyed dget "\<lambda>r. \<not> is_pending r" parks
  by unfold_locales (auto intro: cpg_step_keyed cpg_step_gone dest: cpg_step_final)

interpretation cm: final_until_gone "cmem_step isof" conf_keyed dget "\<lambda>r. \<not> is_pending r" parks for isof
  by unfold_locales (auto intro: cmem_step_keyed cmem_step_gone dest: cmem_step_final)

text \<open>
  C33. A confirmation resolves once, in both backends: the first decision on a pending row of its
  session is recorded as given, with its decider and its time; from then on, through every history
  of parks of other confirmations, further decisions, startups, evictions and deletions, the row
  is either gone or still exactly that outcome, and the same holds of a row that was already
  resolved (approved, denied or expired) when the decision arrived.
\<close>

theorem confirmation_resolved_once:
  assumes "conf_keyed tbl" and "conf_keyed m" and "list_all (\<lambda>cop. \<not> parks cid cop) ops"
    and "dget tbl cid = Some r" and "dget m cid = Some q" and "cf_session r = session" and "cf_session q = session"
    and "status \<noteq> ''pending''" and "cx_fault ctx = NoFault"
    and r'_def: "r' = (if is_pending r then resolve_row status decider decision (cx_now ctx) r else r)"
    and q'_def: "q' = (if is_pending q then resolve_row status decider decision (isof (cx_now ctx)) q else q)"
    and decide_op_def: "decide_op = (ctx, CResolve session cid status decider decision)"
  shows "dget (cpg_step decide_op tbl) cid = Some r'
    \<and> dget (fold cpg_step ops (cpg_step decide_op tbl)) cid \<in> {None, Some r'}
    \<and> dget (cmem_step isof decide_op m) cid = Some q'
    \<and> dget (fold (cmem_step isof) ops (cmem_step isof decide_op m)) cid \<in> {None, Some q'}"
proof -
  have p: "dget (cpg_step decide_op tbl) cid = Some r'"
    using assms(4,6,9) by (simp add: r'_def decide_op_def cpg_step_def cpg_mark_resolved_def run_tx_def sql_mark_resolved_def)
  have m: "dget (cmem_step isof decide_op m) cid = Some q'"
    using assms(5,7) by (simp add: q'_def decide_op_def cmem_step_def cmem_mark_resolved_def)
  have "\<not> is_pending r'" "\<not> is_pending q'"
    using assms(8) by (simp_all add: r'_def q'_def resolve_row_def is_pending_def)
  with p m cp.run_final [OF cpg_step_keyed [OF assms(1)] assms(3), of r' decide_op]
    cm.run_final [OF cmem_step_keyed [OF assms(2)] assms(3), of q' isof decide_op]
  show ?thesis by simp
qed

definition demo_ctx :: conf_ctx where
  "demo_ctx = \<lparr>cx_fault = NoFault, cx_now = 7, cx_scan = id\<rparr>"

definition demo_conf :: "string \<Rightarrow> 't \<Rightarrow> 't conf_record" where
  "demo_conf cid stamp =
     \<lparr>cf_id = cid, cf_session = ''s1'', cf_owner = ''u1'', cf_calls = [], cf_action = Some ''tools:mutate'',
      cf_turn = Some 0, cf_flow = None, cf_kind = Some ''action'', cf_message = None, cf_status = ''pending'',
      cf_parked = stamp, cf_decider = None, cf_decision = None, cf_decided = None\<rparr>"

theorem confirmation_resolved_once_witness:
  "dget (fold cpg_step [(demo_ctx, CResolve ''s1'' ''c1'' ''denied'' (Some ''u3'') None)]
      (cpg_step (demo_ctx, CResolve ''s1'' ''c1'' ''approved'' (Some ''u2'') (Some ''allow''))
        [(''c1'', demo_conf ''c1'' 1)])) ''c1''
    \<in> {None, Some (resolve_row ''approved'' (Some ''u2'') (Some ''allow'') 7 (demo_conf ''c1'' 1))}"
proof -
  let ?d = "[(''c1'', demo_conf ''c1'' 1)]" and ?m = "[(''c1'', demo_conf ''c1'' ''t1'')]"
  have "conf_keyed ?d" "conf_keyed ?m" "dget ?d ''c1'' = Some (demo_conf ''c1'' 1)" "dget ?m ''c1'' = Some (demo_conf ''c1'' ''t1'')"
    "list_all (\<lambda>cop. \<not> parks ''c1'' cop) [(demo_ctx, CResolve ''s1'' ''c1'' ''denied'' (Some ''u3'') None)]"
    by (simp_all add: conf_keyed_def dict_ok_def demo_conf_def parks_def)
  from confirmation_resolved_once [OF this(1,2,5,3,4) _ _ _ _ refl refl refl, of "''s1''" "''approved''" demo_ctx]
  show ?thesis by (simp add: demo_conf_def demo_ctx_def is_pending_def)
qed

text \<open>
  The in-memory backend has no such protection against a repeated confirmation id: parking it
  again reopens a resolved confirmation, where the table keeps the outcome. The ids are fresh
  UUIDs, so the two backends agree on what the agent does.
\<close>

lemma repark_diverges:
  assumes "cf_status q = ''pending''" and "cx_fault ctx = NoFault" and "dget tbl (cf_id q) = Some r" and "\<not> is_pending r"
  shows "dget (dset (cf_id q) q m) (cf_id q) = Some q" and "is_pending q"
    and "dget (sql_insert_parked now q tbl) (cf_id q) = Some r"
  using assms by (simp_all add: is_pending_def sql_insert_parked_def dhas_dget)

section \<open>The per-session bound\<close>

definition session_rows :: "string \<Rightarrow> (string, 't conf_record) dict \<Rightarrow> (string \<times> 't conf_record) list" where
  "session_rows session d = filter (\<lambda>p. cf_session (snd p) = session) d"

definition capped :: "(string, 't conf_record) dict \<Rightarrow> bool" where
  "capped d \<longleftrightarrow> (\<forall>session. length (session_rows session d) \<le> PER_SESSION_CAP)"

lemma length_remove_keys:
  assumes "distinct (map fst d)" and "distinct ks" and "set ks \<subseteq> fst ` set d"
  shows "length (dpops ks d) = length d - length ks"
proof -
  have "map fst (dpops ks d) = filter (\<lambda>k. k \<notin> set ks) (map fst d)"
    by (simp add: dpops_def filter_map o_def)
  then have "length (dpops ks d) = length (filter (\<lambda>k. k \<notin> set ks) (map fst d))" by (metis length_map)
  also have "\<dots> = card (set (filter (\<lambda>k. k \<notin> set ks) (map fst d)))"
    using assms(1) by (intro distinct_card [symmetric] distinct_filter)
  also have "set (filter (\<lambda>k. k \<notin> set ks) (map fst d)) = fst ` set d - set ks" by auto
  also have "card (fst ` set d - set ks) = length d - length ks"
    using assms distinct_card [OF assms(1)] by (simp add: card_Diff_subset distinct_card)
  finally show ?thesis .
qed

lemma session_rows_filter: "session_rows session (filter P d) = filter P (session_rows session d)"
  by (auto simp: session_rows_def intro: filter_cong)

lemma session_rows_dpops: "session_rows session (dpops ks d) = dpops ks (session_rows session d)"
  by (simp add: dpops_def session_rows_filter)

lemma capped_filter: "capped d \<Longrightarrow> capped (filter P d)"
  unfolding capped_def session_rows_filter by (metis length_filter_le order_trans)

lemma capped_dpops: "capped d \<Longrightarrow> capped (dpops ks d)"
  by (simp add: dpops_def capped_filter)

text \<open>Updates that keep a row in its session keep every count.\<close>

lemma session_rows_replace:
  "dget d k = Some r \<Longrightarrow> cf_session r' = cf_session r \<Longrightarrow>
   length (session_rows session (dset k r' d)) = length (session_rows session d)"
  by (induction d) (auto simp: session_rows_def split: if_splits)

lemma session_rows_dset_other:
  "session \<noteq> cf_session r \<Longrightarrow> length (session_rows session (dset k r d)) \<le> length (session_rows session d)"
  by (induction d) (auto simp: session_rows_def)

lemma session_rows_close_stale: "length (session_rows session (sql_close_stale now stale d)) = length (session_rows session d)"
  by (induction d) (auto simp: session_rows_def sql_close_stale_def split: if_splits)

lemma capped_resolve:
  "capped d \<Longrightarrow> dget d k = Some r \<Longrightarrow> capped (dset k (resolve_row status decider decision stamp r) d)"
  by (simp add: capped_def session_rows_replace resolve_row_def)

lemma session_keys:
  assumes "conf_keyed d"
  shows "map cf_id (map snd (session_rows session d)) = map fst (session_rows session d)"
    and "distinct (map fst (session_rows session d))"
proof -
  show "map cf_id (map snd (session_rows session d)) = map fst (session_rows session d)"
    using assms by (auto simp: conf_keyed_def list_all_iff session_rows_def)
  show "distinct (map fst (session_rows session d))"
    using assms by (simp add: conf_keyed_def dict_ok_def session_rows_def distinct_map inj_on_def)
qed

text \<open>Dropping a part of a session's keys, in whatever order they are listed.\<close>

lemma session_rows_evict:
  assumes "conf_keyed d" and "mset ks = mset (map fst (session_rows session d))" and "mset gone \<subseteq># mset ks"
  shows "length (session_rows session (dpops gone d)) = length ks - length gone"
proof -
  have "distinct ks" using session_keys(2) [OF assms(1)] assms(2) mset_eq_imp_distinct_iff by blast
  then have dg: "distinct gone" using assms(3) by (rule distinct_mset_sub [rotated])
  have "set gone \<subseteq> set ks" using assms(3) by (metis set_mset_mono set_mset_mset)
  also have "set ks = fst ` set (session_rows session d)" using assms(2) by (metis set_map set_mset_mset)
  finally have "length (dpops gone (session_rows session d)) = length (session_rows session d) - length gone"
    using session_keys(2) [OF assms(1)] dg by (intro length_remove_keys)
  moreover have "length (session_rows session d) = length ks" using assms(2) by (metis length_map size_mset)
  ultimately show ?thesis by (simp add: session_rows_dpops)
qed

lemma cmem_rows:
  "map snd (session_rows session m) = filter (\<lambda>r. cf_session r = session) (dvalues m)"
  by (simp add: session_rows_def dvalues_def filter_map o_def)

lemma cmem_load_keys:
  assumes "conf_keyed m"
  shows "mset (map cf_id (cmem_load_for_session session m)) = mset (map fst (session_rows session m))"
proof -
  have "mset (map cf_id (cmem_load_for_session session m)) = mset (map cf_id (map snd (session_rows session m)))"
    by (simp add: cmem_load_for_session_def cmem_rows del: map_map)
  then show ?thesis by (simp only: session_keys(1) [OF assms])
qed

lemma cmem_evict_length:
  assumes "conf_keyed m"
  shows "length (session_rows session (cmem_evict session m)) \<le> PER_SESSION_CAP"
proof -
  let ?rows = "cmem_load_for_session session m" and ?n = "length (cmem_load_for_session session m)"
  have len: "length (session_rows session m) = ?n"
    using cmem_load_keys [OF assms, of session] by (metis length_map size_mset)
  have "mset (map cf_id (take (?n - PER_SESSION_CAP) ?rows)) \<subseteq># mset (map cf_id ?rows)"
    by (metis append_take_drop_id map_append mset_append mset_subset_eq_add_left)
  from session_rows_evict [OF assms cmem_load_keys [OF assms] this] len show ?thesis
    by (auto simp: cmem_evict_def Let_def)
qed

lemma cmem_save_capped:
  assumes "conf_keyed m" and "capped m"
  shows "capped (cmem_save_parked r m)"
proof -
  have keyed: "conf_keyed (dset (cf_id r) r m)" using assms(1) by blast
  have "length (session_rows session (cmem_evict (cf_session r) (dset (cf_id r) r m))) \<le> PER_SESSION_CAP" for session
  proof (cases "session = cf_session r")
    case True
    with cmem_evict_length [OF keyed] show ?thesis by simp
  next
    case False
    have "length (session_rows session (cmem_evict (cf_session r) (dset (cf_id r) r m)))
        \<le> length (session_rows session (dset (cf_id r) r m))"
      by (simp add: cmem_evict_def Let_def session_rows_dpops) (simp add: dpops_def)
    also have "\<dots> \<le> length (session_rows session m)" using session_rows_dset_other False by blast
    also have "\<dots> \<le> PER_SESSION_CAP" using assms(2) by (simp add: capped_def)
    finally show ?thesis .
  qed
  then show ?thesis by (simp add: capped_def cmem_save_parked_def)
qed

lemma cmem_step_capped: "conf_keyed m \<Longrightarrow> capped m \<Longrightarrow> capped (cmem_step isof cop m)"
  by (cases cop; cases "snd cop")
    (auto simp: cmem_step_def cmem_save_capped cmem_mark_resolved_def cmem_delete_session_def Let_def
      intro: capped_resolve capped_dpops split: option.split)

text \<open>A query meets every row exactly once.\<close>

definition scans_all :: "conf_ctx \<Rightarrow> bool" where
  "scans_all ctx \<longleftrightarrow> (\<forall>ks. mset (cx_scan ctx ks) = mset ks)"

lemma scan_keys_mset:
  assumes "scans_all ctx"
  shows "mset (scan_keys ctx tbl) = mset (map fst tbl)"
proof -
  have s: "mset (cx_scan ctx (map fst tbl)) = mset (map fst tbl)" using assms by (simp add: scans_all_def)
  then have "set (cx_scan ctx (map fst tbl)) = set (map fst tbl)" by (metis set_mset_mset)
  then have "filter (dhas tbl) (cx_scan ctx (map fst tbl)) = cx_scan ctx (map fst tbl)"
    by (intro filter_True) (simp add: dhas_def)
  with s show ?thesis by (simp add: scan_keys_def)
qed

lemma conf_row_dget: "dget tbl k = Some r \<Longrightarrow> conf_row tbl k = r"
  by (simp add: conf_row_def)

lemma session_scan_keys:
  assumes "scans_all ctx" and "conf_keyed tbl"
  shows "mset (filter (\<lambda>k. cf_session (conf_row tbl k) = session) (scan_keys ctx tbl)) = mset (map fst (session_rows session tbl))"
proof -
  have row: "conf_row tbl (fst p) = snd p" if "p \<in> set tbl" for p
    using that assms(2) dict_ok_dget [of tbl "fst p" "snd p"] by (simp add: conf_keyed_def conf_row_dget)
  have "filter (\<lambda>k. cf_session (conf_row tbl k) = session) (map fst tbl) = map fst (session_rows session tbl)"
    by (simp add: filter_map session_rows_def o_def) (metis (mono_tags, lifting) filter_cong row)
  with scan_keys_mset [OF assms(1), of tbl] show ?thesis by (metis mset_filter)
qed

lemma sql_evict_length:
  assumes "scans_all ctx" and "conf_keyed tbl"
  shows "length (session_rows session (sql_evict_over_cap ctx session tbl)) \<le> PER_SESSION_CAP"
proof -
  let ?ks = "py_sort_desc (\<lambda>k. cf_parked (conf_row tbl k))
    (filter (\<lambda>k. cf_session (conf_row tbl k) = session) (scan_keys ctx tbl))"
  have ks: "mset ?ks = mset (map fst (session_rows session tbl))" using session_scan_keys [OF assms] by simp
  have "mset (drop PER_SESSION_CAP ?ks) \<subseteq># mset ?ks"
    by (metis append_take_drop_id mset_append mset_subset_eq_add_right)
  from session_rows_evict [OF assms(2) ks this] show ?thesis by (simp add: sql_evict_over_cap_def)
qed

lemma sql_save_capped:
  assumes "scans_all ctx" and "conf_keyed tbl" and "capped tbl"
  shows "capped (sql_sweep_resolved ctx (sql_evict_over_cap ctx (cf_session r) (sql_insert_parked now r tbl)))"
proof -
  let ?t = "sql_insert_parked now r tbl"
  have keyed: "conf_keyed ?t" using assms(2) by (rule conf_keyed_insert)
  have "length (session_rows session (sql_evict_over_cap ctx (cf_session r) ?t)) \<le> PER_SESSION_CAP" for session
  proof (cases "session = cf_session r")
    case True
    with sql_evict_length [OF assms(1) keyed] show ?thesis by simp
  next
    case False
    have "length (session_rows session (sql_evict_over_cap ctx (cf_session r) ?t)) \<le> length (session_rows session ?t)"
      by (simp add: sql_evict_over_cap_def session_rows_dpops) (simp add: dpops_def)
    also have "\<dots> \<le> length (session_rows session tbl)"
      using False by (simp add: sql_insert_parked_def session_rows_dset_other)
    also have "\<dots> \<le> PER_SESSION_CAP" using assms(3) by (simp add: capped_def)
    finally show ?thesis .
  qed
  then have "capped (sql_evict_over_cap ctx (cf_session r) ?t)" by (simp add: capped_def)
  then show ?thesis unfolding sql_sweep_resolved_def by (rule capped_dpops)
qed

lemma sql_other_capped:
  assumes "capped tbl"
  shows "capped (sql_close_stale now stale tbl)" and "capped (sql_mark_resolved session cid status decider decision now tbl)"
  using assms by (auto simp: capped_def session_rows_close_stale sql_mark_resolved_def split: option.split
      intro!: capped_resolve [unfolded capped_def, rule_format])

lemma cpg_step_capped: "scans_all (fst cop) \<Longrightarrow> conf_keyed tbl \<Longrightarrow> capped tbl \<Longrightarrow> capped (cpg_step cop tbl)"
  by (cases cop; cases "snd cop")
    (auto simp: cpg_step_def cpg_op_defs intro!: run_tx_keeps [where P = capped] sql_save_capped sql_other_capped capped_filter)

interpretation mb: invariant_machine "cmem_step isof" "\<lambda>m. conf_keyed m \<and> capped m" for isof
  by unfold_locales (auto intro: cmem_step_keyed cmem_step_capped)

interpretation pb: admitted_invariant cpg_step "\<lambda>tbl. conf_keyed tbl \<and> capped tbl" "\<lambda>cop. scans_all (fst cop)"
  by unfold_locales (auto intro: cpg_step_keyed cpg_step_capped)

text \<open>The rows an eviction drops are the oldest of their session.\<close>

lemma sorted_take_drop:
  "sorted_wrt R xs \<Longrightarrow> x \<in> set (take n xs) \<Longrightarrow> y \<in> set (drop n xs) \<Longrightarrow> R x y"
  by (metis append_take_drop_id sorted_wrt_append)

lemma cmem_evict_oldest:
  assumes "conf_keyed m" and "dget m k = Some old" and "dget (cmem_evict session m) k = None"
    and "dget (cmem_evict session m) k' = Some kept" and "cf_session kept = session"
  shows "cf_session old = session \<and> cf_parked old \<le> cf_parked kept"
proof -
  let ?rows = "cmem_load_for_session session m"
  let ?n = "length ?rows - PER_SESSION_CAP"
  have big: "\<not> length ?rows \<le> PER_SESSION_CAP"
    using assms(2,3) by (auto simp: cmem_evict_def Let_def)
  with assms(2,3) have "k \<in> set (map cf_id (take ?n ?rows))"
    by (auto simp: cmem_evict_def Let_def split: if_split_asm)
  then obtain r where r: "r \<in> set (take ?n ?rows)" "cf_id r = k" by auto
  then have "r \<in> set ?rows" by (meson in_set_takeD)
  then have "r \<in> set (dvalues m)" and sess: "cf_session r = session" by (simp_all add: cmem_load_for_session_def)
  then have "dget m k = Some r"
    using assms(1) r(2) conf_keyedD [OF assms(1)] by (auto simp: conf_keyed_def dvalues_mem)
  with assms(2) have old: "r = old" by simp
  from assms(4) big have k': "dget m k' = Some kept" "k' \<notin> set (map cf_id (take ?n ?rows))"
    by (auto simp: cmem_evict_def Let_def split: if_split_asm)
  have "kept \<in> set ?rows"
    using k'(1) assms(1,5) by (auto simp: cmem_load_for_session_def conf_keyed_def dvalues_mem)
  moreover have "kept \<notin> set (take ?n ?rows)" using k'(2) conf_keyedD [OF assms(1) k'(1)] by auto
  ultimately have kept: "kept \<in> set (drop ?n ?rows)" by (metis Un_iff append_take_drop_id set_append)
  have "sorted_wrt (\<lambda>a b. cf_parked a \<le> cf_parked b) ?rows"
    unfolding cmem_load_for_session_def using sorted_sort_key [of cf_parked] by (simp add: sorted_wrt_map)
  from sorted_take_drop [OF this r(1) kept] sess old show ?thesis by simp
qed

text \<open>
  The per-session bound is an invariant: after every history, in both backends and whatever
  fails, every session has at most 50 confirmation records (for the table as long as its queries
  meet every row), the keys stay the records' own ids without duplicates, and in memory what
  parking one more record evicts are the oldest records of its session.
\<close>

theorem session_records_capped:
  assumes "list_all (\<lambda>cop. scans_all (fst cop)) ops" and "m = fold (cmem_step isof) mops []"
  shows "conf_keyed (fold cpg_step ops []) \<and> length (session_rows session (fold cpg_step ops [])) \<le> 50
    \<and> conf_keyed m \<and> length (session_rows session m) \<le> 50
    \<and> (dget (dset (cf_id r) r m) k = Some old \<and> dget (cmem_save_parked r m) k = None
         \<and> dget (cmem_save_parked r m) k' = Some kept \<and> cf_session kept = cf_session r \<longrightarrow>
         cf_session old = cf_session r \<and> cf_parked old \<le> cf_parked kept)"
proof -
  have "conf_keyed ([] :: pg_confs) \<and> capped ([] :: pg_confs)" and nil: "conf_keyed ([] :: mem_confs) \<and> capped ([] :: mem_confs)"
    by (simp_all add: conf_keyed_def capped_def session_rows_def)
  from pb.run_keeps_inv [OF this(1) assms(1)]
  have p: "conf_keyed (fold cpg_step ops []) \<and> length (session_rows session (fold cpg_step ops [])) \<le> 50"
    by (simp add: capped_def PER_SESSION_CAP_def)
  from mb.run_inv [OF nil, of isof mops] assms(2) have m: "conf_keyed m \<and> capped m" by simp
  then have "conf_keyed (dset (cf_id r) r m)" by blast
  from cmem_evict_oldest [OF this, of k old "cf_session r" k' kept] p m show ?thesis
    by (simp add: capped_def PER_SESSION_CAP_def cmem_save_parked_def)
qed

theorem session_records_capped_witness:
  "length (session_rows ''s1'' (fold cpg_step [(demo_ctx, CPark (demo_conf ''c1'' ''t'')),
     (demo_ctx, CPark (demo_conf ''c2'' ''t''))] [])) \<le> 50"
proof -
  have "list_all (\<lambda>cop. scans_all (fst cop)) [(demo_ctx, CPark (demo_conf ''c1'' ''t'')), (demo_ctx, CPark (demo_conf ''c2'' ''t''))]"
    by (simp add: scans_all_def demo_ctx_def)
  from session_records_capped [OF this refl, where session = "''s1''"] show ?thesis by blast
qed

section \<open>Paging through the history\<close>

lemma py_slice_page:
  assumes "0 \<le> lo" and "0 \<le> n"
  shows "py_slice lo (lo + n) xs = py_page (nat lo) (nat n) xs"
proof (cases "lo \<le> int (length xs)")
  case True
  show ?thesis
  proof (cases "lo + n \<le> int (length xs)")
    case False
    with True assms have "nat (int (length xs) - lo) = length (drop (nat lo) xs)" "length (drop (nat lo) xs) \<le> nat n" by auto
    with True False assms show ?thesis by (simp add: py_slice_def py_page_def Let_def)
  qed (use True assms in \<open>simp add: py_slice_def py_page_def Let_def\<close>)
next
  case False
  with assms show ?thesis by (simp add: py_slice_def py_page_def Let_def)
qed

lemma pages_take: "concat (map (\<lambda>i. py_page (i * n) n xs) [0..<k]) = take (k * n) xs"
proof (induction k)
  case (Suc k)
  then show ?case using take_add [of "k * n" n xs] by (simp add: py_page_def add.commute)
qed simp

lemma py_page_map: "py_page a n (map f xs) = map f (py_page a n xs)"
  by (simp add: py_page_def take_map drop_map)

lemma pair_less: "(a, c) \<le> (b, d) \<Longrightarrow> d \<noteq> c \<Longrightarrow> (a, c) < (b, d)" for a b :: "'x::linorder" and c d :: "'y::linorder"
  by (metis order.not_eq_order_implies_strict prod.inject)

text \<open>Newest first: the records are distinct, so their sort keys strictly decrease.\<close>

lemma history_order:
  assumes "distinct (map cf_id rows)" and "h = py_sort_desc (\<lambda>r. (cf_parked r, cf_id r)) rows"
  shows "sorted_wrt (\<lambda>a b. (cf_parked b, cf_id b) < (cf_parked a, cf_id a)) h" and "mset h = mset rows"
proof -
  show ms: "mset h = mset rows" by (simp add: assms(2))
  then have "distinct (map cf_id h)" using assms(1) by (metis mset_eq_imp_distinct_iff mset_map)
  then have "sorted_wrt (\<lambda>a b. cf_id a \<noteq> cf_id b) h"
    by (simp add: distinct_map distinct_conv_nth sorted_wrt_iff_nth_less inj_on_def)
  moreover have "sorted_wrt (\<lambda>a b. (cf_parked b, cf_id b) \<le> (cf_parked a, cf_id a)) h"
    unfolding assms(2) by (rule sorted_py_sort_desc)
  ultimately show "sorted_wrt (\<lambda>a b. (cf_parked b, cf_id b) < (cf_parked a, cf_id a)) h"
    unfolding sorted_wrt_iff_nth_less by (meson pair_less)
qed

lemma conf_values_ids:
  assumes "conf_keyed d"
  shows "distinct (map cf_id (dvalues d))"
proof -
  have "map cf_id (dvalues d) = map fst d" using assms by (auto simp: conf_keyed_def list_all_iff dvalues_def)
  with assms show ?thesis by (simp add: conf_keyed_def dict_ok_def)
qed

lemma scanned_rows:
  assumes "scans_all ctx" and "conf_keyed tbl"
  shows "mset (map (conf_row tbl) (scan_keys ctx tbl)) = mset (dvalues tbl)"
proof -
  have "map (conf_row tbl) (map fst tbl) = dvalues tbl"
    using assms(2) by (auto simp: conf_keyed_def dvalues_def dict_ok_dget [symmetric] conf_row_dget)
  with scan_keys_mset [OF assms(1), of tbl] show ?thesis by (metis mset_map)
qed

lemma distinct_ids_filter: "distinct (map cf_id rows) \<Longrightarrow> distinct (map cf_id (filter P rows))"
  by (simp add: distinct_map inj_on_def)

text \<open>
  Paging through the approvals history loses and repeats nothing: in both backends the
  resolved records inside the 30-day window form one list, each exactly once, strictly ordered by
  park time and id, newest first; every page of \<open>n\<close> is the corresponding part of that list together
  with its length, and enough pages put together are the whole list.
\<close>

theorem history_pages_complete:
  assumes "conf_keyed m" and "conf_keyed tbl" and "scans_all ctx" and "cx_fault ctx = NoFault"
    and "length (filter (cmem_in_window parse now) (dvalues m)) \<le> k * n"
    and "length (filter (cpg_in_window (cx_now ctx)) (dvalues tbl)) \<le> k * n"
  shows "\<exists>h g. sorted_wrt (\<lambda>a b. (cf_parked b, cf_id b) < (cf_parked a, cf_id a)) h
    \<and> mset h = mset (filter (cmem_in_window parse now) (dvalues m))
    \<and> (\<forall>i. cmem_load_inbox_history parse now (int n) (int (i * n)) m = (py_page (i * n) n h, length h))
    \<and> concat (map (\<lambda>i. fst (cmem_load_inbox_history parse now (int n) (int (i * n)) m)) [0..<k]) = h
    \<and> sorted_wrt (\<lambda>a b. (cf_parked b, cf_id b) < (cf_parked a, cf_id a)) g
    \<and> mset g = mset (filter (cpg_in_window (cx_now ctx)) (dvalues tbl))
    \<and> (\<forall>i. cpg_load_inbox_history isof ctx (int n) (int (i * n)) tbl
           = Inr (map (conf_to_record isof) (py_page (i * n) n g), length g))
    \<and> concat (map (\<lambda>i. py_page (i * n) n g) [0..<k]) = g"
proof -
  let ?rows = "map (conf_row tbl) (scan_keys ctx tbl)"
  let ?h = "cmem_history parse now m" and ?g = "cpg_history (cx_now ctx) ?rows"
  have ms: "mset ?rows = mset (dvalues tbl)" using scanned_rows [OF assms(3,2)] .
  have "distinct (map cf_id ?rows)"
    using conf_values_ids [OF assms(2)] ms by (metis mset_eq_imp_distinct_iff mset_map)
  note h = history_order [OF distinct_ids_filter [OF conf_values_ids [OF assms(1)]] cmem_history_def]
    and g = history_order [OF distinct_ids_filter [OF this] cpg_history_def]
  have gm: "mset ?g = mset (filter (cpg_in_window (cx_now ctx)) (dvalues tbl))" using g(2) ms by (metis mset_filter)
  have len: "length ?h \<le> k * n" "length ?g \<le> k * n" using assms(5,6) h(2) gm by (metis size_mset)+
  have pages: "cmem_load_inbox_history parse now (int n) (int (i * n)) m = (py_page (i * n) n ?h, length ?h)" for i
    by (simp add: cmem_load_inbox_history_def Let_def py_slice_page del: of_nat_mult)
  have "length (filter (cpg_in_window (cx_now ctx)) ?rows) = length ?g" by (simp add: cpg_history_def)
  then have "cpg_load_inbox_history isof ctx (int n) (int (i * n)) tbl
      = Inr (map (conf_to_record isof) (py_page (i * n) n ?g), length ?g)" for i
    using assms(4) by (simp add: cpg_load_inbox_history_def conf_query_def del: of_nat_mult length_filter_map)
  moreover have "concat (map (\<lambda>i. py_page (i * n) n xs) [0..<k]) = xs" if "length xs \<le> k * n" for xs :: "'x list"
    using that by (simp add: pages_take)
  ultimately show ?thesis using h(1,2) g(1) gm len pages by (intro exI [of _ ?h] exI [of _ ?g]) (simp add: pages_take)
qed

definition demo_decided :: "'t \<Rightarrow> 't conf_record" where
  "demo_decided stamp = resolve_row ''approved'' (Some ''u2'') (Some ''allow'') stamp (demo_conf ''c1'' stamp)"

theorem history_pages_complete_witness:
  "\<exists>h. mset h = {#demo_decided ''t''#}
     \<and> (\<forall>i. cmem_load_inbox_history (\<lambda>_. Some 7) 7 1 (int i) [(''c1'', demo_decided ''t'')] = (py_page i 1 h, length h))"
proof -
  have k: "conf_keyed [(''c1'', demo_decided ''t'')]" "conf_keyed [(''c1'', demo_decided 7)]"
    "scans_all demo_ctx" "cx_fault demo_ctx = NoFault"
    by (simp_all add: conf_keyed_def dict_ok_def demo_decided_def resolve_row_def demo_conf_def scans_all_def demo_ctx_def)
  have "cmem_in_window (\<lambda>_. Some 7) 7 (demo_decided ''t'')"
    by (simp add: cmem_in_window_def demo_decided_def resolve_row_def is_pending_def history_cutoff_def seconds_def HISTORY_WINDOW_DAYS_def)
  with history_pages_complete [OF k, of "\<lambda>_. Some 7" 7 1 1 "\<lambda>_. []"] show ?thesis by (auto simp: dvalues_def)
qed

section \<open>The pending queue\<close>

text \<open>
  The approvers' queue is the newest hundred: in memory it lists at most 100 pending records,
  each once, newest first, none older than a record left out, and it is complete exactly up to that
  bound. Beyond a hundred parked confirmations some are hidden, although the source calls the queue
  always complete.
\<close>

theorem pending_inbox_bounded:
  assumes "conf_keyed m"
  shows "length (cmem_load_pending_inbox m) = min 100 (length (filter is_pending (dvalues m)))
    \<and> distinct (cmem_load_pending_inbox m)
    \<and> sorted_wrt (\<lambda>a b. cf_parked b \<le> cf_parked a) (cmem_load_pending_inbox m)
    \<and> set (cmem_load_pending_inbox m) \<subseteq> {r \<in> set (dvalues m). is_pending r}
    \<and> (a \<in> set (cmem_load_pending_inbox m) \<and> b \<in> set (dvalues m) \<and> is_pending b \<and> b \<notin> set (cmem_load_pending_inbox m)
         \<longrightarrow> cf_parked b \<le> cf_parked a)
    \<and> (set (cmem_load_pending_inbox m) = {r \<in> set (dvalues m). is_pending r}
         \<longleftrightarrow> length (filter is_pending (dvalues m)) \<le> 100)"
proof -
  let ?all = "py_sort_desc cf_parked (filter is_pending (dvalues m))" and ?in = "cmem_load_pending_inbox m"
  have "distinct (filter is_pending (dvalues m))"
    using conf_values_ids [OF assms] by (simp add: distinct_map)
  then have d: "distinct ?all" by (metis mset_eq_imp_distinct_iff mset_py_sort_desc)
  have sp: "?in = take 100 ?all" by (simp add: cmem_load_pending_inbox_def INBOX_LIMIT_def)
  have set: "set ?all = {r \<in> set (dvalues m). is_pending r}" by auto
  have srt: "sorted_wrt (\<lambda>a b. cf_parked b \<le> cf_parked a) ?all" by (rule sorted_py_sort_desc)
  have "set (take 100 ?all) = set ?all \<longleftrightarrow> length ?all \<le> 100"
  proof
    assume "set (take 100 ?all) = set ?all"
    then have "length (take 100 ?all) = length ?all" using d by (metis distinct_card distinct_take)
    then show "length ?all \<le> 100" by (simp del: length_py_sort_desc)
  qed simp
  moreover have "cf_parked b \<le> cf_parked a" if "a \<in> set (take 100 ?all)" "b \<in> set ?all" "b \<notin> set (take 100 ?all)"
  proof -
    from that(2,3) have "b \<in> set (drop 100 ?all)" by (metis Un_iff append_take_drop_id set_append)
    from sorted_take_drop [OF srt that(1) this] show ?thesis .
  qed
  ultimately show ?thesis
    unfolding sp using d set set_take_subset [of 100 ?all] sorted_wrt_take [OF srt, of 100] by auto
qed

definition demo_queue :: "nat \<Rightarrow> mem_confs" where
  "demo_queue n = map (\<lambda>i. (replicate i CHR ''c'', demo_conf (replicate i CHR ''c'') ''t'')) [0..<n]"

theorem pending_inbox_bounded_witness:
  "length (cmem_load_pending_inbox (demo_queue 101)) = 100
    \<and> set (cmem_load_pending_inbox (demo_queue 101)) \<noteq> {r \<in> set (dvalues (demo_queue 101)). is_pending r}"
proof -
  have "inj_on (\<lambda>i. replicate i CHR ''c'') A" for A by (metis inj_onI length_replicate)
  then have "conf_keyed (demo_queue 101)"
    by (simp add: conf_keyed_def dict_ok_def demo_queue_def demo_conf_def list_all_iff distinct_map o_def)
  moreover have "length (filter is_pending (dvalues (demo_queue 101))) = 101"
    by (simp add: demo_queue_def dvalues_def filter_map o_def demo_conf_def is_pending_def)
  ultimately show ?thesis using pending_inbox_bounded [of "demo_queue 101"] by simp
qed

end
