(* ===== verification/Confirmations.thy ===== *)
theory Confirmations
  imports Execution_Protocol
begin

text \<open>
  The human decision on a parked batch of tool calls: the per-process registry of parked
  confirmations (\<open>agent_service/services/hitl_confirmations.py\<close>) and the fields of a card that are
  signed after an approval. Arguments: fresh UUIDs, the monotonic clock in microseconds and
  \<open>json.loads\<close>. The display fields of a card (hints, change requests, masking) are not signed and
  not modelled.
\<close>

section \<open>Parked batches\<close>

record tool_call =
  tc_name :: string
  tc_id :: string
  tc_input :: string

record pending_conf =
  pc_confirm :: string
  pc_session :: string
  pc_user :: string
  pc_reply :: string
  pc_calls :: "tool_call list"
  pc_risk :: "(string, string) dict"
  pc_names :: "(string, string) dict"
  pc_flow :: json_obj
  pc_kind :: "string option"
  pc_run :: "string option"
  pc_created :: int
  pc_resolved :: bool
  pc_claimed :: bool

definition RISK_LEVEL_ACTIONS :: "(string, string) dict" where
  "RISK_LEVEL_ACTIONS = [(''read'', ''tools:invoke''), (''write'', ''tools:mutate''), (''admin'', ''tools:mutate'')]"

definition pending_expired :: "int \<Rightarrow> int \<Rightarrow> pending_conf \<Rightarrow> bool" where
  "pending_expired timeout now p \<longleftrightarrow> 0 < timeout \<and> timeout < now - pc_created p"

definition parse_parameters :: "(string \<Rightarrow> val option) \<Rightarrow> tool_call \<Rightarrow> json_obj" where
  "parse_parameters loads tc =
     (if tc_input tc = [] then []
      else (case Option.bind (loads (tc_input tc)) as_dict of None \<Rightarrow> [] | Some d \<Rightarrow> d))"

text \<open>The fields of \<open>pending_calls_payload\<close> that are signed.\<close>

record call_entry =
  ce_call :: string
  ce_tool :: string
  ce_parameters :: json_obj
  ce_risk :: "string option"
  ce_action :: "string option"

definition call_entry_of :: "(string \<Rightarrow> val option) \<Rightarrow> pending_conf \<Rightarrow> tool_call \<Rightarrow> call_entry" where
  "call_entry_of loads p tc =
     (let risk = (case dget (pc_risk p) (tc_name tc) of Some r \<Rightarrow> if r = [] then None else Some r | None \<Rightarrow> None) in
      \<lparr>ce_call = tc_id tc,
       ce_tool = (case dget (pc_names p) (tc_name tc) of None \<Rightarrow> tc_name tc | Some n \<Rightarrow> n),
       ce_parameters = parse_parameters loads tc, ce_risk = risk,
       ce_action = Option.bind risk (dget RISK_LEVEL_ACTIONS)\<rparr>)"

definition pending_calls_payload :: "(string \<Rightarrow> val option) \<Rightarrow> pending_conf \<Rightarrow> call_entry list" where
  "pending_calls_payload loads p = map (call_entry_of loads p) (pc_calls p)"

definition highest_action :: "pending_conf \<Rightarrow> string option" where
  "highest_action p =
     (let actions = List.map_filter (dget RISK_LEVEL_ACTIONS) (dvalues (pc_risk p)) in
      if ''tools:mutate'' \<in> set actions then Some ''tools:mutate''
      else if ''tools:invoke'' \<in> set actions then Some ''tools:invoke''
      else None)"

definition tool_names :: "pending_conf \<Rightarrow> string list" where
  "tool_names p = map tc_name (pc_calls p)"

definition flow_summary :: "pending_conf \<Rightarrow> json_obj option" where
  "flow_summary p = (if pc_flow p = [] then None else Some (pc_flow p))"

section \<open>Registry\<close>

type_synonym registry = "(string, pending_conf) dict"

datatype conf_exc = ConfirmationNotFound | ConfirmationExpired

definition reg_register :: "pending_conf \<Rightarrow> registry \<Rightarrow> registry" where
  "reg_register p reg = dset (pc_session p) (p\<lparr>pc_resolved := False, pc_claimed := False\<rparr>) reg"

text \<open>The entry a confirmation id names, if it is neither claimed nor resolved.\<close>

definition reg_open :: "string \<Rightarrow> string \<Rightarrow> registry \<Rightarrow> pending_conf option" where
  "reg_open session cid reg =
     (case dget reg session of
        None \<Rightarrow> None
      | Some p \<Rightarrow> if pc_confirm p \<noteq> cid \<or> pc_resolved p \<or> pc_claimed p then None else Some p)"

definition reg_get :: "int \<Rightarrow> string \<Rightarrow> string \<Rightarrow> int \<Rightarrow> registry \<Rightarrow> conf_exc + pending_conf" where
  "reg_get now session cid timeout reg =
     (case reg_open session cid reg of
        None \<Rightarrow> Inl ConfirmationNotFound
      | Some p \<Rightarrow> if pending_expired timeout now p then Inl ConfirmationExpired else Inr p)"

definition reg_claim :: "int \<Rightarrow> string \<Rightarrow> string \<Rightarrow> int \<Rightarrow> registry \<Rightarrow> (conf_exc + pending_conf) \<times> registry" where
  "reg_claim now session cid timeout reg =
     (case reg_get now session cid timeout reg of
        Inl e \<Rightarrow> (Inl e, reg)
      | Inr p \<Rightarrow> (let p' = p\<lparr>pc_claimed := True\<rparr> in (Inr p', dset session p' reg)))"

definition reg_take_for_expiry :: "string \<Rightarrow> string \<Rightarrow> registry \<Rightarrow> (conf_exc + pending_conf) \<times> registry" where
  "reg_take_for_expiry session cid reg =
     (case reg_open session cid reg of
        None \<Rightarrow> (Inl ConfirmationNotFound, reg)
      | Some p \<Rightarrow> (let p' = p\<lparr>pc_claimed := True\<rparr> in (Inr p', dset session p' reg)))"

definition reg_peek_parked :: "string \<Rightarrow> registry \<Rightarrow> pending_conf option" where
  "reg_peek_parked session reg =
     (case dget reg session of None \<Rightarrow> None | Some p \<Rightarrow> if pc_resolved p then None else Some p)"

definition reg_resolve :: "string \<Rightarrow> string \<Rightarrow> registry \<Rightarrow> registry" where
  "reg_resolve session cid reg =
     (case dget reg session of
        None \<Rightarrow> reg
      | Some p \<Rightarrow> if pc_confirm p = cid then dpop session reg else reg)"

definition reg_has_pending :: "string \<Rightarrow> registry \<Rightarrow> bool" where
  "reg_has_pending session reg = (case dget reg session of None \<Rightarrow> False | Some p \<Rightarrow> \<not> pc_resolved p)"

datatype reg_op =
    RRegister pending_conf
  | RClaim int string string int
  | RExpire string string
  | RResolve string string

definition reg_step :: "reg_op \<Rightarrow> registry \<Rightarrow> registry" where
  "reg_step op reg =
     (case op of
        RRegister p \<Rightarrow> reg_register p reg
      | RClaim now session cid timeout \<Rightarrow> snd (reg_claim now session cid timeout reg)
      | RExpire session cid \<Rightarrow> snd (reg_take_for_expiry session cid reg)
      | RResolve session cid \<Rightarrow> reg_resolve session cid reg)"

text \<open>The confirmation whose batch a step hands out for resumption or closure.\<close>

definition taken :: "reg_op \<Rightarrow> registry \<Rightarrow> string option" where
  "taken op reg =
     (case op of
        RClaim now session cid timeout \<Rightarrow>
          (case fst (reg_claim now session cid timeout reg) of Inl _ \<Rightarrow> None | Inr p \<Rightarrow> Some (pc_confirm p))
      | RExpire session cid \<Rightarrow>
          (case fst (reg_take_for_expiry session cid reg) of Inl _ \<Rightarrow> None | Inr p \<Rightarrow> Some (pc_confirm p))
      | _ \<Rightarrow> None)"

fun takes :: "reg_op list \<Rightarrow> registry \<Rightarrow> string list" where
  "takes [] reg = []"
| "takes (op # ops) reg = (case taken op reg of None \<Rightarrow> [] | Some c \<Rightarrow> [c]) @ takes ops (reg_step op reg)"

definition registered :: "reg_op list \<Rightarrow> string list" where
  "registered ops = List.map_filter (\<lambda>op. case op of RRegister p \<Rightarrow> Some (pc_confirm p) | _ \<Rightarrow> None) ops"

definition confirm_ids :: "registry \<Rightarrow> string list" where
  "confirm_ids reg = map pc_confirm (dvalues reg)"

definition available :: "registry \<Rightarrow> string set" where
  "available reg = {pc_confirm p |p. p \<in> set (dvalues reg) \<and> \<not> pc_claimed p \<and> \<not> pc_resolved p}"

section \<open>A parked batch is handed out once\<close>

lemma registered_simps [simp]:
  "registered [] = []"
  "registered (RRegister p # ops) = pc_confirm p # registered ops"
  "registered (RClaim now session cid timeout # ops) = registered ops"
  "registered (RExpire session cid # ops) = registered ops"
  "registered (RResolve session cid # ops) = registered ops"
  by (simp_all add: registered_def map_filter_simps)

lemma reg_open_Some:
  "reg_open session cid reg = Some p \<longleftrightarrow>
     dget reg session = Some p \<and> pc_confirm p = cid \<and> \<not> pc_resolved p \<and> \<not> pc_claimed p"
  by (auto simp: reg_open_def split: option.split_asm if_split_asm option.split)

lemma mset_dset_ids:
  "dget reg session = Some p \<Longrightarrow> pc_confirm p' = pc_confirm p \<Longrightarrow> confirm_ids (dset session p' reg) = confirm_ids reg"
  by (induction reg) (auto simp: confirm_ids_def dvalues_def split: if_splits)

lemma mset_dset_sub: "mset (confirm_ids (dset session p reg)) \<subseteq># mset (pc_confirm p # confirm_ids reg)"
  by (induction reg) (auto simp: confirm_ids_def dvalues_def subset_mset.add_increasing2 add_mset_commute
      intro: mset_subset_eq_mono_add)

lemma set_dset_values: "dict_ok reg \<Longrightarrow> set (dvalues (dset session p reg)) = insert p {q. \<exists>s. s \<noteq> session \<and> (s, q) \<in> set reg}"
  by (force simp: dvalues_def set_dset)

lemma ids_unique:
  assumes "distinct (confirm_ids reg)" and "(s, q) \<in> set reg" and "(s', p) \<in> set reg" and "pc_confirm q = pc_confirm p"
  shows "s = s'"
proof -
  have "distinct (map (\<lambda>e. pc_confirm (snd e)) reg)" using assms(1) by (simp add: confirm_ids_def dvalues_def o_def)
  then have "inj_on (\<lambda>e. pc_confirm (snd e)) (set reg)" by (simp add: distinct_map)
  from inj_onD [OF this, of "(s, q)" "(s', p)"] assms(2-4) show ?thesis by simp
qed

lemma claim_spends:
  assumes "reg_open session cid reg = Some p" and "dict_ok reg" and "distinct (confirm_ids reg)"
    and "reg' = dset session (p\<lparr>pc_claimed := True\<rparr>) reg"
  shows "available reg' \<subseteq> available reg - {cid}" and "cid \<in> available reg" and "confirm_ids reg' = confirm_ids reg"
    and "dict_ok reg'"
proof -
  from assms(1) have p: "dget reg session = Some p" "pc_confirm p = cid" "\<not> pc_resolved p" "\<not> pc_claimed p"
    by (simp_all add: reg_open_Some)
  then have mem: "(session, p) \<in> set reg" by (simp add: dget_in)
  then show "cid \<in> available reg" using p by (force simp: available_def dvalues_def)
  show "confirm_ids reg' = confirm_ids reg" using mset_dset_ids p by (simp add: assms(4))
  show "dict_ok reg'" using assms(2) by (simp add: assms(4))
  show "available reg' \<subseteq> available reg - {cid}"
  proof
    fix c assume "c \<in> available reg'"
    then obtain q s where q: "(s, q) \<in> set reg" "s \<noteq> session" "\<not> pc_claimed q" "\<not> pc_resolved q" "c = pc_confirm q"
      by (auto simp: available_def assms(4) set_dset_values [OF assms(2)])
    then have "c \<noteq> cid" using ids_unique [OF assms(3) q(1) mem] p(2) by auto
    moreover have "c \<in> available reg" using q by (force simp: available_def dvalues_def)
    ultimately show "c \<in> available reg - {cid}" by simp
  qed
qed

lemma available_ids: "available reg \<subseteq> set (confirm_ids reg)"
  by (auto simp: available_def confirm_ids_def)

lemma resolve_removes:
  assumes "reg' = reg_resolve session cid reg" and "dict_ok reg"
  shows "available reg' \<subseteq> available reg" and "mset (confirm_ids reg') \<subseteq># mset (confirm_ids reg)" and "dict_ok reg'"
proof -
  have "reg' = reg \<or> reg' = dpop session reg"
    by (auto simp: assms(1) reg_resolve_def split: option.split)
  moreover have "available (dpop session reg) \<subseteq> available reg"
    by (auto simp: available_def dvalues_def dpop_def)
  moreover have "mset (confirm_ids (dpop session reg)) \<subseteq># mset (confirm_ids reg)"
    by (auto simp: confirm_ids_def dvalues_def dpop_def intro!: image_mset_subseteq_mono)
  ultimately show "available reg' \<subseteq> available reg" and "mset (confirm_ids reg') \<subseteq># mset (confirm_ids reg)" and "dict_ok reg'"
    using assms(2) by auto
qed

lemma register_adds:
  assumes "reg' = reg_register p reg" and "dict_ok reg"
  shows "available reg' \<subseteq> insert (pc_confirm p) (available reg)"
    and "mset (confirm_ids reg') \<subseteq># mset (pc_confirm p # confirm_ids reg)" and "dict_ok reg'"
proof -
  show "mset (confirm_ids reg') \<subseteq># mset (pc_confirm p # confirm_ids reg)"
    using mset_dset_sub [of "pc_session p" "p\<lparr>pc_resolved := False, pc_claimed := False\<rparr>" reg]
    by (simp add: assms(1) reg_register_def)
  show "dict_ok reg'" using assms by (simp add: reg_register_def)
  show "available reg' \<subseteq> insert (pc_confirm p) (available reg)"
  proof
    fix c assume "c \<in> available reg'"
    then obtain q where q: "c = pc_confirm q" "\<not> pc_claimed q" "\<not> pc_resolved q"
      and "q \<in> set (dvalues (dset (pc_session p) (p\<lparr>pc_resolved := False, pc_claimed := False\<rparr>) reg))"
      by (auto simp: available_def assms(1) reg_register_def)
    then have "q = p\<lparr>pc_resolved := False, pc_claimed := False\<rparr> \<or> q \<in> set (dvalues reg)"
      unfolding set_dset_values [OF assms(2)] by (force simp: dvalues_def)
    with q show "c \<in> insert (pc_confirm p) (available reg)" by (auto simp: available_def)
  qed
qed

text \<open>What one step hands out, and what it leaves available.\<close>

lemma reg_step_cases:
  assumes "dict_ok reg" and "distinct (confirm_ids reg)"
  obtains (register) p where "op = RRegister p" and "taken op reg = None" and "reg_step op reg = reg_register p reg"
    | (take) c where "taken op reg = Some c" and "registered [op] = []" and "c \<in> available reg"
        and "available (reg_step op reg) \<subseteq> available reg - {c}" and "confirm_ids (reg_step op reg) = confirm_ids reg"
        and "dict_ok (reg_step op reg)"
    | (other) "taken op reg = None" and "registered [op] = []" and "available (reg_step op reg) \<subseteq> available reg"
        and "mset (confirm_ids (reg_step op reg)) \<subseteq># mset (confirm_ids reg)" and "dict_ok (reg_step op reg)"
proof (cases op)
  case (RRegister p)
  then show ?thesis by (intro register) (simp_all add: taken_def reg_step_def)
next
  case (RResolve session cid)
  with resolve_removes [OF refl assms(1), of session cid] show ?thesis
    by (intro other) (simp_all add: taken_def reg_step_def)
next
  case (RClaim now session cid timeout)
  show ?thesis
  proof (cases "reg_get now session cid timeout reg")
    case (Inl e)
    with RClaim assms(1) show ?thesis by (intro other) (simp_all add: taken_def reg_step_def reg_claim_def)
  next
    case (Inr p)
    then have o: "reg_open session cid reg = Some p" by (simp add: reg_get_def split: option.splits if_splits)
    from claim_spends [OF o assms refl] o RClaim Inr show ?thesis
      by (intro take [of cid]) (simp_all add: taken_def reg_step_def reg_claim_def Let_def reg_open_Some)
  qed
next
  case (RExpire session cid)
  show ?thesis
  proof (cases "reg_open session cid reg")
    case None
    with RExpire assms(1) show ?thesis by (intro other) (simp_all add: taken_def reg_step_def reg_take_for_expiry_def)
  next
    case (Some p)
    then have "pc_confirm p = cid" by (simp add: reg_open_Some)
    with claim_spends [OF Some assms refl] Some RExpire show ?thesis
      by (intro take [of cid]) (simp_all add: taken_def reg_step_def reg_take_for_expiry_def Let_def)
  qed
qed

lemma registered_Cons: "registered (op # ops) = registered [op] @ registered ops"
  by (cases op) simp_all

lemma takes_distinct:
  "dict_ok reg \<Longrightarrow> distinct (confirm_ids reg @ registered ops) \<Longrightarrow>
   distinct (takes ops reg) \<and> set (takes ops reg) \<subseteq> available reg \<union> set (registered ops)"
proof (induction ops arbitrary: reg)
  case Nil
  then show ?case by simp
next
  case (Cons op ops)
  then have d: "distinct (confirm_ids reg)" by simp
  from Cons.prems(1) d show ?case
  proof (cases rule: reg_step_cases [where op = op])
    case (register p)
    note r = register_adds [OF refl Cons.prems(1), of p]
    have "mset (confirm_ids (reg_register p reg) @ registered ops) \<subseteq># mset (confirm_ids reg @ registered (op # ops))"
      using r(2) register(1) by (simp add: subset_mset.add_mono)
    then have "distinct (confirm_ids (reg_register p reg) @ registered ops)"
      using Cons.prems(2) by (rule distinct_mset_sub)
    from Cons.IH [OF r(3) this] register r(1) show ?thesis by auto
  next
    case (take c)
    from take(2) have rc: "registered (op # ops) = registered ops" by (subst registered_Cons) simp
    from Cons.IH [OF take(6)] Cons.prems(2) take
    have ih: "distinct (takes ops (reg_step op reg))"
      "set (takes ops (reg_step op reg)) \<subseteq> available (reg_step op reg) \<union> set (registered ops)"
      by (simp_all add: rc)
    have "c \<notin> set (registered ops)"
      using take(3) available_ids [of reg] Cons.prems(2) by (auto simp: rc)
    with ih take show ?thesis by (auto simp: rc)
  next
    case other
    from other(2) have rc: "registered (op # ops) = registered ops" by (subst registered_Cons) simp
    have "mset (confirm_ids (reg_step op reg) @ registered ops) \<subseteq># mset (confirm_ids reg @ registered (op # ops))"
      using other(2,4) by (simp add: rc subset_mset.add_mono)
    then have "distinct (confirm_ids (reg_step op reg) @ registered ops)"
      using Cons.prems(2) by (rule distinct_mset_sub)
    from Cons.IH [OF other(5) this] other show ?thesis by (auto simp: rc)
  qed
qed

text \<open>
  C37. One decision per parked batch: over every history of parks with fresh confirmation ids,
  decisions, expiries and resolutions, each confirmation is handed out at most once, to a decision
  or to the expiry closure and never to both, and only if it was parked. While it is handed out the
  session stays parked until its resolution, and an expired batch is refused to a decision but
  still reaches its closure.
\<close>

theorem confirmation_handed_out_once:
  assumes "distinct (registered ops)"
  shows "distinct (takes ops []) \<and> set (takes ops []) \<subseteq> set (registered ops)
    \<and> (reg_open session cid reg = Some p \<longrightarrow>
         (pending_expired timeout now p \<longrightarrow>
            reg_claim now session cid timeout reg = (Inl ConfirmationExpired, reg)
            \<and> fst (reg_take_for_expiry session cid reg) = Inr (p\<lparr>pc_claimed := True\<rparr>))
         \<and> (\<not> pending_expired timeout now p \<longrightarrow>
              (\<exists>reg'. reg_claim now session cid timeout reg = (Inr (p\<lparr>pc_claimed := True\<rparr>), reg')
                 \<and> reg_has_pending session reg' \<and> fst (reg_claim now' session cid timeout' reg') = Inl ConfirmationNotFound
                 \<and> fst (reg_take_for_expiry session cid reg') = Inl ConfirmationNotFound
                 \<and> \<not> reg_has_pending session (reg_resolve session cid reg'))))"
proof -
  have "distinct (takes ops []) \<and> set (takes ops []) \<subseteq> available [] \<union> set (registered ops)"
    using takes_distinct [of "[]" ops] assms by (simp add: confirm_ids_def dvalues_def)
  moreover have "available [] = {}" by (simp add: available_def dvalues_def)
  moreover have "fst (reg_take_for_expiry session cid reg) = Inr (p\<lparr>pc_claimed := True\<rparr>)" if "reg_open session cid reg = Some p"
    using that by (simp add: reg_take_for_expiry_def Let_def)
  moreover have "\<exists>reg'. reg_claim now session cid timeout reg = (Inr (p\<lparr>pc_claimed := True\<rparr>), reg')
       \<and> reg_has_pending session reg' \<and> fst (reg_claim now' session cid timeout' reg') = Inl ConfirmationNotFound
       \<and> fst (reg_take_for_expiry session cid reg') = Inl ConfirmationNotFound
       \<and> \<not> reg_has_pending session (reg_resolve session cid reg')"
    if "reg_open session cid reg = Some p" "\<not> pending_expired timeout now p"
  proof -
    let ?reg = "dset session (p\<lparr>pc_claimed := True\<rparr>) reg"
    from that(1) have p: "pc_confirm p = cid" "\<not> pc_resolved p" by (simp_all add: reg_open_Some)
    have "reg_open session cid ?reg = None" by (simp add: reg_open_def)
    with that p show ?thesis
      by (intro exI [of _ ?reg]) (simp add: Let_def reg_claim_def reg_get_def reg_has_pending_def reg_take_for_expiry_def reg_resolve_def)
  qed
  ultimately show ?thesis by (auto simp: reg_claim_def reg_get_def)
qed

definition demo_pending :: pending_conf where
  "demo_pending = \<lparr>pc_confirm = ''c1'', pc_session = ''s1'', pc_user = ''u1'', pc_reply = ''r'',
     pc_calls = [\<lparr>tc_name = ''restart'', tc_id = ''k1'', tc_input = []\<rparr>], pc_risk = [(''restart'', ''write'')],
     pc_names = [], pc_flow = [], pc_kind = Some ''action'', pc_run = Some ''r1'', pc_created = 0, pc_resolved = False,
     pc_claimed = False\<rparr>"

theorem confirmation_handed_out_once_witness:
  "takes [RRegister demo_pending, RClaim 1 ''s1'' ''c1'' 600, RExpire ''s1'' ''c1'', RClaim 2 ''s1'' ''c1'' 600] [] = [''c1'']
   \<and> distinct (takes [RRegister demo_pending, RClaim 1 ''s1'' ''c1'' 600, RExpire ''s1'' ''c1'', RClaim 2 ''s1'' ''c1'' 600] [])"
proof
  show "takes [RRegister demo_pending, RClaim 1 ''s1'' ''c1'' 600, RExpire ''s1'' ''c1'', RClaim 2 ''s1'' ''c1'' 600] [] = [''c1'']"
    by (simp add: taken_def reg_step_def reg_register_def reg_claim_def reg_get_def reg_open_def reg_take_for_expiry_def
        Let_def pending_expired_def demo_pending_def)
  show "distinct (takes [RRegister demo_pending, RClaim 1 ''s1'' ''c1'' 600, RExpire ''s1'' ''c1'', RClaim 2 ''s1'' ''c1'' 600] [])"
    using confirmation_handed_out_once
      [of "[RRegister demo_pending, RClaim 1 ''s1'' ''c1'' 600, RExpire ''s1'' ''c1'', RClaim 2 ''s1'' ''c1'' 600]"]
    by simp
qed

end
