(* ===== verification/Request_Signing.thy ===== *)
theory Request_Signing
  imports Confirmations
begin

text \<open>
  The signed execution requests an approval turns into (\<open>execution_signing.py\<close> and
  \<open>delegated_identity.py\<close> of the agent platform), for a card approval (\<open>build_requests\<close>) and for a
  write under a flow authority (\<open>build_flow_request\<close>), and their acceptance by the worker's
  \<open>validate_request\<close>. Arguments: fresh UUIDs, the wall clock in microseconds, \<open>json.loads\<close>,
  \<open>uuid.UUID\<close> and the second-granular ISO format of \<open>strftime\<close>.
\<close>

section \<open>Identities and the execution window\<close>

record verified_human =
  vh_namespace :: string
  vh_subject :: string
  vh_user :: string
  vh_actor :: string
  vh_expires :: int

record sign_env =
  sn_proto :: proto_env
  sn_utc :: "int \<Rightarrow> string"
  sn_uuid :: "string \<Rightarrow> string option"
  sn_loads :: "string \<Rightarrow> val option"

datatype sign_error = DelegatedIdentityError | WindowError

definition vh_live :: "int \<Rightarrow> verified_human \<Rightarrow> sign_error + unit" where
  "vh_live now h = require (\<not> seconds (vh_expires h) \<le> now) DelegatedIdentityError"

definition signed_identity_fields ::
  "int \<Rightarrow> verified_human option \<Rightarrow> verified_human option \<Rightarrow> string \<Rightarrow> string \<Rightarrow> sign_error + json_obj" where
  "signed_identity_fields now requester decider owner decider_user =
     (case (requester, decider) of
        (None, None) \<Rightarrow> Inr []
      | (Some r, Some d) \<Rightarrow>
          if vh_user r \<noteq> owner \<or> vh_user d \<noteq> decider_user then Inl DelegatedIdentityError
          else rbind (vh_live now r) (\<lambda>_. rbind (vh_live now d) (\<lambda>_.
               Inr [(''requester_namespace'', VStr (vh_namespace r)), (''requester_sub'', VStr (vh_subject r)),
                    (''decider_namespace'', VStr (vh_namespace d)), (''decider_sub'', VStr (vh_subject d))]))
      | _ \<Rightarrow> Inl DelegatedIdentityError)"

definition falsy :: "string option \<Rightarrow> bool" where
  "falsy s = (case s of None \<Rightarrow> True | Some t \<Rightarrow> t = [])"

definition execution_window ::
  "sign_env \<Rightarrow> string \<Rightarrow> string option \<Rightarrow> string option \<Rightarrow> int \<Rightarrow> sign_error + json_obj" where
  "execution_window env requested_at run_id epoch lifetime =
     (if falsy run_id \<or> falsy epoch \<or> \<not> (0 < lifetime \<and> lifetime \<le> 900) then Inl WindowError
      else (case (fromisoformat (sn_proto env) (replace_Z requested_at), Option.bind run_id (sn_uuid env),
                  Option.bind epoch (sn_uuid env)) of
              (Some t, Some r, Some e) \<Rightarrow>
                Inr [(''protocol_version'', VInt 3), (''run_id'', VStr r), (''admission_epoch'', VStr e),
                     (''expires_at'', VStr (isoformat (sn_proto env) (t + seconds lifetime)))]
            | _ \<Rightarrow> Inl WindowError))"

text \<open>\<open>d.update(...)\<close> and \<open>{**a, ...}\<close>.\<close>

definition dupdate :: "json_obj \<Rightarrow> json_obj \<Rightarrow> json_obj" where
  "dupdate d fs = fold (\<lambda>(k, v). dset k v) fs d"

text \<open>
  The window is added only when a run or an epoch is given: \<open>None\<close> for both leaves a version-2
  request.
\<close>

definition with_window ::
  "sign_env \<Rightarrow> string \<Rightarrow> string option \<Rightarrow> string option \<Rightarrow> int \<Rightarrow> json_obj \<Rightarrow> sign_error + json_obj" where
  "with_window env requested_at run_id epoch lifetime envelope =
     (if run_id = None \<and> epoch = None then Inr envelope
      else rbind (execution_window env requested_at run_id epoch lifetime) (\<lambda>w. Inr (dupdate envelope w)))"

definition add_signature :: "sign_env \<Rightarrow> string \<Rightarrow> json_obj \<Rightarrow> json_obj" where
  "add_signature env key envelope =
     dset ''signature'' (VStr (sign_envelope (cr (sn_proto env)) envelope key)) envelope"

text \<open>The identities need a run and an epoch.\<close>

definition checked_identities ::
  "int \<Rightarrow> verified_human option \<Rightarrow> verified_human option \<Rightarrow> string \<Rightarrow> string \<Rightarrow> string option \<Rightarrow> string option \<Rightarrow>
   sign_error + json_obj" where
  "checked_identities now requester decider owner decider_user run_id epoch =
     rbind (signed_identity_fields now requester decider owner decider_user) (\<lambda>ids.
     if ids \<noteq> [] \<and> (falsy run_id \<or> falsy epoch) then Inl DelegatedIdentityError else Inr ids)"

section \<open>Card approvals\<close>

definition request_fields ::
  "sign_env \<Rightarrow> pending_conf \<Rightarrow> string \<Rightarrow> string \<Rightarrow> int \<Rightarrow> call_entry \<Rightarrow> json_obj" where
  "request_fields env p decider_user execution now call =
     [(''execution_id'', VStr execution), (''confirm_id'', VStr (pc_confirm p)), (''call_id'', VStr (ce_call call)),
      (''session_id'', VStr (pc_session p)), (''owner_user_id'', VStr (pc_user p)),
      (''decider_user_id'', VStr decider_user), (''approval_kind'', VStr ''action''), (''tool_name'', VStr (ce_tool call)),
      (''args_digest'', VStr (canonical_digest (cr (sn_proto env)) (VDict (ce_parameters call)))),
      (''requested_at'', VStr (sn_utc env now))]"

text \<open>The loop over the parked calls, with one fresh id and one clock reading per call.\<close>

fun sign_calls ::
  "sign_env \<Rightarrow> pending_conf \<Rightarrow> string \<Rightarrow> string \<Rightarrow> string option \<Rightarrow> string option \<Rightarrow> int \<Rightarrow> json_obj \<Rightarrow>
   (call_entry \<times> string \<times> int) list \<Rightarrow> sign_error + json_obj list" where
  "sign_calls env p decider_user key run_id epoch lifetime ids [] = Inr []"
| "sign_calls env p decider_user key run_id epoch lifetime ids ((call, execution, now) # rest) =
     rbind (with_window env (sn_utc env now) run_id epoch lifetime (request_fields env p decider_user execution now call)) (\<lambda>envelope.
     rbind (sign_calls env p decider_user key run_id epoch lifetime ids rest) (\<lambda>more.
     Inr (add_signature env key (dupdate envelope ids) # more)))"

definition build_requests ::
  "sign_env \<Rightarrow> pending_conf \<Rightarrow> string \<Rightarrow> string \<Rightarrow> string option \<Rightarrow> string option \<Rightarrow> int \<Rightarrow> verified_human option \<Rightarrow>
   verified_human option \<Rightarrow> int \<Rightarrow> (string \<times> int) list \<Rightarrow> sign_error + json_obj list" where
  "build_requests env p decider_user key run_id epoch lifetime requester decider now fresh =
     rbind (checked_identities now requester decider (pc_user p) decider_user run_id epoch) (\<lambda>ids.
     sign_calls env p decider_user key run_id epoch lifetime ids (zip (pending_calls_payload (sn_loads env) p) fresh))"

section \<open>Flow approvals\<close>

record flow_approval =
  fa_session :: string
  fa_confirm :: string
  fa_owner :: string
  fa_decider :: string
  fa_skill :: string
  fa_origin :: string
  fa_ttl :: int
  fa_at :: int
  fa_run :: "string option"

definition flow_fields ::
  "sign_env \<Rightarrow> flow_approval \<Rightarrow> string \<Rightarrow> string \<Rightarrow> json_obj \<Rightarrow> string \<Rightarrow> int \<Rightarrow> json_obj" where
  "flow_fields env fa call_id tool parameters execution now =
     [(''execution_id'', VStr execution), (''confirm_id'', VStr (fa_confirm fa)), (''call_id'', VStr call_id),
      (''session_id'', VStr (fa_session fa)), (''owner_user_id'', VStr (fa_owner fa)),
      (''decider_user_id'', VStr (fa_decider fa)), (''approval_kind'', VStr ''flow''), (''tool_name'', VStr tool),
      (''args_digest'', VStr (canonical_digest (cr (sn_proto env)) (VDict parameters))),
      (''requested_at'', VStr (sn_utc env now))]"

definition build_flow_request ::
  "sign_env \<Rightarrow> string \<Rightarrow> string \<Rightarrow> json_obj \<Rightarrow> flow_approval \<Rightarrow> string \<Rightarrow> string option \<Rightarrow> string option \<Rightarrow> int \<Rightarrow>
   verified_human option \<Rightarrow> verified_human option \<Rightarrow> string \<Rightarrow> int \<Rightarrow> sign_error + json_obj" where
  "build_flow_request env call_id tool parameters fa key run_id epoch lifetime requester decider execution now =
     rbind (checked_identities now requester decider (fa_owner fa) (fa_decider fa) run_id epoch) (\<lambda>ids.
     rbind (with_window env (sn_utc env now) run_id epoch lifetime
             (dupdate ids (flow_fields env fa call_id tool parameters execution now))) (\<lambda>envelope.
     Inr (add_signature env key envelope)))"

section \<open>What the signed requests carry\<close>

lemma dget_dupdate_notin: "k \<notin> fst ` set fs \<Longrightarrow> dget (dupdate d fs) k = dget d k"
  by (simp add: dupdate_def dget_fold_dset)

lemma dget_append: "dget (xs @ ys) k = (case dget xs k of None \<Rightarrow> dget ys k | Some v \<Rightarrow> Some v)"
  by (induction xs) auto

lemma dget_dupdate: "dget (dupdate d fs) k = (case dget (rev fs) k of None \<Rightarrow> dget d k | Some v \<Rightarrow> Some v)"
proof (induction fs arbitrary: d)
  case Nil
  then show ?case by (simp add: dupdate_def)
next
  case (Cons f fs)
  obtain a b where f: "f = (a, b)" by (cases f)
  have "dupdate d (f # fs) = dupdate (dset a b d) fs" by (simp add: dupdate_def f)
  with Cons f show ?case by (simp add: dget_append split: option.splits)
qed

text \<open>Printing a time and reading it back, as \<open>isoformat\<close> and \<open>fromisoformat\<close> do.\<close>

definition iso_roundtrip :: "proto_env \<Rightarrow> bool" where
  "iso_roundtrip env \<longleftrightarrow> (\<forall>t. fromisoformat env (replace_Z (isoformat env t)) = Some t)"

text \<open>A windowed, signed request, whatever its other fields: what \<open>validate_request\<close> reads of it.\<close>

lemma windowed_request_valid:
  assumes win: "with_window env (sn_utc env now) (Some run) (Some epoch) lifetime base = Inr e1"
    and e: "e = add_signature env key (dupdate e1 ids)"
    and ids: "fst ` set ids \<inter> {''protocol_version'', ''expires_at'', ''requested_at''} = {}"
    and req: "dget base ''requested_at'' = Some (VStr (sn_utc env now))"
    and key: "key \<noteq> []" and iso: "iso_roundtrip (sn_proto env)"
    and ok: "schema_ok (sn_proto env) ''execution-request'' (VDict e)" "length (canonical_json (VDict e)) \<le> 8192"
  shows "validate_request (sn_proto env) (VDict e) key = Inr e"
proof -
  from win obtain t r u where t: "fromisoformat (sn_proto env) (replace_Z (sn_utc env now)) = Some t"
    and life: "0 < lifetime" "lifetime \<le> 900"
    and e1: "e1 = dupdate base [(''protocol_version'', VInt 3), (''run_id'', VStr r), (''admission_epoch'', VStr u),
      (''expires_at'', VStr (isoformat (sn_proto env) (t + seconds lifetime)))]"
    by (auto simp: with_window_def execution_window_def simp del: rbind_Inr_iff elim!: rbindE
        split: if_split_asm option.split_asm prod.split_asm)
  have g1: "dget e1 ''protocol_version'' = Some (VInt 3)" "dget e1 ''requested_at'' = Some (VStr (sn_utc env now))"
    "dget e1 ''expires_at'' = Some (VStr (isoformat (sn_proto env) (t + seconds lifetime)))"
    using req by (simp_all add: e1 dget_dupdate)
  have other: "dget e k = dget e1 k" if "k \<in> {''protocol_version'', ''expires_at'', ''requested_at''}" for k
  proof -
    have "k \<notin> fst ` set ids" using that ids by blast
    moreover have "k \<noteq> ''signature''" using that by auto
    ultimately show ?thesis by (simp add: e add_signature_def dget_dupdate_notin)
  qed
  have sg: "dget e ''signature'' = Some (VStr (sign_envelope (cr (sn_proto env)) e key))"
    by (simp add: e add_signature_def)
  have ts: "timestamp (sn_proto env) (VStr (sn_utc env now)) = Inr t"
    "timestamp (sn_proto env) (VStr (isoformat (sn_proto env) (t + seconds lifetime))) = Inr (t + seconds lifetime)"
    using t iso by (simp_all add: timestamp_def iso_roundtrip_def)
  have "seconds lifetime \<le> seconds 900" "0 < seconds lifetime" using life by (simp_all add: seconds_def)
  with g1 other sg ts key ok show ?thesis
    by (simp add: validate_request_def get_none_def validate_metadata_def validate_def METADATA_LIMIT_def fld_def str_fld_def
        verify_envelope_def MAX_LIFETIME_SECONDS_def del: canonical_json.simps)
qed

definition IDENTITY_KEYS :: "string list" where
  "IDENTITY_KEYS = [''requester_namespace'', ''requester_sub'', ''decider_namespace'', ''decider_sub'']"

lemma checked_identities_keys:
  "checked_identities now requester decider owner decider_user run_id epoch = Inr ids \<Longrightarrow> fst ` set ids \<subseteq> set IDENTITY_KEYS"
  by (auto simp: checked_identities_def signed_identity_fields_def IDENTITY_KEYS_def simp del: rbind_Inr_iff elim!: rbindE
      split: option.split_asm if_split_asm)

definition WINDOW_KEYS :: "string list" where
  "WINDOW_KEYS = [''protocol_version'', ''run_id'', ''admission_epoch'', ''expires_at'']"

lemma with_window_keeps:
  assumes "with_window env at run_id epoch lifetime base = Inr e1" and "k \<notin> set WINDOW_KEYS"
  shows "dget e1 k = dget base k"
proof -
  from assms(1) consider "e1 = base" | w where "execution_window env at run_id epoch lifetime = Inr w" "e1 = dupdate base w"
    by (auto simp: with_window_def simp del: rbind_Inr_iff elim!: rbindE split: if_split_asm)
  then show ?thesis
  proof cases
    case (2 w)
    then have "fst ` set w \<subseteq> set WINDOW_KEYS"
      by (auto simp: execution_window_def WINDOW_KEYS_def split: if_split_asm option.split_asm prod.split_asm)
    with assms(2) have "k \<notin> fst ` set w" by blast
    with 2 show ?thesis by (simp add: dget_dupdate_notin)
  qed simp
qed

lemma signed_keeps:
  assumes "with_window env at run_id epoch lifetime base = Inr e1" and "fst ` set ids \<subseteq> set IDENTITY_KEYS"
    and "k \<notin> set (''signature'' # IDENTITY_KEYS @ WINDOW_KEYS)"
  shows "dget (add_signature env key (dupdate e1 ids)) k = dget base k"
proof -
  from assms(2,3) have "k \<notin> fst ` set ids" by auto
  with assms(3) with_window_keeps [OF assms(1)] show ?thesis by (simp add: add_signature_def dget_dupdate_notin)
qed

lemma sign_calls_nth:
  assumes "sign_calls env p du key run_id epoch lifetime ids items = Inr es"
  shows "length es = length items
    \<and> (i < length items \<longrightarrow> items ! i = (call, execution, at) \<longrightarrow>
      (\<exists>e1. with_window env (sn_utc env at) run_id epoch lifetime (request_fields env p du execution at call) = Inr e1
         \<and> es ! i = add_signature env key (dupdate e1 ids)))"
  using assms
proof (induction items arbitrary: es i)
  case Nil
  then show ?case by simp
next
  case (Cons item items)
  obtain c x n where item: "item = (c, x, n)" by (cases item)
  from Cons.prems obtain e1 more where w: "with_window env (sn_utc env n) run_id epoch lifetime (request_fields env p du x n c) = Inr e1"
    and more: "sign_calls env p du key run_id epoch lifetime ids items = Inr more"
    and es: "es = add_signature env key (dupdate e1 ids) # more"
    by (auto simp: item)
  from Cons.IH [OF more, of "i - 1"] w es item show ?case by (cases i) auto
qed

lemma request_fields_no_identity:
  assumes "k \<in> set IDENTITY_KEYS"
  shows "dget (request_fields env p decider_user execution now call) k = None"
proof -
  from assms consider "k = ''requester_namespace''" | "k = ''requester_sub''" | "k = ''decider_namespace''" | "k = ''decider_sub''"
    by (auto simp: IDENTITY_KEYS_def)
  then show ?thesis by cases (simp_all add: request_fields_def)
qed

text \<open>
  One request of an approved card: it validates, and every field but the signature, the identities and
  the window is the one of \<open>request_fields\<close>; without identities it has no identity field.
\<close>

lemma approved_request_fields:
  assumes "build_requests env p decider_user key (Some run) (Some epoch) lifetime requester decider now fresh = Inr es"
    and "length fresh = length (pc_calls p)"
    and base: "base = (\<lambda>i. request_fields env p decider_user (fst (fresh ! i)) (snd (fresh ! i))
        (call_entry_of (sn_loads env) p (pc_calls p ! i)))"
  shows "length es = length (pc_calls p)"
    and "i < length es \<Longrightarrow> \<exists>e1 ids. with_window env (sn_utc env (snd (fresh ! i))) (Some run) (Some epoch) lifetime (base i) = Inr e1
      \<and> fst ` set ids \<subseteq> set IDENTITY_KEYS \<and> es ! i = add_signature env key (dupdate e1 ids)"
    and "i < length es \<Longrightarrow> k \<notin> set (''signature'' # IDENTITY_KEYS @ WINDOW_KEYS) \<Longrightarrow> dget (es ! i) k = dget (base i) k"
    and "i < length es \<Longrightarrow> requester = None \<Longrightarrow> k \<in> set IDENTITY_KEYS \<Longrightarrow> dget (es ! i) k = None"
proof -
  let ?items = "zip (pending_calls_payload (sn_loads env) p) fresh"
  from assms(1) obtain ids where c: "checked_identities now requester decider (pc_user p) decider_user (Some run) (Some epoch) = Inr ids"
    and s: "sign_calls env p decider_user key (Some run) (Some epoch) lifetime ids ?items = Inr es"
    by (auto simp: build_requests_def simp del: rbind_Inr_iff elim!: rbindE)
  note ik = checked_identities_keys [OF c]
  show len: "length es = length (pc_calls p)"
    using sign_calls_nth [OF s] assms(2) by (simp add: pending_calls_payload_def)
  have "\<exists>e1. with_window env (sn_utc env (snd (fresh ! i))) (Some run) (Some epoch) lifetime (base i) = Inr e1
      \<and> es ! i = add_signature env key (dupdate e1 ids)" if i: "i < length es" for i
  proof -
    have "?items ! i = (call_entry_of (sn_loads env) p (pc_calls p ! i), fst (fresh ! i), snd (fresh ! i))"
      using i len assms(2) by (simp add: pending_calls_payload_def)
    moreover have "i < length ?items" using i sign_calls_nth [OF s] by simp
    ultimately show ?thesis using sign_calls_nth [OF s, of i] base by blast
  qed
  note nth = this
  show "\<exists>e1 ids. with_window env (sn_utc env (snd (fresh ! i))) (Some run) (Some epoch) lifetime (base i) = Inr e1
      \<and> fst ` set ids \<subseteq> set IDENTITY_KEYS \<and> es ! i = add_signature env key (dupdate e1 ids)" if "i < length es"
    using nth [OF that] ik by blast
  show "dget (es ! i) k = dget (base i) k" if "i < length es" "k \<notin> set (''signature'' # IDENTITY_KEYS @ WINDOW_KEYS)"
    using nth [OF that(1)] signed_keeps [OF _ ik that(2)] by metis
  show "dget (es ! i) k = None" if "i < length es" "requester = None" "k \<in> set IDENTITY_KEYS"
  proof -
    have "ids = []" using c that(2)
      by (auto simp: checked_identities_def signed_identity_fields_def simp del: rbind_Inr_iff elim!: rbindE
          split: option.split_asm if_split_asm)
    with nth [OF that(1)] obtain e1 where e1: "with_window env (sn_utc env (snd (fresh ! i))) (Some run) (Some epoch) lifetime (base i) = Inr e1"
      "es ! i = add_signature env key e1" by (auto simp: dupdate_def)
    have k: "k \<noteq> ''signature''" "k \<notin> set WINDOW_KEYS" using that(3) by (auto simp: IDENTITY_KEYS_def WINDOW_KEYS_def)
    with with_window_keeps [OF e1(1)] have "dget (es ! i) k = dget (base i) k" by (simp add: e1(2) add_signature_def)
    also have "\<dots> = None" unfolding base by (rule request_fields_no_identity [OF that(3)])
    finally show ?thesis .
  qed
qed

lemma approved_request_valid:
  assumes "build_requests env p decider_user key (Some run) (Some epoch) lifetime requester decider now fresh = Inr es"
    and "iso_roundtrip (sn_proto env)" and "key \<noteq> []" and "length fresh = length (pc_calls p)"
    and "i < length es"
    and "schema_ok (sn_proto env) ''execution-request'' (VDict (es ! i))" and "length (canonical_json (VDict (es ! i))) \<le> 8192"
  shows "validate_request (sn_proto env) (VDict (es ! i)) key = Inr (es ! i)"
proof -
  from approved_request_fields(2) [OF assms(1,4) refl assms(5)] obtain e1 ids
    where w: "with_window env (sn_utc env (snd (fresh ! i))) (Some run) (Some epoch) lifetime
        (request_fields env p decider_user (fst (fresh ! i)) (snd (fresh ! i)) (call_entry_of (sn_loads env) p (pc_calls p ! i))) = Inr e1"
      and ik: "fst ` set ids \<subseteq> set IDENTITY_KEYS" and e: "es ! i = add_signature env key (dupdate e1 ids)" by blast
  with ik assms(6,7) show ?thesis
    by (intro windowed_request_valid [OF w e _ _ assms(3,2)]) (auto simp: IDENTITY_KEYS_def request_fields_def)
qed

text \<open>
  What the agent signs for an approved card, the worker accepts: with a run and an epoch,
  \<open>build_requests\<close> yields one request per parked call, in order; each passes the worker's
  \<open>validate_request\<close> under the same key (provided it satisfies the request schema and the size
  limit), and carries the card's confirmation, session and owner, the decider, the kind
  \<open>action\<close>, its fresh execution id, and the digest of exactly the arguments parked with that call.
\<close>

theorem approved_requests_accepted:
  assumes "build_requests env p decider_user key (Some run) (Some epoch) lifetime requester decider now fresh = Inr es"
    and "iso_roundtrip (sn_proto env)" and "key \<noteq> []" and "length fresh = length (pc_calls p)"
    and "list_all (\<lambda>e. schema_ok (sn_proto env) ''execution-request'' (VDict e) \<and> length (canonical_json (VDict e)) \<le> 8192) es"
  shows "length es = length (pc_calls p)
    \<and> (i < length es \<longrightarrow>
         validate_request (sn_proto env) (VDict (es ! i)) key = Inr (es ! i)
         \<and> dget (es ! i) ''execution_id'' = Some (VStr (fst (fresh ! i)))
         \<and> dget (es ! i) ''confirm_id'' = Some (VStr (pc_confirm p)) \<and> dget (es ! i) ''session_id'' = Some (VStr (pc_session p))
         \<and> dget (es ! i) ''owner_user_id'' = Some (VStr (pc_user p)) \<and> dget (es ! i) ''decider_user_id'' = Some (VStr decider_user)
         \<and> dget (es ! i) ''approval_kind'' = Some (VStr ''action'') \<and> dget (es ! i) ''call_id'' = Some (VStr (tc_id (pc_calls p ! i)))
         \<and> dget (es ! i) ''args_digest''
             = Some (VStr (canonical_digest (cr (sn_proto env)) (VDict (parse_parameters (sn_loads env) (pc_calls p ! i))))))"
  using approved_request_fields [OF assms(1,4) refl] approved_request_valid [OF assms(1-4), of i] assms(5)
  by (simp add: list_all_length IDENTITY_KEYS_def WINDOW_KEYS_def request_fields_def call_entry_of_def Let_def)

section \<open>A concrete card\<close>

definition demo_iso :: "int \<Rightarrow> string" where
  "demo_iso t = (if t < 0 then CHR ''n'' # nat_digits (nat (- t)) else CHR ''p'' # nat_digits (nat t))"

definition demo_parse :: "string \<Rightarrow> int option" where
  "demo_parse s = (case s of [] \<Rightarrow> None
     | c # cs \<Rightarrow> map_option (\<lambda>k. if c = CHR ''n'' then - k else k) (digits_value False 0 cs))"

definition demo_sign :: sign_env where
  "demo_sign = \<lparr>sn_proto = \<lparr>cr = \<lparr>sha256 = (\<lambda>_. ''d''), hmac256 = (\<lambda>_ _. ''s'')\<rparr>, schema_ok = (\<lambda>_ _. True),
       fromisoformat = demo_parse, isoformat = demo_iso\<rparr>,
     sn_utc = (\<lambda>_. ''p0''), sn_uuid = Some, sn_loads = (\<lambda>_. None)\<rparr>"

definition demo_signed :: json_obj where
  "demo_signed =
     [(''execution_id'', VStr ''e1''), (''confirm_id'', VStr ''c1''), (''call_id'', VStr ''k1''), (''session_id'', VStr ''s1''),
      (''owner_user_id'', VStr ''u1''), (''decider_user_id'', VStr ''u2''), (''approval_kind'', VStr ''action''),
      (''tool_name'', VStr ''restart''), (''args_digest'', VStr ''d''), (''requested_at'', VStr ''p0''),
      (''protocol_version'', VInt 3), (''run_id'', VStr ''r1''), (''admission_epoch'', VStr ''ep''),
      (''expires_at'', VStr ''p900000000''), (''signature'', VStr ''s'')]"

lemma replace_Z_digits: "replace_Z (c # nat_digits n) = (if c = CHR ''Z'' then ''+00:00'' else [c]) @ nat_digits n"
proof -
  have "concat (map (\<lambda>c. if c = CHR ''Z'' then ''+00:00'' else [c]) ds) = ds" if "\<forall>c\<in>set ds. is_digit c" for ds
    using that by (induction ds) (auto simp: is_digit_def less_eq_char_def)
  with nat_digits_digits show ?thesis by (simp add: replace_Z_def)
qed

lemma demo_iso_roundtrip: "iso_roundtrip (sn_proto demo_sign)"
  by (simp add: iso_roundtrip_def demo_sign_def demo_iso_def demo_parse_def replace_Z_digits digits_value_nat_digits)

lemma demo_iso_900: "demo_iso 900000000 = ''p900000000''"
proof -
  have "char_of (57 :: nat) = CHR ''9''" "char_of (48 :: nat) = CHR ''0''" by code_simp+
  then show ?thesis by (simp add: demo_iso_def nat_digits.simps digit_char_def)
qed

lemma demo_parse_0: "demo_parse ''p0'' = Some 0"
  by code_simp

lemma demo_build:
  "build_requests demo_sign demo_pending ''u2'' ''k'' (Some ''r1'') (Some ''ep'') 900 None None 0 [(''e1'', 0)] = Inr [demo_signed]"
proof -
  have "replace_Z ''p0'' = ''p0''" by (simp add: replace_Z_def)
  then have "execution_window demo_sign ''p0'' (Some ''r1'') (Some ''ep'') 900
      = Inr [(''protocol_version'', VInt 3), (''run_id'', VStr ''r1''), (''admission_epoch'', VStr ''ep''),
             (''expires_at'', VStr ''p900000000'')]"
    by (simp add: execution_window_def falsy_def demo_sign_def demo_parse_0 seconds_def demo_iso_900)
  then show ?thesis
    by (simp add: build_requests_def checked_identities_def signed_identity_fields_def pending_calls_payload_def
        demo_pending_def call_entry_of_def Let_def parse_parameters_def with_window_def request_fields_def dupdate_def
        add_signature_def demo_signed_def demo_sign_def canonical_digest_def sign_envelope_def)
qed

theorem approved_requests_accepted_witness:
  "validate_request (sn_proto demo_sign) (VDict demo_signed) ''k'' = Inr demo_signed"
proof -
  have size: "length (canonical_json (VDict demo_signed)) \<le> 8192" by code_simp
  then have "list_all (\<lambda>e. schema_ok (sn_proto demo_sign) ''execution-request'' (VDict e)
      \<and> length (canonical_json (VDict e)) \<le> 8192) [demo_signed]"
    by (simp add: demo_sign_def del: canonical_json.simps)
  from approved_requests_accepted [OF demo_build demo_iso_roundtrip _ _ this, of 0]
  show ?thesis by (simp add: demo_pending_def)
qed

end
