(* ===== verification/Original_Response.thy ===== *)
theory Original_Response
  imports Ledger_Evidence
begin

text \<open>
  The agent platform's view of a worker response and the seams that act on it: the validation of
  an original response and the process-bound \<open>VerifiedOriginal\<close>
  (\<open>agent_service/services/execution_protocol.py\<close>), its acceptance
  (\<open>execution_recovery.py\<close>), and the run guard with its stop latch and its secret-release
  permits (\<open>execution_run_guard.py\<close>). The process id is an argument. The stored text
  \<open>canonical_json(payload)\<close> is represented by what \<open>json.loads\<close> reads back from it, the same
  object with its keys sorted. The response schema admits objects only under \<open>observation\<close>,
  \<open>result\<close>, \<open>recovery\<close> and \<open>receipt\<close>, and an object or null under \<open>error\<close>.
\<close>

section \<open>Validating an original response\<close>

record verified_original =
  vo_payload :: json_obj
  vo_attempt :: string
  vo_current :: string
  vo_pid :: int

definition obj_fld :: "json_obj \<Rightarrow> string \<Rightarrow> exc + json_obj" where
  "obj_fld d k = (case dget d k of Some (VDict o1) \<Rightarrow> Inr o1 | _ \<Rightarrow> Inl PyError)"

definition ensure :: "bool \<Rightarrow> exc + unit" where
  "ensure b = require b (ProtocolError ''response_invalid'')"

text \<open>\<open>d[k] != v\<close> raises \<open>response_invalid\<close>; so does a false \<open>d[k]\<close>, or a true one.\<close>

definition same_fld :: "json_obj \<Rightarrow> string \<Rightarrow> val \<Rightarrow> exc + unit" where
  "same_fld d k v = rbind (fld d k) (\<lambda>x. ensure (x = v))"

definition truth_fld :: "json_obj \<Rightarrow> string \<Rightarrow> bool \<Rightarrow> exc + unit" where
  "truth_fld d k b = rbind (fld d k) (\<lambda>x. ensure (truthy x = b))"

definition error_code :: "val \<Rightarrow> val" where
  "error_code e = (case e of VDict d \<Rightarrow> get_none d ''code'' | _ \<Rightarrow> VNone)"

definition expected_status :: "json_obj \<Rightarrow> val \<Rightarrow> string" where
  "expected_status result st =
     (if st = VStr ''success'' then ''succeeded''
      else if error_code (get_none result ''error'') = VStr ''TIMEOUT'' then ''timeout'' else ''failed'')"

definition BOUND_NAMES :: "string list" where
  "BOUND_NAMES = [''execution_id'', ''run_id'', ''admission_epoch'', ''session_id'', ''confirm_id'', ''call_id'',
     ''tool_name'', ''requested_at'', ''expires_at'']"

fun check_names :: "json_obj \<Rightarrow> json_obj \<Rightarrow> string list \<Rightarrow> exc + unit" where
  "check_names recovery envelope [] = Inr ()"
| "check_names recovery envelope (n # ns) =
     rbind (fld recovery n) (\<lambda>a. rbind (fld envelope n) (\<lambda>b.
     rbind (ensure (a = b)) (\<lambda>_. check_names recovery envelope ns)))"

fun check_items :: "proto_env \<Rightarrow> json_obj \<Rightarrow> string \<Rightarrow> string \<Rightarrow> val list \<Rightarrow> exc + unit" where
  "check_items env envelope key attempt [] = Inr ()"
| "check_items env envelope key attempt (v # vs) =
     (case as_dict v of
        None \<Rightarrow> Inl (ProtocolError ''bad_request'')
      | Some item \<Rightarrow>
          rbind (validate_observation env item envelope key) (\<lambda>_.
          rbind (same_fld item ''attempt_request_id'' (VStr attempt)) (\<lambda>_.
          check_items env envelope key attempt vs)))"

text \<open>The comparison of the result, its fact and its receipt, in the order of the source.\<close>

definition check_result ::
  "proto_env \<Rightarrow> json_obj \<Rightarrow> json_obj \<Rightarrow> json_obj \<Rightarrow> json_obj \<Rightarrow> json_obj \<Rightarrow> string \<Rightarrow> string \<Rightarrow> exc + unit" where
  "check_result env payload wfact receipt result envelope attempt current =
     rbind (fld result ''status'') (\<lambda>st.
     rbind (same_fld payload ''request_id'' (VStr current)) (\<lambda>_.
     rbind (same_fld wfact ''request_id'' (VStr current)) (\<lambda>_.
     rbind (same_fld wfact ''attempt_request_id'' (VStr attempt)) (\<lambda>_.
     rbind (same_fld wfact ''source'' (VStr ''worker'')) (\<lambda>_.
     rbind (fld envelope ''tool_name'') (\<lambda>tool.
     rbind (same_fld result ''tool_name'' tool) (\<lambda>_.
     rbind (same_fld wfact ''tool_status'' st) (\<lambda>_.
     rbind (same_fld receipt ''status'' (VStr (expected_status result st))) (\<lambda>_.
     rbind (same_fld receipt ''outcome_digest'' (VStr (canonical_digest (cr env) (VDict result)))) (\<lambda>_.
     rbind (ensure (st = VStr ''success'' \<longrightarrow> dhas result ''data'' \<and> \<not> truthy (get_none result ''error''))) (\<lambda>_.
     ensure (st \<noteq> VStr ''success'' \<longrightarrow> truthy (get_none result ''error'')))))))))))))"

definition check_recovery ::
  "proto_env \<Rightarrow> json_obj \<Rightarrow> json_obj \<Rightarrow> json_obj \<Rightarrow> string \<Rightarrow> exc + unit" where
  "check_recovery env recovery receipt envelope attempt =
     rbind (same_fld recovery ''availability'' (VStr ''available'')) (\<lambda>_.
     rbind (truth_fld recovery ''run_stopped'' False) (\<lambda>_.
     rbind (truth_fld recovery ''integrity_conflict'' False) (\<lambda>_.
     rbind (fld recovery ''receipt'') (\<lambda>rr.
     rbind (ensure (json_norm rr = json_norm (VDict receipt))) (\<lambda>_.
     rbind (same_fld recovery ''request_digest'' (VStr (canonical_digest (cr env) (VDict envelope)))) (\<lambda>_.
     rbind (same_fld recovery ''attempt_request_id'' (VStr attempt)) (\<lambda>_.
     rbind (truth_fld recovery ''claimed_at'' True) (\<lambda>_.
     rbind (truth_fld recovery ''target_verification_required'' True) (\<lambda>_.
     check_names recovery envelope BOUND_NAMES)))))))))"

text \<open>\<open>_validate_original\<close>\<close>

definition check_original ::
  "proto_env \<Rightarrow> json_obj \<Rightarrow> val \<Rightarrow> string \<Rightarrow> string \<Rightarrow> string \<Rightarrow> exc + unit" where
  "check_original env payload envelope_v key attempt current =
     rbind (validate_request env envelope_v key) (\<lambda>envelope.
     rbind (validate env ''execution-handoff-response'' (VDict payload)) (\<lambda>_.
     rbind (fld payload ''kind'') (\<lambda>kind.
     rbind (require (kind = VStr ''original_result'') (ProtocolError ''metadata_replay'')) (\<lambda>_.
     rbind (obj_fld payload ''observation'') (\<lambda>wfact.
     rbind (obj_fld payload ''recovery'') (\<lambda>recovery.
     rbind (obj_fld payload ''result'') (\<lambda>result.
     rbind (validate_observation env wfact envelope key) (\<lambda>_.
     rbind (obj_fld wfact ''receipt'') (\<lambda>receipt.
     rbind (check_result env payload wfact receipt result envelope attempt current) (\<lambda>_.
     rbind (check_recovery env recovery receipt envelope attempt) (\<lambda>_.
     rbind (fld recovery ''observations'') (\<lambda>obs_v.
     (case as_list obs_v of
        None \<Rightarrow> Inl PyError
      | Some items \<Rightarrow> check_items env envelope key attempt items)))))))))))))"

definition norm_obj :: "json_obj \<Rightarrow> json_obj" where
  "norm_obj d = sort_key fst (map (\<lambda>p. (fst p, json_norm (snd p))) d)"

text \<open>Every exception \<open>_validate_original\<close> can raise is caught and becomes \<open>response_invalid\<close>.\<close>

definition validate_original ::
  "proto_env \<Rightarrow> int \<Rightarrow> json_obj \<Rightarrow> val \<Rightarrow> string \<Rightarrow> string \<Rightarrow> string \<Rightarrow> exc + verified_original" where
  "validate_original env pid payload envelope_v key attempt current =
     (case check_original env payload envelope_v key attempt current of
        Inl _ \<Rightarrow> Inl (ProtocolError ''response_invalid'')
      | Inr _ \<Rightarrow> Inr \<lparr>vo_payload = norm_obj payload, vo_attempt = attempt, vo_current = current, vo_pid = pid\<rparr>)"

definition revalidate :: "proto_env \<Rightarrow> int \<Rightarrow> verified_original \<Rightarrow> val \<Rightarrow> string \<Rightarrow> exc + unit" where
  "revalidate env pid original envelope_v key =
     rbind (require (vo_pid original = pid) (ProtocolError ''response_invalid'')) (\<lambda>_.
     check_original env (vo_payload original) envelope_v key (vo_attempt original) (vo_current original))"

text \<open>\<open>ExecutionRecovery.accept\<close> on a verified original.\<close>

definition accept_original ::
  "proto_env \<Rightarrow> ledger_cfg \<Rightarrow> int \<Rightarrow> db_fault \<Rightarrow> json_obj \<Rightarrow> verified_original \<Rightarrow> string \<Rightarrow> int \<Rightarrow> string \<Rightarrow>
   ledger \<Rightarrow> (exc + json_obj) \<times> ledger" where
  "accept_original env cfg pid fault envelope original current_request_id now oid l =
     (case rbind (revalidate env pid original (VDict envelope) (cfg_key cfg))
             (\<lambda>_. obj_fld (vo_payload original) ''observation'') of
        Inl e \<Rightarrow> (Inl e, l)
      | Inr worker_fact \<Rightarrow> accept env cfg fault envelope worker_fact current_request_id now oid l)"

section \<open>Stop latch\<close>

type_synonym latch = "(string, string) dict"

definition latch_mark :: "string \<Rightarrow> string \<Rightarrow> latch \<Rightarrow> latch" where
  "latch_mark run_id why marks =
     (if run_id = [] then marks else dsetdefault run_id (if why = [] then ''run_stopped'' else why) marks)"

definition latch_reason :: "string \<Rightarrow> latch \<Rightarrow> string option" where
  "latch_reason run_id marks = dget marks run_id"

definition latch_is_stopped :: "string \<Rightarrow> latch \<Rightarrow> bool" where
  "latch_is_stopped run_id marks = dhas marks run_id"

section \<open>Secret-release permits\<close>

record secret_permit =
  sp_run :: string
  sp_execution :: string
  sp_digest :: val
  sp_consumed :: bool
  sp_pid :: int

datatype permit_error = CrossesProcess | SingleUse

definition permit_consume :: "int \<Rightarrow> secret_permit \<Rightarrow> (permit_error + unit) \<times> secret_permit" where
  "permit_consume pid p =
     (if sp_pid p \<noteq> pid then (Inl CrossesProcess, p)
      else if sp_consumed p then (Inl SingleUse, p)
      else (Inr (), p\<lparr>sp_consumed := True\<rparr>))"

section \<open>Run guard\<close>

text \<open>
  The guard's recovery store is its ledger access, absent for a purely local guard. The latch and
  the ledger are the state: one latch per process, one ledger for the deployment.
\<close>

record run_identity =
  ri_run :: string
  ri_session :: string
  ri_owner :: string

record run_guard =
  gd_identity :: run_identity
  gd_recovery :: "(proto_env \<times> ledger_cfg) option"

definition guard_stopped :: "run_guard \<Rightarrow> latch \<Rightarrow> bool" where
  "guard_stopped g marks = (latch_reason (ri_run (gd_identity g)) marks \<noteq> None)"

definition ensure_not_stopped :: "run_guard \<Rightarrow> latch \<Rightarrow> exc + unit" where
  "ensure_not_stopped g marks = require (\<not> guard_stopped g marks) (ProtocolError ''run_stopped'')"

definition mark_stopped :: "run_guard \<Rightarrow> string \<Rightarrow> latch \<Rightarrow> latch" where
  "mark_stopped g why marks = latch_mark (ri_run (gd_identity g)) why marks"

definition durable_stop ::
  "run_guard \<Rightarrow> db_fault \<Rightarrow> bool \<Rightarrow> string \<Rightarrow> (val \<times> json_obj) option \<Rightarrow> int \<Rightarrow> latch \<times> ledger \<Rightarrow>
   (exc + bool) \<times> (latch \<times> ledger)" where
  "durable_stop g fault lock_free why fact_o now s =
     (let marks = mark_stopped g why (fst s); ident = gd_identity g in
      case gd_recovery g of
        None \<Rightarrow> (Inr False, (marks, snd s))
      | Some (env, cfg) \<Rightarrow>
          (case stop_run env cfg fault lock_free (ri_run ident) (VStr (ri_session ident)) (VStr (ri_owner ident)) why
                  fact_o now (snd s) of
             (Inr _, l) \<Rightarrow> (Inr True, (marks, l))
           | (Inl (ProtocolError _), l) \<Rightarrow> (Inr False, (marks, l))
           | (Inl e, l) \<Rightarrow> (Inl e, (marks, l))))"

text \<open>
  \<open>release_permit\<close>; an argument that is not a \<open>VerifiedOriginal\<close> is \<open>None\<close>.
\<close>

definition release_permit ::
  "run_guard \<Rightarrow> int \<Rightarrow> db_fault \<Rightarrow> json_obj \<Rightarrow> verified_original option \<Rightarrow> string \<Rightarrow> int \<Rightarrow> string \<Rightarrow>
   latch \<times> ledger \<Rightarrow> (exc + secret_permit option) \<times> (latch \<times> ledger)" where
  "release_permit g pid fault envelope original_o current_request_id now oid s =
     (case ensure_not_stopped g (fst s) of
        Inl e \<Rightarrow> (Inl e, s)
      | Inr _ \<Rightarrow>
          (case gd_recovery g of
             None \<Rightarrow> (Inl (ProtocolError ''receipt_unconfirmed''), s)
           | Some (env, cfg) \<Rightarrow>
               (case original_o of
                  None \<Rightarrow> (Inl (ProtocolError ''response_invalid''), s)
                | Some original \<Rightarrow>
                    (case accept_original env cfg pid fault envelope original current_request_id now oid (snd s) of
                       (Inl e, l) \<Rightarrow> (Inl e, (fst s, l))
                     | (Inr _, l) \<Rightarrow>
                         (rbind (obj_fld (vo_payload original) ''result'') (\<lambda>result.
                          if get_none result ''status'' \<noteq> VStr ''success'' then Inr None
                          else rbind (obj_fld (vo_payload original) ''observation'') (\<lambda>ob.
                               rbind (fld ob ''receipt_digest'') (\<lambda>dig.
                               rbind (fld envelope ''execution_id'') (\<lambda>eid.
                               Inr (Some \<lparr>sp_run = ri_run (gd_identity g), sp_execution = str_of_val eid,
                                          sp_digest = dig, sp_consumed = False, sp_pid = pid\<rparr>))))),
                          (fst s, l))))))"

text \<open>\<open>bind_run\<close>: a new root mints a run, a restored one keeps its id.\<close>

definition bind_run ::
  "proto_env \<times> ledger_cfg \<Rightarrow> db_fault \<Rightarrow> string \<Rightarrow> string \<Rightarrow> string \<Rightarrow> string option \<Rightarrow> ledger \<Rightarrow>
   (exc + run_guard) \<times> ledger" where
  "bind_run recovery fault fresh session owner run_o l =
     (case run_o of
        Some r \<Rightarrow> (Inr \<lparr>gd_identity = \<lparr>ri_run = r, ri_session = session, ri_owner = owner\<rparr>,
                        gd_recovery = Some recovery\<rparr>, l)
      | None \<Rightarrow>
          (case create_run fault fresh (VStr session) (VStr owner) l of
             (Inl e, l') \<Rightarrow> (Inl e, l')
           | (Inr r, l') \<Rightarrow> (Inr \<lparr>gd_identity = \<lparr>ri_run = r, ri_session = session, ri_owner = owner\<rparr>,
                                  gd_recovery = Some recovery\<rparr>, l')))"

section \<open>What a validated original establishes\<close>

lemma ensure_Inr_iff [simp]: "ensure b = Inr u \<longleftrightarrow> b"
  by (simp add: ensure_def)

lemma same_fld_Inr_iff [simp]: "same_fld d k v = Inr u \<longleftrightarrow> dget d k = Some v"
  by (simp add: same_fld_def)

lemma truth_fld_Inr_iff [simp]: "truth_fld d k b = Inr u \<longleftrightarrow> (\<exists>x. dget d k = Some x \<and> truthy x = b)"
  by (auto simp: truth_fld_def)

lemma obj_fld_Inr_iff [simp]: "obj_fld d k = Inr x \<longleftrightarrow> dget d k = Some (VDict x)"
  by (auto simp: obj_fld_def split: option.splits val.splits)

lemma check_names_Inr: "check_names recovery envelope ns = Inr u \<Longrightarrow> n \<in> set ns \<Longrightarrow> dget recovery n = dget envelope n"
  by (induction ns) auto

lemma validate_observation_receipt:
  assumes "validate_observation env value envelope key = Inr u" and "dget value ''kind'' = Some (VStr ''worker_result'')"
    and "dget value ''receipt'' = Some (VDict receipt)"
  shows "\<exists>sig. dget receipt ''signature'' = Some (VStr sig) \<and> verify_envelope (cr env) receipt sig key"
    and "dget receipt ''execution_id'' = dget envelope ''execution_id''"
    and "dget receipt ''request_id'' = dget value ''attempt_request_id''"
    and "dget value ''receipt_digest'' = Some (VStr (canonical_digest (cr env) (VDict receipt)))"
  using assms by (auto simp: validate_observation_def receipt_matches_def)

lemma check_original_cases:
  assumes "check_original env payload (VDict envelope) key attempt current = Inr u"
  obtains wfact recovery result receipt st where "validate_request env (VDict envelope) key = Inr envelope"
    and "dget payload ''observation'' = Some (VDict wfact)" and "dget payload ''recovery'' = Some (VDict recovery)"
    and "dget payload ''result'' = Some (VDict result)" and "dget wfact ''receipt'' = Some (VDict receipt)"
    and "validate_observation env wfact envelope key = Inr ()"
    and "check_result env payload wfact receipt result envelope attempt current = Inr ()"
    and "check_recovery env recovery receipt envelope attempt = Inr ()"
    and "dget result ''status'' = Some st"
    and "dget receipt ''status'' = Some (VStr (expected_status result st))"
    and "dget receipt ''outcome_digest'' = Some (VStr (canonical_digest (cr env) (VDict result)))"
proof -
  from assms obtain e wfact recovery result receipt where v: "validate_request env (VDict envelope) key = Inr e"
    and p: "dget payload ''observation'' = Some (VDict wfact)" "dget payload ''recovery'' = Some (VDict recovery)"
      "dget payload ''result'' = Some (VDict result)" "dget wfact ''receipt'' = Some (VDict receipt)"
    and c: "validate_observation env wfact e key = Inr ()"
      "check_result env payload wfact receipt result e attempt current = Inr ()"
      "check_recovery env recovery receipt e attempt = Inr ()"
    by (auto simp: check_original_def)
  from v have "e = envelope" by (rule validate_request_cases) simp
  moreover from c(2) obtain st where "dget result ''status'' = Some st"
      "dget receipt ''status'' = Some (VStr (expected_status result st))"
      "dget receipt ''outcome_digest'' = Some (VStr (canonical_digest (cr env) (VDict result)))"
    by (auto simp: check_result_def)
  ultimately show ?thesis using that v p c by blast
qed

lemma accept_original_Inr:
  assumes "accept_original env cfg pid fault envelope original cur now oid l = (Inr ob, l')"
  obtains wfact where "vo_pid original = pid"
    and "check_original env (vo_payload original) (VDict envelope) (cfg_key cfg) (vo_attempt original) (vo_current original) = Inr ()"
    and "dget (vo_payload original) ''observation'' = Some (VDict wfact)"
    and "accept env cfg fault envelope wfact cur now oid l = (Inr ob, l')"
  using assms by (auto simp: accept_original_def revalidate_def simp del: rbind_Inr_iff elim!: rbindE split: sum.split_asm)

lemma accept_original_ledger:
  "snd (accept_original env cfg pid fault envelope original cur now oid l) = l
   \<or> (\<exists>w. snd (accept_original env cfg pid fault envelope original cur now oid l)
          = ledger_step env cfg (OpAccept fault envelope w cur now oid) l)"
  by (auto simp: accept_original_def ledger_step_def split: sum.splits)

lemma recorded_result_kind:
  assumes "accept env cfg fault envelope w cur now oid l = (Inr ob, l')"
  obtains run_id run eid c row where "dget envelope ''run_id'' = Some (VStr run_id)" and "dget (runs l) run_id = Some run"
    and "run_stopped_at run = None" and "dget envelope ''execution_id'' = Some (VStr eid)" and "\<not> has_conflict l eid"
    and "dget (claims l) eid = Some c" and "row \<in> set (obs_of l eid)" and "ob_kind row = ''worker_result''"
    and "ob_digest row = canonical_digest (cr env) (VDict w)"
  using accept_recorded [OF assms] by blast

section \<open>The release of a secret\<close>

lemma release_permit_Some:
  assumes "release_permit g pid fault envelope oo cur now oid (marks, l) = (Inr (Some p), s')"
  obtains env cfg original ob l' result wfact dig eid where "\<not> guard_stopped g marks" and "gd_recovery g = Some (env, cfg)"
    and "oo = Some original"
    and "accept_original env cfg pid fault envelope original cur now oid l = (Inr ob, l')" and "s' = (marks, l')"
    and "dget (vo_payload original) ''result'' = Some (VDict result)" and "dget result ''status'' = Some (VStr ''success'')"
    and "dget (vo_payload original) ''observation'' = Some (VDict wfact)" and "dget wfact ''receipt_digest'' = Some dig"
    and "dget envelope ''execution_id'' = Some eid"
    and "p = \<lparr>sp_run = ri_run (gd_identity g), sp_execution = str_of_val eid, sp_digest = dig,
              sp_consumed = False, sp_pid = pid\<rparr>"
  using assms
  by (auto simp: release_permit_def ensure_not_stopped_def require_def get_none_def simp del: rbind_Inr_iff elim!: rbindE
      split: sum.split_asm option.split_asm prod.split_asm if_split_asm)

lemma permit_used_once:
  assumes "permit_consume pid p = (Inr (), p')"
  shows "sp_pid p = pid \<and> \<not> sp_consumed p \<and> fst (permit_consume pid' p') \<noteq> Inr ()"
  using assms by (auto simp: permit_consume_def split: if_split_asm)

text \<open>
  What the packaged response schema says of an original result: its observation is a worker result
  (\<open>contracts/execution-handoff-response.schema.json\<close>, the first \<open>then\<close> branch).
\<close>

definition response_schema :: "proto_env \<Rightarrow> bool" where
  "response_schema env \<longleftrightarrow>
     (\<forall>payload wfact. schema_ok env ''execution-handoff-response'' (VDict payload)
        \<longrightarrow> dget payload ''kind'' = Some (VStr ''original_result'')
        \<longrightarrow> dget payload ''observation'' = Some (VDict wfact) \<longrightarrow> dget wfact ''kind'' = Some (VStr ''worker_result''))"

text \<open>
  C31. What authorizes revealing a secret: \<open>release_permit\<close> returns a permit only when the
  guard's run is not latched, the response was validated by this very process, its request is a
  genuine version-3 request, its receipt is signed, belongs to that execution, says
  \<open>succeeded\<close> and carries the digest of exactly the result whose status is \<open>success\<close>, and the
  ledger already holds that worker result on a live run without integrity conflict. The permit
  names the guard's run, the execution and the receipt's digest, and it can be consumed once,
  only in the process that minted it.
\<close>

theorem secret_release_authority:
  assumes "release_permit g pid fault envelope oo cur now oid (marks, l) = (Inr (Some p), s')"
    and "gd_recovery g = Some (env, cfg)" and "response_schema env"
  shows "\<exists>original wfact receipt result sig run_id run eid row.
    latch_reason (ri_run (gd_identity g)) marks = None
    \<and> oo = Some original \<and> vo_pid original = pid
    \<and> validate_request env (VDict envelope) (cfg_key cfg) = Inr envelope
    \<and> dget (vo_payload original) ''observation'' = Some (VDict wfact) \<and> dget wfact ''receipt'' = Some (VDict receipt)
    \<and> dget (vo_payload original) ''result'' = Some (VDict result) \<and> dget result ''status'' = Some (VStr ''success'')
    \<and> dget receipt ''signature'' = Some (VStr sig) \<and> verify_envelope (cr env) receipt sig (cfg_key cfg)
    \<and> dget receipt ''execution_id'' = Some (VStr eid) \<and> dget receipt ''status'' = Some (VStr ''succeeded'')
    \<and> dget receipt ''outcome_digest'' = Some (VStr (canonical_digest (cr env) (VDict result)))
    \<and> dget envelope ''run_id'' = Some (VStr run_id) \<and> dget (runs l) run_id = Some run \<and> run_stopped_at run = None
    \<and> dget envelope ''execution_id'' = Some (VStr eid) \<and> \<not> has_conflict l eid
    \<and> row \<in> set (obs_of l eid) \<and> ob_kind row = ''worker_result''
    \<and> ob_digest row = canonical_digest (cr env) (VDict wfact)
    \<and> p = \<lparr>sp_run = ri_run (gd_identity g), sp_execution = eid,
           sp_digest = VStr (canonical_digest (cr env) (VDict receipt)), sp_consumed = False, sp_pid = pid\<rparr>
    \<and> (fst (permit_consume pid' p) = Inr () \<longleftrightarrow> pid' = pid)
    \<and> fst (permit_consume pid'' (snd (permit_consume pid p))) \<noteq> Inr ()"
proof -
  from assms(1,2) obtain original ob l' result wfact dig ev where g: "\<not> guard_stopped g marks" "oo = Some original"
    and acc: "accept_original env cfg pid fault envelope original cur now oid l = (Inr ob, l')"
    and res: "dget (vo_payload original) ''result'' = Some (VDict result)" "dget result ''status'' = Some (VStr ''success'')"
    and f: "dget (vo_payload original) ''observation'' = Some (VDict wfact)" "dget wfact ''receipt_digest'' = Some dig"
    and ev: "dget envelope ''execution_id'' = Some ev"
    and p: "p = \<lparr>sp_run = ri_run (gd_identity g), sp_execution = str_of_val ev, sp_digest = dig,
              sp_consumed = False, sp_pid = pid\<rparr>"
    by (auto elim!: release_permit_Some)
  from acc f(1) have pid: "vo_pid original = pid"
    and co: "check_original env (vo_payload original) (VDict envelope) (cfg_key cfg) (vo_attempt original)
      (vo_current original) = Inr ()"
    and a: "accept env cfg fault envelope wfact cur now oid l = (Inr ob, l')"
    by (auto elim!: accept_original_Inr)
  from a obtain run_id run eid row where led: "dget envelope ''run_id'' = Some (VStr run_id)" "dget (runs l) run_id = Some run"
      "run_stopped_at run = None" "dget envelope ''execution_id'' = Some (VStr eid)" "\<not> has_conflict l eid"
      "row \<in> set (obs_of l eid)" "ob_kind row = ''worker_result''" "ob_digest row = canonical_digest (cr env) (VDict wfact)"
    by (rule recorded_result_kind)
  from co f(1) res obtain receipt where v: "validate_request env (VDict envelope) (cfg_key cfg) = Inr envelope"
    and rc: "dget wfact ''receipt'' = Some (VDict receipt)" "validate_observation env wfact envelope (cfg_key cfg) = Inr ()"
      "dget receipt ''status'' = Some (VStr ''succeeded'')"
      "dget receipt ''outcome_digest'' = Some (VStr (canonical_digest (cr env) (VDict result)))"
    by (auto elim!: check_original_cases simp: expected_status_def)
  have kind: "dget wfact ''kind'' = Some (VStr ''worker_result'')"
    using assms(3) co f(1) by (auto simp: response_schema_def check_original_def validate_def)
  note r = validate_observation_receipt [OF rc(2) kind rc(1)]
  from g(1) have "latch_reason (ri_run (gd_identity g)) marks = None" by (simp add: guard_stopped_def)
  moreover have "fst (permit_consume pid' p) = Inr () \<longleftrightarrow> pid' = pid" by (auto simp: p permit_consume_def)
  moreover have "fst (permit_consume pid'' (snd (permit_consume pid p))) \<noteq> Inr ()" by (auto simp: p permit_consume_def)
  ultimately show ?thesis using g pid v f rc res led ev r p by auto
qed

section \<open>A concrete release\<close>

definition demo_rel_receipt :: json_obj where
  "demo_rel_receipt =
     [(''execution_id'', VStr ''e1''), (''outcome_digest'', VStr ''d''), (''request_id'', VStr ''a1''),
      (''signature'', VStr ''s''), (''status'', VStr ''succeeded'')]"

definition demo_rel_fact :: json_obj where
  "demo_rel_fact =
     [(''attempt_request_id'', VStr ''a1''), (''claim_owner_id'', VStr ''w1''), (''execution_id'', VStr ''e1''),
      (''kind'', VStr ''worker_result''), (''observation_id'', VStr ''o2''), (''receipt'', VDict demo_rel_receipt),
      (''receipt_digest'', VStr ''d''), (''request_digest'', VStr ''d''), (''request_id'', VStr ''q1''),
      (''run_id'', VStr ''r1''), (''signature'', VStr ''s''), (''source'', VStr ''worker''),
      (''tool_status'', VStr ''success'')]"

definition demo_rel_recovery :: json_obj where
  "demo_rel_recovery =
     [(''admission_epoch'', VStr ''ep''), (''attempt_request_id'', VStr ''a1''), (''availability'', VStr ''available''),
      (''call_id'', VStr ''k1''), (''claimed_at'', VStr ''t''), (''confirm_id'', VStr ''c1''),
      (''execution_id'', VStr ''e1''), (''expires_at'', VStr ''9''), (''integrity_conflict'', VBool False),
      (''observations'', VList []), (''receipt'', VDict demo_rel_receipt), (''request_digest'', VStr ''d''),
      (''requested_at'', VStr ''0''), (''run_id'', VStr ''r1''), (''run_stopped'', VBool False),
      (''session_id'', VStr ''s1''), (''target_verification_required'', VBool True), (''tool_name'', VStr ''restart'')]"

definition demo_rel_result :: json_obj where
  "demo_rel_result = [(''data'', VInt 1), (''status'', VStr ''success''), (''tool_name'', VStr ''restart'')]"

definition demo_rel_payload :: json_obj where
  "demo_rel_payload =
     [(''kind'', VStr ''original_result''), (''observation'', VDict demo_rel_fact),
      (''recovery'', VDict demo_rel_recovery), (''request_id'', VStr ''q1''), (''result'', VDict demo_rel_result)]"

definition demo_original :: verified_original where
  "demo_original = \<lparr>vo_payload = demo_rel_payload, vo_attempt = ''a1'', vo_current = ''q1'', vo_pid = 7\<rparr>"

definition demo_guard :: run_guard where
  "demo_guard = \<lparr>gd_identity = \<lparr>ri_run = ''r1'', ri_session = ''s1'', ri_owner = ''u1''\<rparr>,
     gd_recovery = Some (demo_proto, demo_cfg)\<rparr>"

lemma demo_rel_size: "length (canonical_json (VDict demo_rel_fact)) \<le> 8192"
  by code_simp

lemma demo_rel_valid: "validate_observation demo_proto demo_rel_fact demo_envelope ''k'' = Inr ()"
  using demo_rel_size
  by (simp add: validate_observation_def validate_metadata_def validate_def METADATA_LIMIT_def demo_rel_fact_def
      demo_rel_receipt_def receipt_matches_def demo_get verify_envelope_def fld_def str_fld_def
      del: canonical_json.simps)

lemma demo_rel_checked:
  "check_original demo_proto demo_rel_payload (VDict demo_envelope) ''k'' ''a1'' ''q1'' = Inr ()"
proof -
  have get: "dget demo_rel_payload ''kind'' = Some (VStr ''original_result'')"
    "dget demo_rel_payload ''observation'' = Some (VDict demo_rel_fact)"
    "dget demo_rel_payload ''recovery'' = Some (VDict demo_rel_recovery)"
    "dget demo_rel_payload ''result'' = Some (VDict demo_rel_result)"
    "dget demo_rel_fact ''receipt'' = Some (VDict demo_rel_receipt)"
    "dget demo_rel_recovery ''observations'' = Some (VList [])"
    by (simp_all add: demo_rel_payload_def demo_rel_fact_def demo_rel_recovery_def)
  have "schema_ok demo_proto ''execution-handoff-response'' (VDict demo_rel_payload)"
    by (simp add: demo_proto_def demo_schema_ok_def get demo_rel_fact_def)
  moreover have "check_result demo_proto demo_rel_payload demo_rel_fact demo_rel_receipt demo_rel_result demo_envelope ''a1'' ''q1'' = Inr ()"
    by (simp add: check_result_def demo_get demo_rel_payload_def demo_rel_fact_def demo_rel_receipt_def demo_rel_result_def
        expected_status_def dhas_def get_none_def)
  moreover have "check_recovery demo_proto demo_rel_recovery demo_rel_receipt demo_envelope ''a1'' = Inr ()"
    by (simp add: check_recovery_def demo_get demo_rel_recovery_def BOUND_NAMES_def)
  ultimately show ?thesis using get demo_rel_valid by (simp add: check_original_def demo_request validate_def)
qed

lemma demo_release:
  "\<exists>p s'. release_permit demo_guard 7 NoFault demo_envelope (Some demo_original) ''q1'' 4 ''o3'' ([], demo_ledger4 demo_rel_fact)
     = (Inr (Some p), s')"
proof -
  obtain l' where "accept demo_proto demo_cfg NoFault demo_envelope demo_rel_fact ''q1'' 4 ''o3'' (demo_ledger4 demo_rel_fact)
      = (Inr demo_accepted, l')" using demo_accept [of demo_rel_fact] by (auto simp: demo_rel_fact_def)
  moreover have "dget demo_rel_payload ''observation'' = Some (VDict demo_rel_fact)" "dget demo_rel_payload ''result'' = Some (VDict demo_rel_result)"
    by (simp_all add: demo_rel_payload_def)
  ultimately have "accept_original demo_proto demo_cfg 7 NoFault demo_envelope demo_original ''q1'' 4 ''o3'' (demo_ledger4 demo_rel_fact)
      = (Inr demo_accepted, l')"
    by (simp add: accept_original_def revalidate_def demo_original_def demo_rel_checked obj_fld_def)
  then show ?thesis
    by (simp add: release_permit_def ensure_not_stopped_def guard_stopped_def latch_reason_def demo_guard_def demo_original_def
        demo_rel_payload_def obj_fld_def demo_rel_result_def demo_rel_fact_def get_none_def fld_def demo_get)
qed

lemma demo_response_schema: "response_schema demo_proto"
  by (auto simp: response_schema_def demo_proto_def demo_schema_ok_def)

theorem secret_release_authority_witness:
  "\<exists>row\<in>set (obs_of (demo_ledger4 demo_rel_fact) ''e1''). ob_kind row = ''worker_result''"
proof -
  obtain p s' where r: "release_permit demo_guard 7 NoFault demo_envelope (Some demo_original) ''q1'' 4 ''o3''
      ([], demo_ledger4 demo_rel_fact) = (Inr (Some p), s')" using demo_release by blast
  have "gd_recovery demo_guard = Some (demo_proto, demo_cfg)" by (simp add: demo_guard_def)
  from secret_release_authority [OF r this demo_response_schema, of 7 7] show ?thesis by (auto simp: demo_get)
qed

section \<open>A stop fails closed\<close>

text \<open>What happens in one process: guard calls, interleaved with any other actor's ledger calls.\<close>

datatype guard_op =
    GMark run_guard string
  | GStop run_guard db_fault bool string "(val \<times> json_obj) option" int
  | GRelease run_guard int db_fault json_obj "verified_original option" string int string
  | GBind "proto_env \<times> ledger_cfg" db_fault string string string "string option"
  | GLedger proto_env ledger_cfg ledger_op

definition guard_step :: "guard_op \<Rightarrow> latch \<times> ledger \<Rightarrow> latch \<times> ledger" where
  "guard_step op s =
     (case op of
        GMark g why \<Rightarrow> (mark_stopped g why (fst s), snd s)
      | GStop g fault free why fact_o now \<Rightarrow> snd (durable_stop g fault free why fact_o now s)
      | GRelease g pid fault envelope oo cur now oid \<Rightarrow> snd (release_permit g pid fault envelope oo cur now oid s)
      | GBind rec fault fresh session owner run_o \<Rightarrow> (fst s, snd (bind_run rec fault fresh session owner run_o (snd s)))
      | GLedger env cfg lop \<Rightarrow> (fst s, ledger_step env cfg lop (snd s)))"

lemma latch_mark_settled: "latch_reason r marks = Some v \<Longrightarrow> latch_reason r (latch_mark r' why marks) = Some v"
  by (auto simp: latch_reason_def latch_mark_def dsetdefault_def dhas_dget)

lemma latch_mark_sets:
  "r \<noteq> [] \<Longrightarrow> latch_reason r (latch_mark r why marks)
     = Some (case latch_reason r marks of Some v \<Rightarrow> v | None \<Rightarrow> if why = [] then ''run_stopped'' else why)"
  by (auto simp: latch_reason_def latch_mark_def dsetdefault_def dhas_dget)

lemma durable_stop_state:
  assumes "durable_stop g fault free why fact_o now s = (res, s')"
  shows "fst s' = latch_mark (ri_run (gd_identity g)) why (fst s)"
    and "snd s' = snd s \<or> (\<exists>env cfg lop. snd s' = ledger_step env cfg lop (snd s))"
proof -
  show "fst s' = latch_mark (ri_run (gd_identity g)) why (fst s)"
    using assms by (auto simp: durable_stop_def Let_def mark_stopped_def split: option.split_asm prod.split_asm sum.split_asm exc.split_asm)
  show "snd s' = snd s \<or> (\<exists>env cfg lop. snd s' = ledger_step env cfg lop (snd s))"
  proof (cases "gd_recovery g")
    case None
    with assms show ?thesis by (auto simp: durable_stop_def Let_def)
  next
    case (Some ec)
    obtain env cfg where ec: "ec = (env, cfg)" by (cases ec)
    let ?op = "OpStopRun fault free (ri_run (gd_identity g)) (VStr (ri_session (gd_identity g)))
      (VStr (ri_owner (gd_identity g))) why fact_o now"
    from assms Some ec have "snd s' = ledger_step env cfg ?op (snd s)"
      by (auto simp: durable_stop_def Let_def ledger_step_def split: prod.split_asm sum.split_asm exc.split_asm)
    then show ?thesis by blast
  qed
qed

lemma release_permit_state:
  assumes "release_permit g pid fault envelope oo cur now oid s = (res, s')"
  shows "fst s' = fst s" and "snd s' = snd s \<or> (\<exists>env cfg lop. snd s' = ledger_step env cfg lop (snd s))"
proof -
  from assms have "s' = s \<or> (\<exists>env cfg original. s' = (fst s, snd (accept_original env cfg pid fault envelope original cur now oid (snd s))))"
    by (auto simp: release_permit_def split: sum.split_asm option.split_asm prod.split_asm) (metis snd_conv)+
  then show "fst s' = fst s" and "snd s' = snd s \<or> (\<exists>env cfg lop. snd s' = ledger_step env cfg lop (snd s))"
    using accept_original_ledger by fastforce+
qed

lemma bind_run_ledger:
  "snd (bind_run rec fault fresh session owner run_o l) = l
   \<or> snd (bind_run rec fault fresh session owner run_o l)
       = ledger_step env cfg (OpCreateRun fault fresh (VStr session) (VStr owner)) l"
  by (auto simp: bind_run_def ledger_step_def split: option.splits prod.splits sum.splits)

lemma guard_step_latch:
  "latch_reason r (fst s) = Some v \<Longrightarrow> latch_reason r (fst (guard_step op s)) = Some v"
  by (cases op) (auto simp: guard_step_def mark_stopped_def latch_mark_settled durable_stop_state(1) [OF prod.collapse [symmetric]]
      release_permit_state(1) [OF prod.collapse [symmetric]])

lemma guard_step_ledger:
  "snd (guard_step op s) = snd s \<or> (\<exists>env cfg lop. snd (guard_step op s) = ledger_step env cfg lop (snd s))"
proof (cases op)
  case (GBind rec fault fresh session owner run_o)
  with bind_run_ledger [of rec fault fresh session owner run_o "snd s"] show ?thesis by (auto simp: guard_step_def)
next
  case (GLedger env cfg lop)
  then show ?thesis by (auto simp: guard_step_def)
qed (auto simp: guard_step_def durable_stop_state(2) [OF prod.collapse [symmetric]]
    release_permit_state(2) [OF prod.collapse [symmetric]])

lemma guard_step_inv [inv_intros]: "ledger_inv (snd s) \<Longrightarrow> ledger_inv (snd (guard_step op s))"
  using guard_step_ledger [of op s] ledger_step_inv by metis

lemma guard_step_run_stop: "run_stop (snd s) r = Some v \<Longrightarrow> run_stop (snd (guard_step op s)) r = Some v"
  using guard_step_ledger [of op s] run_stop_step by metis

interpretation gl: settled_once guard_step "\<lambda>s. ledger_inv (snd s)" "\<lambda>s r. latch_reason r (fst s)"
  by unfold_locales (auto intro: guard_step_inv guard_step_latch)

interpretation gs: settled_once guard_step "\<lambda>s. ledger_inv (snd s)" "\<lambda>s r. run_stop (snd s) r"
  by unfold_locales (auto intro: guard_step_run_stop)

lemma stop_row_stops:
  assumes "stop_row r why now l = Inr l'" and "dget (runs l) r = Some run" and "stop_consistent run"
  shows "\<exists>stop. run_stop l' r = Some stop"
  using assms
  by (auto simp: stop_row_def run_stop_def stop_consistent_def split: option.split_asm if_split_asm)

lemma agent_append_runs:
  assumes "agent_append env cfg l eid intent ob = Inr (res, l')"
  shows "runs l' = runs l"
  using assms
proof (cases rule: agent_append_cases)
  case (replay old)
  then show ?thesis by (auto simp: replay_obs_def mark_conflict_def count_duplicate_def split: if_split_asm)
next
  case (fresh s oid kind)
  from place_frame(3) [OF refl] fresh(6) show ?thesis by (metis snd_conv)
qed

lemma agent_stop_tx_stops:
  assumes "agent_stop_tx env cfg free r session owner why fact_o now l = Inr (res, l')" and "ledger_inv l"
  shows "\<exists>stop. run_stop l' r = Some stop"
proof -
  from assms(1) obtain run l1 w where r: "agent_run r session owner l = Inr run"
    and st: "stop_row r w now l1 = Inr l'" and l1: "l1 = l \<or> (\<exists>eid intent ob res1. agent_append env cfg l eid intent ob = Inr (res1, l1))"
    by (auto simp: agent_stop_tx_def simp del: rbind_Inr_iff elim!: rbindE split: option.split_asm if_split_asm) blast+
  from l1 agent_run_exists [OF r] have "dget (runs l1) r = Some run" by (auto simp: agent_append_runs)
  moreover from assms(2) agent_run_exists [OF r] have "stop_consistent run"
    by (auto simp: ledger_inv_def inv_runs_def)
  ultimately show ?thesis using stop_row_stops [OF st] by blast
qed

lemma durable_stop_True:
  assumes "durable_stop g fault free why fact_o now s = (Inr True, s')" and "ledger_inv (snd s)"
  shows "\<exists>stop. run_stop (snd s') (ri_run (gd_identity g)) = Some stop"
proof -
  let ?r = "ri_run (gd_identity g)"
  from assms(1) obtain env cfg out where st: "stop_run env cfg fault free ?r (VStr (ri_session (gd_identity g)))
      (VStr (ri_owner (gd_identity g))) why fact_o now (snd s) = (Inr out, snd s')"
    by (auto simp: durable_stop_def Let_def split: option.split_asm prod.split_asm sum.split_asm exc.split_asm)
  then obtain f where "agent_tx fault (agent_stop_tx env cfg free ?r (VStr (ri_session (gd_identity g)))
      (VStr (ri_owner (gd_identity g))) why f now) (snd s) = (Inr out, snd s')"
    by (auto simp: stop_run_def split: option.split_asm prod.split_asm sum.split_asm if_split_asm)
  then have "agent_stop_tx env cfg free ?r (VStr (ri_session (gd_identity g)))
      (VStr (ri_owner (gd_identity g))) why f now (snd s) = Inr (out, snd s')"
    by (auto simp: agent_tx_def run_tx_def split: if_split_asm sum.split_asm exc.split_asm db_fault.split_asm prod.split_asm)
  from agent_stop_tx_stops [OF this assms(2)] show ?thesis .
qed

text \<open>
  C32. A stop fails closed. From the moment a guard's \<open>durable_stop\<close> is called, whatever the
  database does, and through every later interleaving of guard calls in the process and ledger
  calls of anyone: the run stays latched with its first reason, no guard of that run passes the
  invocation check, and every request for a secret release of that run is refused without touching
  the state. When the call reported the stop as durable, the ledger holds a stop that no later
  history changes, and no history of claims mints a dispatch permit for the run.
\<close>

theorem run_stop_fails_closed:
  assumes "durable_stop g fault free why fact_o now s = (res, s1)" and "ledger_inv (snd s)"
    and "ri_run (gd_identity g) \<noteq> []" and "s2 = fold guard_step ops s1" and "ri_run (gd_identity g') = ri_run (gd_identity g)"
  shows "latch_reason (ri_run (gd_identity g)) (fst s2)
      = Some (case latch_reason (ri_run (gd_identity g)) (fst s) of
                Some first \<Rightarrow> first | None \<Rightarrow> if why = [] then ''run_stopped'' else why)
    \<and> ensure_not_stopped g' (fst s2) = Inl (ProtocolError ''run_stopped'')
    \<and> release_permit g' pid fault' envelope oo cur now' oid s2 = (Inl (ProtocolError ''run_stopped''), s2)
    \<and> (res = Inr True \<longrightarrow>
         (\<exists>stop. run_stop (snd s1) (ri_run (gd_identity g)) = Some stop
            \<and> run_stop (snd s2) (ri_run (gd_identity g)) = Some stop
            \<and> ri_run (gd_identity g) \<notin> set (map pm_run (permits env cfg lops (snd s2)))))"
proof -
  let ?r = "ri_run (gd_identity g)"
  have inv: "ledger_inv (snd s1)"
    using durable_stop_state(2) [OF assms(1)] assms(2) ledger_step_inv by metis
  have l1: "latch_reason ?r (fst s1) = Some (case latch_reason ?r (fst s) of
      Some first \<Rightarrow> first | None \<Rightarrow> if why = [] then ''run_stopped'' else why)"
    using latch_mark_sets [OF assms(3)] durable_stop_state(1) [OF assms(1)] by simp
  have l2: "latch_reason ?r (fst s2) = latch_reason ?r (fst s1)"
    using gl.run_settled [OF inv l1] l1 assms(4) by simp
  then have stopped: "ensure_not_stopped g' (fst s2) = Inl (ProtocolError ''run_stopped'')"
    using l1 assms(5) by (simp add: ensure_not_stopped_def guard_stopped_def)
  moreover have "\<exists>stop. run_stop (snd s1) ?r = Some stop \<and> run_stop (snd s2) ?r = Some stop
      \<and> ?r \<notin> set (map pm_run (permits env cfg lops (snd s2)))" if "res = Inr True"
  proof -
    from durable_stop_True [OF assms(1) [unfolded that] assms(2)] obtain stop where st: "run_stop (snd s1) ?r = Some stop" by blast
    have "run_stop (snd s2) ?r = Some stop" using gs.run_settled [OF inv st] assms(4) by simp
    with st stopped_mints_nothing show ?thesis by blast
  qed
  moreover have "release_permit g' pid fault' envelope oo cur now' oid s2 = (Inl (ProtocolError ''run_stopped''), s2)"
    using stopped by (simp add: release_permit_def)
  ultimately show ?thesis using l1 l2 by simp
qed

lemma demo_stop:
  "durable_stop demo_guard NoFault True ''run_stopped'' None 5 ([], demo_ledger1)
     = (Inr True, ([(''r1'', ''run_stopped'')],
         demo_ledger1\<lparr>runs := [(''r1'', demo_run\<lparr>run_stopped_at := Some 5, run_stop_reason := Some ''run_stopped''\<rparr>)]\<rparr>))"
proof -
  have "agent_run ''r1'' (VStr ''s1'') (VStr ''u1'') demo_ledger1 = Inr demo_run"
    by (simp add: agent_run_def demo_run_def)
  then have "stop_run demo_proto demo_cfg NoFault True ''r1'' (VStr ''s1'') (VStr ''u1'') ''run_stopped'' None 5 demo_ledger1
      = (Inr Stopped, demo_ledger1\<lparr>runs := [(''r1'', demo_run\<lparr>run_stopped_at := Some 5, run_stop_reason := Some ''run_stopped''\<rparr>)]\<rparr>)"
    by (simp add: stop_run_def agent_tx_def run_tx_def agent_stop_tx_def demo_schema stop_row_def demo_run_def STOP_REASONS_def)
  then show ?thesis
    by (simp add: durable_stop_def demo_guard_def mark_stopped_def latch_mark_def dsetdefault_def dhas_def)
qed

theorem run_stop_fails_closed_witness:
  "latch_reason ''r1'' (fst (fold guard_step [GLedger demo_proto demo_cfg (OpClaim demo_input (VDict demo_envelope) ''q1'')]
     (snd (durable_stop demo_guard NoFault True ''run_stopped'' None 5 ([], demo_ledger1))))) = Some ''run_stopped''"
proof -
  have inv: "ledger_inv (snd ([] :: latch, demo_ledger1))"
    using empty_ledger_inv [of "''ep''"]
    by (auto simp: ledger_inv_def inv_obs_def inv_keys_def inv_runs_def demo_ledger1_def demo_ledger0_def empty_ledger_def
        demo_run_def stop_consistent_def dict_ok_def)
  have r: "ri_run (gd_identity demo_guard) = ''r1''" by (simp add: demo_guard_def)
  from run_stop_fails_closed [OF demo_stop inv _ refl refl, of "[GLedger demo_proto demo_cfg (OpClaim demo_input (VDict demo_envelope) ''q1'')]"]
  show ?thesis unfolding demo_stop r by (simp add: latch_reason_def)
qed

end
