(* ===== verification/Flow_Authority.thy ===== *)
theory Flow_Authority
  imports Request_Signing Original_Response
begin

text \<open>
  Browser flows of the agent kernel: the reflection of the gateway's flow binding and the recorded
  operator approval (\<open>services/flow_approvals.py\<close>), and the kernel seams that write, drop and use
  them (\<open>runtime_kernel.py\<close>: \<open>_observe_flow_binding\<close>, \<open>_observe_flow_invalidation\<close>,
  \<open>_record_flow_approval\<close>, \<open>_sign_flow_execution\<close>). The monotonic clock is in microseconds. The
  best-effort writes that follow a signature (execution record, authoring trace, audit event) are
  the effects a call appends, in their order; their failures are caught and change nothing here.
\<close>

section \<open>Flow contexts and approvals\<close>

definition BROWSER_WRITE_TOOLS :: "string list" where
  "BROWSER_WRITE_TOOLS = [''web.click'', ''web.type'', ''web.select'', ''web.press_key'', ''web.upload_file'', ''web.evaluate'']"

definition FLOW_KILLING_ERROR_CODES :: "string list" where
  "FLOW_KILLING_ERROR_CODES = [''BROWSER_REDIRECT_NOT_ALLOWED'', ''BROWSER_FLOW_DENIED'',
     ''BROWSER_FLOW_ORIGIN_DEVIATED'', ''BROWSER_FLOW_AUTHORITY_STALE'']"

record flow_context =
  fc_session :: string
  fc_skill :: string
  fc_origin :: string
  fc_title :: string
  fc_description :: string
  fc_intent :: string
  fc_risk :: string
  fc_steps :: int
  fc_max :: int
  fc_at :: int

definition context_identity :: "flow_context \<Rightarrow> string \<times> string" where
  "context_identity c = (fc_skill c, fc_origin c)"

definition context_summary :: "flow_context \<Rightarrow> json_obj" where
  "context_summary c =
     [(''skill_id'', VStr (fc_skill c)), (''origin'', VStr (fc_origin c)), (''title'', VStr (fc_title c)),
      (''description'', VStr (fc_description c)), (''flow_intent'', VStr (fc_intent c)), (''risk_class'', VStr (fc_risk c))]"

text \<open>\<open>str(d.get(k) or dflt)\<close> and \<open>_as_int(d.get(k))\<close>.\<close>

definition str_or :: "json_obj \<Rightarrow> string \<Rightarrow> string \<Rightarrow> string" where
  "str_or d k dflt = (let v = get_none d k in if truthy v then str_of_val v else dflt)"

definition as_int :: "val \<Rightarrow> int" where
  "as_int v = (case int_of_val v of None \<Rightarrow> 0 | Some n \<Rightarrow> n)"

type_synonym context_store = "(string, flow_context) dict"
type_synonym approval_store = "(string, flow_approval) dict"

definition context_record :: "string \<Rightarrow> json_obj \<Rightarrow> int \<Rightarrow> context_store \<Rightarrow> context_store" where
  "context_record session flow now store =
     dset session
       \<lparr>fc_session = session, fc_skill = str_or flow ''skill_id'' [], fc_origin = str_or flow ''origin'' [],
        fc_title = str_or flow ''title'' [], fc_description = str_or flow ''description'' [],
        fc_intent = str_or flow ''flow_intent'' [], fc_risk = str_or flow ''risk_class'' ''read'',
        fc_steps = as_int (get_none flow ''steps_used''), fc_max = as_int (get_none flow ''max_steps''), fc_at = now\<rparr> store"

definition approval_expired :: "int \<Rightarrow> flow_approval \<Rightarrow> bool" where
  "approval_expired now fa \<longleftrightarrow> (if fa_ttl fa \<le> 0 then True else fa_ttl fa < now - fa_at fa)"

definition approval_identity :: "flow_approval \<Rightarrow> string \<times> string" where
  "approval_identity fa = (fa_skill fa, fa_origin fa)"

definition approval_record :: "flow_approval \<Rightarrow> approval_store \<Rightarrow> approval_store" where
  "approval_record fa store = dset (fa_session fa) fa store"

definition approval_get :: "int \<Rightarrow> string \<Rightarrow> approval_store \<Rightarrow> flow_approval option" where
  "approval_get now session store =
     (case dget store session of
        None \<Rightarrow> None
      | Some fa \<Rightarrow> if approval_expired now fa then None else Some fa)"

definition has_approval :: "int \<Rightarrow> string \<Rightarrow> approval_store \<Rightarrow> bool" where
  "has_approval now session store = (approval_get now session store \<noteq> None)"

section \<open>Kernel state and turn\<close>

datatype flow_effect =
    SaveRequestRecord json_obj
  | AppendTraceStep json_obj json_obj
  | EmitAudit json_obj string string

record kernel_flow =
  kf_contexts :: context_store
  kf_approvals :: approval_store
  kf_requests :: "(string, json_obj) dict option"
  kf_effects :: "flow_effect list"

text \<open>The context variables and settings \<open>_sign_flow_execution\<close> reads; absent text is \<open>[]\<close>.\<close>

record flow_turn =
  ft_session :: string
  ft_guard :: "run_guard option"
  ft_key :: string
  ft_admission :: bool
  ft_epoch :: string
  ft_target_auth :: bool
  ft_requester :: "verified_human option"
  ft_decider :: "verified_human option"
  ft_request :: string
  ft_mono :: int
  ft_wall :: int
  ft_fresh :: string

definition tool_names_have_browser_write :: "string list \<Rightarrow> (string, string) dict \<Rightarrow> bool" where
  "tool_names_have_browser_write names gateway =
     list_ex (\<lambda>n. (case dget gateway n of None \<Rightarrow> n | Some g \<Rightarrow> g) \<in> set BROWSER_WRITE_TOOLS) names"

definition batch_has_browser_write :: "pending_conf \<Rightarrow> bool" where
  "batch_has_browser_write p = tool_names_have_browser_write (tool_names p) (pc_names p)"

definition record_flow_approval :: "int \<Rightarrow> int \<Rightarrow> pending_conf \<Rightarrow> string \<Rightarrow> string \<Rightarrow> kernel_flow \<Rightarrow> kernel_flow" where
  "record_flow_approval ttl now p decider session kf =
     (let skill = str_or (pc_flow p) ''skill_id'' []; origin = str_or (pc_flow p) ''origin'' [] in
      if \<not> batch_has_browser_write p then kf
      else if skill = [] \<and> origin = [] then kf
      else if str_or (pc_flow p) ''risk_class'' [] \<noteq> ''write'' then kf
      else kf\<lparr>kf_approvals := approval_record
             \<lparr>fa_session = session, fa_confirm = pc_confirm p, fa_owner = pc_user p, fa_decider = decider,
              fa_skill = skill, fa_origin = origin, fa_ttl = ttl, fa_at = now, fa_run = pc_run p\<rparr> (kf_approvals kf)\<rparr>)"

definition observe_flow_binding :: "int \<Rightarrow> json_obj \<Rightarrow> string \<Rightarrow> kernel_flow \<Rightarrow> kernel_flow" where
  "observe_flow_binding now frame session kf =
     (if get_none frame ''type'' \<noteq> VStr ''tool_result'' then kf
      else if get_none frame ''tool_name'' \<noteq> VStr ''web.navigate'' then kf
      else if get_none frame ''status'' \<noteq> VStr ''success'' then kf
      else (case get_none frame ''data'' of
              VDict data \<Rightarrow>
                (case get_none data ''flow'' of
                   VDict flow \<Rightarrow> kf\<lparr>kf_contexts := context_record session flow now (kf_contexts kf)\<rparr>
                 | _ \<Rightarrow> kf)
            | _ \<Rightarrow> kf))"

definition navigate_bound_a_flow :: "json_obj \<Rightarrow> json_obj list \<Rightarrow> bool" where
  "navigate_bound_a_flow frame evidence =
     (let call = get_none frame ''call_id'' in
      if \<not> truthy call then False
      else (case find (\<lambda>c. get_none c ''type'' = VStr ''tool_call'' \<and> get_none c ''call_id'' = call) (rev evidence) of
              None \<Rightarrow> False
            | Some c \<Rightarrow> (case get_none c ''parameters'' of VDict ps \<Rightarrow> truthy (get_none ps ''skill_id'') | _ \<Rightarrow> False)))"

text \<open>The frame ends the bound flow.\<close>

definition flow_killed :: "json_obj \<Rightarrow> json_obj list \<Rightarrow> bool" where
  "flow_killed frame evidence =
     (let code = str_or (case get_none frame ''error'' of VDict d \<Rightarrow> d | _ \<Rightarrow> []) ''code'' [] in
      get_none frame ''type'' = VStr ''tool_result''
      \<and> (code \<in> set FLOW_KILLING_ERROR_CODES
         \<or> (get_none frame ''tool_name'' = VStr ''web.navigate'' \<and> code = ''BROWSER_NAVIGATION_ERROR''
            \<and> navigate_bound_a_flow frame evidence)))"

definition clear_flow :: "string \<Rightarrow> kernel_flow \<Rightarrow> kernel_flow" where
  "clear_flow session kf =
     kf\<lparr>kf_contexts := dpop session (kf_contexts kf), kf_approvals := dpop session (kf_approvals kf)\<rparr>"

definition observe_flow_invalidation :: "json_obj \<Rightarrow> string \<Rightarrow> json_obj list \<Rightarrow> kernel_flow \<Rightarrow> kernel_flow" where
  "observe_flow_invalidation frame session evidence kf =
     (if flow_killed frame evidence then clear_flow session kf else kf)"

section \<open>Signing under a flow authority\<close>

text \<open>The run and epoch a flow write is signed with: none on the legacy path, and no signature at all
  when durable admission is on and the authority has no run.\<close>

definition flow_run :: "flow_turn \<Rightarrow> flow_approval \<Rightarrow> (string option \<times> string option) option" where
  "flow_run t fa =
     (if \<not> ft_admission t then Some (None, None)
      else if falsy (fa_run fa) then None
      else Some (fa_run fa, Some (ft_epoch t)))"

definition flow_audit :: "json_obj \<Rightarrow> json_obj" where
  "flow_audit e = map (\<lambda>k. (k, get_none e k))
     [''confirm_id'', ''execution_id'', ''call_id'', ''tool_name'', ''args_digest'', ''decider_user_id'', ''owner_user_id'']"

definition flow_effects_of :: "flow_turn \<Rightarrow> json_obj \<Rightarrow> json_obj \<Rightarrow> flow_effect list" where
  "flow_effects_of t e parameters =
     [SaveRequestRecord e] @ (if truthy (get_none e ''session_id'') then [AppendTraceStep e parameters] else [])
     @ [EmitAudit (flow_audit e) (ft_request t) (ft_session t)]"

definition sign_flow_execution ::
  "sign_env \<Rightarrow> flow_turn \<Rightarrow> latch \<Rightarrow> tool_call \<Rightarrow> string \<Rightarrow> kernel_flow \<Rightarrow> (sign_error + json_obj option) \<times> kernel_flow" where
  "sign_flow_execution env t marks tc tool kf =
     (if tool \<notin> set BROWSER_WRITE_TOOLS then (Inr None, kf)
      else if (case ft_guard t of None \<Rightarrow> False | Some g \<Rightarrow> guard_stopped g marks) then (Inr None, kf)
      else if ft_session t = [] then (Inr None, kf)
      else (case (approval_get (ft_mono t) (ft_session t) (kf_approvals kf), dget (kf_contexts kf) (ft_session t)) of
              (Some fa, Some c) \<Rightarrow>
                if context_identity c \<noteq> approval_identity fa then (Inr None, kf)
                else (case kf_requests kf of
                        None \<Rightarrow> (Inr None, kf)
                      | Some reqs \<Rightarrow>
                          if ft_key t = [] \<or> tc_id tc = [] then (Inr None, kf)
                          else (case flow_run t fa of
                                  None \<Rightarrow> (Inr None, kf)
                                | Some (run_id, epoch) \<Rightarrow>
                                    (let ps = parse_parameters (sn_loads env) tc;
                                         requester = (if ft_target_auth t then ft_requester t else None);
                                         decider = (if requester \<noteq> None then ft_decider t else None)
                                     in case build_flow_request env (tc_id tc) tool ps fa (ft_key t) run_id epoch 900
                                               requester decider (ft_fresh t) (ft_wall t) of
                                          Inl DelegatedIdentityError \<Rightarrow> (Inr None, kf)
                                        | Inl e \<Rightarrow> (Inl e, kf)
                                        | Inr e \<Rightarrow>
                                            (Inr (Some e),
                                             kf\<lparr>kf_requests := Some (dset (tc_id tc) e reqs),
                                                kf_effects := kf_effects kf @ flow_effects_of t e ps\<rparr>))))
            | _ \<Rightarrow> (Inr None, kf)))"

section \<open>Histories\<close>

datatype kernel_op =
    KApprove int int pending_conf string string
  | KFrame int json_obj string "json_obj list"
  | KSign sign_env flow_turn latch tool_call string
  | KTurn "(string, json_obj) dict option"
  | KDelete string

definition kernel_step :: "kernel_op \<Rightarrow> kernel_flow \<Rightarrow> kernel_flow" where
  "kernel_step op kf =
     (case op of
        KApprove ttl now p decider session \<Rightarrow> record_flow_approval ttl now p decider session kf
      | KFrame now frame session evidence \<Rightarrow>
          observe_flow_invalidation frame session evidence (observe_flow_binding now frame session kf)
      | KSign env t marks tc tool \<Rightarrow> snd (sign_flow_execution env t marks tc tool kf)
      | KTurn reqs \<Rightarrow> kf\<lparr>kf_requests := reqs\<rparr>
      | KDelete session \<Rightarrow> clear_flow session kf)"

definition no_flows :: kernel_flow where
  "no_flows = \<lparr>kf_contexts = [], kf_approvals = [], kf_requests = None, kf_effects = []\<rparr>"

text \<open>The steps that end the flow of a session.\<close>

definition ends_flow :: "string \<Rightarrow> kernel_op \<Rightarrow> bool" where
  "ends_flow session op =
     (case op of
        KFrame now frame s evidence \<Rightarrow> s = session \<and> flow_killed frame evidence
      | KDelete s \<Rightarrow> s = session
      | _ \<Rightarrow> False)"

section \<open>Where an authority comes from\<close>

definition approval_of :: "int \<Rightarrow> int \<Rightarrow> pending_conf \<Rightarrow> string \<Rightarrow> string \<Rightarrow> flow_approval" where
  "approval_of ttl now p decider session =
     \<lparr>fa_session = session, fa_confirm = pc_confirm p, fa_owner = pc_user p, fa_decider = decider,
      fa_skill = str_or (pc_flow p) ''skill_id'' [], fa_origin = str_or (pc_flow p) ''origin'' [], fa_ttl = ttl, fa_at = now,
      fa_run = pc_run p\<rparr>"

definition arms_flow :: "pending_conf \<Rightarrow> bool" where
  "arms_flow p \<longleftrightarrow> batch_has_browser_write p \<and> str_or (pc_flow p) ''risk_class'' [] = ''write''
     \<and> (str_or (pc_flow p) ''skill_id'' [] \<noteq> [] \<or> str_or (pc_flow p) ''origin'' [] \<noteq> [])"

lemma record_flow_approval_eq:
  "record_flow_approval ttl now p decider session kf =
     (if arms_flow p then kf\<lparr>kf_approvals := dset session (approval_of ttl now p decider session) (kf_approvals kf)\<rparr> else kf)"
  by (simp add: record_flow_approval_def arms_flow_def approval_of_def approval_record_def Let_def)

lemma sign_flow_stores:
  "kf_approvals (snd (sign_flow_execution env t marks tc tool kf)) = kf_approvals kf"
  "kf_contexts (snd (sign_flow_execution env t marks tc tool kf)) = kf_contexts kf"
  by (simp_all add: sign_flow_execution_def Let_def split: option.split sum.split sign_error.split)

lemma observe_binding_approvals: "kf_approvals (observe_flow_binding now frame session kf) = kf_approvals kf"
  by (simp add: observe_flow_binding_def split: val.split)

lemma kernel_step_approvals:
  assumes "dget (kf_approvals (kernel_step op kf)) s = Some fa"
  shows "(dget (kf_approvals kf) s = Some fa \<and> \<not> ends_flow s op)
    \<or> (\<exists>ttl now p d. op = KApprove ttl now p d s \<and> arms_flow p \<and> fa = approval_of ttl now p d s)"
  using assms
  by (cases op) (auto simp: kernel_step_def record_flow_approval_eq ends_flow_def observe_flow_invalidation_def clear_flow_def
      observe_binding_approvals sign_flow_stores split: if_split_asm)

lemma approval_provenance:
  "dget (kf_approvals (fold kernel_step ops no_flows)) s = Some fa \<Longrightarrow>
   \<exists>pre post ttl now p d. ops = pre @ KApprove ttl now p d s # post \<and> list_all (\<lambda>op. \<not> ends_flow s op) post
     \<and> arms_flow p \<and> fa = approval_of ttl now p d s"
proof (induction ops rule: rev_induct)
  case Nil
  then show ?case by (simp add: no_flows_def)
next
  case (snoc op ops)
  from snoc.prems have "dget (kf_approvals (kernel_step op (fold kernel_step ops no_flows))) s = Some fa" by simp
  from kernel_step_approvals [OF this] show ?case
  proof (elim disjE conjE exE)
    assume "dget (kf_approvals (fold kernel_step ops no_flows)) s = Some fa" and "\<not> ends_flow s op"
    with snoc.IH obtain pre post ttl now p d where "ops = pre @ KApprove ttl now p d s # post"
      "list_all (\<lambda>op. \<not> ends_flow s op) (post @ [op])" "arms_flow p" "fa = approval_of ttl now p d s" by auto
    then show ?thesis by (metis append_Cons append_assoc)
  next
    fix ttl now p d
    assume "op = KApprove ttl now p d s" and "arms_flow p" and "fa = approval_of ttl now p d s"
    then show ?thesis by (intro exI [of _ ops] exI [of _ "[]"]) auto
  qed
qed

section \<open>What a flow signature needs\<close>

lemma sign_flow_Some:
  assumes "sign_flow_execution env t marks tc tool kf = (Inr (Some e), kf')"
  obtains fa c reqs run_id epoch requester decider where "tool \<in> set BROWSER_WRITE_TOOLS"
    and "case ft_guard t of None \<Rightarrow> True | Some g \<Rightarrow> \<not> guard_stopped g marks" and "ft_session t \<noteq> []"
    and "dget (kf_approvals kf) (ft_session t) = Some fa" and "\<not> approval_expired (ft_mono t) fa"
    and "dget (kf_contexts kf) (ft_session t) = Some c" and "context_identity c = approval_identity fa"
    and "kf_requests kf = Some reqs" and "ft_key t \<noteq> []" and "tc_id tc \<noteq> []" and "flow_run t fa = Some (run_id, epoch)"
    and "build_flow_request env (tc_id tc) tool (parse_parameters (sn_loads env) tc) fa (ft_key t) run_id epoch 900
           requester decider (ft_fresh t) (ft_wall t) = Inr e"
    and "kf' = kf\<lparr>kf_requests := Some (dset (tc_id tc) e reqs),
                  kf_effects := kf_effects kf @ flow_effects_of t e (parse_parameters (sn_loads env) tc)\<rparr>"
  using assms
  by (auto simp: sign_flow_execution_def approval_get_def Let_def split: if_split_asm option.split_asm sum.split_asm
      sign_error.split_asm prod.split_asm)

lemma dget_dupdate_base: "dget (rev fs) k = Some v \<Longrightarrow> dget (dupdate d fs) k = Some v"
  by (simp add: dget_dupdate)

lemma flow_request_keeps:
  assumes "build_flow_request env call_id tool ps fa key run_id epoch lifetime requester decider execution now = Inr e"
    and "k \<notin> set (''signature'' # IDENTITY_KEYS @ WINDOW_KEYS)" and "dget (rev (flow_fields env fa call_id tool ps execution now)) k = Some v"
  shows "dget e k = Some v"
proof -
  from assms(1) obtain ids e1 where w: "with_window env (sn_utc env now) run_id epoch lifetime
      (dupdate ids (flow_fields env fa call_id tool ps execution now)) = Inr e1" and e: "e = add_signature env key e1"
    by (auto simp: build_flow_request_def simp del: rbind_Inr_iff elim!: rbindE)
  from with_window_keeps [OF w, of k] assms(2,3) show ?thesis
    by (simp add: e add_signature_def dget_dupdate_base)
qed

lemma flow_request_valid:
  assumes "build_flow_request env call_id tool ps fa key (Some run) (Some epoch) lifetime requester decider execution now = Inr e"
    and "iso_roundtrip (sn_proto env)" and "key \<noteq> []"
    and "schema_ok (sn_proto env) ''execution-request'' (VDict e)" "length (canonical_json (VDict e)) \<le> 8192"
  shows "validate_request (sn_proto env) (VDict e) key = Inr e"
proof -
  from assms(1) obtain ids e1 where w: "with_window env (sn_utc env now) (Some run) (Some epoch) lifetime
      (dupdate ids (flow_fields env fa call_id tool ps execution now)) = Inr e1"
    and e: "e = add_signature env key (dupdate e1 [])"
    by (auto simp: build_flow_request_def dupdate_def simp del: rbind_Inr_iff elim!: rbindE)
  show ?thesis by (rule windowed_request_valid [OF w e _ _ assms(3,2,4,5)]) (simp_all add: dget_dupdate flow_fields_def)
qed

text \<open>
  C39. An auto-signed browser write goes back to one operator decision: whenever
  \<open>_sign_flow_execution\<close> returns a request, after any history of approvals, tool results,
  signatures and session deletions, the tool is a browser write, the turn's run is not stopped, and
  the session has an approval recorded at most its positive time-to-live ago for a parked batch
  that itself held a browser write under a bound write-class flow, whose identity is still the one
  the session is bound to; since then nothing ended that flow. The request carries that card's
  confirmation, owner and decider, the kind \<open>flow\<close> and the digest of this call's own arguments,
  it is persisted before it is traced and audited, and under durable admission it needs the card's
  run and passes the worker's validation.
\<close>

theorem flow_signature_provenance:
  assumes "sign_flow_execution env t marks tc tool (fold kernel_step ops no_flows) = (Inr (Some e), kf')"
  shows "\<exists>pre post ttl now p d c. ops = pre @ KApprove ttl now p d (ft_session t) # post
    \<and> list_all (\<lambda>op. \<not> ends_flow (ft_session t) op) post
    \<and> batch_has_browser_write p \<and> str_or (pc_flow p) ''risk_class'' [] = ''write''
    \<and> tool \<in> set BROWSER_WRITE_TOOLS \<and> 0 < ttl \<and> ft_mono t - now \<le> ttl
    \<and> dget (kf_contexts (fold kernel_step ops no_flows)) (ft_session t) = Some c
    \<and> context_identity c = (str_or (pc_flow p) ''skill_id'' [], str_or (pc_flow p) ''origin'' [])
    \<and> (case ft_guard t of None \<Rightarrow> True | Some g \<Rightarrow> latch_reason (ri_run (gd_identity g)) marks = None)
    \<and> dget e ''confirm_id'' = Some (VStr (pc_confirm p)) \<and> dget e ''owner_user_id'' = Some (VStr (pc_user p))
    \<and> dget e ''decider_user_id'' = Some (VStr d) \<and> dget e ''session_id'' = Some (VStr (ft_session t))
    \<and> dget e ''approval_kind'' = Some (VStr ''flow'') \<and> dget e ''tool_name'' = Some (VStr tool)
    \<and> dget e ''call_id'' = Some (VStr (tc_id tc))
    \<and> dget e ''args_digest'' = Some (VStr (canonical_digest (cr (sn_proto env)) (VDict (parse_parameters (sn_loads env) tc))))
    \<and> kf_effects kf' = kf_effects (fold kernel_step ops no_flows)
         @ [SaveRequestRecord e, AppendTraceStep e (parse_parameters (sn_loads env) tc),
            EmitAudit (flow_audit e) (ft_request t) (ft_session t)]
    \<and> (ft_admission t \<longrightarrow> (\<exists>run. pc_run p = Some run \<and> run \<noteq> [])
         \<and> (iso_roundtrip (sn_proto env) \<and> schema_ok (sn_proto env) ''execution-request'' (VDict e)
              \<and> length (canonical_json (VDict e)) \<le> 8192 \<longrightarrow>
            validate_request (sn_proto env) (VDict e) (ft_key t) = Inr e))"
proof -
  let ?kf = "fold kernel_step ops no_flows" and ?s = "ft_session t" and ?ps = "parse_parameters (sn_loads env) tc"
  from assms obtain fa c reqs run_id epoch requester decider where tool: "tool \<in> set BROWSER_WRITE_TOOLS"
    and guard: "case ft_guard t of None \<Rightarrow> True | Some g \<Rightarrow> \<not> guard_stopped g marks" and sess: "?s \<noteq> []"
    and fa: "dget (kf_approvals ?kf) ?s = Some fa" "\<not> approval_expired (ft_mono t) fa"
    and c: "dget (kf_contexts ?kf) ?s = Some c" "context_identity c = approval_identity fa"
    and "kf_requests ?kf = Some reqs" and key: "ft_key t \<noteq> []" and "tc_id tc \<noteq> []" and run: "flow_run t fa = Some (run_id, epoch)"
    and b: "build_flow_request env (tc_id tc) tool ?ps fa (ft_key t) run_id epoch 900
           requester decider (ft_fresh t) (ft_wall t) = Inr e"
    and kf': "kf' = ?kf\<lparr>kf_requests := Some (dset (tc_id tc) e reqs),
                  kf_effects := kf_effects ?kf @ flow_effects_of t e ?ps\<rparr>"
    by (rule sign_flow_Some)
  from approval_provenance [OF fa(1)] obtain pre post ttl now p d where ops: "ops = pre @ KApprove ttl now p d ?s # post"
      "list_all (\<lambda>op. \<not> ends_flow ?s op) post" "arms_flow p" and fe: "fa = approval_of ttl now p d ?s" by blast
  note keep = flow_request_keeps [OF b]
  have f: "dget e ''confirm_id'' = Some (VStr (pc_confirm p))" "dget e ''owner_user_id'' = Some (VStr (pc_user p))"
    "dget e ''decider_user_id'' = Some (VStr d)" "dget e ''session_id'' = Some (VStr ?s)"
    "dget e ''approval_kind'' = Some (VStr ''flow'')" "dget e ''tool_name'' = Some (VStr tool)"
    "dget e ''call_id'' = Some (VStr (tc_id tc))" "dget e ''args_digest'' = Some (VStr (canonical_digest (cr (sn_proto env)) (VDict ?ps)))"
    by (rule keep; simp add: IDENTITY_KEYS_def WINDOW_KEYS_def flow_fields_def fe approval_of_def)+
  have eff: "kf_effects kf' = kf_effects ?kf @ [SaveRequestRecord e, AppendTraceStep e ?ps, EmitAudit (flow_audit e) (ft_request t) ?s]"
    using f(4) sess by (simp add: kf' flow_effects_of_def get_none_def)
  have adm: "(\<exists>run. pc_run p = Some run \<and> run \<noteq> [])
         \<and> (iso_roundtrip (sn_proto env) \<and> schema_ok (sn_proto env) ''execution-request'' (VDict e)
              \<and> length (canonical_json (VDict e)) \<le> 8192 \<longrightarrow>
            validate_request (sn_proto env) (VDict e) (ft_key t) = Inr e)" if "ft_admission t"
  proof -
    from run that obtain r where r: "pc_run p = Some r" "r \<noteq> []" "run_id = Some r" "epoch = Some (ft_epoch t)"
      by (auto simp: flow_run_def falsy_def fe approval_of_def split: if_split_asm option.split_asm)
    with flow_request_valid [OF b [unfolded r(3,4)] _ key] show ?thesis by blast
  qed
  from fa(2) have life: "0 < ttl" "ft_mono t - now \<le> ttl" by (auto simp: approval_expired_def fe approval_of_def split: if_split_asm)
  have guard': "case ft_guard t of None \<Rightarrow> True | Some g \<Rightarrow> latch_reason (ri_run (gd_identity g)) marks = None"
    using guard by (simp add: guard_stopped_def split: option.split_asm option.split)
  have ident: "context_identity c = (str_or (pc_flow p) ''skill_id'' [], str_or (pc_flow p) ''origin'' [])"
    using c(2) by (simp add: approval_identity_def fe approval_of_def)
  from ops(3) have "batch_has_browser_write p" "str_or (pc_flow p) ''risk_class'' [] = ''write''" by (simp_all add: arms_flow_def)
  with ops(1,2) tool life c(1) ident guard' f eff adm show ?thesis by blast
qed

section \<open>A concrete flow\<close>

definition demo_flow_pending :: pending_conf where
  "demo_flow_pending = demo_pending\<lparr>pc_calls := [\<lparr>tc_name = ''web_click'', tc_id = ''k1'', tc_input = []\<rparr>],
     pc_names := [(''web_click'', ''web.click'')],
     pc_flow := [(''skill_id'', VStr ''sk''), (''origin'', VStr ''https://x''), (''risk_class'', VStr ''write'')]\<rparr>"

definition demo_navigate :: json_obj where
  "demo_navigate = [(''type'', VStr ''tool_result''), (''tool_name'', VStr ''web.navigate''), (''status'', VStr ''success''),
     (''data'', VDict [(''flow'', VDict [(''skill_id'', VStr ''sk''), (''origin'', VStr ''https://x'')])])]"

definition demo_flow_ops :: "kernel_op list" where
  "demo_flow_ops = [KFrame 0 demo_navigate ''s1'' [], KApprove 60 1 demo_flow_pending ''u2'' ''s1'', KTurn (Some [])]"

definition demo_flow_turn :: flow_turn where
  "demo_flow_turn = \<lparr>ft_session = ''s1'', ft_guard = None, ft_key = ''k'', ft_admission = False, ft_epoch = [],
     ft_target_auth = False, ft_requester = None, ft_decider = None, ft_request = ''q1'', ft_mono = 5, ft_wall = 5,
     ft_fresh = ''e9''\<rparr>"

definition demo_click :: tool_call where
  "demo_click = \<lparr>tc_name = ''web_click'', tc_id = ''k2'', tc_input = []\<rparr>"

lemma demo_flow_state:
  "fold kernel_step demo_flow_ops no_flows
     = no_flows\<lparr>kf_contexts := [(''s1'', \<lparr>fc_session = ''s1'', fc_skill = ''sk'', fc_origin = ''https://x'', fc_title = [],
          fc_description = [], fc_intent = [], fc_risk = ''read'', fc_steps = 0, fc_max = 0, fc_at = 0\<rparr>)],
        kf_approvals := [(''s1'', approval_of 60 1 demo_flow_pending ''u2'' ''s1'')], kf_requests := Some []\<rparr>"
proof -
  have a: "arms_flow demo_flow_pending"
    by (simp add: arms_flow_def batch_has_browser_write_def tool_names_have_browser_write_def tool_names_def demo_flow_pending_def
        BROWSER_WRITE_TOOLS_def str_or_def get_none_def)
  have k: "\<not> flow_killed demo_navigate []"
    by (simp add: flow_killed_def demo_navigate_def get_none_def str_or_def FLOW_KILLING_ERROR_CODES_def Let_def)
  show ?thesis
    using a k by (simp add: demo_flow_ops_def kernel_step_def observe_flow_invalidation_def observe_flow_binding_def
        demo_navigate_def get_none_def context_record_def str_or_def as_int_def record_flow_approval_eq no_flows_def)
qed

lemma demo_flow_signed:
  "\<exists>e kf'. sign_flow_execution demo_sign demo_flow_turn [] demo_click ''web.click'' (fold kernel_step demo_flow_ops no_flows)
     = (Inr (Some e), kf')"
proof -
  have "str_or (pc_flow demo_flow_pending) ''skill_id'' [] = ''sk''" "str_or (pc_flow demo_flow_pending) ''origin'' [] = ''https://x''"
    by (simp_all add: demo_flow_pending_def str_or_def get_none_def)
  then show ?thesis
    by (simp add: demo_flow_state sign_flow_execution_def BROWSER_WRITE_TOOLS_def demo_flow_turn_def approval_get_def
        approval_expired_def approval_of_def context_identity_def approval_identity_def demo_click_def flow_run_def Let_def
        build_flow_request_def checked_identities_def signed_identity_fields_def with_window_def)
qed

theorem flow_signature_provenance_witness:
  "\<exists>e kf'. sign_flow_execution demo_sign demo_flow_turn [] demo_click ''web.click'' (fold kernel_step demo_flow_ops no_flows)
     = (Inr (Some e), kf') \<and> dget e ''confirm_id'' = Some (VStr ''c1'') \<and> dget e ''decider_user_id'' = Some (VStr ''u2'')"
proof -
  obtain e kf' where s: "sign_flow_execution demo_sign demo_flow_turn [] demo_click ''web.click'' (fold kernel_step demo_flow_ops no_flows)
     = (Inr (Some e), kf')" using demo_flow_signed by blast
  have "pc_confirm demo_flow_pending = ''c1''" by (simp add: demo_flow_pending_def demo_pending_def)
  with flow_signature_provenance [OF s] have "dget e ''confirm_id'' = Some (VStr ''c1'') \<and> dget e ''decider_user_id'' = Some (VStr ''u2'')"
    by (auto simp: demo_flow_ops_def Cons_eq_append_conv)
  with s show ?thesis by blast
qed

end
