(* ===== verification/Single_Flight.thy ===== *)
theory Single_Flight
  imports Prelude
begin

text \<open>
  The worker's single-flight registry (\<open>execution_runtime/services/single_flight.py\<close>): concurrent
  calls for one key share the flight of the first. Callers interleave at the two \<open>await\<close>s that
  suspend, the factory's and the future's (the lock is never held across a suspension, so acquiring
  it never suspends): the model is a step relation whose steps are the code between them.
  Flights are addressed, because a caller keeps its flight after the registry forgot it;
  \<open>fl_key\<close> is the owner's argument and \<open>fl_running\<close> says that the owner awaits its factory. A caller
  that is cancelled while it awaits the shared future cancels that future, as asyncio does.
  The monotonic clock is in microseconds.
\<close>

section \<open>Registry\<close>

datatype 'o fut = Waiting | Finished 'o | Cancelled

record 'o flight =
  fl_key :: string
  fl_running :: bool
  fl_future :: "'o fut"
  fl_completed :: "int option"
  fl_outcome :: "'o option"

record 'o flights =
  sf_keys :: "(string, nat) dict"
  sf_flights :: "'o flight list"

definition MAX_COMPLETED_FLIGHTS :: nat where
  "MAX_COMPLETED_FLIGHTS = 4096"

definition new_flight :: "string \<Rightarrow> 'o flight" where
  "new_flight key = \<lparr>fl_key = key, fl_running = True, fl_future = Waiting, fl_completed = None, fl_outcome = None\<rparr>"

definition completed_of :: "'o flights \<Rightarrow> nat \<Rightarrow> int option" where
  "completed_of s a = fl_completed (sf_flights s ! a)"

definition sf_expired :: "int \<Rightarrow> int \<Rightarrow> 'o flights \<Rightarrow> nat \<Rightarrow> bool" where
  "sf_expired retention now s a = (case completed_of s a of None \<Rightarrow> False | Some t \<Rightarrow> retention < now - t)"

definition sf_completed :: "'o flights \<Rightarrow> (string, nat) dict \<Rightarrow> (string, nat) dict" where
  "sf_completed s keys = filter (\<lambda>p. completed_of s (snd p) \<noteq> None) keys"

definition sf_evict :: "int \<Rightarrow> int \<Rightarrow> 'o flights \<Rightarrow> 'o flights" where
  "sf_evict retention now s =
     (let keys = dpops (map fst (filter (\<lambda>p. sf_expired retention now s (snd p)) (sf_keys s))) (sf_keys s);
          completed = sf_completed s keys
      in s\<lparr>sf_keys :=
            if MAX_COMPLETED_FLIGHTS < length completed
            then dpops (map fst (take (length completed - MAX_COMPLETED_FLIGHTS)
                   (sort_key (\<lambda>p. case completed_of s (snd p) of None \<Rightarrow> 0 | Some t \<Rightarrow> t) completed))) keys
            else keys\<rparr>)"

text \<open>The first locked section of \<open>run\<close>: the flight the caller holds and whether it is its owner.\<close>

definition sf_enter :: "int \<Rightarrow> int \<Rightarrow> string \<Rightarrow> 'o flights \<Rightarrow> nat \<times> bool \<times> 'o flights" where
  "sf_enter retention now key s =
     (let s1 = sf_evict retention now s in
      case dget (sf_keys s1) key of
        Some a \<Rightarrow> (a, False, s1)
      | None \<Rightarrow>
          (length (sf_flights s1), True,
           s1\<lparr>sf_keys := dset key (length (sf_flights s1)) (sf_keys s1),
              sf_flights := sf_flights s1 @ [new_flight key]\<rparr>))"

text \<open>
  The owner's factory returned: the flight is completed, and \<open>set_result\<close> raises when a cancelled
  joiner has cancelled the future, which skips the second eviction and the result. That eviction, in the
  second locked section, reads the clock anew and is a step of its own.
\<close>

definition sf_succeed :: "nat \<Rightarrow> 'o \<Rightarrow> int \<Rightarrow> 'o flights \<Rightarrow> ('o \<times> bool) option \<times> 'o flights" where
  "sf_succeed a outcome now s =
     (let fl = (sf_flights s ! a)\<lparr>fl_running := False, fl_outcome := Some outcome, fl_completed := Some now\<rparr> in
      case fl_future fl of
        Waiting \<Rightarrow> (Some (outcome, True), s\<lparr>sf_flights := (sf_flights s)[a := fl\<lparr>fl_future := Finished outcome\<rparr>]\<rparr>)
      | _ \<Rightarrow> (None, s\<lparr>sf_flights := (sf_flights s)[a := fl]\<rparr>))"

definition cancel :: "'o fut \<Rightarrow> 'o fut" where
  "cancel f = (case f of Waiting \<Rightarrow> Cancelled | _ \<Rightarrow> f)"

text \<open>The owner's factory raised: the key is dropped and the future cancelled.\<close>

definition sf_fail :: "nat \<Rightarrow> 'o flights \<Rightarrow> 'o flights" where
  "sf_fail a s =
     s\<lparr>sf_keys := dpop (fl_key (sf_flights s ! a)) (sf_keys s),
       sf_flights := (sf_flights s)[a := (sf_flights s ! a)\<lparr>fl_running := False, fl_future := cancel (fl_future (sf_flights s ! a))\<rparr>]\<rparr>"

text \<open>A joiner returns the future's result (None: it raises); a cancelled joiner cancels it.\<close>

definition sf_join :: "nat \<Rightarrow> 'o flights \<Rightarrow> ('o \<times> bool) option" where
  "sf_join a s = (case fl_future (sf_flights s ! a) of Finished outcome \<Rightarrow> Some (outcome, False) | _ \<Rightarrow> None)"

definition sf_cancel :: "nat \<Rightarrow> 'o flights \<Rightarrow> 'o flights" where
  "sf_cancel a s =
     s\<lparr>sf_flights := (sf_flights s)[a := (sf_flights s ! a)\<lparr>fl_future := cancel (fl_future (sf_flights s ! a))\<rparr>]\<rparr>"

inductive sf_step :: "int \<Rightarrow> 'o flights \<Rightarrow> 'o flights \<Rightarrow> bool" for retention where
  enter: "sf_step retention s (snd (snd (sf_enter retention now key s)))"
| succeed: "a < length (sf_flights s) \<Longrightarrow> fl_running (sf_flights s ! a)
    \<Longrightarrow> sf_step retention s (snd (sf_succeed a outcome now s))"
| tidied: "a < length (sf_flights s) \<Longrightarrow> fl_completed (sf_flights s ! a) \<noteq> None \<Longrightarrow> sf_step retention s (sf_evict retention now s)"
| fail: "a < length (sf_flights s) \<Longrightarrow> fl_running (sf_flights s ! a) \<Longrightarrow> sf_step retention s (sf_fail a s)"
| cancelled: "a < length (sf_flights s) \<Longrightarrow> sf_step retention s (sf_cancel a s)"

abbreviation sf_steps :: "int \<Rightarrow> 'o flights \<Rightarrow> 'o flights \<Rightarrow> bool" where
  "sf_steps retention \<equiv> (sf_step retention)\<^sup>*\<^sup>*"

definition sf_empty :: "'o flights" where
  "sf_empty = \<lparr>sf_keys = [], sf_flights = []\<rparr>"

section \<open>Invariant\<close>

text \<open>
  A registered flight belongs to its key and is running or completed; every running flight is the
  registered one of its key; a finished future holds the outcome of a completed flight.
\<close>

definition registered_ok :: "'o flights \<Rightarrow> bool" where
  "registered_ok s \<longleftrightarrow> (\<forall>k a. dget (sf_keys s) k = Some a \<longrightarrow>
     a < length (sf_flights s) \<and> fl_key (sf_flights s ! a) = k
     \<and> fl_running (sf_flights s ! a) = (fl_completed (sf_flights s ! a) = None))"

definition flight_ok :: "'o flight \<Rightarrow> bool" where
  "flight_ok fl \<longleftrightarrow> (fl_running fl \<longrightarrow> fl_completed fl = None)
     \<and> (\<forall>out. fl_future fl = Finished out \<longrightarrow> \<not> fl_running fl \<and> fl_outcome fl = Some out \<and> fl_completed fl \<noteq> None)
     \<and> (fl_completed fl = None) = (fl_outcome fl = None)"

definition running_ok :: "'o flights \<Rightarrow> bool" where
  "running_ok s \<longleftrightarrow> (\<forall>a < length (sf_flights s). fl_running (sf_flights s ! a) \<longrightarrow>
     dget (sf_keys s) (fl_key (sf_flights s ! a)) = Some a)"

definition sf_inv :: "'o flights \<Rightarrow> bool" where
  "sf_inv s \<longleftrightarrow> dict_ok (sf_keys s) \<and> registered_ok s \<and> running_ok s \<and> (\<forall>fl \<in> set (sf_flights s). flight_ok fl)"

lemma sf_invD:
  assumes "sf_inv s"
  shows "dict_ok (sf_keys s)" "registered_ok s" "running_ok s" "a < length (sf_flights s) \<Longrightarrow> flight_ok (sf_flights s ! a)"
  using assms by (simp_all add: sf_inv_def)

lemma registeredD:
  "registered_ok s \<Longrightarrow> dget (sf_keys s) k = Some a \<Longrightarrow> a < length (sf_flights s) \<and> fl_key (sf_flights s ! a) = k
     \<and> fl_running (sf_flights s ! a) = (fl_completed (sf_flights s ! a) = None)"
  by (simp add: registered_ok_def)

lemma runningD:
  "running_ok s \<Longrightarrow> a < length (sf_flights s) \<Longrightarrow> fl_running (sf_flights s ! a)
     \<Longrightarrow> dget (sf_keys s) (fl_key (sf_flights s ! a)) = Some a"
  by (simp add: running_ok_def)

subsection \<open>Eviction forgets completed flights only\<close>

lemma sf_evict_frame [simp]: "sf_flights (sf_evict retention now s) = sf_flights s"
  by (simp add: sf_evict_def Let_def)

lemma dpops_dpops: "dpops ks (dpops ls d) = dpops (ls @ ks) d"
  by (auto simp: dpops_def intro: filter_cong)

lemma sf_evict_shape:
  obtains gone where "sf_keys (sf_evict retention now s) = dpops gone (sf_keys s)"
    and "\<And>k. k \<in> set gone \<Longrightarrow> \<exists>a. (k, a) \<in> set (sf_keys s) \<and> completed_of s a \<noteq> None"
proof -
  let ?e = "map fst (filter (\<lambda>p. sf_expired retention now s (snd p)) (sf_keys s))"
  let ?c = "sf_completed s (dpops ?e (sf_keys s))"
  let ?f = "\<lambda>p. case completed_of s (snd p) of None \<Rightarrow> 0 | Some t \<Rightarrow> t"
  let ?old = "if MAX_COMPLETED_FLIGHTS < length ?c then map fst (take (length ?c - MAX_COMPLETED_FLIGHTS) (sort_key ?f ?c)) else []"
  have expired: "\<exists>a. (k, a) \<in> set (sf_keys s) \<and> completed_of s a \<noteq> None" if "k \<in> set ?e" for k
    using that by (force simp: sf_expired_def split: option.splits)
  have oldest: "\<exists>a. (k, a) \<in> set (sf_keys s) \<and> completed_of s a \<noteq> None" if "k \<in> set ?old" for k
  proof -
    from that obtain b where "(k, b) \<in> set (take (length ?c - MAX_COMPLETED_FLIGHTS) (sort_key ?f ?c))"
      by (auto split: if_split_asm)
    then have "(k, b) \<in> set ?c" by (metis in_set_takeD set_sort)
    then show ?thesis by (auto simp: sf_completed_def dpops_def)
  qed
  have keys: "sf_keys (sf_evict retention now s) = dpops (?e @ ?old) (sf_keys s)"
    by (simp add: sf_evict_def Let_def dpops_dpops)
  show ?thesis
  proof (rule that [OF keys])
    show "\<exists>a. (k, a) \<in> set (sf_keys s) \<and> completed_of s a \<noteq> None" if "k \<in> set (?e @ ?old)" for k
      using that expired [of k] oldest [of k] unfolding set_append Un_iff by blast
  qed
qed

lemma dget_sf_evict:
  assumes "dict_ok (sf_keys s)" and "dget (sf_keys s) k = Some a" and "completed_of s a = None"
  shows "dget (sf_keys (sf_evict retention now s)) k = Some a"
proof -
  obtain gone where g: "sf_keys (sf_evict retention now s) = dpops gone (sf_keys s)"
    "\<And>k. k \<in> set gone \<Longrightarrow> \<exists>a. (k, a) \<in> set (sf_keys s) \<and> completed_of s a \<noteq> None" by (rule sf_evict_shape) blast
  have "k \<notin> set gone" using g(2) assms by (metis dict_ok_dget option.inject)
  with assms(2) show ?thesis by (simp add: g(1))
qed

lemma dget_sf_evict_old:
  "dget (sf_keys (sf_evict retention now s)) k = Some a \<Longrightarrow> dget (sf_keys s) k = Some a"
  by (simp add: sf_evict_def Let_def split: if_split_asm)

lemma sf_evict_inv [inv_intros]:
  assumes "sf_inv s"
  shows "sf_inv (sf_evict retention now s)"
proof -
  let ?e = "sf_evict retention now s"
  have ok: "dict_ok (sf_keys ?e)" using assms by (simp add: sf_inv_def sf_evict_def Let_def)
  have "registered_ok ?e"
    using registeredD [OF sf_invD(2) [OF assms]] dget_sf_evict_old unfolding registered_ok_def sf_evict_frame by blast
  moreover have "running_ok ?e"
    unfolding running_ok_def sf_evict_frame
  proof (intro allI impI)
    fix a assume a: "a < length (sf_flights s)" "fl_running (sf_flights s ! a)"
    then have "completed_of s a = None" using sf_invD(4) [OF assms a(1)] by (simp add: flight_ok_def completed_of_def)
    with runningD [OF sf_invD(3) [OF assms] a] sf_invD(1) [OF assms]
    show "dget (sf_keys ?e) (fl_key (sf_flights s ! a)) = Some a" by (intro dget_sf_evict)
  qed
  ultimately show ?thesis using assms ok by (simp add: sf_inv_def)
qed

subsection \<open>Steps\<close>

lemma sf_enter_inv [inv_intros]:
  assumes "sf_inv s"
  shows "sf_inv (snd (snd (sf_enter retention now key s)))"
proof -
  let ?s = "sf_evict retention now s"
  have inv: "sf_inv ?s" using assms by (rule sf_evict_inv)
  show ?thesis
  proof (cases "dget (sf_keys ?s) key")
    case None
    define s' where "s' = ?s\<lparr>sf_keys := dset key (length (sf_flights ?s)) (sf_keys ?s),
      sf_flights := sf_flights ?s @ [new_flight key]\<rparr>"
    have "registered_ok s'"
      using sf_invD(2) [OF inv] by (auto simp: registered_ok_def s'_def nth_append new_flight_def less_SucI split: if_split_asm)
    moreover have "fl_key (sf_flights s ! a) \<noteq> key" if "a < length (sf_flights s)" "fl_running (sf_flights s ! a)" for a
      using that runningD [OF sf_invD(3) [OF inv], of a] None by auto
    then have "running_ok s'"
      using sf_invD(3) [OF inv] by (auto simp: running_ok_def s'_def nth_append less_Suc_eq new_flight_def)
    moreover have "flight_ok (new_flight key)" by (simp add: flight_ok_def new_flight_def)
    ultimately have "sf_inv s'" using inv by (auto simp: sf_inv_def s'_def)
    with None show ?thesis by (simp add: sf_enter_def Let_def s'_def)
  next
    case (Some a)
    with inv show ?thesis by (simp add: sf_enter_def Let_def)
  qed
qed

text \<open>
  A step that rewrites one flight keeps the invariant when it keeps the key and stays registered,
  running only if it ran, and well formed.
\<close>

lemma update_flight_inv:
  assumes inv: "sf_inv s" and a: "a < length (sf_flights s)" and ok: "flight_ok fl"
    and key: "fl_key fl = fl_key (sf_flights s ! a)"
    and run: "fl_running fl \<longrightarrow> fl_running (sf_flights s ! a)"
    and reg: "dget (sf_keys s) (fl_key fl) = Some a \<longrightarrow> fl_running fl = (fl_completed fl = None)"
  shows "sf_inv (s\<lparr>sf_flights := (sf_flights s)[a := fl]\<rparr>)"
proof -
  let ?s = "s\<lparr>sf_flights := (sf_flights s)[a := fl]\<rparr>"
  have "registered_ok ?s"
    unfolding registered_ok_def
  proof (intro allI impI)
    fix k b assume "dget (sf_keys ?s) k = Some b"
    with registeredD [OF sf_invD(2) [OF inv], of k b] a key reg
    show "b < length (sf_flights ?s) \<and> fl_key (sf_flights ?s ! b) = k
      \<and> fl_running (sf_flights ?s ! b) = (fl_completed (sf_flights ?s ! b) = None)"
      by (cases "b = a") auto
  qed
  moreover have "running_ok ?s"
    using runningD [OF sf_invD(3) [OF inv]] a key run by (auto simp: running_ok_def nth_list_update)
  moreover have "\<forall>fl \<in> set (sf_flights ?s). flight_ok fl"
    using inv ok set_update_subset_insert [of "sf_flights s" a fl] by (auto simp: sf_inv_def)
  ultimately show ?thesis using sf_invD(1) [OF inv] by (simp add: sf_inv_def)
qed

lemma sf_cancel_inv [inv_intros]:
  assumes "sf_inv s" and "a < length (sf_flights s)"
  shows "sf_inv (sf_cancel a s)"
  unfolding sf_cancel_def
proof (rule update_flight_inv [OF assms])
  show "flight_ok ((sf_flights s ! a)\<lparr>fl_future := cancel (fl_future (sf_flights s ! a))\<rparr>)"
    using sf_invD(4) [OF assms] by (auto simp: flight_ok_def cancel_def split: fut.splits)
qed (use registeredD [OF sf_invD(2) [OF assms(1)]] in auto)

lemma sf_succeed_inv [inv_intros]:
  assumes "sf_inv s" and "a < length (sf_flights s)" and "fl_running (sf_flights s ! a)"
  shows "sf_inv (snd (sf_succeed a outcome now s))"
proof -
  let ?fl = "(sf_flights s ! a)\<lparr>fl_running := False, fl_outcome := Some outcome, fl_completed := Some now\<rparr>"
  have ok: "flight_ok (sf_flights s ! a)" by (rule sf_invD(4) [OF assms(1,2)])
  then have "sf_inv (s\<lparr>sf_flights := (sf_flights s)[a := ?fl]\<rparr>)" if "fl_future (sf_flights s ! a) \<noteq> Waiting"
    using assms that by (intro update_flight_inv) (auto simp: flight_ok_def)
  moreover have "sf_inv (s\<lparr>sf_flights := (sf_flights s)[a := ?fl\<lparr>fl_future := Finished outcome\<rparr>]\<rparr>)"
    using assms by (intro update_flight_inv) (auto simp: flight_ok_def)
  ultimately show ?thesis by (auto simp: sf_succeed_def Let_def split: fut.splits)
qed

lemma sf_fail_inv [inv_intros]:
  assumes "sf_inv s" and "a < length (sf_flights s)" and "fl_running (sf_flights s ! a)"
  shows "sf_inv (sf_fail a s)"
proof -
  let ?k = "fl_key (sf_flights s ! a)"
  let ?fl = "(sf_flights s ! a)\<lparr>fl_running := False, fl_future := cancel (fl_future (sf_flights s ! a))\<rparr>"
  have reg: "dget (sf_keys s) ?k = Some a" using runningD [OF sf_invD(3) [OF assms(1)] assms(2,3)] .
  have ok: "flight_ok ?fl"
    using sf_invD(4) [OF assms(1,2)] assms(3) by (auto simp: flight_ok_def cancel_def split: fut.splits)
  have "registered_ok (sf_fail a s)"
    unfolding registered_ok_def
  proof (intro allI impI)
    fix k b assume "dget (sf_keys (sf_fail a s)) k = Some b"
    then have k: "dget (sf_keys s) k = Some b" "k \<noteq> ?k" by (simp_all add: sf_fail_def split: if_split_asm)
    from registeredD [OF sf_invD(2) [OF assms(1)] k(1)] k(2)
    show "b < length (sf_flights (sf_fail a s)) \<and> fl_key (sf_flights (sf_fail a s) ! b) = k
      \<and> fl_running (sf_flights (sf_fail a s) ! b) = (fl_completed (sf_flights (sf_fail a s) ! b) = None)"
      by (cases "b = a") (auto simp: sf_fail_def)
  qed
  moreover have "running_ok (sf_fail a s)"
    unfolding running_ok_def
  proof (intro allI impI)
    fix b assume "b < length (sf_flights (sf_fail a s))" "fl_running (sf_flights (sf_fail a s) ! b)"
    then have b: "b \<noteq> a" "b < length (sf_flights s)" "fl_running (sf_flights s ! b)"
      using assms(2) by (auto simp: sf_fail_def nth_list_update split: if_split_asm)
    from runningD [OF sf_invD(3) [OF assms(1)] b(2,3)] b(1) reg
    show "dget (sf_keys (sf_fail a s)) (fl_key (sf_flights (sf_fail a s) ! b)) = Some b"
      by (auto simp: sf_fail_def)
  qed
  moreover have "\<forall>fl \<in> set (sf_flights (sf_fail a s)). flight_ok fl"
    using assms(1) ok set_update_subset_insert [of "sf_flights s" a ?fl] by (auto simp: sf_inv_def sf_fail_def)
  ultimately show ?thesis using sf_invD(1) [OF assms(1)] by (simp add: sf_inv_def sf_fail_def)
qed

lemma sf_step_inv: "sf_step retention s s' \<Longrightarrow> sf_inv s \<Longrightarrow> sf_inv s'"
  by (induction rule: sf_step.induct) (auto intro: sf_enter_inv sf_succeed_inv sf_evict_inv sf_fail_inv sf_cancel_inv)

lemma sf_steps_inv: "sf_steps retention s s' \<Longrightarrow> sf_inv s \<Longrightarrow> sf_inv s'"
  by (induction rule: rtranclp_induct) (auto intro: sf_step_inv)

lemma sf_empty_inv [simp]: "sf_inv sf_empty"
  by (simp add: sf_inv_def sf_empty_def registered_ok_def running_ok_def)

section \<open>Bounds and replays\<close>

lemma sf_completed_dpops: "sf_completed s (dpops ks d) = dpops ks (sf_completed s d)"
  by (simp add: sf_completed_def dpops_def conj_commute)

lemma length_dpops_take:
  assumes "mset xs = mset c"
  shows "length (dpops (map fst (take m xs)) c) \<le> length c - m"
proof -
  let ?P = "\<lambda>p. fst p \<notin> set (map fst (take m xs))"
  have "size (filter_mset ?P (mset c)) = size (filter_mset ?P (mset xs))" by (simp only: assms)
  then have c: "length (filter ?P c) = length (filter ?P xs)" by (simp only: mset_filter [symmetric] size_mset)
  have "filter ?P (take m xs @ drop m xs) = filter ?P (drop m xs)"
    unfolding filter_append by (simp add: filter_empty_conv)
  then have "filter ?P xs = filter ?P (drop m xs)" by (simp only: append_take_drop_id)
  then have "length (filter ?P xs) \<le> length xs - m" using length_filter_le [of ?P "drop m xs"] by simp
  with c show ?thesis using mset_eq_length [OF assms] by (simp add: dpops_def)
qed

lemma sf_evict_bound:
  "length (sf_completed s (sf_keys (sf_evict retention now s))) \<le> MAX_COMPLETED_FLIGHTS"
proof -
  let ?c = "sf_completed s (dpops (map fst (filter (\<lambda>p. sf_expired retention now s (snd p)) (sf_keys s))) (sf_keys s))"
  let ?f = "\<lambda>p. case completed_of s (snd p) of None \<Rightarrow> 0 | Some t \<Rightarrow> t"
  have "length (dpops (map fst (take (length ?c - MAX_COMPLETED_FLIGHTS) (sort_key ?f ?c))) ?c)
    \<le> length ?c - (length ?c - MAX_COMPLETED_FLIGHTS)"
    by (rule length_dpops_take) simp
  also have "\<dots> \<le> MAX_COMPLETED_FLIGHTS" by simp
  finally show ?thesis by (simp add: sf_evict_def Let_def sf_completed_dpops)
qed

lemma sf_evict_retains:
  assumes "dict_ok (sf_keys s)" and "dget (sf_keys s) k = Some a" and "\<not> sf_expired retention now s a"
    and "length (sf_completed s (sf_keys s)) \<le> MAX_COMPLETED_FLIGHTS"
  shows "dget (sf_keys (sf_evict retention now s)) k = Some a"
proof -
  let ?e = "map fst (filter (\<lambda>p. sf_expired retention now s (snd p)) (sf_keys s))"
  have "length (dpops ?e (sf_completed s (sf_keys s))) \<le> length (sf_completed s (sf_keys s))"
    by (simp add: dpops_def)
  with assms(4) have "\<not> MAX_COMPLETED_FLIGHTS < length (sf_completed s (dpops ?e (sf_keys s)))"
    by (simp add: sf_completed_dpops)
  moreover have "k \<notin> set ?e"
    using assms(1-3) by (auto dest: dict_ok_pair_unique [of _ _ _ a] simp: dict_ok_dget)
  ultimately show ?thesis using assms(2) by (simp add: sf_evict_def Let_def)
qed

subsection \<open>Finished futures are final\<close>

lemma sf_succeed_nth:
  "b < length (sf_flights s) \<Longrightarrow> fl_future (sf_flights s ! b) = Finished out
   \<Longrightarrow> fl_future (sf_flights (snd (sf_succeed a outcome now s)) ! b) = Finished out"
  by (cases "b = a") (auto simp: sf_succeed_def Let_def split: fut.splits)

lemma sf_step_finished:
  assumes "sf_step retention s s'" and "b < length (sf_flights s)" and "fl_future (sf_flights s ! b) = Finished out"
  shows "b < length (sf_flights s') \<and> fl_future (sf_flights s' ! b) = Finished out"
  using assms
proof (cases rule: sf_step.cases)
  case (enter now key)
  with assms(2,3) show ?thesis by (auto simp: sf_enter_def Let_def nth_append split: option.splits)
next
  case (succeed a outcome now)
  have "length (sf_flights s') = length (sf_flights s)"
    by (simp add: succeed(1) sf_succeed_def Let_def split: fut.splits)
  with assms(2,3) sf_succeed_nth [of b s out a outcome now] show ?thesis by (simp add: succeed(1))
next
  case (tidied a now)
  with assms(2,3) show ?thesis by simp
next
  case (fail a)
  with assms(2,3) show ?thesis by (cases "b = a") (auto simp: sf_fail_def cancel_def)
next
  case (cancelled a)
  with assms(2,3) show ?thesis by (cases "b = a") (auto simp: sf_cancel_def cancel_def)
qed

lemma sf_steps_finished:
  "sf_steps retention s s' \<Longrightarrow> b < length (sf_flights s) \<Longrightarrow> fl_future (sf_flights s ! b) = Finished out
   \<Longrightarrow> b < length (sf_flights s') \<and> fl_future (sf_flights s' ! b) = Finished out"
  by (induction rule: rtranclp_induct) (auto dest: sf_step_finished)

section \<open>One flight per key\<close>

definition running_at :: "'o flights \<Rightarrow> string \<Rightarrow> nat \<Rightarrow> bool" where
  "running_at s key a \<longleftrightarrow> a < length (sf_flights s) \<and> fl_running (sf_flights s ! a) \<and> fl_key (sf_flights s ! a) = key"

lemma running_registered:
  "sf_inv s \<Longrightarrow> running_at s key a \<Longrightarrow> dget (sf_keys s) key = Some a"
  by (auto simp: running_at_def sf_inv_def running_ok_def)

text \<open>What a caller gets on entering: its own new flight, or the running or completed one of its key.\<close>

lemma sf_enter_owner:
  assumes inv: "sf_inv s" and e: "sf_enter retention now key s = (a, True, s')"
  shows "sf_flights s' = sf_flights s @ [new_flight key] \<and> a = length (sf_flights s) \<and> (\<forall>b. \<not> running_at s key b)"
proof -
  from e have none: "dget (sf_keys (sf_evict retention now s)) key = None"
    and s': "sf_flights s' = sf_flights s @ [new_flight key]" "a = length (sf_flights s)"
    by (auto simp: sf_enter_def Let_def split: option.splits)
  have "\<not> running_at s key b" for b
  proof
    assume "running_at s key b"
    then have "running_at (sf_evict retention now s) key b" by (simp add: running_at_def)
    with none running_registered [OF sf_evict_inv [OF inv]] show False by simp
  qed
  with s' show ?thesis by simp
qed

lemma sf_enter_join:
  assumes inv: "sf_inv s" and e: "sf_enter retention now key s = (a, False, s')"
  shows "sf_flights s' = sf_flights s \<and> fl_key (sf_flights s ! a) = key
    \<and> (running_at s key a \<or> fl_outcome (sf_flights s ! a) \<noteq> None)"
proof -
  from e have some: "dget (sf_keys (sf_evict retention now s)) key = Some a" and s': "sf_flights s' = sf_flights s"
    by (auto simp: sf_enter_def Let_def split: option.splits)
  from registeredD [OF sf_invD(2) [OF inv] dget_sf_evict_old [OF some]] sf_invD(4) [OF inv, of a] s'
  show ?thesis by (auto simp: running_at_def flight_ok_def)
qed

lemma sf_enter_bound:
  assumes inv: "sf_inv s" and e: "sf_enter retention now key s = (a, owner, s')"
  shows "length (sf_completed s' (sf_keys s')) \<le> MAX_COMPLETED_FLIGHTS"
proof -
  let ?e = "sf_evict retention now s"
  have mem: "b < length (sf_flights s)" if "(k, b) \<in> set (sf_keys ?e)" for k b
    using that registeredD [OF sf_invD(2) [OF sf_evict_inv [OF inv]], of retention now k b]
      sf_invD(1) [OF sf_evict_inv [OF inv]] by (simp add: dict_ok_dget)
  show ?thesis
  proof (cases owner)
    case True
    with e have none: "dget (sf_keys ?e) key = None"
      and keys: "sf_keys s' = dset key (length (sf_flights s)) (sf_keys ?e)"
      by (auto simp: sf_enter_def Let_def split: option.splits)
    have fl: "sf_flights s' = sf_flights s @ [new_flight key]" using sf_enter_owner [OF inv] e True by simp
    have "sf_keys s' = sf_keys ?e @ [(key, length (sf_flights s))]"
      using none by (simp add: keys dset_notin dhas_dget)
    moreover have "filter (\<lambda>p. completed_of s' (snd p) \<noteq> None) (sf_keys ?e) = filter (\<lambda>p. completed_of s (snd p) \<noteq> None) (sf_keys ?e)"
      using mem by (intro filter_cong) (auto simp: completed_of_def fl nth_append)
    ultimately have "sf_completed s' (sf_keys s') = sf_completed s (sf_keys ?e)"
      by (simp add: sf_completed_def completed_of_def fl new_flight_def)
    with sf_evict_bound [of s retention now] show ?thesis by simp
  next
    case False
    with e have "s' = ?e" by (auto simp: sf_enter_def Let_def split: option.splits)
    with sf_evict_bound [of s retention now] show ?thesis by (simp add: sf_completed_def completed_of_def)
  qed
qed

lemma sf_enter_replay:
  assumes inv: "sf_inv s" and reg: "dget (sf_keys s) key = Some a"
    and fin: "fl_future (sf_flights s ! a) = Finished out" and age: "\<not> sf_expired retention now s a"
    and cap: "length (sf_completed s (sf_keys s)) \<le> MAX_COMPLETED_FLIGHTS"
  shows "sf_enter retention now key s = (a, False, sf_evict retention now s) \<and> sf_join a s = Some (out, False)"
  using sf_evict_retains [OF sf_invD(1) [OF inv] reg age cap] fin by (simp add: sf_enter_def Let_def sf_join_def)

text \<open>
  C40. In every interleaving of callers, completions, failures and cancellations: the factories of
  two flights of one key never run at the same time; a caller starts a factory only when none of its
  key runs, and otherwise joins, without creating one, the running flight of its key or one whose
  factory returned; the registry then keeps at most 4096 completed flights; a result a joiner can read
  never changes; and a flight that finished within the retention answers a repeat with its outcome,
  as long as the cap is respected.
\<close>

theorem single_flight_per_key:
  assumes reach: "sf_steps retention sf_empty s"
  shows "(\<forall>key a b. running_at s key a \<and> running_at s key b \<longrightarrow> a = b)
    \<and> (\<forall>now key a s'. sf_enter retention now key s = (a, True, s') \<longrightarrow>
         sf_flights s' = sf_flights s @ [new_flight key] \<and> a = length (sf_flights s) \<and> (\<forall>b. \<not> running_at s key b))
    \<and> (\<forall>now key a s'. sf_enter retention now key s = (a, False, s') \<longrightarrow>
         sf_flights s' = sf_flights s \<and> fl_key (sf_flights s ! a) = key
         \<and> (running_at s key a \<or> fl_outcome (sf_flights s ! a) \<noteq> None))
    \<and> (\<forall>now key a owner s'. sf_enter retention now key s = (a, owner, s') \<longrightarrow>
         length (sf_completed s' (sf_keys s')) \<le> MAX_COMPLETED_FLIGHTS)
    \<and> (\<forall>s' a r. sf_steps retention s s' \<and> a < length (sf_flights s) \<and> sf_join a s = Some r \<longrightarrow> sf_join a s' = Some r)
    \<and> (\<forall>now key a out. dget (sf_keys s) key = Some a \<and> fl_future (sf_flights s ! a) = Finished out
         \<and> \<not> sf_expired retention now s a \<and> length (sf_completed s (sf_keys s)) \<le> MAX_COMPLETED_FLIGHTS \<longrightarrow>
         sf_enter retention now key s = (a, False, sf_evict retention now s) \<and> sf_join a s = Some (out, False))"
proof -
  have inv: "sf_inv s" using reach sf_empty_inv by (rule sf_steps_inv)
  show ?thesis
  proof (intro conjI allI impI; (elim conjE)?)
    show "a = b" if "running_at s key a" "running_at s key b" for key a b
      using running_registered [OF inv that(1)] running_registered [OF inv that(2)] by simp
    show "sf_join a s' = Some r" if "sf_steps retention s s'" "a < length (sf_flights s)" "sf_join a s = Some r" for s' a r
      using sf_steps_finished [OF that(1,2)] that(3) by (fastforce simp: sf_join_def split: fut.splits)
    show "sf_enter retention now key s = (a, False, sf_evict retention now s)" "sf_join a s = Some (out, False)"
      if "dget (sf_keys s) key = Some a" "fl_future (sf_flights s ! a) = Finished out" "\<not> sf_expired retention now s a"
        "length (sf_completed s (sf_keys s)) \<le> MAX_COMPLETED_FLIGHTS" for now key a out
      using sf_enter_replay [OF inv that] by simp_all
  qed (use sf_enter_owner [OF inv] sf_enter_join [OF inv] sf_enter_bound [OF inv] in \<open>blast+\<close>)
qed

definition demo_flights :: "string flights" where
  "demo_flights = snd (sf_succeed 0 ''done'' 5 (snd (snd (sf_enter 900 0 ''e-1'' sf_empty))))"

lemma demo_flights_reachable: "sf_steps 900 sf_empty demo_flights"
proof -
  let ?s = "snd (snd (sf_enter 900 0 ''e-1'' sf_empty)) :: string flights"
  have "sf_step 900 sf_empty ?s" by (rule sf_step.enter)
  moreover have "sf_step 900 ?s demo_flights"
    unfolding demo_flights_def by (rule sf_step.succeed) (simp_all add: sf_enter_def sf_evict_def sf_empty_def Let_def new_flight_def sf_completed_def)
  ultimately show ?thesis by (meson rtranclp.rtrancl_into_rtrancl rtranclp.rtrancl_refl)
qed

lemmas sf_eval = demo_flights_def sf_enter_def sf_succeed_def sf_evict_def sf_empty_def new_flight_def
  sf_completed_def completed_of_def sf_expired_def sf_join_def dpops_def MAX_COMPLETED_FLIGHTS_def Let_def

theorem single_flight_per_key_witness:
  "sf_enter 900 100 ''e-1'' demo_flights = (0, False, sf_evict 900 100 demo_flights)
   \<and> sf_join 0 demo_flights = Some (''done'', False)"
proof -
  have "dget (sf_keys demo_flights) ''e-1'' = Some 0 \<and> fl_future (sf_flights demo_flights ! 0) = Finished ''done''
    \<and> \<not> sf_expired 900 100 demo_flights 0 \<and> length (sf_completed demo_flights (sf_keys demo_flights)) \<le> MAX_COMPLETED_FLIGHTS"
    by (simp add: sf_eval)
  then show ?thesis using single_flight_per_key [OF demo_flights_reachable] by blast
qed

text \<open>
  A cancelled joiner spoils the flight of the others: the future it awaited is cancelled, the owner's
  \<open>set_result\<close> raises after a factory that succeeded, and the registry keeps serving the cancelled
  flight to every repeat within the retention.
\<close>

lemma cancelled_joiner_spoils_flight:
  assumes "s = sf_cancel 0 (snd (snd (sf_enter 900 0 ''e-1'' sf_empty)))"
  shows "fst (sf_succeed 0 ''done'' 5 s) = None
    \<and> fst (sf_enter 900 100 ''e-1'' (snd (sf_succeed 0 ''done'' 5 s))) = 0
    \<and> fl_future (sf_flights (snd (sf_succeed 0 ''done'' 5 s)) ! 0) = Cancelled
    \<and> fl_outcome (sf_flights (snd (sf_succeed 0 ''done'' 5 s)) ! 0) = Some ''done''"
  unfolding assms by (simp add: sf_eval sf_cancel_def cancel_def)

end
