(* ===== verification/Agent_Invocation.thy ===== *)
theory Agent_Invocation
  imports Original_Response Executor
begin

text \<open>
  The agent's side of one approved mutating call: the v3 exchange with the worker
  (\<open>services/execution_worker_client.py\<close>), the coordinator that registers, dispatches and durably
  accepts (\<open>services/execution_invocation.py\<close>), and the tool closures that choose between a worker
  handoff and a plain gateway call (\<open>tools/gateway_tools.py\<close>). What leaves the process is a log of
  posts; the peer's answer to a post is an argument. While a post is answered, other calls of the
  process and other actors on the ledger may do anything (a list of \<open>guard_op\<close>). Absent text is
  \<open>[]\<close>; the signing key alone keeps \<open>None\<close> apart, because signing with no key raises.
\<close>

section \<open>Worker client\<close>

datatype wire_out =
    WireTimeout
  | WireTransport
  | WireRaise
  | WireResponse int "string option" "val option"

record worker_post =
  wp_url :: string
  wp_auth :: string
  wp_request_id :: "string option"
  wp_body :: json_obj

text \<open>The settings the client reads; the timeout is in microseconds, \<open>None\<close> when not a number.\<close>

record client_settings =
  cs_worker_url :: string
  cs_handoff_token :: string
  cs_key :: "string option"
  cs_timeout :: "int option"

definition HANDOFF_PATH :: string where
  "HANDOFF_PATH = ''/api/v1/executions/handoff''"

definition key_text :: "string option \<Rightarrow> string" where
  "key_text k = (case k of None \<Rightarrow> [] | Some s \<Rightarrow> s)"

definition has_quartet :: "json_obj \<Rightarrow> bool" where
  "has_quartet envelope = list_all (dhas envelope) IDENTITY_FIELDS"

definition blank :: "string option \<Rightarrow> bool" where
  "blank t = (case t of None \<Rightarrow> True | Some s \<Rightarrow> strip s = [])"

text \<open>The checks of \<open>handoff_original\<close> before any byte is sent.\<close>

definition precheck ::
  "proto_env \<Rightarrow> client_settings \<Rightarrow> json_obj \<Rightarrow> json_obj \<Rightarrow> string option \<Rightarrow> string option \<Rightarrow> string \<Rightarrow> exc + unit" where
  "precheck env st request arguments delegated requester attempt =
     rbind (validate_request env (VDict request) (key_text (cs_key st))) (\<lambda>_.
     rbind (if has_quartet request then require (\<not> blank requester) (ProtocolError ''credential_missing'')
            else require (requester = None) (ProtocolError ''bad_request'')) (\<lambda>_.
     rbind (require (cs_worker_url st \<noteq> [] \<and> cs_handoff_token st \<noteq> []) (ProtocolError ''gateway_not_configured'')) (\<lambda>_.
     rbind (require (\<not> blank delegated) (ProtocolError ''credential_missing'')) (\<lambda>_.
     rbind (fld request ''args_digest'') (\<lambda>ad.
     rbind (require (VStr (canonical_digest (cr env) (VDict arguments)) = ad) (ProtocolError ''args_digest_mismatch'')) (\<lambda>_.
     rbind (require (safe_request_id attempt) (ProtocolError ''bad_request'')) (\<lambda>_.
     require (case cs_timeout st of None \<Rightarrow> False | Some t \<Rightarrow> 0 < t \<and> t \<le> seconds 120) (ProtocolError ''bad_request''))))))))"

definition original_post :: "client_settings \<Rightarrow> json_obj \<Rightarrow> json_obj \<Rightarrow> string option \<Rightarrow> string option \<Rightarrow> string \<Rightarrow> worker_post" where
  "original_post st request arguments delegated requester attempt =
     \<lparr>wp_url = rstrip_slash (cs_worker_url st) @ HANDOFF_PATH, wp_auth = ''Bearer '' @ cs_handoff_token st,
      wp_request_id = Some attempt,
      wp_body = [(''request'', VDict request), (''arguments'', VDict arguments), (''delegated_token'', VStr (key_text delegated))]
        @ (if has_quartet request then [(''requester_token'', VStr (key_text requester))] else [])\<rparr>"

text \<open>The \<open>try\<close> block after the post: every error of reading the answer is \<open>response_invalid\<close>.\<close>

definition read_response :: "proto_env \<Rightarrow> string \<Rightarrow> wire_out \<Rightarrow> exc + int \<times> json_obj" where
  "read_response env attempt out =
     (case out of
        WireTimeout \<Rightarrow> Inl (ProtocolError ''wait_expired'')
      | WireTransport \<Rightarrow> Inl (ProtocolError ''transport_error'')
      | WireRaise \<Rightarrow> Inl PyError
      | WireResponse status hdr body \<Rightarrow>
          if hdr \<noteq> Some attempt then Inl (ProtocolError ''response_invalid'')
          else (case body of
                  None \<Rightarrow> Inl (ProtocolError ''response_invalid'')
                | Some v \<Rightarrow>
                    if \<not> schema_ok env ''execution-handoff-response'' v then Inl (ProtocolError ''response_invalid'')
                    else (case as_dict v of
                            None \<Rightarrow> Inl (ProtocolError ''response_invalid'')
                          | Some payload \<Rightarrow>
                              if dget payload ''request_id'' \<noteq> Some (VStr attempt) then Inl (ProtocolError ''response_invalid'')
                              else Inr (status, payload))))"

definition original_of ::
  "proto_env \<Rightarrow> int \<Rightarrow> client_settings \<Rightarrow> json_obj \<Rightarrow> string \<Rightarrow> int \<times> json_obj \<Rightarrow> exc + verified_original" where
  "original_of env pid st request attempt sp =
     rbind (fld (snd sp) ''kind'') (\<lambda>kind.
     if kind \<noteq> VStr ''original_result''
     then Inl (ProtocolError (if kind = VStr ''status_only'' then ''metadata_replay'' else ''transport_error''))
     else rbind (require (fst sp = 200) (ProtocolError ''response_invalid'')) (\<lambda>_.
          validate_original env pid (snd sp) (VDict request) (key_text (cs_key st)) attempt attempt))"

definition handoff_original ::
  "proto_env \<Rightarrow> int \<Rightarrow> client_settings \<Rightarrow> wire_out \<Rightarrow> json_obj \<Rightarrow> json_obj \<Rightarrow> string option \<Rightarrow> string option \<Rightarrow> string \<Rightarrow>
   (exc + verified_original) \<times> worker_post list" where
  "handoff_original env pid st out request arguments delegated requester attempt =
     (case precheck env st request arguments delegated requester attempt of
        Inl e \<Rightarrow> (Inl e, [])
      | Inr _ \<Rightarrow>
          (rbind (read_response env attempt out) (original_of env pid st request attempt),
           [original_post st request arguments delegated requester attempt]))"

text \<open>The legacy exchange \<open>handoff\<close>: \<open>None\<close> settings, or a rejection with its reason, or a timeout.\<close>

datatype handoff_error = WorkerHandoffTimeout | WorkerHandoffError string | HandoffRaise

definition reject_reason :: "val option \<Rightarrow> string" where
  "reject_reason body =
     (case Option.bind body as_dict of
        None \<Rightarrow> ''worker_unavailable''
      | Some payload \<Rightarrow>
          (case get_none payload ''error'' of
             VDict err \<Rightarrow> let r = get_none err ''reason'' in if truthy r then str_of_val r else ''worker_unavailable''
           | _ \<Rightarrow> ''worker_unavailable''))"

definition handoff_reply :: "wire_out \<Rightarrow> handoff_error + json_obj" where
  "handoff_reply out =
     (case out of
        WireTimeout \<Rightarrow> Inl WorkerHandoffTimeout
      | WireTransport \<Rightarrow> Inl (WorkerHandoffError ''worker_unavailable'')
      | WireRaise \<Rightarrow> Inl HandoffRaise
      | WireResponse status hdr body \<Rightarrow>
          if status = 200
          then (case Option.bind body as_dict of
                  None \<Rightarrow> Inl (WorkerHandoffError ''worker_unavailable'')
                | Some payload \<Rightarrow>
                    (case get_none payload ''result'' of
                       VDict result \<Rightarrow> Inr result
                     | _ \<Rightarrow> Inl (WorkerHandoffError ''worker_unavailable'')))
          else Inl (WorkerHandoffError (reject_reason body)))"

definition legacy_handoff ::
  "client_settings option \<Rightarrow> wire_out \<Rightarrow> val \<Rightarrow> json_obj \<Rightarrow> string option \<Rightarrow> string \<Rightarrow>
   (handoff_error + json_obj) \<times> worker_post list" where
  "legacy_handoff st_o out request arguments delegated rid =
     (case st_o of
        None \<Rightarrow> (Inl (WorkerHandoffError ''worker_unavailable''), [])
      | Some st \<Rightarrow>
          if cs_worker_url st = [] \<or> cs_handoff_token st = [] then (Inl (WorkerHandoffError ''worker_unavailable''), [])
          else (handoff_reply out,
                [\<lparr>wp_url = cs_worker_url st @ HANDOFF_PATH, wp_auth = ''Bearer '' @ cs_handoff_token st,
                  wp_request_id = (if rid = [] then None else Some rid),
                  wp_body = [(''request'', request), (''arguments'', VDict arguments),
                    (''delegated_token'', (case delegated of None \<Rightarrow> VNone | Some t \<Rightarrow> VStr t))]\<rparr>]))"

section \<open>Coordinator\<close>

definition PRE_DISPATCH :: "string list" where
  "PRE_DISPATCH = [''gateway_not_configured'', ''credential_missing'', ''args_digest_mismatch'',
     ''bad_request'', ''signing_unavailable'', ''signature_invalid'',
     ''protocol_unsupported'', ''lifetime_invalid'', ''epoch_mismatch'',
     ''admission_disabled'', ''request_expired'', ''request_not_yet_valid'',
     ''identity_conflict'', ''request_missing'', ''predecessor_unresolved'', ''schema_invalid'']"

definition UNCERTAIN_REASONS :: "string list" where
  "UNCERTAIN_REASONS = [''transport_error'', ''response_invalid'', ''metadata_replay'',
     ''receipt_unconfirmed'', ''result_persistence_unconfirmed'',
     ''claim_commit_unconfirmed'', ''send_lock_unavailable'', ''store_unavailable'',
     ''shutdown'', ''integrity_conflict'']"

definition agent_observation_kind :: "string \<Rightarrow> string" where
  "agent_observation_kind why =
     (if why = ''wait_expired'' then ''wait_expired''
      else if why = ''run_stopped'' then ''run_stopped''
      else if why \<in> set UNCERTAIN_REASONS then ''transport_uncertain''
      else ''pre_dispatch_refused'')"

definition is_uncertain :: "string \<Rightarrow> bool" where
  "is_uncertain why \<longleftrightarrow> why = ''wait_expired'' \<or> why \<in> set UNCERTAIN_REASONS"

datatype invocation_status = Original | Uncertain | Blocked

record invocation_outcome =
  io_status :: invocation_status
  io_result :: "json_obj option"
  io_permit :: "secret_permit option"
  io_reason :: "string option"
  io_stopped :: bool
  io_original :: "verified_original option"

text \<open>What the environment decides during one invocation.\<close>

record invocation_in =
  ii_pid :: int
  ii_wire :: wire_out
  ii_others :: "guard_op list"
  ii_fault_register :: db_fault
  ii_fault_accept :: db_fault
  ii_fault_stop :: db_fault
  ii_lock_free :: bool
  ii_now_register :: int
  ii_now_accept :: int
  ii_now_stop :: int
  ii_obs_accept :: string
  ii_obs_stop :: string

text \<open>The attributed observation of a stop; signing without a key raises, a protocol error gives none.\<close>

definition stop_fact ::
  "proto_env \<Rightarrow> invocation_in \<Rightarrow> string option \<Rightarrow> json_obj \<Rightarrow> string \<Rightarrow> string \<Rightarrow> string \<Rightarrow> exc + (val \<times> json_obj) option" where
  "stop_fact env ii key envelope why attempt current =
     (if agent_observation_kind why = ''run_stopped'' then Inr None
      else (case key of
              None \<Rightarrow> Inl PyError
            | Some k \<Rightarrow>
                (case observation env envelope ''agent'' (agent_observation_kind why) attempt current k why
                        (ii_now_stop ii) (ii_obs_stop ii) [] of
                   Inr ob \<Rightarrow> Inr (Some (VDict envelope, ob))
                 | Inl (ProtocolError _) \<Rightarrow> Inr None
                 | Inl e \<Rightarrow> Inl e)))"

definition stop_and_report ::
  "proto_env \<Rightarrow> invocation_in \<Rightarrow> run_guard \<Rightarrow> json_obj \<Rightarrow> string \<Rightarrow> string option \<Rightarrow> string \<Rightarrow> string \<Rightarrow> latch \<times> ledger \<Rightarrow>
   (exc + invocation_outcome) \<times> (latch \<times> ledger)" where
  "stop_and_report env ii g envelope why key attempt current s =
     (case stop_fact env ii key envelope why attempt current of
        Inl e \<Rightarrow> (Inl e, s)
      | Inr fact_o \<Rightarrow>
          (case durable_stop g (ii_fault_stop ii) (ii_lock_free ii) why fact_o (ii_now_stop ii) s of
             (Inl e, s1) \<Rightarrow> (Inl e, s1)
           | (Inr _, s1) \<Rightarrow>
               (Inr \<lparr>io_status = (if is_uncertain why then Uncertain else Blocked), io_result = None, io_permit = None,
                     io_reason = Some why, io_stopped = True, io_original = None\<rparr>, s1)))"

text \<open>The \<open>try\<close> block: check the stop, register, dispatch, accept. \<open>ii_others\<close> happens while the post is answered.\<close>

definition attempt_v3 ::
  "proto_env \<Rightarrow> client_settings \<Rightarrow> invocation_in \<Rightarrow> run_guard \<Rightarrow> json_obj \<Rightarrow> json_obj \<Rightarrow> string option \<Rightarrow> string option \<Rightarrow>
   string \<Rightarrow> string \<Rightarrow> latch \<times> ledger \<Rightarrow>
   (exc + verified_original \<times> secret_permit option) \<times> (latch \<times> ledger) \<times> worker_post list" where
  "attempt_v3 env st ii g envelope arguments delegated requester attempt current s =
     (case ensure_not_stopped g (fst s) of
        Inl e \<Rightarrow> (Inl e, s, [])
      | Inr _ \<Rightarrow>
          (case gd_recovery g of
             None \<Rightarrow> (Inl PyError, s, [])
           | Some (renv, rcfg) \<Rightarrow>
               (case register renv rcfg (ii_fault_register ii) (ii_now_register ii) (VDict envelope) (VStr attempt) (snd s) of
                  (Inl e, l1) \<Rightarrow> (Inl e, (fst s, l1), [])
                | (Inr _, l1) \<Rightarrow>
                    (case handoff_original env (ii_pid ii) st (ii_wire ii) envelope arguments delegated requester attempt of
                       (r, posts) \<Rightarrow>
                         (let s2 = (if posts = [] then (fst s, l1) else fold guard_step (ii_others ii) (fst s, l1)) in
                          case r of
                            Inl e \<Rightarrow> (Inl e, s2, posts)
                          | Inr original \<Rightarrow>
                              (case release_permit g (ii_pid ii) (ii_fault_accept ii) envelope (Some original) current
                                      (ii_now_accept ii) (ii_obs_accept ii) s2 of
                                 (Inl e, s3) \<Rightarrow> (Inl e, s3, posts)
                               | (Inr permit, s3) \<Rightarrow> (Inr (original, permit), s3, posts)))))))"

definition coordinate_v3_invocation ::
  "proto_env \<Rightarrow> client_settings \<Rightarrow> invocation_in \<Rightarrow> run_guard \<Rightarrow> json_obj \<Rightarrow> json_obj \<Rightarrow> string option \<Rightarrow> string option \<Rightarrow>
   string \<Rightarrow> string \<Rightarrow> latch \<times> ledger \<Rightarrow>
   (exc + invocation_outcome) \<times> (latch \<times> ledger) \<times> worker_post list" where
  "coordinate_v3_invocation env st ii g envelope arguments delegated requester attempt current s =
     (case attempt_v3 env st ii g envelope arguments delegated requester attempt current s of
        (Inl (ProtocolError why), s1, posts) \<Rightarrow>
          (case stop_and_report env ii g envelope why (cs_key st) attempt current s1 of
             (r, s2) \<Rightarrow> (r, s2, posts))
      | (Inl e, s1, posts) \<Rightarrow> (Inl e, s1, posts)
      | (Inr (original, permit), s1, posts) \<Rightarrow>
          (rbind (obj_fld (vo_payload original) ''result'') (\<lambda>result.
             Inr \<lparr>io_status = Original, io_result = Some result,
                  io_permit = (if get_none result ''status'' = VStr ''success'' then permit else None),
                  io_reason = None, io_stopped = False, io_original = Some original\<rparr>), s1, posts))"

section \<open>What an invocation does\<close>

lemma agent_tx_Inr: "agent_tx fault tx l = (Inr r, l') \<Longrightarrow> tx l = Inr (r, l')"
  by (auto simp: agent_tx_def run_tx_def split: if_split_asm sum.split_asm exc.split_asm db_fault.split_asm prod.split_asm)

lemma registered_intent:
  assumes "register env cfg fault now (VDict envelope) (VStr attempt) l = (Inr reg, l1)"
  shows "\<exists>i. dget (intents l1) (rg_execution reg) = Some i \<and> in_digest i = canonical_digest (cr env) (VDict envelope)"
proof -
  from assms have "validate_request env (VDict envelope) (cfg_key cfg) = Inr envelope"
    by (auto simp: register_def split: sum.split_asm option.split_asm if_split_asm elim!: validate_request_cases)
  with assms have "register_tx env cfg now envelope attempt l = Inr (reg, l1)"
    by (auto simp: register_def split: if_split_asm dest: agent_tx_Inr)
  then show ?thesis by (cases rule: register_tx_cases) auto
qed

lemma handoff_original_posts:
  assumes "handoff_original env pid st out request arguments delegated requester attempt = (r, posts)"
  shows "posts = [] \<and> (\<exists>e. r = Inl e \<and> precheck env st request arguments delegated requester attempt = Inl e)
    \<or> posts = [original_post st request arguments delegated requester attempt]
       \<and> precheck env st request arguments delegated requester attempt = Inr ()
       \<and> r = rbind (read_response env attempt out) (original_of env pid st request attempt)"
  using assms by (auto simp: handoff_original_def split: sum.split_asm)

text \<open>After the post, only four reasons can come out of reading the answer.\<close>

lemma answered_reasons:
  assumes "rbind (read_response env attempt out) (original_of env pid st request attempt) = Inl (ProtocolError why)"
  shows "why \<in> {''wait_expired'', ''transport_error'', ''response_invalid'', ''metadata_replay''}"
  using assms
  by (auto simp: read_response_def original_of_def validate_original_def rbind_def fld_def require_def
      split: wire_out.split_asm if_split_asm option.split_asm sum.split_asm)

lemma answered_uncertain:
  "rbind (read_response env attempt out) (original_of env pid st request attempt) = Inl (ProtocolError why) \<Longrightarrow> is_uncertain why"
  by (drule answered_reasons) (auto simp: is_uncertain_def UNCERTAIN_REASONS_def)

definition sent_under_authority ::
  "proto_env \<Rightarrow> client_settings \<Rightarrow> invocation_in \<Rightarrow> run_guard \<Rightarrow> json_obj \<Rightarrow> json_obj \<Rightarrow> string option \<Rightarrow> string option \<Rightarrow>
   string \<Rightarrow> latch \<times> ledger \<Rightarrow> worker_post list \<Rightarrow> bool" where
  "sent_under_authority env st ii g envelope arguments delegated requester attempt s posts \<longleftrightarrow>
     posts = [original_post st envelope arguments delegated requester attempt]
     \<and> latch_reason (ri_run (gd_identity g)) (fst s) = None
     \<and> precheck env st envelope arguments delegated requester attempt = Inr ()
     \<and> (\<exists>renv rcfg reg l1 i. gd_recovery g = Some (renv, rcfg)
          \<and> register renv rcfg (ii_fault_register ii) (ii_now_register ii) (VDict envelope) (VStr attempt) (snd s) = (Inr reg, l1)
          \<and> dget (intents l1) (rg_execution reg) = Some i \<and> in_digest i = canonical_digest (cr renv) (VDict envelope))"

lemma attempt_v3_cases:
  assumes "attempt_v3 env st ii g envelope arguments delegated requester attempt current s = (r, s', posts)"
  obtains (unsent) e where "posts = []" and "r = Inl e"
  | (unread) e where "sent_under_authority env st ii g envelope arguments delegated requester attempt s posts"
      and "rbind (read_response env attempt (ii_wire ii)) (original_of env (ii_pid ii) st envelope attempt) = Inl e"
      and "r = Inl e"
  | (refused) original e s2 where "sent_under_authority env st ii g envelope arguments delegated requester attempt s posts"
      and "handoff_original env (ii_pid ii) st (ii_wire ii) envelope arguments delegated requester attempt = (Inr original, posts)"
      and "release_permit g (ii_pid ii) (ii_fault_accept ii) envelope (Some original) current (ii_now_accept ii) (ii_obs_accept ii) s2
             = (Inl e, s')"
      and "r = Inl e"
  | (accepted) original permit s2 where "sent_under_authority env st ii g envelope arguments delegated requester attempt s posts"
      and "handoff_original env (ii_pid ii) st (ii_wire ii) envelope arguments delegated requester attempt = (Inr original, posts)"
      and "release_permit g (ii_pid ii) (ii_fault_accept ii) envelope (Some original) current (ii_now_accept ii) (ii_obs_accept ii) s2
             = (Inr permit, s')"
      and "r = Inr (original, permit)"
proof (cases "posts = []")
  case True
  with assms have "\<exists>e. r = Inl e"
    by (auto simp: attempt_v3_def Let_def split: sum.split_asm option.split_asm prod.split_asm
        dest!: handoff_original_posts)
  with True show ?thesis using unsent by blast
next
  case False
  from assms False obtain renv rcfg reg l1
    where ok: "ensure_not_stopped g (fst s) = Inr ()" "gd_recovery g = Some (renv, rcfg)"
      and reg: "register renv rcfg (ii_fault_register ii) (ii_now_register ii) (VDict envelope) (VStr attempt) (snd s) = (Inr reg, l1)"
    by (auto simp: attempt_v3_def split: sum.split_asm option.split_asm prod.split_asm)
  obtain h ps where h0: "handoff_original env (ii_pid ii) st (ii_wire ii) envelope arguments delegated requester attempt = (h, ps)"
    by (cases "handoff_original env (ii_pid ii) st (ii_wire ii) envelope arguments delegated requester attempt")
  let ?s2 = "if ps = [] then (fst s, l1) else fold guard_step (ii_others ii) (fst s, l1)"
  have step: "(case h of Inl e \<Rightarrow> (Inl e, ?s2, ps)
         | Inr original \<Rightarrow> (case release_permit g (ii_pid ii) (ii_fault_accept ii) envelope (Some original) current
              (ii_now_accept ii) (ii_obs_accept ii) ?s2 of
            (Inl e, s3) \<Rightarrow> (Inl e, s3, ps) | (Inr permit, s3) \<Rightarrow> (Inr (original, permit), s3, ps))) = (r, s', posts)"
    using assms by (simp add: attempt_v3_def Let_def ok reg h0 split del: if_split)
  then have "ps = posts" by (auto split: sum.split_asm prod.split_asm)
  note h = h0 [unfolded this] and rest = step [unfolded this]
  from handoff_original_posts [OF h] False have p: "posts = [original_post st envelope arguments delegated requester attempt]"
    "precheck env st envelope arguments delegated requester attempt = Inr ()"
    "h = rbind (read_response env attempt (ii_wire ii)) (original_of env (ii_pid ii) st envelope attempt)" by auto
  have sent: "sent_under_authority env st ii g envelope arguments delegated requester attempt s posts"
    using ok p(1,2) reg registered_intent [OF reg]
    by (auto simp: sent_under_authority_def ensure_not_stopped_def guard_stopped_def require_def split: if_split_asm)
  show ?thesis
  proof (cases h)
    case (Inl e)
    with rest have "r = Inl e" by simp
    with p(3) Inl show ?thesis by (intro unread [OF sent, of e]) simp_all
  next
    case (Inr original)
    obtain q s3 where rel: "release_permit g (ii_pid ii) (ii_fault_accept ii) envelope (Some original) current
        (ii_now_accept ii) (ii_obs_accept ii) (fold guard_step (ii_others ii) (fst s, l1)) = (q, s3)"
      by (cases "release_permit g (ii_pid ii) (ii_fault_accept ii) envelope (Some original) current
        (ii_now_accept ii) (ii_obs_accept ii) (fold guard_step (ii_others ii) (fst s, l1))")
    with rest Inr False have q: "(case q of Inl e \<Rightarrow> (Inl e, s3, posts) | Inr permit \<Rightarrow> (Inr (original, permit), s3, posts)) = (r, s', posts)"
      by simp
    note sent_h = sent h [unfolded Inr]
    show ?thesis
    proof (cases q)
      case (Inl e)
      with rel q show ?thesis by (intro refused [OF sent_h]) auto
    next
      case (Inr permit)
      with rel q show ?thesis by (intro accepted [OF sent_h]) auto
    qed
  qed
qed

lemma stop_and_report_latches:
  assumes "stop_and_report env ii g envelope why key attempt current s = (Inr out, s')" and "ri_run (gd_identity g) \<noteq> []"
  shows "out = \<lparr>io_status = (if is_uncertain why then Uncertain else Blocked), io_result = None, io_permit = None,
      io_reason = Some why, io_stopped = True, io_original = None\<rparr>
    \<and> latch_reason (ri_run (gd_identity g)) (fst s') \<noteq> None"
proof -
  from assms(1) obtain fact_o q where d: "durable_stop g (ii_fault_stop ii) (ii_lock_free ii) why fact_o (ii_now_stop ii) s = (Inr q, s')"
    and out: "out = \<lparr>io_status = (if is_uncertain why then Uncertain else Blocked), io_result = None, io_permit = None,
      io_reason = Some why, io_stopped = True, io_original = None\<rparr>"
    by (auto simp: stop_and_report_def split: sum.split_asm prod.split_asm)
  from durable_stop_state(1) [OF d] latch_mark_sets [OF assms(2)] out show ?thesis by simp
qed

text \<open>
  C4. One approved mutating call puts at most one request on the wire, and none unless the run is not
  latched, the signed intent is registered in the ledger under its digest, and the envelope, the
  digest of the arguments, the credentials and the attempt id all passed; the request carries exactly
  the envelope and the arguments. The outcome \<open>original\<close> is a response validated in this process and
  accepted by the guard, and only a successful one has a permit. Every other outcome carries its
  reason and no result, and leaves the run latched. A call that was sent and got no validated original
  is reported \<open>uncertain\<close>, never \<open>blocked\<close>. The one way for a call that was sent to be reported \<open>blocked\<close>
  is that its validated original came back and the acceptance refused it with a reason that is not an
  uncertain one; the docstring excludes that, and \<open>executed_call_reported_blocked\<close> below shows that it happens.
\<close>

theorem invocation_contract:
  assumes "coordinate_v3_invocation env st ii g envelope arguments delegated requester attempt current s = (res, s', posts)"
    and "ri_run (gd_identity g) \<noteq> []"
  shows "(posts = [] \<or> sent_under_authority env st ii g envelope arguments delegated requester attempt s posts)
    \<and> (\<forall>out. res = Inr out \<longrightarrow>
         (if io_status out = Original
          then \<exists>original result permit s2. posts \<noteq> []
            \<and> handoff_original env (ii_pid ii) st (ii_wire ii) envelope arguments delegated requester attempt = (Inr original, posts)
            \<and> release_permit g (ii_pid ii) (ii_fault_accept ii) envelope (Some original) current
                 (ii_now_accept ii) (ii_obs_accept ii) s2 = (Inr permit, s')
            \<and> io_original out = Some original \<and> dget (vo_payload original) ''result'' = Some (VDict result)
            \<and> io_result out = Some result \<and> (io_permit out \<noteq> None \<longrightarrow> dget result ''status'' = Some (VStr ''success''))
          else \<exists>why. io_reason out = Some why \<and> io_result out = None \<and> io_permit out = None \<and> io_stopped out
            \<and> (io_status out = Uncertain) = is_uncertain why \<and> latch_reason (ri_run (gd_identity g)) (fst s') \<noteq> None
            \<and> (io_status out = Blocked \<and> posts \<noteq> [] \<longrightarrow>
                 (\<exists>original s2 s3. handoff_original env (ii_pid ii) st (ii_wire ii) envelope arguments delegated requester attempt
                      = (Inr original, posts)
                    \<and> release_permit g (ii_pid ii) (ii_fault_accept ii) envelope (Some original) current
                        (ii_now_accept ii) (ii_obs_accept ii) s2 = (Inl (ProtocolError why), s3)))))"
    (is "_ \<and> (\<forall>out. _ \<longrightarrow> (if _ then _ else ?stopped out))")
proof -
  obtain r s1 ps where a: "attempt_v3 env st ii g envelope arguments delegated requester attempt current s = (r, s1, ps)"
    by (cases "attempt_v3 env st ii g envelope arguments delegated requester attempt current s")
  have ps: "ps = posts"
    using assms(1) a by (auto simp: coordinate_v3_invocation_def split: sum.split_asm exc.split_asm prod.split_asm)
  have stop: "io_status out \<noteq> Original \<and> io_reason out = Some why \<and> io_result out = None \<and> io_permit out = None \<and> io_stopped out
      \<and> (io_status out = Uncertain) = is_uncertain why \<and> latch_reason (ri_run (gd_identity g)) (fst s') \<noteq> None
      \<and> (io_status out = Blocked) = (\<not> is_uncertain why)"
    if "r = Inl (ProtocolError why)" "res = Inr out" for why out
  proof -
    from that a ps assms(1) have "stop_and_report env ii g envelope why (cs_key st) attempt current s1 = (Inr out, s')"
      by (auto simp: coordinate_v3_invocation_def split: prod.split_asm)
    from stop_and_report_latches [OF this assms(2)] show ?thesis by simp
  qed
  have err: "\<exists>why. r = Inl (ProtocolError why)" if "r = Inl e" "res = Inr out" for e out
    using that a assms(1) by (cases e) (auto simp: coordinate_v3_invocation_def)
  from a show ?thesis
  proof (cases rule: attempt_v3_cases)
    case (unsent e)
    with err stop ps show ?thesis by metis
  next
    case (unread e)
    then have "is_uncertain why" if "e = ProtocolError why" for why using that answered_uncertain by blast
    with unread err stop ps show ?thesis by (metis Inl_inject)
  next
    case (refused original e s2)
    with err stop ps show ?thesis by (metis Inl_inject)
  next
    case (accepted original permit s2)
    with a ps assms(1) have res: "res = rbind (obj_fld (vo_payload original) ''result'') (\<lambda>result.
        Inr \<lparr>io_status = Original, io_result = Some result,
          io_permit = (if get_none result ''status'' = VStr ''success'' then permit else None),
          io_reason = None, io_stopped = False, io_original = Some original\<rparr>)" "s' = s1"
      by (simp_all add: coordinate_v3_invocation_def)
    have sent: "posts = [] \<or> sent_under_authority env st ii g envelope arguments delegated requester attempt s posts"
      using accepted(1) ps by simp
    have out: "\<exists>result. dget (vo_payload original) ''result'' = Some (VDict result) \<and> io_result out = Some result
        \<and> io_status out = Original \<and> io_original out = Some original
        \<and> (io_permit out \<noteq> None \<longrightarrow> dget result ''status'' = Some (VStr ''success''))" if "res = Inr out" for out
      using that unfolding res
      by (auto simp: obj_fld_def rbind_def get_none_def split: option.split_asm val.split_asm if_split_asm)
    have "posts \<noteq> []" using accepted(1) ps by (auto simp: sent_under_authority_def)
    note all = this accepted(2,3) [unfolded ps res(2) [symmetric]]
    show ?thesis
    proof (intro conjI allI impI, rule sent)
      fix o1 assume o1: "res = Inr o1"
      from out [OF o1] obtain result where r: "dget (vo_payload original) ''result'' = Some (VDict result)"
        "io_result o1 = Some result" "io_status o1 = Original" "io_original o1 = Some original"
        "io_permit o1 \<noteq> None \<longrightarrow> dget result ''status'' = Some (VStr ''success'')" by blast
      show "if io_status o1 = Original then \<exists>original result permit s2. posts \<noteq> []
            \<and> handoff_original env (ii_pid ii) st (ii_wire ii) envelope arguments delegated requester attempt = (Inr original, posts)
            \<and> release_permit g (ii_pid ii) (ii_fault_accept ii) envelope (Some original) current
                 (ii_now_accept ii) (ii_obs_accept ii) s2 = (Inr permit, s')
            \<and> io_original o1 = Some original \<and> dget (vo_payload original) ''result'' = Some (VDict result)
            \<and> io_result o1 = Some result \<and> (io_permit o1 \<noteq> None \<longrightarrow> dget result ''status'' = Some (VStr ''success''))
          else ?stopped o1"
        unfolding r(3) if_P [OF refl] using all r by blast
    qed
  qed
qed

text \<open>
  When another call of the process stops the run while the worker answers, a validated original of a
  call that was carried out is refused with \<open>run_stopped\<close>, and the outcome is \<open>blocked\<close>, which the
  closure reports as \<open>not executed\<close>.
\<close>

lemma executed_call_reported_blocked:
  assumes "ensure_not_stopped g (fst s) = Inr ()" and "gd_recovery g = Some (renv, rcfg)"
    and "register renv rcfg (ii_fault_register ii) (ii_now_register ii) (VDict envelope) (VStr attempt) (snd s) = (Inr reg, l1)"
    and "handoff_original env (ii_pid ii) st (ii_wire ii) envelope arguments delegated requester attempt = (Inr original, posts)"
    and "latch_reason (ri_run (gd_identity g)) (fst (fold guard_step (ii_others ii) (fst s, l1))) = Some first"
    and "coordinate_v3_invocation env st ii g envelope arguments delegated requester attempt current s = (Inr out, s', posts')"
  shows "io_status out = Blocked \<and> io_reason out = Some ''run_stopped'' \<and> posts' = posts \<and> posts \<noteq> []"
proof -
  have posts: "posts \<noteq> []" using handoff_original_posts [OF assms(4)] by auto
  let ?s2 = "fold guard_step (ii_others ii) (fst s, l1)"
  have "ensure_not_stopped g (fst ?s2) = Inl (ProtocolError ''run_stopped'')"
    using assms(5) by (simp add: ensure_not_stopped_def guard_stopped_def)
  then have "release_permit g (ii_pid ii) (ii_fault_accept ii) envelope (Some original) current (ii_now_accept ii) (ii_obs_accept ii) ?s2
      = (Inl (ProtocolError ''run_stopped''), ?s2)"
    by (simp add: release_permit_def)
  with posts have "attempt_v3 env st ii g envelope arguments delegated requester attempt current s
      = (Inl (ProtocolError ''run_stopped''), ?s2, posts)"
    by (simp add: attempt_v3_def assms(1-4) Let_def)
  with assms(6) have "stop_and_report env ii g envelope ''run_stopped'' (cs_key st) attempt current ?s2 = (Inr out, s')" "posts' = posts"
    by (auto simp: coordinate_v3_invocation_def split: prod.split_asm)
  with posts show ?thesis
    by (auto simp: stop_and_report_def is_uncertain_def UNCERTAIN_REASONS_def split: sum.split_asm prod.split_asm)
qed

section \<open>Tool closures\<close>

text \<open>The context variables a closure reads, and the state it may change: permits, posts and audit.\<close>

datatype tool_effect =
    WorkerCall worker_post
  | GatewayCall string json_obj "string option"
  | AuditRejected string "string option" string
  | ObserveOriginal json_obj verified_original string

record tool_turn =
  tt_requests :: "(string, json_obj) dict option"
  tt_rejection :: "string option"
  tt_audit :: bool
  tt_settings :: "client_settings option"
  tt_request_id :: string
  tt_call :: string
  tt_session :: string
  tt_delegated :: "string option"
  tt_owner :: "string option option"
  tt_guard :: "run_guard option"
  tt_permits_armed :: bool
  tt_observes :: bool

definition generation_bearer_token :: "tool_turn \<Rightarrow> string option" where
  "generation_bearer_token t = (case tt_owner t of Some o1 \<Rightarrow> o1 | None \<Rightarrow> tt_delegated t)"

definition generation_owner_token :: "tool_turn \<Rightarrow> string option" where
  "generation_owner_token t = (case tt_owner t of Some o1 \<Rightarrow> o1 | None \<Rightarrow> None)"

definition request_of :: "tool_turn \<Rightarrow> json_obj option" where
  "request_of t = (if tt_call t = [] then None else dget (case tt_requests t of None \<Rightarrow> [] | Some m \<Rightarrow> m) (tt_call t))"

text \<open>
  \<open>_verify_execution_request\<close>. \<open>compare_digest\<close> raises \<open>TypeError\<close> on a value that is no string, and on a string
  that is not ASCII; the digest of the arguments is hexadecimal.
\<close>

definition is_ascii :: "string \<Rightarrow> bool" where
  "is_ascii s \<longleftrightarrow> list_all (\<lambda>c. (of_char c :: nat) < 128) s"

definition compare_digest :: "string \<Rightarrow> val \<Rightarrow> exc + bool" where
  "compare_digest digest v =
     (case v of VStr s \<Rightarrow> if is_ascii s then Inr (digest = s) else Inl PyError | _ \<Rightarrow> Inl PyError)"

definition verify_execution_request :: "proto_env \<Rightarrow> tool_turn \<Rightarrow> json_obj \<Rightarrow> exc + string option" where
  "verify_execution_request env t parameters =
     (case tt_rejection t of
        Some (c # cs) \<Rightarrow> Inr (Some (c # cs))
      | _ \<Rightarrow>
          (case request_of t of
             None \<Rightarrow> Inr (Some ''request_missing'')
           | Some request \<Rightarrow>
               rbind (compare_digest (canonical_digest (cr env) (VDict parameters))
                        (let d = get_none request ''args_digest'' in if truthy d then d else VStr [])) (\<lambda>same.
               Inr (if same then None else Some ''args_digest_mismatch''))))"

definition error_result :: "string \<Rightarrow> string \<Rightarrow> string \<Rightarrow> string \<Rightarrow> json_obj \<Rightarrow> json_obj" where
  "error_result tool fresh code msg extra =
     [(''tool_name'', VStr tool), (''status'', VStr ''error''), (''request_id'', VStr fresh),
      (''error'', VDict ([(''code'', VStr code), (''message'', VStr msg)] @ extra))]"

definition rejection_result :: "string \<Rightarrow> string \<Rightarrow> string \<Rightarrow> json_obj" where
  "rejection_result tool fresh why =
     error_result tool fresh ''EXECUTION_REJECTED''
       ''execution request verification failed: this mutating action was not executed'' [(''reason'', VStr why)]"

definition uncertain_result :: "string \<Rightarrow> string \<Rightarrow> string option \<Rightarrow> json_obj" where
  "uncertain_result tool fresh why =
     error_result tool fresh ''OUTCOME_UNKNOWN''
       (''the execution outcome is unknown: the action may have partially or fully taken effect and was not retried. ''
         @ ''Verify the target state before any dependent step.'')
       [(''reason'', VStr (case why of Some (c # cs) \<Rightarrow> c # cs | _ \<Rightarrow> ''transport_error''))]"

definition audit_rejected :: "tool_turn \<Rightarrow> string \<Rightarrow> string \<Rightarrow> tool_effect list" where
  "audit_rejected t tool why =
     (if tt_audit t then [AuditRejected tool (if tt_call t = [] then None else Some (tt_call t)) why] else [])"

definition timeout_result :: "string \<Rightarrow> string \<Rightarrow> string \<Rightarrow> json_obj" where
  "timeout_result tool fresh msg = error_result tool fresh ''TIMEOUT'' msg []"

text \<open>\<open>_handoff_execution\<close>; \<open>None\<close> when another exception leaves the closure.\<close>

definition handoff_execution ::
  "tool_turn \<Rightarrow> wire_out \<Rightarrow> string \<Rightarrow> string \<Rightarrow> json_obj \<Rightarrow> json_obj option \<times> tool_effect list" where
  "handoff_execution t out fresh tool arguments =
     (case legacy_handoff (tt_settings t) out (case request_of t of None \<Rightarrow> VNone | Some e \<Rightarrow> VDict e) arguments
             (tt_delegated t) (tt_request_id t) of
        (r, posts) \<Rightarrow>
          (case r of
             Inr result \<Rightarrow> (Some result, map WorkerCall posts)
           | Inl WorkerHandoffTimeout \<Rightarrow>
               (Some (timeout_result tool fresh ''execution handoff timed out before the worker answered''), map WorkerCall posts)
           | Inl (WorkerHandoffError why) \<Rightarrow> (Some (rejection_result tool fresh why), map WorkerCall posts @ audit_rejected t tool why)
           | Inl HandoffRaise \<Rightarrow> (None, map WorkerCall posts)))"

type_synonym permit_map = "(string, secret_permit) dict"

definition stash_release_permit :: "tool_turn \<Rightarrow> secret_permit \<Rightarrow> permit_map \<Rightarrow> permit_map" where
  "stash_release_permit t p m = (if tt_call t = [] \<or> \<not> tt_permits_armed t then m else dset (tt_call t) p m)"

definition invoke_v3 ::
  "proto_env \<Rightarrow> tool_turn \<Rightarrow> invocation_in \<Rightarrow> string \<Rightarrow> string \<Rightarrow> json_obj \<Rightarrow> run_guard \<Rightarrow> permit_map \<Rightarrow> latch \<times> ledger \<Rightarrow>
   json_obj option \<times> permit_map \<times> (latch \<times> ledger) \<times> tool_effect list" where
  "invoke_v3 env t ii fresh tool arguments g held s =
     (case request_of t of
        None \<Rightarrow> (Some (rejection_result tool fresh ''request_missing''), held, s, audit_rejected t tool ''request_missing'')
      | Some envelope \<Rightarrow>
          if tt_request_id t = []
          then (Some (rejection_result tool fresh ''request_missing''), held, s, audit_rejected t tool ''request_missing'')
          else
            (let st = (case tt_settings t of
                 None \<Rightarrow> \<lparr>cs_worker_url = [], cs_handoff_token = [], cs_key = None, cs_timeout = Some (seconds 60)\<rparr> | Some st \<Rightarrow> st);
                 requester = (if has_quartet envelope then generation_owner_token t else None)
             in case coordinate_v3_invocation env st ii g envelope arguments (tt_delegated t) requester
                       (tt_request_id t) (tt_request_id t) s of
                  (Inl e, s1, posts) \<Rightarrow> (None, held, s1, map WorkerCall posts)
                | (Inr out, s1, posts) \<Rightarrow>
                    (case io_status out of
                       Original \<Rightarrow>
                         (io_result out,
                          (case io_permit out of None \<Rightarrow> held | Some p \<Rightarrow> stash_release_permit t p held),
                          s1, map WorkerCall posts @
                            (case io_original out of
                               Some original \<Rightarrow> if tt_observes t then [ObserveOriginal envelope original (tt_request_id t)] else []
                             | None \<Rightarrow> []))
                     | Blocked \<Rightarrow>
                         (let why = (case io_reason out of Some (c # cs) \<Rightarrow> c # cs | _ \<Rightarrow> ''request_missing'') in
                          (Some (rejection_result tool fresh why), held, s1, map WorkerCall posts @ audit_rejected t tool why))
                     | Uncertain \<Rightarrow> (Some (uncertain_result tool fresh (io_reason out)), held, s1, map WorkerCall posts))))"

text \<open>\<open>invoke_gateway_tool\<close>: the read path; a timeout is caught by the closure.\<close>

definition gateway_payload :: "tool_turn \<Rightarrow> string \<Rightarrow> string \<Rightarrow> json_obj \<Rightarrow> json_obj" where
  "gateway_payload t fresh tool parameters =
     [(''tool_name'', VStr tool), (''parameters'', VDict parameters), (''request_id'', VStr fresh)]
     @ (if tt_session t = [] then [] else [(''session_id'', VStr (tt_session t))])
     @ (if tt_call t = [] then [] else [(''call_id'', VStr (tt_call t))])"

definition invoke_gateway_tool ::
  "tool_turn \<Rightarrow> wire_out \<Rightarrow> string \<Rightarrow> string \<Rightarrow> json_obj \<Rightarrow> string option \<Rightarrow> val option \<times> tool_effect list" where
  "invoke_gateway_tool t out fresh tool parameters bearer =
     (if (case bearer of None \<Rightarrow> True | Some b \<Rightarrow> b = [])
      then (Some (VDict (error_result tool fresh ''NO_CREDENTIAL'' ''no delegated token available for tool invocation'' [])), [])
      else
        (case out of
           WireResponse status hdr body \<Rightarrow> body
         | WireTimeout \<Rightarrow> Some (VDict (timeout_result tool fresh ''tool invocation timed out before the gateway answered''))
         | _ \<Rightarrow> None,
         [GatewayCall tool (gateway_payload t fresh tool parameters) bearer]))"

text \<open>The closure \<open>tool_fn\<close> of one tool; the \<open>ToolChunk\<close> carries the result.\<close>

definition tool_fn ::
  "proto_env \<Rightarrow> tool_turn \<Rightarrow> invocation_in \<Rightarrow> string \<Rightarrow> string \<Rightarrow> bool \<Rightarrow> json_obj \<Rightarrow> permit_map \<Rightarrow> latch \<times> ledger \<Rightarrow>
   val option \<times> permit_map \<times> (latch \<times> ledger) \<times> tool_effect list" where
  "tool_fn env t ii fresh name read_only kwargs held s =
     (if \<not> read_only then
        (case verify_execution_request env t kwargs of
           Inl _ \<Rightarrow> (None, held, s, [])
         | Inr (Some why) \<Rightarrow> (Some (VDict (rejection_result name fresh why)), held, s, audit_rejected t name why)
         | Inr None \<Rightarrow>
             (case tt_guard t of
                Some g \<Rightarrow>
                  (case invoke_v3 env t ii fresh name kwargs g held s of
                     (r, held', s', fx) \<Rightarrow> (map_option VDict r, held', s', fx))
              | None \<Rightarrow>
                  (case handoff_execution t (ii_wire ii) fresh name kwargs of
                     (r, fx) \<Rightarrow> (map_option VDict r, held, s, fx))))
      else
        (case invoke_gateway_tool t (ii_wire ii) fresh name kwargs
                (if name = ''secrets.generate_password'' then generation_bearer_token t else tt_delegated t) of
           (r, fx) \<Rightarrow> (r, held, s, fx)))"

definition normalize_input_schema :: "val \<Rightarrow> json_obj" where
  "normalize_input_schema schema =
     (case schema of
        VDict d \<Rightarrow>
          if get_none d ''type'' \<noteq> VStr ''object'' then [(''type'', VStr ''object''), (''properties'', VDict [])]
          else (case get_none d ''properties'' of
                  VDict _ \<Rightarrow> d
                | _ \<Rightarrow> dset ''properties'' (VDict []) d)
      | _ \<Rightarrow> [(''type'', VStr ''object''), (''properties'', VDict [])])"

record function_tool =
  tl_name :: string
  tl_description :: val
  tl_read_only :: bool
  tl_schema :: json_obj
  tl_gateway_name :: string
  tl_risk :: val

definition under :: "string \<Rightarrow> string" where
  "under s = map (\<lambda>c. if c = CHR ''.'' then CHR ''_'' else c) s"

text \<open>
  One definition of \<open>build_function_tools\<close>: a missing name raises for the whole list (\<open>None\<close>), any other
  failure to wrap skips the tool. Whether \<open>FunctionTool\<close> accepts its arguments is an argument.
\<close>

definition function_tool_of :: "(function_tool \<Rightarrow> bool) \<Rightarrow> json_obj \<Rightarrow> function_tool list option" where
  "function_tool_of accepts d =
     (case dget d ''name'' of
        None \<Rightarrow> None
      | Some v \<Rightarrow>
          (case v of
             VStr name \<Rightarrow>
               (let descr = (case dget d ''description'' of None \<Rightarrow> VStr [] | Some x \<Rightarrow> x);
                    tool = \<lparr>tl_name = under name, tl_description = (if truthy descr then descr else VStr (''Invoke '' @ name)),
                      tl_read_only = (get_none d ''risk_level'' = VStr ''read''),
                      tl_schema = normalize_input_schema (get_none d ''parameters_schema''), tl_gateway_name = name,
                      tl_risk = (case dget d ''risk_level'' of None \<Rightarrow> VStr ''read'' | Some r \<Rightarrow> r)\<rparr>
                in Some (if accepts tool then [tool] else []))
           | _ \<Rightarrow> Some []))"

definition build_function_tools :: "(function_tool \<Rightarrow> bool) \<Rightarrow> json_obj list \<Rightarrow> function_tool list option" where
  "build_function_tools accepts defs = map_option concat (those (map (function_tool_of accepts) defs))"

section \<open>What reaches the wire\<close>

text \<open>The post carries this request for these arguments.\<close>

definition carries :: "worker_post \<Rightarrow> json_obj \<Rightarrow> json_obj \<Rightarrow> bool" where
  "carries p envelope arguments \<longleftrightarrow>
     dget (wp_body p) ''request'' = Some (VDict envelope) \<and> dget (wp_body p) ''arguments'' = Some (VDict arguments)"

lemma original_post_carries: "carries (original_post st envelope arguments delegated requester attempt) envelope arguments"
  by (simp add: carries_def original_post_def)

lemma original_post_requester:
  "dhas (wp_body (original_post st envelope arguments delegated requester attempt)) ''requester_token'' = has_quartet envelope"
  by (cases "has_quartet envelope") (simp_all add: original_post_def dhas_def)

lemma verify_execution_request_None:
  assumes "verify_execution_request env t kwargs = Inr None"
  obtains envelope where "request_of t = Some envelope"
    and "canonical_digest (cr env) (VDict kwargs) \<noteq> [] \<longrightarrow>
           dget envelope ''args_digest'' = Some (VStr (canonical_digest (cr env) (VDict kwargs)))"
  using assms
  by (auto simp: verify_execution_request_def compare_digest_def Let_def get_none_def
      split: option.split_asm list.split_asm if_split_asm val.split_asm)

lemma request_of_Some:
  "request_of t = Some envelope \<longleftrightarrow> tt_call t \<noteq> [] \<and> (\<exists>m. tt_requests t = Some m \<and> dget m (tt_call t) = Some envelope)"
  by (auto simp: request_of_def split: option.split_asm if_split_asm)

lemma coordinate_posts:
  assumes "coordinate_v3_invocation env st ii g envelope arguments delegated requester attempt current s = (res, s', posts)"
  shows "posts = [] \<or> posts = [original_post st envelope arguments delegated requester attempt]
    \<and> latch_reason (ri_run (gd_identity g)) (fst s) = None"
proof -
  obtain r s1 ps where a: "attempt_v3 env st ii g envelope arguments delegated requester attempt current s = (r, s1, ps)"
    by (cases "attempt_v3 env st ii g envelope arguments delegated requester attempt current s")
  have ps: "ps = posts"
    using assms a by (auto simp: coordinate_v3_invocation_def split: sum.split_asm exc.split_asm prod.split_asm)
  from a show ?thesis unfolding ps by (cases rule: attempt_v3_cases) (simp_all add: sent_under_authority_def)
qed

lemma invoke_v3_sends:
  assumes "invoke_v3 env t ii fresh tool kwargs g held s = (r, held', s', fx)" and "WorkerCall p \<in> set fx"
  shows "\<exists>envelope. request_of t = Some envelope \<and> carries p envelope kwargs
    \<and> fx = WorkerCall p # filter (\<lambda>x. \<forall>q. x \<noteq> WorkerCall q) fx \<and> latch_reason (ri_run (gd_identity g)) (fst s) = None
    \<and> (dhas (wp_body p) ''requester_token'' = has_quartet envelope)"
proof -
  from assms obtain envelope where env: "request_of t = Some envelope" "tt_request_id t \<noteq> []"
    by (cases "request_of t") (auto simp: invoke_v3_def audit_rejected_def split: if_split_asm)
  define st where "st = (case tt_settings t of
    None \<Rightarrow> \<lparr>cs_worker_url = [], cs_handoff_token = [], cs_key = None, cs_timeout = Some (seconds 60)\<rparr> | Some st \<Rightarrow> st)"
  let ?rq = "if has_quartet envelope then generation_owner_token t else None" and ?id = "tt_request_id t"
  obtain res s1 posts where c: "coordinate_v3_invocation env st ii g envelope kwargs (tt_delegated t) ?rq ?id ?id s = (res, s1, posts)"
    by (cases "coordinate_v3_invocation env st ii g envelope kwargs (tt_delegated t) ?rq ?id ?id s")
  have "\<exists>tail. fx = map WorkerCall posts @ tail \<and> list_all (\<lambda>x. \<forall>q. x \<noteq> WorkerCall q) tail"
    using assms(1) env c unfolding invoke_v3_def st_def [symmetric]
    by (cases res) (auto simp: Let_def st_def audit_rejected_def split: invocation_status.split_asm option.split_asm if_split_asm)
  then obtain tail where fx: "fx = map WorkerCall posts @ tail" and tail: "list_all (\<lambda>x. \<forall>q. x \<noteq> WorkerCall q) tail" by blast
  with assms(2) have "posts \<noteq> []" by (auto simp: list_all_iff)
  with coordinate_posts [OF c] have p: "posts = [original_post st envelope kwargs (tt_delegated t) ?rq ?id]"
    and l: "latch_reason (ri_run (gd_identity g)) (fst s) = None" by auto
  with fx tail assms(2) have "p = original_post st envelope kwargs (tt_delegated t) ?rq ?id" by (auto simp: list_all_iff)
  moreover have "filter (\<lambda>x. \<forall>q. x \<noteq> WorkerCall q) fx = tail" using fx p tail by (simp add: list_all_iff)
  ultimately show ?thesis
    using env l fx p by (simp add: original_post_carries original_post_requester)
qed

definition is_worker_call :: "tool_effect \<Rightarrow> bool" where
  "is_worker_call x = (case x of WorkerCall _ \<Rightarrow> True | _ \<Rightarrow> False)"

definition is_gateway_call :: "tool_effect \<Rightarrow> bool" where
  "is_gateway_call x = (case x of GatewayCall _ _ _ \<Rightarrow> True | _ \<Rightarrow> False)"

lemma handoff_execution_sends:
  assumes "handoff_execution t out fresh tool kwargs = (r, fx)" and "request_of t = Some envelope"
  shows "(\<exists>p. filter is_worker_call fx = [WorkerCall p] \<and> carries p envelope kwargs) \<or> filter is_worker_call fx = []"
    and "filter is_gateway_call fx = []"
  using assms
  by (auto simp: handoff_execution_def legacy_handoff_def carries_def audit_rejected_def is_worker_call_def is_gateway_call_def
      split: option.split_asm if_split_asm sum.split_asm handoff_error.split_asm)

lemma invoke_v3_effects:
  assumes "invoke_v3 env t ii fresh tool kwargs g held s = (r, held', s', fx)"
  shows "(\<exists>p. filter is_worker_call fx = [WorkerCall p]) \<or> filter is_worker_call fx = []"
    and "filter is_gateway_call fx = []"
proof -
  show "(\<exists>p. filter is_worker_call fx = [WorkerCall p]) \<or> filter is_worker_call fx = []"
  proof (cases "\<exists>p. WorkerCall p \<in> set fx")
    case True
    then obtain p where p: "WorkerCall p \<in> set fx" by blast
    from invoke_v3_sends [OF assms p] have "fx = WorkerCall p # filter (\<lambda>x. \<forall>q. x \<noteq> WorkerCall q) fx" by blast
    then have "filter is_worker_call fx = filter is_worker_call (WorkerCall p # filter (\<lambda>x. \<forall>q. x \<noteq> WorkerCall q) fx)" by simp
    also have "\<dots> = [WorkerCall p]"
      by (auto simp: is_worker_call_def filter_empty_conv split: tool_effect.split)
    finally show ?thesis by blast
  next
    case False
    then show ?thesis by (auto simp: is_worker_call_def filter_empty_conv split: tool_effect.split_asm)
  qed
  show "filter is_gateway_call fx = []"
    using assms
    by (auto simp: invoke_v3_def Let_def audit_rejected_def is_gateway_call_def filter_empty_conv
        split: option.split_asm if_split_asm sum.split_asm prod.split_asm invocation_status.split_asm)
qed

text \<open>
  C10. A mutating tool never reaches the gateway directly and reaches the worker at most once, only
  when the turn holds a signed request for this very call id whose argument digest is that of the
  invoked arguments, and only with that request and those arguments; on a latched run it does not
  reach the worker at all. A failed check changes nothing, is audited and answered with a
  rejection; a check that raises changes nothing either. A read-only tool never touches the worker, the permits, the latch or the ledger, calls the
  gateway at most once, and only with a credential.
\<close>

theorem mutating_tool_needs_signed_request:
  assumes "tool_fn env t ii fresh name read_only kwargs held s = (r, held', s', fx)"
    and "\<And>x. sha256 (cr env) x \<noteq> []"
  shows "(\<not> read_only \<longrightarrow> filter is_gateway_call fx = []
      \<and> ((\<exists>p envelope m. filter is_worker_call fx = [WorkerCall p] \<and> carries p envelope kwargs
             \<and> tt_requests t = Some m \<and> dget m (tt_call t) = Some envelope \<and> tt_call t \<noteq> []
             \<and> dget envelope ''args_digest'' = Some (VStr (canonical_digest (cr env) (VDict kwargs)))
             \<and> (case tt_guard t of None \<Rightarrow> True | Some g \<Rightarrow> latch_reason (ri_run (gd_identity g)) (fst s) = None))
         \<or> filter is_worker_call fx = [])
      \<and> (\<forall>e. verify_execution_request env t kwargs = Inl e \<longrightarrow> r = None \<and> fx = [] \<and> s' = s \<and> held' = held)
      \<and> (\<forall>why. verify_execution_request env t kwargs = Inr (Some why) \<longrightarrow>
           r = Some (VDict (rejection_result name fresh why)) \<and> fx = audit_rejected t name why \<and> s' = s \<and> held' = held))
    \<and> (read_only \<longrightarrow> s' = s \<and> held' = held \<and> filter is_worker_call fx = []
         \<and> (fx = [] \<or> (\<exists>payload c cs. fx = [GatewayCall name payload (Some (c # cs))])))"
proof (cases read_only)
  case True
  then show ?thesis using assms(1)
    by (auto simp: tool_fn_def invoke_gateway_tool_def is_worker_call_def neq_Nil_conv split: option.split_asm if_split_asm)
next
  case False
  show ?thesis
  proof (cases "verify_execution_request env t kwargs = Inr None")
    case no: False
    with False assms(1) show ?thesis
      by (auto simp: tool_fn_def audit_rejected_def is_worker_call_def is_gateway_call_def split: sum.split_asm option.split_asm)
  next
    case None: True
    then obtain envelope where e: "request_of t = Some envelope"
      and d: "dget envelope ''args_digest'' = Some (VStr (canonical_digest (cr env) (VDict kwargs)))"
      using assms(2) by (auto elim!: verify_execution_request_None simp: canonical_digest_def)
    note e' = e [unfolded request_of_Some]
    show ?thesis
    proof (cases "tt_guard t")
      case (Some g)
      with False None assms(1) obtain r0 where v: "invoke_v3 env t ii fresh name kwargs g held s = (r0, held', s', fx)"
        by (auto simp: tool_fn_def split: prod.split_asm)
      have "carries p envelope kwargs \<and> latch_reason (ri_run (gd_identity g)) (fst s) = None"
        if "filter is_worker_call fx = [WorkerCall p]" for p
      proof -
        have "WorkerCall p \<in> set fx" using that by (metis filter_eq_ConsD in_set_conv_decomp)
        from invoke_v3_sends [OF v this] e show ?thesis by auto
      qed
      with invoke_v3_effects [OF v] None Some e' d False show ?thesis by auto
    next
      case n: None
      with False None assms(1) obtain r0 where h: "handoff_execution t (ii_wire ii) fresh name kwargs = (r0, fx)"
        by (auto simp: tool_fn_def split: prod.split_asm)
      from handoff_execution_sends [OF h e] n None e' d False show ?thesis by auto
    qed
  qed
qed

section \<open>A concrete invocation\<close>

definition demo_client :: client_settings where
  "demo_client = \<lparr>cs_worker_url = ''http://w/'', cs_handoff_token = ''tok'', cs_key = Some ''k'', cs_timeout = Some (seconds 60)\<rparr>"

definition demo_ii :: invocation_in where
  "demo_ii = \<lparr>ii_pid = 7, ii_wire = WireTimeout, ii_others = [], ii_fault_register = NoFault, ii_fault_accept = NoFault,
     ii_fault_stop = NoFault, ii_lock_free = True, ii_now_register = 1, ii_now_accept = 4, ii_now_stop = 5,
     ii_obs_accept = ''o3'', ii_obs_stop = ''o4''\<rparr>"

definition demo_turn :: tool_turn where
  "demo_turn = \<lparr>tt_requests = Some [(''k1'', demo_envelope)], tt_rejection = None, tt_audit = True, tt_settings = Some demo_client,
     tt_request_id = ''a1'', tt_call = ''k1'', tt_session = ''s1'', tt_delegated = Some ''jwt'', tt_owner = None,
     tt_guard = Some demo_guard, tt_permits_armed = True, tt_observes = True\<rparr>"

abbreviation "demo_post \<equiv> original_post demo_client demo_envelope [] (Some ''jwt'') None ''a1''"

lemma demo_precheck: "precheck demo_proto demo_client demo_envelope [] (Some ''jwt'') None ''a1'' = Inr ()"
proof -
  have "\<not> has_quartet demo_envelope" by (simp add: has_quartet_def IDENTITY_FIELDS_def dhas_dget demo_get demo_envelope_def)
  moreover have "strip ''jwt'' = ''jwt''" "safe_request_id ''a1''" by code_simp+
  ultimately show ?thesis
    by (simp add: precheck_def demo_client_def key_text_def demo_request blank_def fld_def demo_get seconds_def)
qed

lemma demo_coordinate:
  obtains res s' where "coordinate_v3_invocation demo_proto demo_client demo_ii demo_guard demo_envelope [] (Some ''jwt'') None
    ''a1'' ''a1'' ([], demo_ledger1) = (res, s', [demo_post])"
proof -
  have h: "handoff_original demo_proto 7 demo_client WireTimeout demo_envelope [] (Some ''jwt'') None ''a1''
      = (Inl (ProtocolError ''wait_expired''), [demo_post])"
    by (simp add: handoff_original_def demo_precheck read_response_def)
  obtain reg where "register demo_proto demo_cfg NoFault 1 (VDict demo_envelope) (VStr ''a1'') demo_ledger1 = (Inr reg, demo_ledger2)"
    using demo_register by blast
  then have "attempt_v3 demo_proto demo_client demo_ii demo_guard demo_envelope [] (Some ''jwt'') None ''a1'' ''a1'' ([], demo_ledger1)
      = (Inl (ProtocolError ''wait_expired''), ([], demo_ledger2), [demo_post])"
    by (simp add: attempt_v3_def ensure_not_stopped_def guard_stopped_def latch_reason_def demo_guard_def demo_ii_def h)
  then show ?thesis
    using that by (cases "stop_and_report demo_proto demo_ii demo_guard demo_envelope ''wait_expired'' (cs_key demo_client) ''a1'' ''a1'' ([], demo_ledger2)")
      (simp add: coordinate_v3_invocation_def)
qed

theorem invocation_contract_witness:
  "sent_under_authority demo_proto demo_client demo_ii demo_guard demo_envelope [] (Some ''jwt'') None ''a1'' ([], demo_ledger1) [demo_post]"
proof -
  obtain res s' where c: "coordinate_v3_invocation demo_proto demo_client demo_ii demo_guard demo_envelope [] (Some ''jwt'') None
    ''a1'' ''a1'' ([], demo_ledger1) = (res, s', [demo_post])" by (rule demo_coordinate)
  have "ri_run (gd_identity demo_guard) \<noteq> []" by (simp add: demo_guard_def)
  from invocation_contract [OF c this] show ?thesis by simp
qed

lemma demo_verify: "verify_execution_request demo_proto demo_turn [] = Inr None"
  by (simp add: verify_execution_request_def compare_digest_def is_ascii_def demo_turn_def request_of_def get_none_def demo_get
      canonical_digest_def Let_def demo_proto_def)

lemma demo_tool_fn:
  obtains r held' s' fx where "tool_fn demo_proto demo_turn demo_ii ''f'' ''restart'' False [] [] ([], demo_ledger1)
    = (r, held', s', WorkerCall demo_post # fx)"
proof -
  obtain res s' where c: "coordinate_v3_invocation demo_proto demo_client demo_ii demo_guard demo_envelope [] (Some ''jwt'') None
    ''a1'' ''a1'' ([], demo_ledger1) = (res, s', [demo_post])" by (rule demo_coordinate)
  have q: "request_of demo_turn = Some demo_envelope" "\<not> has_quartet demo_envelope"
    by (simp_all add: demo_turn_def request_of_def has_quartet_def IDENTITY_FIELDS_def dhas_dget demo_get demo_envelope_def)
  have "\<exists>r held' fx. invoke_v3 demo_proto demo_turn demo_ii ''f'' ''restart'' [] demo_guard [] ([], demo_ledger1)
      = (r, held', s', WorkerCall demo_post # fx)"
  proof (cases res)
    case (Inl e)
    with c q show ?thesis by (simp add: invoke_v3_def demo_turn_def)
  next
    case (Inr out)
    with c q show ?thesis by (cases "io_status out") (simp_all add: invoke_v3_def demo_turn_def Let_def)
  qed
  then obtain r held' fx where v: "invoke_v3 demo_proto demo_turn demo_ii ''f'' ''restart'' [] demo_guard [] ([], demo_ledger1)
      = (r, held', s', WorkerCall demo_post # fx)" by blast
  have "tt_guard demo_turn = Some demo_guard" by (simp add: demo_turn_def)
  with v demo_verify show ?thesis by (intro that) (simp add: tool_fn_def)
qed

theorem mutating_tool_needs_signed_request_witness:
  "dget demo_envelope ''args_digest'' = Some (VStr (canonical_digest (cr demo_proto) (VDict [])))"
proof -
  obtain r held' s' fx where t: "tool_fn demo_proto demo_turn demo_ii ''f'' ''restart'' False [] [] ([], demo_ledger1)
    = (r, held', s', WorkerCall demo_post # fx)" by (rule demo_tool_fn)
  have "\<And>x. sha256 (cr demo_proto) x \<noteq> []" by (simp add: demo_proto_def)
  from mutating_tool_needs_signed_request [OF t this] show ?thesis
    by (auto simp: is_worker_call_def demo_turn_def)
qed

end
