(* ===== verification/Kernel_Executions.thy ===== *)
theory Kernel_Executions
  imports Request_Signing Agent_Invocation Execution_Handoff Execution_Records
begin

text \<open>
  The kernel's execution seams (\<open>agent_service/runtime_kernel.py\<close>): \<open>_prepare_executions\<close> turns an
  approved card into signed, persisted and audited requests, and \<open>_observe_tool_result\<close> closes the
  execution record when the tool result lands. The records are those of \<open>Execution_Records\<close> (the
  in-memory backend); a failing store is an argument, and its exception is swallowed as in the source.
  The last section follows one approved call from the card through the closure's check, the
  client's checks and the worker's parser.
\<close>

section \<open>Preparing the requests of an approved card\<close>

datatype kernel_effect =
    TraceStep json_obj json_obj
  | ExecutionEvent string string json_obj string string string

record exec_state =
  xs_records :: mem_records
  xs_effects :: "kernel_effect list"

record kernel_cfg =
  kc_key :: string
  kc_recovery :: bool
  kc_epoch :: string
  kc_target_auth :: bool

definition add_effect :: "kernel_effect \<Rightarrow> exec_state \<Rightarrow> exec_state" where
  "add_effect x s = s\<lparr>xs_effects := xs_effects s @ [x]\<rparr>"

definition persist_execution_request :: "bool \<Rightarrow> json_obj \<Rightarrow> exec_state \<Rightarrow> exec_state" where
  "persist_execution_request store_ok request s =
     (if store_ok
      then (case make_execution_record request of
              Inl _ \<Rightarrow> s
            | Inr r \<Rightarrow> s\<lparr>xs_records := mem_save_request r (xs_records s)\<rparr>)
      else s)"

definition capture_authoring_step :: "json_obj \<Rightarrow> json_obj \<Rightarrow> exec_state \<Rightarrow> exec_state" where
  "capture_authoring_step envelope parameters s =
     (if truthy (get_none envelope ''session_id'') then add_effect (TraceStep envelope parameters) s else s)"

definition rejected_event :: "pending_conf \<Rightarrow> string \<Rightarrow> string \<Rightarrow> string \<Rightarrow> string \<Rightarrow> call_entry \<Rightarrow> kernel_effect" where
  "rejected_event p why rid session decider_user call =
     ExecutionEvent ''execution_rejected'' ''deny''
       [(''confirm_id'', VStr (pc_confirm p)), (''call_id'', VStr (ce_call call)), (''tool_name'', VStr (ce_tool call)),
        (''reason'', VStr why)] rid session decider_user"

definition requested_event :: "json_obj \<Rightarrow> string \<Rightarrow> string \<Rightarrow> string \<Rightarrow> kernel_effect" where
  "requested_event request rid session decider_user =
     ExecutionEvent ''execution_requested'' ''success''
       (map (\<lambda>k. (k, get_none request k))
          [''confirm_id'', ''execution_id'', ''call_id'', ''tool_name'', ''args_digest'', ''decider_user_id'', ''owner_user_id''])
       rid session decider_user"

text \<open>\<open>calls_by_id.get(str(request["call_id"]))\<close>: the last parked call of that id.\<close>

definition call_by_id :: "call_entry list \<Rightarrow> val \<Rightarrow> call_entry option" where
  "call_by_id calls cid = find (\<lambda>c. VStr (ce_call c) = cid) (rev calls)"

definition prepare_one ::
  "bool \<Rightarrow> call_entry list \<Rightarrow> string \<Rightarrow> string \<Rightarrow> string \<Rightarrow> json_obj \<Rightarrow>
   (string, json_obj) dict \<times> exec_state \<Rightarrow> (string, json_obj) dict \<times> exec_state" where
  "prepare_one store_ok calls rid session decider_user request ms =
     (let cid = get_none request ''call_id'';
          s1 = persist_execution_request store_ok request (snd ms);
          s2 = (case call_by_id calls cid of
                  Some c \<Rightarrow> if ce_action c = Some ''tools:mutate'' then capture_authoring_step request (ce_parameters c) s1 else s1
                | None \<Rightarrow> s1)
      in (dset (str_of_val cid) request (fst ms), add_effect (requested_event request rid session decider_user) s2))"

definition reject_all ::
  "sign_env \<Rightarrow> pending_conf \<Rightarrow> string \<Rightarrow> string \<Rightarrow> string \<Rightarrow> string \<Rightarrow> exec_state \<Rightarrow> exec_state" where
  "reject_all env p why rid session decider_user s =
     fold (\<lambda>c. add_effect (rejected_event p why rid session decider_user c)) (pending_calls_payload (sn_loads env) p) s"

text \<open>\<open>pinned\<close>: the parked batch has a requester identity.\<close>

definition prepare_executions ::
  "sign_env \<Rightarrow> kernel_cfg \<Rightarrow> bool \<Rightarrow> pending_conf \<Rightarrow> bool \<Rightarrow> string \<Rightarrow> bool \<Rightarrow> string \<Rightarrow> string \<Rightarrow> verified_human option \<Rightarrow>
   verified_human option \<Rightarrow> int \<Rightarrow> (string \<times> int) list \<Rightarrow> exec_state \<Rightarrow>
   (sign_error + (string, json_obj) dict \<times> string option) \<times> exec_state" where
  "prepare_executions env kc store_ok p pinned decider_user approved rid session requester decider now fresh s =
     (if \<not> approved then (Inr ([], None), s)
      else if kc_key kc = [] then (Inr ([], Some ''signing_unavailable''), reject_all env p ''signing_unavailable'' rid session decider_user s)
      else if kc_recovery kc \<and> falsy (pc_run p)
      then (Inr ([], Some ''request_missing''), reject_all env p ''request_missing'' rid session decider_user s)
      else if kc_target_auth kc \<and> pinned \<and> requester = None then (Inr ([], Some ''request_missing''), s)
      else
        (case build_requests env p decider_user (kc_key kc)
                (if kc_recovery kc then pc_run p else None) (if kc_recovery kc then Some (kc_epoch kc) else None)
                900 requester decider now fresh of
           Inl DelegatedIdentityError \<Rightarrow> (Inr ([], Some ''request_missing''), s)
         | Inl e \<Rightarrow> (Inl e, s)
         | Inr requests \<Rightarrow>
             (case fold (prepare_one store_ok (pending_calls_payload (sn_loads env) p) rid session decider_user) requests ([], s) of
                (m, s') \<Rightarrow> (Inr (m, None), s'))))"

section \<open>Closing the record of a tool result\<close>

definition frame_error :: "json_obj \<Rightarrow> json_obj" where
  "frame_error frame = (case get_none frame ''error'' of VDict d \<Rightarrow> d | _ \<Rightarrow> [])"

definition receipt_status :: "json_obj \<Rightarrow> string" where
  "receipt_status frame =
     (if get_none frame ''status'' = VStr ''success'' then ''succeeded''
      else if get_none (frame_error frame) ''code'' = VStr ''TIMEOUT'' then ''timeout'' else ''failed'')"

definition str_or_empty :: "json_obj \<Rightarrow> string \<Rightarrow> string" where
  "str_or_empty d k = (let v = get_none d k in if truthy v then str_of_val v else [])"

definition completed_event :: "json_obj \<Rightarrow> json_obj \<Rightarrow> val \<Rightarrow> kernel_effect" where
  "completed_event request frame duration =
     ExecutionEvent ''execution_completed'' (if receipt_status frame = ''succeeded'' then ''success'' else ''error'')
       (map (\<lambda>k. (k, get_none request k)) [''confirm_id'', ''execution_id'', ''call_id'', ''tool_name'']
        @ [(''status'', VStr (receipt_status frame)), (''duration_ms'', duration), (''request_id'', VStr (str_or_empty frame ''request_id''))])
       (str_or_empty frame ''request_id'') (str_or_empty frame ''session_id'') (str_or_empty request ''decider_user_id'')"

text \<open>
  \<open>_observe_tool_result\<close>, for requests with their fields (a \<open>KeyError\<close> leaves the state as it is). The
  clock reading of the receipt and the duration are arguments; the origin observation after the
  receipt only amends the authoring trace.
\<close>

definition reject_record :: "json_obj \<Rightarrow> string \<Rightarrow> string \<Rightarrow> exec_state \<Rightarrow> exec_state" where
  "reject_record err confirm call s =
     (let why = (let r = get_none err ''reason'' in if truthy r then str_of_val r else ''unknown'') in
      s\<lparr>xs_records := mem_mark_rejected confirm call why (if why = ''args_digest_mismatch'' then Some False else None) (xs_records s)\<rparr>)"

definition receipt_record ::
  "crypto \<Rightarrow> string \<Rightarrow> bool \<Rightarrow> string \<Rightarrow> val \<Rightarrow> json_obj \<Rightarrow> json_obj \<Rightarrow> string \<Rightarrow> string \<Rightarrow> exec_state \<Rightarrow> exec_state" where
  "receipt_record c key store_ok completed duration frame request confirm call s =
     (case build_receipt c request (receipt_status frame) (VDict frame) (VStr (str_or_empty frame ''request_id'')) key completed of
        None \<Rightarrow> s
      | Some receipt \<Rightarrow>
          add_effect (completed_event request frame duration)
            (if store_ok then s\<lparr>xs_records := snd (mem_save_receipt confirm call receipt True (xs_records s))\<rparr> else s))"

definition close_execution ::
  "crypto \<Rightarrow> string \<Rightarrow> bool \<Rightarrow> string \<Rightarrow> val \<Rightarrow> json_obj \<Rightarrow> json_obj \<Rightarrow> exec_state \<Rightarrow> exec_state" where
  "close_execution c key store_ok completed duration frame request s =
     (let err = frame_error frame; code = get_none err ''code'';
          confirm = str_of_val (get_none request ''confirm_id''); call = str_of_val (get_none request ''call_id'')
      in if code = VStr ''EXECUTION_REJECTED'' then (if store_ok then reject_record err confirm call s else s)
         else if code = VStr ''OUTCOME_UNKNOWN'' then s
         else receipt_record c key store_ok completed duration frame request confirm call s)"

definition observe_tool_result ::
  "crypto \<Rightarrow> string \<Rightarrow> bool \<Rightarrow> string \<Rightarrow> val \<Rightarrow> json_obj \<Rightarrow> (string, json_obj) dict \<Rightarrow> exec_state \<Rightarrow> exec_state" where
  "observe_tool_result c key store_ok completed duration frame requests s =
     (if get_none frame ''type'' \<noteq> VStr ''tool_result'' then s
      else (case get_none frame ''call_id'' of
              VStr cid \<Rightarrow>
                (case dget requests cid of
                   None \<Rightarrow> s
                 | Some request \<Rightarrow>
                     if key = [] then s else close_execution c key store_ok completed duration frame request s)
            | _ \<Rightarrow> s))"

section \<open>A result closes at most its own open record\<close>

lemma mem_save_receipt_other:
  "k \<noteq> (confirm, call) \<Longrightarrow> dget (snd (mem_save_receipt confirm call receipt dm m)) k = dget m k"
  by (auto simp: mem_save_receipt_def split: option.split prod.split)

lemma mem_save_receipt_closed:
  "dget m k = Some r \<Longrightarrow> \<not> is_open r \<Longrightarrow> dget (snd (mem_save_receipt confirm call receipt dm m)) k = Some r"
  by (auto simp: mem_save_receipt_def split: option.split prod.split)

lemma mem_mark_rejected_other: "k \<noteq> (confirm, call) \<Longrightarrow> dget (mem_mark_rejected confirm call why dm m) k = dget m k"
  by (auto simp: mem_mark_rejected_def split: option.split)

lemma mem_mark_rejected_closed:
  "dget m k = Some r \<Longrightarrow> \<not> is_open r \<Longrightarrow> dget (mem_mark_rejected confirm call why dm m) k = Some r"
  by (auto simp: mem_mark_rejected_def split: option.split)

lemmas records_frame = mem_save_receipt_other mem_save_receipt_closed mem_mark_rejected_other mem_mark_rejected_closed

lemma reject_record_frame:
  "k \<noteq> (confirm, call) \<or> \<not> is_open r \<Longrightarrow> dget (xs_records s) k = Some r \<Longrightarrow> dget (xs_records (reject_record err confirm call s)) k = Some r"
  by (auto simp: reject_record_def Let_def records_frame)

lemma receipt_record_frame:
  "k \<noteq> (confirm, call) \<or> \<not> is_open r \<Longrightarrow> dget (xs_records s) k = Some r
   \<Longrightarrow> dget (xs_records (receipt_record c key store_ok completed duration frame request confirm call s)) k = Some r"
  by (auto simp: receipt_record_def add_effect_def records_frame split: option.split)

lemma build_receipt_fields:
  assumes "build_receipt c request status outcome rid key completed = Some r"
  shows "dget r ''status'' = Some (VStr status)" and "dget r ''completed_at'' = Some (VStr completed)"
    and "dget r ''outcome_digest'' = Some (VStr (canonical_digest c outcome))"
    and "dget r ''execution_id'' = dget request ''execution_id''"
    and "\<exists>sig. dget r ''signature'' = Some (VStr sig) \<and> verify_envelope c r sig key"
proof -
  from assms obtain eid e where req: "dget request ''execution_id'' = Some eid"
    and e: "e = [(''execution_id'', eid), (''status'', VStr status), (''outcome_digest'', VStr (canonical_digest c outcome)),
        (''request_id'', rid), (''completed_at'', VStr completed)]"
    and r: "r = dset ''signature'' (VStr (sign_envelope c e key)) e"
    by (auto simp: build_receipt_def Let_def split: option.splits)
  have keep: "dget r k = dget e k" if "k \<noteq> ''signature''" for k using that unfolding r dget_dset by simp
  show "dget r ''status'' = Some (VStr status)" "dget r ''completed_at'' = Some (VStr completed)"
    "dget r ''outcome_digest'' = Some (VStr (canonical_digest c outcome))"
    "dget r ''execution_id'' = dget request ''execution_id''"
    using req keep by (simp_all add: e)
  have "dget r ''signature'' = Some (VStr (sign_envelope c e key))" unfolding r dget_dset by simp
  moreover have "verify_envelope c r (sign_envelope c e key) key" unfolding r by (rule verify_signed)
  ultimately show "\<exists>sig. dget r ''signature'' = Some (VStr sig) \<and> verify_envelope c r sig key" by blast
qed

text \<open>
  What a tool result does to the execution records. A result whose outcome is unknown changes
  nothing, so the record stays open for the worker's own receipt. A rejection marks the open record of
  the call rejected with its reason; any other result closes it with the status of the result and a
  receipt that names the execution, digests exactly this result and verifies under the signing key.
  A record that is already closed, and every other record, stays as it is, whatever the result.
\<close>

theorem tool_result_closes_record:
  assumes "s' = observe_tool_result c key store_ok completed duration frame requests s"
    and "dget frame ''type'' = Some (VStr ''tool_result'')" and "dget frame ''call_id'' = Some (VStr cid)"
    and "dget requests cid = Some request" and "key \<noteq> []"
    and "dget request ''confirm_id'' = Some (VStr confirm)" and "dget request ''call_id'' = Some (VStr call)"
    and "dget request ''execution_id'' = Some (VStr eid)" and "code = get_none (frame_error frame) ''code''"
  shows "(code = VStr ''OUTCOME_UNKNOWN'' \<longrightarrow> s' = s)
    \<and> (\<forall>k r. dget (xs_records s) k = Some r \<and> (k \<noteq> (confirm, call) \<or> \<not> is_open r) \<longrightarrow> dget (xs_records s') k = Some r)
    \<and> (\<forall>r. dget (xs_records s) (confirm, call) = Some r \<and> is_open r \<and> store_ok \<longrightarrow>
         (code = VStr ''EXECUTION_REJECTED'' \<longrightarrow>
            (\<exists>r'. dget (xs_records s') (confirm, call) = Some r' \<and> er_status r' = ''rejected''
               \<and> er_reject_reason r' \<noteq> None \<and> er_receipt r' = er_receipt r))
         \<and> (code \<notin> {VStr ''EXECUTION_REJECTED'', VStr ''OUTCOME_UNKNOWN''} \<longrightarrow>
              (\<exists>r' receipt sig. dget (xs_records s') (confirm, call) = Some r' \<and> er_status r' = receipt_status frame
                 \<and> er_receipt r' = Some receipt \<and> dget receipt ''execution_id'' = Some (VStr eid)
                 \<and> dget receipt ''outcome_digest'' = Some (VStr (canonical_digest c (VDict frame)))
                 \<and> dget receipt ''signature'' = Some (VStr sig) \<and> verify_envelope c receipt sig key)))"
proof -
  note f = assms(2-8)
  have s': "s' = close_execution c key store_ok completed duration frame request s"
    unfolding assms(1) observe_tool_result_def using f by (simp add: get_none_def)
  have get: "get_none request ''confirm_id'' = VStr confirm" "get_none request ''call_id'' = VStr call"
    using f by (simp_all add: get_none_def)
  have unknown: "s' = s" if "code = VStr ''OUTCOME_UNKNOWN''"
    using that by (simp add: s' close_execution_def Let_def assms(9) [symmetric])
  have closed: "dget (xs_records s') k = Some r"
    if "dget (xs_records s) k = Some r" "k \<noteq> (confirm, call) \<or> \<not> is_open r" for k r
    using reject_record_frame [OF that(2,1)] receipt_record_frame [OF that(2,1)] that(1)
    by (simp add: s' close_execution_def Let_def get)
  have rejected: "\<exists>r'. dget (xs_records s') (confirm, call) = Some r' \<and> er_status r' = ''rejected''
               \<and> er_reject_reason r' \<noteq> None \<and> er_receipt r' = er_receipt r"
    if "dget (xs_records s) (confirm, call) = Some r" "is_open r" store_ok "code = VStr ''EXECUTION_REJECTED''" for r
    using that by (simp add: s' close_execution_def Let_def assms(9) [symmetric] get reject_record_def mem_mark_rejected_def)
  have receipt: "\<exists>r' receipt sig. dget (xs_records s') (confirm, call) = Some r' \<and> er_status r' = receipt_status frame
                 \<and> er_receipt r' = Some receipt \<and> dget receipt ''execution_id'' = Some (VStr eid)
                 \<and> dget receipt ''outcome_digest'' = Some (VStr (canonical_digest c (VDict frame)))
                 \<and> dget receipt ''signature'' = Some (VStr sig) \<and> verify_envelope c receipt sig key"
    if "dget (xs_records s) (confirm, call) = Some r" "is_open r" store_ok "code \<notin> {VStr ''EXECUTION_REJECTED'', VStr ''OUTCOME_UNKNOWN''}" for r
  proof -
    obtain rc where rc: "build_receipt c request (receipt_status frame) (VDict frame) (VStr (str_or_empty frame ''request_id'')) key completed = Some rc"
      using f by (simp add: build_receipt_def Let_def)
    note b = build_receipt_fields [OF rc]
    have "dget (xs_records s') (confirm, call) = Some (snd (close_row rc True r))"
      using that rc
      by (simp add: s' close_execution_def Let_def assms(9) [symmetric] get receipt_record_def mem_save_receipt_def add_effect_def
          split: prod.split)
    moreover have "er_status (snd (close_row rc True r)) = receipt_status frame" "er_receipt (snd (close_row rc True r)) = Some rc"
      using b by (simp_all add: close_row_def str_fld_def)
    ultimately show ?thesis using b f(7) by auto
  qed
  show ?thesis using unknown closed rejected receipt by blast
qed

section \<open>One approved call, from the card to the worker's parser\<close>

lemma dget_fold_requests:
  "dget (fold (\<lambda>x. dset (f x) (g x)) xs m) k = (case dget (rev (map (\<lambda>x. (f x, g x)) xs)) k of None \<Rightarrow> dget m k | Some v \<Rightarrow> Some v)"
proof (induction xs arbitrary: m)
  case Nil
  then show ?case by simp
next
  case (Cons x xs)
  then show ?case by (simp add: dget_append split: option.splits)
qed

lemma prepare_one_fst: "fst (prepare_one store_ok calls rid session du r ms) = dset (str_of_val (get_none r ''call_id'')) r (fst ms)"
  by (simp add: prepare_one_def Let_def)

lemma prepare_fold_fst:
  "fst (fold (prepare_one store_ok calls rid session du) rs ms) = fold (\<lambda>r. dset (str_of_val (get_none r ''call_id'')) r) rs (fst ms)"
  by (induction rs arbitrary: ms) (simp_all add: prepare_one_fst)

lemma dget_rev_nth:
  assumes "distinct (map fst kvs)" and "i < length kvs"
  shows "dget (rev kvs) (fst (kvs ! i)) = Some (snd (kvs ! i))"
  using assms by (simp add: dget_def rev_map [symmetric])

lemma prepared_request:
  assumes "distinct ids" and "length es = length ids" and "i < length es"
    and "\<And>j. j < length es \<Longrightarrow> dget (es ! j) ''call_id'' = Some (VStr (ids ! j))"
  shows "dget (fst (fold (prepare_one store_ok calls rid session du) es ([], s))) (ids ! i) = Some (es ! i)"
proof -
  let ?kvs = "map (\<lambda>r. (str_of_val (get_none r ''call_id''), r)) es"
  have ids: "map fst ?kvs = ids"
    using assms(2,4) by (intro nth_equalityI) (simp_all add: get_none_def)
  have "dget (rev ?kvs) (fst (?kvs ! i)) = Some (snd (?kvs ! i))"
    using assms(1,3) ids by (intro dget_rev_nth) auto
  moreover have "fst (?kvs ! i) = ids ! i" using assms(3) by (subst ids [symmetric]) simp
  ultimately show ?thesis using assms(3) by (simp add: prepare_fold_fst dget_fold_requests)
qed

lemma bearer_accepted:
  assumes "ws_handoff_token ws = token" and "token \<noteq> []" and "strip token = token"
  shows "bearer_ok ws (''Bearer '' @ token)"
proof -
  have "lower ''Bearer'' = ''bearer''" by code_simp
  with assms show ?thesis by (simp add: bearer_ok_def Let_def)
qed

text \<open>Both ends are configured for each other.\<close>

definition channel_ok :: "client_settings \<Rightarrow> worker_settings \<Rightarrow> ledger_cfg \<Rightarrow> string \<Rightarrow> bool" where
  "channel_ok st ws cfg key \<longleftrightarrow>
     cs_key st = Some key \<and> cfg_key cfg = key \<and> cs_worker_url st \<noteq> [] \<and> ws_gateway_url ws \<noteq> []
     \<and> ws_handoff_token ws = cs_handoff_token st \<and> cs_handoff_token st \<noteq> [] \<and> strip (cs_handoff_token st) = cs_handoff_token st
     \<and> (case cs_timeout st of None \<Rightarrow> False | Some t \<Rightarrow> 0 < t \<and> t \<le> seconds 120)"

lemma plain_request_parsed:
  assumes ch: "channel_ok st ws cfg key" and ids: "\<not> list_ex (dhas e) IDENTITY_FIELDS"
    and d: "dget e ''args_digest'' = Some (VStr (canonical_digest (cr env) (VDict kwargs)))"
    and tok: "strip tok \<noteq> []" and at: "safe_request_id attempt"
    and post: "post = original_post st e kwargs (Some tok) None attempt"
  shows "precheck env st e kwargs (Some tok) None attempt = Inr () \<longleftrightarrow> (\<exists>f. validate_request env (VDict e) key = Inr f)"
    and "bearer_ok ws (wp_auth post)"
    and "validate_request env (VDict e) key = Inr e \<Longrightarrow> hi_body inp = Some (VDict (wp_body post)) \<Longrightarrow>
           parse_submission env ws cfg inp = Inr (e, kwargs, VStr tok, None)"
proof -
  have q: "\<not> has_quartet e" using ids by (auto simp: has_quartet_def IDENTITY_FIELDS_def)
  show "precheck env st e kwargs (Some tok) None attempt = Inr () \<longleftrightarrow> (\<exists>f. validate_request env (VDict e) key = Inr f)"
    using ch q d tok at by (simp add: precheck_def channel_ok_def key_text_def blank_def fld_def)
  show "bearer_ok ws (wp_auth post)"
    using ch bearer_accepted [of ws "cs_handoff_token st"] by (simp add: post original_post_def channel_ok_def)
  have body: "wp_body post = [(''request'', VDict e), (''arguments'', VDict kwargs), (''delegated_token'', VStr tok)]"
    using q by (simp add: post original_post_def key_text_def)
  show "parse_submission env ws cfg inp = Inr (e, kwargs, VStr tok, None)"
    if "validate_request env (VDict e) key = Inr e" "hi_body inp = Some (VDict (wp_body post))"
    using ch ids d tok that
    by (simp add: parse_submission_def parse_body_def body get_none_def REQUIRED_KEYS_def dhas_def delegated_of_def channel_ok_def fld_def)
qed

text \<open>
  C20. An approved call goes through: for every call of a card approved under durable admission without
  delegated identities, with distinct call ids and configured ends, the kernel holds a request under the
  call's id; the tool closure's check accepts it exactly for arguments with the digest of the parked
  ones. With those the client's checks pass exactly when the request meets its JSON schema and the limit
  of 8192 characters, so nothing else can stop it, and then the worker authenticates the post and parses
  it to the very same request, arguments and credential.
\<close>

theorem approved_call_goes_through:
  assumes "prepare_executions env kc store_ok p pinned du True rid session None None now fresh s = (Inr (reqs, None), s')"
    and "kc_recovery kc" and "iso_roundtrip (sn_proto env)" and "length fresh = length (pc_calls p)"
    and "distinct (map tc_id (pc_calls p))" and "tc \<in> set (pc_calls p)" and "tc_id tc \<noteq> []"
    and "kwargs = parse_parameters (sn_loads env) tc"
    and "tt_requests t = Some reqs" and "tt_rejection t = None" and "tt_call t = tc_id tc"
    and "channel_ok st ws cfg (kc_key kc)" and "strip tok \<noteq> []" and "safe_request_id attempt"
    and "canonical_digest (cr (sn_proto env)) (VDict kwargs) \<noteq> []"
    and "is_ascii (canonical_digest (cr (sn_proto env)) (VDict kwargs))"
  shows "\<exists>e. dget reqs (tc_id tc) = Some e
    \<and> (\<forall>args. verify_execution_request (sn_proto env) t args = Inr None
         \<longleftrightarrow> canonical_digest (cr (sn_proto env)) (VDict args) = canonical_digest (cr (sn_proto env)) (VDict kwargs))
    \<and> (precheck (sn_proto env) st e kwargs (Some tok) None attempt = Inr ()
         \<longleftrightarrow> schema_ok (sn_proto env) ''execution-request'' (VDict e) \<and> length (canonical_json (VDict e)) \<le> 8192)
    \<and> bearer_ok ws (wp_auth (original_post st e kwargs (Some tok) None attempt))
    \<and> (\<forall>inp. precheck (sn_proto env) st e kwargs (Some tok) None attempt = Inr ()
         \<and> hi_body inp = Some (VDict (wp_body (original_post st e kwargs (Some tok) None attempt))) \<longrightarrow>
         parse_submission (sn_proto env) ws cfg inp = Inr (e, kwargs, VStr tok, None))"
proof -
  from assms(1,2) obtain run es where run: "pc_run p = Some run" and key: "kc_key kc \<noteq> []"
    and es: "build_requests env p du (kc_key kc) (Some run) (Some (kc_epoch kc)) 900 None None now fresh = Inr es"
    and reqs: "reqs = fst (fold (prepare_one store_ok (pending_calls_payload (sn_loads env) p) rid session du) es ([], s))"
    by (cases "pc_run p") (auto simp: prepare_executions_def falsy_def split: if_split_asm sum.split_asm sign_error.split_asm prod.split_asm)
  from assms(6) obtain i where i: "i < length (pc_calls p)" "tc = pc_calls p ! i" by (metis in_set_conv_nth)
  note fields = approved_request_fields [OF es assms(4) refl]
  have call: "dget (es ! j) ''call_id'' = Some (VStr (map tc_id (pc_calls p) ! j))" if "j < length es" for j
    using fields(3) [OF that, of "''call_id''"] that fields(1)
    by (simp add: IDENTITY_KEYS_def WINDOW_KEYS_def request_fields_def call_entry_of_def Let_def)
  have ie: "i < length es" using i fields(1) by simp
  let ?e = "es ! i"
  have "dget reqs (map tc_id (pc_calls p) ! i) = Some ?e"
    unfolding reqs using assms(5) fields(1) ie call by (intro prepared_request) auto
  then have e: "dget reqs (tc_id tc) = Some ?e" using i by simp
  have valid: "validate_request (sn_proto env) (VDict ?e) (kc_key kc) = Inr ?e"
    if "schema_ok (sn_proto env) ''execution-request'' (VDict ?e)" "length (canonical_json (VDict ?e)) \<le> 8192"
    by (rule approved_request_valid [OF es assms(3) key assms(4) ie that])
  have exact: "schema_ok (sn_proto env) ''execution-request'' (VDict ?e) \<and> length (canonical_json (VDict ?e)) \<le> 8192"
    if "validate_request (sn_proto env) (VDict ?e) (kc_key kc) = Inr f" for f
    using that by (elim validate_request_cases) (simp add: METADATA_LIMIT_def)
  have none: "\<not> list_ex (dhas ?e) IDENTITY_FIELDS"
    using fields(4) [OF ie refl] by (auto simp: list_ex_iff dhas_dget IDENTITY_FIELDS_def IDENTITY_KEYS_def)
  have d: "dget ?e ''args_digest'' = Some (VStr (canonical_digest (cr (sn_proto env)) (VDict kwargs)))"
    using fields(3) [OF ie, of "''args_digest''"]
    by (simp add: assms(8) i(2) IDENTITY_KEYS_def WINDOW_KEYS_def request_fields_def call_entry_of_def Let_def)
  have "verify_execution_request (sn_proto env) t args = Inr None
      \<longleftrightarrow> canonical_digest (cr (sn_proto env)) (VDict args) = canonical_digest (cr (sn_proto env)) (VDict kwargs)" for args
    using e d assms(7,9-11,15,16)
    by (simp add: verify_execution_request_def compare_digest_def request_of_def get_none_def Let_def)
  moreover note parsed = plain_request_parsed [OF assms(12) none d assms(13,14) refl]
  have "precheck (sn_proto env) st ?e kwargs (Some tok) None attempt = Inr ()
      \<longleftrightarrow> schema_ok (sn_proto env) ''execution-request'' (VDict ?e) \<and> length (canonical_json (VDict ?e)) \<le> 8192"
    using parsed(1) valid exact by blast
  ultimately show ?thesis using e parsed(2,3) valid by blast
qed

section \<open>A concrete approval\<close>

definition demo_kernel :: kernel_cfg where
  "demo_kernel = \<lparr>kc_key = ''k'', kc_recovery = True, kc_epoch = ''ep'', kc_target_auth = False\<rparr>"

definition demo_chain_turn :: tool_turn where
  "demo_chain_turn = demo_turn\<lparr>tt_requests := Some [(''k1'', demo_signed)]\<rparr>"

lemma demo_prepared:
  "\<exists>s'. prepare_executions demo_sign demo_kernel True demo_pending False ''u2'' True ''q'' ''s1'' None None 0 [(''e1'', 0)]
     \<lparr>xs_records = [], xs_effects = []\<rparr> = (Inr ([(''k1'', demo_signed)], None), s')"
proof -
  let ?s = "\<lparr>xs_records = [], xs_effects = []\<rparr>" and ?cs = "pending_calls_payload (sn_loads demo_sign) demo_pending"
  obtain m s' where f: "fold (prepare_one True ?cs ''q'' ''s1'' ''u2'') [demo_signed] ([], ?s) = (m, s')"
    by (cases "fold (prepare_one True ?cs ''q'' ''s1'' ''u2'') [demo_signed] ([], ?s)")
  then have "m = [(''k1'', demo_signed)]"
    using prepare_one_fst [of True ?cs "''q''" "''s1''" "''u2''" demo_signed "([], ?s)"]
    by (simp add: get_none_def demo_signed_def)
  with f demo_build show ?thesis
    by (simp add: prepare_executions_def demo_kernel_def falsy_def demo_pending_def)
qed

theorem approved_call_goes_through_witness:
  "\<exists>e. verify_execution_request (sn_proto demo_sign) demo_chain_turn [] = Inr None
     \<and> parse_submission (sn_proto demo_sign) demo_worker demo_cfg
         (demo_submission\<lparr>hi_body := Some (VDict (wp_body (original_post demo_client e [] (Some ''jwt'') None ''a1'')))\<rparr>)
       = Inr (e, [], VStr ''jwt'', None)"
proof -
  obtain s' where p: "prepare_executions demo_sign demo_kernel True demo_pending False ''u2'' True ''q'' ''s1'' None None 0 [(''e1'', 0)]
     \<lparr>xs_records = [], xs_effects = []\<rparr> = (Inr ([(''k1'', demo_signed)], None), s')" using demo_prepared by blast
  let ?tc = "\<lparr>tc_name = ''restart'', tc_id = ''k1'', tc_input = []\<rparr>"
  have size: "length (canonical_json (VDict demo_signed)) \<le> 8192" by code_simp
  have meets: "schema_ok (sn_proto demo_sign) ''execution-request'' (VDict demo_signed)" by (simp add: demo_sign_def)
  have strips: "strip ''jwt'' = ''jwt''" "strip ''tok'' = ''tok''" "safe_request_id ''a1''" by code_simp+
  have ch: "channel_ok demo_client demo_worker demo_cfg (kc_key demo_kernel)"
    using strips by (simp add: channel_ok_def demo_client_def demo_worker_def demo_cfg_def demo_kernel_def seconds_def)
  have rec: "kc_recovery demo_kernel" by (simp add: demo_kernel_def)
  have "\<exists>e. dget [(''k1'', demo_signed)] (tc_id ?tc) = Some e
    \<and> (\<forall>args. verify_execution_request (sn_proto demo_sign) demo_chain_turn args = Inr None
         \<longleftrightarrow> canonical_digest (cr (sn_proto demo_sign)) (VDict args) = canonical_digest (cr (sn_proto demo_sign)) (VDict []))
    \<and> (precheck (sn_proto demo_sign) demo_client e [] (Some ''jwt'') None ''a1'' = Inr ()
         \<longleftrightarrow> schema_ok (sn_proto demo_sign) ''execution-request'' (VDict e) \<and> length (canonical_json (VDict e)) \<le> 8192)
    \<and> bearer_ok demo_worker (wp_auth (original_post demo_client e [] (Some ''jwt'') None ''a1''))
    \<and> (\<forall>inp. precheck (sn_proto demo_sign) demo_client e [] (Some ''jwt'') None ''a1'' = Inr ()
         \<and> hi_body inp = Some (VDict (wp_body (original_post demo_client e [] (Some ''jwt'') None ''a1''))) \<longrightarrow>
         parse_submission (sn_proto demo_sign) demo_worker demo_cfg inp = Inr (e, [], VStr ''jwt'', None))"
    using strips
    by (intro approved_call_goes_through [OF p rec demo_iso_roundtrip _ _ _ _ _ _ _ _ ch])
      (simp_all add: demo_pending_def parse_parameters_def demo_chain_turn_def demo_turn_def demo_sign_def canonical_digest_def is_ascii_def)
  then have "verify_execution_request (sn_proto demo_sign) demo_chain_turn [] = Inr None"
    and "\<forall>inp. hi_body inp = Some (VDict (wp_body (original_post demo_client demo_signed [] (Some ''jwt'') None ''a1''))) \<longrightarrow>
         parse_submission (sn_proto demo_sign) demo_worker demo_cfg inp = Inr (demo_signed, [], VStr ''jwt'', None)"
    using size meets by (auto simp del: canonical_json.simps)
  then show ?thesis by (intro exI [of _ demo_signed]) simp
qed

definition demo_exec_state :: exec_state where
  "demo_exec_state = persist_execution_request True demo_signed \<lparr>xs_records = [], xs_effects = []\<rparr>"

definition demo_frame :: json_obj where
  "demo_frame = [(''type'', VStr ''tool_result''), (''call_id'', VStr ''k1''), (''status'', VStr ''success''), (''request_id'', VStr ''q'')]"

theorem tool_result_closes_record_witness:
  "\<exists>r'. dget (xs_records (observe_tool_result demo_crypto ''k'' True ''t'' VNone demo_frame [(''k1'', demo_signed)] demo_exec_state))
     (''c1'', ''k1'') = Some r' \<and> er_status r' = ''succeeded''"
proof -
  have "\<exists>r. dget (xs_records demo_exec_state) (''c1'', ''k1'') = Some r \<and> is_open r"
    by (simp add: demo_exec_state_def persist_execution_request_def make_execution_record_def demo_signed_def str_fld_def
        mem_save_request_def rec_key_of_def dhas_def is_open_def)
  then obtain r where r: "dget (xs_records demo_exec_state) (''c1'', ''k1'') = Some r" "is_open r" by blast
  have code: "get_none (frame_error demo_frame) ''code'' = VNone" "receipt_status demo_frame = ''succeeded''"
    by (simp_all add: frame_error_def demo_frame_def get_none_def receipt_status_def)
  have f: "dget demo_frame ''type'' = Some (VStr ''tool_result'')" "dget demo_frame ''call_id'' = Some (VStr ''k1'')"
    "dget [(''k1'', demo_signed)] ''k1'' = Some demo_signed" "(''k'' :: string) \<noteq> []"
    "dget demo_signed ''confirm_id'' = Some (VStr ''c1'')" "dget demo_signed ''call_id'' = Some (VStr ''k1'')"
    "dget demo_signed ''execution_id'' = Some (VStr ''e1'')"
    by (simp_all add: demo_frame_def demo_signed_def)
  from tool_result_closes_record [OF refl f refl, of demo_crypto True "''t''" VNone demo_exec_state] r code
  show ?thesis by auto
qed

end
