(* ===== verification/Redaction.thy ===== *)
theory Redaction
  imports Execution_Signing Complex_Main
begin

text \<open>
  Redaction of tool output (\<open>tool_gateway/tools/redaction.py\<close>): the four value patterns with a
  backtracking matcher for the constructs they use, \<open>finditer\<close> and \<open>sub\<close> in one scan, the walk over a
  payload and the overflow test. Characters are code points below 256; among them \<open>\w\<close> (and so \<open>\b\<close>)
  and \<open>\s\<close> are those of Python's text patterns.
\<close>

section \<open>The patterns\<close>

text \<open>
  A pattern is a sequence of literals, alternatives of literals, repetitions of a character class
  (greedy or lazy, with bounds) and word boundaries. \<open>re_match\<close> returns the length of the match that
  \<open>re\<close> finds at the head of the text; its flag says whether the character before is a word character.
\<close>

datatype re_item = Lit string | Alt "string list" | Rep bool nat "nat option" "char \<Rightarrow> bool" | Bnd

definition ascii_word :: "char \<Rightarrow> bool" where
  "ascii_word c \<longleftrightarrow> is_digit c \<or> (CHR ''A'' \<le> c \<and> c \<le> CHR ''Z'') \<or> (CHR ''a'' \<le> c \<and> c \<le> CHR ''z'') \<or> c = CHR ''_''"

text \<open>A word character is an ASCII one or another letter or number: the feminine and masculine ordinals, micro, superscripts, fractions and accented letters.\<close>

definition word_char :: "char \<Rightarrow> bool" where
  "word_char c \<longleftrightarrow>
     ascii_word c \<or> (let n = (of_char c :: nat) in n \<in> {170, 178, 179, 181, 185, 186, 188, 189, 190} \<or> (192 \<le> n \<and> n \<noteq> 215 \<and> n \<noteq> 247))"

definition word_after :: "bool \<Rightarrow> string \<Rightarrow> bool" where
  "word_after w xs = (if xs = [] then w else word_char (last xs))"

definition word_next :: "string \<Rightarrow> bool" where
  "word_next s \<longleftrightarrow> s \<noteq> [] \<and> word_char (hd s)"

primrec first_some :: "('a \<Rightarrow> 'b option) \<Rightarrow> 'a list \<Rightarrow> 'b option" where
  "first_some f [] = None"
| "first_some f (x # xs) = (case f x of None \<Rightarrow> first_some f xs | Some y \<Rightarrow> Some y)"

fun re_match :: "re_item list \<Rightarrow> bool \<Rightarrow> string \<Rightarrow> nat option" where
  "re_match [] w s = Some 0"
| "re_match (Bnd # r) w s = (if w \<noteq> word_next s then re_match r w s else None)"
| "re_match (Lit l # r) w s =
     (if take (length l) s = l
      then map_option ((+) (length l)) (re_match r (word_after w l) (drop (length l) s)) else None)"
| "re_match (Alt ls # r) w s =
     first_some (\<lambda>l. if take (length l) s = l
                     then map_option ((+) (length l)) (re_match r (word_after w l) (drop (length l) s)) else None) ls"
| "re_match (Rep greedy lo hi P # r) w s =
     (let m = length (takeWhile P s);
          ks = [lo..<Suc (case hi of None \<Rightarrow> m | Some h \<Rightarrow> min h m)]
      in first_some (\<lambda>k. map_option ((+) k) (re_match r (word_after w (take k s)) (drop k s)))
           (if greedy then rev ks else ks))"

definition upper_or_space :: "char \<Rightarrow> bool" where
  "upper_or_space c \<longleftrightarrow> (CHR ''A'' \<le> c \<and> c \<le> CHR ''Z'') \<or> c = CHR '' ''"

definition base64url_char :: "char \<Rightarrow> bool" where
  "base64url_char c \<longleftrightarrow> ascii_word c \<or> c = CHR ''-''"

definition credential_char :: "char \<Rightarrow> bool" where
  "credential_char c \<longleftrightarrow> ascii_word c \<or> c \<in> set ''+/=.~-''"

definition key_id_char :: "char \<Rightarrow> bool" where
  "key_id_char c \<longleftrightarrow> is_digit c \<or> (CHR ''A'' \<le> c \<and> c \<le> CHR ''Z'')"

definition pem_pattern :: "re_item list" where
  "pem_pattern =
     [Lit ''-----BEGIN '', Rep True 0 None upper_or_space, Lit ''PRIVATE KEY-----'', Rep False 0 None (\<lambda>c. True),
      Lit ''-----END '', Rep True 0 None upper_or_space, Lit ''PRIVATE KEY-----'']"

definition jwt_pattern :: "re_item list" where
  "jwt_pattern =
     [Bnd, Lit ''eyJ'', Rep True 8 None base64url_char, Lit ''.'', Rep True 8 None base64url_char, Lit ''.'',
      Rep True 8 None base64url_char, Bnd]"

definition bearer_pattern :: "re_item list" where
  "bearer_pattern = [Bnd, Alt [''Bearer'', ''Basic''], Rep True 1 None is_space, Rep True 8 None credential_char, Bnd]"

definition access_key_pattern :: "re_item list" where
  "access_key_pattern = [Bnd, Lit ''AKIA'', Rep True 16 (Some 16) key_id_char, Bnd]"

definition VALUE_PATTERNS :: "re_item list list" where
  "VALUE_PATTERNS = [pem_pattern, jwt_pattern, bearer_pattern, access_key_pattern]"

definition SENSITIVE_KEYS :: "string list" where
  "SENSITIVE_KEYS =
     [''password'', ''passwd'', ''secret'', ''api_key'', ''apikey'', ''token'', ''access_key'', ''client_secret'',
      ''private_key'', ''authorization'']"

definition REDACTION_MARKER :: string where
  "REDACTION_MARKER = ''[REDACTED]''"

section \<open>Texts and payloads\<close>

text \<open>\<open>pattern.sub\<close> with the number and the length of the matches \<open>finditer\<close> yields; no pattern matches the empty text.\<close>

function (sequential) re_sub :: "re_item list \<Rightarrow> bool \<Rightarrow> string \<Rightarrow> string \<times> nat \<times> nat" where
  "re_sub p w [] = ([], 0, 0)"
| "re_sub p w (c # cs) =
     (case re_match p w (c # cs) of
        Some (Suc n) \<Rightarrow>
          (case re_sub p (word_after w (take (Suc n) (c # cs))) (drop n cs) of
             (t, spans, chars) \<Rightarrow> (REDACTION_MARKER @ t, Suc spans, Suc n + chars))
      | _ \<Rightarrow> (case re_sub p (word_char c) cs of (t, spans, chars) \<Rightarrow> (c # t, spans, chars)))"
  by pat_completeness auto
termination
  by (relation "measure (\<lambda>(p, w, s). length s)") auto

fun redact_with :: "re_item list list \<Rightarrow> string \<Rightarrow> string \<times> nat \<times> nat" where
  "redact_with [] txt = (txt, 0, 0)"
| "redact_with (p # ps) txt =
     (case re_sub p False txt of (t, s, c) \<Rightarrow> (case redact_with ps t of (t', s', c') \<Rightarrow> (t', s + s', c + c')))"

definition redact_text :: "string \<Rightarrow> string \<times> nat \<times> nat" where
  "redact_text txt = redact_with VALUE_PATTERNS txt"

definition sensitive_entry :: "string \<Rightarrow> val \<Rightarrow> bool" where
  "sensitive_entry k v \<longleftrightarrow> lower k \<in> set SENSITIVE_KEYS \<and> is_str v"

fun redact_node :: "val \<Rightarrow> val \<times> nat \<times> nat" where
  "redact_node (VDict d) =
     (let rs = map (\<lambda>p. if sensitive_entry (fst p) (snd p)
                        then (VStr REDACTION_MARKER, 1, length (str_of_val (snd p)))
                        else redact_node (snd p)) d
      in (VDict (zip (map fst d) (map fst rs)), sum_list (map (fst \<circ> snd) rs), sum_list (map (snd \<circ> snd) rs)))"
| "redact_node (VList xs) =
     (let rs = map redact_node xs
      in (VList (map fst rs), sum_list (map (fst \<circ> snd) rs), sum_list (map (snd \<circ> snd) rs)))"
| "redact_node (VStr s) = (case redact_text s of (t, n, c) \<Rightarrow> (VStr t, n, c))"
| "redact_node v = (v, 0, 0)"

record redaction_stats =
  rs_spans :: nat
  rs_original :: nat
  rs_redacted :: nat

text \<open>
  \<open>RedactionStats.overflow\<close>. The fraction is a rational number; the source divides in floating point,
  which differs from the exact quotient by rounding only.
\<close>

definition overflow :: "redaction_stats \<Rightarrow> rat \<Rightarrow> bool" where
  "overflow st fraction \<longleftrightarrow> 0 < rs_original st \<and> fraction < of_nat (rs_redacted st) / of_nat (rs_original st)"

text \<open>\<open>json.dumps\<close> with its default separators.\<close>

fun json_dumps :: "val \<Rightarrow> string" where
  "json_dumps VNone = ''null''"
| "json_dumps (VBool b) = (if b then ''true'' else ''false'')"
| "json_dumps (VInt n) = int_str n"
| "json_dumps (VStr s) = json_str s"
| "json_dumps (VList xs) = ''['' @ join_with '', '' (map json_dumps xs) @ '']''"
| "json_dumps (VDict d) = ''{'' @ join_with '', '' (map (\<lambda>p. json_str (fst p) @ '': '' @ json_dumps (snd p)) d) @ ''}''"

section \<open>What redaction guarantees\<close>

text \<open>Some suffix of the text starts with an access key id between word boundaries.\<close>

fun holds_access_key :: "bool \<Rightarrow> string \<Rightarrow> bool" where
  "holds_access_key w [] = False"
| "holds_access_key w (c # cs) = (re_match access_key_pattern w (c # cs) \<noteq> None \<or> holds_access_key (word_char c) cs)"

text \<open>No string under a sensitive key but the marker, and no access key id in any string.\<close>

fun secret_free :: "val \<Rightarrow> bool" where
  "secret_free (VDict d) =
     list_all (\<lambda>p. (sensitive_entry (fst p) (snd p) \<longrightarrow> snd p = VStr REDACTION_MARKER) \<and> secret_free (snd p)) d"
| "secret_free (VList xs) = list_all secret_free xs"
| "secret_free (VStr s) = (\<not> holds_access_key False s)"
| "secret_free v = True"

lemma key_id_word: "key_id_char c \<Longrightarrow> word_char c"
  by (auto simp: key_id_char_def word_char_def ascii_word_def)

lemma word_char_KIA: "word_char (CHR ''K'')" "word_char (CHR ''I'')" "word_char (CHR ''A'')"
  by (simp_all add: word_char_def ascii_word_def)

lemma takeWhile_length_ge:
  "n \<le> length (takeWhile P s) \<longleftrightarrow> n \<le> length s \<and> list_all P (take n s)"
proof (induction s arbitrary: n)
  case (Cons a s)
  then show ?case by (cases n) auto
qed auto

text \<open>What the access-key pattern matches, without the matcher.\<close>

lemma access_key_match:
  "re_match access_key_pattern w s = None \<longleftrightarrow>
   \<not> (\<not> w \<and> take 4 s = ''AKIA'' \<and> 20 \<le> length s \<and> list_all key_id_char (take 16 (drop 4 s)) \<and> \<not> word_next (drop 20 s))"
proof (cases "take 4 s = ''AKIA''")
  case True
  then obtain r where s: "s = ''AKIA'' @ r" by (metis append_take_drop_id)
  let ?m = "length (takeWhile key_id_char r)"
  have w: "word_next s" by (simp add: s word_next_def word_char_def ascii_word_def)
  have "word_after b (take 16 r)" if "16 \<le> ?m" for b
  proof -
    from that have r: "16 \<le> length r" "list_all key_id_char (take 16 r)" using takeWhile_length_ge [of 16] by auto
    then have "last (take 16 r) \<in> set (take 16 r)" by (intro last_in_set) auto
    with r show ?thesis by (auto simp: word_after_def list_all_iff intro: key_id_word)
  qed
  moreover have "[16..<Suc (min 16 ?m)] = (if 16 \<le> ?m then [16] else [])" by (simp add: upt_rec)
  ultimately show ?thesis
    using w takeWhile_length_ge [of 16 key_id_char r]
    by (auto simp: access_key_pattern_def s word_after_def Let_def)
next
  case False
  then have "take (Suc (Suc (Suc (Suc 0)))) s \<noteq> ''AKIA''" by (simp add: eval_nat_numeral)
  with False show ?thesis by (simp add: access_key_pattern_def)
qed

lemma access_key_length: "re_match access_key_pattern w s = Some n \<Longrightarrow> n = 20"
  by (auto simp: access_key_pattern_def Let_def upt_rec split: if_splits)

lemma marker_head: "\<not> word_next (REDACTION_MARKER @ t)"
  by (simp add: REDACTION_MARKER_def word_next_def word_char_def ascii_word_def is_digit_def)

lemma word_next_simps [simp]: "\<not> word_next []" "word_next (c # cs) = word_char c"
  by (simp_all add: word_next_def)

lemma re_sub_head: "re_sub p w s = (t, n, c) \<Longrightarrow> word_next t \<Longrightarrow> word_next s"
  by (cases s) (auto simp: marker_head split: option.splits nat.splits prod.splits)

lemma re_sub_copies:
  assumes "re_sub p w (c # cs) = (t, n, m)" and "re_match p w (c # cs) = None"
  obtains t' where "t = c # t'" and "re_sub p (word_char c) cs = (t', n, m)"
  using assms by (auto split: prod.splits)

lemma re_sub_word_prefix:
  assumes "re_sub access_key_pattern w s = (out, n, m)" and "list_all word_char (take k out)" and "k \<le> length out"
  shows "k \<le> length s \<and> take k s = take k out
    \<and> re_sub access_key_pattern (word_after w (take k s)) (drop k s) = (drop k out, n, m)"
  using assms
proof (induction k arbitrary: w s out)
  case 0
  then show ?case by (simp add: word_after_def)
next
  case (Suc k)
  from Suc.prems(3) obtain d ds where out: "out = d # ds" by (cases out) auto
  with Suc.prems(1) obtain c cs where s: "s = c # cs" by (cases s) auto
  have "re_match access_key_pattern w (c # cs) = None"
  proof (rule ccontr)
    assume "re_match access_key_pattern w (c # cs) \<noteq> None"
    then obtain t where "out = REDACTION_MARKER @ t"
      using Suc.prems(1) access_key_length [of w "c # cs"] by (auto simp: s split: prod.splits nat.splits)
    then have "\<not> word_char d" using out by (metis marker_head word_next_simps(2))
    with Suc.prems(2) show False by (simp add: out)
  qed
  with Suc.prems(1) obtain t where t: "out = c # t" "re_sub access_key_pattern (word_char c) cs = (t, n, m)"
    unfolding s by (rule re_sub_copies)
  have "word_after w (take (Suc k) s) = word_after (word_char c) (take k cs)"
    by (cases "take k cs") (simp_all add: s word_after_def)
  with Suc.IH [OF t(2)] Suc.prems(2,3) t(1) show ?case by (auto simp: s)
qed

text \<open>After the substitution no access key id is left, not even one put together by it.\<close>

lemma access_keys_removed: "re_sub access_key_pattern w s = (out, n, m) \<Longrightarrow> \<not> holds_access_key w out"
proof (induction "access_key_pattern" w s arbitrary: out n m rule: re_sub.induct)
  case (1 w)
  then show ?case by simp
next
  case (2 w c cs)
  let ?p = access_key_pattern
  show ?case
  proof (cases "re_match ?p w (c # cs)")
    case (Some l)
    then have l: "l = Suc 19" using access_key_length by fastforce
    obtain t n' m' where t: "re_sub ?p (word_after w (take 20 (c # cs))) (drop 19 cs) = (t, n', m')"
      by (metis prod_cases3)
    then have out: "out = REDACTION_MARKER @ t" using "2.prems" Some by (simp add: l)
    have ih: "\<not> holds_access_key (word_after w (take 20 (c # cs))) t"
      using "2.hyps"(3) [OF Some l] t by simp
    have "\<not> word_next (drop 19 cs)" using access_key_match [of w "c # cs"] Some by auto
    with re_sub_head [OF t] have "\<not> word_next t" by blast
    then have "holds_access_key b t = holds_access_key b' t" for b b'
      by (cases t) (auto simp: access_key_match word_char_def ascii_word_def)
    with ih have "\<not> holds_access_key b t" for b by blast
    then show ?thesis
      by (simp add: out REDACTION_MARKER_def access_key_match)
  next
    case None
    with "2.prems" obtain t where out: "out = c # t" and t: "re_sub ?p (word_char c) cs = (t, n, m)"
      by (rule re_sub_copies)
    have "re_match ?p w (c # t) = None"
    proof (rule ccontr)
      assume "re_match ?p w (c # t) \<noteq> None"
      then have m: "\<not> w" "take 4 (c # t) = ''AKIA''" "19 \<le> length t" "list_all key_id_char (take 16 (drop 3 t))"
        "\<not> word_next (drop 19 t)" by (simp_all add: access_key_match)
      have "take 19 t = take 3 t @ take 16 (drop 3 t)" by (simp flip: take_add)
      moreover have "take 3 t = ''KIA''" using m(2) by simp
      ultimately have "list_all word_char (take 19 t)"
        using m(4) key_id_word by (auto simp: list_all_iff word_char_KIA)
      with re_sub_word_prefix [OF t _ m(3)] have pre: "19 \<le> length cs" "take 19 cs = take 19 t"
        "re_sub ?p (word_after (word_char c) (take 19 cs)) (drop 19 cs) = (drop 19 t, n, m)" by auto
      have "\<not> word_next (drop 19 cs)"
      proof
        assume wn: "word_next (drop 19 cs)"
        then obtain d ds where d: "drop 19 cs = d # ds" "word_char d" by (cases "drop 19 cs") auto
        have "word_after (word_char c) (take 19 cs)"
          using \<open>list_all word_char (take 19 t)\<close> pre(1,2) last_in_set [of "take 19 cs"]
          by (auto simp: word_after_def list_all_iff)
        then have "re_match ?p (word_after (word_char c) (take 19 cs)) (d # ds) = None"
          by (simp add: access_key_match)
        with pre(3) d obtain u where "drop 19 t = d # u" by (metis re_sub_copies)
        with d(2) m(5) show False by simp
      qed
      moreover have "take 3 cs = take 3 t" using arg_cong [OF pre(2), of "take 3"] by simp
      moreover have "take 16 (drop 3 cs) = take 16 (drop 3 t)"
        using arg_cong [OF pre(2), of "drop 3"] by (simp add: drop_take)
      ultimately have "re_match ?p w (c # cs) \<noteq> None" using m pre(1) by (simp add: access_key_match)
      with None show False by simp
    qed
    moreover have "\<not> holds_access_key (word_char c) t" using "2.hyps"(1) [OF None] t by simp
    ultimately show ?thesis by (simp add: out)
  qed
qed

lemma redact_text_no_keys: "redact_text s = (t, n, c) \<Longrightarrow> \<not> holds_access_key False t"
  by (auto simp: redact_text_def VALUE_PATTERNS_def split: prod.splits dest: access_keys_removed)

lemma re_sub_nothing: "re_sub p w s = (t, 0, c) \<Longrightarrow> t = s \<and> c = 0"
proof (induction p w s arbitrary: t c rule: re_sub.induct)
  case (2 p w a as)
  obtain u i j where u: "re_sub p (word_char a) as = (u, i, j)" by (metis prod_cases3)
  show ?case
  proof (cases "re_match p w (a # as)")
    case None
    with "2.IH"(1) [OF None] "2.prems" u show ?thesis by auto
  next
    case (Some l)
    show ?thesis
    proof (cases l)
      case 0
      with Some have "t = a # u \<and> i = 0 \<and> j = c" using "2.prems" u by simp
      with "2.IH"(2) [OF Some 0] u show ?thesis by auto
    next
      case (Suc n)
      then have False using "2.prems" Some by (cases "re_sub p (word_after w (take (Suc n) (a # as))) (drop n as)") simp
      then show ?thesis ..
    qed
  qed
qed simp

lemma redact_with_nothing: "redact_with ps s = (t, 0, c) \<Longrightarrow> t = s \<and> c = 0"
proof (induction ps arbitrary: s t c)
  case (Cons p ps)
  then show ?case by (auto split: prod.splits dest!: re_sub_nothing)
qed simp

lemma redact_text_nothing: "redact_text s = (t, 0, c) \<Longrightarrow> t = s \<and> c = 0"
  by (simp add: redact_text_def redact_with_nothing)

lemma redact_node_str: "is_str v \<Longrightarrow> is_str (fst (redact_node v))"
  by (cases v) (auto split: prod.splits)

lemma redact_node_not_str: "\<not> is_str v \<Longrightarrow> \<not> is_str (fst (redact_node v))"
  by (cases v) (auto simp: Let_def)

lemma marker_secret_free: "secret_free (VStr REDACTION_MARKER)"
  by (simp add: REDACTION_MARKER_def access_key_match)

lemma set_zip_maps: "set (zip (map f xs) (map g xs)) = (\<lambda>x. (f x, g x)) ` set xs"
  by (induction xs) auto

text \<open>Field names are released as they are, a credential used as a name included.\<close>

lemma redact_keeps_names: "fst (redact_node (VDict d)) = VDict d' \<Longrightarrow> map fst d' = map fst d"
  by (auto simp: Let_def)

lemma redact_node_secret_free: "secret_free (fst (redact_node v))"
proof (induction v rule: redact_node.induct)
  case (1 d)
  have "(sensitive_entry k v' \<longrightarrow> v' = VStr REDACTION_MARKER) \<and> secret_free v'"
    if "(k, v') \<in> set (zip (map fst d) (map (\<lambda>p. fst (if sensitive_entry (fst p) (snd p)
          then (VStr REDACTION_MARKER, 1, length (str_of_val (snd p))) else redact_node (snd p))) d))" for k v'
  proof -
    from that obtain p where p: "p \<in> set d" "k = fst p" and v': "v' = fst (if sensitive_entry (fst p) (snd p)
          then (VStr REDACTION_MARKER, 1, length (str_of_val (snd p))) else redact_node (snd p))"
      unfolding set_zip_maps by blast
    show ?thesis
    proof (cases "sensitive_entry (fst p) (snd p)")
      case True
      then show ?thesis using v' marker_secret_free by simp
    next
      case False
      then have "\<not> sensitive_entry k v'" using redact_node_not_str [of "snd p"] v' p(2) by (auto simp: sensitive_entry_def)
      with False v' "1.IH" [OF p(1)] show ?thesis by simp
    qed
  qed
  then show ?case by (auto simp: Let_def list_all_iff comp_def)
next
  case (3 s)
  then show ?case by (auto split: prod.splits dest: redact_text_no_keys)
qed (auto simp: Let_def list_all_iff)

lemma redact_node_untouched: "redact_node v = (v', 0, c) \<Longrightarrow> v' = v \<and> c = 0"
proof (induction v arbitrary: v' c rule: redact_node.induct)
  case (1 d)
  let ?f = "\<lambda>p. if sensitive_entry (fst p) (snd p)
              then (VStr REDACTION_MARKER, 1, length (str_of_val (snd p))) else redact_node (snd p)"
  have zero: "fst (snd (?f p)) = 0" if "p \<in> set d" for p
    using "1.prems" that by (auto simp: Let_def comp_def)
  have each: "?f p = (snd p, 0, 0)" if "p \<in> set d" for p
  proof -
    from zero [OF that] have s: "\<not> sensitive_entry (fst p) (snd p)" by (auto split: if_splits)
    with zero [OF that] obtain w e where "redact_node (snd p) = (w, 0, e)" by (cases "redact_node (snd p)") auto
    with s "1.IH" [OF that] show ?thesis by simp
  qed
  then have "map ?f d = map (\<lambda>p. (snd p, 0, 0)) d" by (rule map_cong [OF refl])
  with "1.prems" show ?case by (simp add: Let_def comp_def zip_map_fst_snd)
next
  case (2 xs)
  have each: "redact_node x = (x, 0, 0)" if "x \<in> set xs" for x
  proof -
    have "fst (snd (redact_node x)) = 0" using "2.prems" that by (auto simp: Let_def)
    then obtain w e where "redact_node x = (w, 0, e)" by (cases "redact_node x") auto
    with "2.IH" [OF that] show ?thesis by simp
  qed
  then have "map redact_node xs = map (\<lambda>x. (x, 0, 0)) xs" by (rule map_cong [OF refl])
  with "2.prems" show ?case by (simp add: Let_def comp_def)
next
  case (3 s)
  then show ?case by (auto split: prod.splits dest: redact_text_nothing)
qed auto

end
