(* ===== verification/Tool_Invocation.thy ===== *)
theory Tool_Invocation
  imports Redaction Policy_Engine Executor
begin

text \<open>
  The invocation service of the tool gateway: tool definitions and results (\<open>tools/base.py\<close>), the
  registry (\<open>tools/registry.py\<close>), token verification (\<open>services/token_verifier.py\<close>), the verification of a
  delegated execution (\<open>services/delegated_invoke.py\<close>) and the pipeline of one invocation
  (\<open>services/gateway_service.py\<close>). What a tool does when it is executed, JWT decoding, the schema of the
  challenge metadata and the producer of challenges are arguments; the trail of an invocation is the
  list of its effects. Log lines and metrics are left out.
\<close>

section \<open>Definitions and results of tools\<close>

definition TARGET_AUTHORIZATION_REQUIRED :: string where
  "TARGET_AUTHORIZATION_REQUIRED = ''TARGET_AUTHORIZATION_REQUIRED''"

definition VALID_RISK_LEVELS :: "string list" where
  "VALID_RISK_LEVELS = [''read'', ''write'', ''admin'']"

record tool_definition =
  td_name :: string
  td_description :: string
  td_risk :: string
  td_category :: string
  td_schema :: json_obj
  td_extra_actions :: "string list"

definition definition_to_dict :: "tool_definition \<Rightarrow> json_obj" where
  "definition_to_dict d =
     [(''name'', VStr (td_name d)), (''description'', VStr (td_description d)), (''risk_level'', VStr (td_risk d)),
      (''category'', VStr (td_category d)), (''parameters_schema'', VDict (td_schema d))]"

record tool_result =
  tr_tool :: val
  tr_status :: val
  tr_data :: val
  tr_evidence :: json_obj
  tr_error :: val
  tr_authorization :: val

definition result_error_code :: "val \<Rightarrow> val" where
  "result_error_code e = (case e of VDict d \<Rightarrow> get_none d ''code'' | _ \<Rightarrow> VNone)"

text \<open>
  \<open>ToolResult.to_dict\<close>; \<open>None\<close> for its \<open>ValueError\<close>. The argument is the closed schema of the challenge
  metadata: the dumped model, or \<open>None\<close> when validation fails.
\<close>

definition result_to_dict :: "(val \<Rightarrow> json_obj option) \<Rightarrow> tool_result \<Rightarrow> json_obj option" where
  "result_to_dict valid r =
     (let base = [(''tool_name'', tr_tool r), (''status'', tr_status r), (''evidence'', VDict (tr_evidence r))]
                 @ (if tr_data r = VNone then [] else [(''data'', tr_data r)])
                 @ (if tr_error r = VNone then [] else [(''error'', tr_error r)])
      in if tr_authorization r = VNone then Some base
         else if tr_status r \<noteq> VStr ''error'' \<or> result_error_code (tr_error r) \<noteq> VStr TARGET_AUTHORIZATION_REQUIRED then None
         else map_option (\<lambda>m. base @ [(''authorization_required'', VDict m)]) (valid (tr_authorization r)))"

definition build_evidence :: "string \<Rightarrow> val \<Rightarrow> val \<Rightarrow> val \<Rightarrow> json_obj" where
  "build_evidence now risk system duration =
     [(''executed_at'', VStr now), (''duration_ms'', duration), (''risk_level'', risk), (''source_system'', system)]"

definition make_error_result :: "string \<Rightarrow> val \<Rightarrow> string \<Rightarrow> string \<Rightarrow> val \<Rightarrow> val \<Rightarrow> val \<Rightarrow> tool_result" where
  "make_error_result now tool code message risk system duration =
     \<lparr>tr_tool = tool, tr_status = VStr ''error'', tr_data = VNone, tr_evidence = build_evidence now risk system duration,
      tr_error = VDict [(''code'', VStr code), (''message'', VStr message)], tr_authorization = VNone\<rparr>"

definition make_denied_result :: "string \<Rightarrow> val \<Rightarrow> string \<Rightarrow> string \<Rightarrow> tool_result" where
  "make_denied_result now tool why risk =
     \<lparr>tr_tool = tool, tr_status = VStr ''denied'', tr_data = VNone,
      tr_evidence = build_evidence now (VStr risk) (VStr ''platform'') (VInt 0),
      tr_error = VDict [(''code'', VStr ''POLICY_DENIED''), (''message'', VStr why)], tr_authorization = VNone\<rparr>"

text \<open>
  A tool: its definition, what \<open>execute\<close> returns for parameters and identity (\<open>Inl\<close> the text of an
  exception), the delegation mode its acquisition leaves, and its optional \<open>audit_attribution\<close>.
\<close>

record base_tool =
  bt_definition :: tool_definition
  bt_execute :: "val \<Rightarrow> json_obj \<Rightarrow> string + tool_result"
  bt_mode :: "val \<Rightarrow> json_obj \<Rightarrow> string option"
  bt_attribution :: "(tool_result \<Rightarrow> val) option"

section \<open>The registry\<close>

record tool_registry =
  rg_tools :: "(string, base_tool) dict"
  rg_allow_mutating :: bool

definition new_registry :: "bool \<Rightarrow> tool_registry" where
  "new_registry allow = \<lparr>rg_tools = [], rg_allow_mutating = allow\<rparr>"

text \<open>\<open>register\<close>; \<open>None\<close> for its \<open>ValueError\<close>.\<close>

definition rg_register :: "base_tool \<Rightarrow> tool_registry \<Rightarrow> tool_registry option" where
  "rg_register t reg =
     (let d = bt_definition t in
      if td_risk d \<notin> set VALID_RISK_LEVELS then None
      else if td_risk d \<noteq> ''read'' \<and> \<not> rg_allow_mutating reg then Some reg
      else Some (reg\<lparr>rg_tools := dset (td_name d) t (rg_tools reg)\<rparr>))"

definition rg_get :: "tool_registry \<Rightarrow> val \<Rightarrow> base_tool option" where
  "rg_get reg name = (case name of VStr n \<Rightarrow> dget (rg_tools reg) n | _ \<Rightarrow> None)"

definition rg_list_definitions :: "tool_registry \<Rightarrow> tool_definition list" where
  "rg_list_definitions reg = map bt_definition (dvalues (rg_tools reg))"

definition rg_invoke :: "string \<Rightarrow> tool_registry \<Rightarrow> val \<Rightarrow> val \<Rightarrow> json_obj \<Rightarrow> tool_result" where
  "rg_invoke now reg name parameters identity =
     (case rg_get reg name of
        None \<Rightarrow> make_error_result now name ''TOOL_NOT_FOUND''
                  (''No tool registered with name '' @ [CHR 0x27] @ str_of_val name @ [CHR 0x27, CHR ''.''])
                  (VStr ''read'') (VStr ''platform'') (VInt 0)
      | Some t \<Rightarrow>
          (case bt_execute t parameters identity of
             Inr r \<Rightarrow> r
           | Inl message \<Rightarrow>
               make_error_result now name ''TOOL_EXECUTION_ERROR'' message
                 (VStr (td_risk (bt_definition t))) (VStr (td_category (bt_definition t))) (VInt 0)))"

section \<open>Identities\<close>

record identity_context =
  ic_subject :: string
  ic_username :: string
  ic_roles :: "string list"
  ic_actor :: "string option"

datatype gw_error = HTTPException int string | PolicyRaise eval_error | PyRaise

record gw_settings =
  gs_policy_path :: "string option"
  gs_require_auth :: bool
  gs_dev_user :: string
  gs_audit_url :: string
  gs_redaction :: bool
  gs_overflow_fraction :: rat
  gs_delegated_invoke :: bool
  gs_workload_subjects :: "string list"
  gs_delegated_acquisition :: bool
  gs_delegated_issuer :: string
  gs_delegated_audience :: string
  gs_delegated_jwks_url :: string
  gs_delegated_actors :: "string list"

text \<open>\<open>jwt\<close> with the key lookup before it: the ways \<open>verify_token\<close> tells apart, or the claims.\<close>

datatype jwt_result = KeyUnresolved | Expired | InvalidIssuer | InvalidAudience | InvalidToken | Decoded json_obj

record gw_env =
  ge_policy :: policy_env
  ge_jwt :: "string \<Rightarrow> jwt_result"
  ge_workload_jwt :: "string \<Rightarrow> json_obj option"
  ge_human_jwt :: "string \<Rightarrow> json_obj option"
  ge_crypto :: crypto
  ge_challenge_schema :: "val \<Rightarrow> json_obj option"
  ge_now :: string

definition extract_actor :: "val \<Rightarrow> string option" where
  "extract_actor act =
     (case act of
        VDict d \<Rightarrow> (case get_none d ''sub'' of VStr s \<Rightarrow> if s \<noteq> [] then Some s else None | _ \<Rightarrow> None)
      | _ \<Rightarrow> None)"

definition get_default :: "json_obj \<Rightarrow> string \<Rightarrow> val \<Rightarrow> val" where
  "get_default d k v = (case dget d k of None \<Rightarrow> v | Some x \<Rightarrow> x)"

text \<open>The model's field types: \<open>email\<close> a string or null, \<open>groups\<close> and \<open>roles\<close> lists of strings.\<close>

definition str_list :: "val \<Rightarrow> string list option" where
  "str_list v = (case v of VList xs \<Rightarrow> if list_all is_str xs then Some (map str_of_val xs) else None | _ \<Rightarrow> None)"

definition bounded_text :: "nat \<Rightarrow> val \<Rightarrow> bool" where
  "bounded_text n v = (case v of VStr s \<Rightarrow> strip s \<noteq> [] \<and> length s \<le> n | _ \<Rightarrow> False)"

definition human_provenance :: "json_obj \<Rightarrow> bool" where
  "human_provenance jc \<longleftrightarrow>
     get_none jc ''authentication_source'' = VStr ''oidc'' \<and> get_none jc ''act'' = VNone \<and> get_none jc ''sub'' \<noteq> VStr ''dev''
     \<and> list_all (\<lambda>k. bounded_text 512 (get_none jc k)) [''sub'', ''username'']
     \<and> list_all (\<lambda>k. case get_default jc k (VList []) of
                        VList xs \<Rightarrow> length xs \<le> 256 \<and> list_all (bounded_text 256) xs
                      | _ \<Rightarrow> False) [''roles'', ''groups'']"

definition claims_identity :: "json_obj \<Rightarrow> identity_context option" where
  "claims_identity jc =
     (case (str_list (get_default jc ''groups'' (VList [])), str_list (get_default jc ''roles'' (VList []))) of
        (Some _, Some roles) \<Rightarrow>
          if get_none jc ''email'' = VNone \<or> is_str (get_none jc ''email'')
          then Some \<lparr>ic_subject = str_of_val (get_default jc ''sub'' (VStr [])),
                     ic_username = str_of_val (get_default jc ''username'' (get_default jc ''sub'' (VStr []))),
                     ic_roles = roles, ic_actor = extract_actor (get_none jc ''act'')\<rparr>
          else None
      | _ \<Rightarrow> None)"

text \<open>\<open>verify_token\<close>: \<open>Inl (Some detail)\<close> a \<open>TokenVerificationError\<close>, \<open>Inl None\<close> a validation error of the model.\<close>

definition verify_token :: "gw_env \<Rightarrow> string \<Rightarrow> bool \<Rightarrow> string option + identity_context" where
  "verify_token env token require_human =
     (case ge_jwt env token of
        KeyUnresolved \<Rightarrow> Inl (Some ''unable to resolve signing key'')
      | Expired \<Rightarrow> Inl (Some ''token expired'')
      | InvalidIssuer \<Rightarrow> Inl (Some ''invalid token issuer'')
      | InvalidAudience \<Rightarrow> Inl (Some ''invalid token audience'')
      | InvalidToken \<Rightarrow> Inl (Some ''invalid token'')
      | Decoded jc \<Rightarrow>
          if require_human \<and> \<not> human_provenance jc then Inl (Some ''verified human identity required'')
          else (case claims_identity jc of None \<Rightarrow> Inl None | Some i \<Rightarrow> Inr i))"

record http_request =
  hr_authorization :: "string option"
  hr_execution_id :: "string option"
  hr_body :: val

text \<open>\<open>authorization.partition(" ")\<close>\<close>

definition auth_parts :: "string \<Rightarrow> string \<times> string" where
  "auth_parts h = (takeWhile (\<lambda>c. c \<noteq> CHR '' '') h, drop 1 (dropWhile (\<lambda>c. c \<noteq> CHR '' '') h))"

definition is_bearer :: "string \<Rightarrow> bool" where
  "is_bearer scheme \<longleftrightarrow> lower scheme = ''bearer''"

definition resolve_request_identity :: "gw_env \<Rightarrow> gw_settings \<Rightarrow> http_request \<Rightarrow> gw_error + identity_context" where
  "resolve_request_identity env st req =
     (case hr_authorization req of
        Some (h # hs) \<Rightarrow>
          (case auth_parts (h # hs) of (scheme, token) \<Rightarrow>
             if \<not> is_bearer scheme \<or> token = [] then Inl (HTTPException 401 ''malformed authorization header'')
             else (case verify_token env token False of
                     Inr i \<Rightarrow> Inr i
                   | Inl (Some detail) \<Rightarrow> Inl (HTTPException 401 detail)
                   | Inl None \<Rightarrow> Inl PyRaise))
      | _ \<Rightarrow>
          if gs_require_auth st then Inl (HTTPException 401 ''authentication required'')
          else Inr \<lparr>ic_subject = ''dev'', ic_username = gs_dev_user st, ic_roles = [''developer''], ic_actor = None\<rparr>)"

section \<open>Delegated executions\<close>

definition PROJECTION_FIELDS :: "string list" where
  "PROJECTION_FIELDS =
     [''tool_name'', ''session_id'', ''approval_kind'', ''execution_id'', ''args_digest'', ''requester_namespace'', ''requester_sub'',
      ''decider_namespace'', ''decider_sub'', ''owner_user_id'', ''decider_user_id'']"

definition gw_bounded :: "val \<Rightarrow> bool" where
  "gw_bounded v =
     (case v of
        VStr s \<Rightarrow> 0 < length s \<and> length s \<le> 256 \<and> s = strip s
                  \<and> \<not> list_ex (\<lambda>c. (of_char c :: nat) < 32 \<or> (of_char c :: nat) = 127) s
      | _ \<Rightarrow> False)"

definition gw_bearer :: "http_request \<Rightarrow> gw_error + string" where
  "gw_bearer req =
     (case auth_parts (case hr_authorization req of None \<Rightarrow> [] | Some h \<Rightarrow> h) of (scheme, raw) \<Rightarrow>
        if \<not> is_bearer scheme \<or> strip raw = [] then Inl (HTTPException 401 ''workload authentication required'')
        else if MAX_TOKEN_BYTES < length (strip raw) then Inl (HTTPException 401 ''workload token invalid'')
        else Inr (strip raw))"

definition authenticate_execution_workload :: "gw_env \<Rightarrow> gw_settings \<Rightarrow> http_request \<Rightarrow> gw_error + string" where
  "authenticate_execution_workload env st req =
     (case gw_bearer req of
        Inl e \<Rightarrow> Inl e
      | Inr token \<Rightarrow>
          (case ge_workload_jwt env token of
             None \<Rightarrow> Inl (HTTPException 401 ''workload token invalid'')
           | Some jc \<Rightarrow>
               (let subject = str_of_val (get_default jc ''sub'' (VStr [])) in
                if subject \<in> set (gs_workload_subjects st) then Inr subject
                else Inl (HTTPException 401 ''workload subject not authorized''))))"

text \<open>\<open>decode_delegated_human_claims\<close>; every failure is \<open>None\<close>, as both callers wrap it in one refusal.\<close>

definition decode_delegated_human_claims :: "gw_env \<Rightarrow> gw_settings \<Rightarrow> val \<Rightarrow> json_obj option" where
  "decode_delegated_human_claims env st token =
     Option.bind (as_str token) (\<lambda>s.
       if 0 < length s \<and> length s \<le> MAX_TOKEN_BYTES
       then Option.bind (ge_human_jwt env s) (\<lambda>jc.
              case (dget jc ''exp'', dget jc ''iat'', dget jc ''act'', dget jc ''sub'') of
                (Some (VInt ex), Some (VInt iat), Some (VDict [(k, VStr actor)]), Some subject) \<Rightarrow>
                  if dget jc ''authentication_source'' = Some (VStr ''oidc'') \<and> iat < ex \<and> gw_bounded subject
                     \<and> gw_bounded (get_none jc ''username'') \<and> k = ''sub'' \<and> actor \<in> set (gs_delegated_actors st)
                  then Some jc else None
              | _ \<Rightarrow> None)
       else None)"

definition str_items :: "val \<Rightarrow> string list" where
  "str_items v = (case v of VList xs \<Rightarrow> map str_of_val xs | _ \<Rightarrow> [])"

definition verify_human ::
  "gw_env \<Rightarrow> gw_settings \<Rightarrow> val \<Rightarrow> val \<Rightarrow> val \<Rightarrow> val \<Rightarrow> gw_error + identity_context" where
  "verify_human env st token namespace subject username =
     (case decode_delegated_human_claims env st token of
        None \<Rightarrow> Inl (HTTPException 403 ''delegated identity verification failed'')
      | Some jc \<Rightarrow>
          if namespace \<noteq> VStr (gs_delegated_issuer st) \<or> get_none jc ''sub'' \<noteq> subject \<or> get_none jc ''username'' \<noteq> username
             \<or> \<not> gw_bounded subject \<or> \<not> gw_bounded username
          then Inl (HTTPException 403 ''delegated identity verification failed'')
          else if get_none jc ''email'' \<noteq> VNone \<and> \<not> is_str (get_none jc ''email'') then Inl PyRaise
          else Inr \<lparr>ic_subject = str_of_val (get_none jc ''sub''), ic_username = str_of_val (get_none jc ''username''),
                    ic_roles = str_items (get_default jc ''roles'' (VList [])),
                    ic_actor = (case get_none jc ''act'' of VDict a \<Rightarrow> as_str (get_none a ''sub'') | _ \<Rightarrow> None)\<rparr>)"

definition verify_delegated_invocation ::
  "gw_env \<Rightarrow> gw_settings \<Rightarrow> val \<Rightarrow> gw_error + json_obj \<times> json_obj \<times> identity_context \<times> identity_context" where
  "verify_delegated_invocation env st body =
     (case body of
        VDict b \<Rightarrow>
          (case (get_none b ''projection'', get_none b ''parameters'') of
             (VDict projection, VDict parameters) \<Rightarrow>
               if \<not> list_all (dhas projection) PROJECTION_FIELDS
               then Inl (HTTPException 400 ''incomplete execution projection'')
               else if VStr (canonical_digest (ge_crypto env) (VDict parameters)) \<noteq> get_none projection ''args_digest''
               then Inl (HTTPException 400 ''parameter digest does not match projection'')
               else
                 (case verify_human env st (get_none b ''requester_token'') (get_none projection ''requester_namespace'')
                         (get_none projection ''requester_sub'') (get_none projection ''owner_user_id'') of
                    Inl e \<Rightarrow> Inl e
                  | Inr requester \<Rightarrow>
                      (case verify_human env st (get_none b ''decider_token'') (get_none projection ''decider_namespace'')
                              (get_none projection ''decider_sub'') (get_none projection ''decider_user_id'') of
                         Inl e \<Rightarrow> Inl e
                       | Inr decider \<Rightarrow> Inr (projection, parameters, requester, decider)))
           | _ \<Rightarrow> Inl (HTTPException 400 ''malformed delegated invocation''))
      | _ \<Rightarrow> Inl (HTTPException 400 ''malformed delegated invocation''))"

definition resolve_delegated_read_requester ::
  "gw_env \<Rightarrow> gw_settings \<Rightarrow> http_request \<Rightarrow> (string \<times> string) option" where
  "resolve_delegated_read_requester env st req =
     (if \<not> gs_delegated_acquisition st \<or> gs_delegated_issuer st = [] \<or> gs_delegated_audience st = []
         \<or> gs_delegated_jwks_url st = [] \<or> gs_delegated_actors st = [] then None
      else (case hr_authorization req of
              Some (h # hs) \<Rightarrow>
                (case auth_parts (h # hs) of (scheme, raw) \<Rightarrow>
                   if \<not> is_bearer scheme \<or> strip raw = [] then None
                   else map_option (\<lambda>jc. (gs_delegated_issuer st, str_of_val (get_none jc ''sub'')))
                          (decode_delegated_human_claims env st (VStr (strip raw))))
            | _ \<Rightarrow> None))"

section \<open>The invocation pipeline\<close>

datatype gw_effect =
    Executed string val json_obj
  | AuditEvent string string json_obj "identity_context option" "string option"
  | ChallengeProduced val val val val

definition RESERVED_AUDIT_KEYS :: "string list" where
  "RESERVED_AUDIT_KEYS =
     [''request_id'', ''tool_name'', ''status'', ''duration_ms'', ''risk_level'', ''target_system'', ''user_id'', ''sub'', ''act'',
      ''redacted_spans'', ''execution_id'']"

definition resolve_audit_attribution :: "base_tool option \<Rightarrow> tool_result \<Rightarrow> json_obj" where
  "resolve_audit_attribution target r =
     (case Option.bind target bt_attribution of
        None \<Rightarrow> []
      | Some f \<Rightarrow> (case f r of VDict d \<Rightarrow> filter (\<lambda>p. fst p \<notin> set RESERVED_AUDIT_KEYS) d | _ \<Rightarrow> []))"

definition enforce_policy ::
  "gw_env \<Rightarrow> gw_settings \<Rightarrow> policy_state \<Rightarrow> identity_context \<Rightarrow> string \<Rightarrow> string option \<Rightarrow> (gw_error + unit) \<times> policy_state" where
  "enforce_policy env st ps i action agent_role =
     (case tg_evaluate (ge_policy env) (gs_policy_path st) ps (ic_roles i) action agent_role of
        (Inl e, ps') \<Rightarrow> (Inl (PolicyRaise e), ps')
      | (Inr d, ps') \<Rightarrow>
          if decision d = ''deny'' then (Inl (HTTPException 403 ''action denied by policy''), ps') else (Inr (), ps'))"

datatype readiness = Ready nat string | Degraded load_error

text \<open>\<open>ready_status\<close>: the number of rules and the fingerprint, or the load error; it fills the cache like any load.\<close>

definition ready_status :: "gw_env \<Rightarrow> gw_settings \<Rightarrow> policy_state \<Rightarrow> (gw_error + readiness) \<times> policy_state" where
  "ready_status env st ps =
     (case tg_load_bundle (ge_policy env) (gs_policy_path st) ps of
        (Inr rules, ps') \<Rightarrow> (Inr (Ready (length rules) (bundle_sha256 ps')), ps')
      | (Inl (PolicyLoadError e), ps') \<Rightarrow> (Inr (Degraded e), ps')
      | (Inl AttributeError, ps') \<Rightarrow> (Inl PyRaise, ps'))"

text \<open>\<open>emit_audit_event\<close>: nothing is emitted without an audit service.\<close>

definition emit_audit ::
  "gw_settings \<Rightarrow> string \<Rightarrow> string \<Rightarrow> json_obj \<Rightarrow> identity_context option \<Rightarrow> string option \<Rightarrow> gw_effect list" where
  "emit_audit st kind result details i mode = (if gs_audit_url st = [] then [] else [AuditEvent kind result details i mode])"

definition hex_digit :: "char \<Rightarrow> bool" where
  "hex_digit c \<longleftrightarrow> is_digit c \<or> (CHR ''a'' \<le> c \<and> c \<le> CHR ''f'') \<or> (CHR ''A'' \<le> c \<and> c \<le> CHR ''F'')"

definition execution_correlation :: "val \<Rightarrow> json_obj" where
  "execution_correlation v =
     (case v of
        VStr s \<Rightarrow>
          if length s = 36 \<and> (\<forall>i<36. if i \<in> {8, 13, 18, 23} then s ! i = CHR ''-'' else hex_digit (s ! i))
          then [(''execution_id'', VStr s)] else []
      | _ \<Rightarrow> [])"

text \<open>The actions a tool needs beyond \<open>tools:invoke\<close>: its risk tier's, then its own, in this order.\<close>

definition required_actions :: "base_tool \<Rightarrow> string list" where
  "required_actions t =
     (if td_risk (bt_definition t) \<noteq> ''read'' then [''tools:mutate''] else []) @ td_extra_actions (bt_definition t)"

text \<open>The first refused action with its decision; an exception of \<open>evaluate\<close> ends the request.\<close>

fun action_gate ::
  "gw_env \<Rightarrow> gw_settings \<Rightarrow> string list \<Rightarrow> string list \<Rightarrow> policy_state \<Rightarrow>
   (eval_error + (string \<times> policy_decision) option) \<times> policy_state" where
  "action_gate env st roles [] ps = (Inr None, ps)"
| "action_gate env st roles (a # as') ps =
     (case tg_evaluate (ge_policy env) (gs_policy_path st) ps roles a None of
        (Inl e, ps') \<Rightarrow> (Inl e, ps')
      | (Inr d, ps') \<Rightarrow> if decision d = ''deny'' then (Inr (Some (a, d)), ps') else action_gate env st roles as' ps')"

definition respond_result :: "gw_env \<Rightarrow> int \<Rightarrow> tool_result \<Rightarrow> gw_error + int \<times> json_obj" where
  "respond_result env code r =
     (case result_to_dict (ge_challenge_schema env) r of None \<Rightarrow> Inl PyRaise | Some b \<Rightarrow> Inr (code, b))"

definition denial_details :: "string \<Rightarrow> policy_decision \<Rightarrow> json_obj \<Rightarrow> json_obj \<Rightarrow> json_obj" where
  "denial_details action d extra correlation =
     [(''action'', VStr action), (''decision'', VStr ''deny''), (''reason'', VStr (reason d))] @ extra
     @ [(''matched_rule_ids'', VList (map VStr (matched_rule_ids d)))] @ correlation"

definition opt_entry :: "string \<Rightarrow> string option \<Rightarrow> json_obj" where
  "opt_entry k v = (case v of None \<Rightarrow> [] | Some s \<Rightarrow> [(k, VStr s)])"

definition identity_dict ::
  "identity_context \<Rightarrow> string \<Rightarrow> string option \<Rightarrow> string option \<Rightarrow> string option \<Rightarrow> (string \<times> string) option \<Rightarrow> json_obj" where
  "identity_dict i rid session call approval requester =
     [(''sub'', VStr (ic_subject i)), (''username'', VStr (ic_username i)), (''roles'', VList (map VStr (ic_roles i))),
      (''request_id'', VStr rid), (''actor'', case ic_actor i of None \<Rightarrow> VNone | Some a \<Rightarrow> VStr a)]
     @ opt_entry ''chat_session_id'' session @ opt_entry ''chat_call_id'' call @ opt_entry ''approval_kind'' approval
     @ (case requester of
          None \<Rightarrow> []
        | Some (ns, sb) \<Rightarrow> [(''delegated_requester_namespace'', VStr ns), (''delegated_requester_sub'', VStr sb)])"

definition redact_result :: "gw_env \<Rightarrow> tool_result \<Rightarrow> (tool_result \<times> redaction_stats) option" where
  "redact_result env r =
     map_option (\<lambda>payload.
       (case redact_node (VDict payload) of (red, spans, chars) \<Rightarrow>
          let rp = (case red of VDict d \<Rightarrow> d | _ \<Rightarrow> []);
              stats = \<lparr>rs_spans = spans, rs_original = length (json_dumps (VDict payload)), rs_redacted = chars\<rparr>
          in (if spans = 0 then r
              else \<lparr>tr_tool = get_none rp ''tool_name'', tr_status = get_none rp ''status'', tr_data = get_none rp ''data'',
                    tr_evidence = (case get_none rp ''evidence'' of VDict d \<Rightarrow> d | _ \<Rightarrow> []),
                    tr_error = get_none rp ''error'', tr_authorization = VNone\<rparr>, stats)))
     (result_to_dict (ge_challenge_schema env) r)"

definition OVERFLOW_MESSAGE :: string where
  "OVERFLOW_MESSAGE =
     ''tool output withheld: too much of the result appears to contain credentials; re-run with tighter parameters''"

text \<open>The redaction step: the result to go on with and the number of spans.\<close>

definition overflow_result :: "string \<Rightarrow> val \<Rightarrow> tool_result \<Rightarrow> tool_result" where
  "overflow_result now tool r =
     make_error_result now tool ''REDACTION_OVERFLOW'' OVERFLOW_MESSAGE
       (get_default (tr_evidence r) ''risk_level'' (VStr ''read''))
       (get_default (tr_evidence r) ''source_system'' (VStr ''platform''))
       (get_default (tr_evidence r) ''duration_ms'' (VInt 0))"

definition redact_step :: "gw_env \<Rightarrow> gw_settings \<Rightarrow> val \<Rightarrow> tool_result \<Rightarrow> (tool_result \<times> nat) option" where
  "redact_step env st tool r =
     (if \<not> gs_redaction st then Some (r, 0)
      else map_option (\<lambda>(red, stats).
             (if overflow stats (gs_overflow_fraction st) then overflow_result (ge_now env) tool r else red, rs_spans stats))
             (redact_result env r))"

definition AUTHORIZATION_REQUIRED_MESSAGE :: string where
  "AUTHORIZATION_REQUIRED_MESSAGE =
     ''target authorization required: the owner must approve this target before the call can proceed''"

type_synonym challenge_producer = "(val \<Rightarrow> val \<Rightarrow> val \<Rightarrow> val \<Rightarrow> json_obj option) option"

definition produce_authorization_challenge ::
  "challenge_producer \<Rightarrow> json_obj \<Rightarrow> tool_result \<Rightarrow> tool_result \<times> gw_effect list" where
  "produce_authorization_challenge producer idd r =
     (case producer of
        None \<Rightarrow> (r, [])
      | Some produce \<Rightarrow>
          (let ns = get_none idd ''delegated_requester_namespace''; sb = get_none idd ''delegated_requester_sub'';
               session = get_none idd ''chat_session_id''; call = get_none idd ''chat_call_id''
           in if tr_status r \<noteq> VStr ''denied'' \<or> result_error_code (tr_error r) \<noteq> VStr ''DELEGATED_REAUTHORIZATION_REQUIRED''
                 \<or> \<not> (truthy ns \<and> truthy sb \<and> truthy session \<and> truthy call) then (r, [])
              else (case produce ns sb session call of
                      None \<Rightarrow> (r, [])
                    | Some challenge \<Rightarrow>
                        (\<lparr>tr_tool = tr_tool r, tr_status = VStr ''error'', tr_data = VNone, tr_evidence = tr_evidence r,
                          tr_error = VDict [(''code'', VStr TARGET_AUTHORIZATION_REQUIRED),
                            (''message'', VStr AUTHORIZATION_REQUIRED_MESSAGE)],
                          tr_authorization = VDict challenge\<rparr>, [ChallengeProduced ns sb session call]))))"

definition invoked_details :: "val \<Rightarrow> tool_result \<Rightarrow> val \<Rightarrow> nat \<Rightarrow> json_obj \<Rightarrow> json_obj \<Rightarrow> json_obj" where
  "invoked_details tool r system spans attribution correlation =
     [(''tool_name'', tool), (''status'', tr_status r), (''duration_ms'', get_default (tr_evidence r) ''duration_ms'' (VInt 0)),
      (''risk_level'', get_default (tr_evidence r) ''risk_level'' (VStr ''read'')), (''target_system'', system),
      (''redacted_spans'', VInt (int spans))] @ attribution @ correlation"

definition result_code :: "tool_result \<Rightarrow> int" where
  "result_code r =
     (if tr_status r = VStr ''denied'' then 403 else if tr_status r = VStr ''success'' then 200 else 400)"

text \<open>Everything after the gates: dispatch, redaction, challenge, audit, response.\<close>

definition run_tool ::
  "gw_env \<Rightarrow> gw_settings \<Rightarrow> tool_registry \<Rightarrow> challenge_producer \<Rightarrow> identity_context \<Rightarrow> val \<Rightarrow> val \<Rightarrow> json_obj \<Rightarrow> json_obj \<Rightarrow>
   (gw_error + int \<times> json_obj) \<times> gw_effect list" where
  "run_tool env st reg producer i tool parameters idd correlation =
     (let target = rg_get reg tool;
          r = rg_invoke (ge_now env) reg tool parameters idd;
          ran = (case target of None \<Rightarrow> [] | Some t \<Rightarrow> [Executed (str_of_val tool) parameters idd]);
          mode = Option.bind target (\<lambda>t. bt_mode t parameters idd);
          system = get_none (tr_evidence r) ''source_system'';
          attribution = resolve_audit_attribution target r
      in case redact_step env st tool r of
           None \<Rightarrow> (Inl PyRaise, ran)
         | Some (r', spans) \<Rightarrow>
             (case produce_authorization_challenge producer idd r' of
                (r'', produced) \<Rightarrow>
                  (respond_result env (result_code r'') r'',
                   ran @ produced
                   @ emit_audit st ''tool_invoked'' (if tr_status r'' = VStr ''success'' then ''success'' else ''error'')
                       (invoked_details tool r'' system spans attribution correlation) (Some i) mode)))"

definition dispatch_invocation ::
  "gw_env \<Rightarrow> gw_settings \<Rightarrow> tool_registry \<Rightarrow> challenge_producer \<Rightarrow> policy_state \<Rightarrow> identity_context option \<Rightarrow> val \<Rightarrow> val \<Rightarrow>
   string option \<Rightarrow> string option \<Rightarrow> json_obj \<Rightarrow> string \<Rightarrow> string option \<Rightarrow> (string \<times> string) option \<Rightarrow>
   (gw_error + int \<times> json_obj) \<times> policy_state \<times> gw_effect list" where
  "dispatch_invocation env st reg producer ps identity tool parameters session approval correlation rid call requester =
     (case identity of
        None \<Rightarrow>
          (respond_result env 403 (make_denied_result (ge_now env) tool ''no identity context'' ''read''), ps,
           emit_audit st ''policy_decision'' ''deny''
             ([(''action'', VStr ''tools:invoke''), (''decision'', VStr ''deny''), (''reason'', VStr ''no identity context'')]
              @ correlation) None None)
      | Some i \<Rightarrow>
          (case tg_evaluate (ge_policy env) (gs_policy_path st) ps (ic_roles i) ''tools:invoke'' None of
             (Inl e, ps') \<Rightarrow> (Inl (PolicyRaise e), ps', [])
           | (Inr d, ps') \<Rightarrow>
               if decision d = ''deny'' then
                 (respond_result env 403 (make_denied_result (ge_now env) tool (reason d) ''read''), ps',
                  emit_audit st ''policy_decision'' ''deny'' (denial_details ''tools:invoke'' d [] correlation) (Some i) None)
               else if \<not> hashable tool then (Inl PyRaise, ps', [])
               else
                 (let target = rg_get reg tool;
                      risk = (case target of None \<Rightarrow> ''read'' | Some t \<Rightarrow> td_risk (bt_definition t))
                  in case action_gate env st (ic_roles i) (case target of None \<Rightarrow> [] | Some t \<Rightarrow> required_actions t) ps' of
                       (Inl e, ps'') \<Rightarrow> (Inl (PolicyRaise e), ps'', [])
                     | (Inr (Some (a, d)), ps'') \<Rightarrow>
                         (respond_result env 403 (make_denied_result (ge_now env) tool (reason d) risk), ps'',
                          emit_audit st ''policy_decision'' ''deny''
                            (denial_details a d [(''tool_name'', tool), (''risk_level'', VStr risk)] correlation) (Some i) None)
                     | (Inr None, ps'') \<Rightarrow>
                         (case run_tool env st reg producer i tool parameters
                                 (identity_dict i rid session call approval requester) correlation of
                            (reply, effs) \<Rightarrow> (reply, ps'', effs)))))"

definition nonempty_str :: "val \<Rightarrow> string option" where
  "nonempty_str v = (case v of VStr (c # cs) \<Rightarrow> Some (c # cs) | _ \<Rightarrow> None)"

definition approval_kind_of :: "val \<Rightarrow> string option" where
  "approval_kind_of v = (if v = VStr ''flow'' \<or> v = VStr ''action'' then Some (str_of_val v) else None)"

definition invoke_tool ::
  "gw_env \<Rightarrow> gw_settings \<Rightarrow> tool_registry \<Rightarrow> challenge_producer \<Rightarrow> policy_state \<Rightarrow> http_request \<Rightarrow> identity_context option \<Rightarrow>
   string \<Rightarrow> (gw_error + int \<times> json_obj) \<times> policy_state \<times> gw_effect list" where
  "invoke_tool env st reg producer ps req identity rid =
     (case hr_body req of
        VDict b \<Rightarrow>
          dispatch_invocation env st reg producer ps identity (get_default b ''tool_name'' (VStr []))
            (get_default b ''parameters'' (VDict [])) (nonempty_str (get_none b ''session_id''))
            (approval_kind_of (get_none b ''approval_kind''))
            (execution_correlation (case hr_execution_id req of None \<Rightarrow> VNone | Some x \<Rightarrow> VStr x)) rid
            (Option.bind (nonempty_str (get_none b ''call_id'')) (\<lambda>c. if length c \<le> 256 then Some c else None))
            (resolve_delegated_read_requester env st req)
      | _ \<Rightarrow> (Inl PyRaise, ps, []))"

definition invoke_delegated ::
  "gw_env \<Rightarrow> gw_settings \<Rightarrow> tool_registry \<Rightarrow> policy_state \<Rightarrow> http_request \<Rightarrow> string \<Rightarrow>
   (gw_error + int \<times> json_obj) \<times> policy_state \<times> gw_effect list" where
  "invoke_delegated env st reg ps req rid =
     (if \<not> gs_delegated_invoke st then (Inl (HTTPException 403 ''delegated execution not enabled''), ps, [])
      else (case authenticate_execution_workload env st req of
              Inl e \<Rightarrow> (Inl e, ps, [])
            | Inr _ \<Rightarrow>
                (case verify_delegated_invocation env st (hr_body req) of
                   Inl e \<Rightarrow> (Inl e, ps, [])
                 | Inr (projection, parameters, requester, decider) \<Rightarrow>
                     dispatch_invocation env st reg None ps (Some decider) (get_none projection ''tool_name'') (VDict parameters)
                       (nonempty_str (get_none projection ''session_id'')) (approval_kind_of (get_none projection ''approval_kind''))
                       (execution_correlation (get_none projection ''execution_id'')) rid None
                       (Some (str_of_val (get_none projection ''requester_namespace''), ic_subject requester)))))"

section \<open>Who may run which tool\<close>

text \<open>The registry's invariant: one tool per name, valid tiers, mutating tools only where they are switched on.\<close>

definition tool_admitted :: "bool \<Rightarrow> string \<Rightarrow> base_tool \<Rightarrow> bool" where
  "tool_admitted allow n t \<longleftrightarrow>
     td_name (bt_definition t) = n \<and> td_risk (bt_definition t) \<in> set VALID_RISK_LEVELS
     \<and> (td_risk (bt_definition t) \<noteq> ''read'' \<longrightarrow> allow)"

definition registry_ok :: "tool_registry \<Rightarrow> bool" where
  "registry_ok reg \<longleftrightarrow> (\<forall>n t. dget (rg_tools reg) n = Some t \<longrightarrow> tool_admitted (rg_allow_mutating reg) n t)"

lemma new_registry_ok [inv_intros]: "registry_ok (new_registry allow)"
  by (simp add: registry_ok_def new_registry_def)

lemma rg_register_ok [inv_intros]:
  assumes "registry_ok reg" and "rg_register t reg = Some reg'"
  shows "registry_ok reg'"
proof -
  from assms(2) have "reg' = reg \<or> reg' = reg\<lparr>rg_tools := dset (td_name (bt_definition t)) t (rg_tools reg)\<rparr>
      \<and> tool_admitted (rg_allow_mutating reg) (td_name (bt_definition t)) t"
    by (auto simp: rg_register_def tool_admitted_def Let_def split: if_splits)
  with assms(1) show ?thesis by (auto simp: registry_ok_def split: if_splits)
qed

definition action_allowed :: "policy_rule list \<Rightarrow> string list \<Rightarrow> string \<Rightarrow> bool" where
  "action_allowed rules roles a \<longleftrightarrow>
     \<not> list_ex (rule_raises a) rules
     \<and> (\<exists>r\<in>set rules. rule_applies roles a None r \<and> outcome r = ''allow'')
     \<and> (\<forall>r\<in>set rules. rule_applies roles a None r \<longrightarrow> outcome r \<noteq> ''deny'')"

lemma evaluate_rules_allowed:
  assumes "list_all tg_rule_ok rules"
  shows "(\<exists>d. evaluate_rules roles a None rules = Inr d \<and> decision d \<noteq> ''deny'') \<longleftrightarrow> action_allowed rules roles a"
proof (cases "list_ex (rule_raises a) rules")
  case True
  then show ?thesis by (simp add: evaluate_rules_def match_rules_def action_allowed_def)
next
  case False
  define d where "d = decide a (filter (rule_applies roles a None) rules)"
  have e: "evaluate_rules roles a None rules = Inr d" using False by (simp add: evaluate_rules_def match_rules_def d_def)
  have no: "filter (\<lambda>r. outcome r = ''require_approval'') (filter (rule_applies roles a None) rules) = []"
    using assms by (auto simp: filter_empty_conv list_all_iff tg_rule_ok_def)
  then have "decision d = ''allow'' \<or> decision d = ''deny''"
    by (auto simp: d_def decide_def Let_def mk_decision_def split: list.splits)
  then have "decision d \<noteq> ''deny'' \<longleftrightarrow> decision d = ''allow''" by auto
  also have "\<dots> \<longleftrightarrow> engine_verdict (roles, a, None) rules = ''allow''" using evaluate_rules_verdict [OF e] by simp
  also have "\<dots> \<longleftrightarrow> action_allowed rules roles a"
    using False no by (auto simp: eng.verdict_allow_iff engine_applies_def action_allowed_def filter_empty_conv)
  finally show ?thesis using e by simp
qed

lemma load_bundle_stays:
  "tg_load_bundle pe path ps = (Inr rules, ps') \<Longrightarrow> tg_load_bundle pe path ps' = (Inr rules, ps')"
  by (drule tg_load_cases) (auto simp: tg_load_bundle_def)

lemma action_gate_opens:
  assumes "tg_load_bundle (ge_policy env) (gs_policy_path st) ps = (Inr rules, ps)" and "list_all tg_rule_ok rules"
  shows "snd (action_gate env st roles as' ps) = ps
    \<and> (fst (action_gate env st roles as' ps) = Inr None \<longleftrightarrow> (\<forall>a\<in>set as'. action_allowed rules roles a))"
proof (induction as')
  case (Cons a as')
  have ev: "tg_evaluate (ge_policy env) (gs_policy_path st) ps roles a None = (evaluate_rules roles a None rules, ps)"
    using assms(1) by (simp add: tg_evaluate_def)
  show ?case
    using Cons evaluate_rules_allowed [OF assms(2), of roles a] by (auto simp: ev split: sum.splits)
qed simp

definition executions :: "gw_effect list \<Rightarrow> (string \<times> val \<times> json_obj) list" where
  "executions effs = concat (map (\<lambda>x. case x of Executed n p idd \<Rightarrow> [(n, p, idd)] | _ \<Rightarrow> []) effs)"

lemma executions_simps [simp]:
  "executions [] = []" "executions (emit_audit st k r d i m) = []" "executions (xs @ ys) = executions xs @ executions ys"
  "executions (Executed n p idd # xs) = (n, p, idd) # executions xs"
  by (simp_all add: executions_def emit_audit_def)

lemma produce_runs_nothing: "executions (snd (produce_authorization_challenge producer idd r)) = []"
  by (auto simp: produce_authorization_challenge_def executions_def Let_def split: option.splits)

lemma run_tool_executions:
  "executions (snd (run_tool env st reg producer i tool parameters idd correlation)) =
   (case rg_get reg tool of None \<Rightarrow> [] | Some t \<Rightarrow> [(str_of_val tool, parameters, idd)])"
  using produce_runs_nothing [of producer idd]
  by (auto simp: run_tool_def Let_def split: option.splits prod.splits) (metis snd_conv)+

text \<open>What an invocation runs: the named tool once, if every action it needs is allowed, and otherwise nothing.\<close>

definition may_run ::
  "gw_env \<Rightarrow> gw_settings \<Rightarrow> tool_registry \<Rightarrow> policy_state \<Rightarrow> identity_context option \<Rightarrow> val \<Rightarrow> bool" where
  "may_run env st reg ps identity tool \<longleftrightarrow>
     (case (identity, rg_get reg tool) of
        (Some i, Some t) \<Rightarrow>
          (case fst (tg_load_bundle (ge_policy env) (gs_policy_path st) ps) of
             Inl _ \<Rightarrow> False
           | Inr rules \<Rightarrow> \<forall>a\<in>set (''tools:invoke'' # required_actions t). action_allowed rules (ic_roles i) a)
      | _ \<Rightarrow> False)"

lemma rg_get_hashable: "rg_get reg tool = Some t \<Longrightarrow> hashable tool"
  by (cases tool) (auto simp: rg_get_def)

lemma dispatch_executions:
  assumes "tg_state_ok ps"
    and "dispatch_invocation env st reg producer ps identity tool parameters session approval correlation rid call requester
           = (reply, ps', effs)"
  shows "executions effs =
    (if may_run env st reg ps identity tool
     then [(str_of_val tool, parameters, identity_dict (the identity) rid session call approval requester)] else [])"
proof (cases identity)
  case None
  then show ?thesis using assms(2) by (auto simp: dispatch_invocation_def may_run_def)
next
  case (Some i)
  obtain res ps1 where load: "tg_load_bundle (ge_policy env) (gs_policy_path st) ps = (res, ps1)" by fastforce
  show ?thesis
  proof (cases res)
    case (Inl e)
    then show ?thesis using assms(2) load Some
      by (auto simp: dispatch_invocation_def tg_evaluate_def may_run_def split: option.splits)
  next
    case (Inr rules)
    note load = load [unfolded Inr] and ok = tg_load_bundle_ok [OF assms(1) load]
    have rules: "list_all tg_rule_ok rules" using ok Inr by simp
    have ev: "tg_evaluate (ge_policy env) (gs_policy_path st) ps (ic_roles i) ''tools:invoke'' None
        = (evaluate_rules (ic_roles i) ''tools:invoke'' None rules, ps1)" using load by (simp add: tg_evaluate_def)
    note gate = action_gate_opens [OF load_bundle_stays [OF load] rules, of "ic_roles i"]
    note invoke = evaluate_rules_allowed [OF rules, of "ic_roles i" "''tools:invoke''"]
    have mr: "may_run env st reg ps identity tool \<longleftrightarrow>
        (\<exists>t. rg_get reg tool = Some t \<and> action_allowed rules (ic_roles i) ''tools:invoke''
             \<and> (\<forall>a\<in>set (required_actions t). action_allowed rules (ic_roles i) a))"
      by (simp add: may_run_def Some load split: option.splits)
    show ?thesis
    proof (cases "action_allowed rules (ic_roles i) ''tools:invoke''")
      case False
      then show ?thesis using invoke assms(2) mr
        by (auto simp: dispatch_invocation_def Some ev split: sum.splits if_splits)
    next
      case True
      then obtain d where d: "evaluate_rules (ic_roles i) ''tools:invoke'' None rules = Inr d" "decision d \<noteq> ''deny''"
        using invoke by blast
      show ?thesis
      proof (cases "rg_get reg tool")
        case None
        then show ?thesis using assms(2) mr run_tool_executions [of env st reg producer i tool parameters]
          by (auto simp: dispatch_invocation_def Some ev d Let_def split: if_splits prod.splits) (metis snd_conv)+
      next
        case (Some t)
        obtain g ps2 where g: "action_gate env st (ic_roles i) (required_actions t) ps1 = (g, ps2)" by fastforce
        have hs: "hashable tool" using rg_get_hashable [OF Some] .
        obtain r effs' where run: "run_tool env st reg producer i tool parameters
            (identity_dict i rid session call approval requester) correlation = (r, effs')" by fastforce
        have runs: "executions effs' = [(str_of_val tool, parameters, identity_dict i rid session call approval requester)]"
          using run_tool_executions [of env st reg producer i tool parameters
              "identity_dict i rid session call approval requester" correlation] by (simp add: run Some)
        have "may_run env st reg ps identity tool \<longleftrightarrow> g = Inr None" using mr True gate [of "required_actions t"] by (simp add: g Some)
        then show ?thesis using assms(2) runs d
          by (auto simp: dispatch_invocation_def \<open>identity = Some i\<close> ev hs Some g run Let_def split: sum.splits option.splits)
      qed
    qed
  qed
qed

text \<open>
  C2. Which tools an invocation runs: the named tool, once, on the given parameters and under the
  caller's identity, exactly when the caller is identified, the tool is registered and the loaded
  policy bundle allows the caller's roles \<open>tools:invoke\<close>, \<open>tools:mutate\<close> when the tool is not of the read
  tier (which is registered only where mutating tools are switched on), and every extra action the
  tool declares; otherwise no tool runs.
\<close>

theorem invocation_runs_iff_allowed:
  assumes "tg_state_ok ps" and "registry_ok reg"
    and "dispatch_invocation env st reg producer ps identity tool parameters session approval correlation rid call requester
           = (reply, ps', effs)"
  shows "(executions effs = [] \<or> (\<exists>x. executions effs = [x]))
    \<and> ((n, p, idd) \<in> set (executions effs) \<longleftrightarrow>
         (\<exists>i t rules ps1. identity = Some i \<and> tool = VStr n \<and> dget (rg_tools reg) n = Some t
            \<and> tg_load_bundle (ge_policy env) (gs_policy_path st) ps = (Inr rules, ps1)
            \<and> action_allowed rules (ic_roles i) ''tools:invoke''
            \<and> (td_risk (bt_definition t) \<noteq> ''read'' \<longrightarrow>
                 rg_allow_mutating reg \<and> action_allowed rules (ic_roles i) ''tools:mutate'')
            \<and> (\<forall>a\<in>set (td_extra_actions (bt_definition t)). action_allowed rules (ic_roles i) a)
            \<and> p = parameters \<and> idd = identity_dict i rid session call approval requester))"
proof -
  let ?L = "tg_load_bundle (ge_policy env) (gs_policy_path st) ps"
  have "may_run env st reg ps identity tool \<longleftrightarrow>
      (\<exists>i t n rules ps1. identity = Some i \<and> tool = VStr n \<and> dget (rg_tools reg) n = Some t \<and> ?L = (Inr rules, ps1)
         \<and> action_allowed rules (ic_roles i) ''tools:invoke''
         \<and> (\<forall>a\<in>set (required_actions t). action_allowed rules (ic_roles i) a))"
    by (cases ?L) (auto simp: may_run_def rg_get_def split: option.splits val.splits sum.splits)
  moreover have "rg_allow_mutating reg" if "dget (rg_tools reg) m = Some t" "td_risk (bt_definition t) \<noteq> ''read''" for m t
    using assms(2) that by (auto simp: registry_ok_def tool_admitted_def)
  ultimately show ?thesis
    using dispatch_executions [OF assms(1,3)] by (auto simp: required_actions_def split: if_splits)
qed

section \<open>What leaves the gateway\<close>

lemma secret_free_get_none: "secret_free (VDict d) \<Longrightarrow> secret_free (get_none d k)"
  by (auto simp: get_none_def list_all_iff dest!: dget_in split: option.splits)

lemma redacted_dict: "\<exists>rp. fst (redact_node (VDict d)) = VDict rp"
  by (simp add: Let_def)

definition body_secret_free :: "json_obj \<Rightarrow> bool" where
  "body_secret_free b \<longleftrightarrow> secret_free (VDict (dpop ''authorization_required'' b))"

text \<open>The parts of a result that may be released.\<close>

definition result_secret_free :: "tool_result \<Rightarrow> bool" where
  "result_secret_free r \<longleftrightarrow>
     secret_free (tr_tool r) \<and> secret_free (tr_status r) \<and> secret_free (tr_data r)
     \<and> secret_free (VDict (tr_evidence r)) \<and> secret_free (tr_error r)"

lemma not_sensitive:
  "\<not> sensitive_entry ''tool_name'' v" "\<not> sensitive_entry ''status'' v" "\<not> sensitive_entry ''evidence'' v"
  "\<not> sensitive_entry ''data'' v" "\<not> sensitive_entry ''error'' v" "\<not> sensitive_entry ''code'' v" "\<not> sensitive_entry ''message'' v"
  "\<not> sensitive_entry ''executed_at'' v" "\<not> sensitive_entry ''duration_ms'' v" "\<not> sensitive_entry ''risk_level'' v"
  "\<not> sensitive_entry ''source_system'' v"
  by (simp_all add: sensitive_entry_def SENSITIVE_KEYS_def lower_def lower_char_def Let_def of_char_of)

lemma released_body:
  assumes "result_secret_free r" and "result_to_dict valid r = Some b"
  shows "body_secret_free b"
  using assms
  by (auto simp: result_secret_free_def result_to_dict_def body_secret_free_def dpop_def not_sensitive Let_def split: if_splits)

lemma to_dict_keys:
  assumes "result_to_dict valid r = Some b" and "tr_authorization r = VNone"
  shows "b = [(''tool_name'', tr_tool r), (''status'', tr_status r), (''evidence'', VDict (tr_evidence r))]
                 @ (if tr_data r = VNone then [] else [(''data'', tr_data r)])
                 @ (if tr_error r = VNone then [] else [(''error'', tr_error r)])"
  using assms by (simp add: result_to_dict_def Let_def split: if_splits)

lemma unredacted_parts:
  assumes "secret_free (VDict b)" and "result_to_dict valid r = Some b"
  shows "result_secret_free r"
  using assms by (auto simp: result_to_dict_def result_secret_free_def Let_def split: if_splits)

lemma redact_result_secret_free:
  assumes "redact_result env r = Some (r', stats)"
  shows "result_secret_free r'"
proof -
  from assms obtain b where b: "result_to_dict (ge_challenge_schema env) r = Some b" by (auto simp: redact_result_def)
  obtain red spans chars where n: "redact_node (VDict b) = (red, spans, chars)" by (metis prod_cases3)
  then obtain rp where rp: "red = VDict rp" using redacted_dict [of b] by (auto simp del: redact_node.simps)
  have sf: "secret_free (VDict rp)" using redact_node_secret_free [of "VDict b"] n rp by (simp del: redact_node.simps)
  show ?thesis
  proof (cases "spans = 0")
    case True
    then have "red = VDict b" using redact_node_untouched n by blast
    moreover have "r' = r" using assms by (simp add: redact_result_def b n rp True del: redact_node.simps json_dumps.simps)
    ultimately show ?thesis using sf rp unredacted_parts [OF _ b] by simp
  next
    case False
    note parts = secret_free_get_none [OF sf]
    have ev: "secret_free (VDict (case get_none rp ''evidence'' of VDict d \<Rightarrow> d | _ \<Rightarrow> []))"
      using parts [of "''evidence''"] by (auto split: val.splits)
    have "r' = \<lparr>tr_tool = get_none rp ''tool_name'', tr_status = get_none rp ''status'', tr_data = get_none rp ''data'',
                tr_evidence = (case get_none rp ''evidence'' of VDict d \<Rightarrow> d | _ \<Rightarrow> []),
                tr_error = get_none rp ''error'', tr_authorization = VNone\<rparr>"
      using assms False by (simp add: redact_result_def b n rp del: redact_node.simps json_dumps.simps)
    with parts ev show ?thesis by (simp add: result_secret_free_def)
  qed
qed

lemma unchallenged_body:
  assumes "result_to_dict valid r = Some b" and "tr_authorization r = VNone" and "result_secret_free r"
  shows "secret_free (VDict b)"
  using assms(3) to_dict_keys [OF assms(1,2)] by (auto simp: result_secret_free_def not_sensitive)

lemma redact_result_body:
  assumes "redact_result env r = Some (r', stats)" and "result_to_dict (ge_challenge_schema env) r' = Some b'"
  shows "secret_free (VDict b')"
proof -
  from assms(1) obtain b where b: "result_to_dict (ge_challenge_schema env) r = Some b" by (auto simp: redact_result_def)
  obtain red spans chars where n: "redact_node (VDict b) = (red, spans, chars)" by (metis prod_cases3)
  then obtain rp where rp: "red = VDict rp" using redacted_dict [of b] by (auto simp del: redact_node.simps)
  show ?thesis
  proof (cases "spans = 0")
    case True
    then have "red = VDict b" using redact_node_untouched n by blast
    moreover have "r' = r" using assms(1) by (simp add: redact_result_def b n rp True del: redact_node.simps json_dumps.simps)
    ultimately show ?thesis using assms(2) b redact_node_secret_free [of "VDict b"] n by (simp del: redact_node.simps secret_free.simps)
  next
    case False
    then have "tr_authorization r' = VNone"
      using assms(1) by (auto simp: redact_result_def b n rp simp del: redact_node.simps json_dumps.simps)
    then show ?thesis using unchallenged_body [OF assms(2)] redact_result_secret_free [OF assms(1)] by blast
  qed
qed

lemma get_default_secret_free:
  "secret_free v \<Longrightarrow> secret_free (get_none d k) \<Longrightarrow> secret_free (get_default d k v)"
  by (auto simp: get_default_def get_none_def split: option.splits)

lemma no_key_without_A: "CHR ''A'' \<notin> set s \<Longrightarrow> \<not> holds_access_key w s"
  by (induction s arbitrary: w) (auto simp: access_key_match)

lemma gateway_texts:
  "\<not> holds_access_key False OVERFLOW_MESSAGE" "\<not> holds_access_key False AUTHORIZATION_REQUIRED_MESSAGE"
  "\<not> holds_access_key False ''REDACTION_OVERFLOW''" "\<not> holds_access_key False TARGET_AUTHORIZATION_REQUIRED"
  "\<not> holds_access_key False ''error''"
proof -
  show "\<not> holds_access_key False OVERFLOW_MESSAGE" "\<not> holds_access_key False AUTHORIZATION_REQUIRED_MESSAGE"
    "\<not> holds_access_key False ''error''"
    by (rule no_key_without_A, simp add: OVERFLOW_MESSAGE_def AUTHORIZATION_REQUIRED_MESSAGE_def)+
  show "\<not> holds_access_key False ''REDACTION_OVERFLOW''" "\<not> holds_access_key False TARGET_AUTHORIZATION_REQUIRED"
    by (simp_all add: access_key_match TARGET_AUTHORIZATION_REQUIRED_def)
qed

definition overflow_envelope_ok :: "string \<Rightarrow> val \<Rightarrow> tool_result \<Rightarrow> bool" where
  "overflow_envelope_ok now tool r \<longleftrightarrow>
     secret_free tool \<and> secret_free (VStr now)
     \<and> list_all (\<lambda>k. secret_free (get_none (tr_evidence r) k)) [''risk_level'', ''source_system'', ''duration_ms'']"

lemma overflow_secret_free:
  assumes "overflow_envelope_ok now tool r"
  shows "result_secret_free (overflow_result now tool r)"
proof -
  have "secret_free (get_default (tr_evidence r) ''risk_level'' (VStr ''read''))"
    "secret_free (get_default (tr_evidence r) ''source_system'' (VStr ''platform''))"
    "secret_free (get_default (tr_evidence r) ''duration_ms'' (VInt 0))"
    using assms by (auto simp: overflow_envelope_ok_def access_key_match intro!: get_default_secret_free)
  then show ?thesis
    using assms
    by (auto simp: overflow_result_def make_error_result_def build_evidence_def result_secret_free_def overflow_envelope_ok_def
        gateway_texts not_sensitive simp del: holds_access_key.simps)
qed

text \<open>
  The envelope takes three fields from the evidence as the tool reported them: an access key id there is
  answered as it is.
\<close>

lemma overflow_repeats_evidence:
  assumes "dget (tr_evidence r) k = Some v" and "k \<in> {''risk_level'', ''source_system'', ''duration_ms''}"
  shows "dget (tr_evidence (overflow_result now tool r)) k = Some v"
proof -
  have "dget (build_evidence now a b c) ''risk_level'' = Some a" "dget (build_evidence now a b c) ''source_system'' = Some b"
    "dget (build_evidence now a b c) ''duration_ms'' = Some c" for a b c
    by (simp_all add: build_evidence_def dget_def)
  then show ?thesis
    using assms(2) assms(1) by (elim insertE emptyE) (simp_all add: overflow_result_def make_error_result_def get_default_def)
qed

lemma overflow_not_challenged: "produce_authorization_challenge producer idd (overflow_result now tool r) = (overflow_result now tool r, [])"
  by (simp add: produce_authorization_challenge_def overflow_result_def make_error_result_def split: option.splits)

definition is_challenge :: "gw_effect \<Rightarrow> bool" where
  "is_challenge e = (case e of ChallengeProduced _ _ _ _ \<Rightarrow> True | _ \<Rightarrow> False)"

lemma produce_unchallenged:
  "list_all (\<lambda>e. \<not> is_challenge e) (snd (produce_authorization_challenge producer idd r)) \<Longrightarrow>
   fst (produce_authorization_challenge producer idd r) = r"
  by (auto simp: produce_authorization_challenge_def is_challenge_def Let_def split: option.splits)

lemma produce_secret_free:
  "result_secret_free r \<Longrightarrow> result_secret_free (fst (produce_authorization_challenge producer idd r))"
  by (auto simp: produce_authorization_challenge_def result_secret_free_def gateway_texts not_sensitive Let_def
      simp del: holds_access_key.simps split: option.splits)

lemma produce_without_producer [simp]: "produce_authorization_challenge None idd r = (r, [])"
  by (simp add: produce_authorization_challenge_def)

lemma dispatch_run:
  assumes "dispatch_invocation env st reg producer ps identity tool parameters session approval correlation rid call requester
           = (reply, ps', effs)" and "executions effs \<noteq> []"
  shows "\<exists>i. identity = Some i \<and> run_tool env st reg producer i tool parameters
           (identity_dict i rid session call approval requester) correlation = (reply, effs)"
  using assms
  by (auto simp: dispatch_invocation_def Let_def split: option.splits prod.splits sum.splits if_splits)

text \<open>
  C9. With redaction on and within the threshold, what the gateway answers after a tool ran carries, at any
  depth, no string value under a sensitive key but the marker and no string value with an access key id
  between word boundaries; only a challenge made by the gateway itself after the redaction is left out of
  this, and when none was made the whole answer is clean. Names of fields are not values. When redaction finds
  nothing and the threshold is not negative, the answer is the tool's own result (or the challenge made
  from it), unchanged. Beyond the threshold the answer is the fixed error, with nothing of the data or the
  error of the tool; but it repeats the tier, the source system and the duration of the evidence as the
  tool reported them, so it is clean only when these are.
\<close>

theorem released_output_redacted:
  assumes "gs_redaction st"
    and "dispatch_invocation env st reg producer ps identity tool parameters session approval correlation rid call requester
           = (Inr (code, body), ps', effs)" and "executions effs = [(n, p, idd)]"
  shows "\<exists>r red stats. r = rg_invoke (ge_now env) reg tool parameters idd \<and> redact_result env r = Some (red, stats)
    \<and> (if overflow stats (gs_overflow_fraction st)
        then result_to_dict (ge_challenge_schema env) (overflow_result (ge_now env) tool r) = Some body
          \<and> (overflow_envelope_ok (ge_now env) tool r \<longrightarrow> secret_free (VDict body))
        else body_secret_free body \<and> (list_all (\<lambda>e. \<not> is_challenge e) effs \<longrightarrow> secret_free (VDict body)))
    \<and> (red = r \<and> rs_redacted stats = 0 \<and> 0 \<le> gs_overflow_fraction st \<longrightarrow>
         result_to_dict (ge_challenge_schema env) (fst (produce_authorization_challenge producer idd r)) = Some body)"
proof -
  from dispatch_run [OF assms(2)] assms(3) obtain i where i: "identity = Some i"
    and run: "run_tool env st reg producer i tool parameters (identity_dict i rid session call approval requester) correlation
        = (Inr (code, body), effs)" by auto
  let ?i = "identity_dict i rid session call approval requester"
  have idd: "idd = ?i"
    using run_tool_executions [of env st reg producer i tool parameters ?i correlation] run assms(3)
    by (auto split: option.splits)
  let ?r = "rg_invoke (ge_now env) reg tool parameters idd"
  obtain r' spans where step: "redact_step env st tool ?r = Some (r', spans)"
    using run by (cases "redact_step env st tool ?r") (auto simp: run_tool_def Let_def idd)
  obtain r'' made where p: "produce_authorization_challenge producer idd r' = (r'', made)" by force
  have b: "result_to_dict (ge_challenge_schema env) (fst (produce_authorization_challenge producer idd r')) = Some body"
    and fx: "set (snd (produce_authorization_challenge producer idd r')) \<subseteq> set effs"
    using run step p by (auto simp: run_tool_def respond_result_def idd Let_def split: option.splits)
  from step assms(1) obtain red stats where rr: "redact_result env ?r = Some (red, stats)"
    and r': "r' = (if overflow stats (gs_overflow_fraction st) then overflow_result (ge_now env) tool ?r else red)"
    by (auto simp: redact_step_def)
  have big: "result_to_dict (ge_challenge_schema env) (overflow_result (ge_now env) tool ?r) = Some body
      \<and> (overflow_envelope_ok (ge_now env) tool ?r \<longrightarrow> secret_free (VDict body))" if "overflow stats (gs_overflow_fraction st)"
  proof -
    have o1: "result_to_dict (ge_challenge_schema env) (overflow_result (ge_now env) tool ?r) = Some body"
      using b that by (simp add: r' overflow_not_challenged)
    moreover have "tr_authorization (overflow_result (ge_now env) tool ?r) = VNone" by (simp add: overflow_result_def make_error_result_def)
    ultimately show ?thesis using unchallenged_body overflow_secret_free by blast
  qed
  have small: "body_secret_free body \<and> (list_all (\<lambda>e. \<not> is_challenge e) effs \<longrightarrow> secret_free (VDict body))"
    if "\<not> overflow stats (gs_overflow_fraction st)"
  proof -
    have red: "r' = red" using that by (simp add: r')
    have "body_secret_free body" using released_body [OF _ b] produce_secret_free redact_result_secret_free [OF rr] by (simp add: red)
    moreover have "secret_free (VDict body)" if "list_all (\<lambda>e. \<not> is_challenge e) effs"
    proof -
      have "list_all (\<lambda>e. \<not> is_challenge e) (snd (produce_authorization_challenge producer idd r'))"
        using that fx by (auto simp: list_all_iff)
      from produce_unchallenged [OF this] b have "result_to_dict (ge_challenge_schema env) red = Some body" by (simp add: red)
      then show ?thesis by (rule redact_result_body [OF rr])
    qed
    ultimately show ?thesis by blast
  qed
  have "result_to_dict (ge_challenge_schema env) (fst (produce_authorization_challenge producer idd ?r)) = Some body"
    if "red = ?r" "rs_redacted stats = 0" "0 \<le> gs_overflow_fraction st"
  proof -
    have "\<not> overflow stats (gs_overflow_fraction st)" using that by (simp add: overflow_def)
    then have "r' = ?r" using that(1) by (simp add: r')
    then show ?thesis using b by simp
  qed
  then show ?thesis using rr big small by (intro exI [of _ ?r] exI [of _ red] exI [of _ stats]) auto
qed

section \<open>The delegated route\<close>

lemma verify_human_Inr:
  assumes "verify_human env st token namespace subject username = Inr i"
  obtains jc where "decode_delegated_human_claims env st token = Some jc" and "namespace = VStr (gs_delegated_issuer st)"
    and "get_none jc ''sub'' = subject" and "get_none jc ''username'' = username"
    and "ic_subject i = str_of_val subject" and "ic_username i = str_of_val username"
    and "ic_roles i = str_items (get_default jc ''roles'' (VList []))" and "gw_bounded subject"
  using assms by (auto simp: verify_human_def split: option.splits if_splits)

lemma gw_bounded_str: "gw_bounded v \<Longrightarrow> \<exists>s. v = VStr s"
  by (cases v) (auto simp: gw_bounded_def)

lemma verify_delegated_Inr:
  assumes "verify_delegated_invocation env st body = Inr (projection, parameters, requester, decider)"
  obtains b where "body = VDict b" and "get_none b ''projection'' = VDict projection" and "get_none b ''parameters'' = VDict parameters"
    and "list_all (dhas projection) PROJECTION_FIELDS"
    and "get_none projection ''args_digest'' = VStr (canonical_digest (ge_crypto env) (VDict parameters))"
    and "verify_human env st (get_none b ''requester_token'') (get_none projection ''requester_namespace'')
           (get_none projection ''requester_sub'') (get_none projection ''owner_user_id'') = Inr requester"
    and "verify_human env st (get_none b ''decider_token'') (get_none projection ''decider_namespace'')
           (get_none projection ''decider_sub'') (get_none projection ''decider_user_id'') = Inr decider"
proof (cases body)
  case (VDict b)
  then show thesis using assms that [of b]
    by (auto simp: verify_delegated_invocation_def split: val.splits if_splits sum.splits)
qed (use assms in \<open>auto simp: verify_delegated_invocation_def\<close>)

lemma invoke_delegated_dispatch:
  assumes "invoke_delegated env st reg ps req rid = (reply, ps', effs)" and "executions effs \<noteq> []"
  obtains w projection parameters requester decider where "gs_delegated_invoke st"
    and "authenticate_execution_workload env st req = Inr w"
    and "verify_delegated_invocation env st (hr_body req) = Inr (projection, parameters, requester, decider)"
    and "dispatch_invocation env st reg None ps (Some decider) (get_none projection ''tool_name'') (VDict parameters)
      (nonempty_str (get_none projection ''session_id'')) (approval_kind_of (get_none projection ''approval_kind''))
      (execution_correlation (get_none projection ''execution_id'')) rid None
      (Some (str_of_val (get_none projection ''requester_namespace''), ic_subject requester)) = (reply, ps', effs)"
proof -
  have en: "gs_delegated_invoke st" using assms by (auto simp: invoke_delegated_def split: if_splits)
  obtain w where auth: "authenticate_execution_workload env st req = Inr w"
    using assms by (cases "authenticate_execution_workload env st req") (auto simp: invoke_delegated_def split: if_splits)
  obtain projection parameters requester decider
    where ver: "verify_delegated_invocation env st (hr_body req) = Inr (projection, parameters, requester, decider)"
    using assms auth by (cases "verify_delegated_invocation env st (hr_body req)") (auto simp: invoke_delegated_def split: if_splits)
  show thesis using that [OF en auth ver] assms(1) by (simp add: invoke_delegated_def en auth ver)
qed

text \<open>
  C36. The private delegated route runs a tool only when it is enabled, the caller presents a workload
  token of a listed subject, the parameters have the digest of the projection, the requester and the
  decider each present their own verified bearer of the pinned issuer matching the projection, and the
  policy allows the tool to the decider's roles; the tool then runs once as the decider, on exactly
  those parameters, with the verified requester bound for the target's acquisition.
\<close>

theorem delegated_invocation_bound:
  assumes "tg_state_ok ps" and "invoke_delegated env st reg ps req rid = (reply, ps', effs)"
    and "(n, p, idd) \<in> set (executions effs)"
  shows "gs_delegated_invoke st
    \<and> (\<exists>w wc. gw_bearer req = Inr w \<and> ge_workload_jwt env w = Some wc
          \<and> str_of_val (get_default wc ''sub'' (VStr [])) \<in> set (gs_workload_subjects st))
    \<and> (\<exists>b projection parameters rc dc decider. hr_body req = VDict b \<and> get_none b ''projection'' = VDict projection
          \<and> get_none b ''parameters'' = VDict parameters \<and> p = VDict parameters
          \<and> get_none projection ''args_digest'' = VStr (canonical_digest (ge_crypto env) (VDict parameters))
          \<and> get_none projection ''tool_name'' = VStr n
          \<and> decode_delegated_human_claims env st (get_none b ''requester_token'') = Some rc
          \<and> get_none rc ''sub'' = get_none projection ''requester_sub'' \<and> get_none rc ''username'' = get_none projection ''owner_user_id''
          \<and> decode_delegated_human_claims env st (get_none b ''decider_token'') = Some dc
          \<and> get_none dc ''sub'' = get_none projection ''decider_sub'' \<and> get_none dc ''username'' = get_none projection ''decider_user_id''
          \<and> get_none projection ''requester_namespace'' = VStr (gs_delegated_issuer st)
          \<and> get_none projection ''decider_namespace'' = VStr (gs_delegated_issuer st)
          \<and> ic_roles decider = str_items (get_default dc ''roles'' (VList []))
          \<and> may_run env st reg ps (Some decider) (VStr n)
          \<and> get_none idd ''sub'' = get_none projection ''decider_sub''
          \<and> get_none idd ''delegated_requester_sub'' = get_none projection ''requester_sub''
          \<and> get_none idd ''delegated_requester_namespace'' = VStr (gs_delegated_issuer st))
    \<and> executions effs = [(n, p, idd)]"
proof -
  have ne: "executions effs \<noteq> []" using assms(3) by auto
  from assms(2) ne obtain w projection parameters requester decider where en: "gs_delegated_invoke st"
    and auth: "authenticate_execution_workload env st req = Inr w"
    and ver: "verify_delegated_invocation env st (hr_body req) = Inr (projection, parameters, requester, decider)"
    and disp: "dispatch_invocation env st reg None ps (Some decider) (get_none projection ''tool_name'') (VDict parameters)
      (nonempty_str (get_none projection ''session_id'')) (approval_kind_of (get_none projection ''approval_kind''))
      (execution_correlation (get_none projection ''execution_id'')) rid None
      (Some (str_of_val (get_none projection ''requester_namespace''), ic_subject requester)) = (reply, ps', effs)"
    by (rule invoke_delegated_dispatch)
  let ?t = "get_none projection ''tool_name''"
  note ex = dispatch_executions [OF assms(1) disp]
  then have run: "may_run env st reg ps (Some decider) ?t" and one: "executions effs = [(n, p, idd)]"
    and n: "n = str_of_val ?t" and p: "p = VDict parameters"
    and idd: "idd = identity_dict decider rid (nonempty_str (get_none projection ''session_id'')) None
        (approval_kind_of (get_none projection ''approval_kind''))
        (Some (str_of_val (get_none projection ''requester_namespace''), ic_subject requester))"
    using assms(3) by (auto split: if_splits)
  have t: "?t = VStr n" using run n by (auto simp: may_run_def rg_get_def split: option.splits val.splits)
  from ver obtain b where b: "hr_body req = VDict b" "get_none b ''projection'' = VDict projection"
      "get_none b ''parameters'' = VDict parameters"
      "get_none projection ''args_digest'' = VStr (canonical_digest (ge_crypto env) (VDict parameters))"
    and vr: "verify_human env st (get_none b ''requester_token'') (get_none projection ''requester_namespace'')
           (get_none projection ''requester_sub'') (get_none projection ''owner_user_id'') = Inr requester"
    and vd: "verify_human env st (get_none b ''decider_token'') (get_none projection ''decider_namespace'')
           (get_none projection ''decider_sub'') (get_none projection ''decider_user_id'') = Inr decider"
    by (rule verify_delegated_Inr)
  from vr obtain rc where rc: "decode_delegated_human_claims env st (get_none b ''requester_token'') = Some rc"
      "get_none projection ''requester_namespace'' = VStr (gs_delegated_issuer st)"
      "get_none rc ''sub'' = get_none projection ''requester_sub''" "get_none rc ''username'' = get_none projection ''owner_user_id''"
      "ic_subject requester = str_of_val (get_none projection ''requester_sub'')" "gw_bounded (get_none projection ''requester_sub'')"
    by (rule verify_human_Inr)
  from vd obtain dc where dc: "decode_delegated_human_claims env st (get_none b ''decider_token'') = Some dc"
      "get_none projection ''decider_namespace'' = VStr (gs_delegated_issuer st)"
      "get_none dc ''sub'' = get_none projection ''decider_sub''" "get_none dc ''username'' = get_none projection ''decider_user_id''"
      "ic_subject decider = str_of_val (get_none projection ''decider_sub'')"
      "ic_roles decider = str_items (get_default dc ''roles'' (VList []))" "gw_bounded (get_none projection ''decider_sub'')"
    by (rule verify_human_Inr)
  have w: "\<exists>w wc. gw_bearer req = Inr w \<and> ge_workload_jwt env w = Some wc
      \<and> str_of_val (get_default wc ''sub'' (VStr [])) \<in> set (gs_workload_subjects st)"
    using auth by (auto simp: authenticate_execution_workload_def Let_def split: sum.splits option.splits if_splits)
  have "get_none idd ''sub'' = get_none projection ''decider_sub''"
    using gw_bounded_str [OF dc(7)] dc(5) by (auto simp: idd identity_dict_def get_none_def)
  moreover have "get_none idd ''delegated_requester_sub'' = get_none projection ''requester_sub''"
    "get_none idd ''delegated_requester_namespace'' = VStr (gs_delegated_issuer st)"
    using gw_bounded_str [OF rc(6)] rc(2,5) by (auto simp: idd identity_dict_def get_none_def opt_entry_def split: option.splits)
  ultimately show ?thesis using en w b p t rc dc run one by (metis (no_types, lifting))
qed

section \<open>From the worker to the gateway\<close>

lemma gw_bounded_same: "gw_bounded v = bounded v"
  by (simp add: gw_bounded_def bounded_def)

lemma worker_human_accepted:
  assumes "human ws token namespace subject username = Inr ex"
    and "gs_delegated_issuer st = ws_issuer ws" and "gs_delegated_actors st = ws_actors ws" and "ge_human_jwt env = ws_jwt ws"
    and "\<And>t jc. ws_jwt ws t = Some jc \<Longrightarrow> get_none jc ''email'' = VNone \<or> is_str (get_none jc ''email'')"
  shows "\<exists>i. verify_human env st token namespace subject username = Inr i \<and> VStr (ic_subject i) = subject
    \<and> VStr (ic_username i) = username"
proof -
  from assms(1) obtain s jc where s: "token = VStr s" "0 < length s" "length s \<le> MAX_TOKEN_BYTES" "ws_jwt ws s = Some jc"
    and ok: "human_claims_ok ws jc namespace subject username = Some ex"
    by (cases token) (auto simp: human_def split: option.splits if_splits bind_splits)
  from ok obtain iat actor where cl: "dget jc ''exp'' = Some (VInt ex)" "dget jc ''iat'' = Some (VInt iat)"
      "dget jc ''act'' = Some (VDict [(''sub'', VStr actor)])" "namespace = VStr (ws_issuer ws)" "dget jc ''sub'' = Some subject"
      "get_none jc ''username'' = username" "bounded subject" "bounded username"
      "dget jc ''authentication_source'' = Some (VStr ''oidc'')" "iat < ex" "actor \<in> set (ws_actors ws)"
    by (auto simp: human_claims_ok_def split: option.splits val.splits list.splits prod.splits if_splits)
  have "decode_delegated_human_claims env st token = Some jc"
    using s cl assms by (simp add: decode_delegated_human_claims_def gw_bounded_same)
  with cl assms(2) assms(5) [OF s(4)] show ?thesis
    using gw_bounded_str [of subject] gw_bounded_str [of username]
    by (auto simp: verify_human_def gw_bounded_same get_none_def)
qed

lemma strip_ends:
  assumes "strip s \<noteq> []"
  shows "\<not> is_space (hd (strip s)) \<and> \<not> is_space (last (strip s))"
proof -
  define t where "t = dropWhile is_space s"
  let ?u = "dropWhile is_space (rev t)"
  have st: "strip s = rev ?u" by (simp add: strip_def t_def)
  have u: "?u \<noteq> []" using assms st by simp
  have "rev t = takeWhile is_space (rev t) @ ?u" by simp
  then have "t = rev ?u @ rev (takeWhile is_space (rev t))" by (metis rev_append rev_rev_ident)
  then have "hd t = hd (rev ?u)" using u by (metis hd_append2 rev_is_Nil_conv)
  moreover have "t \<noteq> []" using u by auto
  then have "\<not> is_space (hd t)" unfolding t_def using hd_dropWhile by blast
  moreover have "\<not> is_space (hd ?u)" using u hd_dropWhile by blast
  ultimately show ?thesis using st u by (simp add: last_rev)
qed

lemma strip_idem: "strip (strip s) = strip s"
proof (cases "strip s = []")
  case False
  have eq: "dropWhile is_space xs = xs" if "xs \<noteq> []" "\<not> is_space (hd xs)" for xs :: string
    using that by (cases xs) auto
  show ?thesis
    unfolding strip_def [of "strip s"]
    using False strip_ends [OF False] eq [of "strip s"] eq [of "rev (strip s)"] by (simp add: hd_rev)
next
  case True
  then show ?thesis by (simp add: strip_def [of "[]"])
qed

lemma get_none_some: "dget d k = Some v \<Longrightarrow> get_none d k = v"
  by (simp add: get_none_def)

lemma lower_Bearer: "lower ''Bearer'' = ''bearer''"
  by code_simp

lemma worker_bearer_read:
  assumes "read_workload_token ws = Inr w" and "hr_authorization req = Some (''Bearer '' @ w)"
  shows "gw_bearer req = Inr w"
proof -
  from assms(1) obtain content where w: "w = strip content" and len: "length content \<le> MAX_TOKEN_BYTES" and j: "jwt_shaped w"
    by (auto simp: read_workload_token_def split: option.splits if_splits)
  have "w \<noteq> []" using j by (auto simp: jwt_shaped_def)
  moreover have "length w \<le> MAX_TOKEN_BYTES" using len length_strip_le [of content] w by simp
  moreover have "strip w = w" by (simp add: w strip_idem)
  ultimately show ?thesis
    by (simp add: gw_bearer_def assms(2) auth_parts_def is_bearer_def lower_Bearer)
qed

text \<open>
  C21. What the worker sends for a delegated execution the gateway accepts: when the worker verified a
  handoff and prepared the delegated request, and both services trust the same issuer, actors and
  keys, the gateway reads the worker's own workload token from the request and its verification of the
  body succeeds, with the same projection and arguments and with the two humans of the signed envelope.
\<close>

theorem worker_request_accepted_by_gateway:
  assumes "verify_handoff env ws key now envelope (VDict arguments) decider_token requester_token = Inr vd"
    and "prepare_delegated env ws now' tool arguments token rid session approval execution_id vd = Inr wreq"
    and "gs_delegated_issuer st = ws_issuer ws" and "gs_delegated_actors st = ws_actors ws"
    and "ge_human_jwt genv = ws_jwt ws" and "ge_crypto genv = cr env"
    and "\<And>t jc. ws_jwt ws t = Some jc \<Longrightarrow> get_none jc ''email'' = VNone \<or> is_str (get_none jc ''email'')"
    and "hr_authorization req = dget (gr_headers wreq) ''Authorization''" and "hr_body req = VDict (gr_payload wreq)"
  shows "(\<exists>w. read_workload_token ws = Inr w \<and> gw_bearer req = Inr w)
    \<and> (\<exists>requester decider.
          verify_delegated_invocation genv st (hr_body req) = Inr (vd_projection vd, arguments, requester, decider)
          \<and> VStr (ic_subject requester) = get_none envelope ''requester_sub''
          \<and> VStr (ic_username requester) = get_none envelope ''owner_user_id''
          \<and> VStr (ic_subject decider) = get_none envelope ''decider_sub''
          \<and> VStr (ic_username decider) = get_none envelope ''decider_user_id'')"
proof -
  from assms(1) obtain owner decider oe de where u: "dget envelope ''owner_user_id'' = Some owner"
      "dget envelope ''decider_user_id'' = Some decider" "list_all (dhas envelope) IDENTITY_FIELDS"
    and ho: "human ws requester_token (get_none envelope ''requester_namespace'') (get_none envelope ''requester_sub'') owner = Inr oe"
    and hd: "human ws decider_token (get_none envelope ''decider_namespace'') (get_none envelope ''decider_sub'') decider = Inr de"
    and vd: "vd = \<lparr>vd_projection = dset ''request_digest'' (VStr (canonical_digest (cr env) (VDict envelope)))
                         (dpop ''signature'' envelope), vd_requester = requester_token, vd_decider = decider_token,
                vd_expires = min oe de\<rparr>"
    by (rule verify_handoff_Inr)
  from assms(2) obtain w where c: "check_send env now' vd tool arguments token session approval execution_id = Inr ()"
    and w: "read_workload_token ws = Inr w" "dget (gr_headers wreq) ''Authorization'' = Some (''Bearer '' @ w)"
    and pl: "gr_payload wreq = [(''projection'', VDict (vd_projection vd)), (''parameters'', VDict arguments),
            (''requester_token'', vd_requester vd), (''decider_token'', token), (''request_id'', VStr rid)]"
    by (rule prepare_delegated_Inr)
  have p: "dget (vd_projection vd) k = dget envelope k" if "k \<noteq> ''request_digest''" "k \<noteq> ''signature''" for k
    using that by (simp add: vd)
  from c have tok: "token = decider_token"
    and f: "list_all (dhas envelope) [''tool_name'', ''session_id'', ''approval_kind'', ''execution_id'', ''args_digest'']"
      "dget envelope ''args_digest'' = Some (VStr (canonical_digest (cr env) (VDict arguments)))"
    by (auto simp: check_send_def vd dhas_dget)
  have fields: "list_all (dhas (vd_projection vd)) PROJECTION_FIELDS"
    using u f by (simp add: PROJECTION_FIELDS_def IDENTITY_FIELDS_def dhas_dget p)
  obtain r where r: "verify_human genv st requester_token (get_none envelope ''requester_namespace'')
      (get_none envelope ''requester_sub'') owner = Inr r" "VStr (ic_subject r) = get_none envelope ''requester_sub''"
      "VStr (ic_username r) = owner"
    using worker_human_accepted [OF ho assms(3-5)] assms(7) by blast
  obtain d where d: "verify_human genv st decider_token (get_none envelope ''decider_namespace'')
      (get_none envelope ''decider_sub'') decider = Inr d" "VStr (ic_subject d) = get_none envelope ''decider_sub''"
      "VStr (ic_username d) = decider"
    using worker_human_accepted [OF hd assms(3-5)] assms(7) by blast
  have body: "get_none (gr_payload wreq) ''projection'' = VDict (vd_projection vd)"
    "get_none (gr_payload wreq) ''parameters'' = VDict arguments" "get_none (gr_payload wreq) ''requester_token'' = requester_token"
    "get_none (gr_payload wreq) ''decider_token'' = token"
    by (simp_all add: pl get_none_def) (simp add: vd)
  have pg: "get_none (vd_projection vd) k = get_none envelope k" if "k \<noteq> ''request_digest''" "k \<noteq> ''signature''" for k
    using p [OF that] by (simp add: get_none_def)
  have "verify_delegated_invocation genv st (hr_body req) = Inr (vd_projection vd, arguments, r, d)"
    using fields f(2) r(1) d(1) u(1,2) tok assms(6)
    by (simp add: verify_delegated_invocation_def assms(9) body pg get_none_some)
  with r d u worker_bearer_read [OF w(1)] w show ?thesis by (auto simp: assms(8) get_none_def)
qed

section \<open>A small gateway\<close>

definition demo_gw_rule :: policy_rule where
  "demo_gw_rule = demo_r1\<lparr>actions_any := [VStr ''tools:invoke'', VStr ''tools:mutate'']\<rparr>"

definition demo_gw_state :: policy_state where
  "demo_gw_state = \<lparr>cached_rules = Some [demo_gw_rule], configured_path = None, bundle_hash = ''h''\<rparr>"

definition demo_gw :: gw_settings where
  "demo_gw = \<lparr>gs_policy_path = None, gs_require_auth = True, gs_dev_user = ''dev'', gs_audit_url = ''http://audit'', gs_redaction = True,
     gs_overflow_fraction = 1, gs_delegated_invoke = True, gs_workload_subjects = [''worker''], gs_delegated_acquisition = False,
     gs_delegated_issuer = ''iss'', gs_delegated_audience = ''aud'', gs_delegated_jwks_url = ''u'', gs_delegated_actors = [''agent'']\<rparr>"

definition demo_gw_env :: gw_env where
  "demo_gw_env = \<lparr>ge_policy = demo_env, ge_jwt = (\<lambda>_. InvalidToken), ge_workload_jwt = (\<lambda>_. Some [(''sub'', VStr ''worker'')]),
     ge_human_jwt = (\<lambda>t. if t = ''R'' then Some (demo_claims ''r1'' ''u1'')
        else if t = ''D'' then Some (demo_claims ''d1'' ''u2'' @ [(''roles'', VList [VStr ''operator''])]) else None),
     ge_crypto = cr demo_delegated_proto, ge_challenge_schema = as_dict, ge_now = ''t''\<rparr>"

definition demo_tool :: base_tool where
  "demo_tool = \<lparr>bt_definition = \<lparr>td_name = ''restart'', td_description = [], td_risk = ''write'', td_category = ''k8s'', td_schema = [],
       td_extra_actions = []\<rparr>,
     bt_execute = (\<lambda>_ _. Inr \<lparr>tr_tool = VStr ''restart'', tr_status = VStr ''success'', tr_data = VDict [(''token'', VStr ''abc'')],
       tr_evidence = [(''source_system'', VStr ''k8s'')], tr_error = VNone, tr_authorization = VNone\<rparr>),
     bt_mode = (\<lambda>_ _. None), bt_attribution = None\<rparr>"

definition demo_registry :: tool_registry where
  "demo_registry = \<lparr>rg_tools = [(''restart'', demo_tool)], rg_allow_mutating = True\<rparr>"

definition demo_identity :: identity_context where
  "demo_identity = \<lparr>ic_subject = ''d1'', ic_username = ''u2'', ic_roles = [''operator''], ic_actor = Some ''agent''\<rparr>"

definition demo_delegated_http :: http_request where
  "demo_delegated_http = \<lparr>hr_authorization = Some ''Bearer a.b.c'', hr_execution_id = None, hr_body = VDict
     [(''projection'', VDict demo_delegated_envelope), (''parameters'', VDict []), (''requester_token'', VStr ''R''),
      (''decider_token'', VStr ''D'')]\<rparr>"

lemma demo_registry_ok: "registry_ok demo_registry" "rg_register demo_tool (new_registry True) = Some demo_registry"
  by (auto simp: registry_ok_def demo_registry_def tool_admitted_def demo_tool_def VALID_RISK_LEVELS_def rg_register_def
      new_registry_def split: if_splits)

lemma demo_gw_state_ok: "tg_state_ok demo_gw_state"
  by (simp add: tg_state_ok_def demo_gw_state_def tg_rule_ok_def demo_gw_rule_def demo_r1_def)

lemma demo_gw_load: "tg_load_bundle (ge_policy demo_gw_env) (gs_policy_path demo_gw) demo_gw_state = (Inr [demo_gw_rule], demo_gw_state)"
  by (simp add: tg_load_bundle_def demo_gw_state_def demo_gw_def)

abbreviation demo_dispatch where
  "demo_dispatch \<equiv> dispatch_invocation demo_gw_env demo_gw demo_registry None demo_gw_state (Some demo_identity) (VStr ''restart'')
     (VDict []) (Some ''s1'') None [] ''q1'' None None"

lemma demo_may_run: "may_run demo_gw_env demo_gw demo_registry demo_gw_state (Some demo_identity) (VStr ''restart'')"
  by (simp add: may_run_def demo_gw_load rg_get_def demo_registry_def required_actions_def demo_tool_def action_allowed_def
      demo_gw_rule_def demo_r1_def rule_raises_def rule_applies_def demo_identity_def)

theorem invocation_runs_iff_allowed_witness:
  "executions (snd (snd demo_dispatch)) = [(''restart'', VDict [], identity_dict demo_identity ''q1'' (Some ''s1'') None None None)]
   \<and> action_allowed [demo_gw_rule] [''operator''] ''tools:mutate''"
proof -
  obtain reply ps' effs where d: "demo_dispatch = (reply, ps', effs)" by (metis prod_cases3)
  have ex: "executions effs = [(''restart'', VDict [], identity_dict demo_identity ''q1'' (Some ''s1'') None None None)]"
    using dispatch_executions [OF demo_gw_state_ok d] demo_may_run by simp
  then have "\<exists>i t rules ps1. Some demo_identity = Some i \<and> dget (rg_tools demo_registry) ''restart'' = Some t
      \<and> tg_load_bundle (ge_policy demo_gw_env) (gs_policy_path demo_gw) demo_gw_state = (Inr rules, ps1)
      \<and> (td_risk (bt_definition t) \<noteq> ''read'' \<longrightarrow> action_allowed rules (ic_roles i) ''tools:mutate'')"
    using invocation_runs_iff_allowed [OF demo_gw_state_ok demo_registry_ok(1) d, of "''restart''" "VDict []"
        "identity_dict demo_identity ''q1'' (Some ''s1'') None None None"] by auto
  then have "action_allowed [demo_gw_rule] [''operator''] ''tools:mutate''"
    by (simp add: demo_gw_load demo_registry_def demo_tool_def demo_identity_def)
  then show ?thesis using ex unfolding d by simp
qed

definition demo_body :: json_obj where
  "demo_body = [(''tool_name'', VStr ''restart''), (''status'', VStr ''success''), (''evidence'', VDict [(''source_system'', VStr ''k8s'')]),
     (''data'', VDict [(''token'', VStr REDACTION_MARKER)])]"

lemma demo_released: "fst demo_dispatch = Inr (200, demo_body)"
  by code_simp

lemma demo_unchallenged: "list_all (\<lambda>e. \<not> is_challenge e) (snd (snd demo_dispatch))"
  by code_simp

theorem released_output_redacted_witness: "secret_free (VDict demo_body)"
proof -
  let ?i = "identity_dict demo_identity ''q1'' (Some ''s1'') None None None"
  let ?r = "rg_invoke (ge_now demo_gw_env) demo_registry (VStr ''restart'') (VDict []) ?i"
  obtain ps' effs where d: "demo_dispatch = (Inr (200, demo_body), ps', effs)"
    using demo_released by (cases demo_dispatch) auto
  have ex: "executions effs = [(''restart'', VDict [], ?i)]"
    using dispatch_executions [OF demo_gw_state_ok d] demo_may_run by simp
  have on: "gs_redaction demo_gw" by (simp add: demo_gw_def)
  have clean: "overflow_envelope_ok (ge_now demo_gw_env) (VStr ''restart'') ?r" by code_simp
  have none: "list_all (\<lambda>e. \<not> is_challenge e) effs" using d demo_unchallenged by simp
  from released_output_redacted [OF on d ex] show ?thesis using clean none by (metis (no_types, lifting))
qed

lemma demo_delegated_runs:
  "map fst (executions (snd (snd (invoke_delegated demo_gw_env demo_gw demo_registry demo_gw_state demo_delegated_http ''q1''))))
   = [''restart'']"
  by code_simp

theorem delegated_invocation_bound_witness:
  "\<exists>p idd. executions (snd (snd (invoke_delegated demo_gw_env demo_gw demo_registry demo_gw_state demo_delegated_http ''q1'')))
     = [(''restart'', p, idd)] \<and> get_none idd ''sub'' = VStr ''d1'' \<and> get_none idd ''delegated_requester_sub'' = VStr ''r1''"
proof -
  obtain reply ps' effs where d: "invoke_delegated demo_gw_env demo_gw demo_registry demo_gw_state demo_delegated_http ''q1''
      = (reply, ps', effs)" by (metis prod_cases3)
  then obtain p idd where m: "(''restart'', p, idd) \<in> set (executions effs)" using demo_delegated_runs by auto
  have "get_none demo_delegated_envelope ''decider_sub'' = VStr ''d1''" "get_none demo_delegated_envelope ''requester_sub'' = VStr ''r1''"
    by (simp_all add: demo_delegated_envelope_def get_none_def)
  with delegated_invocation_bound [OF demo_gw_state_ok d m]
  have "executions effs = [(''restart'', p, idd)] \<and> get_none idd ''sub'' = VStr ''d1'' \<and> get_none idd ''delegated_requester_sub'' = VStr ''r1''"
    by (auto simp: demo_delegated_http_def get_none_def [of "_ # _"])
  then show ?thesis unfolding d by auto
qed

theorem worker_request_accepted_by_gateway_witness:
  "\<exists>vd wreq requester decider.
     verify_handoff demo_delegated_proto demo_delegated ''k'' 2 demo_delegated_envelope (VDict []) (VStr ''D'') (VStr ''R'') = Inr vd
     \<and> prepare_delegated demo_delegated_proto demo_delegated 2 (VStr ''restart'') [] (VStr ''D'') ''q1'' (VStr ''s1'')
         (VStr ''action'') (VStr ''e1'') vd = Inr wreq
     \<and> verify_delegated_invocation (demo_gw_env\<lparr>ge_human_jwt := ws_jwt demo_delegated\<rparr>) demo_gw (VDict (gr_payload wreq))
         = Inr (vd_projection vd, [], requester, decider)
     \<and> VStr (ic_subject decider) = VStr ''d1''"
proof -
  from demo_verified obtain vd wreq where
      v: "verify_handoff demo_delegated_proto demo_delegated ''k'' 2 demo_delegated_envelope (VDict []) (VStr ''D'') (VStr ''R'') = Inr vd"
    and p: "prepare_delegated demo_delegated_proto demo_delegated 2 (VStr ''restart'') [] (VStr ''D'') ''q1'' (VStr ''s1'')
      (VStr ''action'') (VStr ''e1'') vd = Inr wreq" by blast
  define req where "req = \<lparr>hr_authorization = dget (gr_headers wreq) ''Authorization'', hr_execution_id = None, hr_body = VDict (gr_payload wreq)\<rparr>"
  have email: "get_none jc ''email'' = VNone \<or> is_str (get_none jc ''email'')" if "ws_jwt demo_delegated t = Some jc" for t jc
    using that by (auto simp: demo_delegated_def demo_claims_def get_none_def split: if_splits)
  note acc = worker_request_accepted_by_gateway [OF v p, of demo_gw "demo_gw_env\<lparr>ge_human_jwt := ws_jwt demo_delegated\<rparr>" req]
  have "get_none demo_delegated_envelope ''decider_sub'' = VStr ''d1''" by (simp add: demo_delegated_envelope_def get_none_def)
  then show ?thesis using v p acc email by (auto simp: req_def demo_gw_def demo_gw_env_def demo_delegated_def)
qed

end
