(* ===== verification/Secret_Params.thy ===== *)
theory Secret_Params
  imports Execution_Signing
begin

text \<open>
  The masking of secret parameters (\<open>agent_service/services/secret_params.py\<close>): the closed projection of
  a change request, the evidence projection of a tool call and the parameterization of an authoring
  trace. Splitting, joining and unquoting URLs are library functions and arguments here; the rewriting
  of their parts is the source's.
\<close>

section \<open>Vocabulary\<close>

definition SECRET_PARAM_SUBSTRINGS :: "string list" where
  "SECRET_PARAM_SUBSTRINGS =
     [''password'', ''passwd'', ''pwd'', ''newpw'', ''oldpw'', ''secret'', ''token'', ''apikey'', ''api_key'', ''accesskey'', ''access_key'',
      ''privatekey'', ''private_key'', ''credential'', ''otp'', ''cvv'', ''ssn'', ''sessionid'', ''session_id'', ''signature'']"

definition MASK :: string where
  "MASK = ''***''"

definition TRACE_CREDENTIAL_PLACEHOLDER :: string where
  "TRACE_CREDENTIAL_PLACEHOLDER = ''<credential-reference>''"

definition OPAQUE_VALUE_FIELDS :: "string list" where
  "OPAQUE_VALUE_FIELDS = [''web.type.text'', ''secrets.generate_password.generated_password'', ''web.evaluate.expression'']"

definition KNOWN_SAFE_FIELDS :: "string list" where
  "KNOWN_SAFE_FIELDS =
     [''k8s.delete_pod.name'', ''k8s.delete_pod.namespace'', ''web.select.value'', ''web.fill_credential.credential_set'',
      ''web.fill_credential.field'', ''web.press_key.key'', ''web.upload_file.filename'', ''http.post.url'', ''secrets.deliver.channel'',
      ''secrets.deliver.recipient'']"

text \<open>\<open>needle in s\<close>\<close>

fun contains :: "string \<Rightarrow> string \<Rightarrow> bool" where
  "contains needle [] = (needle = [])"
| "contains needle (c # cs) = (take (length needle) (c # cs) = needle \<or> contains needle cs)"

definition is_secret_param :: "string \<Rightarrow> bool" where
  "is_secret_param name = list_ex (\<lambda>x. contains x (lower name)) SECRET_PARAM_SUBSTRINGS"

definition field_name :: "string \<Rightarrow> string \<Rightarrow> string" where
  "field_name tool param = tool @ ''.'' @ param"

definition is_opaque_value :: "string \<Rightarrow> string \<Rightarrow> bool" where
  "is_opaque_value tool param \<longleftrightarrow> field_name tool param \<in> set OPAQUE_VALUE_FIELDS"

definition is_known_safe :: "string \<Rightarrow> string \<Rightarrow> bool" where
  "is_known_safe tool param \<longleftrightarrow> field_name tool param \<in> set KNOWN_SAFE_FIELDS"

definition should_mask :: "string \<Rightarrow> string \<Rightarrow> bool" where
  "should_mask tool param \<longleftrightarrow> \<not> is_known_safe tool param"

definition redact_parameters :: "string \<Rightarrow> val \<Rightarrow> json_obj" where
  "redact_parameters tool parameters =
     (case parameters of
        VDict d \<Rightarrow> map (\<lambda>p. (fst p, if should_mask tool (fst p) then VStr MASK else snd p)) d
      | _ \<Rightarrow> [])"

section \<open>URLs\<close>

record url_parts =
  up_scheme :: string
  up_netloc :: string
  up_path :: string
  up_query :: string
  up_fragment :: string
  up_password :: "string option"

record url_lib =
  urlsplit :: "string \<Rightarrow> url_parts option"
  urlunsplit :: "url_parts \<Rightarrow> string"
  unquote :: "string \<Rightarrow> string"

text \<open>\<open>s.split(sep)\<close> and \<open>s.replace(old, new, 1)\<close>\<close>

fun split_on :: "char \<Rightarrow> string \<Rightarrow> string list" where
  "split_on sep [] = [[]]"
| "split_on sep (c # cs) =
     (if c = sep then [] # split_on sep cs
      else (case split_on sep cs of [] \<Rightarrow> [[c]] | p # ps \<Rightarrow> (c # p) # ps))"

fun replace_first :: "string \<Rightarrow> string \<Rightarrow> string \<Rightarrow> string" where
  "replace_first old new [] = []"
| "replace_first old new (c # cs) =
     (if take (length old) (c # cs) = old then new @ drop (length old) (c # cs) else c # replace_first old new cs)"

definition mask_segment :: "url_lib \<Rightarrow> string \<Rightarrow> string" where
  "mask_segment lib seg =
     (let key = takeWhile (\<lambda>c. c \<noteq> CHR ''='') seg
      in if CHR ''='' \<in> set seg \<and> is_secret_param (unquote lib key) then key @ ''='' @ MASK else seg)"

definition secret_segment :: "url_lib \<Rightarrow> string \<Rightarrow> bool" where
  "secret_segment lib seg \<longleftrightarrow>
     CHR ''='' \<in> set seg \<and> is_secret_param (unquote lib (takeWhile (\<lambda>c. c \<noteq> CHR ''='') seg))"

definition redact_secret_query :: "url_lib \<Rightarrow> string \<Rightarrow> string" where
  "redact_secret_query lib url =
     (case urlsplit lib url of
        None \<Rightarrow> url
      | Some parsed \<Rightarrow>
          (let pw = (case up_password parsed of None \<Rightarrow> [] | Some p \<Rightarrow> p);
               netloc = (if pw \<noteq> [] then replace_first ('':'' @ pw @ ''@'') ('':'' @ MASK @ ''@'') (up_netloc parsed)
                         else up_netloc parsed);
               segments = split_on (CHR ''&'') (up_query parsed)
           in if pw = [] \<and> \<not> list_ex (secret_segment lib) segments then url
              else urlunsplit lib (parsed\<lparr>up_netloc := netloc,
                     up_query := join_with ''&'' (map (mask_segment lib) segments)\<rparr>)))"

section \<open>The evidence projection\<close>

definition hidden :: "string \<Rightarrow> string option \<Rightarrow> bool" where
  "hidden tool key =
     (case key of
        None \<Rightarrow> False
      | Some k \<Rightarrow> \<not> is_known_safe tool k \<and> (is_opaque_value tool k \<or> is_secret_param k))"

fun redact_evidence_value :: "url_lib \<Rightarrow> string \<Rightarrow> string option \<Rightarrow> val \<Rightarrow> val" where
  "redact_evidence_value lib tool key (VDict d) =
     (if hidden tool key then VStr MASK
      else VDict (map (\<lambda>p. (fst p, redact_evidence_value lib tool (Some (fst p)) (snd p))) d))"
| "redact_evidence_value lib tool key (VList xs) =
     (if hidden tool key then VStr MASK else VList (map (redact_evidence_value lib tool None) xs))"
| "redact_evidence_value lib tool key (VStr s) =
     (if hidden tool key then VStr MASK else VStr (redact_secret_query lib s))"
| "redact_evidence_value lib tool key v = (if hidden tool key then VStr MASK else v)"

definition redact_result_data :: "url_lib \<Rightarrow> string \<Rightarrow> val \<Rightarrow> val" where
  "redact_result_data lib tool data = redact_evidence_value lib tool None data"

definition redact_evidence_parameters :: "url_lib \<Rightarrow> string \<Rightarrow> val \<Rightarrow> val" where
  "redact_evidence_parameters lib tool parameters =
     (case parameters of
        VDict d \<Rightarrow> VDict (map (\<lambda>p. (fst p, redact_evidence_value lib tool (Some (fst p)) (snd p))) d)
      | v \<Rightarrow> redact_evidence_value lib tool None v)"

section \<open>The trace projection\<close>

definition is_secret_value :: "string \<Rightarrow> string \<Rightarrow> bool" where
  "is_secret_value tool param \<longleftrightarrow> \<not> is_known_safe tool param \<and> (is_secret_param param \<or> is_opaque_value tool param)"

fun parameterize_nested :: "string \<Rightarrow> val \<Rightarrow> val" where
  "parameterize_nested tool (VDict d) =
     VDict (map (\<lambda>p. (fst p, if is_secret_param (fst p) \<or> is_opaque_value tool (fst p)
                             then VStr TRACE_CREDENTIAL_PLACEHOLDER else parameterize_nested tool (snd p))) d)"
| "parameterize_nested tool (VList xs) = VList (map (parameterize_nested tool) xs)"
| "parameterize_nested tool v = v"

definition parameterize_for_trace :: "string \<Rightarrow> val \<Rightarrow> json_obj" where
  "parameterize_for_trace tool parameters =
     (case parameters of
        VDict d \<Rightarrow> map (\<lambda>p. (fst p, if is_secret_value tool (fst p) then VStr TRACE_CREDENTIAL_PLACEHOLDER
                                    else parameterize_nested tool (snd p))) d
      | _ \<Rightarrow> [])"

section \<open>What the projections hide\<close>

text \<open>Every entry whose key the predicate selects holds the given text, at any depth.\<close>

fun entries_masked :: "(string \<Rightarrow> bool) \<Rightarrow> string \<Rightarrow> val \<Rightarrow> bool" where
  "entries_masked sel hole (VDict d) =
     list_all (\<lambda>p. (sel (fst p) \<longrightarrow> snd p = VStr hole) \<and> entries_masked sel hole (snd p)) d"
| "entries_masked sel hole (VList xs) = list_all (entries_masked sel hole) xs"
| "entries_masked sel hole v = True"

lemma evidence_masked: "entries_masked (\<lambda>k. hidden tool (Some k)) MASK (redact_evidence_value lib tool key v)"
proof (induction lib tool key v rule: redact_evidence_value.induct)
  case (1 lib tool key d)
  have "redact_evidence_value lib tool (Some k) x = VStr MASK" if "hidden tool (Some k)" for k x
    using that by (cases x) simp_all
  with 1 show ?case by (auto simp: list_all_iff)
qed (auto simp: list_all_iff)

lemma trace_nested_masked:
  "entries_masked (\<lambda>k. is_secret_param k \<or> is_opaque_value tool k) TRACE_CREDENTIAL_PLACEHOLDER (parameterize_nested tool v)"
  by (induction tool v rule: parameterize_nested.induct) (auto simp: list_all_iff)

lemma trace_nested_unchanged:
  "entries_masked (\<lambda>k. is_secret_param k \<or> is_opaque_value tool k) TRACE_CREDENTIAL_PLACEHOLDER v \<Longrightarrow> parameterize_nested tool v = v"
proof (induction tool v rule: parameterize_nested.induct)
  case (1 tool d)
  have "(if is_secret_param (fst p) \<or> is_opaque_value tool (fst p) then VStr TRACE_CREDENTIAL_PLACEHOLDER
          else parameterize_nested tool (snd p)) = snd p" if "p \<in> set d" for p
    using "1.IH" [OF that] "1.prems" that by (auto simp: list_all_iff)
  then show ?case by (auto simp: map_idI)
next
  case (2 tool xs)
  then show ?case by (auto simp: list_all_iff map_idI)
qed auto

text \<open>
  C18. What the three projections of a call's parameters hide. On a card every value is the mask unless
  its field is listed as safe, and then it is the value itself. In an evidence frame every entry, at
  any depth, whose key names a secret or an opaque field of the tool and is not listed is the mask. In
  an authoring trace the same holds of the placeholder, and below the top level even for listed names;
  parameterizing a trace again changes nothing. All three keep the keys and their order.
\<close>

theorem secret_parameters_masked:
  "map fst (redact_parameters tool (VDict d)) = map fst d
   \<and> (\<forall>i<length d. snd (redact_parameters tool (VDict d) ! i) =
        (if is_known_safe tool (fst (d ! i)) then snd (d ! i) else VStr MASK))
   \<and> (\<exists>e. redact_evidence_parameters lib tool (VDict d) = VDict e \<and> map fst e = map fst d
        \<and> entries_masked (\<lambda>k. hidden tool (Some k)) MASK (VDict e))
   \<and> map fst (parameterize_for_trace tool (VDict d)) = map fst d
   \<and> entries_masked (is_secret_value tool) TRACE_CREDENTIAL_PLACEHOLDER (VDict (parameterize_for_trace tool (VDict d)))
   \<and> list_all (\<lambda>p. entries_masked (\<lambda>k. is_secret_param k \<or> is_opaque_value tool k) TRACE_CREDENTIAL_PLACEHOLDER (snd p))
        (parameterize_for_trace tool (VDict d))
   \<and> parameterize_for_trace tool (VDict (parameterize_for_trace tool (VDict d))) = parameterize_for_trace tool (VDict d)"
proof -
  let ?sel = "\<lambda>k. is_secret_param k \<or> is_opaque_value tool k"
  let ?t = "parameterize_for_trace tool (VDict d)"
  have weaken: "entries_masked (is_secret_value tool) m v" if "entries_masked ?sel m v" for m v
    using that by (induction "is_secret_value tool" m v rule: entries_masked.induct) (auto simp: list_all_iff is_secret_value_def)
  have "entries_masked (\<lambda>k. hidden tool (Some k)) MASK (VDict (map (\<lambda>p. (fst p, redact_evidence_value lib tool (Some (fst p)) (snd p))) d))"
    using evidence_masked [of tool lib None "VDict d"] by (simp add: hidden_def)
  moreover have nested: "list_all (\<lambda>p. entries_masked ?sel TRACE_CREDENTIAL_PLACEHOLDER (snd p)) ?t"
    using trace_nested_masked [of tool] by (auto simp: parameterize_for_trace_def list_all_iff)
  moreover have "entries_masked (is_secret_value tool) TRACE_CREDENTIAL_PLACEHOLDER (VDict ?t)"
    using trace_nested_masked [of tool] by (auto simp: parameterize_for_trace_def list_all_iff intro: weaken)
  moreover have "parameterize_for_trace tool (VDict ?t) = ?t"
  proof -
    have "(if is_secret_value tool (fst p) then VStr TRACE_CREDENTIAL_PLACEHOLDER else parameterize_nested tool (snd p)) = snd p"
      if "p \<in> set ?t" for p
      using that nested trace_nested_unchanged [of tool "snd p"] by (auto simp: list_all_iff parameterize_for_trace_def split: if_splits)
    then show ?thesis unfolding parameterize_for_trace_def [of tool "VDict ?t"] by (auto simp: map_idI)
  qed
  ultimately show ?thesis
    by (auto simp: redact_parameters_def should_mask_def redact_evidence_parameters_def parameterize_for_trace_def [of tool "VDict d"] comp_def)
qed

theorem secret_parameters_masked_witness:
  "redact_parameters ''k8s.delete_pod'' (VDict [(''name'', VStr ''p1''), (''grace'', VInt 5)]) = [(''name'', VStr ''p1''), (''grace'', VStr MASK)]"
proof -
  let ?d = "[(''name'', VStr ''p1''), (''grace'', VInt 5)]"
  let ?r = "redact_parameters ''k8s.delete_pod'' (VDict ?d)"
  note m = secret_parameters_masked [of "''k8s.delete_pod''" ?d "\<lparr>urlsplit = \<lambda>_. None, urlunsplit = up_path, unquote = id\<rparr>"]
  have safe: "is_known_safe ''k8s.delete_pod'' ''name''" "\<not> is_known_safe ''k8s.delete_pod'' ''grace''"
    by (simp_all add: is_known_safe_def field_name_def KNOWN_SAFE_FIELDS_def)
  have keys: "map fst ?r = map fst ?d" using m by (elim conjE)
  have "length (map fst ?r) = length (map fst ?d)" by (simp only: keys)
  then have len: "length ?r = 2" by (simp only: length_map) simp
  have each: "\<forall>i<length ?d. snd (?r ! i) = (if is_known_safe ''k8s.delete_pod'' (fst (?d ! i)) then snd (?d ! i) else VStr MASK)"
    using m by (elim conjE)
  have "snd (?r ! 0) = VStr ''p1''" "snd (?r ! 1) = VStr MASK"
    using each [rule_format, of 0] each [rule_format, of 1] safe by simp_all
  moreover obtain x y where "?r = [x, y]" using len by (auto simp: length_Suc_conv numeral_2_eq_2)
  ultimately show ?thesis using keys by (cases x; cases y) simp
qed

end
