(* ===== verification/Kernel_Middleware.thy ===== *)
theory Kernel_Middleware
  imports Flow_Authority Agent_Invocation Secret_Params Redaction
begin

text \<open>
  The kernel middleware of the agent (\<open>agent_service/services/kernel_middleware.py\<close>): which tool call
  runs without asking, the turn that stops for a target authorization, and the evidence frames with
  the release of held secrets. Context variables are arguments or state; the agent framework's next
  handler is an argument or a step of the environment. The token-usage middleware only counts.
\<close>

section \<open>The allow-list\<close>

definition KERNEL_LOCAL_TOOL_NAMES :: "string list" where
  "KERNEL_LOCAL_TOOL_NAMES =
     [''TaskCreate'', ''TaskGet'', ''TaskList'', ''TaskUpdate'', ''GenerateStructuredOutput'', ''CompressContext'']"

definition DEFAULT_AUTO_ALLOWED_TOOLS :: "string list" where
  "DEFAULT_AUTO_ALLOWED_TOOLS =
     [''k8s.list_pods'', ''k8s.get_pod'', ''k8s.get_events'', ''k8s.get_pod_logs'', ''skills.search'', ''skills.get'', ''skills.list'',
      ''incidents.list'', ''incidents.get'', ''secrets.generate_password'', ''web.navigate'', ''web.snapshot'', ''web.screenshot'',
      ''web.fill_credential'', ''web.extract'', ''web.wait_for'', ''web.hover'', ''web.scroll'', ''web.switch_frame'']"

definition listed_names :: "string \<Rightarrow> string list" where
  "listed_names raw = filter (\<lambda>p. p \<noteq> []) (map strip (split_on (CHR '','') raw))"

definition load_auto_allowed_tools :: "string option \<Rightarrow> string option \<Rightarrow> string list" where
  "load_auto_allowed_tools raw extra_raw =
     map under ((case raw of None \<Rightarrow> DEFAULT_AUTO_ALLOWED_TOOLS | Some r \<Rightarrow> listed_names r)
                @ (case extra_raw of None \<Rightarrow> [] | Some r \<Rightarrow> listed_names r))"

section \<open>The permission gate\<close>

text \<open>\<open>Builtin\<close>: the framework's own resolution decides.\<close>

datatype permission = Allow | Deny | Ask | Builtin

text \<open>A tool as the gate sees it; tools of the gateway carry their dotted name.\<close>

record kernel_tool =
  kt_name :: string
  kt_read_only :: bool
  kt_gateway_name :: "string option"

definition kernel_tool_of :: "function_tool \<Rightarrow> kernel_tool" where
  "kernel_tool_of t = \<lparr>kt_name = tl_name t, kt_read_only = tl_read_only t, kt_gateway_name = Some (tl_gateway_name t)\<rparr>"

type_synonym 's flow_signer = "tool_call \<Rightarrow> string \<Rightarrow> 's \<Rightarrow> (sign_error + json_obj option) \<times> 's"

text \<open>
  \<open>GatewayPermissionMiddleware.on_check_permission\<close>. \<open>stopped\<close> is the bound guard's answer (false without
  a guard), \<open>confirmed\<close> the call's state \<open>ALLOWED\<close>; an exception of the signer leaves the gate.
\<close>

definition check_permission ::
  "string list \<Rightarrow> 's flow_signer option \<Rightarrow> bool \<Rightarrow> kernel_tool option \<Rightarrow> tool_call \<Rightarrow> bool \<Rightarrow> 's \<Rightarrow> (sign_error + permission) \<times> 's" where
  "check_permission allow signer stopped tool tc confirmed s =
     (let is_local = (case tool of None \<Rightarrow> False | Some t \<Rightarrow> kt_name t \<in> set KERNEL_LOCAL_TOOL_NAMES);
          ro = (case tool of None \<Rightarrow> False | Some t \<Rightarrow> kt_read_only t)
      in if \<not> is_local \<and> \<not> ro \<and> stopped then (Inr Deny, s)
         else if confirmed then (Inr Builtin, s)
         else if is_local then (Inr Allow, s)
         else if ro \<and> (case tool of None \<Rightarrow> False | Some t \<Rightarrow> kt_name t \<in> set allow) then (Inr Allow, s)
         else (case tool of
                 None \<Rightarrow> (Inr Builtin, s)
               | Some t \<Rightarrow>
                   (case (signer, kt_gateway_name t) of
                      (Some sign, Some g) \<Rightarrow>
                        if g \<in> set BROWSER_WRITE_TOOLS \<and> \<not> kt_read_only t
                        then (case sign tc g s of
                                (Inl e, s') \<Rightarrow> (Inl e, s')
                              | (Inr (Some e), s') \<Rightarrow> (Inr Allow, s')
                              | (Inr None, s') \<Rightarrow> (Inr Ask, s'))
                        else (Inr Ask, s)
                    | _ \<Rightarrow> (Inr Ask, s))))"

definition guard_says_stopped :: "run_guard option \<Rightarrow> latch \<Rightarrow> bool" where
  "guard_says_stopped g marks = (case g of None \<Rightarrow> False | Some x \<Rightarrow> guard_stopped x marks)"

text \<open>The kernel arms the gate with \<open>_sign_flow_execution\<close>.\<close>

definition gate ::
  "sign_env \<Rightarrow> flow_turn \<Rightarrow> latch \<Rightarrow> string list \<Rightarrow> kernel_tool option \<Rightarrow> tool_call \<Rightarrow> bool \<Rightarrow> kernel_flow \<Rightarrow>
   (sign_error + permission) \<times> kernel_flow" where
  "gate env t marks allow tool tc confirmed kf =
     check_permission allow (Some (sign_flow_execution env t marks)) (guard_says_stopped (ft_guard t) marks) tool tc confirmed kf"

text \<open>
  C38. A mutating tool of the gateway runs without a human's confirmation only under a flow authority:
  for a tool built from a definition that is not of the read tier, outside the kernel's own tool names,
  whatever the allow-list says, the gate answers allow for an unconfirmed call exactly when the tool
  is a browser write and the signer signed this call under a live flow approval whose flow is still
  the bound one, and the signed request is then filed under the call's id; it denies every call,
  confirmed or not, once the run is stopped; and in every other case it asks.
\<close>

theorem mutating_call_needs_authority:
  assumes "function_tool_of accepts d = Some [ft]" and "dget d ''risk_level'' \<noteq> Some (VStr ''read'')"
    and "tl_name ft \<notin> set KERNEL_LOCAL_TOOL_NAMES"
    and "gate env t marks allow (Some (kernel_tool_of ft)) tc confirmed kf = (Inr p, kf')"
  shows "(guard_says_stopped (ft_guard t) marks \<longrightarrow> p = Deny)
    \<and> (p = Deny \<longrightarrow> guard_says_stopped (ft_guard t) marks)
    \<and> (confirmed \<and> p \<noteq> Deny \<longrightarrow> p = Builtin) \<and> (\<not> confirmed \<longrightarrow> p \<noteq> Builtin)
    \<and> (p = Allow \<longrightarrow>
         tl_gateway_name ft \<in> set BROWSER_WRITE_TOOLS
         \<and> (\<exists>fa c e reqs. dget (kf_approvals kf) (ft_session t) = Some fa \<and> \<not> approval_expired (ft_mono t) fa
              \<and> dget (kf_contexts kf) (ft_session t) = Some c \<and> context_identity c = approval_identity fa
              \<and> sign_flow_execution env t marks tc (tl_gateway_name ft) kf = (Inr (Some e), kf')
              \<and> kf_requests kf' = Some reqs \<and> dget reqs (tc_id tc) = Some e))
    \<and> (p \<noteq> Allow \<longrightarrow> kf_approvals kf' = kf_approvals kf \<and> kf_requests kf' = kf_requests kf)"
proof -
  have ro: "\<not> tl_read_only ft" using assms(1,2)
    by (auto simp: function_tool_of_def get_none_def Let_def split: option.splits val.splits if_splits)
  let ?S = "sign_flow_execution env t marks tc (tl_gateway_name ft) kf"
  let ?st = "guard_says_stopped (ft_guard t) marks"
  have cases: "?st \<and> p = Deny \<and> kf' = kf \<or> \<not> ?st \<and> confirmed \<and> p = Builtin \<and> kf' = kf
      \<or> \<not> ?st \<and> \<not> confirmed \<and> p = Ask \<and> (kf' = kf \<or> ?S = (Inr None, kf'))
      \<or> \<not> ?st \<and> \<not> confirmed \<and> p = Allow \<and> tl_gateway_name ft \<in> set BROWSER_WRITE_TOOLS \<and> (\<exists>e. ?S = (Inr (Some e), kf'))"
    using assms(3,4) ro
    by (auto simp: gate_def check_permission_def kernel_tool_of_def Let_def split: if_splits prod.splits sum.splits option.splits)
  have none: "kf' = kf" if "?S = (Inr None, kf')"
    using that by (auto simp: sign_flow_execution_def Let_def split: if_splits option.splits sum.splits sign_error.splits prod.splits)
  show ?thesis
  proof (cases "p = Allow")
    case True
    with cases obtain e where e: "?S = (Inr (Some e), kf')" and g: "tl_gateway_name ft \<in> set BROWSER_WRITE_TOOLS" by auto
    from e obtain fa c reqs where "dget (kf_approvals kf) (ft_session t) = Some fa" "\<not> approval_expired (ft_mono t) fa"
        "dget (kf_contexts kf) (ft_session t) = Some c" "context_identity c = approval_identity fa"
        "kf_requests kf' = Some (dset (tc_id tc) e reqs)"
      by (elim sign_flow_Some) (metis (no_types, lifting) kernel_flow.select_convs(3) kernel_flow.surjective
          kernel_flow.update_convs(3,4))
    with e g cases True show ?thesis by auto
  next
    case False
    with cases none show ?thesis by auto
  qed
qed

section \<open>The authorization turn\<close>

text \<open>
  One \<open>AuthorizationTurn\<close> is shared by the tasks of a turn. Each tool call of the turn goes through the
  permission hook and the acting hook of \<open>TargetAuthorizationMiddleware\<close>; a step is what runs between two
  suspension points, and the tasks interleave freely. \<open>Fresh\<close>: not seen yet (a confirmed call of a
  resumed turn may act from here); \<open>Checking\<close>: holds the lock and waits for the inner decision;
  \<open>Granted\<close>: an allow keeps the lock as its lease; \<open>Acting\<close>: the tool is dispatched; \<open>Refusing\<close>: answers
  that the turn stopped; \<open>Over\<close>: done, denied or parked; \<open>Cancelled\<close>: its task was cancelled while it
  waited for the lock, or after the allow and before acting, which leaves the lock held until the runtime
  scope closes the turn. The log records dispatches, the first stop and the close.
\<close>

datatype call_phase = Fresh | Checking | Granted | Acting | Refusing | Over | Cancelled

datatype turn_event = Dispatched string | TurnStopped string | TurnClosed

record auth_turn =
  tn_lock :: bool
  tn_lease :: "string option"
  tn_stopped :: bool
  tn_closed :: bool
  tn_challenge :: "json_obj option"
  tn_phase :: "string \<Rightarrow> call_phase"
  tn_log :: "turn_event list"

definition new_turn :: auth_turn where
  "new_turn = \<lparr>tn_lock = False, tn_lease = None, tn_stopped = False, tn_closed = False, tn_challenge = None,
     tn_phase = (\<lambda>_. Fresh), tn_log = []\<rparr>"

definition blocked :: "auth_turn \<Rightarrow> bool" where
  "blocked t \<longleftrightarrow> tn_stopped t \<or> tn_closed t"

definition turn_release :: "auth_turn \<Rightarrow> auth_turn" where
  "turn_release t = t\<lparr>tn_lease := None, tn_lock := False\<rparr>"

definition turn_close :: "auth_turn \<Rightarrow> auth_turn" where
  "turn_close t = turn_release (t\<lparr>tn_closed := True, tn_log := tn_log t @ [TurnClosed]\<rparr>)"

definition to_phase :: "string \<Rightarrow> call_phase \<Rightarrow> auth_turn \<Rightarrow> auth_turn" where
  "to_phase c p t = t\<lparr>tn_phase := (tn_phase t)(c := p)\<rparr>"

definition grant :: "string \<Rightarrow> auth_turn \<Rightarrow> auth_turn" where
  "grant c t = to_phase c Granted (t\<lparr>tn_lease := Some c\<rparr>)"

definition leave :: "string \<Rightarrow> auth_turn \<Rightarrow> auth_turn" where
  "leave c t = to_phase c Over (turn_release t)"

text \<open>
  The challenge of a gateway result: exactly an error of this tool with the reserved code and metadata
  that validates (the argument) and has not expired; anything else stops the turn without a challenge.
\<close>

definition challenge_of :: "(val \<Rightarrow> (json_obj \<times> int option) option) \<Rightarrow> int \<Rightarrow> string \<Rightarrow> json_obj \<Rightarrow> json_obj option" where
  "challenge_of valid now gateway_name result =
     (if get_none result ''status'' = VStr ''error'' \<and> get_none result ''tool_name'' = VStr gateway_name
         \<and> (case get_none result ''error'' of
               VDict e \<Rightarrow> get_none e ''code'' = VStr ''TARGET_AUTHORIZATION_REQUIRED'' | _ \<Rightarrow> False)
      then (case valid (get_none result ''authorization_required'') of
              None \<Rightarrow> None
            | Some (ch, expires) \<Rightarrow> (case expires of None \<Rightarrow> Some ch | Some x \<Rightarrow> if x \<le> now then None else Some ch))
      else None)"

definition asks_authorization :: "json_obj \<Rightarrow> bool" where
  "asks_authorization result \<longleftrightarrow>
     dhas result ''authorization_required''
     \<or> (case get_none result ''error'' of
          VDict e \<Rightarrow> get_none e ''code'' = VStr ''TARGET_AUTHORIZATION_REQUIRED'' | _ \<Rightarrow> False)"

definition turn_stop :: "string \<Rightarrow> json_obj option \<Rightarrow> auth_turn \<Rightarrow> auth_turn" where
  "turn_stop c ch t =
     (if tn_stopped t then t
      else t\<lparr>tn_stopped := True, tn_challenge := ch, tn_log := tn_log t @ [TurnStopped c]\<rparr>)"

definition begin_act :: "string \<Rightarrow> auth_turn \<Rightarrow> auth_turn" where
  "begin_act c t =
     (let t' = (if tn_lease t = Some c then t else t\<lparr>tn_lock := True, tn_lease := Some c\<rparr>)
      in if blocked t' then to_phase c Refusing t'
         else to_phase c Acting (t'\<lparr>tn_log := tn_log t' @ [Dispatched c]\<rparr>))"

inductive turn_step :: "auth_turn \<Rightarrow> auth_turn \<Rightarrow> bool" where
  check_begins: "tn_phase t c = Fresh \<Longrightarrow> \<not> tn_lock t \<Longrightarrow> \<not> blocked t \<Longrightarrow>
      turn_step t (to_phase c Checking (t\<lparr>tn_lock := True\<rparr>))"
| check_blocked: "tn_phase t c = Fresh \<Longrightarrow> \<not> tn_lock t \<Longrightarrow> blocked t \<Longrightarrow> turn_step t (grant c (t\<lparr>tn_lock := True\<rparr>))"
| check_blocked_external: "tn_phase t c = Fresh \<Longrightarrow> \<not> tn_lock t \<Longrightarrow> blocked t \<Longrightarrow> turn_step t (leave c t)"
| check_allows: "tn_phase t c = Checking \<Longrightarrow> turn_step t (grant c t)"
| check_ends: "tn_phase t c = Checking \<Longrightarrow> turn_step t (leave c t)"
| act_begins: "tn_phase t c = Fresh \<or> tn_phase t c = Granted \<Longrightarrow> tn_lease t = Some c \<or> \<not> tn_lock t \<Longrightarrow>
      turn_step t (begin_act c t)"
| act_stops: "tn_phase t c = Acting \<Longrightarrow> asks_authorization result \<Longrightarrow>
      turn_step t (turn_stop c (challenge_of valid now gateway_name result) t)"
| act_ends: "tn_phase t c = Acting \<or> tn_phase t c = Refusing \<Longrightarrow> turn_step t (leave c t)"
| call_cancelled: "tn_phase t c = Fresh \<or> tn_phase t c = Granted \<Longrightarrow> turn_step t (to_phase c Cancelled t)"
| turn_closes: "turn_step t (turn_close t)"

inductive turn_reachable :: "auth_turn \<Rightarrow> bool" where
  at_start: "turn_reachable new_turn"
| after_step: "turn_reachable t \<Longrightarrow> turn_step t t' \<Longrightarrow> turn_reachable t'"

lemmas turn_defs = to_phase_def grant_def leave_def turn_release_def turn_close_def turn_stop_def begin_act_def blocked_def Let_def

definition busy :: "call_phase \<Rightarrow> bool" where
  "busy p \<longleftrightarrow> p \<in> {Checking, Granted, Acting, Refusing}"

text \<open>
  As long as the turn is open the lock is held exactly by its one busy call, whose lease it is once granted,
  or by the call that was cancelled with the lease.
\<close>

definition held_by :: "string option \<Rightarrow> auth_turn \<Rightarrow> bool" where
  "held_by h t \<longleftrightarrow>
     tn_lock t = (h \<noteq> None) \<and> (\<forall>c. h \<noteq> Some c \<longrightarrow> \<not> busy (tn_phase t c))
     \<and> (\<forall>c. h = Some c \<longrightarrow> busy (tn_phase t c) \<or> tn_phase t c = Cancelled)
     \<and> tn_lease t = (case h of None \<Rightarrow> None | Some c \<Rightarrow> if tn_phase t c = Checking then None else Some c)"

definition turn_inv :: "auth_turn \<Rightarrow> bool" where
  "turn_inv t \<longleftrightarrow> (\<exists>h. held_by h t)"

lemma busy_simps [simp]:
  "\<not> busy Fresh" "\<not> busy Over" "\<not> busy Cancelled" "busy Checking" "busy Granted" "busy Acting" "busy Refusing"
  by (simp_all add: busy_def)

lemma held_by_stop: "held_by h (turn_stop c ch t) = held_by h t"
  by (cases "tn_stopped t"; cases h) (simp_all add: held_by_def turn_stop_def)

lemma held_by_leave: "held_by (Some c) t \<Longrightarrow> held_by None (leave c t)"
  by (auto simp: held_by_def turn_defs)

lemma held_by_cancel:
  assumes "held_by h t" and "tn_phase t c = Fresh \<or> tn_phase t c = Granted"
  shows "held_by h (to_phase c Cancelled t)"
proof (cases "h = Some c")
  case True
  then show ?thesis using assms by (auto simp: held_by_def to_phase_def)
next
  case False
  then show ?thesis using assms(1) by (cases h) (auto simp: held_by_def to_phase_def)
qed

lemma one_busy_call: "turn_inv t \<Longrightarrow> busy (tn_phase t c) \<Longrightarrow> tn_lock t \<and> (\<forall>d. busy (tn_phase t d) \<longrightarrow> d = c)"
  unfolding turn_inv_def held_by_def by (metis option.distinct(1) option.inject)

lemma lease_of_granted:
  assumes "turn_inv t" and "tn_phase t c = Granted"
  shows "tn_lease t = Some c"
proof -
  from assms(1) obtain h where h: "held_by h t" by (auto simp: turn_inv_def)
  moreover have "busy (tn_phase t c)" by (simp add: assms(2))
  ultimately have "h = Some c" unfolding held_by_def by blast
  with h assms(2) show ?thesis by (simp add: held_by_def)
qed

lemma turn_step_open:
  assumes "turn_step t t'" and "\<not> tn_closed t'" and "turn_inv t"
  shows "turn_inv t'"
proof -
  from assms(3) obtain h where h: "held_by h t" by (auto simp: turn_inv_def)
  have none: "\<not> tn_lock t \<Longrightarrow> h = None" and some: "busy (tn_phase t c) \<Longrightarrow> h = Some c" for c
    using h by (auto simp: held_by_def)
  from assms(1) have "\<exists>h'. held_by h' t'"
  proof (cases rule: turn_step.cases)
    case (check_begins c)
    then show ?thesis using h none by (intro exI [of _ "Some c"]) (auto simp: held_by_def turn_defs)
  next
    case (check_blocked c)
    then show ?thesis using h none by (intro exI [of _ "Some c"]) (auto simp: held_by_def turn_defs)
  next
    case (check_blocked_external c)
    then show ?thesis using h none by (intro exI [of _ None]) (auto simp: held_by_def turn_defs)
  next
    case (check_allows c)
    then show ?thesis using h some [of c] by (intro exI [of _ "Some c"]) (auto simp: held_by_def turn_defs)
  next
    case (check_ends c)
    then show ?thesis using h some [of c] held_by_leave by simp blast
  next
    case (act_begins c)
    have "h = Some c \<and> tn_phase t c = Granted \<or> h = None"
    proof (cases h)
      case (Some d)
      then have "tn_lock t" "tn_lease t = (if tn_phase t d = Checking then None else Some d)"
        "busy (tn_phase t d) \<or> tn_phase t d = Cancelled"
        using h by (simp_all add: held_by_def)
      with act_begins Some show ?thesis by (auto split: if_split_asm)
    qed simp
    then have "held_by (Some c) (begin_act c t)"
      using h by (elim disjE conjE) (simp_all add: held_by_def turn_defs)
    then show ?thesis using act_begins by blast
  next
    case (act_stops c)
    then show ?thesis using h by (intro exI [of _ h]) (simp add: held_by_stop)
  next
    case (act_ends c)
    then have "busy (tn_phase t c)" by (elim disjE) simp_all
    then show ?thesis using h some [of c] act_ends held_by_leave by blast
  next
    case (call_cancelled c)
    then show ?thesis using held_by_cancel [OF h] by blast
  next
    case turn_closes
    then show ?thesis using assms(2) by (simp add: turn_defs)
  qed
  then show ?thesis by (simp add: turn_inv_def)
qed

definition is_dispatch :: "turn_event \<Rightarrow> bool" where
  "is_dispatch e \<longleftrightarrow> (\<exists>c. e = Dispatched c)"

lemma is_dispatch_simps [simp]: "is_dispatch (Dispatched c)" "\<not> is_dispatch (TurnStopped c)" "\<not> is_dispatch TurnClosed"
  by (simp_all add: is_dispatch_def)

definition quiet_after :: "turn_event list \<Rightarrow> bool" where
  "quiet_after es \<longleftrightarrow> (\<forall>pre e post. es = pre @ e # post \<and> \<not> is_dispatch e \<longrightarrow> list_all (\<lambda>x. \<not> is_dispatch x) post)"

lemma quiet_after_end: "quiet_after es \<Longrightarrow> \<not> is_dispatch e \<Longrightarrow> quiet_after (es @ [e])"
proof (unfold quiet_after_def, intro allI impI)
  fix pre x post
  assume q: "\<forall>pre e post. es = pre @ e # post \<and> \<not> is_dispatch e \<longrightarrow> list_all (\<lambda>x. \<not> is_dispatch x) post"
    and e: "\<not> is_dispatch e" and x: "es @ [e] = pre @ x # post \<and> \<not> is_dispatch x"
  show "list_all (\<lambda>x. \<not> is_dispatch x) post"
  proof (cases post rule: rev_cases)
    case (snoc post' y)
    with x have "es = pre @ x # post'" "y = e" by auto
    with q e x snoc show ?thesis by auto
  qed simp
qed

lemma quiet_after_dispatches: "list_all is_dispatch es \<Longrightarrow> quiet_after es"
  by (auto simp: quiet_after_def)

text \<open>The log: nothing is dispatched once it ends, no call twice, and an unblocked turn has only dispatched.\<close>

definition log_inv :: "auth_turn \<Rightarrow> bool" where
  "log_inv t \<longleftrightarrow>
     quiet_after (tn_log t) \<and> (\<not> blocked t \<longrightarrow> list_all is_dispatch (tn_log t)) \<and> distinct (filter is_dispatch (tn_log t))
     \<and> (\<forall>c. Dispatched c \<in> set (tn_log t) \<longrightarrow> tn_phase t c = Acting \<or> tn_phase t c = Over)"

lemma log_inv_step:
  assumes "turn_step t t'" and "log_inv t"
  shows "log_inv t'"
  using assms
proof (cases rule: turn_step.cases)
  case (act_begins c)
  then have "Dispatched c \<notin> set (tn_log t)" using assms(2) by (auto simp: log_inv_def)
  with act_begins assms(2) show ?thesis
    by (auto simp: log_inv_def turn_defs intro: quiet_after_dispatches)
next
  case (call_cancelled c)
  then have "Dispatched c \<notin> set (tn_log t)" using assms(2) by (auto simp: log_inv_def)
  with call_cancelled assms(2) show ?thesis by (auto simp: log_inv_def turn_defs)
next
  case (act_stops c)
  then show ?thesis using assms(2) by (auto simp: log_inv_def turn_defs intro: quiet_after_end)
next
  case turn_closes
  then show ?thesis using assms(2) by (auto simp: log_inv_def turn_defs intro: quiet_after_end)
qed (use assms(2) in \<open>auto simp: log_inv_def turn_defs\<close>)

lemma turn_reachable_inv: "turn_reachable t \<Longrightarrow> log_inv t \<and> (\<not> tn_closed t \<longrightarrow> turn_inv t)"
proof (induction rule: turn_reachable.induct)
  case at_start
  then show ?case by (auto simp: new_turn_def log_inv_def turn_inv_def held_by_def quiet_after_def intro: exI [of _ None])
next
  case (after_step t t')
  have "\<not> tn_closed t' \<Longrightarrow> \<not> tn_closed t" using after_step.hyps(2) by cases (auto simp: turn_defs split: if_splits)
  with after_step show ?case using log_inv_step turn_step_open by blast
qed

text \<open>
  C30. A turn that stops for a target authorization dispatches nothing more: in every interleaving of
  the calls of a turn, after the event that stops or closes it no tool is dispatched, no call is
  dispatched twice, and while the turn is open at most one call is between its permission and its
  end, so that a call that discovers the missing authorization overlaps with no other.
\<close>

theorem stopped_turn_dispatches_nothing:
  assumes "turn_reachable t"
  shows "(\<forall>pre e post. tn_log t = pre @ e # post \<and> \<not> is_dispatch e \<longrightarrow> list_all (\<lambda>x. \<not> is_dispatch x) post)
    \<and> distinct (filter is_dispatch (tn_log t))
    \<and> (\<not> tn_closed t \<longrightarrow> (\<forall>c d. busy (tn_phase t c) \<and> busy (tn_phase t d) \<longrightarrow> c = d)
         \<and> (\<forall>c. busy (tn_phase t c) \<longrightarrow> tn_lock t))"
  using turn_reachable_inv [OF assms] one_busy_call [of t] unfolding log_inv_def quiet_after_def by metis

text \<open>The busy call can always be brought to its end without touching a call that has not begun.\<close>

lemma busy_call_ends:
  assumes "busy (tn_phase t h)" and "turn_inv t"
  shows "\<exists>t'. turn_step\<^sup>*\<^sup>* t t' \<and> \<not> tn_lock t' \<and> tn_closed t' = tn_closed t \<and> (\<forall>c. c \<noteq> h \<longrightarrow> tn_phase t' c = tn_phase t c)"
proof -
  have fin: "\<exists>t'. turn_step\<^sup>*\<^sup>* u t' \<and> \<not> tn_lock t' \<and> tn_closed t' = tn_closed u \<and> (\<forall>c. c \<noteq> h \<longrightarrow> tn_phase t' c = tn_phase u c)"
    if "tn_phase u h \<in> {Checking, Acting, Refusing}" for u
  proof -
    have "turn_step u (leave h u)" using that by (auto intro: turn_step.intros)
    then have "turn_step\<^sup>*\<^sup>* u (leave h u)" by (rule r_into_rtranclp)
    moreover have "\<not> tn_lock (leave h u) \<and> tn_closed (leave h u) = tn_closed u
        \<and> (\<forall>c. c \<noteq> h \<longrightarrow> tn_phase (leave h u) c = tn_phase u c)" by (simp add: turn_defs)
    ultimately show ?thesis by blast
  qed
  show ?thesis
  proof (cases "tn_phase t h = Granted")
    case True
    have "turn_step t (begin_act h t)"
      using True lease_of_granted [OF assms(2) True] by (intro act_begins) auto
    moreover have "tn_phase (begin_act h t) h \<in> {Checking, Acting, Refusing}" by (simp add: turn_defs)
    moreover have "tn_closed (begin_act h t) = tn_closed t \<and> (\<forall>c. c \<noteq> h \<longrightarrow> tn_phase (begin_act h t) c = tn_phase t c)"
      by (simp add: turn_defs)
    ultimately show ?thesis using fin [of "begin_act h t"] by (metis converse_rtranclp_into_rtranclp)
  qed (use assms(1) fin [of t] in \<open>auto simp: busy_def\<close>)
qed

text \<open>A call that was cancelled with the lease: nobody releases the lock before the turn closes.\<close>

definition abandoned :: "auth_turn \<Rightarrow> bool" where
  "abandoned t \<longleftrightarrow> (case tn_lease t of None \<Rightarrow> False | Some d \<Rightarrow> tn_phase t d = Cancelled)"

lemma fresh_call_runs:
  assumes "tn_phase t c = Fresh" and "\<not> tn_lock t"
  shows "\<exists>t'. turn_step\<^sup>*\<^sup>* t t' \<and> tn_phase t' c = Over \<and> tn_closed t' = tn_closed t"
proof -
  have "turn_step t (begin_act c t)" using assms by (intro act_begins) auto
  moreover have "turn_step (begin_act c t) (leave c (begin_act c t))" by (intro act_ends) (simp add: turn_defs)
  moreover have "tn_phase (leave c (begin_act c t)) c = Over \<and> tn_closed (leave c (begin_act c t)) = tn_closed t"
    by (simp add: turn_defs)
  ultimately show ?thesis by (meson converse_rtranclp_into_rtranclp rtranclp.rtrancl_refl)
qed

text \<open>
  C19. No call of an open turn is locked out: from every reachable state of the turn that is not
  closed, a call that has not begun can still be run to its end, the busy call first, if there is one,
  and without closing the turn, unless a call was cancelled between its allow and its act: that call keeps the
  lock until the runtime scope closes the turn, and then the waiting call ends.
\<close>

theorem no_call_locked_out:
  assumes "turn_reachable t" and "\<not> tn_closed t" and "tn_phase t c = Fresh"
  shows "\<exists>t'. turn_step\<^sup>*\<^sup>* t t' \<and> tn_phase t' c = Over \<and> (tn_closed t' \<longrightarrow> abandoned t)"
proof (cases "abandoned t")
  case True
  have "tn_phase (turn_close t) c = Fresh" "\<not> tn_lock (turn_close t)" using assms(3) by (simp_all add: turn_defs)
  from fresh_call_runs [OF this] turn_closes [of t] True show ?thesis by (meson converse_rtranclp_into_rtranclp)
next
  case False
  have "\<exists>u. turn_step\<^sup>*\<^sup>* t u \<and> \<not> tn_lock u \<and> \<not> tn_closed u \<and> tn_phase u c = Fresh"
  proof (cases "tn_lock t")
    case True
    have inv: "turn_inv t" using turn_reachable_inv [OF assms(1)] assms(2) by blast
    then obtain h where "held_by (Some h) t" using True by (auto simp: turn_inv_def held_by_def)
    then have h: "busy (tn_phase t h)" using False by (auto simp: held_by_def abandoned_def split: if_split_asm)
    then have "c \<noteq> h" using assms(3) by auto
    with busy_call_ends [OF h inv] assms(2,3) show ?thesis by metis
  qed (use assms(2,3) in blast)
  then obtain u where u: "turn_step\<^sup>*\<^sup>* t u" "\<not> tn_lock u" "\<not> tn_closed u" "tn_phase u c = Fresh" by blast
  from fresh_call_runs [OF u(4,2)] u(1,3) show ?thesis by (meson rtranclp_trans)
qed

definition demo_turn_begun :: auth_turn where
  "demo_turn_begun = begin_act ''a'' new_turn"

definition demo_turn_stopped :: auth_turn where
  "demo_turn_stopped = turn_stop ''a'' None demo_turn_begun"

lemma demo_turn_reachable: "turn_reachable demo_turn_begun" "turn_reachable demo_turn_stopped"
proof -
  have "turn_step new_turn demo_turn_begun" unfolding demo_turn_begun_def
    by (intro act_begins) (simp_all add: new_turn_def)
  then show b: "turn_reachable demo_turn_begun" using at_start after_step by blast
  have "turn_step demo_turn_begun (turn_stop ''a'' (challenge_of (\<lambda>_. None) 0 [] [(''authorization_required'', VNone)]) demo_turn_begun)"
    by (intro act_stops) (simp_all add: demo_turn_begun_def turn_defs new_turn_def asks_authorization_def dhas_def)
  moreover have "challenge_of (\<lambda>_. None) 0 [] [(''authorization_required'', VNone)] = None" by (simp add: challenge_of_def get_none_def)
  ultimately show "turn_reachable demo_turn_stopped" using b after_step unfolding demo_turn_stopped_def by metis
qed

theorem stopped_turn_dispatches_nothing_witness:
  "list_all (\<lambda>x. \<not> is_dispatch x) (tl (tl (tn_log demo_turn_stopped))) \<and> tn_log demo_turn_stopped = [Dispatched ''a'', TurnStopped ''a'']"
proof -
  have log: "tn_log demo_turn_stopped = [Dispatched ''a''] @ TurnStopped ''a'' # []"
    by (simp add: demo_turn_stopped_def demo_turn_begun_def turn_defs new_turn_def)
  have "list_all (\<lambda>x. \<not> is_dispatch x) ([] :: turn_event list)"
    using stopped_turn_dispatches_nothing [OF demo_turn_reachable(2)] log by fastforce
  then show ?thesis using log by simp
qed

theorem no_call_locked_out_witness:
  "\<exists>t'. turn_step\<^sup>*\<^sup>* demo_turn_stopped t' \<and> tn_phase t' ''b'' = Over \<and> \<not> tn_closed t'"
  using no_call_locked_out [OF demo_turn_reachable(2), of "''b''"]
  by (simp add: demo_turn_stopped_def demo_turn_begun_def turn_defs new_turn_def abandoned_def)

section \<open>Evidence frames\<close>

definition make_data_summary :: "nat \<Rightarrow> val \<Rightarrow> val" where
  "make_data_summary max_chars data =
     (if data = VNone then VNone
      else if length (json_dumps data) \<le> max_chars then data
      else VDict [(''_truncated'', VBool True), (''_preview'', VStr (take max_chars (json_dumps data))),
                  (''_original_length'', VInt (int (length (json_dumps data))))])"

definition make_full_data :: "nat \<Rightarrow> val \<Rightarrow> val" where
  "make_full_data max_chars data =
     (if data = VNone \<or> max_chars < length (json_dumps data) then VNone else data)"

text \<open>\<open>str(UUID(s)) == s\<close>: the canonical form, in lower case.\<close>

definition canonical_uuid :: "string \<Rightarrow> bool" where
  "canonical_uuid s \<longleftrightarrow>
     length s = 36
     \<and> (\<forall>i<36. if i \<in> {8, 13, 18, 23} then s ! i = CHR ''-''
                else is_digit (s ! i) \<or> CHR ''a'' \<le> s ! i \<and> s ! i \<le> CHR ''f'')"

definition portal_copy_delivery :: "(string \<Rightarrow> bool) \<Rightarrow> json_obj \<Rightarrow> json_obj option" where
  "portal_copy_delivery aware result =
     (case get_none result ''data'' of
        VDict d \<Rightarrow>
          if get_none d ''channel'' \<noteq> VStr ''portal_copy'' then None
          else (case (get_none d ''delivery_id'', get_none d ''expires_at'') of
                  (VStr i, VStr x) \<Rightarrow>
                    if canonical_uuid i \<and> aware x
                    then Some [(''delivery_id'', VStr i), (''channel'', VStr ''portal_copy''), (''expires_at'', VStr x)] else None
                | _ \<Rightarrow> None)
      | _ \<Rightarrow> None)"

record stream_state =
  ss_frames :: "json_obj list"
  ss_pending :: "json_obj list option"
  ss_release :: "json_obj list option"
  ss_permits :: "permit_map option"

text \<open>
  One gateway tool run on a streamed turn: its dotted name, the call with its parsed parameters, the
  gateway result on the response (\<open>None\<close> when the tool failed before one), the signed requests of the
  resume, the bound guard with the latch, and the process.
\<close>

record acting =
  ac_tool :: string
  ac_call :: string
  ac_parameters :: json_obj
  ac_result :: "json_obj option"
  ac_requests :: "(string, json_obj) dict option"
  ac_guard :: "run_guard option"
  ac_marks :: latch
  ac_pid :: int

text \<open>The libraries and limits of the frames; \<open>ev_prose\<close> is the prose redaction of \<open>prose_redaction.py\<close>.\<close>

record evidence_env =
  ev_lib :: url_lib
  ev_prose :: "val \<Rightarrow> val"
  ev_aware :: "string \<Rightarrow> bool"
  ev_summary_max :: nat
  ev_data_max :: nat

definition permit_secret_release :: "acting \<Rightarrow> permit_map option \<Rightarrow> bool \<times> permit_map option" where
  "permit_secret_release a pm =
     (case ac_guard a of
        None \<Rightarrow> (True, pm)
      | Some g \<Rightarrow>
          (case Option.bind pm (\<lambda>ps. dget ps (ac_call a)) of
             None \<Rightarrow> (False, pm)
           | Some p \<Rightarrow>
               if guard_stopped g (ac_marks a) then (False, pm)
               else (case permit_consume (ac_pid a) p of
                       (Inl _, _) \<Rightarrow> (False, pm)
                     | (Inr _, _) \<Rightarrow> (True, map_option (dpop (ac_call a)) pm))))"

definition call_frame :: "evidence_env \<Rightarrow> acting \<Rightarrow> json_obj" where
  "call_frame env a =
     [(''type'', VStr ''tool_call''), (''tool_name'', VStr (ac_tool a)), (''call_id'', VStr (ac_call a)),
      (''parameters'', ev_prose env (redact_evidence_parameters (ev_lib env) (ac_tool a) (VDict (ac_parameters a))))]"

definition result_fields :: "evidence_env \<Rightarrow> acting \<Rightarrow> json_obj" where
  "result_fields env a =
     (case ac_result a of
        None \<Rightarrow> [(''status'', VStr ''error''), (''data_summary'', VNone)]
      | Some r \<Rightarrow>
          (let safe = (case ev_prose env (redact_result_data (ev_lib env) (ac_tool a) (VDict r)) of VDict d \<Rightarrow> d | _ \<Rightarrow> []);
               data = get_none safe ''data''; full = make_full_data (ev_data_max env) data
           in [(''status'', case dget safe ''status'' of None \<Rightarrow> VStr ''error'' | Some v \<Rightarrow> v)]
              @ (if truthy (get_none safe ''evidence'') then [(''evidence'', get_none safe ''evidence'')] else [])
              @ [(''data_summary'', make_data_summary (ev_summary_max env) data)]
              @ (if full = VNone then [] else [(''data'', full)])
              @ (if truthy (get_none safe ''error'') then [(''error'', get_none safe ''error'')] else [])))"

definition result_frame :: "evidence_env \<Rightarrow> acting \<Rightarrow> json_obj" where
  "result_frame env a =
     [(''type'', VStr ''tool_result''), (''tool_name'', VStr (ac_tool a)), (''call_id'', VStr (ac_call a))] @ result_fields env a"

definition frame_success :: "evidence_env \<Rightarrow> acting \<Rightarrow> bool" where
  "frame_success env a \<longleftrightarrow> get_none (result_frame env a) ''status'' = VStr ''success''"

definition buffer_delivery :: "evidence_env \<Rightarrow> acting \<Rightarrow> stream_state \<Rightarrow> stream_state" where
  "buffer_delivery env a st =
     (if ac_tool a = ''secrets.generate_password'' \<and> frame_success env a
      then (case (Option.bind (ac_result a) (portal_copy_delivery (ev_aware env)), ss_pending st) of
              (Some dl, Some pending) \<Rightarrow> st\<lparr>ss_pending := Some (pending @ [dl])\<rparr>
            | _ \<Rightarrow> st)
      else st)"

definition delivery_frame :: "json_obj \<Rightarrow> json_obj" where
  "delivery_frame held = (''type'', VStr ''secret_delivery'') # held"

definition release_held :: "evidence_env \<Rightarrow> acting \<Rightarrow> stream_state \<Rightarrow> stream_state" where
  "release_held env a st =
     (case ss_release st of
        Some (h # hs) \<Rightarrow>
          if frame_success env a \<and> (case ac_requests a of None \<Rightarrow> False | Some reqs \<Rightarrow> dhas reqs (ac_call a))
          then (case permit_secret_release a (ss_permits st) of
                  (True, pm) \<Rightarrow>
                    st\<lparr>ss_frames := ss_frames st @ map delivery_frame (h # hs), ss_release := Some [], ss_permits := pm\<rparr>
                | (False, pm) \<Rightarrow> st\<lparr>ss_permits := pm\<rparr>)
          else st
      | _ \<Rightarrow> st)"

definition on_acting :: "evidence_env \<Rightarrow> acting \<Rightarrow> stream_state \<Rightarrow> stream_state" where
  "on_acting env a st =
     release_held env a (buffer_delivery env a (st\<lparr>ss_frames := ss_frames st @ [call_frame env a, result_frame env a]\<rparr>))"

text \<open>Between tool runs the coordinator may stash a permit (\<open>_stash_release_permit\<close>).\<close>

datatype stream_op = Acted acting | Stashed string secret_permit

definition stream_step :: "evidence_env \<Rightarrow> stream_op \<Rightarrow> stream_state \<Rightarrow> stream_state" where
  "stream_step env op st =
     (case op of
        Acted a \<Rightarrow> on_acting env a st
      | Stashed c p \<Rightarrow> st\<lparr>ss_permits := map_option (dset c p) (ss_permits st)\<rparr>)"

definition deliveries :: "stream_state \<Rightarrow> json_obj list" where
  "deliveries st = filter (\<lambda>f. get_none f ''type'' = VStr ''secret_delivery'') (ss_frames st)"

text \<open>What lets a run release: a committed success of an approved call and, under a guard, its unspent permit on a live run.\<close>

definition may_release :: "evidence_env \<Rightarrow> acting \<Rightarrow> stream_state \<Rightarrow> bool" where
  "may_release env a st \<longleftrightarrow>
     frame_success env a \<and> (\<exists>reqs e. ac_requests a = Some reqs \<and> dget reqs (ac_call a) = Some e)
     \<and> (\<forall>g. ac_guard a = Some g \<longrightarrow>
          \<not> guard_stopped g (ac_marks a)
          \<and> (\<exists>ps p. ss_permits st = Some ps \<and> dget ps (ac_call a) = Some p \<and> \<not> sp_consumed p \<and> sp_pid p = ac_pid a))"

lemma delivery_type: "get_none (delivery_frame d) ''type'' = VStr ''secret_delivery''"
  by (simp add: delivery_frame_def get_none_def)

lemma tool_frames_no_delivery:
  "get_none (call_frame env a) ''type'' \<noteq> VStr ''secret_delivery''" "get_none (result_frame env a) ''type'' \<noteq> VStr ''secret_delivery''"
  by (simp_all add: call_frame_def result_frame_def get_none_def)

lemma permit_secret_release_True:
  assumes "permit_secret_release a pm = (True, pm')" and "ac_guard a = Some g"
  shows "\<not> guard_stopped g (ac_marks a)
    \<and> (\<exists>ps p. pm = Some ps \<and> dget ps (ac_call a) = Some p \<and> \<not> sp_consumed p \<and> sp_pid p = ac_pid a
         \<and> pm' = Some (dpop (ac_call a) ps))"
  using assms by (auto simp: permit_secret_release_def permit_consume_def split: option.splits if_splits bind_splits)

lemma buffer_delivery_frame:
  "ss_frames (buffer_delivery env a st) = ss_frames st" "ss_release (buffer_delivery env a st) = ss_release st"
  "ss_permits (buffer_delivery env a st) = ss_permits st"
  by (auto simp: buffer_delivery_def split: option.splits)

lemma on_acting_cases:
  "(deliveries (on_acting env a st) = deliveries st \<and> ss_release (on_acting env a st) = ss_release st)
   \<or> (\<exists>held. ss_release st = Some held \<and> held \<noteq> [] \<and> may_release env a st
        \<and> deliveries (on_acting env a st) = deliveries st @ map delivery_frame held \<and> ss_release (on_acting env a st) = Some [])"
proof -
  define u where "u = buffer_delivery env a (st\<lparr>ss_frames := ss_frames st @ [call_frame env a, result_frame env a]\<rparr>)"
  have u: "deliveries u = deliveries st" "ss_release u = ss_release st" "ss_permits u = ss_permits st"
    by (simp_all add: u_def deliveries_def buffer_delivery_frame tool_frames_no_delivery)
  have step: "on_acting env a st = release_held env a u" by (simp add: on_acting_def u_def)
  show ?thesis
  proof (cases "release_held env a u = u \<or> (\<exists>p. release_held env a u = u\<lparr>ss_permits := p\<rparr>)")
    case True
    then show ?thesis using u by (auto simp: step deliveries_def)
  next
    case False
    then obtain h hs reqs pm where r: "ss_release u = Some (h # hs)" and s: "frame_success env a"
      and q: "ac_requests a = Some reqs" "dhas reqs (ac_call a)"
      and p: "permit_secret_release a (ss_permits u) = (True, pm)"
      and n: "release_held env a u = u\<lparr>ss_frames := ss_frames u @ map delivery_frame (h # hs), ss_release := Some [], ss_permits := pm\<rparr>"
      by (auto simp: release_held_def split: option.splits list.splits if_splits prod.splits bool.splits)
    have "may_release env a st"
      using s q permit_secret_release_True [OF p] by (auto simp: may_release_def u(3) dhas_dget)
    moreover have "deliveries (release_held env a u) = deliveries u @ map delivery_frame (h # hs)"
      unfolding n by (simp add: deliveries_def delivery_type)
    ultimately show ?thesis using u r n by (intro disjI2 exI [of _ "h # hs"]) (simp add: step)
  qed
qed

text \<open>
  C35. A held secret is revealed at most once and only on a committed, approved call: over any sequence
  of tool runs and stashed permits of a resumed stream, either no delivery frame is emitted, or exactly
  the held deliveries are, all at one tool run that reported success for a call with a signed request
  and that, under a run guard, held an unspent permit of this process for that call on a run that is
  not stopped; nothing is left to release afterwards.
\<close>

theorem held_secrets_released_once:
  assumes "deliveries st = []" and "ss_release st = Some held"
  shows "deliveries (fold (stream_step env) ops st) = []
    \<or> (\<exists>pre a post. ops = pre @ Acted a # post \<and> may_release env a (fold (stream_step env) pre st)
         \<and> deliveries (fold (stream_step env) ops st) = map delivery_frame held
         \<and> ss_release (fold (stream_step env) ops st) = Some [])"
proof -
  have "deliveries (fold (stream_step env) ops st) = [] \<and> ss_release (fold (stream_step env) ops st) = Some held
      \<or> (\<exists>pre a post. ops = pre @ Acted a # post \<and> may_release env a (fold (stream_step env) pre st)
         \<and> deliveries (fold (stream_step env) ops st) = map delivery_frame held
         \<and> ss_release (fold (stream_step env) ops st) = Some [])"
  proof (induction ops rule: rev_induct)
    case Nil
    then show ?case using assms by simp
  next
    case (snoc op ops)
    let ?s = "fold (stream_step env) ops st"
    have keep: "(deliveries (stream_step env op ?s) = deliveries ?s \<and> ss_release (stream_step env op ?s) = ss_release ?s)
        \<or> (\<exists>a h. op = Acted a \<and> ss_release ?s = Some h \<and> h \<noteq> [] \<and> may_release env a ?s
             \<and> deliveries (stream_step env op ?s) = deliveries ?s @ map delivery_frame h \<and> ss_release (stream_step env op ?s) = Some [])"
      using on_acting_cases [of env _ ?s] by (cases op) (auto simp: stream_step_def deliveries_def)
    have grow: "\<exists>pre a post. ops @ [op] = pre @ Acted a # post \<and> P pre a"
      if "\<exists>pre a post. ops = pre @ Acted a # post \<and> P pre a" for P using that by fastforce
    show ?case
    proof (cases "\<exists>pre a post. ops = pre @ Acted a # post \<and> may_release env a (fold (stream_step env) pre st)
         \<and> deliveries ?s = map delivery_frame held \<and> ss_release ?s = Some []")
      case True
      then have "deliveries (stream_step env op ?s) = map delivery_frame held" "ss_release (stream_step env op ?s) = Some []"
        using keep by auto
      moreover have "\<exists>pre a post. ops @ [op] = pre @ Acted a # post \<and> may_release env a (fold (stream_step env) pre st)"
        using True by (intro grow) blast
      ultimately show ?thesis by simp
    next
      case False
      then have s: "deliveries ?s = []" "ss_release ?s = Some held" using snoc by auto
      show ?thesis
      proof (cases "deliveries (stream_step env op ?s) = [] \<and> ss_release (stream_step env op ?s) = Some held")
        case False
        with keep s obtain a where "op = Acted a" "may_release env a ?s"
          "deliveries (stream_step env op ?s) = map delivery_frame held" "ss_release (stream_step env op ?s) = Some []" by auto
        then show ?thesis by (auto intro: exI [of _ ops])
      qed simp
    qed
  qed
  then show ?thesis by blast
qed

section \<open>Instances\<close>

definition demo_click_definition :: json_obj where
  "demo_click_definition = [(''name'', VStr ''web.click''), (''risk_level'', VStr ''write'')]"

definition demo_click_tool :: function_tool where
  "demo_click_tool = \<lparr>tl_name = ''web_click'', tl_description = VStr ''Invoke web.click'', tl_read_only = False,
     tl_schema = [(''type'', VStr ''object''), (''properties'', VDict [])], tl_gateway_name = ''web.click'', tl_risk = VStr ''write''\<rparr>"

lemma demo_click_built: "function_tool_of (\<lambda>_. True) demo_click_definition = Some [demo_click_tool]"
  by (simp add: function_tool_of_def demo_click_definition_def demo_click_tool_def under_def get_none_def normalize_input_schema_def Let_def)

theorem mutating_call_needs_authority_witness:
  "\<exists>e kf'. gate demo_sign demo_flow_turn [] [''web_click''] (Some (kernel_tool_of demo_click_tool)) demo_click False
       (fold kernel_step demo_flow_ops no_flows) = (Inr Allow, kf')
     \<and> sign_flow_execution demo_sign demo_flow_turn [] demo_click ''web.click'' (fold kernel_step demo_flow_ops no_flows) = (Inr (Some e), kf')"
proof -
  let ?kf = "fold kernel_step demo_flow_ops no_flows"
  obtain e kf' where s: "sign_flow_execution demo_sign demo_flow_turn [] demo_click ''web.click'' ?kf = (Inr (Some e), kf')"
    using demo_flow_signed by blast
  have g: "gate demo_sign demo_flow_turn [] [''web_click''] (Some (kernel_tool_of demo_click_tool)) demo_click False ?kf = (Inr Allow, kf')"
    using s by (simp add: gate_def check_permission_def kernel_tool_of_def demo_click_tool_def KERNEL_LOCAL_TOOL_NAMES_def
        BROWSER_WRITE_TOOLS_def guard_says_stopped_def demo_flow_turn_def)
  have "\<exists>e. sign_flow_execution demo_sign demo_flow_turn [] demo_click (tl_gateway_name demo_click_tool) ?kf = (Inr (Some e), kf')"
    using mutating_call_needs_authority [OF demo_click_built _ _ g]
    by (auto simp: demo_click_definition_def demo_click_tool_def KERNEL_LOCAL_TOOL_NAMES_def)
  with g show ?thesis by (auto simp: demo_click_tool_def)
qed

definition demo_evidence :: evidence_env where
  "demo_evidence = \<lparr>ev_lib = \<lparr>urlsplit = \<lambda>_. None, urlunsplit = up_path, unquote = id\<rparr>, ev_prose = id, ev_aware = \<lambda>_. True,
     ev_summary_max = 2000, ev_data_max = 128000\<rparr>"

definition demo_acting :: acting where
  "demo_acting = \<lparr>ac_tool = ''k8s.delete_pod'', ac_call = ''c1'', ac_parameters = [], ac_result = Some [(''status'', VStr ''success'')],
     ac_requests = Some [(''c1'', [])], ac_guard = Some demo_guard, ac_marks = [], ac_pid = 7\<rparr>"

definition demo_stream :: stream_state where
  "demo_stream = \<lparr>ss_frames = [], ss_pending = Some [], ss_release = Some [[(''delivery_id'', VStr ''d1'')]], ss_permits = Some []\<rparr>"

definition demo_stash :: stream_op where
  "demo_stash = Stashed ''c1'' \<lparr>sp_run = ''r1'', sp_execution = ''e1'', sp_digest = VNone, sp_consumed = False, sp_pid = 7\<rparr>"

lemma demo_frame_success: "frame_success demo_evidence demo_acting"
proof -
  have "\<not> hidden ''k8s.delete_pod'' (Some ''status'')" by code_simp
  then have "redact_result_data (ev_lib demo_evidence) ''k8s.delete_pod'' (VDict [(''status'', VStr ''success'')])
      = VDict [(''status'', VStr ''success'')]"
    by (simp add: redact_result_data_def redact_secret_query_def demo_evidence_def hidden_def [of _ None])
  then show ?thesis
    by (simp add: frame_success_def result_frame_def result_fields_def demo_acting_def get_none_def Let_def)
      (simp add: demo_evidence_def)
qed

lemma demo_stream_released:
  "deliveries (fold (stream_step demo_evidence) [demo_stash, Acted demo_acting] demo_stream) \<noteq> []"
proof -
  let ?s = "stream_step demo_evidence demo_stash demo_stream"
  have "permit_secret_release demo_acting (ss_permits ?s) = (True, Some [])"
    by (simp add: stream_step_def demo_stash_def demo_stream_def permit_secret_release_def demo_acting_def demo_guard_def
        guard_stopped_def latch_reason_def permit_consume_def rbind_def dpop_def)
  then show ?thesis
    using demo_frame_success
    by (simp add: stream_step_def on_acting_def release_held_def buffer_delivery_frame deliveries_def delivery_type demo_stash_def
        demo_stream_def demo_acting_def dhas_dget)
qed

theorem held_secrets_released_once_witness:
  "deliveries (fold (stream_step demo_evidence) [demo_stash, Acted demo_acting] demo_stream)
     = [delivery_frame [(''delivery_id'', VStr ''d1'')]]"
proof -
  have "deliveries demo_stream = []" "ss_release demo_stream = Some [[(''delivery_id'', VStr ''d1'')]]"
    by (simp_all add: demo_stream_def deliveries_def)
  from held_secrets_released_once [OF this, of demo_evidence "[demo_stash, Acted demo_acting]"] demo_stream_released
  show ?thesis by auto
qed

end
