(* ===== verification/Outbound_Auth.thy ===== *)
theory Outbound_Auth
  imports Execution_Protocol
begin

text \<open>
  Credentials for outbound calls of the tool gateway: the named credential sets
  (\<open>tool_gateway/tools/credential_sets.py\<close>), the client-credentials token client with its cache
  (\<open>oauth_client.py\<close>) and the resolution of a set into an authorization (\<open>auth_resolution.py\<close>). The
  credential file, the strict parser of delegated sets (\<open>delegated_configuration.py\<close>), the token endpoint
  and the delegated acquisition client are arguments. Times are integers in microseconds. Fetches of one
  set are serialized by its lock, so a call is one step on the cache.
\<close>

type_synonym credential_entry = "(string, string) dict"

type_synonym tool_error = "string \<times> string \<times> string"

definition SCHEME_REQUIRED_FIELDS :: "(string, string list) dict" where
  "SCHEME_REQUIRED_FIELDS =
     [(''basic'', [''username'', ''password'']), (''bearer'', [''token'']),
      (''oauth2_client_credentials'', [''token_url'', ''client_id'', ''client_secret''])]"

definition DEFAULT_SCHEME :: string where
  "DEFAULT_SCHEME = ''basic''"

definition OPTIONAL_FIELDS :: "string list" where
  "OPTIONAL_FIELDS = [''scope'', ''audience'', ''resource'', ''client_auth'']"

definition DELEGATED_SCHEME :: string where
  "DELEGATED_SCHEME = ''oauth2_authorization_code''"

definition scheme_of :: "credential_entry \<Rightarrow> string" where
  "scheme_of entry = (case dget entry ''scheme'' of None \<Rightarrow> DEFAULT_SCHEME | Some s \<Rightarrow> s)"

definition required_str :: "json_obj \<Rightarrow> string \<Rightarrow> string option" where
  "required_str d k = (case get_none d k of VStr (c # cs) \<Rightarrow> Some (c # cs) | _ \<Rightarrow> None)"

text \<open>\<open>_parse_set\<close>; \<open>strict\<close> is \<open>DelegatedConfiguration.parse(...).projection()\<close>, \<open>None\<close> for a \<open>ConfigurationError\<close>.\<close>

definition parse_set :: "(val \<Rightarrow> credential_entry option) \<Rightarrow> val \<Rightarrow> credential_entry option" where
  "parse_set strict value =
     (case value of
        VDict d \<Rightarrow>
          (case (case dget d ''scheme'' of None \<Rightarrow> VStr DEFAULT_SCHEME | Some s \<Rightarrow> s) of
             VStr scheme \<Rightarrow>
               if scheme = DELEGATED_SCHEME then strict value
               else (case dget SCHEME_REQUIRED_FIELDS scheme of
                       None \<Rightarrow> None
                     | Some required \<Rightarrow>
                         if list_ex (\<lambda>f. required_str d f = None) required then None
                         else Some (map (\<lambda>f. (f, the (required_str d f))) required
                                    @ map (\<lambda>f. (f, the (required_str d f))) (filter (\<lambda>f. required_str d f \<noteq> None) OPTIONAL_FIELDS)
                                    @ (if dhas d ''scheme'' then [(''scheme'', scheme)] else [])))
           | _ \<Rightarrow> None)
      | _ \<Rightarrow> None)"

section \<open>The store\<close>

record credential_store =
  cd_path :: string
  cd_mtime :: "int option"
  cd_sets :: "(string, credential_entry) dict"

definition new_credential_store :: "string \<Rightarrow> credential_store" where
  "new_credential_store path = \<lparr>cd_path = path, cd_mtime = None, cd_sets = []\<rparr>"

text \<open>
  What one access finds: the modification time, the file read by the machine loader, and the file read
  again by the strict reader, which also refuses repeated keys; \<open>None\<close> where the source raises.
\<close>

record credential_disk =
  dk_mtime :: "int option"
  dk_json :: "val option"
  dk_strict :: "val option"

fun load_sets :: "(val \<Rightarrow> credential_entry option) \<Rightarrow> json_obj \<Rightarrow> (string, credential_entry) dict \<Rightarrow> (string, credential_entry) dict" where
  "load_sets strict [] sets = sets"
| "load_sets strict ((name, value) # rest) sets =
     load_sets strict rest (case parse_set strict value of None \<Rightarrow> sets | Some entry \<Rightarrow> dset name entry sets)"

definition cd_maybe_reload :: "(val \<Rightarrow> credential_entry option) \<Rightarrow> credential_disk \<Rightarrow> credential_store \<Rightarrow> credential_store" where
  "cd_maybe_reload strict disk st =
     (if cd_path st = [] then st
      else case dk_mtime disk of
             None \<Rightarrow> st
           | Some m \<Rightarrow>
               if cd_mtime st = Some m then st
               else (case dk_json disk of
                       Some (VDict raw) \<Rightarrow> st\<lparr>cd_sets := load_sets strict raw [], cd_mtime := Some m\<rparr>
                     | _ \<Rightarrow> st))"

definition is_delegated_value :: "val \<Rightarrow> bool" where
  "is_delegated_value v = (case v of VDict d \<Rightarrow> dget d ''scheme'' = Some (VStr DELEGATED_SCHEME) | _ \<Rightarrow> False)"

fun refresh_delegated ::
  "(val \<Rightarrow> credential_entry option) \<Rightarrow> json_obj \<Rightarrow> (string, credential_entry) dict \<Rightarrow> (string, credential_entry) dict" where
  "refresh_delegated strict [] sets = sets"
| "refresh_delegated strict ((name, value) # rest) sets =
     refresh_delegated strict rest
       (if is_delegated_value value
        then (case parse_set strict value of None \<Rightarrow> dpop name sets | Some entry \<Rightarrow> dset name entry (dpop name sets))
        else sets)"

definition cd_fresh_delegated :: "(val \<Rightarrow> credential_entry option) \<Rightarrow> credential_disk \<Rightarrow> credential_store \<Rightarrow> credential_store" where
  "cd_fresh_delegated strict disk st =
     (let kept = filter (\<lambda>e. scheme_of (snd e) \<noteq> DELEGATED_SCHEME) (cd_sets st) in
      st\<lparr>cd_sets := (if cd_path st = [] then kept
                     else case dk_strict disk of Some (VDict raw) \<Rightarrow> refresh_delegated strict raw kept | _ \<Rightarrow> kept)\<rparr>)"

definition cd_access :: "(val \<Rightarrow> credential_entry option) \<Rightarrow> credential_disk \<Rightarrow> credential_store \<Rightarrow> credential_store" where
  "cd_access strict disk st = cd_fresh_delegated strict disk (cd_maybe_reload strict disk st)"

definition cd_get ::
  "(val \<Rightarrow> credential_entry option) \<Rightarrow> credential_disk \<Rightarrow> string \<Rightarrow> credential_store \<Rightarrow> credential_entry option \<times> credential_store" where
  "cd_get strict disk name st = (let st' = cd_access strict disk st in (dget (cd_sets st') name, st'))"

section \<open>The token client\<close>

definition DEFAULT_REFRESH_MARGIN :: int where
  "DEFAULT_REFRESH_MARGIN = seconds 30"

definition DEFAULT_TOKEN_TTL :: int where
  "DEFAULT_TOKEN_TTL = seconds 300"

record cached_token =
  ct_token :: string
  ct_expires :: int

record token_client =
  tk_margin :: int
  tk_cache :: "(string, cached_token) dict"

definition new_token_client :: token_client where
  "new_token_client = \<lparr>tk_margin = DEFAULT_REFRESH_MARGIN, tk_cache = []\<rparr>"

text \<open>The answer of the token endpoint: a status and the JSON payload (\<open>None\<close> when it does not parse).\<close>

datatype token_reply = TokenTimeout | TokenUnreachable | TokenResponse int "val option"

record token_request =
  rq_url :: string
  rq_form :: "(string, string) dict"
  rq_basic :: "(string \<times> string) option"

definition acquisition_error :: "string \<Rightarrow> string \<Rightarrow> tool_error" where
  "acquisition_error name detail =
     (''CREDENTIAL_ACQUISITION_FAILED'',
      ''OAuth2 token acquisition failed for credential set '' @ [CHR 0x27] @ name @ [CHR 0x27] @ '': '' @ detail @ ''.'', ''error'')"

text \<open>\<open>float(value)\<close> is an argument, in microseconds, \<open>None\<close> where it raises.\<close>

definition coerce_expires_in :: "(val \<Rightarrow> int option) \<Rightarrow> val \<Rightarrow> int" where
  "coerce_expires_in to_micros v =
     (case to_micros v of None \<Rightarrow> DEFAULT_TOKEN_TTL | Some s \<Rightarrow> if \<not> 0 < s then DEFAULT_TOKEN_TTL else s)"

definition fresh_token :: "int \<Rightarrow> string \<Rightarrow> token_client \<Rightarrow> string option" where
  "fresh_token now name tc =
     (case dget (tk_cache tc) name of
        None \<Rightarrow> None
      | Some c \<Rightarrow> if ct_expires c - tk_margin tc \<le> now then None else Some (ct_token c))"

definition entry_field :: "credential_entry \<Rightarrow> string \<Rightarrow> string" where
  "entry_field entry k = (case dget entry k of None \<Rightarrow> [] | Some v \<Rightarrow> v)"

text \<open>The token request of a set, or why there is none.\<close>

definition build_token_request :: "string \<Rightarrow> credential_entry \<Rightarrow> tool_error + token_request" where
  "build_token_request name entry =
     (let url = entry_field entry ''token_url''; i = entry_field entry ''client_id''; s = entry_field entry ''client_secret'';
          client_auth = (if entry_field entry ''client_auth'' = [] then ''client_secret_basic'' else entry_field entry ''client_auth'');
          form = (''grant_type'', ''client_credentials'')
                 # map (\<lambda>k. (k, entry_field entry k)) (filter (\<lambda>k. entry_field entry k \<noteq> []) [''scope'', ''audience'', ''resource''])
      in if url = [] \<or> i = [] \<or> s = [] then Inl (acquisition_error name ''incomplete oauth2 credential set'')
         else if client_auth = ''client_secret_post''
         then Inr \<lparr>rq_url = url, rq_form = form @ [(''client_id'', i), (''client_secret'', s)], rq_basic = None\<rparr>
         else if client_auth = ''client_secret_basic'' then Inr \<lparr>rq_url = url, rq_form = form, rq_basic = Some (i, s)\<rparr>
         else Inl (acquisition_error name ''unknown client_auth variant''))"

text \<open>What a reply grants: the token and its lifetime.\<close>

definition granted_token :: "(val \<Rightarrow> int option) \<Rightarrow> string \<Rightarrow> token_reply \<Rightarrow> tool_error + string \<times> int" where
  "granted_token to_micros name reply =
     (case reply of
        TokenTimeout \<Rightarrow> Inl (acquisition_error name ''token endpoint timed out'')
      | TokenUnreachable \<Rightarrow> Inl (acquisition_error name ''token endpoint unreachable'')
      | TokenResponse status payload \<Rightarrow>
          if status \<noteq> 200 then Inl (acquisition_error name (''token endpoint returned '' @ int_str status))
          else (case payload of
                  None \<Rightarrow> Inl (acquisition_error name ''token response was not valid JSON'')
                | Some (VDict d) \<Rightarrow>
                    (case required_str d ''access_token'' of
                       None \<Rightarrow> Inl (acquisition_error name ''token response carried no access_token'')
                     | Some t \<Rightarrow>
                         if get_none d ''token_type'' \<noteq> VNone \<and> lower (strip (str_of_val (get_none d ''token_type''))) \<noteq> ''bearer''
                         then Inl (acquisition_error name ''token response carried an unsupported token_type'')
                         else Inr (t, coerce_expires_in to_micros (get_none d ''expires_in'')))
                | Some _ \<Rightarrow> Inl (acquisition_error name ''token response carried no access_token'')))"

text \<open>\<open>acquire\<close>: the clock when the cache is read and after the fetch, and the endpoint's answer to a request.\<close>

record token_env =
  te_now :: int
  te_after :: int
  te_endpoint :: "token_request \<Rightarrow> token_reply"
  te_micros :: "val \<Rightarrow> int option"

definition acquire ::
  "token_env \<Rightarrow> string \<Rightarrow> credential_entry \<Rightarrow> token_client \<Rightarrow> (tool_error + string) \<times> token_client \<times> token_request list" where
  "acquire env name entry tc =
     (case fresh_token (te_now env) name tc of
        Some t \<Rightarrow> (Inr t, tc, [])
      | None \<Rightarrow>
          (case build_token_request name entry of
             Inl e \<Rightarrow> (Inl e, tc, [])
           | Inr rq \<Rightarrow>
               (case granted_token (te_micros env) name (te_endpoint env rq) of
                  Inl e \<Rightarrow> (Inl e, tc, [rq])
                | Inr (t, ttl) \<Rightarrow>
                    (Inr t, tc\<lparr>tk_cache := dset name \<lparr>ct_token = t, ct_expires = te_after env + ttl\<rparr> (tk_cache tc)\<rparr>, [rq]))))"

section \<open>Resolution\<close>

datatype outbound_auth = BasicAuth string string | BearerAuth string

record resolved_auth =
  ra_scheme :: string
  ra_auth :: outbound_auth
  ra_delegated :: bool

definition set_error :: "string \<Rightarrow> string \<Rightarrow> tool_error" where
  "set_error name detail =
     (''CREDENTIAL_ACQUISITION_FAILED'', ''Credential set '' @ [CHR 0x27] @ name @ [CHR 0x27] @ '': '' @ detail @ ''.'', ''error'')"

definition delegated_error :: "string \<Rightarrow> string \<Rightarrow> tool_error" where
  "delegated_error name kind =
     (let message = ''User-delegated acquisition for credential set '' @ [CHR 0x27] @ name @ [CHR 0x27] @ '' failed: '' @ kind @ ''.'' in
      if kind = ''authorization_required'' then (''DELEGATED_REAUTHORIZATION_REQUIRED'', message, ''denied'')
      else if kind = ''acquisition_in_progress'' then (''DELEGATED_ACQUISITION_IN_PROGRESS'', message, ''error'')
      else (''CREDENTIAL_ACQUISITION_FAILED'', message, ''error''))"

text \<open>The verified requester on whose behalf a delegated token is asked for.\<close>

record acquisition_context =
  aq_namespace :: string
  aq_sub :: string
  aq_set :: string
  aq_target :: string
  aq_audience :: "string option"
  aq_resource :: "string option"

text \<open>
  \<open>resolve_outbound_auth\<close>. The delegated client, when wired, answers an acquisition context with a token or
  the kind of its error. The third component is the recorded delegation mode.
\<close>

definition resolve_outbound_auth ::
  "token_env \<Rightarrow> (acquisition_context \<Rightarrow> string + string) option \<Rightarrow> string \<Rightarrow> credential_entry \<Rightarrow> acquisition_context option \<Rightarrow> token_client \<Rightarrow>
   (tool_error + resolved_auth) \<times> token_client \<times> token_request list \<times> string" where
  "resolve_outbound_auth env delegated name entry acquisition tc =
     (let scheme = scheme_of entry;
          fail = (\<lambda>e tc rqs. (Inl e, tc, rqs, ''none''));
          machine = (\<lambda>a tc rqs. (Inr \<lparr>ra_scheme = scheme, ra_auth = a, ra_delegated = False\<rparr>, tc, rqs, ''acting_service''))
      in if scheme = ''basic'' then
           (if entry_field entry ''username'' = [] \<or> entry_field entry ''password'' = []
            then fail (set_error name ''a basic set needs username and password'') tc []
            else machine (BasicAuth (entry_field entry ''username'') (entry_field entry ''password'')) tc [])
         else if scheme = ''bearer'' then
           (if entry_field entry ''token'' = [] then fail (set_error name ''a bearer set needs a token'') tc []
            else machine (BearerAuth (entry_field entry ''token'')) tc [])
         else if scheme = ''oauth2_client_credentials'' then
           (case acquire env name entry tc of
              (Inl e, tc', rqs) \<Rightarrow> fail e tc' rqs
            | (Inr t, tc', rqs) \<Rightarrow>
                if t = [] then fail (set_error name ''OAuth2 token acquisition returned no token'') tc' rqs
                else machine (BearerAuth t) tc' rqs)
         else if scheme = DELEGATED_SCHEME then
           (case (delegated, acquisition) of
              (Some client, Some ctx) \<Rightarrow>
                (case client ctx of
                   Inl kind \<Rightarrow> fail (delegated_error name kind) tc []
                 | Inr t \<Rightarrow> (Inr \<lparr>ra_scheme = scheme, ra_auth = BearerAuth t, ra_delegated = True\<rparr>, tc, [], ''user_delegated''))
            | _ \<Rightarrow> fail (set_error name ''delegated acquisition is not enabled'') tc [])
         else fail (set_error name (''unsupported scheme '' @ [CHR 0x27] @ scheme @ [CHR 0x27])) tc [])"

section \<open>What the store offers\<close>

text \<open>The strict parser only returns delegated sets.\<close>

definition strict_parser :: "(val \<Rightarrow> credential_entry option) \<Rightarrow> bool" where
  "strict_parser strict \<longleftrightarrow> (\<forall>v e. strict v = Some e \<longrightarrow> scheme_of e = DELEGATED_SCHEME)"

text \<open>The strict reader refuses repeated keys.\<close>

definition strict_reader :: "credential_disk \<Rightarrow> bool" where
  "strict_reader disk \<longleftrightarrow> (case dk_strict disk of Some (VDict raw) \<Rightarrow> dict_ok raw | _ \<Rightarrow> True)"

text \<open>A machine set with every field its scheme needs.\<close>

definition machine_complete :: "credential_entry \<Rightarrow> bool" where
  "machine_complete e \<longleftrightarrow>
     (case dget SCHEME_REQUIRED_FIELDS (scheme_of e) of
        None \<Rightarrow> False
      | Some required \<Rightarrow> list_all (\<lambda>f. entry_field e f \<noteq> []) required)"

lemma dget_app: "dget (xs @ ys) k = (case dget xs k of None \<Rightarrow> dget ys k | Some v \<Rightarrow> Some v)"
  by (induction xs) (auto simp: dget_def)

lemma dget_map_fields: "dget (map (\<lambda>f. (f, g f)) fs) k = (if k \<in> set fs then Some (g k) else None)"
  by (induction fs) auto

lemma nonempty_str_Some: "required_str d k = Some s \<Longrightarrow> s \<noteq> []"
  by (auto simp: required_str_def split: val.splits list.splits)

lemma default_not_delegated: "DEFAULT_SCHEME \<noteq> DELEGATED_SCHEME"
  by (simp add: DEFAULT_SCHEME_def DELEGATED_SCHEME_def)

lemma parse_set_machine:
  assumes "parse_set strict v = Some e" and "\<not> is_delegated_value v"
  shows "scheme_of e \<noteq> DELEGATED_SCHEME" and "machine_complete e"
proof -
  from assms obtain d scheme required where d: "v = VDict d" "dget SCHEME_REQUIRED_FIELDS scheme = Some required"
      "\<not> list_ex (\<lambda>f. required_str d f = None) required" "scheme = (if dhas d ''scheme'' then scheme else DEFAULT_SCHEME)"
      "e = map (\<lambda>f. (f, the (required_str d f))) required
         @ map (\<lambda>f. (f, the (required_str d f))) (filter (\<lambda>f. required_str d f \<noteq> None) OPTIONAL_FIELDS)
         @ (if dhas d ''scheme'' then [(''scheme'', scheme)] else [])"
    by (auto simp: parse_set_def is_delegated_value_def dhas_dget default_not_delegated split: val.splits option.splits if_splits)
  have req: "''scheme'' \<notin> set required" "scheme \<noteq> DELEGATED_SCHEME"
    using d(2) by (auto simp: SCHEME_REQUIRED_FIELDS_def DELEGATED_SCHEME_def split: if_splits)
  have s: "scheme_of e = scheme" using d(4) req(1)
    by (auto simp: d(5) scheme_of_def dget_app dget_map_fields OPTIONAL_FIELDS_def split: if_splits)
  then show "scheme_of e \<noteq> DELEGATED_SCHEME" using req(2) by simp
  have "entry_field e f \<noteq> []" if "f \<in> set required" for f
    using that d(3) nonempty_str_Some by (auto simp: entry_field_def d(5) dget_app dget_map_fields list_ex_iff)
  then show "machine_complete e" using d(2) s by (simp add: machine_complete_def list_all_iff)
qed

lemma parse_set_delegated: "is_delegated_value v \<Longrightarrow> parse_set strict v = strict v"
  by (auto simp: is_delegated_value_def parse_set_def split: val.splits)

lemma parse_set_cases:
  assumes "parse_set strict v = Some e" and "strict_parser strict"
  shows "if is_delegated_value v then scheme_of e = DELEGATED_SCHEME else scheme_of e \<noteq> DELEGATED_SCHEME \<and> machine_complete e"
  using assms parse_set_machine [OF assms(1)] parse_set_delegated [of v strict] by (auto simp: strict_parser_def)

lemma dget_refresh_delegated:
  assumes "dict_ok raw"
  shows "dget (refresh_delegated strict raw sets) n
    = (case dget raw n of
         None \<Rightarrow> dget sets n
       | Some v \<Rightarrow> if is_delegated_value v then strict v else dget sets n)"
  using assms
proof (induction raw arbitrary: sets)
  case (Cons p raw)
  obtain m v where p: "p = (m, v)" by (cases p)
  then have ok: "dict_ok raw" "dget raw m = None" using Cons.prems by (auto simp: dict_ok_def dget_def map_of_eq_None_iff)
  show ?case using ok Cons.IH [OF ok(1)] parse_set_delegated [of v strict] by (auto simp: p split: option.splits)
qed simp

lemma load_sets_entries:
  assumes "list_all (\<lambda>x. P (snd x)) sets" and "\<And>v e. v \<in> snd ` set raw \<Longrightarrow> parse_set strict v = Some e \<Longrightarrow> P e"
  shows "list_all (\<lambda>x. P (snd x)) (load_sets strict raw sets)"
  using assms
proof (induction strict raw sets rule: load_sets.induct)
  case (2 strict name v rest sets)
  have "list_all (\<lambda>x. P (snd x)) (case parse_set strict v of None \<Rightarrow> sets | Some e \<Rightarrow> dset name e sets)"
    using "2.prems" by (auto split: option.splits intro: dset_list_all)
  from "2.IH" [OF this] "2.prems"(2) show ?case by auto
qed simp

definition sets_usable :: "credential_store \<Rightarrow> bool" where
  "sets_usable st \<longleftrightarrow>
     dict_ok (cd_sets st) \<and> list_all (\<lambda>x. scheme_of (snd x) = DELEGATED_SCHEME \<or> machine_complete (snd x)) (cd_sets st)"

lemma refresh_delegated_entries:
  assumes "list_all (\<lambda>x. P (snd x)) sets" and "\<And>v e. is_delegated_value v \<Longrightarrow> strict v = Some e \<Longrightarrow> P e"
  shows "list_all (\<lambda>x. P (snd x)) (refresh_delegated strict raw sets)"
  using assms
proof (induction strict raw sets rule: refresh_delegated.induct)
  case (2 strict name v rest sets)
  have "list_all (\<lambda>x. P (snd x)) (dpop name sets)" using "2.prems"(1) by (auto simp: dpop_def list_all_iff)
  then have "list_all (\<lambda>x. P (snd x)) (if is_delegated_value v
      then (case parse_set strict v of None \<Rightarrow> dpop name sets | Some e \<Rightarrow> dset name e (dpop name sets)) else sets)"
    using "2.prems" parse_set_delegated [of v strict] by (auto split: option.splits intro: dset_list_all)
  from "2.IH" [OF this] "2.prems"(2) show ?case by auto
qed simp

lemma load_sets_ok: "dict_ok sets \<Longrightarrow> dict_ok (load_sets strict raw sets)"
  by (induction strict raw sets rule: load_sets.induct) (auto split: option.splits)

lemma refresh_delegated_ok: "dict_ok sets \<Longrightarrow> dict_ok (refresh_delegated strict raw sets)"
  by (induction strict raw sets rule: refresh_delegated.induct) (auto split: option.splits)

text \<open>The machine sets that survive the delegated refresh.\<close>

definition machine_sets :: "credential_store \<Rightarrow> (string, credential_entry) dict" where
  "machine_sets st = filter (\<lambda>e. scheme_of (snd e) \<noteq> DELEGATED_SCHEME) (cd_sets st)"

lemma cd_access_sets:
  "cd_sets (cd_access strict disk st) =
     (let kept = machine_sets (cd_maybe_reload strict disk st) in
      if cd_path st = [] then kept
      else case dk_strict disk of Some (VDict raw) \<Rightarrow> refresh_delegated strict raw kept | _ \<Rightarrow> kept)"
  by (auto simp: cd_access_def cd_fresh_delegated_def machine_sets_def cd_maybe_reload_def Let_def split: option.splits val.splits)

lemma cd_maybe_reload_usable:
  assumes "strict_parser strict" and "sets_usable st"
  shows "sets_usable (cd_maybe_reload strict disk st)"
proof -
  have "scheme_of e = DELEGATED_SCHEME \<or> machine_complete e" if "parse_set strict v = Some e" for v e
    using parse_set_cases [OF that assms(1)] by (auto split: if_splits)
  then have "list_all (\<lambda>x. scheme_of (snd x) = DELEGATED_SCHEME \<or> machine_complete (snd x)) (load_sets strict raw [])" for raw
    by (intro load_sets_entries) simp_all
  then show ?thesis using assms(2) load_sets_ok [of "[]" strict]
    by (auto simp: cd_maybe_reload_def sets_usable_def split: option.splits val.splits)
qed

lemma cd_access_usable:
  assumes "strict_parser strict" and "sets_usable st"
  shows "sets_usable (cd_access strict disk st)"
proof -
  have "list_all (\<lambda>x. scheme_of (snd x) = DELEGATED_SCHEME \<or> machine_complete (snd x)) (machine_sets (cd_maybe_reload strict disk st))"
    and ok: "dict_ok (machine_sets (cd_maybe_reload strict disk st))"
    using cd_maybe_reload_usable [OF assms, of disk] by (auto simp: sets_usable_def machine_sets_def list_all_iff)
  moreover from this(1) have "list_all (\<lambda>x. scheme_of (snd x) = DELEGATED_SCHEME \<or> machine_complete (snd x))
      (refresh_delegated strict raw (machine_sets (cd_maybe_reload strict disk st)))" for raw
    using assms(1) by (intro refresh_delegated_entries) (auto simp: strict_parser_def)
  ultimately show ?thesis
    using refresh_delegated_ok [OF ok] by (auto simp: sets_usable_def cd_access_sets Let_def split: option.splits val.splits)
qed

text \<open>A machine entry of the store stood in a file that one of the accesses read.\<close>

definition read_from :: "(val \<Rightarrow> credential_entry option) \<Rightarrow> credential_disk list \<Rightarrow> string \<Rightarrow> credential_entry \<Rightarrow> bool" where
  "read_from strict disks name e \<longleftrightarrow>
     (\<exists>disk raw v. disk \<in> set disks \<and> dk_json disk = Some (VDict raw) \<and> (name, v) \<in> set raw \<and> parse_set strict v = Some e)"

lemma load_sets_origin:
  "dget (load_sets strict raw sets) n = Some e \<Longrightarrow> dget sets n = Some e \<or> (\<exists>v. (n, v) \<in> set raw \<and> parse_set strict v = Some e)"
proof (induction strict raw sets rule: load_sets.induct)
  case (2 strict name v rest sets)
  from "2.IH" "2.prems" show ?case by (auto split: option.splits if_splits)
qed simp

lemma refresh_keeps_machine:
  assumes "dget (refresh_delegated strict raw sets) n = Some e" and "strict_parser strict" and "scheme_of e \<noteq> DELEGATED_SCHEME"
  shows "dget sets n = Some e"
  using assms
proof (induction strict raw sets rule: refresh_delegated.induct)
  case (2 strict name v rest sets)
  from "2.IH" [OF _ "2.prems"(2,3)] "2.prems" parse_set_delegated [of v strict]
  show ?case by (auto simp: strict_parser_def split: option.splits if_splits)
qed simp

lemma machine_sets_dget:
  assumes "sets_usable st"
  shows "dget (machine_sets st) n = Some e \<longleftrightarrow> dget (cd_sets st) n = Some e \<and> scheme_of e \<noteq> DELEGATED_SCHEME"
  using assms by (auto simp: sets_usable_def machine_sets_def dict_ok_dget)

lemma new_store_usable: "sets_usable (new_credential_store path)"
  by (simp add: sets_usable_def new_credential_store_def)

lemma store_usable: "strict_parser strict \<Longrightarrow> sets_usable (fold (cd_access strict) disks (new_credential_store path))"
  by (induction disks rule: rev_induct) (auto intro: cd_access_usable new_store_usable)

lemma machine_entry_origin:
  assumes "dget (cd_sets (fold (cd_access strict) disks (new_credential_store path))) n = Some e"
    and "strict_parser strict" and "scheme_of e \<noteq> DELEGATED_SCHEME"
  shows "read_from strict disks n e"
  using assms(1)
proof (induction disks rule: rev_induct)
  case (snoc disk disks)
  let ?st = "fold (cd_access strict) disks (new_credential_store path)"
  have usable: "sets_usable (cd_maybe_reload strict disk ?st)" using assms(2) by (intro cd_maybe_reload_usable store_usable)
  have "dget (machine_sets (cd_maybe_reload strict disk ?st)) n = Some e"
    using snoc.prems refresh_keeps_machine [OF _ assms(2,3), of _ "machine_sets (cd_maybe_reload strict disk ?st)" n]
    by (simp add: cd_access_sets Let_def split: if_splits option.splits val.splits)
  then have "dget (cd_sets (cd_maybe_reload strict disk ?st)) n = Some e" using machine_sets_dget [OF usable] by blast
  then consider "dget (cd_sets ?st) n = Some e"
    | raw v where "dk_json disk = Some (VDict raw)" "(n, v) \<in> set raw" "parse_set strict v = Some e"
    by (auto simp: cd_maybe_reload_def split: if_splits option.splits val.splits dest!: load_sets_origin)
  then show ?case
  proof cases
    case 1
    then show ?thesis using snoc.IH by (auto simp: read_from_def)
  next
    case 2
    then show ?thesis unfolding read_from_def by (intro exI [of _ disk] exI) auto
  qed
qed (simp add: new_credential_store_def)

lemma resolve_basic:
  assumes "scheme_of e = ''basic''" and "machine_complete e"
  shows "fst (resolve_outbound_auth env delegated name e acquisition tc)
    = Inr \<lparr>ra_scheme = ''basic'', ra_auth = BasicAuth (entry_field e ''username'') (entry_field e ''password''), ra_delegated = False\<rparr>"
proof -
  have "entry_field e ''username'' \<noteq> []" "entry_field e ''password'' \<noteq> []"
    using assms by (simp_all add: machine_complete_def SCHEME_REQUIRED_FIELDS_def)
  then show ?thesis using assms(1) by (simp add: resolve_outbound_auth_def)
qed

lemma resolve_bearer:
  assumes "scheme_of e = ''bearer''" and "machine_complete e"
  shows "fst (resolve_outbound_auth env delegated name e acquisition tc)
    = Inr \<lparr>ra_scheme = ''bearer'', ra_auth = BearerAuth (entry_field e ''token''), ra_delegated = False\<rparr>"
proof -
  have "entry_field e ''token'' \<noteq> []" using assms by (simp add: machine_complete_def SCHEME_REQUIRED_FIELDS_def)
  then show ?thesis using assms(1) by (simp add: resolve_outbound_auth_def)
qed

text \<open>
  C17. A credential set is current and complete. Whatever the file held at earlier accesses, a delegated
  set is offered only when the file, read strictly at this very access, holds it and the strict parser
  accepts it; when it holds a delegated set under the name that the parser refuses, nothing is offered,
  not even an older machine set. A machine set is one that some access read under this name, and it has
  every field of its scheme, so that a basic or bearer set resolves to its own credential.
\<close>

theorem credential_set_current:
  assumes "strict_parser strict" and "strict_reader disk" and "path \<noteq> []"
    and "cd_get strict disk name (fold (cd_access strict) disks (new_credential_store path)) = (found, st)"
  shows "(\<forall>e. found = Some e \<and> scheme_of e = DELEGATED_SCHEME \<longrightarrow>
           (\<exists>raw v. dk_strict disk = Some (VDict raw) \<and> dget raw name = Some v \<and> is_delegated_value v \<and> strict v = Some e))
    \<and> (\<forall>raw v. dk_strict disk = Some (VDict raw) \<and> dget raw name = Some v \<and> is_delegated_value v \<longrightarrow> found = strict v)
    \<and> (\<forall>e. found = Some e \<and> scheme_of e \<noteq> DELEGATED_SCHEME \<longrightarrow>
         read_from strict (disks @ [disk]) name e \<and> machine_complete e
         \<and> (scheme_of e \<in> {''basic'', ''bearer''} \<longrightarrow>
              (\<exists>a. fst (resolve_outbound_auth env delegated name e acquisition tc) = Inr \<lparr>ra_scheme = scheme_of e, ra_auth = a, ra_delegated = False\<rparr>
                 \<and> (a = BasicAuth (entry_field e ''username'') (entry_field e ''password'') \<or> a = BearerAuth (entry_field e ''token'')))))"
proof -
  let ?st = "fold (cd_access strict) disks (new_credential_store path)"
  have all: "found = dget (cd_sets (fold (cd_access strict) (disks @ [disk]) (new_credential_store path))) name"
    and now: "found = dget (cd_sets (cd_access strict disk ?st)) name" using assms(4) by (auto simp: cd_get_def Let_def)
  have path: "cd_path (fold (cd_access strict) ds (new_credential_store path)) = path" for ds
    by (induction ds rule: rev_induct) (auto simp: cd_access_def cd_fresh_delegated_def cd_maybe_reload_def new_credential_store_def Let_def
        split: option.splits val.splits)
  let ?kept = "machine_sets (cd_maybe_reload strict disk ?st)"
  have usable: "sets_usable (cd_maybe_reload strict disk ?st)" using assms(1) by (intro cd_maybe_reload_usable store_usable)
  have no_kept: "scheme_of e \<noteq> DELEGATED_SCHEME" if "dget ?kept name = Some e" for e using that machine_sets_dget [OF usable] by blast
  have lookup: "found = (case dk_strict disk of Some (VDict raw) \<Rightarrow>
      (case dget raw name of None \<Rightarrow> dget ?kept name | Some v \<Rightarrow> if is_delegated_value v then strict v else dget ?kept name) | _ \<Rightarrow> dget ?kept name)"
    using now path [of disks] assms(2,3) dget_refresh_delegated [of _ strict ?kept name]
    by (auto simp: cd_access_sets strict_reader_def Let_def split: option.splits val.splits)
  have "read_from strict (disks @ [disk]) name e" if "found = Some e" "scheme_of e \<noteq> DELEGATED_SCHEME" for e
    using machine_entry_origin [OF _ assms(1) that(2)] all that(1) by simp
  moreover have "machine_complete e" if "found = Some e" "scheme_of e \<noteq> DELEGATED_SCHEME" for e
  proof -
    have "(name, e) \<in> set (cd_sets (fold (cd_access strict) (disks @ [disk]) (new_credential_store path)))"
      using all that(1) by (intro dget_in) simp
    then show ?thesis using store_usable [OF assms(1), of "disks @ [disk]" path] that(2) by (force simp: sets_usable_def list_all_iff)
  qed
  moreover have "\<exists>a. fst (resolve_outbound_auth env delegated name e acquisition tc) = Inr \<lparr>ra_scheme = scheme_of e, ra_auth = a, ra_delegated = False\<rparr>
      \<and> (a = BasicAuth (entry_field e ''username'') (entry_field e ''password'') \<or> a = BearerAuth (entry_field e ''token''))"
    if "machine_complete e" "scheme_of e \<in> {''basic'', ''bearer''}" for e
    using that resolve_basic [of e env delegated name acquisition tc] resolve_bearer [of e env delegated name acquisition tc] by auto
  ultimately show ?thesis using lookup no_kept by (auto split: option.splits val.splits if_splits)
qed

definition demo_machine_file :: val where
  "demo_machine_file = VDict [(''app'', VDict [(''username'', VStr ''svc''), (''password'', VStr ''pw'')])]"

definition demo_disk :: "val \<Rightarrow> int \<Rightarrow> credential_disk" where
  "demo_disk v m = \<lparr>dk_mtime = Some m, dk_json = Some v, dk_strict = Some v\<rparr>"

definition demo_delegated_file :: val where
  "demo_delegated_file = VDict [(''app'', VDict [(''scheme'', VStr ''oauth2_authorization_code'')])]"

theorem credential_set_current_witness:
  "fst (cd_get (\<lambda>_. None) (demo_disk demo_delegated_file 2) ''app'' (fold (cd_access (\<lambda>_. None)) [demo_disk demo_machine_file 1] (new_credential_store ''f''))) = None"
proof -
  have s: "strict_parser (\<lambda>_. None)" by (simp add: strict_parser_def)
  have r: "strict_reader (demo_disk demo_delegated_file 2)"
    by (simp add: strict_reader_def demo_disk_def demo_delegated_file_def dict_ok_def)
  note at = credential_set_current [OF s r, where path = "''f''" and disks = "[demo_disk demo_machine_file 1]" and name = "''app''"]
  obtain found st where run: "cd_get (\<lambda>_. None) (demo_disk demo_delegated_file 2) ''app''
      (fold (cd_access (\<lambda>_. None)) [demo_disk demo_machine_file 1] (new_credential_store ''f'')) = (found, st)" by (metis surj_pair)
  have "found = None"
    using at [OF _ run] by (auto simp: demo_disk_def demo_delegated_file_def is_delegated_value_def DELEGATED_SCHEME_def)
  then show ?thesis using run by simp
qed

section \<open>Tokens come from the endpoint\<close>

type_synonym token_call = "token_env \<times> string \<times> credential_entry"

fun token_step :: "token_call \<Rightarrow> token_client \<Rightarrow> token_client" where
  "token_step (env, name, entry) tc = fst (snd (acquire env name entry tc))"

text \<open>The endpoint granted \<open>t\<close> to a request of this set in this call, until \<open>expires\<close>.\<close>

definition granted_in :: "token_call \<Rightarrow> string \<Rightarrow> string \<Rightarrow> int \<Rightarrow> bool" where
  "granted_in call name t expires =
     (case call of (env, n, entry) \<Rightarrow>
        n = name \<and> (\<exists>rq ttl. build_token_request n entry = Inr rq \<and> granted_token (te_micros env) n (te_endpoint env rq) = Inr (t, ttl)
                        \<and> expires = te_after env + ttl))"

lemma acquire_cases:
  assumes "acquire env name entry tc = (Inr t, tc', rqs)"
  shows "(rqs = [] \<and> tc' = tc \<and> (\<exists>c. dget (tk_cache tc) name = Some c \<and> ct_token c = t \<and> te_now env + tk_margin tc < ct_expires c))
    \<or> (\<exists>rq x. rqs = [rq] \<and> build_token_request name entry = Inr rq \<and> granted_in (env, name, entry) name t x
         \<and> tc' = tc\<lparr>tk_cache := dset name \<lparr>ct_token = t, ct_expires = x\<rparr> (tk_cache tc)\<rparr>)"
  using assms
  by (auto simp: acquire_def fresh_token_def granted_in_def split: option.splits sum.splits prod.splits if_splits)

lemma token_step_cache:
  assumes "dget (tk_cache (token_step call tc)) name = Some c"
  shows "dget (tk_cache tc) name = Some c \<or> granted_in call name (ct_token c) (ct_expires c)"
  using assms
  by (cases call) (auto simp: acquire_def granted_in_def split: option.splits sum.splits prod.splits if_splits)

lemma cache_granted:
  assumes "dget (tk_cache (fold token_step calls new_token_client)) name = Some c"
  shows "\<exists>call \<in> set calls. granted_in call name (ct_token c) (ct_expires c)"
  using assms
proof (induction calls rule: rev_induct)
  case (snoc call calls)
  then show ?case using token_step_cache [of call "fold token_step calls new_token_client" name c] by auto
qed (simp add: new_token_client_def)

text \<open>
  Over any sequence of acquisitions, a token that is handed out was granted by the endpoint to a request
  of the same set, either in this call, by one request, or earlier and then with more than the margin of
  its lifetime left and without a new request.
\<close>

lemma served_token_granted:
  assumes "acquire env name entry (fold token_step calls new_token_client) = (Inr t, tc', rqs)"
  shows "(\<exists>x. length rqs = 1 \<and> granted_in (env, name, entry) name t x)
    \<or> (rqs = [] \<and> (\<exists>call \<in> set calls. \<exists>x. granted_in call name t x \<and> te_now env + DEFAULT_REFRESH_MARGIN < x))"
proof -
  have margin: "tk_margin (fold token_step cs new_token_client) = DEFAULT_REFRESH_MARGIN" for cs
    by (induction cs rule: rev_induct)
      (auto simp: new_token_client_def acquire_def split: prod.splits option.splits sum.splits)
  from acquire_cases [OF assms] show ?thesis
  proof (elim disjE exE conjE)
    fix c
    assume c: "rqs = []" "dget (tk_cache (fold token_step calls new_token_client)) name = Some c" "ct_token c = t"
      "te_now env + tk_margin (fold token_step calls new_token_client) < ct_expires c"
    from cache_granted [OF c(2)] c margin [of calls] show ?thesis by auto
  qed auto
qed

end
