(* ===== verification/Password_Policy.thy ===== *)
theory Password_Policy
  imports Complex_Main Execution_Protocol "HOL-Library.Multiset"
begin

text \<open>
  The password policy of the tool gateway (\<open>tool_gateway/tools/password_policy.py\<close>) and the startup check
  of its overrides (\<open>core/config.py\<close>): the contract store, the reconciled length, and the generator with
  its shuffle. The random source is an argument, \<open>rnd k b\<close> the \<open>k\<close>-th draw below \<open>b\<close>; so are the file
  system, the YAML reader and \<open>math.log2\<close>, whose values are added and multiplied as rationals.
\<close>

section \<open>The contract\<close>

definition DEFAULT_POLICY_FLOOR :: "int \<times> int \<times> int" where
  "DEFAULT_POLICY_FLOOR = (16, 12, 64)"

definition DEFAULT_POLICY_CLASSES :: "string list" where
  "DEFAULT_POLICY_CLASSES = [''upper'', ''lower'', ''digit'', ''symbol'']"

definition MAX_PASSWORD_LENGTH :: int where
  "MAX_PASSWORD_LENGTH = 128"

definition CLASS_ALPHABETS :: "(string, string) dict" where
  "CLASS_ALPHABETS =
     [(''upper'', ''ABCDEFGHIJKLMNOPQRSTUVWXYZ''), (''lower'', ''abcdefghijklmnopqrstuvwxyz''), (''digit'', ''0123456789''),
      (''symbol'', ''!@#$%^&*()-_=+[]{};:,.?'')]"

definition AMBIGUOUS_CHARS :: "char list" where
  "AMBIGUOUS_CHARS = ''Il1O0o''"

definition KNOWN_CLASSES :: "string list" where
  "KNOWN_CLASSES = map fst CLASS_ALPHABETS"

record password_policy =
  pp_min_length :: int
  pp_hard_floor :: int
  pp_classes :: "string list"
  pp_entropy :: int
  pp_exclude :: bool

definition DEFAULT_POLICY :: password_policy where
  "DEFAULT_POLICY = \<lparr>pp_min_length = fst DEFAULT_POLICY_FLOOR, pp_hard_floor = fst (snd DEFAULT_POLICY_FLOOR),
     pp_classes = DEFAULT_POLICY_CLASSES, pp_entropy = snd (snd DEFAULT_POLICY_FLOOR), pp_exclude = False\<rparr>"

text \<open>One constructor per raise of \<open>PasswordPolicyError\<close>, in the order of the code; the last is a \<open>KeyError\<close>.\<close>

datatype password_error =
    RequestTooShort | LengthTooLong int | BelowHardFloor int | ClassesNotCarried int
  | EmptyAlphabet | LengthOutOfBounds | EntropyTooLow int | UnknownClass

definition class_alphabet :: "password_policy \<Rightarrow> string \<Rightarrow> password_error + string" where
  "class_alphabet p char_class =
     (case dget CLASS_ALPHABETS char_class of
        None \<Rightarrow> Inl UnknownClass
      | Some alphabet \<Rightarrow> Inr (if pp_exclude p then filter (\<lambda>c. c \<notin> set AMBIGUOUS_CHARS) alphabet else alphabet))"

fun class_alphabets :: "password_policy \<Rightarrow> string list \<Rightarrow> password_error + string list" where
  "class_alphabets p [] = Inr []"
| "class_alphabets p (c # cs) = rbind (class_alphabet p c) (\<lambda>a. rbind (class_alphabets p cs) (\<lambda>as. Inr (a # as)))"

definition full_alphabet :: "password_policy \<Rightarrow> password_error + string" where
  "full_alphabet p = rbind (class_alphabets p (pp_classes p)) (\<lambda>as. Inr (concat as))"

definition reconcile_length :: "password_policy \<Rightarrow> int option \<Rightarrow> password_error + int" where
  "reconcile_length p requested =
     (let n = int (length (pp_classes p)) in
      if (case requested of None \<Rightarrow> False | Some r \<Rightarrow> r < n) then Inl RequestTooShort
      else let len = max (pp_min_length p) (case requested of None \<Rightarrow> pp_min_length p | Some r \<Rightarrow> if r = 0 then pp_min_length p else r)
           in if len > MAX_PASSWORD_LENGTH then Inl (LengthTooLong len)
              else let len = (if len < pp_min_length p then pp_min_length p else len)
                   in if len < pp_hard_floor p then Inl (BelowHardFloor len)
                      else if len < n then Inl (ClassesNotCarried len)
                      else Inr len)"

section \<open>The generator\<close>

text \<open>The loop \<open>for i in range(len(chars) - 1, 0, -1)\<close>; \<open>r i\<close> is the draw below \<open>i + 1\<close>.\<close>

fun fisher_yates :: "(nat \<Rightarrow> nat) \<Rightarrow> nat \<Rightarrow> 'a list \<Rightarrow> 'a list" where
  "fisher_yates r 0 xs = xs"
| "fisher_yates r (Suc i) xs = fisher_yates r i (xs[Suc i := xs ! r (Suc i), r (Suc i) := xs ! Suc i])"

definition choices :: "(nat \<Rightarrow> nat \<Rightarrow> nat) \<Rightarrow> nat \<Rightarrow> string list \<Rightarrow> string" where
  "choices rnd k alphabets = map (\<lambda>(i, a). a ! rnd i (length a)) (enumerate k alphabets)"

definition entropy_bits :: "(nat \<Rightarrow> rat) \<Rightarrow> int \<Rightarrow> string list \<Rightarrow> rat" where
  "entropy_bits log2 len as =
     of_int (len - int (length as)) * log2 (length (concat as)) + sum_list (map (\<lambda>a. log2 (length a)) as)"

definition generate_password ::
  "(nat \<Rightarrow> rat) \<Rightarrow> (nat \<Rightarrow> nat \<Rightarrow> nat) \<Rightarrow> password_policy \<Rightarrow> int \<Rightarrow> password_error + string" where
  "generate_password log2 rnd p len =
     rbind (full_alphabet p) (\<lambda>alphabet.
       if alphabet = [] then Inl EmptyAlphabet
       else if len < int (length (pp_classes p)) \<or> len > MAX_PASSWORD_LENGTH then Inl LengthOutOfBounds
       else rbind (class_alphabets p (pp_classes p)) (\<lambda>as.
         if entropy_bits log2 len as < of_int (pp_entropy p) then Inl (EntropyTooLow len)
         else let seeds = choices rnd 0 as;
                  chars = seeds @ choices rnd (length seeds) (replicate (nat len - length seeds) alphabet);
                  n = length chars
              in Inr (fisher_yates (\<lambda>i. rnd (n + (n - 1 - i)) (i + 1)) (n - 1) chars)))"

section \<open>Overrides\<close>

definition merge_classes :: "string list \<Rightarrow> string list \<Rightarrow> string list" where
  "merge_classes merged extra = foldl (\<lambda>m c. if c \<in> set m then m else m @ [c]) merged extra"

definition apply_overrides :: "password_policy \<Rightarrow> int option \<Rightarrow> string list option \<Rightarrow> bool \<Rightarrow> password_policy" where
  "apply_overrides p min_length required_classes exclude_ambiguous =
     \<lparr>pp_min_length = (case min_length of None \<Rightarrow> pp_min_length p | Some m \<Rightarrow> max (pp_min_length p) m),
      pp_hard_floor = pp_hard_floor p,
      pp_classes = (case required_classes of None \<Rightarrow> pp_classes p | Some cs \<Rightarrow> merge_classes (pp_classes p) cs),
      pp_entropy = pp_entropy p,
      pp_exclude = (pp_exclude p \<or> exclude_ambiguous)\<rparr>"

text \<open>
  The end of \<open>GatewaySettings.__post_init__\<close>: whether the overrides are accepted, given the default policy
  of the contract at startup (\<open>None\<close> when it is unavailable).
\<close>

definition overrides_accepted :: "password_policy option \<Rightarrow> int option \<Rightarrow> string list option \<Rightarrow> bool" where
  "overrides_accepted startup min_length required_classes \<longleftrightarrow>
     (min_length = None \<and> required_classes = None)
     \<or> (case startup of
          None \<Rightarrow> False
        | Some p \<Rightarrow>
            (case min_length of None \<Rightarrow> True | Some m \<Rightarrow> pp_min_length p \<le> m \<and> m \<le> MAX_PASSWORD_LENGTH)
            \<and> (case required_classes of
                 None \<Rightarrow> True
               | Some cs \<Rightarrow> list_all (\<lambda>c. c \<in> set KNOWN_CLASSES) cs \<and> distinct cs \<and> set (pp_classes p) \<subseteq> set cs))"

section \<open>The contract store\<close>

fun strings_of :: "val list \<Rightarrow> string list option" where
  "strings_of [] = Some []"
| "strings_of (v # vs) = (case (v, strings_of vs) of (VStr s, Some ss) \<Rightarrow> Some (s # ss) | _ \<Rightarrow> None)"

definition parse_policy :: "val \<Rightarrow> password_policy option" where
  "parse_policy raw =
     (case raw of
        VDict d \<Rightarrow>
          (case (get_none d ''min_length'', get_none d ''hard_floor'', get_none d ''entropy_floor_bits'',
                 get_none d ''required_classes'', get_none d ''exclude_ambiguous'') of
             (VInt min_length, VInt hard_floor, VInt entropy, VList vs, VBool excl) \<Rightarrow>
               (case strings_of vs of
                  None \<Rightarrow> None
                | Some classes \<Rightarrow>
                    if list_all (\<lambda>c. c \<in> set KNOWN_CLASSES) classes
                       \<and> fst DEFAULT_POLICY_FLOOR \<le> min_length \<and> min_length \<le> MAX_PASSWORD_LENGTH
                       \<and> fst (snd DEFAULT_POLICY_FLOOR) \<le> hard_floor \<and> hard_floor \<le> min_length
                       \<and> snd (snd DEFAULT_POLICY_FLOOR) \<le> entropy
                       \<and> distinct classes \<and> set DEFAULT_POLICY_CLASSES \<subseteq> set classes
                    then Some \<lparr>pp_min_length = min_length, pp_hard_floor = hard_floor, pp_classes = classes,
                                pp_entropy = entropy, pp_exclude = excl\<rparr>
                    else None)
           | _ \<Rightarrow> None)
      | _ \<Rightarrow> None)"

fun parse_policies :: "(string, val) dict \<Rightarrow> (string, password_policy) dict \<Rightarrow> (string, password_policy) dict option" where
  "parse_policies [] parsed = Some parsed"
| "parse_policies ((name, entry) # rest) parsed =
     (case parse_policy entry of None \<Rightarrow> None | Some p \<Rightarrow> parse_policies rest (dset name p parsed))"

record policy_store =
  po_path :: string
  po_mtime :: "int option"
  po_policies :: "(string, password_policy) dict"
  po_loaded :: bool

definition new_policy_store :: "string \<Rightarrow> policy_store" where
  "new_policy_store path = \<lparr>po_path = path, po_mtime = None, po_policies = [], po_loaded = False\<rparr>"

text \<open>\<open>text\<close>: what \<open>_read_text\<close> returns; \<open>yaml\<close>: \<open>yaml.safe_load\<close>, \<open>None\<close> for a \<open>YAMLError\<close>.\<close>

definition po_reload :: "(string \<Rightarrow> val option) \<Rightarrow> string option \<Rightarrow> int option \<Rightarrow> policy_store \<Rightarrow> policy_store" where
  "po_reload yaml text mtime st =
     (let refused = st\<lparr>po_policies := [], po_loaded := True\<rparr> in
      case Option.bind text yaml of
        Some (VDict raw) \<Rightarrow>
          (case get_none raw ''policies'' of
             VDict policies \<Rightarrow>
               if \<not> dhas policies ''default'' \<or> get_none raw ''version'' \<noteq> VInt 1 then refused
               else (case parse_policies policies [] of
                       None \<Rightarrow> st\<lparr>po_policies := [], po_loaded := False\<rparr>
                     | Some parsed \<Rightarrow>
                         if parsed = [] then refused
                         else st\<lparr>po_policies := parsed, po_mtime := mtime, po_loaded := True\<rparr>)
           | _ \<Rightarrow> refused)
      | _ \<Rightarrow> refused)"

text \<open>What one access finds on disk: the modification time (\<open>None\<close> for an \<open>OSError\<close>) and the text.\<close>

definition po_maybe_reload :: "(string \<Rightarrow> val option) \<Rightarrow> int option \<times> string option \<Rightarrow> policy_store \<Rightarrow> policy_store" where
  "po_maybe_reload yaml disk st =
     (if po_path st = [] then (if po_loaded st then st else po_reload yaml (snd disk) None st)
      else case fst disk of
             None \<Rightarrow> st\<lparr>po_policies := [], po_loaded := False\<rparr>
           | Some m \<Rightarrow>
               if po_loaded st \<and> po_mtime st = Some m then st else po_reload yaml (snd disk) (Some m) st)"

definition po_get ::
  "(string \<Rightarrow> val option) \<Rightarrow> int option \<times> string option \<Rightarrow> string \<Rightarrow> policy_store \<Rightarrow> password_policy option \<times> policy_store" where
  "po_get yaml disk name st = (let st' = po_maybe_reload yaml disk st in (dget (po_policies st') name, st'))"

section \<open>The shuffle\<close>

lemma mset_fisher_yates: "i < length xs \<Longrightarrow> (\<And>k. 0 < k \<Longrightarrow> k \<le> i \<Longrightarrow> r k \<le> k) \<Longrightarrow> mset (fisher_yates r i xs) = mset xs"
proof (induction i arbitrary: xs)
  case (Suc i)
  have "r (Suc i) < length xs" using Suc.prems(1) Suc.prems(2) [of "Suc i"] by simp
  then have "mset (xs[Suc i := xs ! r (Suc i), r (Suc i) := xs ! Suc i]) = mset xs"
    using Suc.prems(1) by (intro mset_swap)
  with Suc show ?case by simp
qed simp

lemma fisher_yates_above: "i < j \<Longrightarrow> (\<And>k. 0 < k \<Longrightarrow> k \<le> i \<Longrightarrow> r k \<le> k) \<Longrightarrow> fisher_yates r i xs ! j = xs ! j"
proof (induction i arbitrary: xs)
  case (Suc i)
  have "r (Suc i) \<le> Suc i" using Suc.prems(2) by simp
  then have "r (Suc i) \<noteq> j" "Suc i \<noteq> j" using Suc.prems(1) by auto
  with Suc show ?case by simp
qed simp

lemma fisher_yates_cong: "(\<And>k. 0 < k \<Longrightarrow> k \<le> i \<Longrightarrow> r k = s k) \<Longrightarrow> fisher_yates r i xs = fisher_yates s i xs"
  by (induction i arbitrary: xs) auto

text \<open>
  The shuffle is exact: every arrangement of distinct characters comes from exactly one sequence of
  draws in their ranges, so draws that are uniform give an arrangement that is uniform.
\<close>

lemma fisher_yates_inj:
  assumes "fisher_yates r i xs = fisher_yates s i xs" and "distinct xs" and "i < length xs" and "0 < k" and "k \<le> i"
    and "\<And>k. 0 < k \<Longrightarrow> k \<le> i \<Longrightarrow> r k \<le> k" and "\<And>k. 0 < k \<Longrightarrow> k \<le> i \<Longrightarrow> s k \<le> k"
  shows "r k = s k"
  using assms
proof (induction i arbitrary: xs)
  case (Suc i)
  let ?sw = "\<lambda>j. xs[Suc i := xs ! j, j := xs ! Suc i]"
  have le: "r (Suc i) \<le> Suc i" "s (Suc i) \<le> Suc i" using Suc.prems by auto
  have "?sw (r (Suc i)) ! Suc i = ?sw (s (Suc i)) ! Suc i"
    using arg_cong [OF Suc.prems(1), of "\<lambda>ys. ys ! Suc i"] Suc.prems(6,7) by (simp add: fisher_yates_above)
  then have "xs ! r (Suc i) = xs ! s (Suc i)"
    using Suc.prems(3) le by (cases "r (Suc i) = Suc i"; cases "s (Suc i) = Suc i") (auto simp: nth_list_update)
  then have top: "r (Suc i) = s (Suc i)" using Suc.prems(2,3) le by (simp add: nth_eq_iff_index_eq)
  have d: "distinct (?sw (s (Suc i)))" using Suc.prems(2,3) le by (simp add: distinct_swap)
  show ?case
  proof (cases "k = Suc i")
    case False
    then show ?thesis using Suc.IH [of "?sw (s (Suc i))"] Suc.prems d top by auto
  qed (simp add: top)
qed simp

lemma fisher_yates_onto:
  assumes "mset ys = mset xs" and "i < length xs" and "\<And>j. i < j \<Longrightarrow> j < length xs \<Longrightarrow> ys ! j = xs ! j"
  shows "\<exists>r. (\<forall>k. 0 < k \<and> k \<le> i \<longrightarrow> r k \<le> k) \<and> fisher_yates r i xs = ys"
  using assms
proof (induction i arbitrary: xs)
  case 0
  have len: "length ys = length xs" using 0 by (metis size_mset)
  from 0 obtain x xs' y ys' where c: "xs = x # xs'" "ys = y # ys'" using len by (cases xs; cases ys) auto
  have "ys' = xs'" using 0(3) len c by (metis Suc_less_eq length_Cons list.inject nat.inject nth_Cons_Suc nth_equalityI zero_less_Suc)
  with 0(1) c have "ys = xs" by simp
  then show ?case by auto
next
  case (Suc i)
  have len: "length ys = length xs" using Suc.prems by (metis size_mset)
  have tops: "drop (Suc (Suc i)) ys = drop (Suc (Suc i)) xs"
    using Suc.prems(3) len by (intro nth_equalityI) auto
  have "mset (take (Suc (Suc i)) ys) = mset (take (Suc (Suc i)) xs)"
    using Suc.prems(1) tops by (metis add_right_cancel append_take_drop_id mset_append)
  moreover have "ys ! Suc i \<in> set (take (Suc (Suc i)) ys)"
    using Suc.prems(2) len by (metis in_set_conv_nth length_take lessI min_less_iff_conj nth_take)
  ultimately have "ys ! Suc i \<in> set (take (Suc (Suc i)) xs)" by (metis set_mset_mset)
  then obtain j where j: "j \<le> Suc i" "xs ! j = ys ! Suc i" by (auto simp: in_set_conv_nth less_Suc_eq_le)
  let ?zs = "xs[Suc i := xs ! j, j := xs ! Suc i]"
  have m: "mset ys = mset ?zs" using Suc.prems(1,2) j(1) mset_swap [of j xs "Suc i"] by simp
  have "ys ! k = ?zs ! k" if "i < k" "k < length ?zs" for k
    using that Suc.prems j by (cases "k = Suc i") (auto simp: nth_list_update)
  with Suc.IH [OF m] Suc.prems(2) obtain r where r: "\<forall>k. 0 < k \<and> k \<le> i \<longrightarrow> r k \<le> k" "fisher_yates r i ?zs = ys" by auto
  have "fisher_yates (r(Suc i := j)) i ?zs = ys"
    using r(2) fisher_yates_cong [of i "r(Suc i := j)" r ?zs] by auto
  moreover have "\<forall>k. 0 < k \<and> k \<le> Suc i \<longrightarrow> (r(Suc i := j)) k \<le> k" using r(1) j(1) by (auto simp: le_Suc_eq)
  moreover have "fisher_yates (r(Suc i := j)) (Suc i) xs = fisher_yates (r(Suc i := j)) i ?zs" by (simp del: fun_upd_apply add: fun_upd_same)
  ultimately show ?case by metis
qed

section \<open>What a generated password satisfies\<close>

definition class_has :: "password_policy \<Rightarrow> string \<Rightarrow> char \<Rightarrow> bool" where
  "class_has p c x = (case class_alphabet p c of Inl _ \<Rightarrow> False | Inr a \<Rightarrow> x \<in> set a)"

definition conforms :: "password_policy \<Rightarrow> string \<Rightarrow> bool" where
  "conforms p pw \<longleftrightarrow>
     list_all (\<lambda>c. list_ex (class_has p c) pw) (pp_classes p)
     \<and> list_all (\<lambda>x. list_ex (\<lambda>c. class_has p c x) (pp_classes p)) pw"

text \<open>\<open>secrets.choice\<close> and \<open>secrets.randbelow\<close> stay in their range.\<close>

definition draws_ok :: "(nat \<Rightarrow> nat \<Rightarrow> nat) \<Rightarrow> bool" where
  "draws_ok rnd \<longleftrightarrow> (\<forall>k b. 0 < b \<longrightarrow> rnd k b < b)"

lemma class_alphabet_nonempty: "class_alphabet p c = Inr a \<Longrightarrow> a \<noteq> []"
  by (auto simp: class_alphabet_def CLASS_ALPHABETS_def AMBIGUOUS_CHARS_def dget_def split: if_splits)

lemma class_alphabets_Inr:
  "class_alphabets p cs = Inr as \<Longrightarrow> length as = length cs \<and> (\<forall>i<length cs. class_alphabet p (cs ! i) = Inr (as ! i))"
proof (induction cs arbitrary: as)
  case (Cons c cs)
  then obtain a as' where a: "class_alphabet p c = Inr a" "class_alphabets p cs = Inr as'" "as = a # as'" by auto
  with Cons.IH [OF a(2)] show ?case by (auto simp: nth_Cons split: nat.splits)
qed simp

lemma class_alphabets_known: "set cs \<subseteq> set KNOWN_CLASSES \<Longrightarrow> \<exists>as. class_alphabets p cs = Inr as"
proof (induction cs)
  case (Cons c cs)
  have "\<exists>a. class_alphabet p c = Inr a"
    using Cons.prems by (auto simp: class_alphabet_def KNOWN_CLASSES_def CLASS_ALPHABETS_def dget_def)
  with Cons show ?case by auto
qed simp

lemma length_choices [simp]: "length (choices rnd k as) = length as"
  by (simp add: choices_def)

lemma choices_nth:
  assumes "draws_ok rnd" and "i < length as" and "as ! i \<noteq> []"
  shows "choices rnd k as ! i \<in> set (as ! i)"
  using assms by (auto simp: choices_def nth_enumerate_eq draws_ok_def)

lemma class_alphabets_class_has:
  assumes "class_alphabets p cs = Inr as" and "i < length cs"
  shows "class_has p (cs ! i) x \<longleftrightarrow> x \<in> set (as ! i)"
  using class_alphabets_Inr [OF assms(1)] assms(2) by (auto simp: class_has_def)

lemma generate_password_Inr:
  assumes "generate_password log2 rnd p len = Inr pw" and "draws_ok rnd"
  shows "int (length pw) = len \<and> len \<le> MAX_PASSWORD_LENGTH \<and> conforms p pw
    \<and> (\<exists>as. class_alphabets p (pp_classes p) = Inr as \<and> of_int (pp_entropy p) \<le> entropy_bits log2 len as)"
proof -
  from assms(1) obtain as where as: "class_alphabets p (pp_classes p) = Inr as" and ne: "concat as \<noteq> []"
    and len: "int (length (pp_classes p)) \<le> len" "len \<le> MAX_PASSWORD_LENGTH"
    and ent: "of_int (pp_entropy p) \<le> entropy_bits log2 len as"
    and pw: "pw = (let chars = choices rnd 0 as @ choices rnd (length as) (replicate (nat len - length as) (concat as));
                       n = length chars in fisher_yates (\<lambda>i. rnd (n + (n - 1 - i)) (i + 1)) (n - 1) chars)"
    by (auto simp: generate_password_def full_alphabet_def Let_def split: if_splits)
  note ca = class_alphabets_Inr [OF as]
  define rest where "rest = choices rnd (length as) (replicate (nat len - length as) (concat as))"
  let ?chars = "choices rnd 0 as @ rest"
  have lc: "length ?chars = nat len" using len(1) ca by (simp add: rest_def)
  have mem: "set pw = set ?chars \<and> length pw = nat len"
  proof (cases "nat len")
    case 0
    then show ?thesis using lc by (simp add: pw rest_def [symmetric] Let_def)
  next
    case (Suc n)
    have "mset pw = mset ?chars"
      unfolding pw rest_def [symmetric] Let_def using lc Suc assms(2)
      by (intro mset_fisher_yates) (auto simp: draws_ok_def less_Suc_eq_le [symmetric])
    then show ?thesis using lc by (metis mset_eq_setD size_mset)
  qed
  have seed: "choices rnd 0 as ! i \<in> set pw \<and> class_has p (pp_classes p ! i) (choices rnd 0 as ! i)" if "i < length (pp_classes p)" for i
    using that ca choices_nth [OF assms(2), of i as 0] class_alphabet_nonempty class_alphabets_class_has [OF as that] mem
    by (auto simp: in_set_conv_nth nth_append intro!: disjI1)
  have "x \<in> set (concat as)" if "x \<in> set pw" for x
  proof -
    from that mem consider "x \<in> set (choices rnd 0 as)" | "x \<in> set rest" by auto
    then show ?thesis
    proof cases
      case 1
      then obtain i where i: "i < length as" "x = choices rnd 0 as ! i" by (auto simp: in_set_conv_nth)
      with ca choices_nth [OF assms(2), of i as 0] class_alphabet_nonempty have "x \<in> set (as ! i)" by metis
      then show ?thesis using i(1) by (auto intro!: bexI [OF _ nth_mem])
    next
      case 2
      then obtain i where i: "i < nat len - length as" "x = rest ! i" by (auto simp: rest_def in_set_conv_nth)
      then show ?thesis
        using ne choices_nth [OF assms(2), of i "replicate (nat len - length as) (concat as)" "length as"] by (simp add: rest_def)
    qed
  qed
  then have "\<exists>i<length (pp_classes p). class_has p (pp_classes p ! i) x" if "x \<in> set pw" for x
    using that class_alphabets_class_has [OF as] ca by (fastforce simp: in_set_conv_nth [of _ as])
  with seed have "conforms p pw" by (fastforce simp: conforms_def list_all_iff list_ex_iff in_set_conv_nth [of _ "pp_classes p"])
  with mem len as ent show ?thesis by auto
qed

section \<open>The floor\<close>

definition policy_at_floor :: "password_policy \<Rightarrow> bool" where
  "policy_at_floor p \<longleftrightarrow>
     16 \<le> pp_min_length p \<and> pp_min_length p \<le> MAX_PASSWORD_LENGTH \<and> 12 \<le> pp_hard_floor p \<and> pp_hard_floor p \<le> pp_min_length p
     \<and> 64 \<le> pp_entropy p \<and> distinct (pp_classes p) \<and> set DEFAULT_POLICY_CLASSES \<subseteq> set (pp_classes p)
     \<and> set (pp_classes p) \<subseteq> set KNOWN_CLASSES"

definition policies_at_floor :: "policy_store \<Rightarrow> bool" where
  "policies_at_floor st \<longleftrightarrow> list_all (\<lambda>e. policy_at_floor (snd e)) (po_policies st)"

lemma parse_policy_at_floor: "parse_policy raw = Some p \<Longrightarrow> policy_at_floor p"
  by (auto simp: parse_policy_def policy_at_floor_def DEFAULT_POLICY_FLOOR_def list_all_iff
      split: val.splits option.splits if_splits)

lemma parse_policies_at_floor:
  "parse_policies d parsed = Some ps \<Longrightarrow> list_all (\<lambda>e. policy_at_floor (snd e)) parsed \<Longrightarrow> list_all (\<lambda>e. policy_at_floor (snd e)) ps"
  by (induction d parsed rule: parse_policies.induct)
    (auto split: option.splits intro: dset_list_all parse_policy_at_floor)

lemma po_reload_at_floor: "policies_at_floor (po_reload yaml text mtime st)"
  by (auto simp: po_reload_def policies_at_floor_def Let_def dest: parse_policies_at_floor split: option.splits val.splits)

lemma po_maybe_reload_at_floor: "policies_at_floor st \<Longrightarrow> policies_at_floor (po_maybe_reload yaml disk st)"
  using po_reload_at_floor [of yaml] by (auto simp: po_maybe_reload_def policies_at_floor_def split: option.splits)

text \<open>Whatever the file holds at each access, every policy the store offers meets the floor.\<close>

interpretation policy_contract: invariant_machine "po_maybe_reload yaml" policies_at_floor for yaml
  by unfold_locales (rule po_maybe_reload_at_floor)

lemma stored_policy_at_floor:
  assumes "dget (po_policies (fold (po_maybe_reload yaml) accesses (new_policy_store path))) name = Some p"
  shows "policy_at_floor p"
proof -
  have "policies_at_floor (fold (po_maybe_reload yaml) accesses (new_policy_store path))"
    by (rule policy_contract.run_inv) (simp add: policies_at_floor_def new_policy_store_def)
  then show ?thesis using assms by (auto simp: policies_at_floor_def list_all_iff dget_def dest!: map_of_SomeD)
qed

text \<open>
  Overrides only tighten: the length grows, no class is lost, the exclusion stays, and the policy is
  still at the floor. The classes are merged without repetition.
\<close>

lemma merge_classes_set:
  "distinct m \<Longrightarrow> distinct (merge_classes m cs) \<and> set (merge_classes m cs) = set m \<union> set cs"
proof (induction cs arbitrary: m)
  case (Cons c cs)
  have "merge_classes m (c # cs) = merge_classes (if c \<in> set m then m else m @ [c]) cs" by (simp add: merge_classes_def)
  moreover have "distinct (if c \<in> set m then m else m @ [c])" using Cons.prems by auto
  ultimately show ?case using Cons.IH [of "if c \<in> set m then m else m @ [c]"] by auto
qed (simp add: merge_classes_def)

lemma apply_overrides_tightens:
  assumes "policy_at_floor p" and "overrides_accepted startup ml cs"
  shows "policy_at_floor (apply_overrides p ml cs ex)"
    and "pp_min_length p \<le> pp_min_length (apply_overrides p ml cs ex)"
    and "set (pp_classes p) \<subseteq> set (pp_classes (apply_overrides p ml cs ex))"
    and "pp_exclude (apply_overrides p ml cs ex) \<longleftrightarrow> pp_exclude p \<or> ex"
  using assms merge_classes_set [of "pp_classes p"]
  by (auto simp: apply_overrides_def policy_at_floor_def overrides_accepted_def list_all_iff split: option.splits)

text \<open>The packaged contract.\<close>

definition packaged_contract :: val where
  "packaged_contract = VDict [(''version'', VInt 1), (''policies'', VDict [(''default'', VDict
     [(''min_length'', VInt 16), (''hard_floor'', VInt 12),
      (''required_classes'', VList [VStr ''upper'', VStr ''lower'', VStr ''digit'', VStr ''symbol'']),
      (''entropy_floor_bits'', VInt 64), (''exclude_ambiguous'', VBool False)])])]"

lemma packaged_default:
  assumes "yaml text = Some packaged_contract"
  shows "po_get yaml (m, Some text) ''default'' (new_policy_store []) = (Some DEFAULT_POLICY,
    \<lparr>po_path = [], po_mtime = None, po_policies = [(''default'', DEFAULT_POLICY)], po_loaded = True\<rparr>)"
  using assms
  by (simp add: po_get_def po_maybe_reload_def new_policy_store_def po_reload_def packaged_contract_def get_none_def dhas_def
      parse_policy_def DEFAULT_POLICY_FLOOR_def DEFAULT_POLICY_CLASSES_def DEFAULT_POLICY_def KNOWN_CLASSES_def CLASS_ALPHABETS_def
      MAX_PASSWORD_LENGTH_def Let_def)

section \<open>Generation succeeds\<close>

definition log2_ok :: "(nat \<Rightarrow> rat) \<Rightarrow> bool" where
  "log2_ok log2 \<longleftrightarrow> (\<forall>k n. 2 ^ k \<le> n \<longrightarrow> of_nat k \<le> log2 n)"

lemma reconcile_length_Inr_iff:
  assumes "policy_at_floor p"
  shows "reconcile_length p requested = Inr len \<longleftrightarrow>
    (case requested of
       None \<Rightarrow> len = pp_min_length p
     | Some r \<Rightarrow> int (length (pp_classes p)) \<le> r \<and> r \<le> MAX_PASSWORD_LENGTH \<and> len = max (pp_min_length p) r)"
proof -
  have "length (pp_classes p) = card (set (pp_classes p))" using assms by (simp add: policy_at_floor_def distinct_card)
  also have "\<dots> \<le> card (set KNOWN_CLASSES)" using assms by (intro card_mono) (auto simp: policy_at_floor_def)
  also have "\<dots> = 4" by (simp add: KNOWN_CLASSES_def CLASS_ALPHABETS_def)
  finally have n: "length (pp_classes p) \<le> 4" .
  moreover have "0 < length (pp_classes p)" using assms by (auto simp: policy_at_floor_def DEFAULT_POLICY_CLASSES_def)
  ultimately show ?thesis using assms
    by (auto simp: reconcile_length_def policy_at_floor_def Let_def MAX_PASSWORD_LENGTH_def split: option.splits if_splits)
qed

text \<open>At the floor the classes are the four known ones, in some order.\<close>

lemma floor_classes: "policy_at_floor p \<Longrightarrow> mset (pp_classes p) = mset DEFAULT_POLICY_CLASSES"
  by (subst set_eq_iff_mset_eq_distinct [symmetric])
    (auto simp: policy_at_floor_def KNOWN_CLASSES_def CLASS_ALPHABETS_def DEFAULT_POLICY_CLASSES_def)

definition alphabet_of :: "password_policy \<Rightarrow> string \<Rightarrow> string" where
  "alphabet_of p c = (case class_alphabet p c of Inl _ \<Rightarrow> [] | Inr a \<Rightarrow> a)"

lemma class_alphabets_map: "class_alphabets p cs = Inr as \<Longrightarrow> as = map (alphabet_of p) cs"
  using class_alphabets_Inr by (intro nth_equalityI) (auto simp: alphabet_of_def)

lemma alphabet_sizes:
  "24 \<le> length (alphabet_of p ''upper'')" "24 \<le> length (alphabet_of p ''lower'')"
  "8 \<le> length (alphabet_of p ''digit'')" "23 \<le> length (alphabet_of p ''symbol'')"
  by (simp_all add: alphabet_of_def class_alphabet_def CLASS_ALPHABETS_def AMBIGUOUS_CHARS_def dget_def)

lemma sum_over_classes:
  fixes f :: "string \<Rightarrow> 'b::comm_monoid_add"
  assumes "policy_at_floor p"
  shows "sum_list (map f (pp_classes p)) = f ''upper'' + f ''lower'' + f ''digit'' + f ''symbol''"
proof -
  have "sum_list (map f (pp_classes p)) = sum_mset (image_mset f (mset (pp_classes p)))" by (simp add: sum_mset_sum_list [symmetric])
  also have "\<dots> = f ''upper'' + f ''lower'' + f ''digit'' + f ''symbol''"
    by (simp add: floor_classes [OF assms] DEFAULT_POLICY_CLASSES_def ac_simps)
  finally show ?thesis .
qed

lemma floor_alphabet:
  assumes "policy_at_floor p" and "class_alphabets p (pp_classes p) = Inr as"
  shows "79 \<le> length (concat as)"
  using sum_over_classes [OF assms(1), of "\<lambda>c. length (alphabet_of p c)"] alphabet_sizes [of p]
  by (simp add: class_alphabets_map [OF assms(2)] length_concat comp_def)

lemma floor_entropy:
  assumes p: "policy_at_floor p" and as: "class_alphabets p (pp_classes p) = Inr as" and l: "log2_ok log2" and len: "16 \<le> len"
  shows "87 \<le> entropy_bits log2 len as"
proof -
  have big: "of_nat k \<le> log2 n" if "2 ^ k \<le> n" for k n using l that by (simp add: log2_ok_def)
  have n: "length as = 4"
    using class_alphabets_Inr [OF as] arg_cong [OF floor_classes [OF p], of size] by (simp add: DEFAULT_POLICY_CLASSES_def)
  have six: "6 \<le> log2 (length (concat as))" using big [of 6] floor_alphabet [OF p as] by simp
  have "of_int (len - 4) * 6 \<le> of_int (len - 4) * log2 (length (concat as))"
    using six len by (intro mult_left_mono) auto
  moreover have "(72::rat) \<le> of_int (len - 4) * 6"
  proof -
    have "of_int 12 \<le> (of_int (len - 4) :: rat)" using len by (subst of_int_le_iff) simp
    then show ?thesis by simp
  qed
  moreover have "4 + 4 + 3 + 4 \<le> sum_list (map (\<lambda>a. log2 (length a)) as)"
    using sum_over_classes [OF p, of "\<lambda>c. log2 (length (alphabet_of p c))"] alphabet_sizes [of p]
      big [of 4 "length (alphabet_of p ''upper'')"] big [of 4 "length (alphabet_of p ''lower'')"]
      big [of 3 "length (alphabet_of p ''digit'')"] big [of 4 "length (alphabet_of p ''symbol'')"]
    by (simp add: class_alphabets_map [OF as] comp_def)
  ultimately show ?thesis by (simp add: entropy_bits_def n)
qed

lemma generation_succeeds:
  assumes "policy_at_floor p" and "pp_entropy p \<le> 87" and "log2_ok log2" and "reconcile_length p requested = Inr len"
  shows "\<exists>pw. generate_password log2 rnd p len = Inr pw"
proof -
  have len: "16 \<le> len" "len \<le> MAX_PASSWORD_LENGTH" "int (length (pp_classes p)) \<le> len"
    using assms(1,4) by (auto simp: reconcile_length_def policy_at_floor_def Let_def split: if_splits)
  obtain as where as: "class_alphabets p (pp_classes p) = Inr as"
    using class_alphabets_known [of "pp_classes p" p] assms(1) by (auto simp: policy_at_floor_def)
  have "concat as \<noteq> []" using floor_alphabet [OF assms(1) as] by (metis list.size(3) not_numeral_le_zero)
  moreover have "of_int (pp_entropy p) \<le> entropy_bits log2 len as"
    using floor_entropy [OF assms(1) as assms(3) len(1)] assms(2) by (meson of_int_le_numeral_iff order_trans)
  ultimately show ?thesis using len as by (simp add: generate_password_def full_alphabet_def Let_def)
qed

text \<open>
  The contract's comment says that a request below \<open>hard_floor\<close> is refused; the code raises every request
  that can carry the classes to the minimum.
\<close>

lemma short_request_raised: "reconcile_length DEFAULT_POLICY (Some 8) = Inr 16"
  by (simp add: reconcile_length_def DEFAULT_POLICY_def DEFAULT_POLICY_FLOOR_def DEFAULT_POLICY_CLASSES_def MAX_PASSWORD_LENGTH_def)

text \<open>
  A failed reload keeps the modification time of the last good one: a good file that comes back with
  that time is not read again, and generation stays refused.
\<close>

lemma restored_contract_not_read:
  assumes "po_path st \<noteq> []" and "po_mtime st = Some m" and "m \<noteq> m'" and "yaml broken = None"
  shows "po_policies (fold (po_maybe_reload yaml) ((Some m', Some broken) # replicate n (Some m, Some good)) st) = []"
proof -
  have "fold (po_maybe_reload yaml) (replicate n (Some m, Some good)) (st\<lparr>po_policies := [], po_loaded := True\<rparr>)
      = st\<lparr>po_policies := [], po_loaded := True\<rparr>"
    using assms(1,2) by (induction n) (simp_all add: po_maybe_reload_def)
  then show ?thesis using assms by (simp add: po_maybe_reload_def po_reload_def Let_def)
qed

end
