(* ===== verification/Secret_Delivery.thy ===== *)
theory Secret_Delivery
  imports Execution_Protocol
begin

text \<open>
  The one-time delivery of generated secrets (\<open>tool_gateway/tools/secret_delivery.py\<close>): the in-memory
  buffer with its expiry and eviction, and what the Redis backend makes of a stored payload. The clock,
  fresh identifiers and Redis' replies are arguments.
\<close>

section \<open>The in-memory buffer\<close>

definition DEFAULT_DELIVERY_TTL_SECONDS :: int where
  "DEFAULT_DELIVERY_TTL_SECONDS = 300"

definition DEFAULT_DELIVERY_MAX_ENTRIES :: int where
  "DEFAULT_DELIVERY_MAX_ENTRIES = 256"

record delivery_entry =
  en_value :: string
  en_owner :: string
  en_session :: "string option"
  en_expires :: int

record delivery_buffer =
  db_ttl :: int
  db_max :: nat
  db_entries :: "(string, delivery_entry) dict"

definition new_buffer :: "int \<Rightarrow> int \<Rightarrow> delivery_buffer" where
  "new_buffer ttl max_entries = \<lparr>db_ttl = ttl, db_max = nat (max 1 max_entries), db_entries = []\<rparr>"

definition purge_expired :: "int \<Rightarrow> (string, delivery_entry) dict \<Rightarrow> (string, delivery_entry) dict" where
  "purge_expired now es = dpops (map fst (filter (\<lambda>e. en_expires (snd e) \<le> now) es)) es"

text \<open>\<open>min(entries, key=...)\<close> takes the first of the smallest.\<close>

function evict_oldest :: "nat \<Rightarrow> (string, delivery_entry) dict \<Rightarrow> (string, delivery_entry) dict" where
  "evict_oldest m es =
     (case es of
        [] \<Rightarrow> []
      | e # rest \<Rightarrow>
          if m < length es then evict_oldest m (dpop (fst (py_min_by (\<lambda>x. en_expires (snd x)) e rest)) es) else es)"
  by pat_completeness auto

termination
proof (relation "measure (length \<circ> snd)")
  fix m :: nat and es rest :: "(string, delivery_entry) dict" and e
  assume "es = e # rest"
  then show "((m, dpop (fst (py_min_by (\<lambda>x. en_expires (snd x)) e rest)) es), m, es) \<in> measure (length \<circ> snd)"
    using py_min_by_mem [of "\<lambda>x. en_expires (snd x)" e rest] by (auto simp: dpop_def le_imp_less_Suc intro!: length_filter_less)
qed simp

declare evict_oldest.simps [simp del]

definition stash :: "int \<Rightarrow> string \<Rightarrow> string \<Rightarrow> string \<Rightarrow> string option \<Rightarrow> int option \<Rightarrow> delivery_buffer \<Rightarrow> string \<times> delivery_buffer" where
  "stash now fresh secret owner session ttl_seconds b =
     (let ttl = (case ttl_seconds of None \<Rightarrow> db_ttl b | Some t \<Rightarrow> t);
          es = dset fresh \<lparr>en_value = secret, en_owner = owner, en_session = session, en_expires = now + ttl\<rparr>
                 (purge_expired now (db_entries b))
      in (fresh, b\<lparr>db_entries := evict_oldest (db_max b) es\<rparr>))"

definition redeem :: "int \<Rightarrow> string \<Rightarrow> string \<Rightarrow> delivery_buffer \<Rightarrow> string option \<times> delivery_buffer" where
  "redeem now delivery_id owner b =
     (let es = purge_expired now (db_entries b); b' = b\<lparr>db_entries := dpop delivery_id es\<rparr> in
      case dget es delivery_id of
        None \<Rightarrow> (None, b')
      | Some e \<Rightarrow>
          if en_expires e \<le> now then (None, b')
          else if en_owner e \<noteq> owner then (None, b')
          else (Some (en_value e), b'))"

definition discard :: "int \<Rightarrow> string \<Rightarrow> string \<Rightarrow> delivery_buffer \<Rightarrow> bool \<times> delivery_buffer" where
  "discard now delivery_id owner b =
     (let es = purge_expired now (db_entries b); b' = b\<lparr>db_entries := es\<rparr> in
      case dget es delivery_id of
        None \<Rightarrow> (False, b')
      | Some e \<Rightarrow>
          if en_expires e \<le> now then (False, b')
          else if owner = [] \<or> en_owner e \<noteq> owner then (False, b')
          else (True, b'\<lparr>db_entries := dpop delivery_id es\<rparr>))"

section \<open>The Redis backend\<close>

text \<open>\<open>json.dumps\<close> of the payload is an argument of the store's text; \<open>loads\<close> reads a reply, \<open>None\<close> for an exception.\<close>

definition redis_payload :: "delivery_entry \<Rightarrow> val" where
  "redis_payload e =
     VDict [(''value'', VStr (en_value e)), (''owner_sub'', VStr (en_owner e)),
            (''session_id'', case en_session e of None \<Rightarrow> VNone | Some s \<Rightarrow> VStr s)]"

definition redis_owned :: "(string \<Rightarrow> val option) \<Rightarrow> string option \<Rightarrow> string \<Rightarrow> (string, val) dict option" where
  "redis_owned loads reply owner =
     (case Option.bind reply loads of
        Some (VDict d) \<Rightarrow> if owner = [] \<or> get_none d ''owner_sub'' \<noteq> VStr owner then None else Some d
      | _ \<Rightarrow> None)"

definition redis_redeem :: "(string \<Rightarrow> val option) \<Rightarrow> string option \<Rightarrow> string \<Rightarrow> string option" where
  "redis_redeem loads reply owner =
     (case redis_owned loads reply owner of
        None \<Rightarrow> None
      | Some d \<Rightarrow> (case get_none d ''value'' of VStr v \<Rightarrow> Some v | _ \<Rightarrow> None))"

text \<open>\<open>discard\<close>: whether the key is deleted.\<close>

definition redis_discard :: "(string \<Rightarrow> val option) \<Rightarrow> string option \<Rightarrow> string \<Rightarrow> bool" where
  "redis_discard loads reply owner \<longleftrightarrow> redis_owned loads reply owner \<noteq> None"

text \<open>\<open>build_secret_delivery_buffer\<close>: the backend chosen, \<open>None\<close> when startup fails.\<close>

datatype delivery_backend = MemoryBackend | RedisBackend

definition build_backend :: "string \<Rightarrow> bool \<Rightarrow> delivery_backend option" where
  "build_backend backend redis_reachable =
     (if backend = ''memory'' then Some MemoryBackend
      else if backend \<noteq> ''redis'' then None
      else if redis_reachable then Some RedisBackend else Some MemoryBackend)"

section \<open>Histories\<close>

datatype delivery_op =
    Stash int string string string "string option" "int option"
  | Redeem int string string
  | Discard int string string

fun delivery_step :: "delivery_op \<Rightarrow> delivery_buffer \<Rightarrow> delivery_buffer" where
  "delivery_step (Stash now fresh secret owner session ttl) b = snd (stash now fresh secret owner session ttl b)"
| "delivery_step (Redeem now i owner) b = snd (redeem now i owner b)"
| "delivery_step (Discard now i owner) b = snd (discard now i owner b)"

fun op_time :: "delivery_op \<Rightarrow> int" where
  "op_time (Stash now _ _ _ _ _) = now"
| "op_time (Redeem now _ _) = now"
| "op_time (Discard now _ _) = now"

text \<open>An operation after which the entry \<open>e\<close> under \<open>i\<close> is still there, unless it is evicted.\<close>

definition leaves :: "string \<Rightarrow> delivery_entry \<Rightarrow> delivery_op \<Rightarrow> bool" where
  "leaves i e op \<longleftrightarrow>
     op_time op < en_expires e
     \<and> (case op of
          Stash _ j _ _ _ _ \<Rightarrow> j \<noteq> i
        | Redeem _ j _ \<Rightarrow> j \<noteq> i
        | Discard _ j owner \<Rightarrow> j \<noteq> i \<or> owner = [] \<or> owner \<noteq> en_owner e)"

fun is_stash :: "delivery_op \<Rightarrow> bool" where
  "is_stash (Stash _ _ _ _ _ _) = True"
| "is_stash _ = False"

section \<open>What the buffer holds\<close>

lemma dget_purge: "dict_ok es \<Longrightarrow> dget (purge_expired now es) i = (case dget es i of None \<Rightarrow> None | Some e \<Rightarrow> if en_expires e \<le> now then None else Some e)"
  unfolding purge_expired_def
  by (auto simp: dict_ok_dget image_iff split: option.splits dest: dict_ok_pair_unique)

lemma dict_ok_purge [simp]: "dict_ok es \<Longrightarrow> dict_ok (purge_expired now es)"
  by (simp add: purge_expired_def)

lemma length_purge: "length (purge_expired now es) \<le> length es"
  by (simp add: purge_expired_def dpops_def)

lemma evict_within: "length es \<le> m \<Longrightarrow> evict_oldest m es = es"
  by (subst evict_oldest.simps) (auto split: list.splits)

lemma evict_keeps:
  assumes "P es" and "\<And>es k. P es \<Longrightarrow> P (dpop k es)"
  shows "P (evict_oldest m es) \<and> length (evict_oldest m es) \<le> m"
  using assms(1)
proof (induction m es rule: evict_oldest.induct)
  case (1 m es)
  show ?case
  proof (cases "m < length es")
    case True
    then obtain x rest where es: "es = x # rest" by (cases es) auto
    let ?es = "dpop (fst (py_min_by (\<lambda>x. en_expires (snd x)) x rest)) es"
    have "evict_oldest m es = evict_oldest m ?es" using True es by (subst evict_oldest.simps) simp
    then show ?thesis using "1.IH" [OF es True] assms(2) [OF "1.prems"] by simp
  qed (simp add: evict_within "1.prems")
qed

lemma evict_bound: "length (evict_oldest m es) \<le> m"
  using evict_keeps [of "\<lambda>_. True"] by simp

lemma length_evict: "length (evict_oldest m es) \<le> length es"
  by (rule evict_keeps [of "\<lambda>es'. length es' \<le> length es", THEN conjunct1]) (auto intro: le_trans [OF length_dpop_le])

lemma dict_ok_evict [simp]: "dict_ok es \<Longrightarrow> dict_ok (evict_oldest m es)"
  using evict_keeps [of dict_ok] by simp

lemma dget_evict: "dget (evict_oldest m es) i = Some e \<Longrightarrow> dget es i = Some e"
  using evict_keeps [of "\<lambda>es'. \<forall>e. dget es' i = Some e \<longrightarrow> dget es i = Some e" es m] by simp

definition buffer_ok :: "delivery_buffer \<Rightarrow> bool" where
  "buffer_ok b \<longleftrightarrow> dict_ok (db_entries b) \<and> length (db_entries b) \<le> db_max b"

lemma dpop_purge_length: "length (dpop i (purge_expired now es)) \<le> length es"
  by (rule le_trans [OF length_dpop_le length_purge])

lemma delivery_step_ok: "buffer_ok b \<Longrightarrow> buffer_ok (delivery_step op b)"
  using dpop_purge_length [of _ _ "db_entries b"] length_purge [of _ "db_entries b"] evict_bound
  by (cases op) (auto simp: buffer_ok_def stash_def redeem_def discard_def Let_def split: option.splits intro: le_trans)

interpretation delivery_history: invariant_machine delivery_step buffer_ok
  by unfold_locales (rule delivery_step_ok)

lemma delivery_config [simp]: "db_ttl (delivery_step op b) = db_ttl b" "db_max (delivery_step op b) = db_max b"
  by (cases op; auto simp: stash_def redeem_def discard_def Let_def split: option.splits)+

lemma delivery_configs [simp]: "db_ttl (fold delivery_step ops b) = db_ttl b" "db_max (fold delivery_step ops b) = db_max b"
  by (induction ops arbitrary: b) simp_all

definition stashed_entry :: "delivery_buffer \<Rightarrow> int \<Rightarrow> string \<Rightarrow> string \<Rightarrow> string option \<Rightarrow> int option \<Rightarrow> delivery_entry" where
  "stashed_entry b now secret owner session ttl =
     \<lparr>en_value = secret, en_owner = owner, en_session = session,
      en_expires = now + (case ttl of None \<Rightarrow> db_ttl b | Some t \<Rightarrow> t)\<rparr>"

lemma stashed_entry_fold [simp]: "stashed_entry (fold delivery_step ops b) now secret owner session ttl = stashed_entry b now secret owner session ttl"
  by (simp add: stashed_entry_def split: option.splits)

lemma step_lookup:
  assumes "buffer_ok b" and "dget (db_entries (delivery_step op b)) i = Some e"
  shows "(\<exists>now secret owner session ttl. op = Stash now i secret owner session ttl \<and> e = stashed_entry b now secret owner session ttl)
    \<or> dget (db_entries b) i = Some e \<and> leaves i e op"
  using assms
  by (cases op) (auto simp: stash_def redeem_def discard_def leaves_def stashed_entry_def buffer_ok_def dget_purge Let_def
      split: option.splits if_splits dest!: dget_evict)

lemma step_keeps:
  assumes "buffer_ok b" and "dget (db_entries b) i = Some e" and "leaves i e op" and "length (db_entries b) < db_max b \<or> \<not> is_stash op"
  shows "dget (db_entries (delivery_step op b)) i = Some e"
proof (cases op)
  case (Stash now j secret owner session ttl)
  have "length (dset j x (purge_expired now (db_entries b))) \<le> db_max b" for x
    using assms(4) Stash length_purge [of now "db_entries b"] by (auto simp: length_dset)
  then show ?thesis
    using assms Stash by (auto simp: stash_def leaves_def buffer_ok_def dget_purge evict_within Let_def)
qed (use assms in \<open>auto simp: redeem_def discard_def leaves_def buffer_ok_def dget_purge Let_def split: option.splits\<close>)

lemma stash_holds:
  assumes "buffer_ok b" and "length (db_entries b) < db_max b"
  shows "dget (db_entries (delivery_step (Stash now i secret owner session ttl) b)) i = Some (stashed_entry b now secret owner session ttl)"
proof -
  have "length (dset i x (purge_expired now (db_entries b))) \<le> db_max b" for x
    using assms(2) length_purge [of now "db_entries b"] by (auto simp: length_dset)
  then show ?thesis by (simp add: stash_def stashed_entry_def evict_within Let_def)
qed

lemma held_provenance:
  assumes "dget (db_entries (fold delivery_step ops b0)) i = Some e" and "db_entries b0 = []"
  shows "\<exists>pre now secret owner session ttl post. ops = pre @ Stash now i secret owner session ttl # post
    \<and> e = stashed_entry b0 now secret owner session ttl \<and> list_all (leaves i e) post"
  using assms(1)
proof (induction ops rule: rev_induct)
  case Nil
  then show ?case using assms(2) by simp
next
  case (snoc op ops)
  have ok: "buffer_ok (fold delivery_step ops b0)" using assms(2) by (intro delivery_history.run_inv) (simp add: buffer_ok_def)
  from step_lookup [OF ok, of op i e] snoc.prems
  consider now secret owner session ttl where "op = Stash now i secret owner session ttl" "e = stashed_entry b0 now secret owner session ttl"
    | "dget (db_entries (fold delivery_step ops b0)) i = Some e" "leaves i e op"
    by auto
  then show ?case
  proof cases
    case 1
    then have "ops @ [op] = ops @ Stash now i secret owner session ttl # []" by simp
    with 1(2) show ?thesis by (metis list.pred_inject(1))
  next
    case 2
    from snoc.IH [OF 2(1)] obtain pre now secret owner session ttl post
      where h: "ops = pre @ Stash now i secret owner session ttl # post" "e = stashed_entry b0 now secret owner session ttl" "list_all (leaves i e) post" by blast
    then have "ops @ [op] = pre @ Stash now i secret owner session ttl # (post @ [op])" "list_all (leaves i e) (post @ [op])"
      using 2(2) by auto
    with h(2) show ?thesis by blast
  qed
qed

lemma entries_le_stashes: "length (db_entries (fold delivery_step ops b)) \<le> length (db_entries b) + length (filter is_stash ops)"
proof (induction ops arbitrary: b)
  case (Cons op ops)
  have "length (db_entries (delivery_step op b)) \<le> length (db_entries b) + (if is_stash op then 1 else 0)"
  proof (cases op)
    case (Stash now j secret owner session ttl)
    have "length (dset j x (purge_expired now (db_entries b))) \<le> Suc (length (db_entries b))" for x
      using length_purge [of now "db_entries b"] by (simp add: length_dset)
    then show ?thesis using Stash by (auto simp: stash_def Let_def intro: le_trans [OF length_evict])
  qed (auto simp: redeem_def discard_def Let_def dpop_purge_length length_purge split: option.splits)
  with Cons [of "delivery_step op b"] show ?case by (auto split: if_splits)
qed simp

lemma held_complete:
  assumes "db_entries b0 = []" and "length (filter is_stash (pre @ Stash now i secret owner session ttl # post)) \<le> db_max b0"
    and "list_all (leaves i (stashed_entry b0 now secret owner session ttl)) post"
  shows "dget (db_entries (fold delivery_step (pre @ Stash now i secret owner session ttl # post) b0)) i
    = Some (stashed_entry b0 now secret owner session ttl)"
  using assms(2,3)
proof (induction post rule: rev_induct)
  case Nil
  let ?b = "fold delivery_step pre b0"
  have "buffer_ok ?b" using assms(1) by (intro delivery_history.run_inv) (simp add: buffer_ok_def)
  moreover have "length (db_entries ?b) < db_max ?b" using entries_le_stashes [of pre b0] Nil assms(1) by simp
  ultimately show ?case using stash_holds [of ?b now i secret owner session ttl] by simp
next
  case (snoc op post)
  let ?ops = "pre @ Stash now i secret owner session ttl # post"
  let ?b = "fold delivery_step ?ops b0"
  have "buffer_ok ?b" using assms(1) by (intro delivery_history.run_inv) (simp add: buffer_ok_def)
  moreover have "length (db_entries ?b) < db_max ?b \<or> \<not> is_stash op"
    using entries_le_stashes [of ?ops b0] delivery_configs(2) [of ?ops b0] snoc.prems(1) assms(1) by (auto simp del: delivery_configs fold_append fold_simps delivery_step.simps)
  ultimately show ?case using step_keeps [of ?b i _ op] snoc by simp
qed

text \<open>An operation that stashes under \<open>i\<close>; identifiers are fresh, so there is only one.\<close>

fun stashes_under :: "string \<Rightarrow> delivery_op \<Rightarrow> bool" where
  "stashes_under i (Stash _ j _ _ _ _) = (j = i)"
| "stashes_under i _ = False"

lemma gone_stays_gone:
  assumes "dget (db_entries b) i = None" and "list_all (\<lambda>op. \<not> stashes_under i op) ops" and "buffer_ok b"
  shows "dget (db_entries (fold delivery_step ops b)) i = None"
  using assms
proof (induction ops arbitrary: b)
  case (Cons op ops)
  have "dget (db_entries (delivery_step op b)) i = None"
    using step_lookup [OF Cons.prems(3), of op i] Cons.prems(1,2) by (cases "dget (db_entries (delivery_step op b)) i") auto
  with Cons show ?case by (simp add: delivery_step_ok)
qed simp

text \<open>What must have happened for the secret \<open>v\<close> to be due to \<open>owner\<close> under \<open>i\<close> at \<open>now\<close>.\<close>

definition secret_due :: "delivery_buffer \<Rightarrow> delivery_op list \<Rightarrow> int \<Rightarrow> string \<Rightarrow> string \<Rightarrow> string \<Rightarrow> bool" where
  "secret_due b0 ops now i owner v \<longleftrightarrow>
     (\<exists>pre t session ttl post. ops = pre @ Stash t i v owner session ttl # post
        \<and> list_all (leaves i (stashed_entry b0 t v owner session ttl)) post
        \<and> now < en_expires (stashed_entry b0 t v owner session ttl))"

lemma secret_dueI:
  "list_all (leaves i (stashed_entry b0 t v owner session ttl)) post \<Longrightarrow> now < en_expires (stashed_entry b0 t v owner session ttl)
    \<Longrightarrow> secret_due b0 (pre @ Stash t i v owner session ttl # post) now i owner v"
  unfolding secret_due_def by (intro exI conjI) (rule refl)

lemma redeem_Some_iff:
  assumes "buffer_ok b"
  shows "fst (redeem now i owner b) = Some v \<longleftrightarrow>
    (\<exists>e. dget (db_entries b) i = Some e \<and> now < en_expires e \<and> en_owner e = owner \<and> en_value e = v)"
  using assms by (auto simp: redeem_def buffer_ok_def dget_purge Let_def split: option.splits)

text \<open>
  C28. A generated secret is revealed once, to its owner. Over any history of stashes, redemptions and
  discards, a redemption reveals a value only when the caller stashed it under this identifier, it has
  not expired, and since then nobody tried to redeem it, the owner did not discard it and no call came
  after its expiry; as long as no more than the capacity was stashed, it is then always revealed. After
  a redemption of an identifier, by whomever and with whatever answer, no later one reveals anything
  unless the identifier is stashed again. The buffer never holds more than its capacity.
\<close>

theorem secret_revealed_once:
  "(fst (redeem now i owner (fold delivery_step ops (new_buffer ttl mx))) = Some v \<longrightarrow> secret_due (new_buffer ttl mx) ops now i owner v)
    \<and> (secret_due (new_buffer ttl mx) ops now i owner v \<and> int (length (filter is_stash ops)) \<le> max 1 mx
         \<longrightarrow> fst (redeem now i owner (fold delivery_step ops (new_buffer ttl mx))) = Some v)
    \<and> (\<forall>more now' owner'. list_all (\<lambda>op. \<not> stashes_under i op) more \<longrightarrow>
         fst (redeem now' i owner' (fold delivery_step (ops @ Redeem now i owner # more) (new_buffer ttl mx))) = None)
    \<and> int (length (db_entries (fold delivery_step ops (new_buffer ttl mx)))) \<le> max 1 mx"
proof -
  define b0 where "b0 = new_buffer ttl mx"
  let ?b = "fold delivery_step ops b0"
  have e0: "db_entries b0 = []" and m0: "int (db_max b0) = max 1 mx" by (simp_all add: b0_def new_buffer_def)
  have ok: "buffer_ok (fold delivery_step xs b0)" for xs using e0 by (intro delivery_history.run_inv) (simp add: buffer_ok_def)
  have sound: "secret_due b0 ops now i owner v" if "fst (redeem now i owner ?b) = Some v"
  proof -
    from that redeem_Some_iff [OF ok, of now i owner ops v] obtain e
      where e: "dget (db_entries ?b) i = Some e" "now < en_expires e" "en_owner e = owner" "en_value e = v" by auto
    from held_provenance [OF e(1) e0] obtain pre t secret owner' session tl post
      where h: "ops = pre @ Stash t i secret owner' session tl # post" "e = stashed_entry b0 t secret owner' session tl"
        "list_all (leaves i e) post" by blast
    then have "secret = v" "owner' = owner" using e by (simp_all add: stashed_entry_def)
    with h e(2) show ?thesis using secret_dueI [of i b0 t v owner session tl post now pre] by simp
  qed
  have complete: "fst (redeem now i owner ?b) = Some v"
    if due: "secret_due b0 ops now i owner v" and cap: "int (length (filter is_stash ops)) \<le> max 1 mx"
  proof -
    from due obtain pre t session tl post where h: "ops = pre @ Stash t i v owner session tl # post"
      "list_all (leaves i (stashed_entry b0 t v owner session tl)) post" "now < en_expires (stashed_entry b0 t v owner session tl)"
      by (auto simp: secret_due_def)
    have "dget (db_entries ?b) i = Some (stashed_entry b0 t v owner session tl)"
      unfolding h(1) using cap m0 h by (intro held_complete [OF e0]) auto
    then show ?thesis using h(3) redeem_Some_iff [OF ok, of now i owner ops v] by (simp add: stashed_entry_def)
  qed
  have once: "fst (redeem now' i owner' (fold delivery_step (ops @ Redeem now i owner # more) b0)) = None"
    if "list_all (\<lambda>op. \<not> stashes_under i op) more" for more now' owner'
  proof -
    have "dget (db_entries (delivery_step (Redeem now i owner) ?b)) i = None"
      by (auto simp: redeem_def Let_def split: option.splits)
    then have "dget (db_entries (fold delivery_step (ops @ Redeem now i owner # more) b0)) i = None"
      using gone_stays_gone [OF _ that delivery_step_ok [OF ok], of "Redeem now i owner" ops] by (simp del: delivery_step.simps)
    then show ?thesis using redeem_Some_iff [OF ok, of now' i owner'] by (metis option.distinct(1) option.exhaust)
  qed
  show ?thesis unfolding b0_def [symmetric] using sound complete once ok [of ops] m0 by (auto simp: buffer_ok_def)
qed

theorem secret_revealed_once_witness:
  "fst (redeem 100 ''d1'' ''u1'' (fold delivery_step [Stash 0 ''d1'' ''s3cret'' ''u1'' None (Some 900), Stash 5 ''d2'' ''other'' ''u2'' None None]
     (new_buffer 300 256))) = Some ''s3cret''
   \<and> fst (redeem 101 ''d1'' ''u1'' (fold delivery_step
     ([Stash 0 ''d1'' ''s3cret'' ''u1'' None (Some 900), Stash 5 ''d2'' ''other'' ''u2'' None None] @ [Redeem 100 ''d1'' ''u2''])
     (new_buffer 300 256))) = None"
proof -
  let ?ops = "[Stash 0 ''d1'' ''s3cret'' ''u1'' None (Some 900), Stash 5 ''d2'' ''other'' ''u2'' None None]"
  have "secret_due (new_buffer 300 256) ?ops 100 ''d1'' ''u1'' ''s3cret''"
    using secret_dueI [of "''d1''" "new_buffer 300 256" 0 "''s3cret''" "''u1''" None "Some 900"
        "[Stash 5 ''d2'' ''other'' ''u2'' None None]" 100 "[]"] by (simp add: leaves_def stashed_entry_def)
  then have "fst (redeem 100 ''d1'' ''u1'' (fold delivery_step ?ops (new_buffer 300 256))) = Some ''s3cret''"
    using secret_revealed_once [where now = 100 and i = "''d1''" and owner = "''u1''" and ops = ?ops and ttl = 300 and mx = 256 and v = "''s3cret''"]
    by (simp del: delivery_step.simps)
  moreover have "fst (redeem 101 ''d1'' ''u1'' (fold delivery_step (?ops @ Redeem 100 ''d1'' ''u2'' # []) (new_buffer 300 256))) = None"
    using secret_revealed_once [where now = 100 and i = "''d1''" and owner = "''u2''" and ops = ?ops and ttl = 300 and mx = 256]
    by (metis list.pred_inject(1))
  ultimately show ?thesis by blast
qed

section \<open>The backends agree on a payload\<close>

text \<open>
  Redis answers with the payload of the stored entry and the reader gives it back: then a redemption
  reveals what the in-memory buffer would reveal of the same live entry, for every named owner.
\<close>

lemma redis_redeem_agrees:
  assumes "loads text = Some (redis_payload e)" and "owner \<noteq> []"
    and "buffer_ok b" and "dget (db_entries b) i = Some e" and "now < en_expires e"
  shows "redis_redeem loads (Some text) owner = fst (redeem now i owner b)"
    and "redis_discard loads (Some text) owner = fst (discard now i owner b)"
  using assms
  by (auto simp: redis_redeem_def redis_discard_def redis_owned_def redis_payload_def get_none_def redeem_def discard_def buffer_ok_def
      dget_purge Let_def)

end
