(* ===== verification/Secrets_Connector.thy ===== *)
theory Secrets_Connector
  imports Password_Policy Secret_Delivery Tool_Invocation Kernel_Middleware
begin

text \<open>
  The secrets tools of the tool gateway (\<open>tool_gateway/tools/secrets_connector.py\<close>) and the routes that
  redeem or discard a stashed secret (\<open>api/routes/secrets.py\<close>), over the password policy and the delivery
  buffer. The connector keeps the policy store and the buffer; one call of a tool takes what the outside
  world answers during it: the clock, the contract file, the random source, fresh identifiers, the mail
  transport. A session identifier that is not a string is stored as absent; it is never read back.
\<close>

section \<open>Mail addresses\<close>

definition ascii_letter :: "char \<Rightarrow> bool" where
  "ascii_letter c \<longleftrightarrow> (CHR ''A'' \<le> c \<and> c \<le> CHR ''Z'') \<or> (CHR ''a'' \<le> c \<and> c \<le> CHR ''z'')"

definition alnum :: "char \<Rightarrow> bool" where
  "alnum c \<longleftrightarrow> ascii_letter c \<or> is_digit c"

definition mailbox_char :: "char \<Rightarrow> bool" where
  "mailbox_char c \<longleftrightarrow> alnum c \<or> c \<in> set ''.!#$%&*+/=?^_{|}~-'' \<or> c = CHR 0x27 \<or> c = CHR 0x60"

definition valid_email_address :: "string \<Rightarrow> bool" where
  "valid_email_address s \<longleftrightarrow>
     length s \<le> 254
     \<and> (let mailbox = takeWhile (\<lambda>c. c \<noteq> CHR ''@'') s; domain = drop 1 (dropWhile (\<lambda>c. c \<noteq> CHR ''@'') s)
        in mailbox \<noteq> [] \<and> list_all mailbox_char mailbox \<and> domain \<noteq> [] \<and> alnum (hd domain) \<and> alnum (last domain)
           \<and> list_all (\<lambda>c. alnum c \<or> c = CHR ''.'' \<or> c = CHR ''-'') domain)
     \<and> \<not> contains ''..'' s"

section \<open>Channels\<close>

record delivery_outcome =
  dl_channel :: string
  dl_delivered :: bool
  dl_recipient :: "string option"
  dl_id :: "string option"
  dl_expires :: "string option"
  dl_code :: "string option"
  dl_message :: "string option"

definition failed_outcome :: "string \<Rightarrow> string option \<Rightarrow> string \<Rightarrow> string option \<Rightarrow> delivery_outcome" where
  "failed_outcome channel recipient code message =
     \<lparr>dl_channel = channel, dl_delivered = False, dl_recipient = recipient, dl_id = None, dl_expires = None,
      dl_code = Some code, dl_message = message\<rparr>"

record email_channel =
  em_host :: string
  em_user :: string
  em_sender :: string
  em_use_tls :: bool
  em_allowlist :: "string list"
  em_strict :: bool

definition new_email_channel :: "string \<Rightarrow> string \<Rightarrow> string \<Rightarrow> bool \<Rightarrow> string list \<Rightarrow> bool \<Rightarrow> email_channel" where
  "new_email_channel host user sender use_tls allowlist strict =
     \<lparr>em_host = host, em_user = user, em_sender = sender, em_use_tls = use_tls,
      em_allowlist = map (\<lambda>e. dropWhile (\<lambda>c. c = CHR ''@'') (lower (strip e))) (filter (\<lambda>e. strip e \<noteq> []) allowlist),
      em_strict = strict\<rparr>"

definition sender_of :: "email_channel \<Rightarrow> string" where
  "sender_of ch = (if em_sender ch \<noteq> [] then em_sender ch else em_user ch)"

definition email_configured :: "email_channel \<Rightarrow> bool" where
  "email_configured ch \<longleftrightarrow> em_host ch \<noteq> [] \<and> valid_email_address (sender_of ch) \<and> em_use_tls ch"

definition recipient_allowed :: "email_channel \<Rightarrow> string \<Rightarrow> bool" where
  "recipient_allowed ch recipient =
     (let domain = (if CHR ''@'' \<in> set recipient then lower (strip (rev (takeWhile (\<lambda>c. c \<noteq> CHR ''@'') (rev recipient)))) else [])
      in valid_email_address recipient \<and> (domain \<in> set (em_allowlist ch) \<or> lower recipient \<in> set (em_allowlist ch)))"

text \<open>What the transport does: it accepts, fails with one of the exceptions the channel handles, or raises another.\<close>

datatype mail_reply = MailSent | MailFails string | MailRaises

datatype secret_effect = Mailed string string string | DeliveredEvent json_obj json_obj

definition mail_body :: "string \<Rightarrow> string" where
  "mail_body secret =
     ''A password was generated for you on the Luban platform.'' @ [CHR 0x0A, CHR 0x0A] @ secret @ [CHR 0x0A, CHR 0x0A]
     @ ''Keep this credential private.'' @ [CHR 0x0A]"

text \<open>\<open>EmailChannel.send\<close>; \<open>None\<close> when it raises. The effect is the call of the transport.\<close>

definition email_send ::
  "(string \<Rightarrow> string \<Rightarrow> string \<Rightarrow> mail_reply) \<Rightarrow> email_channel \<Rightarrow> string \<Rightarrow> string option \<Rightarrow>
   delivery_outcome option \<times> secret_effect list" where
  "email_send transport ch secret recipient =
     (if \<not> email_configured ch then
        (Some (failed_outcome ''email'' recipient ''EMAIL_NOT_CONFIGURED''
           (Some ''Email delivery requires GATEWAY_EMAIL_HOST, a valid sender, and GATEWAY_EMAIL_USE_TLS=true; nothing was sent.'')), [])
      else case recipient of
        None \<Rightarrow> (Some (failed_outcome ''email'' None ''INVALID_PARAMETERS'' (Some ''A valid 'recipient' email address is required.'')), [])
      | Some r \<Rightarrow>
          if \<not> valid_email_address r then
            (Some (failed_outcome ''email'' recipient ''INVALID_PARAMETERS'' (Some ''A valid 'recipient' email address is required.'')), [])
          else if em_strict ch \<and> \<not> recipient_allowed ch r then
            (Some (failed_outcome ''email'' recipient ''EMAIL_RECIPIENT_NOT_ALLOWED''
               (Some (''Recipient '' @ r @ '' is not on GATEWAY_EMAIL_RECIPIENT_ALLOWLIST and the strict allowlist is enabled; nothing was sent.''))), [])
          else let sent = [Mailed (sender_of ch) r (mail_body secret)] in
            (case transport (sender_of ch) r (mail_body secret) of
               MailSent \<Rightarrow> (Some \<lparr>dl_channel = ''email'', dl_delivered = True, dl_recipient = recipient, dl_id = None, dl_expires = None,
                                  dl_code = None, dl_message = None\<rparr>, sent)
             | MailFails exc \<Rightarrow> (Some (failed_outcome ''email'' recipient ''UPSTREAM_ERROR''
                                   (Some (''The email could not be sent: '' @ exc @ ''.''))), sent)
             | MailRaises \<Rightarrow> (None, sent)))"

text \<open>What the outside world answers during one call of a tool.\<close>

record secret_env =
  sv_now :: int
  sv_fresh :: string
  sv_expiry :: string
  sv_stash_raises :: bool
  sv_yaml :: "string \<Rightarrow> val option"
  sv_disk :: "int option \<times> string option"
  sv_log2 :: "nat \<Rightarrow> rat"
  sv_rnd :: "nat \<Rightarrow> nat \<Rightarrow> nat"
  sv_text :: "password_error \<Rightarrow> string"
  sv_transport :: "string \<Rightarrow> string \<Rightarrow> string \<Rightarrow> mail_reply"
  sv_executed_at :: string
  sv_duration :: int

datatype channel = PortalCopy int | Email email_channel

fun channel_name :: "channel \<Rightarrow> string" where
  "channel_name (PortalCopy _) = ''portal_copy''"
| "channel_name (Email _) = ''email''"

definition session_of :: "json_obj \<Rightarrow> string option" where
  "session_of identity = (case get_none identity ''chat_session_id'' of VStr s \<Rightarrow> Some s | _ \<Rightarrow> None)"

text \<open>\<open>PortalCopyChannel.send\<close>; \<open>None\<close> when the buffer raises.\<close>

definition portal_send ::
  "secret_env \<Rightarrow> int \<Rightarrow> string \<Rightarrow> json_obj \<Rightarrow> delivery_buffer \<Rightarrow> delivery_outcome option \<times> delivery_buffer" where
  "portal_send env ttl secret identity b =
     (let sub = get_none identity ''sub'' in
      if \<not> truthy sub then (Some (failed_outcome ''portal_copy'' None ''INVALID_PARAMETERS'' None), b)
      else if sv_stash_raises env then (None, b)
      else case stash (sv_now env) (sv_fresh env) secret (str_of_val sub) (session_of identity) (Some ttl) b of
             (i, b') \<Rightarrow> (Some \<lparr>dl_channel = ''portal_copy'', dl_delivered = True, dl_recipient = None, dl_id = Some i,
                              dl_expires = Some (sv_expiry env), dl_code = None, dl_message = None\<rparr>, b'))"

definition channel_send ::
  "secret_env \<Rightarrow> channel \<Rightarrow> string \<Rightarrow> string option \<Rightarrow> json_obj \<Rightarrow> delivery_buffer \<Rightarrow>
   delivery_outcome option \<times> delivery_buffer \<times> secret_effect list" where
  "channel_send env ch secret recipient identity b =
     (case ch of
        PortalCopy ttl \<Rightarrow> (case portal_send env ttl secret identity b of (r, b') \<Rightarrow> (r, b', []))
      | Email e \<Rightarrow> (case email_send (sv_transport env) e secret recipient of (r, fx) \<Rightarrow> (r, b, fx)))"

section \<open>The connector\<close>

record secrets_connector =
  cn_store :: policy_store
  cn_min_length :: "int option"
  cn_classes :: "string list option"
  cn_exclude :: bool
  cn_buffer :: delivery_buffer
  cn_channels :: "(string, channel) dict"

text \<open>\<open>None\<close> for the \<open>ValueError\<close>.\<close>

definition register_channel :: "channel \<Rightarrow> secrets_connector \<Rightarrow> secrets_connector option" where
  "register_channel ch cn =
     (if channel_name ch = ''portal_copy'' then None
      else Some (cn\<lparr>cn_channels := dset (channel_name ch) ch (cn_channels cn)\<rparr>))"

definition new_connector ::
  "string \<Rightarrow> int option \<Rightarrow> string list option \<Rightarrow> bool \<Rightarrow> delivery_buffer \<Rightarrow> int \<Rightarrow> email_channel \<Rightarrow> secrets_connector option" where
  "new_connector policy_path min_length required_classes exclude_ambiguous b hold_ttl email =
     register_channel (Email email)
       \<lparr>cn_store = new_policy_store policy_path, cn_min_length = min_length, cn_classes = required_classes,
        cn_exclude = exclude_ambiguous, cn_buffer = b, cn_channels = [(''portal_copy'', PortalCopy hold_ttl)]\<rparr>"

definition external_channels :: "secrets_connector \<Rightarrow> string list" where
  "external_channels cn = sort (filter (\<lambda>n. n \<noteq> ''portal_copy'') (map fst (cn_channels cn)))"

definition effective_policy :: "secret_env \<Rightarrow> string \<Rightarrow> secrets_connector \<Rightarrow> password_policy option \<times> secrets_connector" where
  "effective_policy env name cn =
     (case po_get (sv_yaml env) (sv_disk env) name (cn_store cn) of
        (p, st) \<Rightarrow>
          (map_option (\<lambda>p. apply_overrides p (cn_min_length cn) (cn_classes cn) (cn_exclude cn)) p, cn\<lparr>cn_store := st\<rparr>))"

section \<open>The tools\<close>

definition secrets_error :: "secret_env \<Rightarrow> string \<Rightarrow> string \<Rightarrow> string \<Rightarrow> string \<Rightarrow> tool_result" where
  "secrets_error env tool risk code message =
     make_error_result (sv_executed_at env) (VStr tool) code message (VStr risk) (VStr ''secrets'') (VInt 0)"

definition secrets_success :: "secret_env \<Rightarrow> string \<Rightarrow> string \<Rightarrow> json_obj \<Rightarrow> tool_result" where
  "secrets_success env tool risk data =
     \<lparr>tr_tool = VStr tool, tr_status = VStr ''success'', tr_data = VDict data,
      tr_evidence = build_evidence (sv_executed_at env) (VStr risk) (VStr ''secrets'') (VInt (sv_duration env)),
      tr_error = VNone, tr_authorization = VNone\<rparr>"

text \<open>The parameters of a generation: policy name, handoff, exclusion, requested length.\<close>

definition generation_request :: "json_obj \<Rightarrow> (string \<times> string \<times> bool \<times> int option) option" where
  "generation_request parameters =
     (case (get_default parameters ''policy'' (VStr ''default''), get_default parameters ''handoff'' (VStr ''portal_copy''),
            get_default parameters ''exclude_ambiguous'' (VBool False)) of
        (VStr name, VStr handoff, VBool ex) \<Rightarrow>
          if handoff \<noteq> ''portal_copy'' \<and> handoff \<noteq> ''none'' then None
          else (case get_none parameters ''length'' of
                  VNone \<Rightarrow> Some (name, handoff, ex, None)
                | VInt n \<Rightarrow> if 1 \<le> n \<and> n \<le> MAX_PASSWORD_LENGTH then Some (name, handoff, ex, Some n) else None
                | _ \<Rightarrow> None)
      | _ \<Rightarrow> None)"

text \<open>The handoff of a generated value: the fields added to the result, \<open>None\<close> when there is no handle.\<close>

definition handoff_fields :: "secret_env \<Rightarrow> string \<Rightarrow> json_obj \<Rightarrow> secrets_connector \<Rightarrow> json_obj option \<times> secrets_connector" where
  "handoff_fields env secret identity cn =
     (case dget (cn_channels cn) ''portal_copy'' of
        None \<Rightarrow> (None, cn)
      | Some ch \<Rightarrow>
          (case channel_send env ch secret None identity (cn_buffer cn) of
             (Some o1, b, _) \<Rightarrow>
               (case dl_id o1 of
                  Some (c # cs) \<Rightarrow>
                    if dl_delivered o1
                    then (Some [(''delivery_id'', VStr (c # cs)), (''channel'', VStr (dl_channel o1)),
                                (''expires_at'', case dl_expires o1 of None \<Rightarrow> VNone | Some x \<Rightarrow> VStr x)], cn\<lparr>cn_buffer := b\<rparr>)
                    else (None, cn\<lparr>cn_buffer := b\<rparr>)
                | _ \<Rightarrow> (None, cn\<lparr>cn_buffer := b\<rparr>))
           | (None, b, _) \<Rightarrow> (None, cn\<lparr>cn_buffer := b\<rparr>)))"

definition generated :: "secret_env \<Rightarrow> password_policy \<Rightarrow> int option \<Rightarrow> password_error + int \<times> string" where
  "generated env p requested =
     rbind (reconcile_length p requested) (\<lambda>len. rbind (generate_password (sv_log2 env) (sv_rnd env) p len) (\<lambda>v. Inr (len, v)))"

text \<open>\<open>GeneratePasswordTool.execute\<close> after the policy is resolved; \<open>Inl\<close> the text of an exception that leaves it.\<close>

definition finish_generation ::
  "secret_env \<Rightarrow> string \<Rightarrow> string \<Rightarrow> password_error + int \<times> string \<Rightarrow> json_obj \<Rightarrow> secrets_connector \<Rightarrow>
   (string + tool_result) \<times> secrets_connector" where
  "finish_generation env name handoff out identity cn =
     (let tool = ''secrets.generate_password''; refuse = secrets_error env tool ''read'' in
      case out of
        Inl e \<Rightarrow> (if e = UnknownClass then Inl (sv_text env e) else Inr (refuse ''INVALID_PARAMETERS'' (sv_text env e)), cn)
      | Inr (len, secret) \<Rightarrow>
          (let data = [(''generated_password'', VStr secret), (''length'', VInt len), (''policy'', VStr name)] in
           if handoff = ''portal_copy''
           then (case handoff_fields env secret identity cn of
                   (None, cn') \<Rightarrow> (Inr (refuse ''UPSTREAM_ERROR'' ''The one-time handoff could not be created.''), cn')
                 | (Some fs, cn') \<Rightarrow> (Inr (secrets_success env tool ''read'' (data @ fs)), cn'))
           else (Inr (secrets_success env tool ''read'' data), cn)))"

definition generate_execute ::
  "secret_env \<Rightarrow> json_obj \<Rightarrow> json_obj \<Rightarrow> secrets_connector \<Rightarrow> (string + tool_result) \<times> secrets_connector" where
  "generate_execute env parameters identity cn =
     (let refuse = secrets_error env ''secrets.generate_password'' ''read'' in
      case generation_request parameters of
        None \<Rightarrow> (Inr (refuse ''INVALID_PARAMETERS'' ''Invalid policy, length, handoff, or exclusion parameter.''), cn)
      | Some (name, handoff, ex, requested) \<Rightarrow>
          (case effective_policy env name cn of
             (None, cn') \<Rightarrow> (Inr (refuse ''INVALID_PARAMETERS'' ''Password policy is unknown or unavailable.''), cn')
           | (Some p, cn') \<Rightarrow>
               finish_generation env name handoff (generated env (apply_overrides p None None ex) requested) identity cn'))"

text \<open>\<open>DeliverSecretTool.execute\<close>, from what the channel answered.\<close>

definition finish_delivery ::
  "secret_env \<Rightarrow> json_obj \<Rightarrow> secrets_connector \<Rightarrow> delivery_outcome option \<times> delivery_buffer \<times> secret_effect list \<Rightarrow>
   tool_result \<times> secrets_connector \<times> secret_effect list" where
  "finish_delivery env identity cn answer =
     (case answer of
        (None, b, fx) \<Rightarrow>
          (secrets_error env ''secrets.deliver'' ''write'' ''UPSTREAM_ERROR'' ''Secret delivery could not be completed.'', cn\<lparr>cn_buffer := b\<rparr>, fx)
      | (Some out, b, fx) \<Rightarrow>
          if \<not> dl_delivered out
          then (\<lparr>tr_tool = VStr ''secrets.deliver'', tr_status = VStr ''error'', tr_data = VNone,
                 tr_evidence = build_evidence (sv_executed_at env) (VStr ''write'') (VStr ''secrets'') (VInt (sv_duration env)),
                 tr_error = VDict [(''code'', VStr (case dl_code out of None \<Rightarrow> ''UPSTREAM_ERROR'' | Some k \<Rightarrow> k)),
                                   (''message'', VStr (case dl_message out of None \<Rightarrow> ''Delivery failed.'' | Some m \<Rightarrow> m))],
                 tr_authorization = VNone\<rparr>, cn\<lparr>cn_buffer := b\<rparr>, fx)
          else let recipient = (case dl_recipient out of None \<Rightarrow> VNone | Some x \<Rightarrow> VStr x);
                   i = VStr (case dl_id out of Some (x # xs) \<Rightarrow> x # xs | _ \<Rightarrow> sv_fresh env)
               in (secrets_success env ''secrets.deliver'' ''write''
                     [(''delivery_id'', i), (''channel'', VStr (dl_channel out)), (''delivered'', VBool True), (''recipient'', recipient)],
                   cn\<lparr>cn_buffer := b\<rparr>,
                   fx @ [DeliveredEvent [(''delivery_id'', i), (''channel'', VStr (dl_channel out)), (''recipient'', recipient)] identity]))"

definition deliver_execute ::
  "secret_env \<Rightarrow> json_obj \<Rightarrow> json_obj \<Rightarrow> secrets_connector \<Rightarrow> tool_result \<times> secrets_connector \<times> secret_effect list" where
  "deliver_execute env parameters identity cn =
     (let refuse = secrets_error env ''secrets.deliver'' ''write'' ''INVALID_PARAMETERS'' in
      case get_none parameters ''channel'' of
        VStr (c # cs) \<Rightarrow>
          if (c # cs) \<notin> set (external_channels cn) then (refuse ''Unknown external delivery channel.'', cn, [])
          else (case get_none parameters ''password'' of
                  VStr (v # vs) \<Rightarrow>
                    (let r = get_none parameters ''recipient'' in
                     if \<not> (r = VNone \<or> is_str r) then (refuse ''Parameter 'recipient' must be a string.'', cn, [])
                     else (case dget (cn_channels cn) (c # cs) of
                             None \<Rightarrow> (refuse (''No sender registered for channel '' @ str_repr (c # cs) @ ''.''), cn, [])
                           | Some ch \<Rightarrow> finish_delivery env identity cn (channel_send env ch (v # vs) (as_str r) identity (cn_buffer cn))))
                | _ \<Rightarrow> (refuse ''Parameter 'password' must be a non-empty string.'', cn, []))
      | _ \<Rightarrow> (refuse ''Parameter 'channel' is required.'', cn, []))"

section \<open>The routes\<close>

text \<open>Status and body; both routes always demand a token. Without a buffer nothing is ever released.\<close>

definition delivery_unavailable :: "int \<times> val" where
  "delivery_unavailable = (404, VDict [(''detail'', VStr
     ''This delivery is no longer available. It may have already been retrieved, expired, or been issued to a different session.'')])"

definition redeem_delivery ::
  "gw_env \<Rightarrow> gw_settings \<Rightarrow> http_request \<Rightarrow> int \<Rightarrow> string \<Rightarrow> delivery_buffer option \<Rightarrow>
   (gw_error + int \<times> val) \<times> delivery_buffer option \<times> gw_effect list" where
  "redeem_delivery env st req now delivery_id buffer =
     (case resolve_request_identity env (st\<lparr>gs_require_auth := True\<rparr>) req of
        Inl e \<Rightarrow> (Inl e, buffer, [])
      | Inr i \<Rightarrow>
          if \<not> canonical_uuid delivery_id then (Inr delivery_unavailable, buffer, [])
          else (case buffer of
                  None \<Rightarrow> (Inr delivery_unavailable, buffer, [])
                | Some b \<Rightarrow>
                    if ic_subject i = [] then (Inr delivery_unavailable, buffer, [])
                    else (case redeem now delivery_id (ic_subject i) b of
                            (None, b') \<Rightarrow> (Inr delivery_unavailable, Some b', [])
                          | (Some v, b') \<Rightarrow>
                              (Inr (200, VDict [(''value'', VStr v)]), Some b',
                               emit_audit st ''secret_delivered'' ''success''
                                 [(''delivery_id'', VStr delivery_id), (''channel'', VStr ''portal_copy''), (''recipient'', VStr (ic_username i))]
                                 (Some i) None))))"

definition discard_delivery ::
  "gw_env \<Rightarrow> gw_settings \<Rightarrow> http_request \<Rightarrow> int \<Rightarrow> string \<Rightarrow> delivery_buffer option \<Rightarrow> (gw_error + int) \<times> delivery_buffer option" where
  "discard_delivery env st req now delivery_id buffer =
     (case resolve_request_identity env (st\<lparr>gs_require_auth := True\<rparr>) req of
        Inl e \<Rightarrow> (Inl e, buffer)
      | Inr i \<Rightarrow>
          (case buffer of
             None \<Rightarrow> (Inr 204, buffer)
           | Some b \<Rightarrow>
               if ic_subject i = [] \<or> \<not> canonical_uuid delivery_id then (Inr 204, buffer)
               else (Inr 204, Some (snd (discard now delivery_id (ic_subject i) b)))))"

section \<open>Generation\<close>

lemma secrets_error_status: "tr_status (secrets_error env t k c m) \<noteq> VStr ''success''"
  by (simp add: secrets_error_def make_error_result_def)

lemma finish_generation_success:
  assumes "finish_generation env name handoff out identity cn = (Inr r, cn')" and "tr_status r = VStr ''success''"
  obtains len secret fs where "out = Inr (len, secret)"
    "tr_data r = VDict ([(''generated_password'', VStr secret), (''length'', VInt len), (''policy'', VStr name)] @ fs)"
    "r = secrets_success env ''secrets.generate_password'' ''read''
       ([(''generated_password'', VStr secret), (''length'', VInt len), (''policy'', VStr name)] @ fs)"
    "handoff = ''portal_copy'' \<longrightarrow> handoff_fields env secret identity cn = (Some fs, cn')"
    "handoff \<noteq> ''portal_copy'' \<longrightarrow> cn' = cn \<and> fs = []"
  using assms
  by (auto simp: finish_generation_def secrets_error_status Let_def secrets_success_def split: sum.splits prod.splits option.splits if_splits)

text \<open>The policy a generation applies: the contract's, tightened by the configuration and by the request.\<close>

definition applied_policy :: "secrets_connector \<Rightarrow> bool \<Rightarrow> password_policy \<Rightarrow> password_policy" where
  "applied_policy cn ex p = apply_overrides (apply_overrides p (cn_min_length cn) (cn_classes cn) (cn_exclude cn)) None None ex"

lemma generate_execute_success:
  assumes "generate_execute env parameters identity cn = (Inr r, cn')" and "tr_status r = VStr ''success''"
  obtains name handoff ex requested p st where
    "generation_request parameters = Some (name, handoff, ex, requested)"
    "po_get (sv_yaml env) (sv_disk env) name (cn_store cn) = (Some p, st)"
    "finish_generation env name handoff (generated env (applied_policy cn ex p) requested) identity (cn\<lparr>cn_store := st\<rparr>) = (Inr r, cn')"
  using assms
  by (auto simp: generate_execute_def effective_policy_def applied_policy_def secrets_error_status Let_def split: option.splits prod.splits)

lemma handoff_fields_Some:
  assumes "handoff_fields env secret identity cn = (Some fs, cn')" and "dget (cn_channels cn) ''portal_copy'' = Some (PortalCopy ttl)"
  shows "truthy (get_none identity ''sub'') \<and> sv_fresh env \<noteq> []
    \<and> fs = [(''delivery_id'', VStr (sv_fresh env)), (''channel'', VStr ''portal_copy''), (''expires_at'', VStr (sv_expiry env))]
    \<and> cn' = cn\<lparr>cn_buffer := snd (stash (sv_now env) (sv_fresh env) secret (str_of_val (get_none identity ''sub''))
                  (session_of identity) (Some ttl) (cn_buffer cn))\<rparr>"
  using assms
  by (auto simp: handoff_fields_def channel_send_def portal_send_def failed_outcome_def stash_def Let_def
      split: option.splits prod.splits list.splits if_splits)

lemma stash_redeem:
  assumes "buffer_ok b" and "length (db_entries b) < db_max b" and "later < now + ttl"
  shows "fst (redeem later i caller (snd (stash now i secret owner session (Some ttl) b))) = (if caller = owner then Some secret else None)"
proof -
  let ?b = "delivery_step (Stash now i secret owner session (Some ttl)) b"
  have "dget (db_entries ?b) i = Some (stashed_entry b now secret owner session (Some ttl))" using assms(1,2) by (rule stash_holds)
  moreover have "buffer_ok ?b" using assms(1) by (rule delivery_step_ok)
  ultimately show ?thesis using assms(3) redeem_Some_iff [of ?b later i caller]
    by (cases "fst (redeem later i caller ?b)") (auto simp: stashed_entry_def)
qed

text \<open>A password that meets the floor: its length, its characters and the classes they come from.\<close>

definition strong_password :: "bool \<Rightarrow> string \<Rightarrow> bool" where
  "strong_password exclude pw \<longleftrightarrow>
     16 \<le> length pw \<and> length pw \<le> 128
     \<and> list_all (\<lambda>c. list_ex (\<lambda>x. x \<in> set (snd c)) pw) CLASS_ALPHABETS
     \<and> list_all (\<lambda>x. x \<in> set (concat (map snd CLASS_ALPHABETS)) \<and> (exclude \<longrightarrow> x \<notin> set AMBIGUOUS_CHARS)) pw"

lemma class_has_table: "class_has p c x \<longleftrightarrow> (\<exists>a. dget CLASS_ALPHABETS c = Some a \<and> x \<in> set a \<and> (pp_exclude p \<longrightarrow> x \<notin> set AMBIGUOUS_CHARS))"
  by (auto simp: class_has_def class_alphabet_def split: option.splits)

lemma dget_CLASS_ALPHABETS: "dget CLASS_ALPHABETS c = Some a \<longleftrightarrow> (c, a) \<in> set CLASS_ALPHABETS"
  by (rule dict_ok_dget) (simp add: dict_ok_def CLASS_ALPHABETS_def)

lemma conforming_is_strong:
  assumes "policy_at_floor p" and "conforms p pw" and "16 \<le> length pw" and "length pw \<le> 128"
  shows "strong_password (pp_exclude p) pw"
proof -
  have classes: "c \<in> set (pp_classes p) \<longleftrightarrow> c \<in> fst ` set CLASS_ALPHABETS" for c
    using assms(1) by (auto simp: policy_at_floor_def KNOWN_CLASSES_def DEFAULT_POLICY_CLASSES_def CLASS_ALPHABETS_def)
  have "list_ex (\<lambda>x. x \<in> set a) pw" if "(c, a) \<in> set CLASS_ALPHABETS" for c a
  proof -
    have "c \<in> set (pp_classes p)" using that by (force simp: classes)
    then have "list_ex (class_has p c) pw" using assms(2) by (simp add: conforms_def list_all_iff)
    moreover have "dget CLASS_ALPHABETS c = Some a" using that by (simp add: dget_CLASS_ALPHABETS)
    ultimately show ?thesis by (auto simp: list_ex_iff class_has_table)
  qed
  moreover have "(\<exists>e\<in>set CLASS_ALPHABETS. x \<in> set (snd e)) \<and> (pp_exclude p \<longrightarrow> x \<notin> set AMBIGUOUS_CHARS)" if "x \<in> set pw" for x
    using assms(2) that by (force simp: conforms_def list_all_iff list_ex_iff class_has_table dget_CLASS_ALPHABETS)
  ultimately show ?thesis using assms(3,4) by (fastforce simp: strong_password_def list_all_iff)
qed

lemma applied_policy_at_floor:
  assumes "policy_at_floor p" and "overrides_accepted startup (cn_min_length cn) (cn_classes cn)"
  shows "policy_at_floor (applied_policy cn ex p)" and "pp_exclude (applied_policy cn ex p) \<longleftrightarrow> pp_exclude p \<or> cn_exclude cn \<or> ex"
proof -
  note one = apply_overrides_tightens [OF assms, of "cn_exclude cn"]
  have "overrides_accepted None None None" by (simp add: overrides_accepted_def)
  note two = apply_overrides_tightens [OF one(1) this, of ex]
  show "policy_at_floor (applied_policy cn ex p)" unfolding applied_policy_def by (rule two(1))
  show "pp_exclude (applied_policy cn ex p) \<longleftrightarrow> pp_exclude p \<or> cn_exclude cn \<or> ex" unfolding applied_policy_def using two(4) one(4) by blast
qed

lemma generated_strong:
  assumes "generated env p requested = Inr (len, secret)" and "policy_at_floor p" and "draws_ok (sv_rnd env)"
  shows "strong_password (pp_exclude p) secret" and "int (length secret) = len" and "\<And>n. requested = Some n \<Longrightarrow> n \<le> len"
proof -
  have r: "reconcile_length p requested = Inr len" and g: "generate_password (sv_log2 env) (sv_rnd env) p len = Inr secret"
    using assms(1) by (auto simp: generated_def)
  note gen = generate_password_Inr [OF g assms(3)]
  from r assms(2) have len: "pp_min_length p \<le> len" "\<And>n. requested = Some n \<Longrightarrow> n \<le> len"
    by (auto simp: reconcile_length_Inr_iff split: option.splits)
  then show "int (length secret) = len" "\<And>n. requested = Some n \<Longrightarrow> n \<le> len" using gen by auto
  have "16 \<le> length secret" "length secret \<le> 128"
    using gen len(1) assms(2) by (auto simp: policy_at_floor_def MAX_PASSWORD_LENGTH_def)
  then show "strong_password (pp_exclude p) secret" using conforming_is_strong [OF assms(2)] gen by blast
qed

lemma redeem_delivery_after:
  assumes "resolve_request_identity gw (st\<lparr>gs_require_auth := True\<rparr>) req = Inr i" and "ic_subject i \<noteq> []" and "canonical_uuid d"
    and "fst (redeem later d (ic_subject i) b) = v"
  shows "fst (redeem_delivery gw st req later d (Some b)) = Inr (case v of None \<Rightarrow> delivery_unavailable | Some s \<Rightarrow> (200, VDict [(''value'', VStr s)]))"
  using assms by (auto simp: redeem_delivery_def split: prod.splits option.splits)

lemma handoff_redeemable:
  assumes "handoff_fields env secret identity cn = (Some fs, cn')" and "dget (cn_channels cn) ''portal_copy'' = Some (PortalCopy ttl)"
    and "buffer_ok (cn_buffer cn)" and "length (db_entries (cn_buffer cn)) < db_max (cn_buffer cn)"
    and "canonical_uuid (sv_fresh env)" and "get_none identity ''sub'' = VStr sub"
    and "resolve_request_identity gw (st\<lparr>gs_require_auth := True\<rparr>) req = Inr i" and "ic_subject i \<noteq> []" and "later < sv_now env + ttl"
  shows "fst (redeem_delivery gw st req later (sv_fresh env) (Some (cn_buffer cn')))
    = Inr (if ic_subject i = sub then (200, VDict [(''value'', VStr secret)]) else delivery_unavailable)"
  using handoff_fields_Some [OF assms(1,2)] redeem_delivery_after [OF assms(7,8,5) stash_redeem [OF assms(3,4,9)]] assms(6) by simp

lemma strong_password_mono: "strong_password e pw \<Longrightarrow> (e' \<longrightarrow> e) \<Longrightarrow> strong_password e' pw"
  by (auto simp: strong_password_def list_all_iff)

text \<open>The success body as the agent reads it carries the handle.\<close>

lemma success_body_delivery:
  assumes "canonical_uuid i" and "aware x"
    and "r = secrets_success env tool risk (data @ [(''delivery_id'', VStr i), (''channel'', VStr ''portal_copy''), (''expires_at'', VStr x)])"
    and "list_all (\<lambda>p. fst p \<notin> {''delivery_id'', ''channel'', ''expires_at''}) data"
  shows "\<exists>body. result_to_dict valid r = Some body
    \<and> portal_copy_delivery aware body = Some [(''delivery_id'', VStr i), (''channel'', VStr ''portal_copy''), (''expires_at'', VStr x)]"
proof -
  have skip: "dget (data @ rest) k = dget rest k" if "k \<in> {''delivery_id'', ''channel'', ''expires_at''}" for k rest
    using assms(4) that by (induction data) (auto simp: dget_def)
  show ?thesis using assms(1-3) by (auto simp: secrets_success_def result_to_dict_def portal_copy_delivery_def get_none_def skip)
qed

text \<open>
  C12. A generated password is strong and reaches its requester only. Whatever the contract file held
  over time, when a generation succeeds under accepted overrides the value has 16 to 128 characters and
  at least the requested number, one of each class, none outside the classes and none ambiguous when
  they are excluded. With the portal handoff the agent finds the handle in the answer, and the
  redemption route gives the value to a caller with a verified token of the same subject until the hold
  expires, while every other subject gets the one answer for unavailable deliveries; without the
  handoff nothing is stored.
\<close>

theorem generated_secret_reaches_requester:
  assumes draws: "draws_ok (sv_rnd env)"
    and store: "cn_store cn = fold (po_maybe_reload (sv_yaml env)) accesses (new_policy_store path)"
    and conf: "overrides_accepted startup (cn_min_length cn) (cn_classes cn)"
    and chan: "dget (cn_channels cn) ''portal_copy'' = Some (PortalCopy ttl)"
    and room: "buffer_ok (cn_buffer cn)" "length (db_entries (cn_buffer cn)) < db_max (cn_buffer cn)"
    and fresh: "canonical_uuid (sv_fresh env)" "aware (sv_expiry env)"
    and sub: "get_none identity ''sub'' = VStr sub"
    and run: "generate_execute env parameters identity cn = (Inr r, cn')" "tr_status r = VStr ''success''"
  shows "\<exists>d secret name handoff ex requested. tr_data r = VDict d \<and> dget d ''generated_password'' = Some (VStr secret)
    \<and> generation_request parameters = Some (name, handoff, ex, requested)
    \<and> strong_password (ex \<or> cn_exclude cn) secret \<and> (\<forall>n. requested = Some n \<longrightarrow> n \<le> int (length secret))
    \<and> (handoff = ''portal_copy'' \<longrightarrow>
         (\<exists>body. result_to_dict valid r = Some body \<and> portal_copy_delivery aware body
            = Some [(''delivery_id'', VStr (sv_fresh env)), (''channel'', VStr ''portal_copy''), (''expires_at'', VStr (sv_expiry env))])
         \<and> (\<forall>gw st req i later. resolve_request_identity gw (st\<lparr>gs_require_auth := True\<rparr>) req = Inr i \<and> ic_subject i \<noteq> []
              \<and> later < sv_now env + ttl \<longrightarrow>
              fst (redeem_delivery gw st req later (sv_fresh env) (Some (cn_buffer cn')))
                = Inr (if ic_subject i = sub then (200, VDict [(''value'', VStr secret)]) else delivery_unavailable)))
    \<and> (handoff \<noteq> ''portal_copy'' \<longrightarrow> cn_buffer cn' = cn_buffer cn)"
proof -
  from run obtain name handoff ex requested p st where g: "generation_request parameters = Some (name, handoff, ex, requested)"
      "po_get (sv_yaml env) (sv_disk env) name (cn_store cn) = (Some p, st)"
      "finish_generation env name handoff (generated env (applied_policy cn ex p) requested) identity (cn\<lparr>cn_store := st\<rparr>) = (Inr r, cn')"
    by (rule generate_execute_success)
  from g(3) run(2) obtain len secret fs where f: "generated env (applied_policy cn ex p) requested = Inr (len, secret)"
      "tr_data r = VDict ([(''generated_password'', VStr secret), (''length'', VInt len), (''policy'', VStr name)] @ fs)"
      "r = secrets_success env ''secrets.generate_password'' ''read''
         ([(''generated_password'', VStr secret), (''length'', VInt len), (''policy'', VStr name)] @ fs)"
      "handoff = ''portal_copy'' \<longrightarrow> handoff_fields env secret identity (cn\<lparr>cn_store := st\<rparr>) = (Some fs, cn')"
      "handoff \<noteq> ''portal_copy'' \<longrightarrow> cn' = cn\<lparr>cn_store := st\<rparr> \<and> fs = []"
    by (rule finish_generation_success)
  have "dget (po_policies (fold (po_maybe_reload (sv_yaml env)) (accesses @ [sv_disk env]) (new_policy_store path))) name = Some p"
    using g(2) store by (auto simp: po_get_def Let_def)
  then have "policy_at_floor p" by (rule stored_policy_at_floor)
  note floor = applied_policy_at_floor [OF this conf]
  note strong = generated_strong [OF f(1) floor(1) draws]
  have pw: "strong_password (ex \<or> cn_exclude cn) secret" using strong(1) floor(2) by (auto intro: strong_password_mono)
  have chan': "dget (cn_channels (cn\<lparr>cn_store := st\<rparr>)) ''portal_copy'' = Some (PortalCopy ttl)" using chan by simp
  have body: "\<exists>body. result_to_dict valid r = Some body \<and> portal_copy_delivery aware body
      = Some [(''delivery_id'', VStr (sv_fresh env)), (''channel'', VStr ''portal_copy''), (''expires_at'', VStr (sv_expiry env))]"
    if "handoff = ''portal_copy''"
    using handoff_fields_Some [OF f(4) [rule_format, OF that] chan'] f(3) fresh by (intro success_body_delivery [where data = "[(''generated_password'', VStr secret), (''length'', VInt len), (''policy'', VStr name)]"]) auto
  have "fst (redeem_delivery gw gst req later (sv_fresh env) (Some (cn_buffer cn')))
      = Inr (if ic_subject i = sub then (200, VDict [(''value'', VStr secret)]) else delivery_unavailable)"
    if "handoff = ''portal_copy''" "resolve_request_identity gw (gst\<lparr>gs_require_auth := True\<rparr>) req = Inr i" "ic_subject i \<noteq> []"
      "later < sv_now env + ttl" for gw gst req i later
    using handoff_redeemable [OF f(4) [rule_format, OF that(1)] chan' _ _ fresh(1) sub that(2-4)] room by simp
  with body f(2,5) g(1) pw strong(2,3) show ?thesis by fastforce
qed

section \<open>The packaged contract suffices\<close>

lemma default_policy_at_floor: "policy_at_floor DEFAULT_POLICY"
  by (simp add: policy_at_floor_def DEFAULT_POLICY_def DEFAULT_POLICY_FLOOR_def DEFAULT_POLICY_CLASSES_def KNOWN_CLASSES_def
      CLASS_ALPHABETS_def MAX_PASSWORD_LENGTH_def)

text \<open>
  A gateway with the packaged contract and accepted overrides answers every well-formed request for the
  default policy with a password, provided a requested length carries the four classes and a handoff
  has a subject and a working buffer.
\<close>

lemma packaged_generation_succeeds:
  assumes "sv_yaml env text = Some packaged_contract" and "sv_disk env = (m, Some text)" and "cn_store cn = new_policy_store []"
    and conf: "overrides_accepted (Some DEFAULT_POLICY) (cn_min_length cn) (cn_classes cn)" and "log2_ok (sv_log2 env)"
    and "dget (cn_channels cn) ''portal_copy'' = Some (PortalCopy ttl)"
    and "truthy (get_none identity ''sub'')" and "\<not> sv_stash_raises env" and "sv_fresh env \<noteq> []"
    and req: "generation_request parameters = Some (''default'', handoff, ex, requested)"
    and "\<And>n. requested = Some n \<Longrightarrow> 4 \<le> n \<and> n \<le> MAX_PASSWORD_LENGTH"
  shows "\<exists>r cn'. generate_execute env parameters identity cn = (Inr r, cn') \<and> tr_status r = VStr ''success''"
proof -
  let ?p = "applied_policy cn ex DEFAULT_POLICY"
  have floor: "policy_at_floor ?p" using default_policy_at_floor conf by (rule applied_policy_at_floor)
  have "length (pp_classes ?p) = 4" using arg_cong [OF floor_classes [OF floor], of size] by (simp add: DEFAULT_POLICY_CLASSES_def)
  then obtain len where len: "reconcile_length ?p requested = Inr len"
    using assms(11) by (cases requested) (auto simp: reconcile_length_Inr_iff [OF floor])
  have "pp_entropy ?p \<le> 87" by (simp add: applied_policy_def apply_overrides_def DEFAULT_POLICY_def DEFAULT_POLICY_FLOOR_def)
  from generation_succeeds [OF floor this assms(5) len] obtain secret where "generate_password (sv_log2 env) (sv_rnd env) ?p len = Inr secret" by blast
  then have out: "generated env ?p requested = Inr (len, secret)" by (simp add: generated_def len)
  obtain st where get: "po_get (sv_yaml env) (sv_disk env) ''default'' (cn_store cn) = (Some DEFAULT_POLICY, st)"
    using packaged_default [of "sv_yaml env" "text" m] assms(1-3) by simp
  obtain fs cn2 where "handoff_fields env secret identity (cn\<lparr>cn_store := st\<rparr>) = (Some fs, cn2)"
    using assms(6-9) by (cases "sv_fresh env") (auto simp: handoff_fields_def channel_send_def portal_send_def stash_def Let_def)
  then show ?thesis
    using out by (auto simp: generate_execute_def effective_policy_def req get applied_policy_def finish_generation_def secrets_success_def Let_def)
qed

section \<open>Instances\<close>

fun floor_log2 :: "nat \<Rightarrow> nat" where
  "floor_log2 n = (if n \<le> 1 then 0 else Suc (floor_log2 (n div 2)))"

declare floor_log2.simps [simp del]

lemma floor_log2_le: "2 ^ k \<le> n \<Longrightarrow> k \<le> floor_log2 n"
proof (induction k arbitrary: n)
  case (Suc k)
  have "(1::nat) \<le> 2 ^ k" by simp
  then have "2 ^ k \<le> n div 2" "1 < n" using Suc.prems unfolding power_Suc by linarith+
  with Suc.IH [of "n div 2"] show ?case by (simp add: floor_log2.simps [of n])
qed simp

definition demo_secret_env :: secret_env where
  "demo_secret_env = \<lparr>sv_now = 0, sv_fresh = ''0f8fad5b-d9cb-469f-a165-70867728950e'', sv_expiry = ''2026-01-01T00:15:00+00:00'',
     sv_stash_raises = False, sv_yaml = (\<lambda>_. Some packaged_contract), sv_disk = (None, Some ''contract''),
     sv_log2 = (\<lambda>n. of_nat (floor_log2 n)), sv_rnd = (\<lambda>k b. k mod b), sv_text = (\<lambda>_. ''refused''),
     sv_transport = (\<lambda>_ _ _. MailSent), sv_executed_at = ''2026-01-01T00:00:00+00:00'', sv_duration = 1\<rparr>"

definition demo_email :: email_channel where
  "demo_email = new_email_channel ''smtp.example.org'' '''' ''ops@example.org'' True [''example.org''] True"

definition demo_connector :: secrets_connector where
  "demo_connector = \<lparr>cn_store = new_policy_store [], cn_min_length = None, cn_classes = None, cn_exclude = True,
     cn_buffer = new_buffer 300 256, cn_channels = [(''portal_copy'', PortalCopy 900), (''email'', Email demo_email)]\<rparr>"

lemma demo_connector_built: "new_connector [] None None True (new_buffer 300 256) 900 demo_email = Some demo_connector"
  by (simp add: new_connector_def register_channel_def demo_connector_def)

theorem generated_secret_reaches_requester_witness:
  "\<exists>r cn' d secret. generate_execute demo_secret_env [(''length'', VInt 20)] [(''sub'', VStr ''u1'')] demo_connector = (Inr r, cn')
     \<and> tr_data r = VDict d \<and> dget d ''generated_password'' = Some (VStr secret) \<and> strong_password True secret \<and> 20 \<le> length secret"
proof -
  have req: "generation_request [(''length'', VInt 20)] = Some (''default'', ''portal_copy'', False, Some 20)"
    by (simp add: generation_request_def get_default_def get_none_def MAX_PASSWORD_LENGTH_def)
  have draws: "draws_ok (sv_rnd demo_secret_env)" by (simp add: demo_secret_env_def draws_ok_def)
  have log2: "log2_ok (sv_log2 demo_secret_env)" by (simp add: demo_secret_env_def log2_ok_def floor_log2_le)
  have uuid: "canonical_uuid (sv_fresh demo_secret_env)" by (simp add: demo_secret_env_def) code_simp
  have chan: "dget (cn_channels demo_connector) ''portal_copy'' = Some (PortalCopy 900)" by (simp add: demo_connector_def)
  have conf: "overrides_accepted startup (cn_min_length demo_connector) (cn_classes demo_connector)" for startup
    by (simp add: demo_connector_def overrides_accepted_def)
  obtain r cn' where run: "generate_execute demo_secret_env [(''length'', VInt 20)] [(''sub'', VStr ''u1'')] demo_connector = (Inr r, cn')"
      "tr_status r = VStr ''success''"
    using packaged_generation_succeeds [OF _ _ _ conf log2 chan _ _ _ req, of "''contract''" None "[(''sub'', VStr ''u1'')]"]
    by (auto simp: demo_secret_env_def demo_connector_def get_none_def MAX_PASSWORD_LENGTH_def)
  have "cn_store demo_connector = fold (po_maybe_reload (sv_yaml demo_secret_env)) [] (new_policy_store [])" by (simp add: demo_connector_def)
  moreover have "buffer_ok (cn_buffer demo_connector)" "length (db_entries (cn_buffer demo_connector)) < db_max (cn_buffer demo_connector)"
    by (simp_all add: demo_connector_def buffer_ok_def new_buffer_def)
  moreover have "get_none [(''sub'', VStr ''u1'')] ''sub'' = VStr ''u1''" by (simp add: get_none_def)
  ultimately have "\<exists>d secret. tr_data r = VDict d \<and> dget d ''generated_password'' = Some (VStr secret)
      \<and> strong_password (False \<or> cn_exclude demo_connector) secret \<and> (20::int) \<le> int (length secret)"
    using generated_secret_reaches_requester [OF draws _ conf chan _ _ uuid, of "[]" "[]" "\<lambda>_. True" "[(''sub'', VStr ''u1'')]" "''u1''"
        "[(''length'', VInt 20)]" r cn'] run req by fastforce
  then show ?thesis using run(1) by (auto simp: demo_connector_def)
qed

section \<open>Delivery by mail\<close>

definition channels_named :: "secrets_connector \<Rightarrow> bool" where
  "channels_named cn \<longleftrightarrow> list_all (\<lambda>e. channel_name (snd e) = fst e) (cn_channels cn)"

lemma new_connector_channels: "new_connector path ml cs ex b ttl email = Some cn \<Longrightarrow> channels_named cn"
  by (auto simp: new_connector_def register_channel_def channels_named_def)

text \<open>The value does not decide what the channel answers.\<close>

fun hide_body :: "secret_effect \<Rightarrow> secret_effect" where
  "hide_body (Mailed from to body) = Mailed from to []"
| "hide_body (DeliveredEvent d i) = DeliveredEvent d i"

lemma email_send_blind:
  assumes "\<And>from to. transport from to (mail_body v) = transport from to (mail_body w)"
  shows "fst (email_send transport ch v r) = fst (email_send transport ch w r)
    \<and> map hide_body (snd (email_send transport ch v r)) = map hide_body (snd (email_send transport ch w r))"
  using assms by (auto simp: email_send_def Let_def split: option.splits mail_reply.splits)

lemma email_send_effects:
  "x \<in> set (snd (email_send transport ch v r)) \<Longrightarrow>
     \<exists>to. r = Some to \<and> x = Mailed (sender_of ch) to (mail_body v) \<and> email_configured ch \<and> valid_email_address to
       \<and> (em_strict ch \<longrightarrow> recipient_allowed ch to)"
  by (auto simp: email_send_def Let_def split: option.splits mail_reply.splits if_splits)

lemma email_send_delivered:
  "fst (email_send transport ch v r) = Some out \<Longrightarrow> dl_delivered out \<Longrightarrow>
     \<exists>to. r = Some to \<and> snd (email_send transport ch v r) = [Mailed (sender_of ch) to (mail_body v)]
       \<and> transport (sender_of ch) to (mail_body v) = MailSent \<and> dl_recipient out = Some to \<and> dl_channel out = ''email''"
  by (auto simp: email_send_def failed_outcome_def Let_def split: option.splits mail_reply.splits if_splits)

lemma external_channel_is_email:
  assumes "channels_named cn" and "c \<in> set (external_channels cn)" and "dget (cn_channels cn) c = Some ch"
  shows "\<exists>e. ch = Email e \<and> c = ''email''"
proof -
  have "channel_name ch = c" using assms(1) dget_in [OF assms(3)] by (auto simp: channels_named_def list_all_iff)
  then show ?thesis using assms(2) by (cases ch) (auto simp: external_channels_def)
qed

text \<open>
  A delivery either refuses its parameters, whatever the value, or ends as the mail channel answers.
\<close>

lemma deliver_execute_cases:
  assumes "channels_named cn"
  shows "(\<forall>q v vs q' v' vs'. get_none q ''password'' = VStr (v # vs) \<and> get_none q ''channel'' = c \<and> get_none q ''recipient'' = r
            \<and> get_none q' ''password'' = VStr (v' # vs') \<and> get_none q' ''channel'' = c \<and> get_none q' ''recipient'' = r \<longrightarrow>
            deliver_execute env q' identity cn = deliver_execute env q identity cn \<and> snd (deliver_execute env q identity cn) = (cn, [])
            \<and> tr_status (fst (deliver_execute env q identity cn)) \<noteq> VStr ''success'')
    \<or> (\<exists>e. dget (cn_channels cn) ''email'' = Some (Email e)
         \<and> (\<forall>q v vs. get_none q ''password'' = VStr (v # vs) \<and> get_none q ''channel'' = c \<and> get_none q ''recipient'' = r \<longrightarrow>
              deliver_execute env q identity cn = finish_delivery env identity cn
                (case email_send (sv_transport env) e (v # vs) (as_str r) of (a, fx) \<Rightarrow> (a, cn_buffer cn, fx))))"
proof (cases "\<exists>k ks ch. c = VStr (k # ks) \<and> k # ks \<in> set (external_channels cn) \<and> dget (cn_channels cn) (k # ks) = Some ch
    \<and> (r = VNone \<or> is_str r)")
  case True
  then obtain k ks ch where c: "c = VStr (k # ks)" "k # ks \<in> set (external_channels cn)" "dget (cn_channels cn) (k # ks) = Some ch"
    "r = VNone \<or> is_str r" by blast
  with external_channel_is_email [OF assms c(2,3)] show ?thesis by (intro disjI2) (auto simp: deliver_execute_def channel_send_def Let_def)
next
  case False
  then show ?thesis by (intro disjI1) (auto simp: deliver_execute_def secrets_error_status Let_def split: val.splits list.splits option.splits)
qed

lemma finish_delivery_status:
  assumes "finish_delivery env identity cn (a, b, fx) = (res, cn', fx')"
  shows "cn' = cn\<lparr>cn_buffer := b\<rparr>"
    and "(\<exists>out d. a = Some out \<and> dl_delivered out \<and> tr_status res = VStr ''success'' \<and> fx' = fx @ [DeliveredEvent d identity])
      \<or> tr_status res \<noteq> VStr ''success'' \<and> fx' = fx"
  using assms by (auto simp: finish_delivery_def secrets_error_status secrets_success_def Let_def split: option.splits if_splits)

lemma finish_delivery_hidden:
  assumes "map hide_body fx = map hide_body gx"
  shows "fst (finish_delivery env identity cn (a, b, fx)) = fst (finish_delivery env identity cn (a, b, gx))
    \<and> map hide_body (snd (snd (finish_delivery env identity cn (a, b, fx)))) = map hide_body (snd (snd (finish_delivery env identity cn (a, b, gx))))"
  using assms by (auto simp: finish_delivery_def Let_def split: option.splits)

text \<open>
  A mailed secret goes to one allowed address and into nothing else. When the transport treats two
  values alike, a delivery of either gives the same result, leaves the connector as it was and has the
  same effects but for the message bodies. A message is sent only over a configured channel with
  encryption, from its sender to the requested, valid and, under the strict posture, listed address,
  with the value in its body; and the delivery is recorded exactly when the call succeeds, after the
  transport accepted the message.
\<close>

theorem mailed_secret_not_disclosed:
  assumes "channels_named cn"
    and "get_none p ''password'' = VStr (v # vs)" and "get_none q ''password'' = VStr (w # ws)"
    and "get_none q ''channel'' = get_none p ''channel''" and "get_none q ''recipient'' = get_none p ''recipient''"
    and "\<And>from to. sv_transport env from to (mail_body (v # vs)) = sv_transport env from to (mail_body (w # ws))"
    and "deliver_execute env p identity cn = (res, cn', fx)"
  shows "fst (deliver_execute env q identity cn) = res \<and> cn' = cn \<and> fst (snd (deliver_execute env q identity cn)) = cn
    \<and> map hide_body (snd (snd (deliver_execute env q identity cn))) = map hide_body fx
    \<and> (\<forall>from to body. Mailed from to body \<in> set fx \<longrightarrow>
         get_none p ''recipient'' = VStr to \<and> body = mail_body (v # vs)
         \<and> (\<exists>e. dget (cn_channels cn) ''email'' = Some (Email e) \<and> email_configured e \<and> from = sender_of e \<and> valid_email_address to
              \<and> (em_strict e \<longrightarrow> recipient_allowed e to)))
    \<and> ((\<exists>d i. DeliveredEvent d i \<in> set fx) \<longleftrightarrow> tr_status res = VStr ''success'')
    \<and> (tr_status res = VStr ''success'' \<longrightarrow>
         (\<exists>from to d. fx = [Mailed from to (mail_body (v # vs)), DeliveredEvent d identity] \<and> sv_transport env from to (mail_body (v # vs)) = MailSent))"
  using deliver_execute_cases [OF assms(1), of "get_none p ''channel''" "get_none p ''recipient''" env identity]
proof (elim disjE exE conjE)
  assume same: "\<forall>q v vs q' v' vs'. get_none q ''password'' = VStr (v # vs) \<and> get_none q ''channel'' = get_none p ''channel''
      \<and> get_none q ''recipient'' = get_none p ''recipient'' \<and> get_none q' ''password'' = VStr (v' # vs')
      \<and> get_none q' ''channel'' = get_none p ''channel'' \<and> get_none q' ''recipient'' = get_none p ''recipient'' \<longrightarrow>
    deliver_execute env q' identity cn = deliver_execute env q identity cn \<and> snd (deliver_execute env q identity cn) = (cn, [])
    \<and> tr_status (fst (deliver_execute env q identity cn)) \<noteq> VStr ''success''"
  have "deliver_execute env q identity cn = (res, cn', fx)" "cn' = cn" "fx = []" "tr_status res \<noteq> VStr ''success''"
    using same [rule_format, of p v vs q w ws] assms(2-5,7) by auto
  then show ?thesis by simp
next
  fix e
  let ?send = "\<lambda>x. email_send (sv_transport env) e x (as_str (get_none p ''recipient''))"
  assume e: "dget (cn_channels cn) ''email'' = Some (Email e)"
    and "\<forall>q v vs. get_none q ''password'' = VStr (v # vs) \<and> get_none q ''channel'' = get_none p ''channel''
        \<and> get_none q ''recipient'' = get_none p ''recipient'' \<longrightarrow>
      deliver_execute env q identity cn = finish_delivery env identity cn (case ?send (v # vs) of (a, fx) \<Rightarrow> (a, cn_buffer cn, fx))"
  then have p: "finish_delivery env identity cn (fst (?send (v # vs)), cn_buffer cn, snd (?send (v # vs))) = (res, cn', fx)"
    and q: "deliver_execute env q identity cn = finish_delivery env identity cn (fst (?send (w # ws)), cn_buffer cn, snd (?send (w # ws)))"
    using assms(2-5,7) by (auto simp: case_prod_beta)
  have blind: "fst (?send (v # vs)) = fst (?send (w # ws))" "map hide_body (snd (?send (w # ws))) = map hide_body (snd (?send (v # vs)))"
    using email_send_blind [of "sv_transport env" "v # vs" "w # ws"] assms(6) by auto
  note hidden = finish_delivery_hidden [OF blind(2), of env identity cn "fst (?send (w # ws))" "cn_buffer cn"]
  have to: "get_none p ''recipient'' = VStr to" if "as_str (get_none p ''recipient'') = Some to" for to
    using that by (cases "get_none p ''recipient''") auto
  have keeps: "cn' = cn" "fst (snd (deliver_execute env q identity cn)) = cn"
    using finish_delivery_status(1) [OF p] finish_delivery_status(1) [of env identity cn "fst (?send (w # ws))" "cn_buffer cn" "snd (?send (w # ws))"]
    by (simp, cases "deliver_execute env q identity cn") (simp add: q)
  have same: "fst (deliver_execute env q identity cn) = res" "map hide_body (snd (snd (deliver_execute env q identity cn))) = map hide_body fx"
    using hidden p q blind(1) by auto
  have sent: "get_none p ''recipient'' = VStr t \<and> body = mail_body (v # vs) \<and> email_configured e \<and> src = sender_of e \<and> valid_email_address t
      \<and> (em_strict e \<longrightarrow> recipient_allowed e t)" if "Mailed src t body \<in> set (snd (?send (v # vs)))" for src t body
    using email_send_effects [OF that] to by auto
  have no_event: "DeliveredEvent d i \<notin> set (snd (?send (v # vs)))" for d i using email_send_effects by blast
  from finish_delivery_status(2) [OF p] show ?thesis
  proof (elim disjE exE conjE)
    fix out d
    assume s: "fst (?send (v # vs)) = Some out" "dl_delivered out" "tr_status res = VStr ''success''" "fx = snd (?send (v # vs)) @ [DeliveredEvent d identity]"
    from email_send_delivered [OF s(1,2)] obtain t where t: "snd (?send (v # vs)) = [Mailed (sender_of e) t (mail_body (v # vs))]"
      "sv_transport env (sender_of e) t (mail_body (v # vs)) = MailSent" by blast
    show ?thesis using same keeps s t sent [of "sender_of e" t "mail_body (v # vs)"] e by auto
  next
    assume n: "tr_status res \<noteq> VStr ''success''" "fx = snd (?send (v # vs))"
    show ?thesis using same keeps n sent no_event e by blast
  qed
qed

theorem mailed_secret_not_disclosed_witness:
  "snd (snd (deliver_execute demo_secret_env [(''channel'', VStr ''email''), (''password'', VStr ''s3cret''), (''recipient'', VStr ''a@example.org'')]
       [(''sub'', VStr ''u1'')] demo_connector))
     = [Mailed ''ops@example.org'' ''a@example.org'' (mail_body ''s3cret''),
        DeliveredEvent [(''delivery_id'', VStr (sv_fresh demo_secret_env)), (''channel'', VStr ''email''), (''recipient'', VStr ''a@example.org'')]
          [(''sub'', VStr ''u1'')]]
   \<and> map hide_body (snd (snd (deliver_execute demo_secret_env
         [(''channel'', VStr ''email''), (''password'', VStr ''other''), (''recipient'', VStr ''a@example.org'')] [(''sub'', VStr ''u1'')] demo_connector)))
     = [Mailed ''ops@example.org'' ''a@example.org'' [],
        DeliveredEvent [(''delivery_id'', VStr (sv_fresh demo_secret_env)), (''channel'', VStr ''email''), (''recipient'', VStr ''a@example.org'')]
          [(''sub'', VStr ''u1'')]]"
proof -
  let ?p = "\<lambda>v. [(''channel'', VStr ''email''), (''password'', VStr v), (''recipient'', VStr ''a@example.org'')]"
  let ?fx = "[Mailed ''ops@example.org'' ''a@example.org'' (mail_body ''s3cret''),
        DeliveredEvent [(''delivery_id'', VStr (sv_fresh demo_secret_env)), (''channel'', VStr ''email''), (''recipient'', VStr ''a@example.org'')]
          [(''sub'', VStr ''u1'')]]"
  have ok: "valid_email_address ''ops@example.org''" "valid_email_address ''a@example.org''" "recipient_allowed demo_email ''a@example.org''"
    "sender_of demo_email = ''ops@example.org''" by code_simp+
  have named: "channels_named demo_connector" by (simp add: channels_named_def demo_connector_def)
  have send: "email_send (sv_transport demo_secret_env) demo_email ''s3cret'' (Some ''a@example.org'')
      = (Some \<lparr>dl_channel = ''email'', dl_delivered = True, dl_recipient = Some ''a@example.org'', dl_id = None, dl_expires = None,
          dl_code = None, dl_message = None\<rparr>, [Mailed ''ops@example.org'' ''a@example.org'' (mail_body ''s3cret'')])"
    using ok by (simp add: email_send_def email_configured_def demo_secret_env_def Let_def) (simp add: demo_email_def new_email_channel_def)
  have "snd (snd (deliver_execute demo_secret_env (?p ''s3cret'') [(''sub'', VStr ''u1'')] demo_connector)) = ?fx"
    by (simp add: deliver_execute_def demo_connector_def external_channels_def get_none_def channel_send_def send finish_delivery_def Let_def)
  moreover obtain res cn' fx where run: "deliver_execute demo_secret_env (?p ''s3cret'') [(''sub'', VStr ''u1'')] demo_connector = (res, cn', fx)"
    by (metis prod_cases3)
  moreover have "map hide_body (snd (snd (deliver_execute demo_secret_env (?p ''other'') [(''sub'', VStr ''u1'')] demo_connector))) = map hide_body fx"
    using mailed_secret_not_disclosed [OF named _ _ _ _ _ run, where q = "?p ''other''"] by (simp add: get_none_def demo_secret_env_def)
  ultimately show ?thesis by simp
qed

end
