(* ===== verification/Http_Connector.thy ===== *)
theory Http_Connector
  imports Outbound_Auth Secrets_Connector
begin

text \<open>
  The HTTP tools of the tool gateway (\<open>tool_gateway/tools/http_connector.py\<close>, \<open>url_redaction.py\<close> and
  \<open>origin_of\<close> of \<open>browser_connector.py\<close>): validation of a destination the model chose, the one request loop
  of both verbs, the projection of a response and the tools. Python's URL, address and query functions,
  the transport, decoding and the JSON reader are arguments; the trail of a call is the list of its effects.
\<close>

section \<open>Secrets in URLs\<close>

definition SECRET_QUERY_PARAMS :: "string list" where
  "SECRET_QUERY_PARAMS =
     [''password'', ''passwd'', ''pwd'', ''newpw'', ''oldpw'', ''secret'', ''token'', ''apikey'', ''api_key'', ''accesskey'', ''access_key'',
      ''privatekey'', ''private_key'', ''credential'', ''otp'', ''cvv'', ''ssn'', ''sessionid'', ''session_id'', ''signature'']"

definition is_secret_query_param :: "string \<Rightarrow> bool" where
  "is_secret_query_param name = list_ex (\<lambda>secret. contains secret (lower name)) SECRET_QUERY_PARAMS"

fun mask_segments :: "url_lib \<Rightarrow> string list \<Rightarrow> bool \<times> string list" where
  "mask_segments lib [] = (False, [])"
| "mask_segments lib (segment # rest) =
     (let key = takeWhile (\<lambda>c. c \<noteq> CHR ''='') segment in
      case mask_segments lib rest of
        (changed, segments) \<Rightarrow>
          if CHR ''='' \<in> set segment \<and> is_secret_query_param (unquote lib key) then (True, (key @ ''=***'') # segments)
          else (changed, segment # segments))"

definition gw_redact_secret_query :: "url_lib \<Rightarrow> string \<Rightarrow> string" where
  "gw_redact_secret_query lib url =
     (case urlsplit lib url of
        None \<Rightarrow> url
      | Some parsed \<Rightarrow>
          (case mask_segments lib (split_on (CHR ''&'') (up_query parsed)) of
             (changed, segments) \<Rightarrow>
               (case up_password parsed of
                  Some (p # ps) \<Rightarrow>
                    urlunsplit lib (parsed\<lparr>up_netloc := replace_first ('':'' @ (p # ps) @ ''@'') '':***@'' (up_netloc parsed),
                                           up_query := join_with ''&'' segments\<rparr>)
                | _ \<Rightarrow> if changed then urlunsplit lib (parsed\<lparr>up_query := join_with ''&'' segments\<rparr>) else url)))"

section \<open>Destinations\<close>

record http_url =
  hu_scheme :: string
  hu_netloc :: string
  hu_host :: "string option"
  hu_username :: "string option"
  hu_password :: "string option"
  hu_query :: string

text \<open>\<open>nl_ip\<close>: for an address literal, whether it is loopback, link-local or multicast.\<close>

record net_lib =
  nl_split :: "string \<Rightarrow> http_url option"
  nl_join :: "string \<Rightarrow> string \<Rightarrow> string"
  nl_ip :: "string \<Rightarrow> bool option"
  nl_qsl :: "string \<Rightarrow> (string \<times> string) list"

definition origin_of :: "net_lib \<Rightarrow> string \<Rightarrow> string option" where
  "origin_of lib url =
     (case nl_split lib url of
        None \<Rightarrow> None
      | Some p \<Rightarrow>
          if hu_scheme p \<notin> {''http'', ''https''} \<or> hu_netloc p = [] then None
          else Some (lower (hu_scheme p @ ''://'' @ hu_netloc p)))"

definition normalize_origins :: "net_lib \<Rightarrow> string list \<Rightarrow> string list" where
  "normalize_origins lib origins =
     map (\<lambda>o1. case origin_of lib o1 of None \<Rightarrow> lower (strip o1) | Some x \<Rightarrow> x) (filter (\<lambda>o1. strip o1 \<noteq> []) origins)"

definition present :: "string option \<Rightarrow> bool" where
  "present s \<longleftrightarrow> s \<noteq> None \<and> s \<noteq> Some []"

definition quoted :: "string \<Rightarrow> string" where
  "quoted s = [CHR 0x27] @ s @ [CHR 0x27]"

definition validate_destination :: "net_lib \<Rightarrow> val \<Rightarrow> string list \<Rightarrow> bool \<Rightarrow> string list option \<Rightarrow> tool_error + string" where
  "validate_destination lib url allow_origins forbid_secret resource_origins =
     (case url of
        VStr u \<Rightarrow>
          (let candidate = strip u in
           if candidate = [] then Inl (''INVALID_PARAMETERS'', ''Parameter 'url' is required.'', ''error'')
           else case nl_split lib candidate of
                  None \<Rightarrow> Inl (''INVALID_PARAMETERS'', ''Parameter 'url' is not a parseable URL: '' @ str_repr u @ ''.'', ''error'')
                | Some p \<Rightarrow>
                    if hu_scheme p \<notin> {''http'', ''https''} then
                      Inl (''HTTP_SCHEME_NOT_ALLOWED'',
                           ''URL scheme '' @ str_repr (if hu_scheme p = [] then ''(none)'' else hu_scheme p)
                           @ '' is not allowed; only http and https are accepted.'', ''error'')
                    else if present (hu_username p) \<or> present (hu_password p) then
                      Inl (''INVALID_PARAMETERS'',
                           ''URL userinfo (user:password@host) is not allowed; authenticate with the 'credential_set' parameter instead.'', ''error'')
                    else if \<not> present (hu_host p) then Inl (''INVALID_PARAMETERS'', ''URL has no host component.'', ''error'')
                    else if nl_ip lib (the (hu_host p)) = Some True then
                      Inl (''HTTP_ORIGIN_NOT_ALLOWED'',
                           ''Destination '' @ the (hu_host p) @ '' is a loopback, link-local or multicast address and is refused regardless of the allowlist.'',
                           ''denied'')
                    else (case origin_of lib candidate of
                            None \<Rightarrow> Inl (''HTTP_ORIGIN_NOT_ALLOWED'',
                                      ''Origin '' @ str_repr candidate @ '' is not in GATEWAY_HTTP_ALLOW_ORIGINS (deny-by-default).'', ''denied'')
                          | Some origin \<Rightarrow>
                              if origin \<notin> set allow_origins then
                                Inl (''HTTP_ORIGIN_NOT_ALLOWED'',
                                     ''Origin '' @ str_repr origin @ '' is not in GATEWAY_HTTP_ALLOW_ORIGINS (deny-by-default).'', ''denied'')
                              else if (case resource_origins of None \<Rightarrow> False | Some ros \<Rightarrow> origin \<notin> set ros) then
                                Inl (''HTTP_RESOURCE_ORIGIN_NOT_ALLOWED'',
                                     ''Origin '' @ origin @ '' is not in the delegated credential set's resource-origin allowlist.'', ''denied'')
                              else if forbid_secret then
                                (case filter is_secret_query_param (map fst (nl_qsl lib (hu_query p))) of
                                   [] \<Rightarrow> Inr origin
                                 | key # _ \<Rightarrow>
                                     Inl (''HTTP_URL_SECRET_NOT_ALLOWED'',
                                          ''A POST URL may not carry the secret-bearing query parameter '' @ str_repr key
                                          @ ''; put the value in the body instead.'', ''error''))
                              else Inr origin))
      | _ \<Rightarrow> Inl (''INVALID_PARAMETERS'', ''Parameter 'url' is required.'', ''error''))"

section \<open>Bodies and bounds\<close>

definition MAX_REDIRECTS :: nat where
  "MAX_REDIRECTS = 3"

definition MAX_TIMEOUT_MS :: int where
  "MAX_TIMEOUT_MS = 30000"

fun json_depth :: "val \<Rightarrow> nat" where
  "json_depth (VDict d) = 1 + foldr max (map (\<lambda>p. json_depth (snd p)) d) 0"
| "json_depth (VList xs) = 1 + foldr max (map json_depth xs) 0"
| "json_depth _ = 0"

fun count_keys :: "val \<Rightarrow> nat" where
  "count_keys (VDict d) = length d + sum_list (map (\<lambda>p. count_keys (snd p)) d)"
| "count_keys (VList xs) = sum_list (map count_keys xs)"
| "count_keys _ = 0"

definition validate_body :: "val \<Rightarrow> nat \<Rightarrow> (string \<times> string) option" where
  "validate_body body max_bytes =
     (case body of
        VDict _ \<Rightarrow>
          if json_depth body > 2 then
            Some (''INVALID_PARAMETERS'', ''Parameter 'body' nests '' @ int_str (int (json_depth body)) @ '' levels deep; the maximum is 2.'')
          else if count_keys body > 32 then
            Some (''INVALID_PARAMETERS'', ''Parameter 'body' carries '' @ int_str (int (count_keys body)) @ '' keys; the maximum is 32.'')
          else if length (json_dumps body) > max_bytes then
            Some (''HTTP_BODY_TOO_LARGE'', ''Parameter 'body' serializes to '' @ int_str (int (length (json_dumps body)))
              @ '' bytes; the maximum is '' @ int_str (int max_bytes) @ '' (GATEWAY_HTTP_MAX_REQUEST_BYTES).'')
          else None
      | _ \<Rightarrow> Some (''INVALID_PARAMETERS'', ''Parameter 'body' must be a JSON object.''))"

text \<open>\<open>_coerce_timeout\<close> and \<open>_coerce_max_bytes\<close>: a positive integer, capped.\<close>

definition coerce_bounded :: "string \<Rightarrow> val \<Rightarrow> int \<Rightarrow> int \<Rightarrow> string + int" where
  "coerce_bounded name v unset cap =
     (if v = VNone then Inr unset
      else case int_of_val v of
             None \<Rightarrow> Inl (''Parameter '' @ quoted name @ '' must be an integer, got '' @ val_repr v @ ''.'')
           | Some n \<Rightarrow>
               if n < 1 then Inl (''Parameter '' @ quoted name @ '' must be at least 1, got '' @ int_str n @ ''.'')
               else Inr (min n cap))"

section \<open>The request loop\<close>

record http_response =
  rs_status :: int
  rs_headers :: "(string \<times> string) list"
  rs_content :: string

datatype http_reply = Answered http_response | TimedOut | ConnectFailed string | HttpFailed string

datatype http_method = GET | POST

datatype http_effect =
    Sent http_method string "outbound_auth option" "val option"
  | TokenAsked token_request
  | DelegatedAsked acquisition_context
  | GrantInvalidated acquisition_context

definition REDIRECT_STATUSES :: "int list" where
  "REDIRECT_STATUSES = [301, 302, 303, 307, 308]"

definition location_of :: "http_response \<Rightarrow> string" where
  "location_of r = (case filter (\<lambda>h. lower (fst h) = ''location'') (rs_headers r) of [] \<Rightarrow> [] | h # _ \<Rightarrow> snd h)"

text \<open>
  The headers are what the response offers to iterate over: one value a name. One call of the transport per hop; \<open>reply n\<close> is what it answers to the \<open>n\<close>-th request of the call. The
  errors name the origin of the requested URL.
\<close>

record hop_env =
  hp_lib :: net_lib
  hp_allow :: "string list"
  hp_resources :: "string list option"
  hp_method :: http_method
  hp_auth :: "outbound_auth option"
  hp_body :: "val option"
  hp_acquisition :: "acquisition_context option"
  hp_origin :: string
  hp_timeout :: int
  hp_reply :: "nat \<Rightarrow> http_method \<Rightarrow> string \<Rightarrow> outbound_auth option \<Rightarrow> val option \<Rightarrow> http_reply"

fun follow :: "hop_env \<Rightarrow> nat \<Rightarrow> nat \<Rightarrow> string \<Rightarrow> (tool_error + http_response \<times> string) \<times> http_effect list" where
  "follow h 0 n current = (Inl (''HTTP_REDIRECT_NOT_ALLOWED'', ''Too many redirects (limit 3).'', ''error''), [])"
| "follow h (Suc hops) n current =
     (let sent = Sent (hp_method h) current (hp_auth h) (hp_body h) in
      case hp_reply h n (hp_method h) current (hp_auth h) (hp_body h) of
        TimedOut \<Rightarrow> (Inl (''HTTP_TIMEOUT'', ''Request timed out after '' @ int_str (hp_timeout h) @ ''ms.'', ''error''), [sent])
      | ConnectFailed exc \<Rightarrow> (Inl (''TOOL_EXECUTION_ERROR'', ''Could not connect to '' @ hp_origin h @ '': '' @ exc @ ''.'', ''error''), [sent])
      | HttpFailed exc \<Rightarrow> (Inl (''UPSTREAM_ERROR'', ''The HTTP request could not be completed: '' @ exc @ ''.'', ''error''), [sent])
      | Answered r \<Rightarrow>
          if rs_status r \<in> set REDIRECT_STATUSES \<and> hp_method h = POST then
            (Inl (''HTTP_REDIRECT_NOT_ALLOWED'',
                  ''http.post does not follow redirects: the approved mutation must execute at the URL the approver was shown.'', ''error''), [sent])
          else if rs_status r \<notin> set REDIRECT_STATUSES then
            (Inr (r, current),
             sent # (case hp_acquisition h of None \<Rightarrow> [] | Some ctx \<Rightarrow> if rs_status r = 401 then [GrantInvalidated ctx] else []))
          else if location_of r = [] then (Inr (r, current), [sent])
          else (let nxt = nl_join (hp_lib h) current (location_of r) in
                case validate_destination (hp_lib h) (VStr nxt) (hp_allow h) (hp_method h = POST) (hp_resources h) of
                  Inl (_, message, status) \<Rightarrow>
                    (Inl (''HTTP_REDIRECT_NOT_ALLOWED'', ''A redirect attempted to leave the allowlist: '' @ message, status), [sent])
                | Inr _ \<Rightarrow> (case follow h hops (Suc n) nxt of (res, fx) \<Rightarrow> (res, sent # fx))))"

section \<open>The connector\<close>

record http_connector =
  hc_allow :: "string list"
  hc_timeout :: int
  hc_max_response :: int
  hc_max_request :: nat
  hc_credentials :: credential_store
  hc_tokens :: token_client

record http_env =
  hv_lib :: net_lib
  hv_url_lib :: url_lib
  hv_strict :: "val \<Rightarrow> credential_entry option"
  hv_disk :: credential_disk
  hv_token :: token_env
  hv_delegated :: "(acquisition_context \<Rightarrow> string + string) option"
  hv_reply :: "nat \<Rightarrow> http_method \<Rightarrow> string \<Rightarrow> outbound_auth option \<Rightarrow> val option \<Rightarrow> http_reply"
  hv_decode :: "string \<Rightarrow> string"
  hv_loads :: "string \<Rightarrow> val option"
  hv_executed_at :: string
  hv_duration :: int

definition new_http_connector :: "net_lib \<Rightarrow> string list \<Rightarrow> int \<Rightarrow> int \<Rightarrow> nat \<Rightarrow> string \<Rightarrow> http_connector" where
  "new_http_connector lib allow timeout max_response max_request credentials_path =
     \<lparr>hc_allow = normalize_origins lib allow, hc_timeout = timeout, hc_max_response = max_response, hc_max_request = max_request,
      hc_credentials = new_credential_store credentials_path, hc_tokens = new_token_client\<rparr>"

definition set_not_found :: "string \<Rightarrow> tool_error" where
  "set_not_found name = (''CREDENTIAL_SET_NOT_FOUND'', ''Credential set '' @ quoted name @ '' was not found.'', ''error'')"

record prepared_credential =
  pr_name :: string
  pr_entry :: credential_entry
  pr_resources :: "string list option"
  pr_acquisition :: "acquisition_context option"

text \<open>\<open>_prepare_credential\<close>; \<open>Inr None\<close> when no set is named.\<close>

definition prepare_credential ::
  "http_env \<Rightarrow> val \<Rightarrow> json_obj \<Rightarrow> http_connector \<Rightarrow> (tool_error + prepared_credential option) \<times> http_connector" where
  "prepare_credential env credential_set identity hc =
     (if \<not> truthy credential_set then (Inr None, hc)
      else let name = str_of_val credential_set in
        if cd_path (hc_credentials hc) = [] then
          (Inl (''CREDENTIAL_SET_NOT_FOUND'',
                ''No credential-set store is configured (GATEWAY_HTTP_CREDENTIAL_SETS), so '' @ quoted name @ '' cannot be resolved.'', ''error''), hc)
        else (case cd_get (hv_strict env) (hv_disk env) name (hc_credentials hc) of
                (found, st) \<Rightarrow>
                  (let hc' = hc\<lparr>hc_credentials := st\<rparr> in
                   case found of
                     None \<Rightarrow> (Inl (set_not_found name), hc')
                   | Some entry \<Rightarrow>
                       if scheme_of entry \<noteq> DELEGATED_SCHEME then
                         (Inr (Some \<lparr>pr_name = name, pr_entry = entry, pr_resources = None, pr_acquisition = None\<rparr>), hc')
                       else let namespace = get_none identity ''delegated_requester_namespace''; sub = get_none identity ''delegated_requester_sub'' in
                         if \<not> truthy namespace \<or> \<not> truthy sub then
                           (Inl (''DELEGATED_CONTEXT_REQUIRED'',
                                 ''A user-delegated credential set requires the authenticated worker requester context; an ordinary or diagnostic invocation cannot supply one.'',
                                 ''denied''), hc')
                         else if hv_delegated env = None then
                           (Inl (''DELEGATED_ACQUISITION_DISABLED'',
                                 ''User-delegated acquisition is not enabled on this gateway, so credential set '' @ quoted name @ '' cannot be used.'', ''error''), hc')
                         else (Inr (Some \<lparr>pr_name = name, pr_entry = entry,
                                  pr_resources = Some (normalize_origins (hv_lib env) (split_on (CHR '' '') (entry_field entry ''resource_origins''))),
                                  pr_acquisition = Some \<lparr>aq_namespace = str_of_val namespace, aq_sub = str_of_val sub, aq_set = name,
                                    aq_target = entry_field entry ''target'', aq_audience = dget entry ''audience'', aq_resource = dget entry ''resource''\<rparr>\<rparr>), hc'))))"

text \<open>\<open>_resolve_auth\<close> with the loaded entry: the requests it makes are effects of the call.\<close>

definition resolve_auth ::
  "http_env \<Rightarrow> prepared_credential option \<Rightarrow> http_connector \<Rightarrow> (tool_error + outbound_auth option) \<times> http_connector \<times> http_effect list" where
  "resolve_auth env prepared hc =
     (case prepared of
        None \<Rightarrow> (Inr None, hc, [])
      | Some pr \<Rightarrow>
          (case resolve_outbound_auth (hv_token env) (hv_delegated env) (pr_name pr) (pr_entry pr) (pr_acquisition pr) (hc_tokens hc) of
             (res, tc, rqs, mode) \<Rightarrow>
               (case res of Inl e \<Rightarrow> Inl e | Inr ra \<Rightarrow> Inr (Some (ra_auth ra)), hc\<lparr>hc_tokens := tc\<rparr>,
                map TokenAsked rqs @ (case pr_acquisition pr of None \<Rightarrow> [] | Some ctx \<Rightarrow> [DelegatedAsked ctx]))))"

definition http_request_call ::
  "http_env \<Rightarrow> http_method \<Rightarrow> val \<Rightarrow> int \<Rightarrow> val \<Rightarrow> val option \<Rightarrow> json_obj \<Rightarrow> http_connector \<Rightarrow>
   (tool_error + http_response \<times> string) \<times> http_connector \<times> http_effect list" where
  "http_request_call env method url timeout_ms credential_set body identity hc =
     (case prepare_credential env credential_set identity hc of
        (Inl e, hc1) \<Rightarrow> (Inl e, hc1, [])
      | (Inr prepared, hc1) \<Rightarrow>
          (case validate_destination (hv_lib env) url (hc_allow hc1) (method = POST) (Option.bind prepared pr_resources) of
             Inl e \<Rightarrow> (Inl e, hc1, [])
           | Inr origin \<Rightarrow>
               (case resolve_auth env prepared hc1 of
                  (Inl e, hc2, fx) \<Rightarrow> (Inl e, hc2, fx)
                | (Inr auth, hc2, fx) \<Rightarrow>
                    (case follow \<lparr>hp_lib = hv_lib env, hp_allow = hc_allow hc2, hp_resources = Option.bind prepared pr_resources,
                                  hp_method = method, hp_auth = auth, hp_body = body, hp_acquisition = Option.bind prepared pr_acquisition,
                                  hp_origin = origin, hp_timeout = timeout_ms, hp_reply = hv_reply env\<rparr>
                            (Suc MAX_REDIRECTS) 0 (strip (str_of_val url)) of
                       (res, gx) \<Rightarrow> (res, hc2, fx @ gx)))))"

section \<open>Responses and tools\<close>

definition PROJECTED_HEADERS :: "string list" where
  "PROJECTED_HEADERS = [''content-type'', ''content-length'', ''location'', ''server'', ''date'', ''cache-control'']"

definition project_headers :: "url_lib \<Rightarrow> (string \<times> string) list \<Rightarrow> (string, string) dict" where
  "project_headers lib hs =
     foldl (\<lambda>d h. if lower (fst h) \<in> set PROJECTED_HEADERS
                  then dset (lower (fst h)) (if lower (fst h) = ''location'' then gw_redact_secret_query lib (snd h) else snd h) d else d) [] hs"

definition ends_with :: "string \<Rightarrow> string \<Rightarrow> bool" where
  "ends_with s suffix \<longleftrightarrow> drop (length s - length suffix) s = suffix"

definition starts_with :: "string \<Rightarrow> string \<Rightarrow> bool" where
  "starts_with s prefix \<longleftrightarrow> take (length prefix) s = prefix"

definition project_response :: "http_env \<Rightarrow> http_response \<Rightarrow> string \<Rightarrow> int \<Rightarrow> json_obj" where
  "project_response env r final_url max_bytes =
     (let headers = project_headers (hv_url_lib env) (rs_headers r);
          ctype = lower (strip (takeWhile (\<lambda>c. c \<noteq> CHR '';'') (case dget headers ''content-type'' of None \<Rightarrow> [] | Some v \<Rightarrow> v)));
          raw = rs_content r;
          truncated = (int (length raw) > max_bytes);
          cut = (if truncated then take (nat max_bytes) raw else raw);
          json_body = (if truncated then VStr (hv_decode env cut)
                       else case hv_loads env (hv_decode env raw) of None \<Rightarrow> VStr (hv_decode env raw) | Some v \<Rightarrow> v)
      in [(''url'', VStr (gw_redact_secret_query (hv_url_lib env) final_url)), (''status'', VInt (rs_status r)),
          (''elapsed_ms'', VInt (hv_duration env)), (''headers'', VDict (map (\<lambda>h. (fst h, VStr (snd h))) headers)),
          (''content_type'', VStr ctype), (''content_length'', VInt (int (length raw))), (''truncated'', VBool truncated)]
         @ (if starts_with ctype ''text/'' then [(''body'', VStr (hv_decode env cut))]
            else if ctype = ''application/json'' \<or> ends_with ctype ''+json'' then [(''body'', json_body)] else []))"

definition http_error :: "http_env \<Rightarrow> string \<Rightarrow> string \<Rightarrow> string \<Rightarrow> string \<Rightarrow> tool_result" where
  "http_error env tool risk code message =
     make_error_result (hv_executed_at env) (VStr tool) code message (VStr risk) (VStr ''http'') (VInt 0)"

definition http_refusal :: "http_env \<Rightarrow> string \<Rightarrow> string \<Rightarrow> tool_error \<Rightarrow> tool_result" where
  "http_refusal env tool risk e =
     (case e of (code, message, status) \<Rightarrow>
        \<lparr>tr_tool = VStr tool, tr_status = VStr status, tr_data = VNone,
         tr_evidence = build_evidence (hv_executed_at env) (VStr risk) (VStr ''http'') (VInt (hv_duration env)),
         tr_error = VDict [(''code'', VStr code), (''message'', VStr message)], tr_authorization = VNone\<rparr>)"

definition http_success :: "http_env \<Rightarrow> string \<Rightarrow> string \<Rightarrow> json_obj \<Rightarrow> tool_result" where
  "http_success env tool risk data =
     \<lparr>tr_tool = VStr tool, tr_status = VStr ''success'', tr_data = VDict data,
      tr_evidence = build_evidence (hv_executed_at env) (VStr risk) (VStr ''http'') (VInt (hv_duration env)),
      tr_error = VNone, tr_authorization = VNone\<rparr>"

definition http_get_execute ::
  "http_env \<Rightarrow> json_obj \<Rightarrow> json_obj \<Rightarrow> http_connector \<Rightarrow> tool_result \<times> http_connector \<times> http_effect list" where
  "http_get_execute env parameters identity hc =
     (case coerce_bounded ''timeout_ms'' (get_none parameters ''timeout_ms'') (hc_timeout hc) MAX_TIMEOUT_MS of
        Inl m \<Rightarrow> (http_error env ''http.get'' ''read'' ''INVALID_PARAMETERS'' m, hc, [])
      | Inr timeout \<Rightarrow>
          (case coerce_bounded ''max_bytes'' (get_none parameters ''max_bytes'') (hc_max_response hc) (hc_max_response hc) of
             Inl m \<Rightarrow> (http_error env ''http.get'' ''read'' ''INVALID_PARAMETERS'' m, hc, [])
           | Inr max_bytes \<Rightarrow>
               (case http_request_call env GET (get_none parameters ''url'') timeout (get_none parameters ''credential_set'') None identity hc of
                  (Inl e, hc', fx) \<Rightarrow> (http_refusal env ''http.get'' ''read'' e, hc', fx)
                | (Inr (r, final_url), hc', fx) \<Rightarrow>
                    (http_success env ''http.get'' ''read'' (project_response env r final_url max_bytes), hc', fx))))"

definition http_post_execute ::
  "http_env \<Rightarrow> json_obj \<Rightarrow> json_obj \<Rightarrow> http_connector \<Rightarrow> tool_result \<times> http_connector \<times> http_effect list" where
  "http_post_execute env parameters identity hc =
     (case coerce_bounded ''timeout_ms'' (get_none parameters ''timeout_ms'') (hc_timeout hc) MAX_TIMEOUT_MS of
        Inl m \<Rightarrow> (http_error env ''http.post'' ''write'' ''INVALID_PARAMETERS'' m, hc, [])
      | Inr timeout \<Rightarrow>
          (let body = get_none parameters ''body'' in
           case (if body = VNone then None else validate_body body (hc_max_request hc)) of
             Some (code, m) \<Rightarrow> (http_error env ''http.post'' ''write'' code m, hc, [])
           | None \<Rightarrow>
               (case http_request_call env POST (get_none parameters ''url'') timeout (get_none parameters ''credential_set'')
                       (if body = VNone then None else Some body) identity hc of
                  (Inl e, hc', fx) \<Rightarrow> (http_refusal env ''http.post'' ''write'' e, hc', fx)
                | (Inr (r, final_url), hc', fx) \<Rightarrow>
                    (http_success env ''http.post'' ''write''
                       (project_response env r final_url (hc_max_response hc)
                        @ [(''mutation_confirmed'', VBool (200 \<le> rs_status r \<and> rs_status r < 300))]), hc', fx))))"

section \<open>The two vocabularies are one\<close>

lemma secret_vocabulary_twins: "is_secret_query_param = is_secret_param"
  by (rule ext) (simp add: is_secret_query_param_def is_secret_param_def SECRET_QUERY_PARAMS_def SECRET_PARAM_SUBSTRINGS_def)

lemma mask_segments_twins:
  "mask_segments lib segments = (list_ex (secret_segment lib) segments, map (mask_segment lib) segments)"
  by (induction segments)
    (auto simp: Let_def secret_vocabulary_twins secret_segment_def mask_segment_def MASK_def split: prod.splits)

text \<open>The gateway's copy of the URL redaction and the kernel's agree on every URL.\<close>

lemma url_redaction_twins: "gw_redact_secret_query lib url = redact_secret_query lib url"
  by (auto simp: gw_redact_secret_query_def redact_secret_query_def mask_segments_twins MASK_def Let_def
      split: option.splits list.splits)

section \<open>Bounds\<close>

lemma coerce_bounded_cap:
  assumes "coerce_bounded name v unset cap = Inr n" and "1 \<le> unset" and "unset \<le> cap"
  shows "1 \<le> n \<and> n \<le> cap"
  using assms by (auto simp: coerce_bounded_def split: if_splits option.splits)

lemma validate_body_bounds:
  "validate_body body max_bytes = None \<longleftrightarrow>
     (\<exists>d. body = VDict d) \<and> json_depth body \<le> 2 \<and> count_keys body \<le> 32 \<and> length (json_dumps body) \<le> max_bytes"
  by (cases body) (simp_all add: validate_body_def not_less del: json_depth.simps count_keys.simps json_dumps.simps)

lemma projected_header_names:
  assumes "fst ` set d \<subseteq> set PROJECTED_HEADERS"
  shows "fst ` set (foldl (\<lambda>d h. if lower (fst h) \<in> set PROJECTED_HEADERS
      then dset (lower (fst h)) (if lower (fst h) = ''location'' then gw_redact_secret_query lib (snd h) else snd h) d else d) d hs)
    \<subseteq> set PROJECTED_HEADERS"
  using assms
proof (induction hs arbitrary: d)
  case (Cons h hs)
  show ?case by (simp del: if_image_distrib) (intro impI conjI Cons.IH, insert Cons.prems, simp_all)
qed simp

lemma no_credential_header_projected: "{''set-cookie'', ''authorization''} \<inter> fst ` set (project_headers lib hs) = {}"
proof -
  have "fst ` set (project_headers lib hs) \<subseteq> set PROJECTED_HEADERS"
    unfolding project_headers_def by (rule projected_header_names) simp
  then show ?thesis by (auto simp: PROJECTED_HEADERS_def)
qed

section \<open>Egress\<close>

text \<open>A destination the connector may reach, for a set with these pinned origins.\<close>

definition destination_ok :: "net_lib \<Rightarrow> string list \<Rightarrow> string list option \<Rightarrow> string \<Rightarrow> bool" where
  "destination_ok lib allow resources u =
     (case nl_split lib u of
        None \<Rightarrow> False
      | Some p \<Rightarrow>
          hu_scheme p \<in> {''http'', ''https''} \<and> \<not> present (hu_username p) \<and> \<not> present (hu_password p)
          \<and> present (hu_host p) \<and> nl_ip lib (the (hu_host p)) \<noteq> Some True
          \<and> (case origin_of lib u of
               None \<Rightarrow> False
             | Some origin \<Rightarrow> origin \<in> set allow \<and> (case resources of None \<Rightarrow> True | Some ros \<Rightarrow> origin \<in> set ros)))"

definition no_secret_query :: "net_lib \<Rightarrow> string \<Rightarrow> bool" where
  "no_secret_query lib u =
     (case nl_split lib u of None \<Rightarrow> True | Some p \<Rightarrow> list_all (\<lambda>q. \<not> is_secret_query_param (fst q)) (nl_qsl lib (hu_query p)))"

lemma filter_map_fst_Nil: "filter P (map fst xs) = [] \<longleftrightarrow> list_all (\<lambda>q. \<not> P (fst q)) xs"
  by (induction xs) auto

lemma validate_destination_iff:
  "(\<exists>origin. validate_destination lib url allow forbid resources = Inr origin) \<longleftrightarrow>
     (\<exists>u. url = VStr u \<and> strip u \<noteq> [] \<and> destination_ok lib allow resources (strip u) \<and> (forbid \<longrightarrow> no_secret_query lib (strip u)))"
  (is "?L \<longleftrightarrow> ?R")
proof -
  have aux: "(\<exists>origin. (case filter P xs of [] \<Rightarrow> Inr (o1::string) | k # ks \<Rightarrow> Inl (f k ks)) = Inr origin) \<longleftrightarrow> filter P xs = []" for P :: "string \<Rightarrow> bool" and xs o1 f
    by (auto split: list.splits)
  show ?thesis
    by (cases url) (auto simp: validate_destination_def destination_ok_def no_secret_query_def Let_def aux filter_map_fst_Nil
        split: option.splits if_splits list.splits)
qed

section \<open>The hops\<close>

definition is_sent :: "http_effect \<Rightarrow> bool" where
  "is_sent e = (case e of Sent _ _ _ _ \<Rightarrow> True | _ \<Rightarrow> False)"

definition sends :: "http_effect list \<Rightarrow> nat" where
  "sends fx = length (filter is_sent fx)"

lemma sends_simps [simp]:
  "sends [] = 0" "sends (e # fx) = (if is_sent e then 1 else 0) + sends fx" "sends (fx @ gx) = sends fx + sends gx"
  by (simp_all add: sends_def)

lemma is_sent_simps [simp]:
  "is_sent (Sent m u a b)" "\<not> is_sent (TokenAsked rq)" "\<not> is_sent (DelegatedAsked ctx)" "\<not> is_sent (GrantInvalidated ctx)"
  by (simp_all add: is_sent_def)

text \<open>What a hop may put on the trail: a request at a validated URL, or the invalidation of the call's grant after a 401.\<close>

definition hop_allowed :: "hop_env \<Rightarrow> string \<Rightarrow> tool_error + http_response \<times> string \<Rightarrow> http_effect \<Rightarrow> bool" where
  "hop_allowed h start res e =
     (case e of
        Sent m u a b \<Rightarrow>
          m = hp_method h \<and> a = hp_auth h \<and> b = hp_body h
          \<and> (u = start \<or> hp_method h = GET \<and> destination_ok (hp_lib h) (hp_allow h) (hp_resources h) (strip u))
      | GrantInvalidated ctx \<Rightarrow> hp_acquisition h = Some ctx \<and> (\<exists>r u. res = Inr (r, u) \<and> rs_status r = 401)
      | _ \<Rightarrow> False)"

lemma hop_allowed_simps [simp]:
  "hop_allowed h start res (Sent m u a b) \<longleftrightarrow>
     m = hp_method h \<and> a = hp_auth h \<and> b = hp_body h
     \<and> (u = start \<or> hp_method h = GET \<and> destination_ok (hp_lib h) (hp_allow h) (hp_resources h) (strip u))"
  "hop_allowed h start res (GrantInvalidated ctx) \<longleftrightarrow> hp_acquisition h = Some ctx \<and> (\<exists>r u. res = Inr (r, u) \<and> rs_status r = 401)"
  "\<not> hop_allowed h start res (TokenAsked rq)" "\<not> hop_allowed h start res (DelegatedAsked ctx)"
  by (simp_all add: hop_allowed_def)

lemma hop_allowed_start:
  assumes "hop_allowed h nxt res e" and "hp_method h = GET" and "destination_ok (hp_lib h) (hp_allow h) (hp_resources h) (strip nxt)"
  shows "hop_allowed h start res e"
  using assms by (cases e) auto

lemma redirect_validated:
  assumes "validate_destination lib (VStr nxt) allow forbid resources = Inr origin"
  shows "destination_ok lib allow resources (strip nxt)"
  using assms validate_destination_iff [of lib "VStr nxt" allow forbid resources] by blast

text \<open>The two ways a hop ends: it is the last one, or it goes on at a validated URL, which only a read does.\<close>

lemma follow_step:
  assumes "follow h (Suc hops) n current = (res, fx)"
  obtains
    (last) gx where "fx = Sent (hp_method h) current (hp_auth h) (hp_body h) # gx" and "list_all (hop_allowed h current res) gx" and "sends gx = 0"
      and "\<forall>r u. res = Inr (r, u) \<longrightarrow> u = current \<and> hp_reply h n (hp_method h) current (hp_auth h) (hp_body h) = Answered r"
  | (hop) nxt gx where "fx = Sent (hp_method h) current (hp_auth h) (hp_body h) # gx" and "hp_method h = GET"
      and "destination_ok (hp_lib h) (hp_allow h) (hp_resources h) (strip nxt)" and "follow h hops (Suc n) nxt = (res, gx)"
proof (cases "hp_reply h n (hp_method h) current (hp_auth h) (hp_body h)")
  case (Answered r)
  show thesis
  proof (cases "rs_status r \<in> set REDIRECT_STATUSES \<and> hp_method h = GET \<and> location_of r \<noteq> []")
    case True
    let ?nxt = "nl_join (hp_lib h) current (location_of r)"
    show thesis
    proof (cases "validate_destination (hp_lib h) (VStr ?nxt) (hp_allow h) False (hp_resources h)")
      case (Inl e)
      then show thesis using assms Answered True by (intro last [of "[]"]) (auto simp: Let_def split: prod.splits)
    next
      case (Inr origin)
      obtain res' gx where run: "follow h hops (Suc n) ?nxt = (res', gx)" by (metis surj_pair)
      then show thesis using assms Answered True Inr redirect_validated [OF Inr] by (intro hop [of gx ?nxt]) (auto simp: Let_def)
    qed
  next
    case False
    then have "hp_method h = POST \<or> rs_status r \<notin> set REDIRECT_STATUSES \<or> location_of r = []" using http_method.exhaust by blast
    then show thesis using assms Answered
      by (intro last [of "tl fx"]) (auto simp: Let_def split: if_splits option.splits)
  qed
qed (use assms in \<open>intro last [of "[]"]; auto simp: Let_def\<close>)+

lemma follow_allowed:
  assumes "follow h hops n current = (res, fx)"
  shows "list_all (hop_allowed h current res) fx"
  using assms
proof (induction hops arbitrary: n current fx)
  case (Suc hops)
  from Suc.prems show ?case
  proof (cases rule: follow_step)
    case (hop nxt gx)
    from Suc.IH [OF hop(4)] hop hop_allowed_start [of h nxt res _ current] show ?thesis by (auto simp: list_all_iff)
  qed simp
qed simp

lemma follow_sends:
  assumes "follow h hops n current = (res, fx)"
  shows "sends fx \<le> hops" and "hp_method h = POST \<Longrightarrow> sends fx \<le> 1"
proof -
  show "sends fx \<le> hops" using assms
  proof (induction hops arbitrary: n current fx)
    case (Suc hops)
    from Suc.prems show ?case
    proof (cases rule: follow_step)
      case (hop nxt gx)
      with Suc.IH [OF hop(4)] show ?thesis by simp
    qed simp
  qed simp
  show "sends fx \<le> 1" if "hp_method h = POST"
  proof (cases hops)
    case (Suc k)
    from assms [unfolded Suc] that show ?thesis by (cases rule: follow_step) auto
  qed (use assms in simp)
qed

lemma follow_answer:
  assumes "follow h hops n current = (Inr (r, final), fx)"
  shows "\<exists>k. hp_reply h k (hp_method h) final (hp_auth h) (hp_body h) = Answered r
    \<and> Sent (hp_method h) final (hp_auth h) (hp_body h) \<in> set fx"
  using assms
proof (induction hops arbitrary: n current fx)
  case (Suc hops)
  from Suc.prems show ?case
  proof (cases rule: follow_step)
    case (hop nxt gx)
    with Suc.IH [OF hop(4)] show ?thesis by auto
  qed auto
qed simp

section \<open>A call\<close>

text \<open>The entry of the named set, the origins it pins when it is delegated, and the requester it acts for.\<close>

definition named_entry :: "http_env \<Rightarrow> val \<Rightarrow> http_connector \<Rightarrow> credential_entry option" where
  "named_entry env credential_set hc =
     (if truthy credential_set then fst (cd_get (hv_strict env) (hv_disk env) (str_of_val credential_set) (hc_credentials hc)) else None)"

definition pinned_origins :: "http_env \<Rightarrow> val \<Rightarrow> http_connector \<Rightarrow> string list option" where
  "pinned_origins env credential_set hc =
     (case named_entry env credential_set hc of
        None \<Rightarrow> None
      | Some entry \<Rightarrow>
          if scheme_of entry = DELEGATED_SCHEME
          then Some (normalize_origins (hv_lib env) (split_on (CHR '' '') (entry_field entry ''resource_origins''))) else None)"

definition acts_for_requester :: "http_env \<Rightarrow> val \<Rightarrow> json_obj \<Rightarrow> http_connector \<Rightarrow> acquisition_context \<Rightarrow> bool" where
  "acts_for_requester env credential_set identity hc ctx \<longleftrightarrow>
     pinned_origins env credential_set hc \<noteq> None \<and> hv_delegated env \<noteq> None \<and> aq_set ctx = str_of_val credential_set
     \<and> truthy (get_none identity ''delegated_requester_namespace'') \<and> truthy (get_none identity ''delegated_requester_sub'')
     \<and> aq_namespace ctx = str_of_val (get_none identity ''delegated_requester_namespace'')
     \<and> aq_sub ctx = str_of_val (get_none identity ''delegated_requester_sub'')"

text \<open>The authorization a request may carry: none without a set, else what its set resolves to.\<close>

definition set_authorization :: "http_env \<Rightarrow> val \<Rightarrow> json_obj \<Rightarrow> http_connector \<Rightarrow> outbound_auth option \<Rightarrow> bool" where
  "set_authorization env credential_set identity hc a =
     (if \<not> truthy credential_set then a = None
      else \<exists>entry acquisition ra. named_entry env credential_set hc = Some entry
             \<and> fst (resolve_outbound_auth (hv_token env) (hv_delegated env) (str_of_val credential_set) entry acquisition (hc_tokens hc)) = Inr ra
             \<and> a = Some (ra_auth ra) \<and> (\<forall>ctx. acquisition = Some ctx \<longrightarrow> acts_for_requester env credential_set identity hc ctx))"

definition call_allowed ::
  "http_env \<Rightarrow> http_method \<Rightarrow> val \<Rightarrow> val \<Rightarrow> val option \<Rightarrow> json_obj \<Rightarrow> http_connector \<Rightarrow> tool_error + http_response \<times> string \<Rightarrow> http_effect \<Rightarrow> bool" where
  "call_allowed env method url credential_set body identity hc res e =
     (case e of
        Sent m u a b \<Rightarrow>
          m = method \<and> b = body \<and> set_authorization env credential_set identity hc a
          \<and> destination_ok (hv_lib env) (hc_allow hc) (pinned_origins env credential_set hc) (strip u)
          \<and> (method = POST \<longrightarrow> u = strip (str_of_val url) \<and> no_secret_query (hv_lib env) u)
      | TokenAsked rq \<Rightarrow>
          (\<exists>entry. named_entry env credential_set hc = Some entry \<and> build_token_request (str_of_val credential_set) entry = Inr rq)
      | DelegatedAsked ctx \<Rightarrow> acts_for_requester env credential_set identity hc ctx
      | GrantInvalidated ctx \<Rightarrow> acts_for_requester env credential_set identity hc ctx \<and> (\<exists>r u. res = Inr (r, u) \<and> rs_status r = 401))"

text \<open>What the first step of a call leaves.\<close>

lemma prepare_credential_ok:
  assumes "prepare_credential env credential_set identity hc = (Inr prepared, hc1)"
  shows "hc_allow hc1 = hc_allow hc" and "hc_tokens hc1 = hc_tokens hc"
    and "Option.bind prepared pr_resources = pinned_origins env credential_set hc"
    and "prepared = None \<longleftrightarrow> \<not> truthy credential_set"
    and "\<forall>pr. prepared = Some pr \<longrightarrow> pr_name pr = str_of_val credential_set \<and> named_entry env credential_set hc = Some (pr_entry pr)
      \<and> (\<forall>ctx. pr_acquisition pr = Some ctx \<longrightarrow> acts_for_requester env credential_set identity hc ctx)"
  using assms
  by (auto simp: prepare_credential_def pinned_origins_def named_entry_def acts_for_requester_def Let_def
      split: if_splits prod.splits option.splits)

lemma resolve_requests:
  assumes "resolve_outbound_auth te del name entry acquisition tc = (res, tc', rqs, mode)" and "rq \<in> set rqs"
  shows "build_token_request name entry = Inr rq"
  using assms by (auto simp: resolve_outbound_auth_def acquire_def Let_def split: if_splits prod.splits option.splits sum.splits)

text \<open>The cases of a call: it stops before anything leaves, while it resolves the set, or it sends.\<close>

definition hop_of ::
  "http_env \<Rightarrow> http_method \<Rightarrow> val option \<Rightarrow> int \<Rightarrow> prepared_credential option \<Rightarrow> string list \<Rightarrow> outbound_auth option \<Rightarrow> string \<Rightarrow> hop_env" where
  "hop_of env method body timeout prepared allow auth origin =
     \<lparr>hp_lib = hv_lib env, hp_allow = allow, hp_resources = Option.bind prepared pr_resources,
      hp_method = method, hp_auth = auth, hp_body = body, hp_acquisition = Option.bind prepared pr_acquisition,
      hp_origin = origin, hp_timeout = timeout, hp_reply = hv_reply env\<rparr>"

lemma http_request_cases:
  assumes "http_request_call env method url timeout credential_set body identity hc = (res, hc', fx)"
  obtains
    (refused) "fx = []" and "\<exists>e. res = Inl e"
  | (unresolved) prepared hc1 origin e where "prepare_credential env credential_set identity hc = (Inr prepared, hc1)"
      and "validate_destination (hv_lib env) url (hc_allow hc1) (method = POST) (Option.bind prepared pr_resources) = Inr origin"
      and "resolve_auth env prepared hc1 = (Inl e, hc', fx)" and "res = Inl e"
  | (sent) prepared hc1 origin auth ax gx where "prepare_credential env credential_set identity hc = (Inr prepared, hc1)"
      and "validate_destination (hv_lib env) url (hc_allow hc1) (method = POST) (Option.bind prepared pr_resources) = Inr origin"
      and "resolve_auth env prepared hc1 = (Inr auth, hc', ax)" and "fx = ax @ gx"
      and "follow (hop_of env method body timeout prepared (hc_allow hc') auth origin) (Suc MAX_REDIRECTS) 0 (strip (str_of_val url)) = (res, gx)"
proof -
  obtain r1 hc1 where p: "prepare_credential env credential_set identity hc = (r1, hc1)" by (metis surj_pair)
  show thesis
  proof (cases r1)
    case (Inr prepared)
    note q = p [unfolded Inr]
    show thesis
    proof (cases "validate_destination (hv_lib env) url (hc_allow hc1) (method = POST) (Option.bind prepared pr_resources)")
      case v: (Inr origin)
      obtain r2 hc2 ax where r: "resolve_auth env prepared hc1 = (r2, hc2, ax)" by (metis surj_pair)
      show thesis
      proof (cases r2)
        case (Inl e)
        with r assms q v show thesis by (intro unresolved [OF q v]) (auto simp: http_request_call_def)
      next
        case a: (Inr auth)
        let ?h = "hop_of env method body timeout prepared (hc_allow hc2) auth origin"
        obtain r3 gx where f: "follow ?h (Suc MAX_REDIRECTS) 0 (strip (str_of_val url)) = (r3, gx)" by (metis surj_pair)
        have "hc' = hc2" "fx = ax @ gx" "res = r3"
          using assms q v r a f by (auto simp: http_request_call_def hop_of_def simp del: follow.simps)
        with sent [OF q v] r a f show thesis by simp
      qed
    qed (use assms q in \<open>auto simp: http_request_call_def intro: refused\<close>)
  qed (use assms p in \<open>auto simp: http_request_call_def intro: refused\<close>)
qed

lemma resolve_auth_ok:
  assumes p: "prepare_credential env credential_set identity hc = (Inr prepared, hc1)" and r: "resolve_auth env prepared hc1 = (r2, hc2, ax)"
  shows "hc_allow hc2 = hc_allow hc" and "sends ax = 0" and "list_all (call_allowed env method url credential_set body identity hc res) ax"
    and "\<forall>auth. r2 = Inr auth \<longrightarrow> set_authorization env credential_set identity hc auth"
proof -
  note ok = prepare_credential_ok [OF p]
  have "hc_allow hc2 = hc_allow hc \<and> sends ax = 0 \<and> list_all (call_allowed env method url credential_set body identity hc res) ax
    \<and> (\<forall>auth. r2 = Inr auth \<longrightarrow> set_authorization env credential_set identity hc auth)"
  proof (cases prepared)
    case None
    with r ok(1,4) show ?thesis by (auto simp: resolve_auth_def set_authorization_def)
  next
    case (Some pr)
    obtain res2 tc rqs mode where o: "resolve_outbound_auth (hv_token env) (hv_delegated env) (pr_name pr) (pr_entry pr)
        (pr_acquisition pr) (hc_tokens hc1) = (res2, tc, rqs, mode)" by (metis prod_cases4)
    have entry: "pr_name pr = str_of_val credential_set" "named_entry env credential_set hc = Some (pr_entry pr)"
      "pr_acquisition pr = Some ctx \<Longrightarrow> acts_for_requester env credential_set identity hc ctx" for ctx
      using ok(5) Some by auto
    have ax: "ax = map TokenAsked rqs @ (case pr_acquisition pr of None \<Rightarrow> [] | Some ctx \<Rightarrow> [DelegatedAsked ctx])"
      and r2: "r2 = (case res2 of Inl e \<Rightarrow> Inl e | Inr ra \<Rightarrow> Inr (Some (ra_auth ra)))" and hc2: "hc_allow hc2 = hc_allow hc"
      using r o Some ok(1) by (auto simp: resolve_auth_def)
    have none: "sends (map TokenAsked rqs) = 0" by (induction rqs) simp_all
    have "list_all (call_allowed env method url credential_set body identity hc res) (map TokenAsked rqs)"
      using resolve_requests [OF o] entry(1,2) by (auto simp: list_all_iff call_allowed_def)
    moreover have "set_authorization env credential_set identity hc auth" if got: "r2 = Inr auth" for auth
    proof -
      obtain ra where "res2 = Inr ra" "auth = Some (ra_auth ra)" using got r2 by (cases res2) auto
      then show ?thesis using o ok(2,4) Some entry unfolding set_authorization_def
        by (auto intro!: exI [of _ "pr_entry pr"] exI [of _ "pr_acquisition pr"] exI [of _ ra])
    qed
    ultimately show ?thesis using ax none hc2 entry(3) by (auto simp: call_allowed_def split: option.splits)
  qed
  then show "hc_allow hc2 = hc_allow hc" and "sends ax = 0" and "list_all (call_allowed env method url credential_set body identity hc res) ax"
    and "\<forall>auth. r2 = Inr auth \<longrightarrow> set_authorization env credential_set identity hc auth" by blast+
qed

text \<open>
  C16. Nothing leaves the gateway for a destination the operator did not allow. Every request of a call of
  the HTTP tools uses the tool's verb and body, goes to an http or https URL with a host, without user
  information, that is no loopback, link-local or multicast address and whose origin stands on the
  allowlist and, for a delegated set, among the origins the set pins; this holds on every hop of a
  redirect. A write is sent at most once, to exactly the URL that was asked for, which carries no secret
  parameter; a read is sent at most four times. A request carries no authorization without a named set,
  and with one exactly what that set resolves to. Tokens are asked for only with the set's own token
  request or on behalf of the verified requester, and only once the URL is found to be allowed. A grant
  is invalidated only after its 401. A reported response is the answer to one of the requests.
\<close>

theorem http_egress_confined:
  assumes "http_request_call env method url timeout credential_set body identity hc = (res, hc', fx)"
  shows "list_all (call_allowed env method url credential_set body identity hc res) fx
    \<and> sends fx \<le> (if method = POST then 1 else MAX_REDIRECTS + 1)
    \<and> (fx \<noteq> [] \<longrightarrow> (\<exists>u. url = VStr u \<and> destination_ok (hv_lib env) (hc_allow hc) (pinned_origins env credential_set hc) (strip u)))
    \<and> (\<forall>r final. res = Inr (r, final) \<longrightarrow> (\<exists>k a. Sent method final a body \<in> set fx \<and> hv_reply env k method final a body = Answered r))"
  using assms
proof (cases rule: http_request_cases)
  case (unresolved prepared hc1 origin e)
  note ok = prepare_credential_ok [OF unresolved(1)] and ax = resolve_auth_ok [OF unresolved(1,3)]
  have "\<exists>u. url = VStr u \<and> destination_ok (hv_lib env) (hc_allow hc) (pinned_origins env credential_set hc) (strip u)"
    using validate_destination_iff [THEN iffD1, OF exI, OF unresolved(2)] ok(1,3) by auto
  then show ?thesis using ax(2,3) unresolved(4) by auto
next
  case (sent prepared hc1 origin auth ax gx)
  let ?h = "hop_of env method body timeout prepared (hc_allow hc') auth origin"
  note ok = prepare_credential_ok [OF sent(1)] and ax = resolve_auth_ok [OF sent(1,3)]
  obtain u where u: "url = VStr u" "destination_ok (hv_lib env) (hc_allow hc) (pinned_origins env credential_set hc) (strip u)"
      "method = POST \<longrightarrow> no_secret_query (hv_lib env) (strip u)"
    using validate_destination_iff [THEN iffD1, OF exI, OF sent(2)] ok(1,3) by auto
  have start: "strip (str_of_val url) = strip u" using u(1) by simp
  have acq: "acts_for_requester env credential_set identity hc ctx" if "hp_acquisition ?h = Some ctx" for ctx
    using that ok(5) by (auto simp: hop_of_def Option.bind_eq_Some_conv)
  have "call_allowed env method url credential_set body identity hc res e" if "e \<in> set gx" for e
  proof -
    have "hop_allowed ?h (strip u) res e" using follow_allowed [OF sent(5)] that start by (simp add: list_all_iff)
    then show ?thesis using u ax(1) ax(4) ok(3) acq start
      by (cases e) (auto simp: call_allowed_def hop_of_def)
  qed
  then have "list_all (call_allowed env method url credential_set body identity hc res) fx"
    using ax(3) sent(4) by (auto simp: list_all_iff)
  moreover have "sends fx \<le> (if method = POST then 1 else MAX_REDIRECTS + 1)"
    using follow_sends [OF sent(5)] ax(2) sent(4) by (auto simp: hop_of_def)
  moreover have "\<exists>k a. Sent method final a body \<in> set fx \<and> hv_reply env k method final a body = Answered r" if "res = Inr (r, final)" for r final
    using follow_answer [OF sent(5) [unfolded that]] sent(4) by (auto simp: hop_of_def)
  ultimately show ?thesis using u by blast
qed auto

definition demo_net :: net_lib where
  "demo_net =
     \<lparr>nl_split = (\<lambda>u. if take 9 u = ''http://a/'' then Some \<lparr>hu_scheme = ''http'', hu_netloc = ''a'', hu_host = Some ''a'',
         hu_username = None, hu_password = None, hu_query = []\<rparr> else None),
      nl_join = (\<lambda>u l. ''http://a'' @ l), nl_ip = (\<lambda>_. None), nl_qsl = (\<lambda>_. [])\<rparr>"

definition demo_http_env :: http_env where
  "demo_http_env =
     \<lparr>hv_lib = demo_net, hv_url_lib = \<lparr>urlsplit = (\<lambda>_. None), urlunsplit = (\<lambda>_. []), unquote = (\<lambda>s. s)\<rparr>, hv_strict = (\<lambda>_. None),
      hv_disk = \<lparr>dk_mtime = None, dk_json = None, dk_strict = None\<rparr>,
      hv_token = \<lparr>te_now = 0, te_after = 0, te_endpoint = (\<lambda>_. TokenTimeout), te_micros = (\<lambda>_. None)\<rparr>, hv_delegated = None,
      hv_reply = (\<lambda>n m u a b. Answered \<lparr>rs_status = (if n = 0 then 302 else 200),
        rs_headers = (if n = 0 then [(''location'', ''/login'')] else []), rs_content = []\<rparr>),
      hv_decode = (\<lambda>s. s), hv_loads = (\<lambda>_. None), hv_executed_at = [], hv_duration = 0\<rparr>"

definition demo_http :: http_connector where
  "demo_http =
     \<lparr>hc_allow = [''http://a''], hc_timeout = 1, hc_max_response = 1, hc_max_request = 1,
      hc_credentials = \<lparr>cd_path = [], cd_mtime = None, cd_sets = []\<rparr>, hc_tokens = \<lparr>tk_margin = 0, tk_cache = []\<rparr>\<rparr>"

definition demo_http_trail :: "http_effect list" where
  "demo_http_trail = [Sent GET ''http://a/'' None None, Sent GET ''http://a/login'' None None]"

lemma demo_http_run:
  "http_request_call demo_http_env GET (VStr '' http://a/'') 1 VNone None [] demo_http
   = (Inr (\<lparr>rs_status = 200, rs_headers = [], rs_content = []\<rparr>, ''http://a/login''), demo_http, demo_http_trail)"
  by code_simp

theorem http_egress_confined_witness:
  "sends demo_http_trail \<le> MAX_REDIRECTS + 1 \<and> destination_ok demo_net [''http://a''] None ''http://a/login''
   \<and> (\<exists>k a. hv_reply demo_http_env k GET ''http://a/login'' a None = Answered \<lparr>rs_status = 200, rs_headers = [], rs_content = []\<rparr>)"
proof -
  note at = http_egress_confined [OF demo_http_run]
  have pins: "pinned_origins demo_http_env VNone demo_http = None" by (simp add: pinned_origins_def named_entry_def)
  have plain: "strip ''http://a/login'' = ''http://a/login''" by code_simp
  have "list_all (call_allowed demo_http_env GET (VStr '' http://a/'') VNone None [] demo_http
      (Inr (\<lparr>rs_status = 200, rs_headers = [], rs_content = []\<rparr>, ''http://a/login''))) demo_http_trail" using at by blast
  then have "destination_ok demo_net [''http://a''] None ''http://a/login''"
    using pins plain by (simp add: demo_http_trail_def call_allowed_def demo_http_env_def demo_http_def)
  then show ?thesis using at by auto
qed

section \<open>The tools\<close>

text \<open>What the tools put on the trail is what their one call of the request loop does, with a bounded body for a write.\<close>

lemma http_get_trail:
  assumes "http_get_execute env parameters identity hc = (r, hc', fx)"
  shows "fx = [] \<or> (\<exists>res timeout. http_request_call env GET (get_none parameters ''url'') timeout
      (get_none parameters ''credential_set'') None identity hc = (res, hc', fx))"
  using assms by (fastforce simp: http_get_execute_def split: sum.splits prod.splits)

lemma http_post_trail:
  assumes "http_post_execute env parameters identity hc = (r, hc', fx)"
  shows "fx = [] \<or> (\<exists>res timeout body. http_request_call env POST (get_none parameters ''url'') timeout
      (get_none parameters ''credential_set'') body identity hc = (res, hc', fx)
      \<and> (\<forall>b. body = Some b \<longrightarrow> (\<exists>d. b = VDict d) \<and> json_depth b \<le> 2 \<and> count_keys b \<le> 32 \<and> length (json_dumps b) \<le> hc_max_request hc))"
proof (cases "fx = []")
  case False
  then obtain res timeout where "http_request_call env POST (get_none parameters ''url'') timeout (get_none parameters ''credential_set'')
      (if get_none parameters ''body'' = VNone then None else Some (get_none parameters ''body'')) identity hc = (res, hc', fx)"
    and "get_none parameters ''body'' \<noteq> VNone \<longrightarrow> validate_body (get_none parameters ''body'') (hc_max_request hc) = None"
    using assms by (auto simp: http_post_execute_def Let_def split: sum.splits prod.splits option.splits if_splits)
  then show ?thesis using validate_body_bounds
    by (intro disjI2 exI [of _ res] exI [of _ timeout]
        exI [of _ "if get_none parameters ''body'' = VNone then None else Some (get_none parameters ''body'')"]) auto
qed simp

end
