(* ===== verification/Identity_Broker.thy ===== *)
theory Identity_Broker
  imports Tool_Invocation Secret_Params
begin

text \<open>
  The identity broker (\<open>identity_service/services/identity_service.py\<close>, \<open>token_service.py\<close>,
  \<open>exchange_service.py\<close>, its routes \<open>api/routes/auth.py\<close> and \<open>identity.py\<close>, and the client registries of
  \<open>core/config.py\<close>): logins and refreshes at the identity provider, the development mint, and the exchange
  of a subject token for a delegated one. The provider, JWT encoding and decoding, key generation, base64,
  percent encoding and clocks are arguments; the trail of a call is the list of its effects. Times are
  integers in seconds.
\<close>

section \<open>Settings\<close>

record service_client =
  sc_id :: string
  sc_secret :: string
  sc_audiences :: "string list"

record workload_client =
  wc_subject :: string
  wc_id :: string
  wc_audiences :: "string list"

definition parse_audiences :: "string option \<Rightarrow> string list" where
  "parse_audiences part =
     (case part of None \<Rightarrow> [] | Some s \<Rightarrow> filter (\<lambda>a. a \<noteq> []) (map strip (split_on (CHR ''|'') s)))"

definition nth_part :: "string list \<Rightarrow> nat \<Rightarrow> string option" where
  "nth_part parts n = (if n < length parts then Some (parts ! n) else None)"

definition parse_service_client :: "string \<Rightarrow> service_client option" where
  "parse_service_client entry =
     (let parts = split_on (CHR '':'') (strip entry); i = strip (hd parts);
          s = (case nth_part parts 1 of None \<Rightarrow> [] | Some x \<Rightarrow> strip x)
      in if strip entry = [] \<or> i = [] \<or> s = [] then None
         else Some \<lparr>sc_id = i, sc_secret = s, sc_audiences = parse_audiences (nth_part parts 2)\<rparr>)"

definition parse_service_clients :: "string \<Rightarrow> service_client list" where
  "parse_service_clients raw = List.map_filter parse_service_client (split_on (CHR '','') raw)"

text \<open>\<open>s.partition(sep)\<close>: the parts before and after the first separator.\<close>

definition before :: "char \<Rightarrow> string \<Rightarrow> string" where
  "before sep s = takeWhile (\<lambda>c. c \<noteq> sep) s"

definition after :: "char \<Rightarrow> string \<Rightarrow> string" where
  "after sep s = drop 1 (dropWhile (\<lambda>c. c \<noteq> sep) s)"

definition parse_workload_client :: "string \<Rightarrow> workload_client option" where
  "parse_workload_client entry =
     (let e = strip entry; subject = strip (before (CHR ''='') e); parts = split_on (CHR '':'') (after (CHR ''='') e);
          i = strip (hd parts)
      in if CHR ''='' \<notin> set e \<or> subject = [] \<or> i = [] then None
         else Some \<lparr>wc_subject = subject, wc_id = i, wc_audiences = parse_audiences (nth_part parts 1)\<rparr>)"

definition parse_workload_clients :: "string \<Rightarrow> workload_client list" where
  "parse_workload_clients raw = List.map_filter parse_workload_client (split_on (CHR '','') raw)"

record broker_settings =
  bs_base_url :: string
  bs_realm :: string
  bs_client_id :: string
  bs_client_secret :: "string option"
  bs_scopes :: string
  bs_redirect :: string
  bs_post_logout :: string
  bs_key_path :: "string option"
  bs_ttl :: int
  bs_issuer :: string
  bs_audience :: string
  bs_delegated_ttl :: int
  bs_clients :: "service_client list"
  bs_workload_issuer :: string
  bs_workload_audience :: string
  bs_workload_clients :: "workload_client list"

section \<open>What a call meets\<close>

text \<open>An answer of the identity provider: its JSON, an error status, a body that is no JSON, or a transport failure.\<close>

datatype idp_reply = IdpJson val | IdpStatus int | IdpNotJson | IdpFailed

datatype jwt_outcome = JwtOk json_obj | JwtExpired | JwtInvalid | JwtRaised

record broker_env =
  be_now :: int
  be_fresh_key :: string
  be_pem :: "string \<Rightarrow> string"
  be_load_key :: "string \<Rightarrow> string option"
  be_kid :: "string \<Rightarrow> string"
  be_encode :: "string \<Rightarrow> string \<Rightarrow> json_obj \<Rightarrow> string"
  be_decode :: "string \<Rightarrow> string \<Rightarrow> string \<Rightarrow> string \<Rightarrow> jwt_outcome"
  be_workload_decode :: "string \<Rightarrow> string \<Rightarrow> string \<Rightarrow> jwt_outcome"
  be_token_endpoint :: "string \<Rightarrow> (string \<times> string) list \<Rightarrow> idp_reply"
  be_userinfo :: "string \<Rightarrow> string \<Rightarrow> idp_reply"
  be_b64decode :: "string \<Rightarrow> string option"
  be_urlencode :: "(string \<times> string) list \<Rightarrow> string"
  be_challenge :: "string \<Rightarrow> string"
  be_verifier :: string
  be_state :: string
  be_value_error :: string

text \<open>
  Errors: an \<open>ExchangeError\<close>, an error status of the provider, a \<open>ValueError\<close> (also of a model's
  validation) with the text when the source writes it, anything else.
\<close>

datatype broker_error = ExchangeRefused string int | HttpStatusError int | ValueError "string option" | Crashed

record broker_identity =
  bi_subject :: string
  bi_username :: string
  bi_email :: "string option"
  bi_groups :: "string list"
  bi_roles :: "string list"

datatype broker_effect =
    LoginVerified broker_identity
  | Signed string string json_obj
  | ExchangeAudited string "string option" string "string option"

text \<open>The signing key of the process and the contents of the key file.\<close>

record broker_state =
  br_key :: "string option"
  br_file :: "string option"

section \<open>Tokens\<close>

definition load_or_create_key :: "broker_env \<Rightarrow> broker_settings \<Rightarrow> broker_state \<Rightarrow> (broker_error + string) \<times> broker_state" where
  "load_or_create_key env st s =
     (if bs_key_path st = None \<or> bs_key_path st = Some [] then (Inr (be_fresh_key env), s)
      else case br_file s of
             Some pem \<Rightarrow> (case be_load_key env pem of None \<Rightarrow> (Inl (ValueError None), s) | Some k \<Rightarrow> (Inr k, s))
           | None \<Rightarrow> (Inr (be_fresh_key env), s\<lparr>br_file := Some (be_pem env (be_fresh_key env))\<rparr>))"

definition ensure_key :: "broker_env \<Rightarrow> broker_settings \<Rightarrow> broker_state \<Rightarrow> (broker_error + string) \<times> broker_state" where
  "ensure_key env st s =
     (case br_key s of
        Some k \<Rightarrow> (Inr k, s)
      | None \<Rightarrow>
          (case load_or_create_key env st s of
             (Inl e, s') \<Rightarrow> (Inl e, s')
           | (Inr k, s') \<Rightarrow> (Inr k, s'\<lparr>br_key := Some k\<rparr>)))"

definition reset_key_state :: "broker_state \<Rightarrow> broker_state" where
  "reset_key_state s = s\<lparr>br_key := None\<rparr>"

definition token_claims ::
  "broker_settings \<Rightarrow> int \<Rightarrow> json_obj \<Rightarrow> string option \<Rightarrow> json_obj option \<Rightarrow> int \<Rightarrow> string \<Rightarrow> json_obj" where
  "token_claims st now identity audience actor ttl source =
     [(''iss'', VStr (bs_issuer st)), (''authentication_source'', VStr source),
      (''sub'', get_default identity ''sub'' (get_default identity ''subject'' (VStr []))),
      (''username'', get_default identity ''username'' (VStr [])), (''email'', get_none identity ''email''),
      (''roles'', get_default identity ''roles'' (VList [])), (''groups'', get_default identity ''groups'' (VList [])),
      (''aud'', VList [VStr (case audience of None \<Rightarrow> bs_audience st | Some a \<Rightarrow> a)]), (''iat'', VInt now), (''exp'', VInt (now + ttl))]
     @ (case actor of None \<Rightarrow> [] | Some a \<Rightarrow> [(''act'', VDict a)])"

definition issue_token ::
  "broker_env \<Rightarrow> broker_settings \<Rightarrow> json_obj \<Rightarrow> string option \<Rightarrow> json_obj option \<Rightarrow> int option \<Rightarrow> string \<Rightarrow> broker_state \<Rightarrow>
   (broker_error + string \<times> int) \<times> broker_state \<times> broker_effect list" where
  "issue_token env st identity audience actor ttl_seconds source s =
     (if source \<notin> {''oidc'', ''development''} then (Inl (ValueError (Some ''invalid authentication source'')), s, [])
      else case ensure_key env st s of
             (Inl e, s') \<Rightarrow> (Inl e, s', [])
           | (Inr key, s') \<Rightarrow>
               (let ttl = (case ttl_seconds of None \<Rightarrow> bs_ttl st | Some t \<Rightarrow> t);
                    jc = token_claims st (be_now env) identity audience actor ttl source;
                    token = be_encode env key (be_kid env key) jc
                in (Inr (token, ttl), s', [Signed key token jc])))"

section \<open>Logins\<close>

definition ROLE_MAPPINGS :: "(string, string) dict" where
  "ROLE_MAPPINGS =
     [(''ops-admins'', ''platform-admin''), (''ops-approvers'', ''approver''), (''ops-operators'', ''operator''),
      (''ops-observers'', ''read-only-observer''), (''ops-auditors'', ''auditor''), (''ops-developers'', ''developer'')]"

definition resolve_roles :: "string list \<Rightarrow> string list" where
  "resolve_roles groups =
     (let roles = List.map_filter (dget ROLE_MAPPINGS) groups
      in sort (remdups (if roles = [] then [''read-only-observer''] else roles)))"

definition realm_endpoint :: "broker_settings \<Rightarrow> string \<Rightarrow> string" where
  "realm_endpoint st name = bs_base_url st @ ''/realms/'' @ bs_realm st @ ''/protocol/openid-connect/'' @ name"

definition resolved_redirect_uri :: "broker_settings \<Rightarrow> string option \<Rightarrow> string" where
  "resolved_redirect_uri st uri = (case uri of Some (c # cs) \<Rightarrow> c # cs | _ \<Rightarrow> bs_redirect st)"

record login_start =
  ls_url :: string
  ls_state :: string
  ls_verifier :: string
  ls_redirect :: string

definition build_login_start :: "broker_env \<Rightarrow> broker_settings \<Rightarrow> string option \<Rightarrow> login_start" where
  "build_login_start env st redirect_uri =
     \<lparr>ls_url = realm_endpoint st ''auth'' @ ''?'' @ be_urlencode env
        [(''client_id'', bs_client_id st), (''response_type'', ''code''), (''scope'', bs_scopes st),
         (''redirect_uri'', resolved_redirect_uri st redirect_uri), (''state'', be_state env),
         (''code_challenge'', be_challenge env (be_verifier env)), (''code_challenge_method'', ''S256'')],
      ls_state = be_state env, ls_verifier = be_verifier env, ls_redirect = resolved_redirect_uri st redirect_uri\<rparr>"

definition build_logout_url :: "broker_env \<Rightarrow> broker_settings \<Rightarrow> string option \<Rightarrow> string option \<Rightarrow> string" where
  "build_logout_url env st id_token_hint post_logout =
     realm_endpoint st ''logout'' @ ''?'' @ be_urlencode env
       ([(''client_id'', bs_client_id st),
         (''post_logout_redirect_uri'', case post_logout of Some (c # cs) \<Rightarrow> c # cs | _ \<Rightarrow> bs_post_logout st)]
        @ (case id_token_hint of Some (c # cs) \<Rightarrow> [(''id_token_hint'', c # cs)] | _ \<Rightarrow> []))"

definition normalize_identity :: "string \<Rightarrow> string \<Rightarrow> string option \<Rightarrow> string list \<Rightarrow> broker_identity" where
  "normalize_identity sub username email groups =
     \<lparr>bi_subject = sub, bi_username = username, bi_email = email, bi_groups = groups, bi_roles = resolve_roles groups\<rparr>"

text \<open>A field the model types as a string or null.\<close>

definition optional_str :: "val \<Rightarrow> broker_error + string option" where
  "optional_str v = (case v of VNone \<Rightarrow> Inr None | VStr s \<Rightarrow> Inr (Some s) | _ \<Rightarrow> Inl (ValueError None))"

definition normalize_userinfo :: "val \<Rightarrow> broker_error + broker_identity" where
  "normalize_userinfo payload =
     (case payload of
        VDict d \<Rightarrow>
          (case dget d ''sub'' of
             None \<Rightarrow> Inl Crashed
           | Some sub \<Rightarrow>
               (let chosen = (if truthy (get_none d ''preferred_username'') then get_none d ''preferred_username''
                              else if truthy (get_none d ''email'') then get_none d ''email'' else sub)
                in case iter_val (get_default d ''groups'' (VList [])) of
                     None \<Rightarrow> Inl Crashed
                   | Some gs \<Rightarrow>
                       (case optional_str (get_none d ''email'') of
                          Inl e \<Rightarrow> Inl e
                        | Inr email \<Rightarrow>
                            Inr (normalize_identity (str_of_val sub) (str_of_val chosen) email (map str_of_val (filter is_str gs))))))
      | _ \<Rightarrow> Inl Crashed)"

definition idp_value :: "idp_reply \<Rightarrow> broker_error + val" where
  "idp_value r = (case r of IdpJson v \<Rightarrow> Inr v | IdpStatus n \<Rightarrow> Inl (HttpStatusError n) | IdpNotJson \<Rightarrow> Inl (ValueError None) | IdpFailed \<Rightarrow> Inl Crashed)"

record broker_session =
  as_token :: string
  as_expires :: int
  as_refresh :: "string option"
  as_id_token :: "string option"
  as_identity :: broker_identity

definition identity_claims :: "broker_identity \<Rightarrow> json_obj" where
  "identity_claims i =
     [(''sub'', VStr (bi_subject i)), (''username'', VStr (bi_username i)), (''email'', case bi_email i of None \<Rightarrow> VNone | Some e \<Rightarrow> VStr e),
      (''roles'', VList (map VStr (bi_roles i))), (''groups'', VList (map VStr (bi_groups i)))]"

text \<open>The steps shared by the callback and the refresh: the provider's tokens, the user's claims, the platform token.\<close>

definition fetch_login :: "broker_env \<Rightarrow> broker_settings \<Rightarrow> (string \<times> string) list \<Rightarrow> broker_error + json_obj \<times> broker_identity" where
  "fetch_login env st form =
     rbind (idp_value (be_token_endpoint env (realm_endpoint st ''token'') form)) (\<lambda>payload.
       case payload of
         VDict tp \<Rightarrow>
           (case dget tp ''access_token'' of
              None \<Rightarrow> Inl Crashed
            | Some tok \<Rightarrow>
                rbind (idp_value (be_userinfo env (realm_endpoint st ''userinfo'') (str_of_val tok))) (\<lambda>ui.
                  rbind (normalize_userinfo ui) (\<lambda>i. Inr (tp, i))))
       | _ \<Rightarrow> Inl Crashed)"

definition open_session ::
  "broker_env \<Rightarrow> broker_settings \<Rightarrow> json_obj \<Rightarrow> broker_identity \<Rightarrow> broker_state \<Rightarrow>
   (broker_error + broker_session) \<times> broker_state \<times> broker_effect list" where
  "open_session env st tp i s =
     (case issue_token env st (identity_claims i) None None None ''oidc'' s of
        (Inl e, s', fx) \<Rightarrow> (Inl e, s', LoginVerified i # fx)
      | (Inr (token, ttl), s', fx) \<Rightarrow>
          (rbind (optional_str (get_none tp ''refresh_token'')) (\<lambda>rt.
             rbind (optional_str (get_none tp ''id_token'')) (\<lambda>idt.
               Inr \<lparr>as_token = token, as_expires = ttl, as_refresh = rt, as_id_token = idt, as_identity = i\<rparr>)), s', LoginVerified i # fx))"

definition login_session ::
  "broker_env \<Rightarrow> broker_settings \<Rightarrow> (string \<times> string) list \<Rightarrow> broker_state \<Rightarrow> (broker_error + broker_session) \<times> broker_state \<times> broker_effect list" where
  "login_session env st form s =
     (case fetch_login env st (form @ (case bs_client_secret st of Some (c # cs) \<Rightarrow> [(''client_secret'', c # cs)] | _ \<Rightarrow> [])) of
        Inl e \<Rightarrow> (Inl e, s, [])
      | Inr (tp, i) \<Rightarrow> open_session env st tp i s)"

definition exchange_authorization_code ::
  "broker_env \<Rightarrow> broker_settings \<Rightarrow> string \<Rightarrow> string \<Rightarrow> string option \<Rightarrow> broker_state \<Rightarrow>
   (broker_error + broker_session) \<times> broker_state \<times> broker_effect list" where
  "exchange_authorization_code env st code verifier redirect_uri =
     login_session env st
       [(''grant_type'', ''authorization_code''), (''client_id'', bs_client_id st), (''code'', code), (''code_verifier'', verifier),
        (''redirect_uri'', resolved_redirect_uri st redirect_uri)]"

definition refresh_session ::
  "broker_env \<Rightarrow> broker_settings \<Rightarrow> string \<Rightarrow> broker_state \<Rightarrow> (broker_error + broker_session) \<times> broker_state \<times> broker_effect list" where
  "refresh_session env st refresh_token =
     login_session env st
       [(''grant_type'', ''refresh_token''), (''client_id'', bs_client_id st), (''refresh_token'', refresh_token)]"

definition bearer_value :: "string \<Rightarrow> string option" where
  "bearer_value authorization =
     (if lower (before (CHR '' '') authorization) \<noteq> ''bearer'' \<or> after (CHR '' '') authorization = [] then None
      else Some (after (CHR '' '') authorization))"

definition fetch_identity_from_authorization :: "broker_env \<Rightarrow> broker_settings \<Rightarrow> string \<Rightarrow> broker_error + broker_identity" where
  "fetch_identity_from_authorization env st authorization =
     (case bearer_value authorization of
        None \<Rightarrow> Inl (ValueError (Some ''Expected an Authorization header with a Bearer token.''))
      | Some token \<Rightarrow> rbind (idp_value (be_userinfo env (realm_endpoint st ''userinfo'') token)) normalize_userinfo)"

section \<open>The exchange\<close>

definition authenticate_client :: "broker_settings \<Rightarrow> string option \<Rightarrow> string option \<Rightarrow> broker_error + service_client" where
  "authenticate_client st client_id client_secret =
     (case (client_id, client_secret) of
        (Some (a # i), Some (b # s)) \<Rightarrow>
          (case filter (\<lambda>c. sc_id c = a # i \<and> sc_secret c = b # s) (bs_clients st) of
             [] \<Rightarrow> Inl (ExchangeRefused ''invalid service credential'' 401)
           | c # _ \<Rightarrow> Inr c)
      | _ \<Rightarrow> Inl (ExchangeRefused ''service credential required'' 401))"

definition authenticate_workload_client :: "broker_env \<Rightarrow> broker_settings \<Rightarrow> string \<Rightarrow> broker_error + service_client" where
  "authenticate_workload_client env st token =
     (if bs_workload_issuer st = [] then Inl (ExchangeRefused ''workload identity not enabled'' 401)
      else case be_workload_decode env (bs_workload_issuer st) (bs_workload_audience st) token of
             JwtExpired \<Rightarrow> Inl (ExchangeRefused ''workload token expired'' 401)
           | JwtInvalid \<Rightarrow> Inl (ExchangeRefused ''workload token invalid'' 401)
           | JwtRaised \<Rightarrow> Inl Crashed
           | JwtOk jc \<Rightarrow>
               (case filter (\<lambda>m. wc_subject m = str_of_val (get_default jc ''sub'' (VStr []))) (bs_workload_clients st) of
                  [] \<Rightarrow> Inl (ExchangeRefused ''workload subject not registered'' 401)
                | m # _ \<Rightarrow> Inr \<lparr>sc_id = wc_id m, sc_secret = [], sc_audiences = wc_audiences m\<rparr>))"

definition verify_subject_token ::
  "broker_env \<Rightarrow> broker_settings \<Rightarrow> string \<Rightarrow> broker_state \<Rightarrow> (broker_error + json_obj) \<times> broker_state" where
  "verify_subject_token env st token s =
     (case ensure_key env st s of
        (Inl e, s') \<Rightarrow> (Inl e, s')
      | (Inr key, s') \<Rightarrow>
          (case be_decode env key (bs_issuer st) (bs_audience st) token of
             JwtExpired \<Rightarrow> Inl (ExchangeRefused ''subject token expired'' 401)
           | JwtInvalid \<Rightarrow> Inl (ExchangeRefused ''subject token invalid'' 401)
           | JwtRaised \<Rightarrow> Inl Crashed
           | JwtOk jc \<Rightarrow> Inr jc, s'))"

definition delegated_claims :: "json_obj \<Rightarrow> json_obj" where
  "delegated_claims jc =
     [(''sub'', get_default jc ''sub'' (VStr [])), (''username'', get_default jc ''username'' (get_default jc ''sub'' (VStr []))),
      (''email'', get_none jc ''email''), (''roles'', get_default jc ''roles'' (VList [])), (''groups'', get_default jc ''groups'' (VList []))]"

definition exchange_token ::
  "broker_env \<Rightarrow> broker_settings \<Rightarrow> string option \<Rightarrow> string option \<Rightarrow> string \<Rightarrow> string \<Rightarrow> string option \<Rightarrow> broker_state \<Rightarrow>
   (broker_error + string \<times> int) \<times> broker_state \<times> broker_effect list" where
  "exchange_token env st client_id client_secret subject_token audience workload_token s =
     (case (case workload_token of Some (c # cs) \<Rightarrow> authenticate_workload_client env st (c # cs) | _ \<Rightarrow> authenticate_client st client_id client_secret) of
        Inl e \<Rightarrow> (Inl e, s, [])
      | Inr client \<Rightarrow>
          (case verify_subject_token env st subject_token s of
             (Inl e, s') \<Rightarrow> (Inl e, s', [])
           | (Inr jc, s') \<Rightarrow>
               if audience \<notin> set (sc_audiences client) then (Inl (ExchangeRefused ''audience not permitted for this client'' 400), s', [])
               else issue_token env st (delegated_claims jc) (Some audience) (Some [(''sub'', VStr (sc_id client))]) (Some (bs_delegated_ttl st))
                      (if get_none jc ''authentication_source'' = VStr ''oidc'' then ''oidc'' else ''development'') s'))"

section \<open>Routes\<close>

datatype 'a broker_response = Answer 'a | HttpError int string | ServerError

definition auth_callback ::
  "broker_env \<Rightarrow> broker_settings \<Rightarrow> string \<Rightarrow> string \<Rightarrow> string option \<Rightarrow> broker_state \<Rightarrow>
   broker_session broker_response \<times> broker_state \<times> broker_effect list" where
  "auth_callback env st code verifier redirect_uri s =
     (case exchange_authorization_code env st code verifier redirect_uri s of
        (r, s', fx) \<Rightarrow>
          (case r of Inr session \<Rightarrow> Answer session | Inl (HttpStatusError _) \<Rightarrow> HttpError 502 ''oidc token exchange failed'' | Inl _ \<Rightarrow> ServerError, s', fx))"

definition auth_refresh ::
  "broker_env \<Rightarrow> broker_settings \<Rightarrow> string \<Rightarrow> broker_state \<Rightarrow> broker_session broker_response \<times> broker_state \<times> broker_effect list" where
  "auth_refresh env st refresh_token s =
     (case refresh_session env st refresh_token s of
        (r, s', fx) \<Rightarrow>
          (case r of Inr session \<Rightarrow> Answer session | Inl (HttpStatusError _) \<Rightarrow> HttpError 401 ''token refresh failed'' | Inl _ \<Rightarrow> ServerError, s', fx))"

definition issue_platform_token ::
  "broker_env \<Rightarrow> broker_settings \<Rightarrow> string \<Rightarrow> string option \<Rightarrow> string list option \<Rightarrow> string list option \<Rightarrow> broker_state \<Rightarrow>
   (string \<times> int) broker_response \<times> broker_state \<times> broker_effect list" where
  "issue_platform_token env st username email roles groups s =
     (case issue_token env st
             [(''sub'', VStr username), (''username'', VStr username), (''email'', case email of None \<Rightarrow> VNone | Some e \<Rightarrow> VStr e),
              (''roles'', VList (map VStr (case roles of Some (r # rs) \<Rightarrow> r # rs | _ \<Rightarrow> [''developer'']))),
              (''groups'', VList (map VStr (case groups of None \<Rightarrow> [] | Some gs \<Rightarrow> gs)))] None None None ''development'' s of
        (r, s', fx) \<Rightarrow> (case r of Inr x \<Rightarrow> Answer x | Inl _ \<Rightarrow> ServerError, s', fx))"

definition parse_bearer_credential :: "string option \<Rightarrow> string option" where
  "parse_bearer_credential authorization = (case authorization of None \<Rightarrow> None | Some a \<Rightarrow> if a = [] then None else bearer_value a)"

definition parse_basic_credential :: "broker_env \<Rightarrow> string option \<Rightarrow> (string \<times> string) option" where
  "parse_basic_credential env authorization =
     (case authorization of
        None \<Rightarrow> None
      | Some a \<Rightarrow>
          if lower (before (CHR '' '') a) \<noteq> ''basic'' \<or> after (CHR '' '') a = [] then None
          else (case be_b64decode env (after (CHR '' '') a) of
                  None \<Rightarrow> None
                | Some d \<Rightarrow> Some (before (CHR '':'') d, after (CHR '':'') d)))"

definition exchange_delegated_token ::
  "broker_env \<Rightarrow> broker_settings \<Rightarrow> string \<Rightarrow> string \<Rightarrow> string option \<Rightarrow> broker_state \<Rightarrow>
   (string \<times> int) broker_response \<times> broker_state \<times> broker_effect list" where
  "exchange_delegated_token env st subject_token audience authorization s =
     (let workload = parse_bearer_credential authorization; basic = parse_basic_credential env authorization;
          caller = (if workload = None then map_option fst basic else Some ''workload'')
      in case exchange_token env st (map_option fst basic) (map_option snd basic) subject_token audience workload s of
           (Inl (ExchangeRefused detail status), s', fx) \<Rightarrow>
             (HttpError status detail, s', fx @ [ExchangeAudited ''deny'' caller audience (Some detail)])
         | (Inl _, s', fx) \<Rightarrow> (ServerError, s', fx)
         | (Inr x, s', fx) \<Rightarrow> (Answer x, s', fx @ [ExchangeAudited ''success'' caller audience None]))"

definition current_identity_route :: "broker_env \<Rightarrow> broker_settings \<Rightarrow> string option \<Rightarrow> broker_identity broker_response" where
  "current_identity_route env st authorization =
     (case authorization of
        None \<Rightarrow> HttpError 401 ''missing Authorization header''
      | Some a \<Rightarrow>
          (case fetch_identity_from_authorization env st a of
             Inr i \<Rightarrow> Answer i
           | Inl (ValueError detail) \<Rightarrow> HttpError 401 (case detail of None \<Rightarrow> be_value_error env | Some d \<Rightarrow> d)
           | Inl (HttpStatusError _) \<Rightarrow> HttpError 401 ''invalid bearer token''
           | Inl _ \<Rightarrow> ServerError))"

section \<open>Roles\<close>

text \<open>The roles of a user: sorted, without repetition, never empty, and a role only through one of its groups.\<close>

lemma resolve_roles_mapped:
  "r \<in> set (resolve_roles groups) \<longleftrightarrow>
     (\<exists>g \<in> set groups. dget ROLE_MAPPINGS g = Some r)
     \<or> r = ''read-only-observer'' \<and> (\<forall>g \<in> set groups. dget ROLE_MAPPINGS g = None)"
proof -
  let ?rs = "List.map_filter (dget ROLE_MAPPINGS) groups"
  have m: "set ?rs = {r. \<exists>g \<in> set groups. dget ROLE_MAPPINGS g = Some r}"
    by (induction groups) (auto split: option.splits)
  have "?rs = [] \<longleftrightarrow> (\<forall>g \<in> set groups. dget ROLE_MAPPINGS g = None)"
    by (induction groups) (auto split: option.splits)
  then show ?thesis using m by (auto simp: resolve_roles_def Let_def)
qed

lemma resolve_roles_sorted: "sorted (resolve_roles groups)" "distinct (resolve_roles groups)" "resolve_roles groups \<noteq> []"
proof -
  have "sort (remdups xs) \<noteq> []" if "xs \<noteq> []" for xs :: "string list"
    using that by (metis set_empty set_remdups set_sort)
  then show "resolve_roles groups \<noteq> []" by (simp add: resolve_roles_def Let_def)
qed (simp_all add: resolve_roles_def Let_def)

section \<open>Provenance\<close>

text \<open>
  Verification with the broker's key accepts what that key signed, with its claims, when the issuer, the
  audience and the expiry hold.
\<close>

definition jwt_sound :: "broker_env \<Rightarrow> broker_effect list \<Rightarrow> bool" where
  "jwt_sound env trail \<longleftrightarrow>
     (\<forall>key iss aud token jc. be_decode env key iss aud token = JwtOk jc \<longrightarrow>
        Signed key token jc \<in> set trail \<and> get_none jc ''iss'' = VStr iss
        \<and> (\<exists>auds. get_none jc ''aud'' = VList auds \<and> VStr aud \<in> set auds)
        \<and> (\<exists>e. get_none jc ''exp'' = VInt e \<and> be_now env < e))"

text \<open>One call of the broker, in any environment; \<open>restart\<close> loses the key held in memory.\<close>

inductive broker_step :: "broker_settings \<Rightarrow> broker_state \<times> broker_effect list \<Rightarrow> broker_state \<times> broker_effect list \<Rightarrow> bool" for st where
  callback: "jwt_sound env trail \<Longrightarrow> auth_callback env st code verifier uri s = (r, s', fx) \<Longrightarrow> broker_step st (s, trail) (s', trail @ fx)"
| refresh: "jwt_sound env trail \<Longrightarrow> auth_refresh env st rt s = (r, s', fx) \<Longrightarrow> broker_step st (s, trail) (s', trail @ fx)"
| mint: "jwt_sound env trail \<Longrightarrow> issue_platform_token env st username email roles groups s = (r, s', fx) \<Longrightarrow>
    broker_step st (s, trail) (s', trail @ fx)"
| exchange: "jwt_sound env trail \<Longrightarrow> exchange_delegated_token env st subject_token audience authorization s = (r, s', fx) \<Longrightarrow>
    broker_step st (s, trail) (s', trail @ fx)"
| restart: "broker_step st (s, trail) (reset_key_state s, trail)"

definition broker_reachable :: "broker_settings \<Rightarrow> broker_state \<Rightarrow> broker_effect list \<Rightarrow> bool" where
  "broker_reachable st s trail \<longleftrightarrow> (\<exists>file. (broker_step st)\<^sup>*\<^sup>* (\<lparr>br_key = None, br_file = file\<rparr>, []) (s, trail))"

definition registered_clients :: "broker_settings \<Rightarrow> service_client list" where
  "registered_clients st = bs_clients st @ map (\<lambda>m. \<lparr>sc_id = wc_id m, sc_secret = [], sc_audiences = wc_audiences m\<rparr>) (bs_workload_clients st)"

text \<open>The claims name a user who logged in, with the roles of the groups the provider reported.\<close>

definition claims_of_login :: "json_obj \<Rightarrow> broker_identity \<Rightarrow> bool" where
  "claims_of_login jc i \<longleftrightarrow>
     get_none jc ''sub'' = VStr (bi_subject i) \<and> get_none jc ''groups'' = VList (map VStr (bi_groups i))
     \<and> get_none jc ''roles'' = VList (map VStr (resolve_roles (bi_groups i)))"

text \<open>The claims are those of an earlier token for the gateway, handed on to a registered client for an audience it may use.\<close>

definition delegated_from :: "broker_settings \<Rightarrow> json_obj \<Rightarrow> json_obj \<Rightarrow> bool" where
  "delegated_from st jc j0 \<longleftrightarrow>
     (\<exists>c a. c \<in> set (registered_clients st) \<and> a \<in> set (sc_audiences c) \<and> get_none jc ''act'' = VDict [(''sub'', VStr (sc_id c))]
        \<and> get_none jc ''aud'' = VList [VStr a])
     \<and> (\<exists>auds. get_none j0 ''aud'' = VList auds \<and> VStr (bs_audience st) \<in> set auds)
     \<and> (\<forall>k \<in> {''sub'', ''roles'', ''groups'', ''email'', ''authentication_source''}. get_none jc k = get_none j0 k)
     \<and> (\<exists>iat e0. get_none jc ''iat'' = VInt iat \<and> get_none j0 ''exp'' = VInt e0 \<and> iat < e0 \<and> get_none jc ''exp'' = VInt (iat + bs_delegated_ttl st))"

definition direct_token :: "broker_settings \<Rightarrow> broker_effect list \<Rightarrow> json_obj \<Rightarrow> bool" where
  "direct_token st earlier jc \<longleftrightarrow>
     get_none jc ''act'' = VNone \<and> get_none jc ''aud'' = VList [VStr (bs_audience st)]
     \<and> (\<exists>iat. get_none jc ''iat'' = VInt iat \<and> get_none jc ''exp'' = VInt (iat + bs_ttl st))
     \<and> (get_none jc ''authentication_source'' = VStr ''development''
        \<or> get_none jc ''authentication_source'' = VStr ''oidc'' \<and> (\<exists>i. LoginVerified i \<in> set earlier \<and> claims_of_login jc i))"

definition effect_ok :: "broker_settings \<Rightarrow> broker_effect list \<Rightarrow> broker_effect \<Rightarrow> bool" where
  "effect_ok st earlier e =
     (case e of
        Signed key token jc \<Rightarrow>
          get_none jc ''iss'' = VStr (bs_issuer st)
          \<and> list_all (\<lambda>k. dget jc k \<noteq> None) [''sub'', ''roles'', ''groups'', ''authentication_source'']
          \<and> get_none jc ''authentication_source'' \<in> {VStr ''oidc'', VStr ''development''}
          \<and> (direct_token st earlier jc \<or> (\<exists>k t j0. Signed k t j0 \<in> set earlier \<and> delegated_from st jc j0))
      | LoginVerified i \<Rightarrow> bi_roles i = resolve_roles (bi_groups i)
      | _ \<Rightarrow> True)"

fun trail_ok :: "broker_settings \<Rightarrow> broker_effect list \<Rightarrow> broker_effect list \<Rightarrow> bool" where
  "trail_ok st earlier [] = True"
| "trail_ok st earlier (e # es) = (effect_ok st earlier e \<and> trail_ok st (earlier @ [e]) es)"

lemma trail_ok_append [simp]: "trail_ok st earlier (xs @ ys) \<longleftrightarrow> trail_ok st earlier xs \<and> trail_ok st (earlier @ xs) ys"
  by (induction xs arbitrary: earlier) auto

lemma trail_ok_signed:
  assumes "trail_ok st [] trail" and "Signed k t jc \<in> set trail"
  shows "\<exists>earlier later. trail = earlier @ Signed k t jc # later \<and> effect_ok st earlier (Signed k t jc)"
  using assms by (metis append_Nil split_list trail_ok.simps(2) trail_ok_append)

lemma issue_token_cases:
  assumes "issue_token env st identity audience actor ttl source s = (r, s', fx)"
  obtains (none) "fx = []" | (signed) key token where "source \<in> {''oidc'', ''development''}"
    and "fx = [Signed key token (token_claims st (be_now env) identity audience actor (case ttl of None \<Rightarrow> bs_ttl st | Some t \<Rightarrow> t) source)]"
  using assms by (auto simp: issue_token_def Let_def split: if_splits prod.splits sum.splits)

lemmas claim_simps = token_claims_def get_none_def get_default_def

lemma login_session_ok:
  assumes "login_session env st form s = (r, s', fx)"
  shows "trail_ok st earlier fx"
proof (cases "fetch_login env st (form @ (case bs_client_secret st of Some (c # cs) \<Rightarrow> [(''client_secret'', c # cs)] | _ \<Rightarrow> []))")
  case (Inl e)
  with assms show ?thesis by (simp add: login_session_def)
next
  case (Inr x)
  then obtain tp i where x: "x = (tp, i)" and roles: "bi_roles i = resolve_roles (bi_groups i)"
    by (cases x) (auto simp: fetch_login_def normalize_userinfo_def normalize_identity_def simp del: rbind_Inr_iff elim!: rbindE
        split: val.splits option.splits sum.splits)
  obtain r1 s1 gx where run: "issue_token env st (identity_claims i) None None None ''oidc'' s = (r1, s1, gx)" by (metis prod_cases3)
  have fx: "fx = LoginVerified i # gx" using assms Inr x run by (auto simp: login_session_def open_session_def split: sum.splits)
  from run show ?thesis
  proof (cases rule: issue_token_cases)
    case none
    with fx roles show ?thesis by (simp add: effect_ok_def)
  next
    case (signed key token)
    with fx roles show ?thesis
      by (auto simp: effect_ok_def direct_token_def claims_of_login_def claim_simps identity_claims_def)
  qed
qed

lemma mint_ok:
  assumes "issue_platform_token env st username email roles groups s = (r, s', fx)"
  shows "trail_ok st earlier fx"
proof -
  let ?id = "[(''sub'', VStr username), (''username'', VStr username), (''email'', case email of None \<Rightarrow> VNone | Some e \<Rightarrow> VStr e),
      (''roles'', VList (map VStr (case roles of Some (r # rs) \<Rightarrow> r # rs | _ \<Rightarrow> [''developer'']))),
      (''groups'', VList (map VStr (case groups of None \<Rightarrow> [] | Some gs \<Rightarrow> gs)))]"
  obtain r1 where run: "issue_token env st ?id None None None ''development'' s = (r1, s', fx)"
    using assms by (auto simp: issue_platform_token_def split: prod.splits)
  then show ?thesis by (cases rule: issue_token_cases) (auto simp: effect_ok_def direct_token_def claim_simps)
qed

lemma filter_head_in: "filter P xs = y # ys \<Longrightarrow> y \<in> set xs"
  by (metis filter_is_subset list.set_intros(1) subsetD)

lemma authenticated_registered:
  "authenticate_client st client_id client_secret = Inr c \<Longrightarrow> c \<in> set (registered_clients st)"
  "authenticate_workload_client env st token = Inr c \<Longrightarrow> c \<in> set (registered_clients st)"
  by (auto simp: authenticate_client_def authenticate_workload_client_def registered_clients_def
      split: option.splits if_splits jwt_outcome.splits list.splits dest!: filter_head_in)

lemma exchange_token_cases:
  assumes "exchange_token env st client_id client_secret subject_token audience workload s = (r, s', fx)" and "fx \<noteq> []"
  obtains c key jc k t where "c \<in> set (registered_clients st)" and "audience \<in> set (sc_audiences c)"
    and "be_decode env key (bs_issuer st) (bs_audience st) subject_token = JwtOk jc"
    and "fx = [Signed k t (token_claims st (be_now env) (delegated_claims jc) (Some audience) (Some [(''sub'', VStr (sc_id c))])
                 (bs_delegated_ttl st) (if get_none jc ''authentication_source'' = VStr ''oidc'' then ''oidc'' else ''development''))]"
proof -
  let ?auth = "case workload of Some (c # cs) \<Rightarrow> authenticate_workload_client env st (c # cs) | _ \<Rightarrow> authenticate_client st client_id client_secret"
  obtain c where c: "?auth = Inr c" using assms by (cases ?auth) (auto simp: exchange_token_def)
  have reg: "c \<in> set (registered_clients st)" using c authenticated_registered by (auto split: option.splits list.splits)
  obtain jc s1 where v: "verify_subject_token env st subject_token s = (Inr jc, s1)"
    using assms c by (auto simp: exchange_token_def split: prod.splits sum.splits)
  then obtain key where key: "be_decode env key (bs_issuer st) (bs_audience st) subject_token = JwtOk jc"
    by (auto simp: verify_subject_token_def split: prod.splits sum.splits jwt_outcome.splits)
  have aud: "audience \<in> set (sc_audiences c)" using assms c v by (auto simp: exchange_token_def split: if_splits)
  let ?src = "if get_none jc ''authentication_source'' = VStr ''oidc'' then ''oidc'' else ''development''"
  have "issue_token env st (delegated_claims jc) (Some audience) (Some [(''sub'', VStr (sc_id c))]) (Some (bs_delegated_ttl st)) ?src s1 = (r, s', fx)"
    using assms(1) c v aud by (simp add: exchange_token_def)
  then show thesis
  proof (cases rule: issue_token_cases)
    case (signed k t)
    then show thesis using that [OF reg aud key] by simp
  qed (use assms(2) in simp)
qed

lemma delegated_claims_ok:
  assumes "effect_ok st [] (Signed k0 t0 jc) \<or> effect_ok st earlier (Signed k0 t0 jc)" and "c \<in> set (registered_clients st)" and "a \<in> set (sc_audiences c)"
    and "get_none jc ''aud'' = VList auds" and "VStr (bs_audience st) \<in> set auds" and "get_none jc ''exp'' = VInt e" and "now < e"
  defines "source \<equiv> if get_none jc ''authentication_source'' = VStr ''oidc'' then ''oidc'' else ''development''"
  shows "delegated_from st (token_claims st now (delegated_claims jc) (Some a) (Some [(''sub'', VStr (sc_id c))]) (bs_delegated_ttl st) source) jc"
proof -
  have has: "list_all (\<lambda>k. dget jc k \<noteq> None) [''sub'', ''roles'', ''groups'', ''authentication_source'']"
    and src: "get_none jc ''authentication_source'' \<in> {VStr ''oidc'', VStr ''development''}"
    using assms(1) by (auto simp: effect_ok_def)
  have "VStr source = get_none jc ''authentication_source''" using src by (auto simp: source_def)
  then show ?thesis using has assms(2-7)
    by (auto simp: delegated_from_def claim_simps delegated_claims_def split: option.splits)
qed

lemma exchange_ok:
  assumes "jwt_sound env trail" and "trail_ok st [] trail"
    and "exchange_delegated_token env st subject_token audience authorization s = (r, s', fx)"
  shows "trail_ok st trail fx"
proof -
  let ?basic = "parse_basic_credential env authorization"
  obtain r1 gx tail where run: "exchange_token env st (map_option fst ?basic) (map_option snd ?basic) subject_token audience
      (parse_bearer_credential authorization) s = (r1, s', gx)" and fx: "fx = gx @ tail" and tail: "list_all (\<lambda>e. \<exists>o1 c a d. e = ExchangeAudited o1 c a d) tail"
    using assms(3) by (auto simp: exchange_delegated_token_def Let_def split: prod.splits sum.splits broker_error.splits)
  have audited: "trail_ok st earlier tail" for earlier using tail by (induction tail arbitrary: earlier) (auto simp: effect_ok_def)
  show ?thesis
  proof (cases "gx = []")
    case False
    from exchange_token_cases [OF run False] obtain c key jc k t where e: "c \<in> set (registered_clients st)" "audience \<in> set (sc_audiences c)"
      "be_decode env key (bs_issuer st) (bs_audience st) subject_token = JwtOk jc"
      "gx = [Signed k t (token_claims st (be_now env) (delegated_claims jc) (Some audience) (Some [(''sub'', VStr (sc_id c))])
                 (bs_delegated_ttl st) (if get_none jc ''authentication_source'' = VStr ''oidc'' then ''oidc'' else ''development''))]" .
    obtain auds x where d: "Signed key subject_token jc \<in> set trail" "get_none jc ''aud'' = VList auds" "VStr (bs_audience st) \<in> set auds"
      "get_none jc ''exp'' = VInt x" "be_now env < x" using assms(1) e(3) unfolding jwt_sound_def by blast
    obtain earlier where "effect_ok st earlier (Signed key subject_token jc)" using trail_ok_signed [OF assms(2) d(1)] by blast
    note del = delegated_claims_ok [OF disjI2 [OF this] e(1,2) d(2,3,4,5)]
    show ?thesis using del d(1) e(4) fx audited
      by (auto simp: effect_ok_def) (auto simp: claim_simps delegated_claims_def)
  qed (use fx audited in simp)
qed

lemma broker_step_ok:
  assumes "broker_step st x y" and "trail_ok st [] (snd x)"
  shows "trail_ok st [] (snd y)"
  using assms
proof cases
  case (callback env trail code verifier uri s r s' fx)
  then obtain r1 where "exchange_authorization_code env st code verifier uri s = (r1, s', fx)"
    by (auto simp: auth_callback_def split: prod.splits)
  then show ?thesis using callback assms(2) login_session_ok by (auto simp: exchange_authorization_code_def)
next
  case (refresh env trail rt s r s' fx)
  then obtain r1 where "refresh_session env st rt s = (r1, s', fx)" by (auto simp: auth_refresh_def split: prod.splits)
  then show ?thesis using refresh assms(2) login_session_ok by (auto simp: refresh_session_def)
next
  case (mint env trail username email roles groups s r s' fx)
  then show ?thesis using assms(2) mint_ok by auto
next
  case (exchange env trail subject_token audience authorization s r s' fx)
  then show ?thesis using assms(2) exchange_ok by auto
qed simp

lemma reachable_ok:
  assumes "broker_reachable st s trail"
  shows "trail_ok st [] trail"
proof -
  have "trail_ok st [] (snd y)" if "(broker_step st)\<^sup>*\<^sup>* x y" "trail_ok st [] (snd x)" for x y
    using that by (induction rule: rtranclp_induct) (auto intro: broker_step_ok)
  from this [of "(_, [])" "(s, trail)"] assms show ?thesis by (auto simp: broker_reachable_def)
qed

lemma oidc_rooted:
  assumes "trail_ok st [] trail" and "Signed k t jc \<in> set trail" and "get_none jc ''authentication_source'' = VStr ''oidc''"
  shows "\<exists>i. LoginVerified i \<in> set trail \<and> claims_of_login jc i"
  using assms
proof (induction trail arbitrary: k t jc rule: rev_induct)
  case (snoc e es)
  show ?case
  proof (cases "Signed k t jc \<in> set es")
    case True
    then show ?thesis using snoc.IH snoc.prems by fastforce
  next
    case False
    then have "effect_ok st es (Signed k t jc)" using snoc.prems by auto
    then consider "direct_token st es jc" | k0 t0 j0 where "Signed k0 t0 j0 \<in> set es" "delegated_from st jc j0"
      by (auto simp: effect_ok_def)
    then show ?thesis
    proof cases
      case 1
      then show ?thesis using snoc.prems(3) by (auto simp: direct_token_def)
    next
      case 2
      have same: "get_none jc k = get_none j0 k" if "k \<in> {''sub'', ''roles'', ''groups'', ''email'', ''authentication_source''}" for k
        using 2(2) that by (auto simp: delegated_from_def)
      then obtain i where "LoginVerified i \<in> set es" "claims_of_login j0 i" using snoc.IH [OF _ 2(1)] snoc.prems by fastforce
      then show ?thesis using same by (auto simp: claims_of_login_def)
    qed
  qed
qed simp

section \<open>From the login to the gateway\<close>

lemma str_list_map [simp]: "str_list (VList (map VStr xs)) = Some xs"
  by (simp add: str_list_def list_all_iff comp_def)

lemma claims_identity_login:
  assumes "claims_identity jc = Some who" and "claims_of_login jc i"
  shows "ic_subject who = bi_subject i \<and> ic_roles who = resolve_roles (bi_groups i)"
proof -
  have at: "get_default jc k d = v" if "get_none jc k = v" "v \<noteq> VNone" for k d v
    using that by (auto simp: get_default_def get_none_def split: option.splits)
  from assms at show ?thesis
    by (auto simp: claims_identity_def claims_of_login_def split: option.splits if_splits)
qed

lemma verify_token_decoded:
  assumes "verify_token genv token require_human = Inr who"
  obtains jc where "ge_jwt genv token = Decoded jc" and "claims_identity jc = Some who" and "require_human \<longrightarrow> human_provenance jc"
  using assms by (auto simp: verify_token_def split: jwt_result.splits if_splits option.splits)

text \<open>
  C27. Where the authority of a token comes from. Whatever logins, refreshes, development mints,
  exchanges and restarts the broker serves, take a token that the tool gateway accepts, when its check
  accepts only what the broker signed. If the token says that its subject authenticated at the identity
  provider, then that subject did, and the gateway acts with exactly the roles that the provider's groups
  map to; a development token never turns into such a token. If the token carries an acting client, the
  client is registered, may use the audience, and the subject, roles, groups and source are those of an
  unexpired token for the gateway signed before, for the lifetime set for delegation. Without one, the
  token is for the gateway only, and so is every token accepted where a human is required.
\<close>

theorem broker_token_provenance:
  assumes "broker_reachable st s trail"
    and "\<forall>jc. ge_jwt genv token = Decoded jc \<longrightarrow> (\<exists>key. Signed key token jc \<in> set trail)"
    and "verify_token genv token require_human = Inr who"
  shows "\<exists>key jc earlier later. ge_jwt genv token = Decoded jc \<and> trail = earlier @ Signed key token jc # later
    \<and> (get_none jc ''authentication_source'' = VStr ''oidc'' \<longrightarrow>
         (\<exists>i. LoginVerified i \<in> set earlier \<and> ic_subject who = bi_subject i \<and> ic_roles who = resolve_roles (bi_groups i)))
    \<and> (get_none jc ''act'' \<noteq> VNone \<longrightarrow> (\<exists>k t j0. Signed k t j0 \<in> set earlier \<and> delegated_from st jc j0))
    \<and> (get_none jc ''act'' = VNone \<longrightarrow> get_none jc ''aud'' = VList [VStr (bs_audience st)])
    \<and> (require_human \<longrightarrow> get_none jc ''act'' = VNone \<and> get_none jc ''authentication_source'' = VStr ''oidc'')"
proof -
  obtain jc where jc: "ge_jwt genv token = Decoded jc" "claims_identity jc = Some who" "require_human \<longrightarrow> human_provenance jc"
    using verify_token_decoded [OF assms(3)] .
  obtain key where signed: "Signed key token jc \<in> set trail" using assms(2) jc(1) by blast
  note ok = reachable_ok [OF assms(1)]
  obtain earlier later where e: "trail = earlier @ Signed key token jc # later" "effect_ok st earlier (Signed key token jc)"
    using trail_ok_signed [OF ok signed] by blast
  have upto: "trail_ok st [] (earlier @ [Signed key token jc])" using ok e by simp
  have login: "\<exists>i. LoginVerified i \<in> set earlier \<and> ic_subject who = bi_subject i \<and> ic_roles who = resolve_roles (bi_groups i)"
    if oidc: "get_none jc ''authentication_source'' = VStr ''oidc''"
  proof -
    obtain i where "LoginVerified i \<in> set (earlier @ [Signed key token jc])" "claims_of_login jc i"
      using oidc_rooted [OF upto, of key token jc] oidc by auto
    then show ?thesis using claims_identity_login [OF jc(2), of i] by auto
  qed
  have "direct_token st earlier jc \<or> (\<exists>k t j0. Signed k t j0 \<in> set earlier \<and> delegated_from st jc j0)"
    using e(2) by (simp add: effect_ok_def)
  moreover have "get_none jc ''act'' \<noteq> VNone" if "delegated_from st jc j0" for j0 using that by (auto simp: delegated_from_def)
  moreover have "get_none jc ''act'' = VNone \<and> get_none jc ''aud'' = VList [VStr (bs_audience st)]" if "direct_token st earlier jc"
    using that by (simp add: direct_token_def)
  moreover have "require_human \<longrightarrow> get_none jc ''act'' = VNone \<and> get_none jc ''authentication_source'' = VStr ''oidc''"
    using jc(3) by (auto simp: human_provenance_def)
  ultimately show ?thesis using jc(1) e(1) login by blast
qed

definition demo_broker :: broker_settings where
  "demo_broker =
     \<lparr>bs_base_url = ''k'', bs_realm = ''r'', bs_client_id = ''portal'', bs_client_secret = None, bs_scopes = ''openid'', bs_redirect = ''cb'',
      bs_post_logout = ''/'', bs_key_path = None, bs_ttl = 900, bs_issuer = ''broker'', bs_audience = ''gw'', bs_delegated_ttl = 300,
      bs_clients = [], bs_workload_issuer = [], bs_workload_audience = [], bs_workload_clients = []\<rparr>"

definition demo_broker_env :: broker_env where
  "demo_broker_env =
     \<lparr>be_now = 100, be_fresh_key = ''K'', be_pem = (\<lambda>k. k), be_load_key = Some, be_kid = (\<lambda>k. k), be_encode = (\<lambda>_ _ _. ''T''),
      be_decode = (\<lambda>_ _ _ _. JwtInvalid), be_workload_decode = (\<lambda>_ _ _. JwtInvalid),
      be_token_endpoint = (\<lambda>_ _. IdpJson (VDict [(''access_token'', VStr ''a'')])),
      be_userinfo = (\<lambda>_ _. IdpJson (VDict [(''sub'', VStr ''u1''), (''groups'', VList [VStr ''ops-operators''])])),
      be_b64decode = (\<lambda>_. None), be_urlencode = (\<lambda>_. []), be_challenge = (\<lambda>s. s), be_verifier = ''v'', be_state = ''s'', be_value_error = []\<rparr>"

definition demo_login_identity :: broker_identity where
  "demo_login_identity = \<lparr>bi_subject = ''u1'', bi_username = ''u1'', bi_email = None, bi_groups = [''ops-operators''], bi_roles = [''operator'']\<rparr>"

definition demo_login_claims :: json_obj where
  "demo_login_claims = token_claims demo_broker 100 (identity_claims demo_login_identity) None None 900 ''oidc''"

definition demo_broker_trail :: "broker_effect list" where
  "demo_broker_trail = [LoginVerified demo_login_identity, Signed ''K'' ''T'' demo_login_claims]"

lemma demo_callback:
  "snd (auth_callback demo_broker_env demo_broker ''c'' ''v'' None \<lparr>br_key = None, br_file = None\<rparr>)
   = (\<lparr>br_key = Some ''K'', br_file = None\<rparr>, demo_broker_trail)"
  by code_simp

lemma demo_broker_reachable: "broker_reachable demo_broker \<lparr>br_key = Some ''K'', br_file = None\<rparr> demo_broker_trail"
proof -
  obtain r where run: "auth_callback demo_broker_env demo_broker ''c'' ''v'' None \<lparr>br_key = None, br_file = None\<rparr>
      = (r, \<lparr>br_key = Some ''K'', br_file = None\<rparr>, demo_broker_trail)" using demo_callback by (metis surj_pair snd_conv)
  have "jwt_sound demo_broker_env []" by (simp add: jwt_sound_def demo_broker_env_def)
  from broker_step.callback [OF this run] show ?thesis unfolding broker_reachable_def by (intro exI [of _ None]) (simp add: r_into_rtranclp)
qed

definition demo_human_env :: gw_env where
  "demo_human_env = demo_gw_env\<lparr>ge_jwt := (\<lambda>t. if t = ''T'' then Decoded demo_login_claims else InvalidToken)\<rparr>"

theorem broker_token_provenance_witness:
  "\<exists>who i. verify_token demo_human_env ''T'' True = Inr who \<and> LoginVerified i \<in> set demo_broker_trail
     \<and> ic_subject who = bi_subject i \<and> ic_roles who = resolve_roles (bi_groups i)"
proof -
  let ?who = "\<lparr>ic_subject = ''u1'', ic_username = ''u1'', ic_roles = [''operator''], ic_actor = None\<rparr>"
  have env: "ge_jwt demo_human_env = (\<lambda>t. if t = ''T'' then Decoded demo_login_claims else InvalidToken)" by (simp add: demo_human_env_def)
  have human: "human_provenance demo_login_claims" by code_simp
  have "claims_identity demo_login_claims = Some ?who" by code_simp
  then have run: "verify_token demo_human_env ''T'' True = Inr ?who" using human env by (simp add: verify_token_def)
  have signed: "\<forall>jc. ge_jwt demo_human_env ''T'' = Decoded jc \<longrightarrow> (\<exists>key. Signed key ''T'' jc \<in> set demo_broker_trail)"
    using env by (simp add: demo_broker_trail_def)
  from broker_token_provenance [OF demo_broker_reachable signed run] obtain earlier later x i where
    "demo_broker_trail = earlier @ x # later" "LoginVerified i \<in> set earlier" "ic_subject ?who = bi_subject i"
    "ic_roles ?who = resolve_roles (bi_groups i)" by blast
  moreover from this(1,2) have "LoginVerified i \<in> set demo_broker_trail" by (metis Un_iff set_append)
  ultimately show ?thesis using run by blast
qed

end
