(* ===== verification/Audit_Store.thy ===== *)
theory Audit_Store
  imports Identity_Broker "HOL-Library.Multiset"
begin

text \<open>
  The audit service (\<open>audit_service/services/audit_store.py\<close>, \<open>retention.py\<close>, \<open>ingest_auth.py\<close>, the schemas and
  the ingest, query, summary and export routes): the memory and the Postgres store of audit events,
  eviction, cursor pages, aggregates and the export. Timestamps are instants in microseconds. The order in
  which the database visits rows that a statement does not order is an argument; text is compared by code
  point. ISO and base64 coding and the JWT check of workload tokens are arguments.
\<close>

section \<open>Events and filters\<close>

record audit_event =
  ae_id :: string
  ae_at :: int
  ae_type :: string
  ae_service :: string
  ae_request :: string
  ae_subject :: "string option"
  ae_username :: "string option"
  ae_actor :: "string option"
  ae_roles :: "string list option"
  ae_session :: "string option"
  ae_outcome :: string
  ae_mode :: "string option"
  ae_role :: "string option"
  ae_details :: json_obj

definition EVENT_TYPES :: "string list" where
  "EVENT_TYPES =
     [''tool_invoked'', ''policy_decision'', ''token_exchange'', ''session_created'', ''session_deleted'', ''chat_started'', ''chat_completed'',
      ''confirmation_decided'', ''incident_triaged'', ''skill_searched'', ''skill_retrieved'', ''skills_synced'', ''execution_requested'',
      ''execution_completed'', ''execution_rejected'', ''document_created'', ''document_published'', ''document_read'', ''skill_draft_generated'',
      ''incident_skill_draft_generated'', ''skill_graduated'', ''secret_delivered'', ''target_authorization'']"

definition OUTCOMES :: "string list" where
  "OUTCOMES = [''allow'', ''deny'', ''success'', ''error'']"

definition DELEGATION_MODES :: "string list" where
  "DELEGATION_MODES = [''user_delegated'', ''acting_service'', ''none'']"

definition AUDIT_ROLES :: "string list" where
  "AUDIT_ROLES = [''diagnostician'', ''orchestrator'', ''executor'']"

definition EVENT_FIELDS :: "string list" where
  "EVENT_FIELDS =
     [''event_id'', ''occurred_at'', ''event_type'', ''service'', ''request_id'', ''subject'', ''username'', ''actor'', ''roles'', ''session_id'',
      ''outcome'', ''delegation_mode'', ''agent_role'', ''details'']"

text \<open>Fields of a model: a string, a string or null, and one of a closed vocabulary.\<close>

definition model_str :: "json_obj \<Rightarrow> string \<Rightarrow> string option" where
  "model_str d k = Option.bind (dget d k) as_str"

definition model_opt :: "json_obj \<Rightarrow> string \<Rightarrow> string option option" where
  "model_opt d k = (case get_none d k of VNone \<Rightarrow> Some None | VStr s \<Rightarrow> Some (Some s) | _ \<Rightarrow> None)"

definition literal :: "string list \<Rightarrow> string \<Rightarrow> string option" where
  "literal vocabulary s = (if s \<in> set vocabulary then Some s else None)"

definition model_opt_literal :: "string list \<Rightarrow> json_obj \<Rightarrow> string \<Rightarrow> string option option" where
  "model_opt_literal vocabulary d k =
     Option.bind (model_opt d k) (\<lambda>v. case v of None \<Rightarrow> Some None | Some s \<Rightarrow> map_option Some (literal vocabulary s))"

definition model_roles :: "json_obj \<Rightarrow> string list option option" where
  "model_roles d = (case get_none d ''roles'' of VNone \<Rightarrow> Some None | v \<Rightarrow> map_option Some (str_list v))"

definition model_details :: "json_obj \<Rightarrow> json_obj option" where
  "model_details d = (case dget d ''details'' of None \<Rightarrow> Some [] | Some v \<Rightarrow> as_dict v)"

text \<open>\<open>AuditEvent.model_validate\<close>; unknown fields are refused.\<close>

definition validate_event :: "(val \<Rightarrow> int option) \<Rightarrow> val \<Rightarrow> audit_event option" where
  "validate_event to_instant v =
     (case v of
        VDict d \<Rightarrow>
          if \<not> list_all (\<lambda>p. fst p \<in> set EVENT_FIELDS) d then None
          else Option.bind (model_str d ''event_id'') (\<lambda>i.
               Option.bind (Option.bind (dget d ''occurred_at'') to_instant) (\<lambda>at1.
               Option.bind (Option.bind (model_str d ''event_type'') (literal EVENT_TYPES)) (\<lambda>ty.
               Option.bind (model_str d ''service'') (\<lambda>sv.
               Option.bind (model_str d ''request_id'') (\<lambda>rq.
               Option.bind (model_opt d ''subject'') (\<lambda>su.
               Option.bind (model_opt d ''username'') (\<lambda>us.
               Option.bind (model_opt d ''actor'') (\<lambda>ac.
               Option.bind (model_roles d) (\<lambda>ro.
               Option.bind (model_opt d ''session_id'') (\<lambda>se.
               Option.bind (Option.bind (model_str d ''outcome'') (literal OUTCOMES)) (\<lambda>oc.
               Option.bind (model_opt_literal DELEGATION_MODES d ''delegation_mode'') (\<lambda>md.
               Option.bind (model_opt_literal AUDIT_ROLES d ''agent_role'') (\<lambda>ar.
               Option.bind (model_details d) (\<lambda>de.
                 Some \<lparr>ae_id = i, ae_at = at1, ae_type = ty, ae_service = sv, ae_request = rq, ae_subject = su, ae_username = us,
                       ae_actor = ac, ae_roles = ro, ae_session = se, ae_outcome = oc, ae_mode = md, ae_role = ar, ae_details = de\<rparr>))))))))))))))
      | _ \<Rightarrow> None)"

fun validate_events :: "(val \<Rightarrow> int option) \<Rightarrow> val list \<Rightarrow> audit_event list option" where
  "validate_events to_instant [] = Some []"
| "validate_events to_instant (v # vs) =
     Option.bind (validate_event to_instant v) (\<lambda>e. map_option ((#) e) (validate_events to_instant vs))"

definition validate_batch :: "(val \<Rightarrow> int option) \<Rightarrow> val \<Rightarrow> audit_event list option" where
  "validate_batch to_instant body =
     (case body of
        VDict [(''events'', VList (v # vs))] \<Rightarrow> validate_events to_instant (v # vs)
      | _ \<Rightarrow> None)"

record audit_query =
  aq_username :: "string option"
  aq_session :: "string option"
  aq_request :: "string option"
  aq_type :: "string option"
  aq_service :: "string option"
  aq_outcome :: "string option"
  aq_mode :: "string option"
  aq_role :: "string option"
  aq_since :: "int option"
  aq_until :: "int option"

text \<open>\<open>if filters.x and event.x != filters.x\<close>: an absent or empty filter does not constrain.\<close>

definition filtered_out :: "string option \<Rightarrow> string option \<Rightarrow> bool" where
  "filtered_out want v = (case want of Some (c # cs) \<Rightarrow> v \<noteq> Some (c # cs) | _ \<Rightarrow> False)"

definition matches :: "audit_query \<Rightarrow> audit_event \<Rightarrow> bool" where
  "matches q e \<longleftrightarrow>
     \<not> filtered_out (aq_username q) (ae_username e) \<and> \<not> filtered_out (aq_session q) (ae_session e)
     \<and> \<not> filtered_out (aq_request q) (Some (ae_request e)) \<and> \<not> filtered_out (aq_type q) (Some (ae_type e))
     \<and> \<not> filtered_out (aq_service q) (Some (ae_service e)) \<and> \<not> filtered_out (aq_outcome q) (Some (ae_outcome e))
     \<and> \<not> filtered_out (aq_mode q) (ae_mode e) \<and> \<not> filtered_out (aq_role q) (ae_role e)
     \<and> (case aq_since q of None \<Rightarrow> True | Some t \<Rightarrow> \<not> ae_at e < t) \<and> (case aq_until q of None \<Rightarrow> True | Some t \<Rightarrow> \<not> t < ae_at e)"

section \<open>Cursors and pages\<close>

record cursor_codec =
  cc_iso :: "int \<Rightarrow> string"
  cc_from_iso :: "string \<Rightarrow> int option"
  cc_b64 :: "string \<Rightarrow> string"
  cc_unb64 :: "string \<Rightarrow> string option"

definition encode_cursor :: "cursor_codec \<Rightarrow> int \<Rightarrow> string \<Rightarrow> string" where
  "encode_cursor cc t i = cc_b64 cc (cc_iso cc t @ ''|'' @ i)"

definition decode_cursor :: "cursor_codec \<Rightarrow> string \<Rightarrow> (int \<times> string) option" where
  "decode_cursor cc cursor =
     Option.bind (cc_unb64 cc cursor) (\<lambda>raw.
       Option.bind (cc_from_iso cc (before (CHR ''|'') raw)) (\<lambda>t.
         if after (CHR ''|'') raw = [] then None else Some (t, after (CHR ''|'') raw)))"

definition event_key :: "audit_event \<Rightarrow> int \<times> string" where
  "event_key e = (ae_at e, ae_id e)"

record audit_page =
  ap_events :: "audit_event list"
  ap_next :: "string option"

definition page_of :: "cursor_codec \<Rightarrow> nat \<Rightarrow> audit_event list \<Rightarrow> audit_page" where
  "page_of cc limit rows =
     (let page = take limit rows; rest = drop limit rows
      in \<lparr>ap_events = page,
          ap_next = (if page \<noteq> [] \<and> rest \<noteq> [] then Some (encode_cursor cc (ae_at (last page)) (ae_id (last page))) else None)\<rparr>)"

datatype store_error = InvalidCursor | DbUrlRequired

section \<open>The memory store\<close>

record mem_audit =
  am_events :: "audit_event list"
  am_ids :: "string list"

definition new_mem_audit :: mem_audit where
  "new_mem_audit = \<lparr>am_events = [], am_ids = []\<rparr>"

fun mem_add :: "audit_event list \<Rightarrow> mem_audit \<Rightarrow> nat \<times> mem_audit" where
  "mem_add [] m = (0, m)"
| "mem_add (e # es) m =
     (if ae_id e \<in> set (am_ids m) then mem_add es m
      else case mem_add es (m\<lparr>am_ids := ae_id e # am_ids m, am_events := am_events m @ [e]\<rparr>) of (n, m') \<Rightarrow> (Suc n, m'))"

definition mem_query :: "cursor_codec \<Rightarrow> audit_query \<Rightarrow> string option \<Rightarrow> nat \<Rightarrow> mem_audit \<Rightarrow> store_error + audit_page" where
  "mem_query cc q cursor limit m =
     (let rows = py_sort_desc event_key (filter (matches q) (am_events m)) in
      case cursor of
        None \<Rightarrow> Inr (page_of cc limit rows)
      | Some c \<Rightarrow>
          (case decode_cursor cc c of
             None \<Rightarrow> Inl InvalidCursor
           | Some k \<Rightarrow> Inr (page_of cc limit (filter (\<lambda>e. event_key e < k) rows))))"

definition mem_count :: "mem_audit \<Rightarrow> nat" where
  "mem_count m = length (am_events m)"

definition mem_evict :: "int \<Rightarrow> nat \<Rightarrow> mem_audit \<Rightarrow> nat \<times> mem_audit" where
  "mem_evict cutoff max_events m =
     (let kept = sort_key event_key (filter (\<lambda>e. cutoff \<le> ae_at e) (am_events m));
          kept' = (if max_events < length kept then py_last max_events kept else kept)
      in (length (am_events m) - length kept', \<lparr>am_events = kept', am_ids = map ae_id kept'\<rparr>))"

section \<open>Aggregates\<close>

definition DECISION_CHAIN_TYPES :: "string list" where
  "DECISION_CHAIN_TYPES = [''confirmation_decided'', ''execution_requested'', ''execution_completed'', ''execution_rejected'']"

definition TOP_ACTORS_LIMIT :: nat where
  "TOP_ACTORS_LIMIT = 10"

type_synonym bucket = "string \<times> nat"

record audit_summary =
  su_total :: nat
  su_window :: "(string \<times> string) list"
  su_types :: "bucket list"
  su_outcomes :: "bucket list"
  su_services :: "bucket list"
  su_actors :: "bucket list"
  su_chain :: "nat list"

definition window_echo :: "cursor_codec \<Rightarrow> audit_query \<Rightarrow> (string \<times> string) list" where
  "window_echo cc q =
     List.map_filter (\<lambda>(k, v). case v of Some (c # cs) \<Rightarrow> Some (k, c # cs) | _ \<Rightarrow> None)
       [(''username'', aq_username q), (''session_id'', aq_session q), (''request_id'', aq_request q), (''event_type'', aq_type q),
        (''service'', aq_service q), (''outcome'', aq_outcome q), (''delegation_mode'', aq_mode q), (''agent_role'', aq_role q)]
     @ (case aq_since q of None \<Rightarrow> [] | Some t \<Rightarrow> [(''since'', cc_iso cc t)])
     @ (case aq_until q of None \<Rightarrow> [] | Some t \<Rightarrow> [(''until'', cc_iso cc t)])"

definition counter :: "string list \<Rightarrow> bucket list" where
  "counter xs = map (\<lambda>x. (x, count_list xs x)) (remdups xs)"

definition bucket_key :: "bucket \<Rightarrow> int \<times> string" where
  "bucket_key b = (- int (snd b), fst b)"

definition sort_buckets :: "bucket list \<Rightarrow> bucket list" where
  "sort_buckets counts = sort_key bucket_key counts"

definition bucket_count :: "bucket list \<Rightarrow> string \<Rightarrow> nat" where
  "bucket_count counts x = (case dget counts x of None \<Rightarrow> 0 | Some n \<Rightarrow> n)"

definition usernames :: "audit_event list \<Rightarrow> string list" where
  "usernames es = List.map_filter ae_username es"

definition summarize_events :: "cursor_codec \<Rightarrow> audit_event list \<Rightarrow> audit_query \<Rightarrow> audit_summary" where
  "summarize_events cc es q =
     \<lparr>su_total = length es, su_window = window_echo cc q, su_types = sort_buckets (counter (map ae_type es)),
      su_outcomes = sort_buckets (counter (map ae_outcome es)), su_services = sort_buckets (counter (map ae_service es)),
      su_actors = take TOP_ACTORS_LIMIT (sort_buckets (counter (filter (\<lambda>u. u \<noteq> []) (usernames es)))),
      su_chain = map (bucket_count (counter (map ae_type es))) DECISION_CHAIN_TYPES\<rparr>"

definition mem_summarize :: "cursor_codec \<Rightarrow> audit_query \<Rightarrow> mem_audit \<Rightarrow> audit_summary" where
  "mem_summarize cc q m = summarize_events cc (filter (matches q) (am_events m)) q"

section \<open>The Postgres store\<close>

text \<open>The table, with the event id as its key. \<open>_filter_clause\<close> builds the conjuncts of the \<open>WHERE\<close> clause.\<close>

type_synonym audit_table = "audit_event list"

definition eq_clause :: "string option \<Rightarrow> (audit_event \<Rightarrow> string option) \<Rightarrow> (audit_event \<Rightarrow> bool) list" where
  "eq_clause want col = (case want of Some (c # cs) \<Rightarrow> [\<lambda>e. col e = Some (c # cs)] | _ \<Rightarrow> [])"

definition filter_clause :: "audit_query \<Rightarrow> (audit_event \<Rightarrow> bool) list" where
  "filter_clause q =
     eq_clause (aq_username q) ae_username @ eq_clause (aq_session q) ae_session @ eq_clause (aq_request q) (Some \<circ> ae_request)
     @ eq_clause (aq_type q) (Some \<circ> ae_type) @ eq_clause (aq_service q) (Some \<circ> ae_service) @ eq_clause (aq_outcome q) (Some \<circ> ae_outcome)
     @ eq_clause (aq_mode q) ae_mode @ eq_clause (aq_role q) ae_role
     @ (case aq_since q of None \<Rightarrow> [] | Some t \<Rightarrow> [\<lambda>e. t \<le> ae_at e]) @ (case aq_until q of None \<Rightarrow> [] | Some t \<Rightarrow> [\<lambda>e. ae_at e \<le> t])"

definition sql_where :: "(audit_event \<Rightarrow> bool) list \<Rightarrow> audit_table \<Rightarrow> audit_event list" where
  "sql_where conjuncts t = filter (\<lambda>e. list_all (\<lambda>c. c e) conjuncts) t"

fun pg_add :: "audit_event list \<Rightarrow> audit_table \<Rightarrow> nat \<times> audit_table" where
  "pg_add [] t = (0, t)"
| "pg_add (e # es) t =
     (if ae_id e \<in> ae_id ` set t then pg_add es t else case pg_add es (t @ [e]) of (n, t') \<Rightarrow> (Suc n, t'))"

definition pg_query :: "cursor_codec \<Rightarrow> audit_query \<Rightarrow> string option \<Rightarrow> nat \<Rightarrow> audit_table \<Rightarrow> store_error + audit_page" where
  "pg_query cc q cursor limit t =
     (case (case cursor of
              None \<Rightarrow> Some (filter_clause q)
            | Some c \<Rightarrow> map_option (\<lambda>k. filter_clause q @ [\<lambda>e. event_key e < k]) (decode_cursor cc c)) of
        None \<Rightarrow> Inl InvalidCursor
      | Some conjuncts \<Rightarrow> Inr (page_of cc limit (take (limit + 1) (py_sort_desc event_key (sql_where conjuncts t)))))"

definition pg_count :: "audit_table \<Rightarrow> nat" where
  "pg_count t = length t"

text \<open>\<open>scan\<close> is the order in which the database returns the groups of an unordered statement.\<close>

definition pg_summarize :: "cursor_codec \<Rightarrow> (bucket list \<Rightarrow> bucket list) \<Rightarrow> audit_query \<Rightarrow> audit_table \<Rightarrow> audit_summary" where
  "pg_summarize cc scan q t =
     (let es = sql_where (filter_clause q) t
      in \<lparr>su_total = length es, su_window = window_echo cc q, su_types = sort_buckets (scan (counter (map ae_type es))),
          su_outcomes = sort_buckets (scan (counter (map ae_outcome es))), su_services = sort_buckets (scan (counter (map ae_service es))),
          su_actors = sort_buckets (take TOP_ACTORS_LIMIT (scan (counter (usernames es)))),
          su_chain = map (bucket_count (scan (counter (filter (\<lambda>ty. ty \<in> set DECISION_CHAIN_TYPES) (map ae_type es))))) DECISION_CHAIN_TYPES\<rparr>)"

definition sql_delete :: "audit_event list \<Rightarrow> audit_table \<Rightarrow> audit_table" where
  "sql_delete rows t = filter (\<lambda>e. ae_id e \<notin> ae_id ` set rows) t"

text \<open>One loop of batched deletes: \<open>select\<close> is the inner statement on the table as it is, without its limit.\<close>

function evict_loop :: "(audit_table \<Rightarrow> audit_event list) \<Rightarrow> nat \<Rightarrow> audit_table \<Rightarrow> nat \<times> nat \<times> audit_table" where
  "evict_loop select batch_size t =
     (let batch = max batch_size 1; t' = sql_delete (take batch (select t)) t; deleted = length t - length t'
      in if deleted < batch then (deleted, 1, t')
         else case evict_loop select batch_size t' of (n, rounds, t'') \<Rightarrow> (deleted + n, Suc rounds, t''))"
  by pat_completeness auto
termination
  by (relation "measure (\<lambda>(select, b, t). length t)") (auto simp: not_less max_def split: if_splits)

declare evict_loop.simps [simp del]

definition expired_rows :: "int \<Rightarrow> audit_table \<Rightarrow> audit_event list" where
  "expired_rows cutoff t = filter (\<lambda>e. ae_at e < cutoff) t"

definition excess_rows :: "nat \<Rightarrow> audit_table \<Rightarrow> audit_event list" where
  "excess_rows keep t = drop keep (py_sort_desc event_key t)"

definition pg_evict :: "(audit_event list \<Rightarrow> audit_event list) \<Rightarrow> int \<Rightarrow> nat \<Rightarrow> nat \<Rightarrow> audit_table \<Rightarrow> nat \<times> nat \<times> audit_table" where
  "pg_evict scan cutoff max_events batch_size t =
     (case evict_loop (\<lambda>t. scan (expired_rows cutoff t)) batch_size t of
        (n1, r1, t1) \<Rightarrow> (case evict_loop (excess_rows max_events) batch_size t1 of (n2, r2, t2) \<Rightarrow> (n1 + n2, r1 + r2, t2)))"

section \<open>The two stores agree\<close>

lemma eq_clause_filtered: "list_all (\<lambda>c. c e) (eq_clause want col) \<longleftrightarrow> \<not> filtered_out want (col e)"
  by (auto simp: eq_clause_def filtered_out_def split: option.splits list.splits)

lemma filter_clause_matches: "list_all (\<lambda>c. c e) (filter_clause q) \<longleftrightarrow> matches q e"
  by (auto simp: filter_clause_def matches_def eq_clause_filtered not_less split: option.splits)

lemma sql_where_matches: "sql_where (filter_clause q) t = filter (matches q) t"
  by (simp add: sql_where_def filter_clause_matches)

text \<open>Distinct ids make the order of the rows a function of the rows.\<close>

abbreviation distinct_ids :: "audit_event list \<Rightarrow> bool" where
  "distinct_ids es \<equiv> distinct (map ae_id es)"

lemma event_key_inj: "distinct_ids es \<Longrightarrow> inj_on event_key (set es)"
  by (auto simp: inj_on_def event_key_def distinct_map)

lemma sort_key_unique:
  assumes "mset xs = mset ys" and "inj_on f (set xs)"
  shows "sort_key f xs = sort_key f ys"
proof -
  have sorted: "sort (map f zs) = map f (sort_key f zs)" for zs by (rule properties_for_sort) simp_all
  have "sort (map f xs) = sort (map f ys)" by (rule properties_for_sort) (use assms(1) in simp_all)
  then have "map f (sort_key f xs) = map f (sort_key f ys)" by (simp add: sorted)
  moreover have "set ys = set xs" using assms(1) by (metis set_mset_mset)
  ultimately show ?thesis using assms(2) by (intro map_inj_on [of f]) auto
qed

lemma py_sort_desc_unique:
  assumes "mset xs = mset ys" and "inj_on f (set xs)"
  shows "py_sort_desc f xs = py_sort_desc f ys"
  using sort_key_unique [of "rev xs" "rev ys" f] assms by (simp add: py_sort_desc_def)

lemma filter_py_sort_desc: "filter P (py_sort_desc f xs) = py_sort_desc f (filter P xs)"
  by (simp add: py_sort_desc_def filter_sort flip: rev_filter)

lemma page_of_limited: "page_of cc limit (take (limit + 1) rows) = page_of cc limit rows"
  by (auto simp: page_of_def Let_def min_def)

definition audit_sim :: "mem_audit \<Rightarrow> audit_table \<Rightarrow> bool" where
  "audit_sim m t \<longleftrightarrow> mset (am_events m) = mset t \<and> distinct_ids t \<and> set (am_ids m) = ae_id ` set t"

lemma audit_sim_events:
  assumes "audit_sim m t"
  shows "set (am_events m) = set t" and "length (am_events m) = length t" and "distinct_ids (am_events m)"
proof -
  show "set (am_events m) = set t" using assms by (metis audit_sim_def set_mset_mset)
  show "length (am_events m) = length t" using assms by (metis audit_sim_def size_mset)
  have "mset (map ae_id (am_events m)) = mset (map ae_id t)" using assms by (simp add: audit_sim_def)
  then show "distinct_ids (am_events m)" using assms by (metis audit_sim_def mset_eq_imp_distinct_iff)
qed

lemma add_agrees:
  assumes "audit_sim m t" and "mem_add es m = (n, m')" and "pg_add es t = (k, t')"
  shows "n = k \<and> audit_sim m' t'"
  using assms
proof (induction es arbitrary: m t n k)
  case (Cons e es)
  show ?case
  proof (cases "ae_id e \<in> set (am_ids m)")
    case True
    then show ?thesis using Cons.IH [OF Cons.prems(1)] Cons.prems by (auto simp: audit_sim_def)
  next
    case False
    then have "audit_sim (m\<lparr>am_ids := ae_id e # am_ids m, am_events := am_events m @ [e]\<rparr>) (t @ [e])"
      using Cons.prems(1) by (auto simp: audit_sim_def)
    from Cons.IH [OF this] False Cons.prems show ?thesis by (auto simp: audit_sim_def split: prod.splits)
  qed
qed simp

definition newest :: "audit_query \<Rightarrow> audit_event list \<Rightarrow> audit_event list" where
  "newest q es = py_sort_desc event_key (filter (matches q) es)"

lemma sorted_strict:
  assumes "sorted_wrt (\<lambda>a b. f b \<le> f a) xs" and "distinct xs" and "inj_on f (set xs)"
  shows "sorted_wrt (\<lambda>a b. f b < (f a :: 'k::linorder)) xs"
  using assms by (induction xs) (auto simp: order_less_le inj_on_def)

lemma newest_strict:
  assumes "distinct_ids es"
  shows "sorted_wrt (\<lambda>a b. event_key b < event_key a) (newest q es)"
proof (rule sorted_strict)
  have d: "distinct_ids (filter (matches q) es)" by (intro distinct_map_filter assms)
  show "inj_on event_key (set (newest q es))" using event_key_inj [OF d] by (simp add: newest_def)
  show "distinct (newest q es)" using d unfolding newest_def by (metis distinct_map mset_eq_imp_distinct_iff mset_py_sort_desc)
qed (simp add: newest_def sorted_py_sort_desc)

lemma newest_agrees: "audit_sim m t \<Longrightarrow> newest q (am_events m) = newest q t"
proof -
  assume s: "audit_sim m t"
  have "mset (filter (matches q) (am_events m)) = mset (filter (matches q) t)" using s by (simp add: audit_sim_def)
  moreover have "inj_on event_key (set (filter (matches q) (am_events m)))"
    using event_key_inj [OF audit_sim_events(3) [OF s]] by (rule inj_on_subset) auto
  ultimately show ?thesis unfolding newest_def by (rule py_sort_desc_unique)
qed

lemma pg_query_newest:
  "pg_query cc q cursor limit t =
     (case cursor of
        None \<Rightarrow> Inr (page_of cc limit (newest q t))
      | Some c \<Rightarrow>
          (case decode_cursor cc c of
             None \<Rightarrow> Inl InvalidCursor
           | Some k \<Rightarrow> Inr (page_of cc limit (filter (\<lambda>e. event_key e < k) (newest q t)))))"
proof -
  have "sql_where (filter_clause q @ [\<lambda>e. event_key e < k]) t = filter (\<lambda>e. event_key e < k) (filter (matches q) t)" for k
    by (simp add: sql_where_def filter_clause_matches conj_commute)
  then show ?thesis
    by (auto simp: pg_query_def newest_def sql_where_matches filter_py_sort_desc page_of_limited [simplified] split: option.splits)
qed

lemma mem_query_newest:
  "mem_query cc q cursor limit m =
     (case cursor of
        None \<Rightarrow> Inr (page_of cc limit (newest q (am_events m)))
      | Some c \<Rightarrow>
          (case decode_cursor cc c of
             None \<Rightarrow> Inl InvalidCursor
           | Some k \<Rightarrow> Inr (page_of cc limit (filter (\<lambda>e. event_key e < k) (newest q (am_events m))))))"
  unfolding mem_query_def newest_def Let_def by (rule refl)

lemma query_agrees: "audit_sim m t \<Longrightarrow> mem_query cc q cursor limit m = pg_query cc q cursor limit t"
  unfolding mem_query_newest pg_query_newest by (simp only: newest_agrees)

section \<open>Batched deletes\<close>

text \<open>A statement whose rows, once a batch of them is deleted, are the rest of what they were.\<close>

locale batch_source =
  fixes select :: "audit_table \<Rightarrow> audit_event list"
  assumes select_rows: "distinct_ids t \<Longrightarrow> set (select t) \<subseteq> set t"
    and select_distinct: "distinct_ids t \<Longrightarrow> distinct (select t)"
    and select_rest: "distinct_ids t \<Longrightarrow> set (select (sql_delete (take b (select t)) t)) = set (drop b (select t))"
begin

lemma deleted_rows:
  assumes "distinct_ids t" and "set rows \<subseteq> set t"
  shows "e \<in> set (sql_delete rows t) \<longleftrightarrow> e \<in> set t \<and> e \<notin> set rows"
  using assms by (auto simp: sql_delete_def distinct_map inj_on_def)

lemma deleted_length:
  assumes "distinct_ids t" and "set rows \<subseteq> set t" and "distinct rows"
  shows "length t - length (sql_delete rows t) = length rows"
proof -
  have t: "distinct t" using assms(1) by (simp add: distinct_map)
  then have "distinct (sql_delete rows t)" by (simp add: sql_delete_def)
  moreover have "set (sql_delete rows t) = set t - set rows" using deleted_rows [OF assms(1,2)] by blast
  ultimately have "length (sql_delete rows t) = card (set t - set rows)" by (metis distinct_card)
  also have "\<dots> = length t - length rows" using assms(2,3) t by (simp add: card_Diff_subset distinct_card)
  finally show ?thesis using assms(2,3) t by (metis card_mono diff_diff_cancel distinct_card finite_set)
qed

lemma evict_loop_result:
  assumes "distinct_ids t"
  shows "evict_loop select batch_size t
    = (length (select t), length (select t) div max batch_size 1 + 1, sql_delete (select t) t)"
  using assms
proof (induction "length t" arbitrary: t rule: less_induct)
  case less
  let ?b = "max batch_size 1"
  let ?t' = "sql_delete (take ?b (select t)) t"
  note rows = select_rows [OF less.prems] and dist = select_distinct [OF less.prems]
  have sub: "set (take ?b (select t)) \<subseteq> set t" using rows by (meson set_take_subset subset_trans)
  have del: "length t - length ?t' = min (length (select t)) ?b"
    using deleted_length [OF less.prems sub] dist by simp
  show ?case
  proof (cases "length (select t) < ?b")
    case True
    then show ?thesis using del by (subst evict_loop.simps) (simp add: Let_def)
  next
    case False
    have prem: "distinct_ids ?t'" using less.prems by (simp add: sql_delete_def distinct_map inj_on_def)
    have shorter: "length ?t' < length t" using del False by linarith
    have rest: "distinct (select ?t')" "set (select ?t') = set (drop ?b (select t))"
      using select_distinct [OF prem] select_rest [OF less.prems] by auto
    then have len: "length (select ?t') = length (select t) - ?b" using dist by (metis distinct_card distinct_drop length_drop)
    have all: "sql_delete (select ?t') ?t' = sql_delete (select t) t"
    proof -
      have "set (select t) = set (take ?b (select t)) \<union> set (select ?t')" using rest(2) by (metis append_take_drop_id set_append)
      then show ?thesis by (simp add: sql_delete_def image_Un conj_commute)
    qed
    have div: "length (select t) div ?b = Suc (length (select ?t') div ?b)"
      unfolding len using False by (intro le_div_geq) auto
    have batch: "length t - length ?t' = ?b" and sum: "?b + (length (select t) - ?b) = length (select t)" using del False by auto
    show ?thesis
      by (subst evict_loop.simps) (use less.hyps [OF shorter prem] batch sum len all div in \<open>simp add: Let_def\<close>)
  qed
qed

end

text \<open>What the window deletes, in whatever order the database visits the rows.\<close>

lemma expired_source:
  assumes "\<forall>xs. mset (scan xs) = mset xs"
  shows "batch_source (\<lambda>t. scan (expired_rows cutoff t))"
proof
  fix t :: audit_table and b
  assume t: "distinct_ids t"
  have set_scan: "set (scan xs) = set xs" for xs using assms by (metis set_mset_mset)
  have d: "distinct (expired_rows cutoff t)" using t by (simp add: expired_rows_def distinct_map)
  then show dist: "distinct (scan (expired_rows cutoff t))" using assms mset_eq_imp_distinct_iff by metis
  show sub: "set (scan (expired_rows cutoff t)) \<subseteq> set t" by (auto simp: set_scan expired_rows_def)
  let ?S = "scan (expired_rows cutoff t)"
  have "set ?S = set (take b ?S) \<union> set (drop b ?S)" by (metis append_take_drop_id set_append)
  moreover have "set (take b ?S) \<inter> set (drop b ?S) = {}" using dist by (metis append_take_drop_id distinct_append)
  moreover have "e \<in> set (sql_delete (take b ?S) t) \<longleftrightarrow> e \<in> set t \<and> e \<notin> set (take b ?S)" for e
    using t sub set_take_subset [of b ?S] by (auto simp: sql_delete_def distinct_map inj_on_def)
  moreover have "set ?S = {e \<in> set t. ae_at e < cutoff}" by (auto simp: set_scan expired_rows_def)
  ultimately show "set (scan (expired_rows cutoff (sql_delete (take b ?S) t))) = set (drop b ?S)"
    unfolding set_scan expired_rows_def set_filter by blast
qed

lemma drop_filter_middle:
  assumes "distinct L"
  shows "drop k (filter (\<lambda>x. x \<notin> set (take b (drop k L))) L) = drop b (drop k L)"
proof -
  let ?A = "take k L" and ?B = "take b (drop k L)" and ?C = "drop b (drop k L)"
  have L: "L = ?A @ ?B @ ?C" by (metis append_take_drop_id)
  have disj: "set ?A \<inter> set ?B = {}" "set ?C \<inter> set ?B = {}" using assms by (metis L distinct_append inf_commute set_append Int_Un_distrib sup_eq_bot_iff)+
  have "filter (\<lambda>x. x \<notin> set ?B) L = filter (\<lambda>x. x \<notin> set ?B) ?A @ filter (\<lambda>x. x \<notin> set ?B) ?B @ filter (\<lambda>x. x \<notin> set ?B) ?C"
    by (metis L filter_append)
  also have "filter (\<lambda>x. x \<notin> set ?B) ?A = ?A" using disj(1) by (intro filter_True) blast
  also have "filter (\<lambda>x. x \<notin> set ?B) ?B = []" by (intro filter_False) simp
  also have "filter (\<lambda>x. x \<notin> set ?B) ?C = ?C" using disj(2) by (intro filter_True) blast
  finally have "filter (\<lambda>x. x \<notin> set ?B) L = ?A @ ?C" by simp
  then show ?thesis by (cases "k \<le> length L") simp_all
qed

lemma sql_delete_filter:
  assumes "distinct_ids t" and "set rows \<subseteq> set t"
  shows "sql_delete rows t = filter (\<lambda>e. e \<notin> set rows) t"
  unfolding sql_delete_def by (rule filter_cong) (use assms in \<open>auto simp: distinct_map inj_on_def\<close>)

interpretation excess: batch_source "excess_rows keep" for keep
proof
  fix t :: audit_table and b
  assume t: "distinct_ids t"
  let ?L = "py_sort_desc event_key t"
  have "distinct t" using t by (simp add: distinct_map)
  then have L: "distinct ?L" by (metis mset_eq_imp_distinct_iff mset_py_sort_desc)
  then show "distinct (excess_rows keep t)" by (simp add: excess_rows_def)
  show sub: "set (excess_rows keep t) \<subseteq> set t" by (metis excess_rows_def set_drop_subset set_py_sort_desc)
  have "set (take b (excess_rows keep t)) \<subseteq> set t" using sub set_take_subset by (rule subset_trans [rotated])
  then have "excess_rows keep (sql_delete (take b (excess_rows keep t)) t) = drop keep (filter (\<lambda>e. e \<notin> set (take b (drop keep ?L))) ?L)"
    using t by (simp add: sql_delete_filter excess_rows_def filter_py_sort_desc)
  then show "set (excess_rows keep (sql_delete (take b (excess_rows keep t)) t)) = set (drop b (excess_rows keep t))"
    using drop_filter_middle [OF L] by (simp add: excess_rows_def)
qed

lemma div_sum_le: "(a::nat) div b + c div b \<le> (a + c) div b"
proof (cases "b = 0")
  case False
  have "(a div b + c div b) * b \<le> a + c" by (simp add: add_mult_distrib add_mono)
  then show ?thesis using False by (simp add: less_eq_div_iff_mult_less_eq)
qed simp

lemma pg_evict_result:
  fixes cutoff :: int
  assumes "\<forall>xs. mset (scan xs) = mset xs" and "distinct_ids t"
  defines "live \<equiv> filter (\<lambda>e. cutoff \<le> ae_at e) t"
  obtains rounds where "pg_evict scan cutoff max_events batch_size t
      = (length t - min max_events (length live), rounds, filter (\<lambda>e. e \<in> set (take max_events (py_sort_desc event_key live))) live)"
    and "rounds \<le> length t div max batch_size 1 + 2"
proof -
  let ?b = "max batch_size 1" and ?E = "expired_rows cutoff t" and ?L = "py_sort_desc event_key live"
  have scan: "set (scan ?E) = set ?E" "length (scan ?E) = length ?E" using assms(1) by (metis set_mset_mset) (metis assms(1) size_mset)
  have live: "sql_delete (scan ?E) t = live"
    using assms(2) scan(1) by (subst sql_delete_filter) (auto simp: expired_rows_def live_def not_less intro!: filter_cong)
  have d: "distinct_ids live" using assms(2) by (simp add: live_def distinct_map inj_on_def)
  then have dL: "distinct ?L" by (metis distinct_map mset_eq_imp_distinct_iff mset_py_sort_desc)
  have len: "length ?E + length live = length t"
    by (simp add: expired_rows_def live_def not_less [symmetric] sum_length_filter_compl)
  note r1 = batch_source.evict_loop_result [OF expired_source [OF assms(1)] assms(2), of cutoff batch_size, unfolded live scan(2)]
  note r2 = excess.evict_loop_result [OF d, of max_events batch_size]
  have "e \<notin> set (excess_rows max_events live) \<longleftrightarrow> e \<in> set (take max_events ?L)" if "e \<in> set live" for e
  proof -
    have "set ?L = set (take max_events ?L) \<union> set (drop max_events ?L)" by (metis append_take_drop_id set_append)
    moreover have "set (take max_events ?L) \<inter> set (drop max_events ?L) = {}" using dL by (metis append_take_drop_id distinct_append)
    ultimately show ?thesis using that by (auto simp: excess_rows_def)
  qed
  then have final: "sql_delete (excess_rows max_events live) live = filter (\<lambda>e. e \<in> set (take max_events ?L)) live"
    using sql_delete_filter [OF d excess.select_rows [OF d]] by (auto intro!: filter_cong)
  have excess_len: "length (excess_rows max_events live) = length live - max_events" by (simp add: excess_rows_def)
  show thesis
  proof (rule that)
    show "pg_evict scan cutoff max_events batch_size t = (length t - min max_events (length live),
        length ?E div ?b + 1 + (length live - max_events) div ?b + 1, filter (\<lambda>e. e \<in> set (take max_events ?L)) live)"
      using r1 r2 final excess_len len by (auto simp: pg_evict_def min_def)
    have "length ?E div ?b + (length live - max_events) div ?b \<le> (length ?E + (length live - max_events)) div ?b" by (rule div_sum_le)
    also have "\<dots> \<le> length t div ?b" using len by (intro div_le_mono) simp
    finally show "length ?E div ?b + 1 + (length live - max_events) div ?b + 1 \<le> length t div ?b + 2" by simp
  qed
qed

lemma evict_agrees:
  assumes s: "audit_sim m t" and scan: "\<forall>xs. mset (scan xs) = mset xs" and "1 \<le> max_events"
    and "mem_evict cutoff max_events m = (n, m')" and "pg_evict scan cutoff max_events batch_size t = (k, rounds, t')"
  shows "n = k \<and> audit_sim m' t'"
proof -
  let ?live = "filter (\<lambda>e. cutoff \<le> ae_at e) t" and ?lm = "filter (\<lambda>e. cutoff \<le> ae_at e) (am_events m)"
  have t: "distinct_ids t" using s by (simp add: audit_sim_def)
  have same: "mset ?lm = mset ?live" using s by (simp add: audit_sim_def)
  have d: "distinct_ids ?live" using t by (simp add: distinct_map inj_on_def)
  let ?asc = "sort_key event_key ?live"
  have asc: "sort_key event_key ?lm = ?asc"
    using same by (rule sort_key_unique) (use event_key_inj [OF d] same in \<open>metis set_mset_mset\<close>)
  have desc: "py_sort_desc event_key ?live = rev ?asc"
  proof -
    have "sort_key event_key (rev ?live) = ?asc" by (rule sort_key_unique) (use event_key_inj [OF d] in simp_all)
    then show ?thesis by (simp add: py_sort_desc_def)
  qed
  let ?kept = "if max_events < length ?asc then py_last max_events ?asc else ?asc"
  have kept: "?kept = rev (take max_events (rev ?asc))" using assms(3) by (simp add: py_last_def take_rev)
  have dk: "distinct ?asc" using d by (simp add: distinct_map)
  have m': "am_events m' = ?kept" "am_ids m' = map ae_id ?kept" "n = length (am_events m) - length ?kept"
    using assms(4) asc by (auto simp: mem_evict_def Let_def)
  have t': "t' = filter (\<lambda>e. e \<in> set (take max_events (rev ?asc))) ?live" "k = length t - min max_events (length ?live)"
    using pg_evict_result [OF scan t, of cutoff max_events batch_size] assms(5) desc by (metis prod.inject)+
  have sub: "set (take max_events (rev ?asc)) \<subseteq> set ?live" using set_take_subset by (metis set_rev set_sort)
  have "set t' = set ?kept" using t'(1) sub unfolding kept by auto
  moreover have "distinct t'" unfolding t'(1) using t by (simp add: distinct_map)
  moreover have "distinct ?kept" unfolding kept using dk by simp
  ultimately have "mset ?kept = mset t'" by (metis set_eq_iff_mset_eq_distinct)
  moreover have "distinct_ids t'" unfolding t'(1) by (intro distinct_map_filter t)
  moreover have "length ?kept = min max_events (length ?live)" unfolding kept by simp
  ultimately show ?thesis using m' t'(2) \<open>set t' = set ?kept\<close> audit_sim_events(2) [OF s] by (auto simp: audit_sim_def)
qed

section \<open>Aggregates of the two stores\<close>

lemma bucket_key_inj: "inj bucket_key"
  by (auto simp: inj_def bucket_key_def prod_eq_iff)

lemma counter_cong: "mset xs = mset ys \<Longrightarrow> mset (counter xs) = mset (counter ys)"
proof -
  assume same: "mset xs = mset ys"
  then have "count_list xs = count_list ys" by (metis count_mset ext)
  moreover have "mset (remdups xs) = mset (remdups ys)"
    using same by (metis set_eq_iff_mset_remdups_eq set_mset_mset)
  ultimately show ?thesis by (simp add: counter_def)
qed

lemma sort_buckets_cong: "mset xs = mset ys \<Longrightarrow> sort_buckets xs = sort_buckets ys"
  unfolding sort_buckets_def by (rule sort_key_unique) (auto intro: inj_on_subset [OF bucket_key_inj])

lemma dget_counter: "dget (counter xs) x = (if x \<in> set xs then Some (count_list xs x) else None)"
proof -
  have "dget (map (\<lambda>y. (y, f y)) ys) x = (if x \<in> set ys then Some (f x) else None)" for ys and f :: "string \<Rightarrow> nat"
    by (induction ys) auto
  then show ?thesis by (simp add: counter_def)
qed

lemma bucket_count_counter: "bucket_count (counter xs) x = count_list xs x"
  by (simp add: bucket_count_def dget_counter)

lemma bucket_count_perm:
  assumes "mset d = mset (counter xs)"
  shows "bucket_count d x = count_list xs x"
proof -
  have keys: "distinct (map fst (counter xs))" by (simp add: counter_def comp_def)
  have "mset (map fst d) = mset (map fst (counter xs))" using assms by (metis mset_map)
  then have "dict_ok d" using keys by (metis dict_ok_def mset_eq_imp_distinct_iff)
  moreover have "set d = set (counter xs)" using assms by (metis set_mset_mset)
  moreover have "dict_ok (counter xs)" using keys by (simp add: dict_ok_def)
  ultimately have "dget d x = dget (counter xs) x" by (metis dict_ok_dget not_Some_eq)
  then show ?thesis using bucket_count_counter [of xs x] by (simp add: bucket_count_def)
qed

lemma count_list_filter: "P x \<Longrightarrow> count_list (filter P xs) x = count_list xs x"
  by (induction xs) auto

text \<open>The aggregates agree in every section but the list of actors.\<close>

lemma summaries_agree:
  assumes "audit_sim m t" and scan: "\<forall>xs. mset (scan xs) = mset xs"
  shows "(pg_summarize cc scan q t)\<lparr>su_actors := []\<rparr> = (mem_summarize cc q m)\<lparr>su_actors := []\<rparr>"
proof -
  let ?p = "sql_where (filter_clause q) t" and ?m = "filter (matches q) (am_events m)"
  have same: "mset ?p = mset ?m" using assms(1) by (simp add: sql_where_matches audit_sim_def)
  have len: "length ?p = length ?m" using same by (metis size_mset)
  have buckets: "sort_buckets (scan (counter (map f ?p))) = sort_buckets (counter (map f ?m))" for f
  proof (rule sort_buckets_cong)
    have "mset (map f ?p) = mset (map f ?m)" using same by (metis mset_map)
    then show "mset (scan (counter (map f ?p))) = mset (counter (map f ?m))" using scan counter_cong by metis
  qed
  have types: "count_list (map ae_type ?p) = count_list (map ae_type ?m)" using same by (metis count_mset ext mset_map)
  have "bucket_count (scan (counter (filter (\<lambda>ty. ty \<in> set DECISION_CHAIN_TYPES) (map ae_type ?p)))) x
      = bucket_count (counter (map ae_type ?m)) x" if "x \<in> set DECISION_CHAIN_TYPES" for x
    using that types scan by (simp add: bucket_count_perm bucket_count_counter count_list_filter)
  then show ?thesis using len buckets by (simp add: pg_summarize_def mem_summarize_def summarize_events_def Let_def)
qed

text \<open>
  The list of actors may differ: the statement of the Postgres store limits the groups to ten before any
  order is imposed, so the busiest actor can be missing.
\<close>

definition demo_actor :: "string \<Rightarrow> nat \<Rightarrow> audit_event" where
  "demo_actor u n =
     \<lparr>ae_id = u @ nat_digits n, ae_at = 0, ae_type = ''tool_invoked'', ae_service = ''s'', ae_request = ''r'', ae_subject = None,
      ae_username = Some u, ae_actor = None, ae_roles = None, ae_session = None, ae_outcome = ''success'', ae_mode = None, ae_role = None,
      ae_details = []\<rparr>"

definition demo_actors :: "audit_event list" where
  "demo_actors =
     map (\<lambda>u. demo_actor u 0) [''a'', ''b'', ''c'', ''d'', ''e'', ''f'', ''g'', ''h'', ''i'', ''j''] @ [demo_actor ''z'' 1, demo_actor ''z'' 2]"

definition no_filters :: audit_query where
  "no_filters =
     \<lparr>aq_username = None, aq_session = None, aq_request = None, aq_type = None, aq_service = None, aq_outcome = None, aq_mode = None,
      aq_role = None, aq_since = None, aq_until = None\<rparr>"

definition demo_codec :: cursor_codec where
  "demo_codec = \<lparr>cc_iso = int_str, cc_from_iso = int_of_str, cc_b64 = (\<lambda>s. s), cc_unb64 = Some\<rparr>"

lemma busiest_actor_missing:
  "hd (su_actors (mem_summarize demo_codec no_filters \<lparr>am_events = demo_actors, am_ids = map ae_id demo_actors\<rparr>)) = (''z'', 2)
   \<and> ''z'' \<notin> fst ` set (su_actors (pg_summarize demo_codec (\<lambda>x. x) no_filters demo_actors))"
  by code_simp

text \<open>With a cap of zero the memory store keeps every event inside the window, and the table none.\<close>

lemma evict_cap_zero:
  "mem_evict 0 0 \<lparr>am_events = demo_actors, am_ids = map ae_id demo_actors\<rparr> = (0, \<lparr>am_events = sort_key event_key demo_actors, am_ids = map ae_id (sort_key event_key demo_actors)\<rparr>)
   \<and> snd (snd (pg_evict (\<lambda>x. x) 0 0 1 demo_actors)) = []"
proof
  show "mem_evict 0 0 \<lparr>am_events = demo_actors, am_ids = map ae_id demo_actors\<rparr>
      = (0, \<lparr>am_events = sort_key event_key demo_actors, am_ids = map ae_id (sort_key event_key demo_actors)\<rparr>)"
    by code_simp
  have "distinct_ids demo_actors" by code_simp
  from pg_evict_result [OF _ this, of "\<lambda>x. x" 0 0 1] obtain r where
    "pg_evict (\<lambda>x. x) 0 0 1 demo_actors = (length demo_actors - min 0 (length (filter (\<lambda>e. 0 \<le> ae_at e) demo_actors)), r, [])"
    by auto
  then show "snd (snd (pg_evict (\<lambda>x. x) 0 0 1 demo_actors)) = []" by simp
qed

section \<open>Histories\<close>

lemma mem_add_ids: "set (am_ids (snd (mem_add es m))) = ae_id ` set es \<union> set (am_ids m)"
proof (induction es arbitrary: m)
  case (Cons e es)
  show ?case
  proof (cases "ae_id e \<in> set (am_ids m)")
    case True
    then show ?thesis using Cons.IH [of m] by auto
  next
    case False
    then show ?thesis using Cons.IH [of "m\<lparr>am_ids := ae_id e # am_ids m, am_events := am_events m @ [e]\<rparr>"] by (simp add: split_beta)
  qed
qed simp

lemma mem_add_idle: "ae_id ` set es \<subseteq> set (am_ids m) \<Longrightarrow> mem_add es m = (0, m)"
  by (induction es) auto

lemma mem_add_again: "mem_add es (snd (mem_add es m)) = (0, snd (mem_add es m))"
  by (rule mem_add_idle) (simp add: mem_add_ids)

text \<open>With all groups inside the limit and no empty username, the list of actors agrees too.\<close>

lemma actors_agree:
  assumes "audit_sim m t" and scan: "\<forall>xs. mset (scan xs) = mset xs"
    and few: "length (su_actors (pg_summarize cc scan q t)) < TOP_ACTORS_LIMIT"
    and named: "[] \<notin> fst ` set (su_actors (pg_summarize cc scan q t))"
  shows "su_actors (mem_summarize cc q m) = su_actors (pg_summarize cc scan q t)"
proof -
  let ?p = "usernames (sql_where (filter_clause q) t)" and ?m = "usernames (filter (matches q) (am_events m))"
  have names: "mset ?p = mset ?m"
    using assms(1) by (simp add: sql_where_matches audit_sim_def usernames_def map_filter_def)
  have len: "length (scan (counter ?p)) < TOP_ACTORS_LIMIT"
    using few by (simp add: pg_summarize_def Let_def sort_buckets_def min_def split: if_split_asm)
  then have p: "su_actors (pg_summarize cc scan q t) = sort_buckets (scan (counter ?p))" by (simp add: pg_summarize_def Let_def)
  have "set (scan (counter ?p)) = set (counter ?p)" using scan by (metis set_mset_mset)
  then have "[] \<notin> set ?p" using named by (auto simp: p sort_buckets_def counter_def image_iff)
  then have "filter (\<lambda>u. u \<noteq> []) ?m = ?m" using names by (metis (mono_tags, lifting) filter_True set_mset_mset)
  moreover have same: "mset (scan (counter ?p)) = mset (counter ?m)" using scan counter_cong [OF names] by simp
  moreover have "length (sort_buckets (counter ?m)) < TOP_ACTORS_LIMIT"
    using len same by (metis length_sort size_mset sort_buckets_def)
  ultimately show ?thesis
    using sort_buckets_cong [OF same] by (simp add: p mem_summarize_def summarize_events_def)
qed

datatype audit_op = AddEvents "audit_event list" | QueryEvents audit_query "string option" nat | SummarizeEvents audit_query
  | CountEvents | EvictEvents int nat nat

datatype audit_out = Added nat | Paged "store_error + audit_page" | Summed audit_summary | Counted nat | Evicted nat

fun audit_mem_step :: "cursor_codec \<Rightarrow> audit_op \<Rightarrow> mem_audit \<Rightarrow> audit_out \<times> mem_audit" where
  "audit_mem_step cc (AddEvents es) m = (case mem_add es m of (n, m') \<Rightarrow> (Added n, m'))"
| "audit_mem_step cc (QueryEvents q c n) m = (Paged (mem_query cc q c n m), m)"
| "audit_mem_step cc (SummarizeEvents q) m = (Summed (mem_summarize cc q m), m)"
| "audit_mem_step cc CountEvents m = (Counted (mem_count m), m)"
| "audit_mem_step cc (EvictEvents cutoff cap batch) m = (case mem_evict cutoff cap m of (n, m') \<Rightarrow> (Evicted n, m'))"

text \<open>\<open>scan\<close> orders the rows of an unordered statement and \<open>groups\<close> its groups.\<close>

fun audit_pg_step ::
  "cursor_codec \<Rightarrow> (audit_event list \<Rightarrow> audit_event list) \<Rightarrow> (bucket list \<Rightarrow> bucket list) \<Rightarrow> audit_op \<Rightarrow> audit_table \<Rightarrow>
   audit_out \<times> audit_table" where
  "audit_pg_step cc scan groups (AddEvents es) t = (case pg_add es t of (n, t') \<Rightarrow> (Added n, t'))"
| "audit_pg_step cc scan groups (QueryEvents q c n) t = (Paged (pg_query cc q c n t), t)"
| "audit_pg_step cc scan groups (SummarizeEvents q) t = (Summed (pg_summarize cc groups q t), t)"
| "audit_pg_step cc scan groups CountEvents t = (Counted (pg_count t), t)"
| "audit_pg_step cc scan groups (EvictEvents cutoff cap batch) t = (case pg_evict scan cutoff cap batch t of (n, r, t') \<Rightarrow> (Evicted n, t'))"

fun run_ops :: "(audit_op \<Rightarrow> 's \<Rightarrow> audit_out \<times> 's) \<Rightarrow> audit_op list \<Rightarrow> 's \<Rightarrow> audit_out list \<times> 's" where
  "run_ops step [] s = ([], s)"
| "run_ops step (op # ops) s = (case step op s of (out, s') \<Rightarrow> (case run_ops step ops s' of (outs, s'') \<Rightarrow> (out # outs, s'')))"

definition positive_cap :: "audit_op \<Rightarrow> bool" where
  "positive_cap op = (case op of EvictEvents _ cap _ \<Rightarrow> 1 \<le> cap | _ \<Rightarrow> True)"

text \<open>
  Two answers agree: they are equal, or both are summaries that are equal but for the actors, and in
  these too when the table's answer lists fewer than ten of them and no empty username.
\<close>

definition same_summary :: "audit_summary \<Rightarrow> audit_summary \<Rightarrow> bool" where
  "same_summary a b \<longleftrightarrow> a\<lparr>su_actors := []\<rparr> = b\<lparr>su_actors := []\<rparr>
     \<and> (length (su_actors b) < TOP_ACTORS_LIMIT \<and> [] \<notin> fst ` set (su_actors b) \<longrightarrow> a = b)"

definition same_answer :: "audit_out \<Rightarrow> audit_out \<Rightarrow> bool" where
  "same_answer x y \<longleftrightarrow> (case (x, y) of (Summed a, Summed b) \<Rightarrow> same_summary a b | _ \<Rightarrow> x = y)"

lemma same_answer_refl [simp]: "same_answer x x"
  by (simp add: same_answer_def same_summary_def split: audit_out.split)

lemma summed_agrees:
  assumes "audit_sim m t" and "\<forall>xs. mset (groups xs) = mset xs"
  shows "same_answer (Summed (mem_summarize cc q m)) (Summed (pg_summarize cc groups q t))"
proof -
  let ?a = "mem_summarize cc q m" and ?b = "pg_summarize cc groups q t"
  have rest: "?a\<lparr>su_actors := []\<rparr> = ?b\<lparr>su_actors := []\<rparr>" using summaries_agree [OF assms] by simp
  moreover have "?a = ?b" if "su_actors ?a = su_actors ?b"
    using rest that by (cases ?a, cases ?b) simp
  ultimately show ?thesis using actors_agree [OF assms] by (auto simp: same_answer_def same_summary_def)
qed

lemma step_agrees:
  assumes "audit_sim m t" and "\<forall>xs. mset (scan xs) = mset xs" and "\<forall>xs. mset (groups xs) = mset xs" and "positive_cap op"
    and "audit_mem_step cc op m = (o1, m')" and "audit_pg_step cc scan groups op t = (o2, t')"
  shows "same_answer o1 o2 \<and> audit_sim m' t'"
proof (cases op)
  case (AddEvents es)
  then have "o1 = o2 \<and> audit_sim m' t'" using assms add_agrees [OF assms(1)] by (auto split: prod.splits)
  then show ?thesis by auto
next
  case (QueryEvents q c n)
  then show ?thesis using assms query_agrees [OF assms(1)] by auto
next
  case (SummarizeEvents q)
  then show ?thesis using assms summed_agrees [OF assms(1,3)] by auto
next
  case CountEvents
  then show ?thesis using assms audit_sim_events(2) [OF assms(1)] by (auto simp: mem_count_def pg_count_def)
next
  case (EvictEvents cutoff cap batch)
  then have "o1 = o2 \<and> audit_sim m' t'"
    using assms evict_agrees [OF assms(1,2)] by (auto simp: positive_cap_def split: prod.splits)
  then show ?thesis by auto
qed

lemma run_agrees:
  assumes "audit_sim m t" and "\<forall>xs. mset (scan xs) = mset xs" and "\<forall>xs. mset (groups xs) = mset xs" and "list_all positive_cap ops"
    and "run_ops (audit_mem_step cc) ops m = (outs, m')" and "run_ops (audit_pg_step cc scan groups) ops t = (outs', t')"
  shows "list_all2 same_answer outs outs' \<and> audit_sim m' t'"
  using assms
proof (induction ops arbitrary: m t outs outs')
  case (Cons op ops)
  obtain o1 m1 o2 t1 where s: "audit_mem_step cc op m = (o1, m1)" "audit_pg_step cc scan groups op t = (o2, t1)" by (metis surj_pair)
  have "same_answer o1 o2 \<and> audit_sim m1 t1" using step_agrees [OF Cons.prems(1-3) _ s] Cons.prems(4) by simp
  then show ?case using Cons.IH [of m1 t1] Cons.prems s by (auto split: prod.splits)
qed simp

lemma mem_evict_no_cap:
  assumes "audit_sim m t"
  shows "mset (am_events (snd (mem_evict cutoff 0 m))) = mset (filter (\<lambda>e. cutoff \<le> ae_at e) t)"
proof -
  have "am_events (snd (mem_evict cutoff 0 m)) = sort_key event_key (filter (\<lambda>e. cutoff \<le> ae_at e) (am_events m))"
    by (simp add: mem_evict_def Let_def py_last_def)
  then show ?thesis using assms by (simp add: audit_sim_def)
qed

text \<open>
  C34. The two stores of audit events agree. Whatever sequence of batches, pages, summaries, counts and
  evictions with a positive cap is run, and in whatever order the database visits rows and groups, both
  hold the same events, each id once, and give the same answers, except that a summary's list of actors
  may differ when the table lists ten of them or an empty username. A repeated batch adds nothing. After
  an eviction the table holds no event older than the cutoff, the events that stay are the newest of those
  in the window up to the cap, and the batched deletes end after at most one statement per full batch and
  two more. The cap of zero is where the stores part: the table keeps nothing, the memory store every
  event in the window.
\<close>

theorem audit_stores_agree:
  assumes "\<forall>xs. mset (scan xs) = mset xs" and "\<forall>xs. mset (groups xs) = mset xs" and "list_all positive_cap ops"
    and "run_ops (audit_mem_step cc) ops new_mem_audit = (outs, m)" and "run_ops (audit_pg_step cc scan groups) ops [] = (outs', t)"
  shows "list_all2 same_answer outs outs' \<and> mset (am_events m) = mset t \<and> distinct (map ae_id t)
    \<and> (\<forall>es. mem_add es (snd (mem_add es m)) = (0, snd (mem_add es m)))
    \<and> (\<forall>cutoff cap batch. \<exists>rounds. pg_evict scan cutoff cap batch t
         = (length t - min cap (length (filter (\<lambda>e. cutoff \<le> ae_at e) t)), rounds,
            filter (\<lambda>e. e \<in> set (take cap (py_sort_desc event_key (filter (\<lambda>e. cutoff \<le> ae_at e) t)))) (filter (\<lambda>e. cutoff \<le> ae_at e) t))
         \<and> rounds \<le> length t div max batch 1 + 2)
    \<and> (\<forall>cutoff. mset (am_events (snd (mem_evict cutoff 0 m))) = mset (filter (\<lambda>e. cutoff \<le> ae_at e) t))"
proof -
  have "audit_sim new_mem_audit []" by (simp add: audit_sim_def new_mem_audit_def)
  from run_agrees [OF this assms] have agree: "list_all2 same_answer outs outs'" "audit_sim m t" by auto
  have "\<forall>es. mem_add es (snd (mem_add es m)) = (0, snd (mem_add es m))" using mem_add_again by blast
  moreover have "\<exists>rounds. pg_evict scan cutoff cap batch t
         = (length t - min cap (length (filter (\<lambda>e. cutoff \<le> ae_at e) t)), rounds,
            filter (\<lambda>e. e \<in> set (take cap (py_sort_desc event_key (filter (\<lambda>e. cutoff \<le> ae_at e) t)))) (filter (\<lambda>e. cutoff \<le> ae_at e) t))
         \<and> rounds \<le> length t div max batch 1 + 2" for cutoff cap batch
    using pg_evict_result [OF assms(1), of t cutoff cap batch] agree(2) unfolding audit_sim_def by metis
  ultimately show ?thesis using agree mem_evict_no_cap [OF agree(2)] by (simp add: audit_sim_def)
qed

theorem audit_stores_agree_witness:
  "list_all2 same_answer
     (fst (run_ops (audit_mem_step demo_codec) [AddEvents demo_actors, SummarizeEvents no_filters, EvictEvents 0 3 1, CountEvents] new_mem_audit))
     (fst (run_ops (audit_pg_step demo_codec (\<lambda>x. x) (\<lambda>x. x)) [AddEvents demo_actors, SummarizeEvents no_filters, EvictEvents 0 3 1, CountEvents] []))"
proof -
  let ?ops = "[AddEvents demo_actors, SummarizeEvents no_filters, EvictEvents 0 3 1, CountEvents]"
  have "list_all positive_cap ?ops" by (simp add: positive_cap_def)
  from audit_stores_agree [OF _ _ this, of "\<lambda>x. x" "\<lambda>x. x" demo_codec] show ?thesis by (metis prod.collapse)
qed

end
