(* ===== verification/Audit_Export.thy ===== *)
theory Audit_Export
  imports Audit_Store
begin

text \<open>
  The routes of the audit service (\<open>audit_service/api/routes/ingest.py\<close>, \<open>query.py\<close>, \<open>summary.py\<close>, \<open>export.py\<close>), the
  authentication of their callers (\<open>services/ingest_auth.py\<close>, the registries of \<open>core/config.py\<close>) and the retention
  sweep (\<open>services/retention.py\<close>). The store is an argument of the routes, with what they rely on as a locale
  that both stores satisfy. The loop of the export has fuel, and a result says that it is enough.
\<close>

section \<open>Callers\<close>

text \<open>The two registries are lists of pairs; entries are split at the first equals sign.\<close>

definition parse_pairs :: "string \<Rightarrow> (string \<times> string) list" where
  "parse_pairs raw =
     List.map_filter (\<lambda>entry. let e = strip entry; a = before (CHR ''='') e; b = after (CHR ''='') e
                              in if e = [] \<or> a = [] \<or> b = [] then None else Some (a, b)) (split_on (CHR '','') raw)"

definition parse_positive_int :: "string \<Rightarrow> int option" where
  "parse_positive_int raw = (case int_of_str raw of None \<Rightarrow> None | Some n \<Rightarrow> if n \<le> 0 then None else Some n)"

record audit_settings =
  au_clients :: "(string \<times> string) list"
  au_workload_issuer :: string
  au_workload_audience :: string
  au_workload_clients :: "(string \<times> string) list"
  au_retention_days :: int
  au_max_events :: nat
  au_batch_size :: nat
  au_max_batch :: nat
  au_export_max_rows :: nat

record audit_env =
  an_workload_jwt :: "string \<Rightarrow> string \<Rightarrow> string \<Rightarrow> jwt_outcome"
  an_b64 :: "string \<Rightarrow> string option"
  an_codec :: cursor_codec
  an_instant :: "val \<Rightarrow> int option"
  an_now :: int

text \<open>\<open>Inl None\<close> is an exception that is not an \<open>IngestAuthError\<close>.\<close>

definition authenticate_static :: "audit_settings \<Rightarrow> string \<Rightarrow> string \<Rightarrow> string option + string" where
  "authenticate_static st client_id secret =
     (if client_id = [] \<or> secret = [] then Inl (Some ''service credential required'')
      else if (client_id, secret) \<in> set (au_clients st) then Inr client_id
      else Inl (Some ''invalid service credential''))"

definition authenticate_workload :: "audit_env \<Rightarrow> audit_settings \<Rightarrow> string \<Rightarrow> string option + string" where
  "authenticate_workload env st token =
     (if au_workload_issuer st = [] then Inl (Some ''workload identity not enabled'')
      else case an_workload_jwt env (au_workload_issuer st) (au_workload_audience st) token of
             JwtExpired \<Rightarrow> Inl (Some ''workload token expired'')
           | JwtInvalid \<Rightarrow> Inl (Some ''workload token invalid'')
           | JwtRaised \<Rightarrow> Inl None
           | JwtOk jc \<Rightarrow>
               (case dget (au_workload_clients st) (str_of_val (get_default jc ''sub'' (VStr []))) of
                  None \<Rightarrow> Inl (Some ''workload subject not registered'')
                | Some c \<Rightarrow> Inr c))"

definition parse_basic :: "audit_env \<Rightarrow> string \<Rightarrow> string \<times> string" where
  "parse_basic env v = (case an_b64 env (strip v) of None \<Rightarrow> ([], []) | Some d \<Rightarrow> (before (CHR '':'') d, after (CHR '':'') d))"

definition authenticate_caller :: "audit_env \<Rightarrow> audit_settings \<Rightarrow> string \<Rightarrow> string option + string" where
  "authenticate_caller env st header =
     (if take 7 (lower header) = ''bearer '' then authenticate_workload env st (strip (drop 7 header))
      else if take 6 (lower header) = ''basic '' then (case parse_basic env (drop 6 header) of (i, s) \<Rightarrow> authenticate_static st i s)
      else Inl (Some ''service credential required''))"

section \<open>The store behind the routes\<close>

text \<open>A store of events: what it holds, its pages, and adding a batch.\<close>

record 's audit_backend =
  bk_add :: "audit_event list \<Rightarrow> 's \<Rightarrow> nat \<times> 's"
  bk_query :: "cursor_codec \<Rightarrow> audit_query \<Rightarrow> string option \<Rightarrow> nat \<Rightarrow> 's \<Rightarrow> store_error + audit_page"
  bk_summarize :: "cursor_codec \<Rightarrow> audit_query \<Rightarrow> 's \<Rightarrow> audit_summary"
  bk_evict :: "int \<Rightarrow> nat \<Rightarrow> nat \<Rightarrow> 's \<Rightarrow> nat \<times> 's"
  bk_count :: "'s \<Rightarrow> nat"

definition mem_backend :: "mem_audit audit_backend" where
  "mem_backend =
     \<lparr>bk_add = mem_add, bk_query = mem_query, bk_summarize = mem_summarize, bk_evict = (\<lambda>cutoff cap _. mem_evict cutoff cap), bk_count = mem_count\<rparr>"

definition pg_backend :: "(audit_event list \<Rightarrow> audit_event list) \<Rightarrow> (bucket list \<Rightarrow> bucket list) \<Rightarrow> audit_table audit_backend" where
  "pg_backend scan groups =
     \<lparr>bk_add = pg_add, bk_query = pg_query, bk_summarize = (\<lambda>cc. pg_summarize cc groups),
      bk_evict = (\<lambda>cutoff cap batch t. case pg_evict scan cutoff cap batch t of (n, _, t') \<Rightarrow> (n, t')), bk_count = pg_count\<rparr>"

section \<open>Routes\<close>

datatype 'a audit_response = AuditOk int 'a | AuditRefused int string | AuditCrashed

definition with_caller :: "audit_env \<Rightarrow> audit_settings \<Rightarrow> string \<Rightarrow> 'a audit_response \<Rightarrow> 'a audit_response" where
  "with_caller env st header k =
     (case authenticate_caller env st header of
        Inl (Some detail) \<Rightarrow> AuditRefused 401 detail
      | Inl None \<Rightarrow> AuditCrashed
      | Inr _ \<Rightarrow> k)"

text \<open>\<open>ingest_events\<close>: the body is \<open>None\<close> when it is no JSON; the answer counts accepted and inserted events.\<close>

definition ingest_events ::
  "audit_env \<Rightarrow> audit_settings \<Rightarrow> 's audit_backend \<Rightarrow> string \<Rightarrow> val option \<Rightarrow> 's \<Rightarrow> (nat \<times> nat) audit_response \<times> 's" where
  "ingest_events env st bk header body s =
     (case authenticate_caller env st header of
        Inl (Some detail) \<Rightarrow> (AuditRefused 401 detail, s)
      | Inl None \<Rightarrow> (AuditCrashed, s)
      | Inr _ \<Rightarrow>
          (case body of
             None \<Rightarrow> (AuditRefused 400 ''invalid JSON body'', s)
           | Some b \<Rightarrow>
               (case validate_batch (an_instant env) b of
                  None \<Rightarrow> (AuditRefused 400 ''invalid audit batch'', s)
                | Some es \<Rightarrow>
                    if au_max_batch st < length es then
                      (AuditRefused 400 (''batch exceeds AUDIT_MAX_BATCH ('' @ int_str (int (au_max_batch st)) @ '')''), s)
                    else (case bk_add bk es s of (n, s') \<Rightarrow> (AuditOk 202 (length es, n), s')))))"

definition query_events ::
  "audit_env \<Rightarrow> audit_settings \<Rightarrow> 's audit_backend \<Rightarrow> string \<Rightarrow> audit_query \<Rightarrow> string option \<Rightarrow> nat \<Rightarrow> 's \<Rightarrow> audit_page audit_response" where
  "query_events env st bk header q cursor limit s =
     with_caller env st header
       (if (case cursor of None \<Rightarrow> False | Some c \<Rightarrow> decode_cursor (an_codec env) c = None) then AuditRefused 400 ''invalid cursor''
        else case bk_query bk (an_codec env) q cursor limit s of Inl _ \<Rightarrow> AuditCrashed | Inr page \<Rightarrow> AuditOk 200 page)"

text \<open>The summary route has no parameter for the agent role.\<close>

definition summary_route :: "audit_env \<Rightarrow> audit_settings \<Rightarrow> 's audit_backend \<Rightarrow> string \<Rightarrow> audit_query \<Rightarrow> 's \<Rightarrow> audit_summary audit_response" where
  "summary_route env st bk header q s =
     with_caller env st header (AuditOk 200 (bk_summarize bk (an_codec env) (q\<lparr>aq_role := None\<rparr>) s))"

definition EXPORT_PAGE_SIZE :: nat where
  "EXPORT_PAGE_SIZE = 200"

fun export_loop ::
  "(string option \<Rightarrow> nat \<Rightarrow> store_error + audit_page) \<Rightarrow> nat \<Rightarrow> nat \<Rightarrow> audit_event list \<Rightarrow> string option \<Rightarrow> (store_error + audit_event list \<times> bool) option" where
  "export_loop query cap 0 es cursor = None"
| "export_loop query cap (Suc fuel) es cursor =
     (if \<not> length es < cap then Some (Inr (es, False))
      else case query cursor (min EXPORT_PAGE_SIZE (cap - length es)) of
             Inl e \<Rightarrow> Some (Inl e)
           | Inr page \<Rightarrow>
               (let es' = es @ ap_events page in
                case ap_next page of
                  None \<Rightarrow> Some (Inr (es', False))
                | Some c \<Rightarrow> if cap \<le> length es' then Some (Inr (es', True)) else export_loop query cap fuel es' (Some c)))"

text \<open>The CSV lines: a field is quoted when it holds a comma, a quote or a line break.\<close>

definition csv_field :: "string \<Rightarrow> string" where
  "csv_field s =
     (let quote = CHR 0x22
      in if set s \<inter> {CHR '','', quote, CHR 0x0D, CHR 0x0A} = {} then s
         else quote # concat (map (\<lambda>c. if c = quote then [quote, quote] else [c]) s) @ [quote])"

definition csv_line :: "string list \<Rightarrow> string" where
  "csv_line values = join_with '','' (map csv_field values) @ [CHR 0x0D, CHR 0x0A]"

definition CSV_COLUMNS :: "string list" where
  "CSV_COLUMNS =
     [''occurred_at'', ''event_type'', ''service'', ''outcome'', ''username'', ''actor'', ''subject'', ''session_id'', ''request_id'', ''details'']"

definition column :: "string option \<Rightarrow> string" where
  "column s = (case s of None \<Rightarrow> [] | Some x \<Rightarrow> x)"

definition event_row :: "(int \<Rightarrow> string) \<Rightarrow> audit_event \<Rightarrow> string" where
  "event_row stamp e =
     csv_line [stamp (ae_at e), ae_type e, ae_service e, ae_outcome e, column (ae_username e), column (ae_actor e), column (ae_subject e),
               column (ae_session e), ae_request e, canonical_json (VDict (ae_details e))]"

record audit_export =
  ex_rows :: nat
  ex_truncated :: bool
  ex_lines :: "string list"

definition export_events ::
  "audit_env \<Rightarrow> (int \<Rightarrow> string) \<Rightarrow> audit_settings \<Rightarrow> 's audit_backend \<Rightarrow> nat \<Rightarrow> string \<Rightarrow> audit_query \<Rightarrow> 's \<Rightarrow> audit_export audit_response option" where
  "export_events env stamp st bk fuel header q s =
     (case authenticate_caller env st header of
        Inl (Some detail) \<Rightarrow> Some (AuditRefused 401 detail)
      | Inl None \<Rightarrow> Some AuditCrashed
      | Inr _ \<Rightarrow>
          (case export_loop (\<lambda>c n. bk_query bk (an_codec env) q c n s) (au_export_max_rows st) fuel [] None of
             None \<Rightarrow> None
           | Some (Inl _) \<Rightarrow> Some AuditCrashed
           | Some (Inr (es, truncated)) \<Rightarrow>
               Some (AuditOk 200 \<lparr>ex_rows = length es, ex_truncated = truncated,
                                  ex_lines = csv_line CSV_COLUMNS # map (event_row stamp) es\<rparr>)))"

section \<open>Retention\<close>

definition DAY :: int where
  "DAY = 86400000000"

definition evict_once :: "audit_env \<Rightarrow> audit_settings \<Rightarrow> 's audit_backend \<Rightarrow> 's \<Rightarrow> nat \<times> nat \<times> 's" where
  "evict_once env st bk s =
     (case bk_evict bk (an_now env - au_retention_days st * DAY) (au_max_events st) (au_batch_size st) s of
        (n, s') \<Rightarrow> (n, bk_count bk s', s'))"

section \<open>The contract of a store\<close>

text \<open>The cursor codec: what the coders promise, and that no separator stands in a timestamp.\<close>

definition codec_ok :: "cursor_codec \<Rightarrow> bool" where
  "codec_ok cc \<longleftrightarrow>
     (\<forall>s. cc_unb64 cc (cc_b64 cc s) = Some s) \<and> (\<forall>t. cc_from_iso cc (cc_iso cc t) = Some t \<and> CHR ''|'' \<notin> set (cc_iso cc t))"

lemma decode_encode_cursor:
  assumes "codec_ok cc" and "i \<noteq> []"
  shows "decode_cursor cc (encode_cursor cc t i) = Some (t, i)"
proof -
  have "before (CHR ''|'') (cc_iso cc t @ ''|'' @ i) = cc_iso cc t" "after (CHR ''|'') (cc_iso cc t @ ''|'' @ i) = i"
    using assms(1) by (auto simp: before_def after_def codec_ok_def takeWhile_append dropWhile_append)
  then show ?thesis using assms by (simp add: decode_cursor_def encode_cursor_def codec_ok_def)
qed

text \<open>A page that ends in an event without an id has a cursor that no request can use.\<close>

lemma empty_id_cursor:
  assumes "codec_ok cc"
  shows "decode_cursor cc (encode_cursor cc t []) = None"
proof -
  have "after (CHR ''|'') (cc_iso cc t @ ''|'') = []"
    using assms by (auto simp: after_def codec_ok_def dropWhile_append)
  then show ?thesis using assms by (simp add: decode_cursor_def encode_cursor_def codec_ok_def split: Option.bind_splits)
qed

lemma last_take_drop:
  assumes "0 < n" and "k + n \<le> length xs"
  shows "last (take n (drop k xs)) = xs ! (k + n - 1)"
proof -
  have "take n (drop k xs) \<noteq> []" and "length (take n (drop k xs)) = n" using assms by auto
  then show ?thesis using assms by (simp add: last_conv_nth)
qed

locale event_store =
  fixes query :: "cursor_codec \<Rightarrow> audit_query \<Rightarrow> string option \<Rightarrow> nat \<Rightarrow> 's \<Rightarrow> store_error + audit_page"
    and held :: "'s \<Rightarrow> audit_event list"
  assumes first_page: "query cc q None n s = Inr (page_of cc n (newest q (held s)))"
    and next_page: "decode_cursor cc c = Some k \<Longrightarrow> query cc q (Some c) n s = Inr (page_of cc n (filter (\<lambda>e. event_key e < k) (newest q (held s))))"
begin

lemma page_at:
  assumes "codec_ok cc" and "distinct_ids (held s)" and "\<forall>e \<in> set (held s). ae_id e \<noteq> []" and "R = newest q (held s)" and "k \<le> length R"
    and "cursor = (if k = 0 then None else Some (encode_cursor cc (ae_at (R ! (k - 1))) (ae_id (R ! (k - 1)))))"
  shows "query cc q cursor n s = Inr (page_of cc n (drop k R))"
proof (cases "k = 0")
  case False
  let ?e = "R ! (k - 1)"
  have at: "k - 1 < length R" using assms(5) False by simp
  have R: "set R \<subseteq> set (held s)" unfolding assms(4) newest_def by auto
  have "ae_id ?e \<noteq> []" using at R assms(3) by (meson nth_mem subsetD)
  note decoded = decode_encode_cursor [OF assms(1) this]
  have order: "event_key (R ! j) < event_key (R ! i)" if "i < j" "j < length R" for i j
    using sorted_wrt_nth_less [OF newest_strict [OF assms(2), of q]] that unfolding assms(4) by blast
  have later: "filter (\<lambda>e. event_key e < event_key ?e) (drop k R) = drop k R"
  proof (rule filter_True, rule ballI)
    fix e assume "e \<in> set (drop k R)"
    then obtain j where "e = R ! (k + j)" "k + j < length R" by (auto simp: in_set_conv_nth)
    then show "event_key e < event_key ?e" using order [of "k - 1" "k + j"] False by simp
  qed
  have earlier: "filter (\<lambda>e. event_key e < event_key ?e) (take k R) = []"
  proof (rule filter_False, rule ballI)
    fix e assume "e \<in> set (take k R)"
    then obtain j where "e = R ! j" "j < k" using assms(5) by (auto simp: in_set_conv_nth)
    then show "\<not> event_key e < event_key ?e" using order [of j "k - 1"] at less_asym by (cases "j = k - 1") force+
  qed
  have "filter (\<lambda>e. event_key e < event_key ?e) R = drop k R" using later earlier by (metis append_Nil append_take_drop_id filter_append)
  then show ?thesis using next_page [OF decoded, where q = q and n = n and s = s] False assms(4,6) by (simp add: event_key_def)
qed (use first_page assms(4,6) in simp)

lemma export_collects:
  assumes "codec_ok cc" and "distinct_ids (held s)" and "\<forall>e \<in> set (held s). ae_id e \<noteq> []" and "R = newest q (held s)"
    and "k \<le> length R" and "k < cap" and "cap - k \<le> fuel"
    and "cursor = (if k = 0 then None else Some (encode_cursor cc (ae_at (R ! (k - 1))) (ae_id (R ! (k - 1)))))"
  shows "export_loop (\<lambda>c n. query cc q c n s) cap fuel (take k R) cursor = Some (Inr (take cap R, cap < length R))"
  using assms(5-8)
proof (induction fuel arbitrary: k cursor)
  case (Suc fuel)
  define n where "n = min EXPORT_PAGE_SIZE (cap - k)"
  have pos: "0 < n" and fits: "k + n \<le> cap" using Suc.prems(2) by (simp_all add: n_def EXPORT_PAGE_SIZE_def)
  note page = page_at [OF assms(1-4) Suc.prems(1,4), of n]
  have len: "length (take k R) = k" using Suc.prems(1) by simp
  have more: "take k R @ take n (drop k R) = take (k + n) R" by (simp add: take_add)
  have step: "export_loop (\<lambda>c n. query cc q c n s) cap (Suc fuel) (take k R) cursor
      = (case ap_next (page_of cc n (drop k R)) of
           None \<Rightarrow> Some (Inr (take (k + n) R, False))
         | Some c \<Rightarrow> if cap \<le> length (take (k + n) R) then Some (Inr (take (k + n) R, True))
                     else export_loop (\<lambda>c n. query cc q c n s) cap fuel (take (k + n) R) (Some c))"
    unfolding export_loop.simps(2) len n_def [symmetric] page using Suc.prems(2) more by (simp add: page_of_def Let_def)
  show ?case
  proof (cases "k + n < length R")
    case False
    then have "ap_next (page_of cc n (drop k R)) = None" by (simp add: page_of_def Let_def)
    moreover have "take (k + n) R = take cap R" "\<not> cap < length R" using False fits by auto
    ultimately show ?thesis unfolding step by simp
  next
    case True
    let ?c = "encode_cursor cc (ae_at (R ! (k + n - 1))) (ae_id (R ! (k + n - 1)))"
    have "last (take n (drop k R)) = R ! (k + n - 1)" using True pos by (intro last_take_drop) simp_all
    then have next_some: "ap_next (page_of cc n (drop k R)) = Some ?c" using True pos by (simp add: page_of_def Let_def)
    show ?thesis
    proof (cases "cap \<le> k + n")
      case full: True
      then have "k + n = cap" using fits by simp
      then show ?thesis unfolding step next_some using True by simp
    next
      case go: False
      have "export_loop (\<lambda>c n. query cc q c n s) cap fuel (take (k + n) R) (Some ?c) = Some (Inr (take cap R, cap < length R))"
        by (rule Suc.IH) (use True go Suc.prems(3) pos in auto)
      then show ?thesis unfolding step next_some using go True by simp
    qed
  qed
qed simp

end

interpretation mem: event_store mem_query am_events
  by unfold_locales (simp_all add: mem_query_newest)

interpretation pg: event_store pg_query "\<lambda>t. t"
  by unfold_locales (simp_all add: pg_query_newest)

text \<open>The document an export should be: all matching events, newest first, up to the limit.\<close>

definition export_document :: "(int \<Rightarrow> string) \<Rightarrow> nat \<Rightarrow> audit_query \<Rightarrow> audit_event list \<Rightarrow> audit_export" where
  "export_document stamp cap q es =
     \<lparr>ex_rows = min cap (length (filter (matches q) es)), ex_truncated = (cap < length (filter (matches q) es)),
      ex_lines = csv_line CSV_COLUMNS # map (event_row stamp) (take cap (newest q es))\<rparr>"

text \<open>
  C5. An export ends, and its headers tell the truth. For a registered caller and a positive row limit, as
  many rounds as the limit are enough, and both stores give the same document: the header line and the
  newest matching events, newest first, each once, up to the limit; it is marked as truncated exactly when
  more events match, so an export that is not marked holds every matching event. Every event needs an id,
  since a page cannot be continued after one without.
\<close>

theorem audit_export_complete:
  assumes "codec_ok (an_codec env)" and "audit_sim m t" and "\<forall>e \<in> set t. ae_id e \<noteq> []"
    and "authenticate_caller env st header = Inr client" and "1 \<le> au_export_max_rows st" and "au_export_max_rows st \<le> fuel"
  shows "export_events env stamp st (pg_backend scan groups) fuel header q t = Some (AuditOk 200 (export_document stamp (au_export_max_rows st) q t))
    \<and> export_events env stamp st mem_backend fuel header q m = Some (AuditOk 200 (export_document stamp (au_export_max_rows st) q t))
    \<and> sorted_wrt (\<lambda>a b. event_key b < event_key a) (newest q t) \<and> set (newest q t) = {e \<in> set t. matches q e}"
proof -
  let ?cc = "an_codec env" and ?cap = "au_export_max_rows st"
  have t: "distinct_ids t" using assms(2) by (simp add: audit_sim_def)
  note m = audit_sim_events [OF assms(2)]
  have pos: "0 < ?cap" "?cap - 0 \<le> fuel" using assms(5,6) by simp_all
  have len: "length (newest q t) = length (filter (matches q) t)" by (simp add: newest_def)
  have "export_loop (\<lambda>c n. pg_query ?cc q c n t) ?cap fuel (take 0 (newest q t)) None = Some (Inr (take ?cap (newest q t), ?cap < length (newest q t)))"
    by (rule pg.export_collects [OF assms(1) t assms(3) refl _ pos]) simp_all
  then have pg: "export_events env stamp st (pg_backend scan groups) fuel header q t = Some (AuditOk 200 (export_document stamp ?cap q t))"
    using assms(4) len by (simp add: export_events_def pg_backend_def export_document_def min.commute)
  have "export_loop (\<lambda>c n. mem_query ?cc q c n m) ?cap fuel (take 0 (newest q (am_events m))) None
      = Some (Inr (take ?cap (newest q (am_events m)), ?cap < length (newest q (am_events m))))"
    by (rule mem.export_collects [OF assms(1) m(3) _ refl _ pos]) (use m(1) assms(3) in simp_all)
  then have mem: "export_events env stamp st mem_backend fuel header q m = Some (AuditOk 200 (export_document stamp ?cap q t))"
    using assms(4) len newest_agrees [OF assms(2)] by (simp add: export_events_def mem_backend_def export_document_def min.commute)
  from newest_strict [OF t, of q] show ?thesis using pg mem by (auto simp: newest_def)
qed

definition signed_from_str :: "string \<Rightarrow> int option" where
  "signed_from_str s =
     (case s of c # cs \<Rightarrow> if c = CHR ''-'' then map_option uminus (digits_value False 0 cs) else digits_value False 0 (c # cs) | [] \<Rightarrow> None)"

definition demo_audit_env :: audit_env where
  "demo_audit_env =
     \<lparr>an_workload_jwt = (\<lambda>_ _ _. JwtInvalid), an_b64 = Some,
      an_codec = \<lparr>cc_iso = int_str, cc_from_iso = signed_from_str, cc_b64 = (\<lambda>s. s), cc_unb64 = Some\<rparr>, an_instant = int_of_val, an_now = 0\<rparr>"

definition demo_audit_settings :: audit_settings where
  "demo_audit_settings =
     \<lparr>au_clients = [(''gw'', ''s'')], au_workload_issuer = [], au_workload_audience = [], au_workload_clients = [], au_retention_days = 30,
      au_max_events = 100, au_batch_size = 10, au_max_batch = 50, au_export_max_rows = 3\<rparr>"

lemma demo_audit_codec: "codec_ok (an_codec demo_audit_env)"
proof -
  have digit: "c \<noteq> CHR ''-'' \<and> c \<noteq> CHR ''|''" if "is_digit c" for c using that by (auto simp: is_digit_def)
  have "signed_from_str (nat_digits n) = Some (int n)" for n
    using nat_digits_head [of n] digits_value_nat_digits [of False n] digit by (auto simp: signed_from_str_def)
  moreover have "signed_from_str (CHR ''-'' # nat_digits n) = Some (- int n)" for n
    using digits_value_nat_digits [of False n] by (simp add: signed_from_str_def)
  moreover have "CHR ''|'' \<notin> set (nat_digits n)" for n using nat_digits_digits digit by blast
  ultimately show ?thesis by (auto simp: codec_ok_def demo_audit_env_def int_str_def)
qed

theorem audit_export_complete_witness:
  "\<exists>x. export_events demo_audit_env (\<lambda>_. ''t'') demo_audit_settings (pg_backend rev rev) 3 ''Basic gw:s'' no_filters demo_actors = Some (AuditOk 200 x)
     \<and> ex_rows x = 3 \<and> ex_truncated x"
proof -
  let ?m = "\<lparr>am_events = demo_actors, am_ids = map ae_id demo_actors\<rparr>"
  have "distinct (map ae_id demo_actors)" and ids: "\<forall>e \<in> set demo_actors. ae_id e \<noteq> []" by code_simp+
  then have sim: "audit_sim ?m demo_actors" by (simp add: audit_sim_def)
  have caller: "authenticate_caller demo_audit_env demo_audit_settings ''Basic gw:s'' = Inr ''gw''" by code_simp
  have cap: "au_export_max_rows demo_audit_settings = 3" by (simp add: demo_audit_settings_def)
  have all: "length (filter (matches no_filters) demo_actors) = 12" by code_simp
  have "export_events demo_audit_env (\<lambda>_. ''t'') demo_audit_settings (pg_backend rev rev) 3 ''Basic gw:s'' no_filters demo_actors
      = Some (AuditOk 200 \<lparr>ex_rows = 3, ex_truncated = True,
          ex_lines = csv_line CSV_COLUMNS # map (event_row (\<lambda>_. ''t'')) (take 3 (newest no_filters demo_actors))\<rparr>)"
    using audit_export_complete [OF demo_audit_codec sim ids caller, of 3] cap all by (simp add: export_document_def)
  then show ?thesis by simp
qed

end
