(* ===== verification/Spec2Isabelle.thy ===== *)
theory Spec2Isabelle
  imports Platform_Policy Execution_Cutover Execution_Records Execution_Handoff Authorization_Store
    Confirmation_Records Flow_Authority Single_Flight Kernel_Executions Tool_Invocation
    Kernel_Middleware Http_Connector Audit_Export
begin

text \<open>
  A verification library of the Luban AIOps services (paths below are under
  \<open>src/products\<close>, Python packages \<open>tool_gateway\<close>, \<open>platform_gateway\<close>, \<open>agent_service\<close>,
  \<open>execution_runtime\<close>, \<open>identity_service\<close> and \<open>audit_service\<close>).

  \<^bold>\<open>The program.\<close> An operator talks to an agent through the platform gateway, which decides by policy
  what a role may do. The agent parks every mutating tool call until a human approves the card; an
  approval turns each parked call into a signed execution request, registered in a durable ledger.
  The execution worker takes the request over HTTP, claims the one right to dispatch it, passes a
  send gate, calls the tool gateway once, and records the result with a signed receipt. The tool
  gateway again decides by policy and keeps authorizations of users at external targets. A run
  that becomes uncertain is stopped for good. The properties are those this chain relies on:
  nothing is sent without a decision, nothing is sent twice, what is recorded is final, bounded and
  verifiable, and every failure leaves the safe state.

  \<^bold>\<open>Foundations.\<close>
  \<^item> \<open>Prelude\<close>: Python dictionaries, stable sorting, slices, and the interfaces: \<open>keyed_store\<close>,
    \<open>invariant_machine\<close>, \<open>settled_once\<close>, \<open>admitted_invariant\<close>, \<open>settled_while\<close>, \<open>final_until_gone\<close>
    and \<open>refines\<close>. Each is interpreted in the theories of the components that provide it, and the
    history properties below come from these interpretations.
  \<^item> \<open>Py_Values\<close>: the dynamic values of YAML and JSON documents and the built-ins applied to them.

  \<^bold>\<open>Policy.\<close>
  \<^item> \<open>Policy_Engine\<close> (\<open>tool_gateway/services/policy_engine.py\<close>): bundle parser, cached loader,
    \<open>evaluate\<close>. C1 and C3: exactly when an action is allowed, and a failed load is closed and keeps the cache.
    Lemmas: no approval on this gateway, and what the agent-role axis does to deny rules.
  \<^item> \<open>Platform_Policy\<close> (\<open>platform_gateway/services/policy_engine.py\<close>, \<open>policy_matrix.py\<close>). C6: the
    matrix shows the engine's decisions; a lemma: every required approval is enforceable.

  \<^bold>\<open>Execution protocol and ledger.\<close>
  \<^item> \<open>Execution_Signing\<close>, \<open>Execution_Protocol\<close> (\<open>execution_runtime/services/execution_signing.py\<close>,
    \<open>execution_protocol.py\<close>): canonical JSON, signatures, receipts, validation. C7 and C8; for any MAC, a
    signature that verifies on other fields is a collision of it.
  \<^item> \<open>Ledger_Tables\<close>, \<open>Execution_Ledger\<close>, \<open>Execution_Recovery\<close> (\<open>execution_ledger.py\<close> of the worker,
    \<open>execution_recovery.py\<close> of the agent): the shared tables and every operation of both products as
    one transaction, with statement and commit failures as inputs.
  \<^item> \<open>Ledger_Machine\<close>, \<open>Ledger_Safety\<close>, \<open>Ledger_Evidence\<close>: the operations decomposed into row changes,
    the invariant, and C11, C13 to C15: admission of claims, permanent stops, bounded evidence, a
    single-use send gate; for every interleaving of the two products. Lemmas: one permit per
    execution, only a recorded result is accepted, a sound recovery lookup, protected retention.
  \<^item> \<open>Execution_Cutover\<close> (\<open>execution_cutover.py\<close>, \<open>execution_migration.py\<close>): lemmas that upgrades are
    interlocked and never enable admission.

  \<^bold>\<open>Worker.\<close>
  \<^item> \<open>Execution_Records\<close> (\<open>execution_records.py\<close> of both products): C22 and C23, a record closes once until its session is deleted, and
    the memory backend refines the same behaviour as the table.
  \<^item> \<open>Executor\<close>, \<open>Execution_Handoff\<close> (\<open>executor.py\<close>, \<open>delegated_execution.py\<close>, \<open>api/routes/handoff.py\<close>):
    the whole route over an adversarial schedule of ledger operations. C24 to C26: at most one gateway
    exchange per execution, across retention sweeps too, only under full authority, and the receipt over
    a result recorded before that result is reported.
  \<^item> \<open>Single_Flight\<close> (\<open>single_flight.py\<close>): interleavings of callers as a step relation. C40.

  \<^bold>\<open>Tool gateway.\<close>
  \<^item> \<open>Redaction\<close> (\<open>tools/redaction.py\<close>), \<open>Tool_Invocation\<close> (\<open>tools/base.py\<close>, \<open>tools/registry.py\<close>,
    \<open>services/gateway_service.py\<close>, \<open>delegated_invoke.py\<close>, \<open>token_verifier.py\<close>): one invocation from the
    request to the audited answer. C2: exactly which tool runs. C9: what the values of an answer may contain,
    and what the withheld answer still repeats. C21: the
    worker's delegated request is accepted. C36: what the delegated route requires.
  \<^item> \<open>Authorization_Store\<close> (\<open>authorization_transaction_store.py\<close>, \<open>authorization_transactions.py\<close>,
    \<open>custody_crypto.py\<close>): C29, single use of challenges; a lemma binds them to the browser.
  \<^item> \<open>Password_Policy\<close> (\<open>tools/password_policy.py\<close>): the contract store, whose policies always meet the
    floor, and the generator; lemmas: the shuffle reaches every arrangement from exactly one sequence
    of draws, and the packaged policy always generates. \<open>Secret_Delivery\<close> (\<open>tools/secret_delivery.py\<close>):
    C28, a secret is revealed once, to its owner. \<open>Secrets_Connector\<close> (\<open>tools/secrets_connector.py\<close>,
    \<open>api/routes/secrets.py\<close>): C12, a generated password is strong and reaches its requester; a
    lemma: a mailed secret enters nothing but its message.
  \<^item> \<open>Outbound_Auth\<close> (\<open>tools/credential_sets.py\<close>, \<open>oauth_client.py\<close>, \<open>auth_resolution.py\<close>): C17, the
    credential sets in use are current and complete; a lemma: tokens come from the endpoint.
    \<open>Http_Connector\<close> (\<open>tools/http_connector.py\<close>, \<open>url_redaction.py\<close>): C16, requests reach allowed
    destinations only; lemmas: body and header bounds, and that the gateway's URL redaction is the agent's.

  \<^bold>\<open>Agent.\<close>
  \<^item> \<open>Original_Response\<close> (\<open>execution_protocol.py\<close>, \<open>execution_run_guard.py\<close>): C31 and C32, release of
    secrets only on an original recorded result, and stops that fail closed.
  \<^item> \<open>Agent_Invocation\<close> (\<open>execution_worker_client.py\<close>, \<open>execution_invocation.py\<close>,
    \<open>tools/gateway_tools.py\<close>): the agent side of the handoff. C4: what one approved call sends and what
    it reports. C10: a mutating tool needs a signed request and goes to the worker only.
  \<^item> \<open>Kernel_Executions\<close> (\<open>_prepare_executions\<close> and \<open>_observe_tool_result\<close> of \<open>runtime_kernel.py\<close>): C20, an
    approved call passes every check from the card to the worker's parser, given the schema and size of its
    request; a lemma: how a tool
    result closes its record.
  \<^item> \<open>Confirmation_Records\<close> (\<open>confirmation_records.py\<close>): C33, decisions are recorded once; lemmas:
    records are capped, history pages are complete.
  \<^item> \<open>Confirmations\<close>, \<open>Request_Signing\<close> (\<open>hitl_confirmations.py\<close>, \<open>execution_signing.py\<close>,
    \<open>delegated_identity.py\<close>): C37, a parked batch is handed out once; a lemma: what an approval
    signs the worker accepts.
  \<^item> \<open>Flow_Authority\<close> (\<open>flow_approvals.py\<close> and the flow seams of \<open>runtime_kernel.py\<close>): C39, every
    signature made without a card goes back to one recorded approval of the same flow.
  \<^item> \<open>Secret_Params\<close> (\<open>secret_params.py\<close>): the projections of a call's parameters for cards, evidence and
    traces. C18: what they hide.
  \<^item> \<open>Kernel_Middleware\<close> (\<open>kernel_middleware.py\<close>): C38, when a mutating call needs no confirmation; the
    turn that stops for a target authorization as a step relation of interleaved calls, C30 (nothing
    is dispatched after the stop) and C19 (no call is locked out, but by a call cancelled with the lock, and then
    until the turn closes); C35, held secrets are released once.

  \<^bold>\<open>Identity and audit.\<close>
  \<^item> \<open>Identity_Broker\<close> (\<open>identity_service\<close>: \<open>token_service.py\<close>, \<open>exchange_service.py\<close>,
    \<open>identity_service.py\<close> and the routes): logins, refreshes, the development mint and the exchange as a
    step relation. C27: what a token accepted by the tool gateway goes back to.
  \<^item> \<open>Audit_Store\<close> (\<open>audit_service/services/audit_store.py\<close> and the schemas): C34, the memory and the
    Postgres store agree on every history with positive caps, up to the top actors of a summary, and batched
    eviction ends and keeps the newest events.
    \<open>Audit_Export\<close> (the routes, \<open>ingest_auth.py\<close>, \<open>retention.py\<close>): C5, the export ends, is complete and says
    when it is cut; the fuel of its loop is the row limit.

  \<^bold>\<open>Conventions.\<close> A raise is a value of a sum type; a transaction is a function from the tables to a
  result and the tables after it; clocks, fresh identifiers, database failures and the behaviour of
  code outside the repository (hash functions, the JSON-Schema validator, JWT verification, YAML and
  ISO readers, the HTTP peer) are arguments, with what a property needs of them as its hypotheses.
  Times are integers in microseconds. The loops of these components run over finite data, so the
  recursion is structural; where a loop runs over pages or batches, its end is proved. Text is compared by code point.
  Characters are code points below 256 and numbers are integers: documents with other characters or with
  floating-point numbers are outside the models of JSON, redaction and the stores, and the statements on
  canonical JSON and signatures are about documents without them. Nothing is assumed of the hash and the
  MAC but what a property names.

  \<^bold>\<open>Not modelled.\<close> The model loop and turn streaming of the agent run on an agent framework outside
  the repository; the display projections of a card are not signed; the
  Postgres authorization store, custody, the other connectors of the tool gateway, the
  skills hub, the incident service and the gateways' HTTP routes are not yet modelled;
  telemetry, configuration, deployment files and the portal's user interface carry no decision of this
  chain. A next step would be the session and evidence stores, prose redaction, the browser
  sessions, and the incident store.
\<close>

end
